(* ===== verification/Py_Prelude.thy ===== *)
theory Py_Prelude
  imports Main "HOL-Library.Word"
begin

text \<open>
  Shared vocabulary of the development.

  \<^item> Python values: unbounded \<open>int\<close> with \<open>AND\<close>, \<open>OR\<close>, \<open>XOR\<close>, \<open>push_bit\<close>, \<open>drop_bit\<close> for
    the operators \<open>&\<close>, \<open>|\<close>, \<open>^\<close>, \<open><<\<close>, \<open>>>\<close> (HOL's bit operations on \<open>int\<close> are those of an
    infinite two's complement number, as in Python), \<open>div\<close> and \<open>mod\<close> for \<open>//\<close> and \<open>%\<close>
    (both round towards minus infinity).
  \<^item> Exceptions: \<open>py_error\<close> names the exception class, \<open>'a py\<close> is the result of code that may
    raise, \<open>fold_py\<close> runs a body over a sequence and stops at the first exception.
  \<^item> Coroutines: a cocotb coroutine talks to the simulator through \<open>await <trigger>\<close> and
    through assignments to \<open><signal>.value\<close>. Both are values of \<open>action\<close>, so a driver is the
    list of actions it performs; a monitor is a function of the sampled signals \<open>pins\<close>.
  \<^item> The collections \<open>py_defs\<close> (definitions a concrete evaluation unfolds) and \<open>bits\<close>
    (rewriting masks, shifts and single bits of \<open>int\<close>).
\<close>

unbundle bit_operations_syntax

named_theorems py_defs "definitions unfolded to evaluate the model on a concrete input"
named_theorems bits "masks, shifts and single bits of unbounded integers"

section \<open>Exceptions\<close>

datatype py_error =
    AssertionError
  | AttributeError
  | ConfigItemNotFound
  | Exception
  | FileNotFoundError
  | IndexError
  | KeyError
  | NotImplementedError
  | ParseError
  | QueueFull
  | RuntimeError
  | StructError
  | TimeoutError
  | TypeError
  | UnboundLocalError
  | ValueError
  | ZeroDivisionError

type_synonym 'a py = "py_error + 'a"

definition bind_py :: "'a py \<Rightarrow> ('a \<Rightarrow> 'b py) \<Rightarrow> 'b py" where
  "bind_py m f = (case m of Inl e \<Rightarrow> Inl e | Inr x \<Rightarrow> f x)"

fun fold_py :: "('i \<Rightarrow> 's \<Rightarrow> 's py) \<Rightarrow> 'i list \<Rightarrow> 's \<Rightarrow> 's py" where
  "fold_py f [] s = Inr s"
| "fold_py f (x # xs) s = bind_py (f x s) (fold_py f xs)"

fun map_py :: "('a \<Rightarrow> 'b py) \<Rightarrow> 'a list \<Rightarrow> 'b list py" where
  "map_py f [] = Inr []"
| "map_py f (x # xs) = bind_py (f x) (\<lambda>y. bind_py (map_py f xs) (\<lambda>ys. Inr (y # ys)))"

section \<open>Coroutines\<close>

datatype trigger =
    RisingEdge string
  | FallingEdge string
  | ClockCycles string nat
  | Timer int

datatype action =
    Await trigger
  | Drive string int
  | ItemDone

type_synonym pins = "string \<Rightarrow> int"

text \<open>
  The values the assignments of an action list leave on the signals: \<open>rd s v\<close> is what signal
  \<open>s\<close> reads after \<open>v\<close> was assigned to it (the simulator truncates to the width of \<open>s\<close>).
\<close>

fun pins_after :: "(string \<Rightarrow> int \<Rightarrow> int) \<Rightarrow> action list \<Rightarrow> pins \<Rightarrow> pins" where
  "pins_after rd [] p = p"
| "pins_after rd (Drive s v # as) p = pins_after rd as (p(s := rd s v))"
| "pins_after rd (Await t # as) p = pins_after rd as p"
| "pins_after rd (ItemDone # as) p = pins_after rd as p"

text \<open>
  The pins as a monitor samples them: one value per rising edge of the clock awaited in the
  action list. An assignment made after an edge is visible at the next edge only.
\<close>

fun edge_samples :: "(string \<Rightarrow> int \<Rightarrow> int) \<Rightarrow> action list \<Rightarrow> pins \<Rightarrow> pins list" where
  "edge_samples rd [] p = []"
| "edge_samples rd (Drive s v # as) p = edge_samples rd as (p(s := rd s v))"
| "edge_samples rd (Await (RisingEdge _) # as) p = p # edge_samples rd as p"
| "edge_samples rd (Await _ # as) p = edge_samples rd as p"
| "edge_samples rd (ItemDone # as) p = edge_samples rd as p"

text \<open>
  What a driver gets from its sequencer: an item of the class it tests for with
  \<open>isinstance\<close>, or something else.
\<close>

datatype 'i seq_item = Item 'i | OtherItem

text \<open>Python's \<open>next((x for x in xs if P x), d)\<close>.\<close>

definition py_next :: "('a \<Rightarrow> bool) \<Rightarrow> 'a list \<Rightarrow> 'a \<Rightarrow> 'a" where
  "py_next P xs d = (case find P xs of None \<Rightarrow> d | Some x \<Rightarrow> x)"

text \<open>The number of \<open>1\<close> digits of \<open>bin(n)\<close>.\<close>

fun count_ones :: "nat \<Rightarrow> nat" where
  "count_ones n = (if n = 0 then 0 else n mod 2 + count_ones (n div 2))"

declare count_ones.simps [simp del]

text \<open>
  A driver takes items from its sequencer for ever; on a finite supply it performs the actions
  of each item, reports the item as done, and stops at an exception.
\<close>

fun run_driver :: "('i \<Rightarrow> action list py) \<Rightarrow> 'i list \<Rightarrow> action list \<times> py_error option" where
  "run_driver drive [] = ([], None)"
| "run_driver drive (it # its) =
     (case drive it of
        Inl e \<Rightarrow> ([], Some e)
      | Inr as \<Rightarrow> (let (bs, r) = run_driver drive its in (as @ ItemDone # bs, r)))"

section \<open>Lemmas on exceptions\<close>

lemma bind_py_simps [simp]:
  "bind_py (Inl e) f = Inl e"
  "bind_py (Inr x) f = f x"
  by (simp_all add: bind_py_def)

lemma bind_py_eq_Inr: "bind_py m f = Inr y \<longleftrightarrow> (\<exists>x. m = Inr x \<and> f x = Inr y)"
  by (cases m) auto

lemma map_py_same: "map_py f xs = Inr ys \<Longrightarrow> (\<And>x y. x \<in> set xs \<Longrightarrow> f x = Inr y \<Longrightarrow> g x = Inr y) \<Longrightarrow> map_py g xs = Inr ys"
  by (induction xs arbitrary: ys) (auto simp: bind_py_eq_Inr)

lemma map_py_Inr: "map_py f xs = Inr ys \<Longrightarrow> x \<in> set xs \<Longrightarrow> \<exists>y\<in>set ys. f x = Inr y"
  by (induction xs arbitrary: ys) (auto simp: bind_py_eq_Inr)

lemma map_py_covers: "map_py f xs = Inr ys \<Longrightarrow> y \<in> set ys \<Longrightarrow> \<exists>x\<in>set xs. f x = Inr y"
  by (induction xs arbitrary: ys) (auto simp: bind_py_eq_Inr)

lemma fold_py_single [simp]: "fold_py f [x] s = f x s"
  by (cases "f x s") simp_all

lemma fold_py_append: "fold_py f (xs @ ys) s = bind_py (fold_py f xs s) (fold_py f ys)"
proof (induction xs arbitrary: s)
  case Nil
  show ?case by simp
next
  case (Cons x xs)
  show ?case by (cases "f x s") (simp_all add: Cons.IH)
qed

lemma fold_py_total: "(\<And>x s. x \<in> set xs \<Longrightarrow> f x s = Inr (g x s)) \<Longrightarrow> fold_py f xs s = Inr (fold g xs s)"
  by (induction xs arbitrary: s) auto

lemma fold_py_cong:
  "(\<And>x s. x \<in> set xs \<Longrightarrow> f x s = g x s) \<Longrightarrow> fold_py f xs s = fold_py g xs s"
  by (induction xs arbitrary: s) (auto simp: bind_py_def split: sum.splits)

lemma pins_after_append: "pins_after rd (xs @ ys) p = pins_after rd ys (pins_after rd xs p)"
  by (induction rd xs p rule: pins_after.induct) (simp_all add: fun_upd_def)

section \<open>Masks, shifts and bits\<close>

lemma and_mask [bits]:
  "(x::int) AND 0xFFFFFFFF = take_bit 32 x"
  "(x::int) AND 0xFFFF = take_bit 16 x"
  "(x::int) AND 0xFF = take_bit 8 x"
  "(x::int) AND 31 = take_bit 5 x"
  by (simp_all add: take_bit_eq_mask mask_eq_exp_minus_1)

lemma and_one_of_bool: "(x::int) AND 1 = of_bool (bit x 0)"
  by (simp add: and_one_eq mod_2_eq_odd bit_0)

lemma drop_and_one [bits]: "(drop_bit n (x::int)) AND 1 = of_bool (bit x n)"
  by (simp add: and_one_of_bool bit_drop_bit_eq)

lemma one_and_drop [bits]: "1 AND (drop_bit n (x::int)) = of_bool (bit x n)"
  using drop_and_one [of n x] by (simp add: and.commute)

lemma uint_bounds32: "0 \<le> uint (w::32 word)" "uint (w::32 word) < 2 ^ 32"
  using uint_lt2p [of w] by simp_all

lemma take_bit_uint32 [simp]: "take_bit 32 (uint (w::32 word)) = uint w"
  using uint_bounds32 [of w] by (simp add: take_bit_int_eq_self_iff)

lemma bit_uint32: "bit (uint (w::32 word)) n \<longleftrightarrow> bit w n"
  using bit_imp_le_length [of w n] by (auto simp: bit_uint_iff)

lemma bit32_less: "bit (a :: 32 word) n \<Longrightarrow> n < 32"
  using bit_imp_le_length [of a n] by simp

lemma finite_bit_nat: "finite {i. bit (n::nat) i}"
proof (rule finite_subset)
  show "{i. bit n i} \<subseteq> {..<n}"
  proof
    fix i assume "i \<in> {i. bit n i}"
    then have "2 ^ i \<le> n"
      by (metis bit_iff_odd div_less even_zero linorder_not_less mem_Collect_eq)
    from less_le_trans [OF less_exp this] show "i \<in> {..<n}" by simp
  qed
qed simp

lemma count_ones_card: "count_ones n = card {i. bit n i}"
proof (induction n rule: count_ones.induct)
  case (1 n)
  show ?case
  proof (cases "n = 0")
    case True then show ?thesis by (simp add: count_ones.simps)
  next
    case False
    have *: "{i. bit n i} = (if odd n then {0} else {}) \<union> Suc ` {i. bit (n div 2) i}"
      by (auto simp: bit_Suc bit_0 image_iff split: if_splits) (metis bit_0 bit_Suc not0_implies_Suc)+
    have "card {i. bit n i} = n mod 2 + card {i. bit (n div 2) i}"
      unfolding * by (subst card_Un_disjoint) (auto simp: card_image finite_bit_nat odd_iff_mod_2_eq_one)
    with 1 False show ?thesis by (simp add: count_ones.simps [of n])
  qed
qed

lemma py_next_range:
  assumes "m \<le> 32" and "\<And>j. j < m \<Longrightarrow> \<not> P (int j)" and "m < 32 \<Longrightarrow> P (int m)"
  shows "py_next P [0..31] 32 = int m"
proof (cases "m < 32")
  case True
  then have "find P [0..31] = Some (int m)"
    using assms(2,3) by (auto simp: find_Some_iff intro!: exI [of _ m])
  then show ?thesis by (simp add: py_next_def)
next
  case False
  with assms(1) have m: "m = 32" by simp
  have "\<not> P x" if "x \<in> set [0..31]" for x
    using assms(2) [of "nat x"] that m by (auto simp: nat_less_iff)
  then have "find P [0..31] = None" by (auto simp: find_None_iff)
  with m show ?thesis by (simp add: py_next_def)
qed

lemma word_bits_nonempty: "(a::32 word) \<noteq> 0 \<Longrightarrow> {i. bit a i} \<noteq> {}"
  by (auto simp: bit_eq_iff)

lemma uint_of_nat_small: "n \<le> 32 \<Longrightarrow> uint (of_nat n :: 32 word) = int n"
  by (simp add: uint_nat unat_of_nat)

end
