(* ===== verification/Uvm_Port.thy ===== *)
theory Uvm_Port
  imports Py_Prelude
begin

text \<open>
  The loops every scoreboard shares, over the pyuvm analysis port it reads from.

  The port belongs to pyuvm, so its methods are arguments: \<open>try_get q\<close> is the item taken (the
  pair \<open>(got, item)\<close> of the source, \<open>None\<close> for \<open>(False, None)\<close>) and the port afterwards,
  \<open>can_get q\<close> whether an item is waiting. What the scoreboards rely on is \<open>fifo_port\<close> and
  \<open>fifo_can_get\<close>: items come out once each, in the order \<open>contents\<close> lists them.

  \<^item> \<open>pair_loop\<close>: \<open>while True\<close> over an input and an output port (ALU, multiplier, divider,
    trigger logic, instruction buffer); \<open>judge\<close> is the part of the body that predicts a result
    and compares it, \<open>Inr False\<close> when it sets \<open>self.passed = False\<close>.
  \<^item> \<open>drain_loop\<close>: \<open>while self.port.can_get()\<close> over one port (memories, DMA).
  \<^item> \<open>final_phase\<close>: the \<open>assert False\<close> a scoreboard ends with unless \<open>self.passed\<close> is true.

  Neither loop has a bound of its own; both are defined by \<open>partial_function (option)\<close> and the
  lemmas show that they return on every finite queue. The locale \<open>pair_scoreboard\<close> is the
  contract between the loop and a scoreboard's judge, interpreted once per scoreboard.
\<close>

section \<open>Definitions\<close>

definition fifo_port :: "('q \<Rightarrow> 'a list) \<Rightarrow> ('q \<Rightarrow> 'a option \<times> 'q) \<Rightarrow> bool" where
  "fifo_port contents try_get \<longleftrightarrow>
     (\<forall>q. case contents q of
        [] \<Rightarrow> fst (try_get q) = None \<and> contents (snd (try_get q)) = []
      | x # xs \<Rightarrow> fst (try_get q) = Some x \<and> contents (snd (try_get q)) = xs)"

definition fifo_can_get :: "('q \<Rightarrow> 'a list) \<Rightarrow> ('q \<Rightarrow> bool) \<Rightarrow> bool" where
  "fifo_can_get contents can_get \<longleftrightarrow> (\<forall>q. can_get q \<longleftrightarrow> contents q \<noteq> [])"

partial_function (option) pair_loop ::
  "('p \<Rightarrow> 'i option \<times> 'p) \<Rightarrow> ('q \<Rightarrow> 'o option \<times> 'q) \<Rightarrow> ('i \<Rightarrow> 'o \<Rightarrow> bool py)
   \<Rightarrow> 'p \<Rightarrow> 'q \<Rightarrow> bool option \<Rightarrow> bool option py option" where
  "pair_loop try_get_inp try_get_out judge port_inp port_out passed =
     (let (item_inp, port_inp') = try_get_inp port_inp;
          (item_out, port_out') = try_get_out port_out
      in case (item_inp, item_out) of
           (None, Some _) \<Rightarrow> Some (Inr (Some False))
         | (Some _, None) \<Rightarrow> Some (Inr (Some False))
         | (None, None) \<Rightarrow> Some (Inr passed)
         | (Some i, Some out) \<Rightarrow>
             (let passed' = (case passed of None \<Rightarrow> True | Some b \<Rightarrow> b)
              in case judge i out of
                   Inl e \<Rightarrow> Some (Inl e)
                 | Inr ok \<Rightarrow>
                     pair_loop try_get_inp try_get_out judge port_inp' port_out'
                       (Some (if ok then passed' else False))))"

partial_function (option) drain_loop ::
  "('q \<Rightarrow> bool) \<Rightarrow> ('q \<Rightarrow> 'i option \<times> 'q) \<Rightarrow> ('i \<Rightarrow> 's \<Rightarrow> 's py) \<Rightarrow> 'q \<Rightarrow> 's \<Rightarrow> 's py option" where
  "drain_loop can_get try_get body port s =
     (if \<not> can_get port then Some (Inr s)
      else let (item, port') = try_get port
        in case item of
             None \<Rightarrow> Some (Inl AssertionError)
           | Some i \<Rightarrow>
               (case body i s of
                  Inl e \<Rightarrow> Some (Inl e)
                | Inr s' \<Rightarrow> drain_loop can_get try_get body port' s'))"

definition final_phase :: "bool option \<Rightarrow> unit py" where
  "final_phase passed = (if passed = Some True then Inr () else Inl AssertionError)"

text \<open>A concrete port for evaluation: the queue is the list of its items.\<close>

fun list_try_get :: "'a list \<Rightarrow> 'a option \<times> 'a list" where
  "list_try_get [] = (None, [])"
| "list_try_get (x # xs) = (Some x, xs)"

definition list_can_get :: "'a list \<Rightarrow> bool" where
  "list_can_get xs \<longleftrightarrow> \<not> List.null xs"

section \<open>Ports\<close>

lemma list_fifo_port: "fifo_port (\<lambda>xs. xs) list_try_get"
  by (simp add: fifo_port_def split: list.split)

lemma list_fifo_can_get: "fifo_can_get (\<lambda>xs. xs) list_can_get"
  by (simp add: fifo_can_get_def list_can_get_def)

lemma fifo_port_Nil:
  assumes "fifo_port c tg" and "c q = []"
  shows "\<exists>q'. tg q = (None, q') \<and> c q' = []"
proof -
  from assms(1) have "case c q of
        [] \<Rightarrow> fst (tg q) = None \<and> c (snd (tg q)) = []
      | x # xs \<Rightarrow> fst (tg q) = Some x \<and> c (snd (tg q)) = xs"
    unfolding fifo_port_def by blast
  with assms(2) show ?thesis by (cases "tg q") simp
qed

lemma fifo_port_Cons:
  assumes "fifo_port c tg" and "c q = x # xs"
  shows "\<exists>q'. tg q = (Some x, q') \<and> c q' = xs"
proof -
  from assms(1) have "case c q of
        [] \<Rightarrow> fst (tg q) = None \<and> c (snd (tg q)) = []
      | x # xs \<Rightarrow> fst (tg q) = Some x \<and> c (snd (tg q)) = xs"
    unfolding fifo_port_def by blast
  with assms(2) show ?thesis by (cases "tg q") simp
qed

section \<open>The draining loop is a fold over the queue\<close>

lemma drain_loop_fold:
  assumes port: "fifo_port c tg" and can: "fifo_can_get c cg"
  shows "drain_loop cg tg body q s = Some (fold_py body (c q) s)"
proof (induction "c q" arbitrary: q s)
  case Nil
  note nil = Nil.hyps [symmetric]
  with can have "\<not> cg q" by (simp add: fifo_can_get_def)
  then show ?case unfolding nil by (subst drain_loop.simps) simp
next
  case (Cons x xs)
  obtain q' where q': "tg q = (Some x, q')" "c q' = xs"
    using fifo_port_Cons [OF port Cons.hyps(2) [symmetric]] by metis
  from Cons.hyps(2) [symmetric] can have "cg q" by (simp add: fifo_can_get_def)
  then have unfold: "drain_loop cg tg body q s =
      (case body x s of Inl e \<Rightarrow> Some (Inl e) | Inr s' \<Rightarrow> drain_loop cg tg body q' s')"
    by (subst drain_loop.simps) (simp add: q'(1))
  show ?case
    unfolding unfold Cons.hyps(2) [symmetric] Cons.hyps(1) [OF q'(2) [symmetric]] q'(2)
    by (simp split: sum.split)
qed

section \<open>The paired loop\<close>

text \<open>What the paired loop computes on the two queues.\<close>

fun pair_verdict :: "('i \<Rightarrow> 'o \<Rightarrow> bool py) \<Rightarrow> 'i list \<Rightarrow> 'o list \<Rightarrow> bool option \<Rightarrow> bool option py" where
  "pair_verdict judge [] [] passed = Inr passed"
| "pair_verdict judge [] (_ # _) passed = Inr (Some False)"
| "pair_verdict judge (_ # _) [] passed = Inr (Some False)"
| "pair_verdict judge (i # is) (out # os) passed =
     (case judge i out of
        Inl e \<Rightarrow> Inl e
      | Inr ok \<Rightarrow> pair_verdict judge is os
          (Some (if ok then (case passed of None \<Rightarrow> True | Some b \<Rightarrow> b) else False)))"

lemma pair_loop_verdict:
  assumes pi: "fifo_port ci tgi" and po: "fifo_port co tgo"
  shows "pair_loop tgi tgo judge p q passed = Some (pair_verdict judge (ci p) (co q) passed)"
proof (induction "ci p" arbitrary: p q passed)
  case Nil
  note nil = Nil.hyps [symmetric]
  obtain p' where p': "tgi p = (None, p')"
    using fifo_port_Nil [OF pi nil] by metis
  show ?case
  proof (cases "co q")
    case Nil
    then obtain q' where "tgo q = (None, q')" using fifo_port_Nil [OF po] by metis
    with p' Nil show ?thesis
      unfolding nil by (subst pair_loop.simps) simp
  next
    case (Cons y ys)
    then obtain q' where "tgo q = (Some y, q')" using fifo_port_Cons [OF po] by metis
    with p' Cons show ?thesis
      unfolding nil by (subst pair_loop.simps) simp
  qed
next
  case (Cons x xs)
  note IH = Cons.hyps(1) and hd = Cons.hyps(2)
  obtain p' where p': "tgi p = (Some x, p')" "ci p' = xs"
    using fifo_port_Cons [OF pi hd [symmetric]] by metis
  show ?case
  proof (cases "co q")
    case Nil
    then obtain q' where "tgo q = (None, q')" using fifo_port_Nil [OF po] by metis
    with p' Nil show ?thesis
      unfolding hd [symmetric] by (subst pair_loop.simps) simp
  next
    case (Cons y ys)
    then obtain q' where q': "tgo q = (Some y, q')" "co q' = ys"
      using fifo_port_Cons [OF po] by metis
    have unfold: "pair_loop tgi tgo judge p q passed =
        (case judge x y of
           Inl e \<Rightarrow> Some (Inl e)
         | Inr ok \<Rightarrow> pair_loop tgi tgo judge p' q'
             (Some (if ok then (case passed of None \<Rightarrow> True | Some b \<Rightarrow> b) else False)))"
      by (subst pair_loop.simps) (simp add: p'(1) q'(1))
    show ?thesis
      unfolding unfold hd [symmetric] \<open>co q = y # ys\<close> IH [OF p'(2) [symmetric]] p'(2) q'(2)
      by (simp split: sum.split)
  qed
qed

text \<open>The check passes when there is a pair, none is left over and every pair is judged good.\<close>

lemma pair_verdict_failed: "pair_verdict judge is os (Some False) \<noteq> Inr (Some True)"
  by (induction judge "is" os "Some False" rule: pair_verdict.induct) (simp_all split: sum.split)

lemma pair_verdict_true:
  "pair_verdict judge is os (Some True) = Inr (Some True) \<longleftrightarrow> list_all2 (\<lambda>i out. judge i out = Inr True) is os"
  by (induction judge "is" os "Some True" rule: pair_verdict.induct)
    (simp_all add: pair_verdict_failed split: sum.split)

lemma pair_loop_passes_iff:
  assumes "fifo_port ci tgi" and "fifo_port co tgo"
  shows "pair_loop tgi tgo judge p q None = Some (Inr (Some True)) \<longleftrightarrow>
    ci p \<noteq> [] \<and> list_all2 (\<lambda>i out. judge i out = Inr True) (ci p) (co q)"
  by (cases "ci p"; cases "co q")
    (auto simp: pair_loop_verdict [OF assms] pair_verdict_true pair_verdict_failed split: sum.split)

section \<open>The contract between the loop and a scoreboard's judge\<close>

text \<open>
  A judge looks at one input and one output item. On a \<open>valid\<close> input it compares: it answers
  whether the output \<open>agrees\<close> with the prediction. On any other input it raises \<open>fault\<close>.
\<close>

locale pair_scoreboard =
  fixes judge :: "'i \<Rightarrow> 'o \<Rightarrow> bool py"
    and valid :: "'i \<Rightarrow> bool"
    and agrees :: "'i \<Rightarrow> 'o \<Rightarrow> bool"
    and fault :: "'i \<Rightarrow> py_error"
  assumes judge_valid: "valid i \<Longrightarrow> judge i out = Inr (agrees i out)"
    and judge_invalid: "\<not> valid i \<Longrightarrow> judge i out = Inl (fault i)"
begin

lemma judge_true: "judge i out = Inr True \<longleftrightarrow> valid i \<and> agrees i out"
  by (cases "valid i") (simp_all add: judge_valid judge_invalid)

lemma check_passes_iff:
  assumes "fifo_port ci tgi" and "fifo_port co tgo"
  shows "pair_loop tgi tgo judge p q None = Some (Inr (Some True)) \<longleftrightarrow>
    ci p \<noteq> [] \<and> list_all2 (\<lambda>i out. valid i \<and> agrees i out) (ci p) (co q)"
  by (simp add: pair_loop_passes_iff [OF assms] judge_true)

lemma verdict_valid_total:
  "list_all valid is \<Longrightarrow> \<exists>r. pair_verdict judge is os passed = Inr r"
proof (induction "is" arbitrary: os passed)
  case Nil
  show ?case by (cases os) simp_all
next
  case (Cons i "is")
  then show ?case by (cases os) (simp_all add: judge_valid)
qed

lemma check_returns:
  assumes "fifo_port ci tgi" and "fifo_port co tgo" and "list_all valid (ci p)"
  shows "\<exists>r. pair_loop tgi tgo judge p q passed = Some (Inr r)"
  using verdict_valid_total [OF assms(3)] by (simp add: pair_loop_verdict [OF assms(1,2)])

lemma check_raises:
  assumes "fifo_port ci tgi" and "fifo_port co tgo"
    and "ci p = is @ i # is'" and "list_all valid is" and "\<not> valid i"
    and "length is < length (co q)"
  shows "pair_loop tgi tgo judge p q passed = Some (Inl (fault i))"
proof -
  have "pair_verdict judge (is @ i # is') os passed = Inl (fault i)"
    if "list_all valid is" "length is < length os" for os passed
    using that
  proof (induction "is" arbitrary: os passed)
    case Nil
    with assms(5) show ?case by (cases os) (simp_all add: judge_invalid)
  next
    case (Cons j js)
    then show ?case by (cases os) (simp_all add: judge_valid)
  qed
  with assms show ?thesis by (simp add: pair_loop_verdict [OF assms(1,2)])
qed

end

lemma final_phase_iff: "final_phase passed = Inr () \<longleftrightarrow> passed = Some True"
  by (simp add: final_phase_def)

end
