(* ===== verification/Pulse_Unit.thy ===== *)
theory Pulse_Unit
  imports Uvm_Port
begin

text \<open>
  Units driven by a one-cycle \<open>valid\<close> pulse (ALU and multiplier). The driver waits for an edge,
  raises \<open>valid\<close> together with the operands, waits for the next edge and drops \<open>valid\<close>; the
  input monitor samples the pins at every edge where \<open>valid\<close> is set; the output monitor samples
  the result one edge later.

  The locale \<open>pulse_unit\<close> is the contract between such a driver and its monitors. Its lemmas
  show, once for both units, that the monitors see every driven item exactly once and in order,
  and pair it with the result the device registered for it.
\<close>

section \<open>Definitions\<close>

definition drives :: "(string \<times> int) list \<Rightarrow> action list" where
  "drives xs = map (\<lambda>(s, v). Drive s v) xs"

definition pulse :: "string \<Rightarrow> (string \<times> int) list \<Rightarrow> action list" where
  "pulse vpin xs =
     Await (RisingEdge ''clk'') # drives xs @ [Await (RisingEdge ''clk''), Drive vpin 0]"

text \<open>Sampling the output pin one edge after each edge with \<open>valid\<close> set.\<close>

fun delayed_samples :: "string \<Rightarrow> string \<Rightarrow> pins list \<Rightarrow> int list" where
  "delayed_samples vpin opin [] = []"
| "delayed_samples vpin opin [p] = []"
| "delayed_samples vpin opin (p # q # ps) =
     (if p vpin \<noteq> 0 then q opin # delayed_samples vpin opin ps
      else delayed_samples vpin opin (q # ps))"

text \<open>
  A device that computes a function \<open>f\<close> of its pins and registers it: \<open>r\<close> is the output
  register, visible on \<open>opin\<close> and loaded at every edge.
\<close>

fun registered :: "string \<Rightarrow> (pins \<Rightarrow> int) \<Rightarrow> int \<Rightarrow> pins list \<Rightarrow> pins list" where
  "registered opin f r [] = []"
| "registered opin f r (p # ps) = p(opin := r) # registered opin f (f p) ps"

section \<open>Pins\<close>

lemma pins_after_drives:
  "pins_after rd (drives xs) p s = (case map_of (rev xs) s of None \<Rightarrow> p s | Some v \<Rightarrow> rd s v)"
  unfolding drives_def
  by (induction xs arbitrary: p) (auto simp: map_of_append map_add_def split: option.splits)

lemma edge_samples_drives:
  "edge_samples rd (drives xs @ as) p = edge_samples rd as (pins_after rd (drives xs) p)"
  unfolding drives_def by (induction xs arbitrary: p) auto

lemma delayed_samples_idle: "p vpin = 0 \<Longrightarrow> delayed_samples vpin opin (p # ps) = delayed_samples vpin opin ps"
  by (cases ps) simp_all

lemma run_driver_Cons:
  "drive it = Inr as \<Longrightarrow>
   fst (run_driver drive (it # its)) = as @ ItemDone # fst (run_driver drive its)"
  by (simp split: prod.split)

section \<open>The contract of a pulsed unit\<close>

locale pulse_unit =
  fixes vpin opin :: string
    and drive :: "'it \<Rightarrow> action list py"
    and stimulus :: "'it \<Rightarrow> (string \<times> int) list"
    and ok :: "'it \<Rightarrow> bool"
    and pin_ok :: "(string \<Rightarrow> int \<Rightarrow> int) \<Rightarrow> bool"
    and decode :: "pins \<Rightarrow> 'd"
    and view :: "'it \<Rightarrow> 'd"
  assumes drive_pulse: "drive it = Inr (pulse vpin (stimulus it))"
    and stimulus_valid: "pin_ok rd \<Longrightarrow> ok it \<Longrightarrow> pins_after rd (drives (stimulus it)) p vpin = 1"
    and stimulus_view: "pin_ok rd \<Longrightarrow> ok it \<Longrightarrow> decode (pins_after rd (drives (stimulus it)) p) = view it"
    and release: "pin_ok rd \<Longrightarrow> rd vpin 0 = 0"
    and decode_frame: "decode (p(opin := x)) = decode p"
    and distinct_pins: "vpin \<noteq> opin"
begin

definition samples :: "(string \<Rightarrow> int \<Rightarrow> int) \<Rightarrow> 'it list \<Rightarrow> pins \<Rightarrow> pins list" where
  "samples rd its p =
     edge_samples rd (fst (run_driver drive its) @ [Await (RisingEdge ''clk'')]) p"

lemma samples_Nil: "samples rd [] p = [p]"
  by (simp add: samples_def)

lemma samples_Cons:
  assumes "pin_ok rd" and "q = pins_after rd (drives (stimulus it)) p"
  shows "samples rd (it # its) p = p # q # samples rd its (q(vpin := 0))"
  using run_driver_Cons [where drive = drive and it = it and its = its, OF drive_pulse] assms
  by (simp add: samples_def pulse_def edge_samples_drives release del: run_driver.simps)

lemma samples_hd: "pin_ok rd \<Longrightarrow> \<exists>ps. samples rd its p = p # ps"
  by (cases its) (simp_all add: samples_Nil samples_Cons [OF _ refl])

lemma monitors_run:
  assumes rd: "pin_ok rd" and "list_all ok its" and "p vpin = 0"
  shows "map decode (filter (\<lambda>p. p vpin \<noteq> 0) (registered opin (\<lambda>p. g (decode p)) r (samples rd its p)))
      = map view its
    \<and> delayed_samples vpin opin (registered opin (\<lambda>p. g (decode p)) r (samples rd its p))
      = map (\<lambda>it. g (view it)) its"
  using assms(2,3)
proof (induction its arbitrary: p r)
  case Nil
  then show ?case using distinct_pins by (simp add: samples_Nil)
next
  case (Cons it its)
  define q where "q = pins_after rd (drives (stimulus it)) p"
  let ?q = "q(vpin := 0)"
  let ?R = "registered opin (\<lambda>p. g (decode p))"
  from Cons.prems(1) have ok: "ok it" "list_all ok its" by simp_all
  have q: "q vpin = 1" "decode q = view it"
    unfolding q_def by (rule stimulus_valid [OF rd ok(1)], rule stimulus_view [OF rd ok(1)])
  have IH: "map decode (filter (\<lambda>p. p vpin \<noteq> 0) (?R (g (view it)) (samples rd its ?q))) = map view its
    \<and> delayed_samples vpin opin (?R (g (view it)) (samples rd its ?q)) = map (\<lambda>it. g (view it)) its"
    by (rule Cons.IH) (use ok in simp_all)
  obtain ps where ps: "samples rd its ?q = ?q # ps"
    using samples_hd [OF rd] by blast
  show ?case
    using IH q Cons.prems(2) distinct_pins unfolding samples_Cons [OF rd q_def] ps
    by (simp add: delayed_samples_idle decode_frame)
qed

lemmas monitors_see_items = monitors_run [THEN conjunct1]
  and monitors_see_results = monitors_run [THEN conjunct2]

end

end
