(* ===== verification/Exu_Alu.thy ===== *)
theory Exu_Alu
  imports Pulse_Unit
begin

text \<open>
  The ALU testbench, \<open>verification/block/exu_alu/testbench.py\<close>: the driver that turns an item
  into pin activity, the two monitors that turn pin activity back into items, the scoreboard with
  its reference model of 21 operations, the random sequence and the reset.

  The reference model \<open>alu_predict\<close> computes on unbounded integers; \<open>alu_spec\<close> is the
  RISC-V meaning of the same operations on 32-bit words, and \<open>alu_predict_refines\<close> shows
  that the first implements the second.
\<close>

unbundle bit_operations_syntax

section \<open>Items\<close>

record alu_input_item =
  alu_op :: "string option"
  alu_a :: int
  alu_b :: int
  alu_csr :: int
  alu_pc :: int

record alu_output_item =
  alu_out :: int

definition AluInputItem :: "string option \<Rightarrow> int \<Rightarrow> int \<Rightarrow> alu_input_item" where
  "AluInputItem op a b = \<lparr>alu_op = op, alu_a = a, alu_b = b, alu_csr = 0, alu_pc = 0\<rparr>"

section \<open>Driver\<close>

text \<open>The one-hot control pins, in the order the driver assigns them.\<close>

definition alu_ctrl_pins :: "(string \<times> string list) list" where
  "alu_ctrl_pins =
    [(''ap_clz'', [''clz'']), (''ap_ctz'', [''ctz'']), (''ap_cpop'', [''cpop'']),
     (''ap_sext_b'', [''sext_b'']), (''ap_sext_h'', [''sext_h'']),
     (''ap_rol'', [''rol'']), (''ap_ror'', [''ror'']),
     (''ap_bset'', [''bset'']), (''ap_bclr'', [''bclr'']),
     (''ap_binv'', [''binv'']), (''ap_bext'', [''bext'']),
     (''ap_pack'', [''pack'']), (''ap_packh'', [''packh'']),
     (''ap_sh1add'', [''sh1add'']), (''ap_sh2add'', [''sh2add'']), (''ap_sh3add'', [''sh3add'']),
     (''ap_zba'', [''sh1add'', ''sh2add'', ''sh3add'']),
     (''ap_add'', [''add'']), (''ap_sub'', [''sub'']),
     (''ap_land'', [''and'']), (''ap_lor'', [''or'']), (''ap_lxor'', [''xor''])]"

definition alu_drive :: "alu_input_item seq_item \<Rightarrow> action list py" where
  "alu_drive item = (case item of
     Item it \<Rightarrow> Inr (
       [Await (RisingEdge ''clk''), Drive ''valid_in'' 1] @
       map (\<lambda>(pin, ops). Drive pin (of_bool (alu_op it \<in> Some ` set ops))) alu_ctrl_pins @
       [Drive ''a_in'' (alu_a it), Drive ''b_in'' (alu_b it),
        Drive ''csr_rddata_in'' (alu_csr it), Drive ''pc_in'' (alu_pc it),
        Await (RisingEdge ''clk''), Drive ''valid_in'' 0])
   | OtherItem \<Rightarrow> Inl RuntimeError)"

section \<open>Monitors\<close>

definition alu_decode_op :: "pins \<Rightarrow> string option" where
  "alu_decode_op p =
    (if p ''ap_add'' \<noteq> 0 then Some ''add''
     else if p ''ap_sub'' \<noteq> 0 then Some ''sub''
     else if p ''ap_land'' \<noteq> 0 then Some ''and''
     else if p ''ap_lor'' \<noteq> 0 then Some ''or''
     else if p ''ap_lxor'' \<noteq> 0 then Some ''xor''
     else if p ''ap_clz'' \<noteq> 0 then Some ''clz''
     else if p ''ap_ctz'' \<noteq> 0 then Some ''ctz''
     else if p ''ap_cpop'' \<noteq> 0 then Some ''cpop''
     else if p ''ap_sext_b'' \<noteq> 0 then Some ''sext_b''
     else if p ''ap_sext_h'' \<noteq> 0 then Some ''sext_h''
     else if p ''ap_rol'' \<noteq> 0 then Some ''rol''
     else if p ''ap_ror'' \<noteq> 0 then Some ''ror''
     else if p ''ap_bset'' \<noteq> 0 then Some ''bset''
     else if p ''ap_bclr'' \<noteq> 0 then Some ''bclr''
     else if p ''ap_binv'' \<noteq> 0 then Some ''binv''
     else if p ''ap_bext'' \<noteq> 0 then Some ''bext''
     else if p ''ap_pack'' \<noteq> 0 then Some ''pack''
     else if p ''ap_packh'' \<noteq> 0 then Some ''packh''
     else if p ''ap_sh1add'' \<noteq> 0 then Some ''sh1add''
     else if p ''ap_sh2add'' \<noteq> 0 then Some ''sh2add''
     else if p ''ap_sh3add'' \<noteq> 0 then Some ''sh3add''
     else None)"

text \<open>One entry of the list per rising edge of the clock.\<close>

fun alu_input_monitor :: "pins list \<Rightarrow> alu_input_item list" where
  "alu_input_monitor [] = []"
| "alu_input_monitor (p # ps) =
     (if p ''valid_in'' \<noteq> 0
      then AluInputItem (alu_decode_op p) (p ''a_in'') (p ''b_in'') # alu_input_monitor ps
      else alu_input_monitor ps)"

fun alu_output_monitor :: "pins list \<Rightarrow> alu_output_item list" where
  "alu_output_monitor [] = []"
| "alu_output_monitor [p] = []"
| "alu_output_monitor (p # q # ps) =
     (if p ''valid_in'' \<noteq> 0
      then \<lparr>alu_out = q ''result_ff''\<rparr> # alu_output_monitor ps
      else alu_output_monitor (q # ps))"

section \<open>Scoreboard\<close>

definition INT_MASK :: int where
  "INT_MASK = 0xFFFFFFFF"

definition alu_predict :: "string option \<Rightarrow> int \<Rightarrow> int \<Rightarrow> int option" where
  "alu_predict op a b =
    (if op = Some ''add'' then Some ((a + b) AND INT_MASK)
     else if op = Some ''sub'' then Some ((a - b) AND INT_MASK)
     else if op = Some ''and'' then Some (a AND b)
     else if op = Some ''or'' then Some (a OR b)
     else if op = Some ''xor'' then Some (a XOR b)
     else if op = Some ''clz'' then
       Some (py_next (\<lambda>i. drop_bit 31 (push_bit (nat i) a AND INT_MASK) \<noteq> 0) [0..31] 32)
     else if op = Some ''ctz'' then
       Some (py_next (\<lambda>i. drop_bit (nat i) a AND 1 \<noteq> 0) [0..31] 32)
     else if op = Some ''cpop'' then Some (int (count_ones (nat \<bar>a\<bar>)))
     else if op = Some ''sext_b'' then
       (let last_byte = a AND 0xFF; sign = drop_bit 7 (a AND 0x00000080)
        in Some ((0xFFFFFF00 * sign) OR last_byte))
     else if op = Some ''sext_h'' then
       (let last_2_bytes = a AND 0xFFFF; sign = drop_bit 15 (a AND 0x00008000)
        in Some ((0xFFFF0000 * sign) OR last_2_bytes))
     else if op = Some ''rol'' then
       (let shamt = b AND 31
        in Some ((push_bit (nat shamt) a AND INT_MASK) OR drop_bit (nat ((32 - shamt) AND 31)) a))
     else if op = Some ''ror'' then
       (let shamt = b AND 31
        in Some (drop_bit (nat shamt) a OR (push_bit (nat ((32 - shamt) AND 31)) a AND INT_MASK)))
     else if op = Some ''bset'' then Some (a OR push_bit (nat (b AND 31)) 1)
     else if op = Some ''bclr'' then Some (a AND NOT (push_bit (nat (b AND 31)) 1))
     else if op = Some ''binv'' then Some (a XOR push_bit (nat (b AND 31)) 1)
     else if op = Some ''bext'' then Some (1 AND drop_bit (nat (b AND 31)) a)
     else if op = Some ''pack'' then
       Some (drop_bit 16 (push_bit 16 a AND INT_MASK) OR (push_bit 16 b AND INT_MASK))
     else if op = Some ''packh'' then Some ((a AND 0xFF) OR push_bit 8 (b AND 0xFF))
     else if op = Some ''sh1add'' then Some ((push_bit 1 a + b) AND INT_MASK)
     else if op = Some ''sh2add'' then Some ((push_bit 2 a + b) AND INT_MASK)
     else if op = Some ''sh3add'' then Some ((push_bit 3 a + b) AND INT_MASK)
     else None)"

text \<open>
  The body of the checking loop: an unknown operation only logs an error before
  \<open>assert result is not None\<close> raises.
\<close>

definition alu_judge :: "alu_input_item \<Rightarrow> alu_output_item \<Rightarrow> bool py" where
  "alu_judge inp out =
     (case alu_predict (alu_op inp) (alu_a inp) (alu_b inp) of
        None \<Rightarrow> Inl AssertionError
      | Some result \<Rightarrow> Inr (alu_out out = result))"

definition alu_check_phase ::
  "('p \<Rightarrow> alu_input_item option \<times> 'p) \<Rightarrow> ('q \<Rightarrow> alu_output_item option \<times> 'q) \<Rightarrow> 'p \<Rightarrow> 'q
   \<Rightarrow> bool option py option" where
  "alu_check_phase try_get_inp try_get_out port_inp port_out =
     pair_loop try_get_inp try_get_out alu_judge port_inp port_out None"

section \<open>Sequence and reset\<close>

text \<open>
  The \<open>i\<close>-th draws of the random generator are \<open>ra i\<close>, \<open>rb i\<close> (\<open>random.randrange\<close>) and
  \<open>rop i\<close> (\<open>random.choice\<close>).
\<close>

definition alu_base_sequence ::
  "nat \<Rightarrow> (nat \<Rightarrow> int) \<Rightarrow> (nat \<Rightarrow> int) \<Rightarrow> (nat \<Rightarrow> string) \<Rightarrow> alu_input_item list" where
  "alu_base_sequence count ra rb rop =
     map (\<lambda>i. AluInputItem (Some (rop i)) (ra i) (rb i)) [0..<count]"

definition alu_reset_pins :: "string list" where
  "alu_reset_pins =
    [''scan_mode'', ''flush_upper_x'', ''flush_lower_r'', ''enable'', ''valid_in'', ''ap_clz'',
     ''ap_ctz'', ''ap_cpop'', ''ap_sext_b'', ''ap_sext_h'', ''ap_min'', ''ap_max'', ''ap_pack'',
     ''ap_packu'', ''ap_packh'', ''ap_rol'', ''ap_ror'', ''ap_grev'', ''ap_gorc'', ''ap_zbb'',
     ''ap_bset'', ''ap_bclr'', ''ap_binv'', ''ap_bext'', ''ap_sh1add'', ''ap_sh2add'',
     ''ap_sh3add'', ''ap_zba'', ''ap_land'', ''ap_lor'', ''ap_lxor'', ''ap_sll'', ''ap_srl'',
     ''ap_sra'', ''ap_beq'', ''ap_bne'', ''ap_blt'', ''ap_bge'', ''ap_add'', ''ap_sub'',
     ''ap_slt'', ''ap_unsignl'', ''ap_jall'', ''ap_predict_tl'', ''ap_predict_nt'',
     ''ap_csr_write'', ''ap_csr_imm'', ''csr_ren_in'', ''csr_rddata_in'', ''a_in'', ''b_in'',
     ''pc_in'', ''brimm_in'']"

definition alu_do_reset :: "action list" where
  "alu_do_reset =
     map (\<lambda>s. Drive s 0) alu_reset_pins @
     [Drive ''rst_l'' 0, Await (ClockCycles ''clk'' 2), Await (FallingEdge ''clk''),
      Drive ''rst_l'' 1]"

definition alu_run_phase :: "action list \<Rightarrow> action list" where
  "alu_run_phase run =
     alu_do_reset @ [Drive ''enable'' 1, Await (ClockCycles ''clk'' 2)] @ run @
     [Await (ClockCycles ''clk'' 10)]"

section \<open>Specification on 32-bit words\<close>

definition clz32 :: "32 word \<Rightarrow> nat" where
  "clz32 a = (if a = 0 then 32 else 31 - Max {i. bit a i})"

definition ctz32 :: "32 word \<Rightarrow> nat" where
  "ctz32 a = (if a = 0 then 32 else Min {i. bit a i})"

definition alu_spec :: "string option \<Rightarrow> 32 word \<Rightarrow> 32 word \<Rightarrow> 32 word option" where
  "alu_spec op a b =
    (let sh = unat (b AND 31) in
     if op = Some ''add'' then Some (a + b)
     else if op = Some ''sub'' then Some (a - b)
     else if op = Some ''and'' then Some (a AND b)
     else if op = Some ''or'' then Some (a OR b)
     else if op = Some ''xor'' then Some (a XOR b)
     else if op = Some ''clz'' then Some (of_nat (clz32 a))
     else if op = Some ''ctz'' then Some (of_nat (ctz32 a))
     else if op = Some ''cpop'' then Some (of_nat (card {i. bit a i}))
     else if op = Some ''sext_b'' then Some (signed_take_bit 7 a)
     else if op = Some ''sext_h'' then Some (signed_take_bit 15 a)
     else if op = Some ''rol'' then Some (word_rotl sh a)
     else if op = Some ''ror'' then Some (word_rotr sh a)
     else if op = Some ''bset'' then Some (set_bit sh a)
     else if op = Some ''bclr'' then Some (unset_bit sh a)
     else if op = Some ''binv'' then Some (flip_bit sh a)
     else if op = Some ''bext'' then Some (of_bool (bit a sh))
     else if op = Some ''pack'' then Some (word_cat (ucast b :: 16 word) (ucast a :: 16 word))
     else if op = Some ''packh'' then
       Some (ucast (word_cat (ucast b :: 8 word) (ucast a :: 8 word) :: 16 word))
     else if op = Some ''sh1add'' then Some (2 * a + b)
     else if op = Some ''sh2add'' then Some (4 * a + b)
     else if op = Some ''sh3add'' then Some (8 * a + b)
     else None)"

section \<open>The reference model implements the specification\<close>

lemma INT_MASK_and [bits]: "x AND INT_MASK = take_bit 32 x"
  by (simp add: INT_MASK_def and_mask)

lemma unat_and_31: "nat (take_bit 5 (uint b)) = unat ((b :: 32 word) AND 31)"
proof -
  have "uint (b AND 31) = take_bit 5 (uint b)"
    by (rule bit_eqI) (auto simp: uint_and bit_simps and_mask)
  then show ?thesis by (simp add: unat_eq_nat_uint)
qed

lemma shamt_less: "unat ((b :: 32 word) AND 31) < 32"
  using take_bit_int_less_exp [of 5 "uint b"] by (simp add: nat_less_iff flip: unat_and_31)

lemma sign_bit: "drop_bit n (uint a AND 2 ^ n) = of_bool (bit (a::32 word) n)"
  by (rule bit_eqI) (auto simp: bit_simps bit_uint32 bit_1_iff)

lemma sext_b_refines:
  "((0xFFFFFF00 * drop_bit 7 (uint a AND 0x80)) OR (uint a AND 0xFF)) = uint (signed_take_bit 7 (a::32 word))"
proof -
  have m: "(0xFFFFFF00 :: int) = push_bit 8 (mask 24)" by (simp add: mask_eq_exp_minus_1 push_bit_eq_mult)
  show ?thesis unfolding m
  proof (rule bit_eqI)
    fix k :: nat
    consider "k < 7" | "k = 7" | "8 \<le> k" by linarith
    then show "bit ((push_bit 8 (mask 24) * drop_bit 7 (uint a AND 0x80)) OR (uint a AND 0xff)) k
        = bit (uint (signed_take_bit 7 a)) k"
      using sign_bit [of 7 a]
      by cases (auto simp: bits bit_simps bit_uint32 min_def)
  qed
qed

lemma sext_h_refines:
  "((0xFFFF0000 * drop_bit 15 (uint a AND 0x8000)) OR (uint a AND 0xFFFF)) = uint (signed_take_bit 15 (a::32 word))"
proof -
  have m: "(0xFFFF0000 :: int) = push_bit 16 (mask 16)" by (simp add: mask_eq_exp_minus_1 push_bit_eq_mult)
  show ?thesis unfolding m
  proof (rule bit_eqI)
    fix k :: nat
    consider "k < 15" | "k = 15" | "16 \<le> k" by linarith
    then show "bit ((push_bit 16 (mask 16) * drop_bit 15 (uint a AND 0x8000)) OR (uint a AND 0xffff)) k
        = bit (uint (signed_take_bit 15 a)) k"
      using sign_bit [of 15 a]
      by cases (auto simp: bits bit_simps bit_uint32 min_def)
  qed
qed

lemma comp_shamt: "n < 32 \<Longrightarrow> nat ((32 - int n) AND 31) = (32 - n) mod 32"
proof -
  assume "n < 32"
  then have "(32 - int n) AND 31 = int ((32 - n) mod 32)"
    by (simp add: and_mask take_bit_eq_mod zmod_int of_nat_diff)
  then show ?thesis by simp
qed

lemma rotl_index:
  assumes "n < 32" "(k::nat) < 32"
  shows "(k + (32 - n mod 32)) mod 32 = (if n \<le> k then k - n else k + 32 - n)"
  using assms by (auto simp: mod_if)

lemma rol_refines:
  assumes "n < 32"
  shows "(push_bit n (uint a) AND INT_MASK) OR drop_bit (nat ((32 - int n) AND 31)) (uint a) = uint (word_rotl n (a :: 32 word))"
proof (rule bit_eqI)
  fix k
  have "bit (word_rotl n a) k \<longleftrightarrow> k < 32 \<and> bit a (if n \<le> k then k - n else k + 32 - n)"
    using assms rotl_index [OF assms, of k] by (auto simp: bit_word_rotl_iff)
  then show "bit ((push_bit n (uint a) AND INT_MASK) OR drop_bit (nat ((32 - int n) AND 31)) (uint a)) k = bit (uint (word_rotl n a)) k"
    using assms bit32_less [of a "k + 32 - n"] bit32_less [of a k]
    unfolding comp_shamt [OF assms] INT_MASK_and
    by (cases "n = 0") (auto simp: bit_or_iff bit_take_bit_iff bit_push_bit_iff bit_drop_bit_eq bit_uint32 add.commute split: if_splits)
qed

lemma rotr_index:
  assumes "n < 32" "(k::nat) < 32"
  shows "(k + n) mod 32 = (if k + n < 32 then k + n else k + n - 32)"
  using assms by (auto simp: mod_if)

lemma ror_refines:
  assumes "n < 32"
  shows "drop_bit n (uint a) OR (push_bit (nat ((32 - int n) AND 31)) (uint a) AND INT_MASK) = uint (word_rotr n (a :: 32 word))"
proof (rule bit_eqI)
  fix k
  have "bit (word_rotr n a) k \<longleftrightarrow> k < 32 \<and> bit a (if k + n < 32 then k + n else k + n - 32)"
    using assms rotr_index [OF assms, of k] by (auto simp: bit_word_rotr_iff)
  then show "bit (drop_bit n (uint a) OR (push_bit (nat ((32 - int n) AND 31)) (uint a) AND INT_MASK)) k = bit (uint (word_rotr n a)) k"
    using assms bit32_less [of a "k + n"] bit32_less [of a k]
    unfolding comp_shamt [OF assms] INT_MASK_and
    by (cases "n = 0") (auto simp: bit_or_iff bit_take_bit_iff bit_push_bit_iff bit_drop_bit_eq bit_uint32 add.commute split: if_splits)
qed

lemma add_refines: "(uint a + uint b) AND INT_MASK = uint ((a::32 word) + b)"
  by (simp add: bits uint_word_ariths take_bit_eq_mod)

lemma sub_refines: "(uint a - uint b) AND INT_MASK = uint ((a::32 word) - b)"
  by (simp add: bits uint_word_ariths take_bit_eq_mod)

lemma bset_refines: "n < 32 \<Longrightarrow> uint a OR push_bit n 1 = uint (set_bit n (a::32 word))"
  by (rule bit_eqI) (auto simp: bit_simps bit_uint32)

lemma bclr_refines: "n < 32 \<Longrightarrow> uint a AND NOT (push_bit n 1) = uint (unset_bit n (a::32 word))"
  by (rule bit_eqI) (auto simp: bit_simps bit_uint32)

lemma bext_refines: "1 AND drop_bit n (uint a) = uint (of_bool (bit (a::32 word) n) :: 32 word)"
  by (auto simp: bits bit_uint32)

lemma pack_refines:
  "drop_bit 16 (push_bit 16 (uint a) AND INT_MASK) OR (push_bit 16 (uint b) AND INT_MASK) =
   uint (word_cat (ucast (b::32 word) :: 16 word) (ucast (a::32 word) :: 16 word) :: 32 word)"
  by (rule bit_eqI) (auto simp: bits bit_simps bit_uint32)

lemma packh_refines:
  "(uint a AND 0xFF) OR push_bit 8 (uint b AND 0xFF) =
   uint (ucast (word_cat (ucast (b::32 word) :: 8 word) (ucast (a::32 word) :: 8 word) :: 16 word) :: 32 word)"
  by (rule bit_eqI) (auto simp: bits bit_simps bit_uint32)

lemma binv_refines: "n < 32 \<Longrightarrow> uint a XOR (push_bit n 1) = uint (flip_bit n (a::32 word))"
  by (rule bit_eqI) (auto simp: bit_simps bit_uint32 dest: bit32_less)

lemma shadd_refines: "(push_bit 1 (uint a) + uint b) AND INT_MASK = uint (2 * (a::32 word) + b)"
  "(push_bit 2 (uint a) + uint b) AND INT_MASK = uint (4 * (a::32 word) + b)"
  "(push_bit 3 (uint a) + uint b) AND INT_MASK = uint (8 * (a::32 word) + b)"
  by (simp_all add: bits uint_word_ariths take_bit_eq_mod push_bit_eq_mult mod_simps mult.commute)

lemma ctz_refines:
  "py_next (\<lambda>i. drop_bit (nat i) (uint a) AND 1 \<noteq> 0) [0..31] 32 = int (ctz32 (a::32 word))"
proof (rule py_next_range)
  let ?S = "{i. bit a i}"
  show "ctz32 a \<le> 32"
    using Min_in [OF finite_bit_word word_bits_nonempty] bit32_less by (force simp: ctz32_def)
  show "\<not> drop_bit (nat (int j)) (uint a) AND 1 \<noteq> 0" if "j < ctz32 a" for j
  proof -
    have "\<not> bit a j"
    proof
      assume "bit a j"
      then have "a \<noteq> 0" "Min ?S \<le> j" by (auto intro: Min_le)
      with that show False by (simp add: ctz32_def)
    qed
    then show ?thesis by (simp add: bits bit_uint32)
  qed
  show "drop_bit (nat (int (ctz32 a))) (uint a) AND 1 \<noteq> 0" if "ctz32 a < 32"
  proof -
    from that have "a \<noteq> 0" by (auto simp: ctz32_def)
    with Min_in [OF finite_bit_word word_bits_nonempty [OF this]] show ?thesis
      by (simp add: bits bit_uint32 ctz32_def)
  qed
qed

lemma top_bit: "drop_bit 31 (take_bit 32 x) \<noteq> 0 \<longleftrightarrow> bit (x::int) 31"
proof -
  have "drop_bit 31 (take_bit 32 x) = of_bool (bit x 31)"
    by (rule bit_eqI) (auto simp: bit_simps)
  then show ?thesis by simp
qed

lemma clz_refines:
  "py_next (\<lambda>i. drop_bit 31 (push_bit (nat i) (uint a) AND INT_MASK) \<noteq> 0) [0..31] 32 = int (clz32 (a::32 word))"
  unfolding INT_MASK_and top_bit
proof (rule py_next_range)
  let ?S = "{i. bit a i}"
  show "clz32 a \<le> 32" unfolding clz32_def by (simp split: if_split) arith
  show "\<not> bit (push_bit (nat (int j)) (uint a)) 31" if "j < clz32 a" for j
  proof
    assume "bit (push_bit (nat (int j)) (uint a)) 31"
    then have j: "j \<le> 31" "bit a (31 - j)" by (simp_all add: bit_push_bit_iff bit_uint32)
    then have "a \<noteq> 0" "31 - j \<le> Max ?S" by (auto intro: Max_ge)
    with that j(1) show False by (simp add: clz32_def)
  qed
  show "bit (push_bit (nat (int (clz32 a))) (uint a)) 31" if "clz32 a < 32"
  proof -
    from that have nz: "a \<noteq> 0" by (auto simp: clz32_def)
    with Max_in [OF finite_bit_word word_bits_nonempty [OF this]] have "bit a (Max ?S)" by simp
    moreover from nz have "clz32 a = 31 - Max ?S" by (simp add: clz32_def)
    ultimately have "bit a (31 - clz32 a)" "clz32 a \<le> 31" using bit32_less by fastforce+
    then show ?thesis by (simp add: bit_push_bit_iff bit_uint32)
  qed
qed

lemma card_bits32: "card {i. bit (a::32 word) i} \<le> 32"
  using card_mono [of "{..<32}" "{i. bit a i}"] bit32_less by auto

lemma cpop_refines: "count_ones (nat \<bar>uint a\<bar>) = card {i. bit (a::32 word) i}"
proof -
  have "bit (unat a) i \<longleftrightarrow> bit a i" for i
    using bit32_less [of a i] by (auto simp: bit_simps)
  then show ?thesis by (simp add: count_ones_card flip: unat_eq_nat_uint)
qed

lemmas alu_op_refines = add_refines sub_refines clz_refines ctz_refines cpop_refines
  sext_b_refines sext_h_refines pack_refines packh_refines shadd_refines

lemma alu_predict_word:
  "alu_predict op (uint a) (uint b) = map_option uint (alu_spec op a b)"
proof -
  let ?n = "unat (b AND 31)"
  have n: "?n < 32" by (rule shamt_less)
  have sh: "uint b AND 31 = int ?n"
    by (simp add: and_mask flip: unat_and_31)
  have "clz32 a \<le> 32" unfolding clz32_def by (simp split: if_split) arith
  moreover have "ctz32 a \<le> 32"
    using Min_in [OF finite_bit_word word_bits_nonempty, of a] bit32_less by (force simp: ctz32_def)
  moreover have "card {i. bit a i} \<le> 32" by (rule card_bits32)
  ultimately show ?thesis
  unfolding alu_predict_def alu_spec_def Let_def sh nat_int
    by (simp only: alu_op_refines rol_refines [OF n] ror_refines [OF n] bset_refines [OF n] bclr_refines [OF n]
       binv_refines [OF n] bext_refines uint_of_nat_small uint_and uint_or uint_xor option.map if_distrib [of "map_option uint"] cong: if_cong)
qed

section \<open>The scoreboard's verdict\<close>

definition alu_ops :: "string list" where
  "alu_ops = [''add'', ''sub'', ''and'', ''or'', ''xor'', ''clz'', ''ctz'', ''cpop'', ''sext_b'',
    ''sext_h'', ''rol'', ''ror'', ''bset'', ''bclr'', ''binv'', ''bext'', ''pack'', ''packh'',
    ''sh1add'', ''sh2add'', ''sh3add'']"

lemma alu_predict_defined: "alu_predict op a b \<noteq> None \<longleftrightarrow> op \<in> Some ` set alu_ops"
proof
  assume "alu_predict op a b \<noteq> None"
  then show "op \<in> Some ` set alu_ops"
    unfolding alu_predict_def alu_ops_def by (auto split: if_splits)
next
  assume "op \<in> Some ` set alu_ops"
  then show "alu_predict op a b \<noteq> None"
    unfolding alu_predict_def alu_ops_def by (auto simp: Let_def)
qed

text \<open>
  Property C1: on operands that are 32-bit words the scoreboard's reference model returns exactly
  the RISC-V result of the operation, for all 21 operations, and no result for any other name.
\<close>

theorem alu_predict_refines:
  "alu_predict op (uint a) (uint b) = map_option uint (alu_spec op a b) \<and>
   (alu_spec op a b = None \<longleftrightarrow> op \<notin> Some ` set alu_ops)"
  using alu_predict_defined [of op "uint a" "uint b"] by (auto simp: alu_predict_word)

interpretation alu: pair_scoreboard alu_judge
  "\<lambda>i. alu_op i \<in> Some ` set alu_ops"
  "\<lambda>i out. alu_predict (alu_op i) (alu_a i) (alu_b i) = Some (alu_out out)"
  "\<lambda>_. AssertionError"
proof
  fix i :: alu_input_item and out :: alu_output_item
  show "alu_judge i out = Inr (alu_predict (alu_op i) (alu_a i) (alu_b i) = Some (alu_out out))"
    if "alu_op i \<in> Some ` set alu_ops"
  proof -
    from that obtain r where "alu_predict (alu_op i) (alu_a i) (alu_b i) = Some r"
      using alu_predict_defined by blast
    then show ?thesis by (auto simp: alu_judge_def)
  qed
  show "alu_judge i out = Inl AssertionError" if "alu_op i \<notin> Some ` set alu_ops"
  proof -
    from that have "alu_predict (alu_op i) (alu_a i) (alu_b i) = None"
      using alu_predict_defined by blast
    then show ?thesis by (simp add: alu_judge_def)
  qed
qed

text \<open>
  Remark: the ALU scoreboard's \<open>check_phase\<close> ends with \<open>passed = True\<close> exactly when it saw
  at least one input item, as many output items as input items, and every output equals the
  prediction for a known operation; on queues of any length it returns.
\<close>

theorem alu_scoreboard_passes_iff:
  assumes "fifo_port ci tgi" and "fifo_port co tgo"
  shows "alu_check_phase tgi tgo p q = Some (Inr (Some True)) \<longleftrightarrow>
    ci p \<noteq> [] \<and>
    list_all2 (\<lambda>i out. alu_op i \<in> Some ` set alu_ops \<and>
        alu_predict (alu_op i) (alu_a i) (alu_b i) = Some (alu_out out)) (ci p) (co q)"
  unfolding alu_check_phase_def by (rule alu.check_passes_iff [OF assms])

theorem alu_scoreboard_passes_iff_witness:
  "alu_check_phase list_try_get list_try_get
      [AluInputItem (Some ''rol'') 0x80000001 4] [\<lparr>alu_out = 0x18\<rparr>] = Some (Inr (Some True))"
  using alu_scoreboard_passes_iff [OF list_fifo_port list_fifo_port,
      of "[AluInputItem (Some ''rol'') 0x80000001 4]" "[\<lparr>alu_out = 0x18\<rparr>]"]
  by (simp add: alu_ops_def alu_predict_def INT_MASK_def AluInputItem_def)

section \<open>Driver and monitors\<close>

text \<open>What the pins read back: single bits as assigned, operands as unsigned 32-bit values.\<close>

definition alu_pin_model :: "(string \<Rightarrow> int \<Rightarrow> int) \<Rightarrow> bool" where
  "alu_pin_model rd \<longleftrightarrow>
     (\<forall>s. rd s 0 = 0) \<and> (\<forall>s. rd s 1 = 1) \<and>
     (\<forall>v. - (2 ^ 31) \<le> v \<and> v < 2 ^ 32 \<longrightarrow> rd ''a_in'' v = v mod 2 ^ 32 \<and> rd ''b_in'' v = v mod 2 ^ 32)"

text \<open>
  Remark: after the reset sequence every input pin it lists reads 0 and the reset is released.
\<close>

lemma alu_reset_quiescent:
  assumes "\<And>s. rd s 0 = 0" and "rd ''rst_l'' 1 = 1" and "s \<in> set alu_reset_pins"
  shows "pins_after rd alu_do_reset p s = 0 \<and> pins_after rd alu_do_reset p ''rst_l'' = 1"
proof -
  have zero: "pins_after rd (map (\<lambda>s. Drive s 0) xs) p s = (if s \<in> set xs then 0 else p s)" for xs p
    by (induction xs arbitrary: p) (auto simp: assms(1))
  have "s \<noteq> ''rst_l''" using assms(3) by (auto simp: alu_reset_pins_def)
  then show ?thesis
    using assms(3) by (simp add: alu_do_reset_def pins_after_append zero assms(1,2))
qed

theorem alu_reset_quiescent_witness:
  "pins_after (\<lambda>s v. v) alu_do_reset (\<lambda>_. 1) ''valid_in'' = 0 \<and>
   pins_after (\<lambda>s v. v) alu_do_reset (\<lambda>_. 1) ''rst_l'' = 1"
  by (rule alu_reset_quiescent) (simp_all add: alu_reset_pins_def)

text \<open>The pins the driver assigns for an item, with the values it gives them.\<close>

definition alu_stimulus :: "alu_input_item \<Rightarrow> (string \<times> int) list" where
  "alu_stimulus it =
     (''valid_in'', 1) #
     map (\<lambda>(pin, ops). (pin, of_bool (alu_op it \<in> Some ` set ops))) alu_ctrl_pins @
     [(''a_in'', alu_a it), (''b_in'', alu_b it), (''csr_rddata_in'', alu_csr it), (''pc_in'', alu_pc it)]"

definition alu_item_ok :: "alu_input_item \<Rightarrow> bool" where
  "alu_item_ok it \<longleftrightarrow> alu_op it \<in> Some ` set alu_ops \<and>
     - (2 ^ 31) \<le> alu_a it \<and> alu_a it < 2 ^ 32 \<and> - (2 ^ 31) \<le> alu_b it \<and> alu_b it < 2 ^ 32"

lemma alu_drive_pulse: "alu_drive (Item it) = Inr (pulse ''valid_in'' (alu_stimulus it))"
  by (simp add: alu_drive_def pulse_def drives_def alu_stimulus_def case_prod_unfold)

lemma alu_stimulus_decodes:
  assumes rd: "alu_pin_model rd" and op: "alu_op it = Some op" "op \<in> set alu_ops"
  shows "alu_decode_op (pins_after rd (drives (alu_stimulus it)) p) = Some op"
proof -
  let ?q = "pins_after rd (drives (alu_stimulus it)) p"
  from rd have bit: "rd s (of_bool c) = of_bool c" for s c
    by (cases c) (simp_all add: alu_pin_model_def)
  have pin: "?q ''ap_add'' = of_bool (op = ''add'')" "?q ''ap_sub'' = of_bool (op = ''sub'')"
    "?q ''ap_land'' = of_bool (op = ''and'')" "?q ''ap_lor'' = of_bool (op = ''or'')"
    "?q ''ap_lxor'' = of_bool (op = ''xor'')" "?q ''ap_clz'' = of_bool (op = ''clz'')"
    "?q ''ap_ctz'' = of_bool (op = ''ctz'')" "?q ''ap_cpop'' = of_bool (op = ''cpop'')"
    "?q ''ap_sext_b'' = of_bool (op = ''sext_b'')" "?q ''ap_sext_h'' = of_bool (op = ''sext_h'')"
    "?q ''ap_rol'' = of_bool (op = ''rol'')" "?q ''ap_ror'' = of_bool (op = ''ror'')"
    "?q ''ap_bset'' = of_bool (op = ''bset'')" "?q ''ap_bclr'' = of_bool (op = ''bclr'')"
    "?q ''ap_binv'' = of_bool (op = ''binv'')" "?q ''ap_bext'' = of_bool (op = ''bext'')"
    "?q ''ap_pack'' = of_bool (op = ''pack'')" "?q ''ap_packh'' = of_bool (op = ''packh'')"
    "?q ''ap_sh1add'' = of_bool (op = ''sh1add'')" "?q ''ap_sh2add'' = of_bool (op = ''sh2add'')"
    "?q ''ap_sh3add'' = of_bool (op = ''sh3add'')"
    unfolding pins_after_drives alu_stimulus_def alu_ctrl_pins_def op(1) by (simp_all add: bit)
  from op(2) show ?thesis
    unfolding alu_decode_op_def pin alu_ops_def by auto
qed

text \<open>What the input monitor reads off the pins: operation and operands.\<close>

definition alu_decode :: "pins \<Rightarrow> string option \<times> int \<times> int" where
  "alu_decode p = (alu_decode_op p, p ''a_in'', p ''b_in'')"

definition alu_view :: "alu_input_item \<Rightarrow> string option \<times> int \<times> int" where
  "alu_view it = (alu_op it, alu_a it mod 2 ^ 32, alu_b it mod 2 ^ 32)"

lemma alu_stimulus_view:
  assumes rd: "alu_pin_model rd" and ok: "alu_item_ok it"
  shows "alu_decode (pins_after rd (drives (alu_stimulus it)) p) = alu_view it"
proof -
  from rd ok have "rd ''a_in'' (alu_a it) = alu_a it mod 2 ^ 32"
    "rd ''b_in'' (alu_b it) = alu_b it mod 2 ^ 32"
    by (simp_all add: alu_pin_model_def alu_item_ok_def)
  then have "pins_after rd (drives (alu_stimulus it)) p ''a_in'' = alu_a it mod 2 ^ 32"
    "pins_after rd (drives (alu_stimulus it)) p ''b_in'' = alu_b it mod 2 ^ 32"
    unfolding pins_after_drives alu_stimulus_def by simp_all
  moreover from ok have "alu_decode_op (pins_after rd (drives (alu_stimulus it)) p) = alu_op it"
    using alu_stimulus_decodes [OF rd] by (auto simp: alu_item_ok_def)
  ultimately show ?thesis by (simp add: alu_decode_def alu_view_def)
qed

interpretation alu_pulse: pulse_unit "''valid_in''" "''result_ff''" "\<lambda>it. alu_drive (Item it)"
  alu_stimulus alu_item_ok alu_pin_model alu_decode alu_view
proof
  fix rd it p x
  show "alu_drive (Item it) = Inr (pulse ''valid_in'' (alu_stimulus it))"
    by (rule alu_drive_pulse)
  show "alu_decode (p(''result_ff'' := x)) = alu_decode p"
    by (simp add: alu_decode_def alu_decode_op_def)
  show "''valid_in'' \<noteq> ''result_ff''" by simp
  assume rd: "alu_pin_model rd"
  then show "rd ''valid_in'' 0 = 0" by (simp add: alu_pin_model_def)
  from rd show "pins_after rd (drives (alu_stimulus it)) p ''valid_in'' = 1"
    unfolding pins_after_drives alu_stimulus_def alu_ctrl_pins_def
    by (simp add: alu_pin_model_def)
  assume "alu_item_ok it"
  with rd show "alu_decode (pins_after rd (drives (alu_stimulus it)) p) = alu_view it"
    by (rule alu_stimulus_view)
qed

lemma alu_input_monitor_filter:
  "alu_input_monitor ps =
     map (\<lambda>(op, a, b). AluInputItem op a b) (map alu_decode (filter (\<lambda>p. p ''valid_in'' \<noteq> 0) ps))"
  by (induction ps) (simp_all add: alu_decode_def)

lemma alu_output_monitor_samples:
  "alu_output_monitor ps = map (\<lambda>r. \<lparr>alu_out = r\<rparr>) (delayed_samples ''valid_in'' ''result_ff'' ps)"
  by (induction ps rule: alu_output_monitor.induct) simp_all

section \<open>Closing the loop\<close>

text \<open>
  Driver, monitors and scoreboard around a device that computes \<open>g\<close> of operation and operands
  behind its output register \<open>r\<close>. One more edge lets the last result be sampled.
\<close>

definition alu_test :: "(string \<Rightarrow> int \<Rightarrow> int) \<Rightarrow> (string option \<times> int \<times> int \<Rightarrow> int) \<Rightarrow> int \<Rightarrow> pins
    \<Rightarrow> alu_input_item list \<Rightarrow> bool option py option" where
  "alu_test rd g r p its =
     (let samples = registered ''result_ff'' (\<lambda>p. g (alu_decode p)) r (edge_samples rd
            (fst (run_driver (\<lambda>it. alu_drive (Item it)) its) @ [Await (RisingEdge ''clk'')]) p)
      in alu_check_phase list_try_get list_try_get
           (alu_input_monitor samples) (alu_output_monitor samples))"

text \<open>
  Property C2: driver, monitors and scoreboard together: the run on a non-empty list of items
  passes exactly when the device computes the RISC-V result, as an unsigned 32-bit value, for
  every item driven.
\<close>

theorem alu_test_verdict:
  assumes "alu_pin_model rd" and "p ''valid_in'' = 0" and "its \<noteq> []" and "list_all alu_item_ok its"
  shows "alu_test rd g r p its = Some (Inr (Some True)) \<longleftrightarrow>
    list_all (\<lambda>it. map_option uint
        (alu_spec (alu_op it) (word_of_int (alu_a it)) (word_of_int (alu_b it))) =
      Some (g (alu_op it, alu_a it mod 2 ^ 32, alu_b it mod 2 ^ 32))) its"
proof -
  have word: "v mod 2 ^ 32 = uint (word_of_int v :: 32 word)" for v
    by (simp add: uint_word_of_int)
  have valid: "alu_op it \<in> Some ` set alu_ops" if "it \<in> set its" for it
    using assms(4) that by (simp add: list_all_iff alu_item_ok_def)
  show ?thesis
    unfolding alu_test_def Let_def alu_input_monitor_filter alu_output_monitor_samples
      alu_pulse.samples_def [symmetric] alu_pulse.monitors_see_items [where p = p, OF assms(1,4,2)]
      alu_pulse.monitors_see_results [where p = p, OF assms(1,4,2)]
      alu_check_phase_def alu.check_passes_iff [OF list_fifo_port list_fifo_port]
    using assms(3) valid unfolding word
    by (simp add: list_all2_map1 list_all2_map2 list_all2_same alu_view_def AluInputItem_def
        list_all_iff word [simplified] alu_predict_word)
qed

theorem alu_test_verdict_witness:
  "alu_test (\<lambda>s v. v mod 2 ^ 32) (\<lambda>(op, a, b). (a + b) mod 2 ^ 32) 0 (\<lambda>_. 0)
     [AluInputItem (Some ''add'') (- 1) 1] = Some (Inr (Some True))"
proof -
  have "alu_pin_model (\<lambda>s v. v mod 2 ^ 32)" by (simp add: alu_pin_model_def)
  from alu_test_verdict [OF this, of "\<lambda>_. 0" "[AluInputItem (Some ''add'') (- 1) 1]"
      "\<lambda>(op, a, b). (a + b) mod 2 ^ 32" 0]
  show ?thesis
    by (simp add: alu_item_ok_def AluInputItem_def alu_ops_def alu_spec_def)
qed

end
