(* ===== verification/Exu_Mul.thy ===== *)
theory Exu_Mul
  imports Pulse_Unit
begin

text \<open>
  The multiplier testbench, \<open>verification/block/exu_mul/testbench.py\<close>: driver, monitors,
  scoreboard, sequence and reset. The driver sends operand magnitudes with both sign inputs at 0,
  so the scoreboard predicts the low or the high word of the unsigned 64-bit product.
\<close>

unbundle bit_operations_syntax

section \<open>Definitions\<close>

record mul_input_item =
  mul_op :: "string option"
  mul_a :: int
  mul_b :: int
  mul_low :: int

record mul_output_item =
  mul_out :: int

definition mul_drive :: "mul_input_item seq_item \<Rightarrow> action list py" where
  "mul_drive item = (case item of
     Item it \<Rightarrow> Inr
       [Await (RisingEdge ''clk''), Drive ''mul_p_valid'' 1,
        Drive ''rs1_in'' \<bar>mul_a it\<bar>, Drive ''rs2_in'' \<bar>mul_b it\<bar>,
        Drive ''mul_p_rs1_sign'' 0, Drive ''mul_p_rs2_sign'' 0,
        Drive ''mul_p_low'' (mul_low it),
        Await (RisingEdge ''clk''), Drive ''mul_p_valid'' 0]
   | OtherItem \<Rightarrow> Inl RuntimeError)"

fun mul_input_monitor :: "pins list \<Rightarrow> mul_input_item list" where
  "mul_input_monitor [] = []"
| "mul_input_monitor (p # ps) =
     (if p ''mul_p_valid'' \<noteq> 0
      then \<lparr>mul_op = None, mul_a = p ''rs1_in'', mul_b = p ''rs2_in'', mul_low = p ''mul_p_low''\<rparr>
        # mul_input_monitor ps
      else mul_input_monitor ps)"

fun mul_output_monitor :: "pins list \<Rightarrow> mul_output_item list" where
  "mul_output_monitor [] = []"
| "mul_output_monitor [p] = []"
| "mul_output_monitor (p # q # ps) =
     (if p ''mul_p_valid'' \<noteq> 0
      then \<lparr>mul_out = q ''result_x''\<rparr> # mul_output_monitor ps
      else mul_output_monitor (q # ps))"

definition mul_predict :: "int \<Rightarrow> int \<Rightarrow> int \<Rightarrow> int" where
  "mul_predict a b low =
     (let res = a * b;
          res = (if low = 0 then drop_bit 32 res else res)
      in res AND 0xFFFFFFFF)"

definition mul_judge :: "mul_input_item \<Rightarrow> mul_output_item \<Rightarrow> bool py" where
  "mul_judge inp out = Inr (mul_out out = mul_predict (mul_a inp) (mul_b inp) (mul_low inp))"

definition mul_check_phase ::
  "('p \<Rightarrow> mul_input_item option \<times> 'p) \<Rightarrow> ('q \<Rightarrow> mul_output_item option \<times> 'q) \<Rightarrow> 'p \<Rightarrow> 'q
   \<Rightarrow> bool option py option" where
  "mul_check_phase try_get_inp try_get_out port_inp port_out =
     pair_loop try_get_inp try_get_out mul_judge port_inp port_out None"

text \<open>
  The sequence draws \<open>a\<close>, \<open>b\<close>, the operation and, for \<open>mul\<close> only, \<open>low\<close>; \<open>low\<close> keeps the value
  of an earlier iteration otherwise and is unbound before the first one.
\<close>

fun mul_base_sequence ::
  "(nat \<Rightarrow> int) \<Rightarrow> (nat \<Rightarrow> int) \<Rightarrow> (nat \<Rightarrow> string) \<Rightarrow> (nat \<Rightarrow> int) \<Rightarrow> nat \<Rightarrow> nat \<Rightarrow> int option
   \<Rightarrow> mul_input_item list py" where
  "mul_base_sequence ra rb rop rlow i 0 low = Inr []"
| "mul_base_sequence ra rb rop rlow i (Suc n) low =
     (let low' = (if rop i = ''mul'' then Some (rlow i) else low)
      in case low' of
           None \<Rightarrow> Inl UnboundLocalError
         | Some l \<Rightarrow> bind_py (mul_base_sequence ra rb rop rlow (Suc i) n low')
             (\<lambda>its. Inr (\<lparr>mul_op = Some (rop i), mul_a = ra i, mul_b = rb i, mul_low = l\<rparr> # its)))"

definition mul_reset_pins :: "string list" where
  "mul_reset_pins =
    [''scan_mode'', ''mul_p_valid'', ''mul_p_rs1_sign'', ''mul_p_rs2_sign'', ''mul_p_low'',
     ''mul_p_bcompress'', ''mul_p_bdecompress'', ''mul_p_clmul'', ''mul_p_clmulh'',
     ''mul_p_clmulr'', ''mul_p_grev'', ''mul_p_gorc'', ''mul_p_shfl'', ''mul_p_unshfl'',
     ''mul_p_crc32_b'', ''mul_p_crc32_h'', ''mul_p_crc32_w'', ''mul_p_crc32c_b'',
     ''mul_p_crc32c_h'', ''mul_p_crc32c_w'', ''mul_p_bfp'', ''mul_p_xperm_n'', ''mul_p_xperm_b'',
     ''mul_p_xperm_h'', ''rs1_in'', ''rs2_in'']"

definition mul_do_reset :: "action list" where
  "mul_do_reset =
     map (\<lambda>s. Drive s 0) mul_reset_pins @
     [Await (ClockCycles ''clk'' 2), Await (FallingEdge ''clk''), Drive ''rst_l'' 1]"

definition mul_run_phase :: "action list \<Rightarrow> action list" where
  "mul_run_phase run =
     mul_do_reset @ [Await (ClockCycles ''clk'' 2)] @ run @ [Await (ClockCycles ''clk'' 10)]"

text \<open>Specification: one word of the full product.\<close>

definition mul_spec :: "32 word \<Rightarrow> 32 word \<Rightarrow> bool \<Rightarrow> 32 word" where
  "mul_spec a b low =
     (let full = (ucast a :: 64 word) * ucast b
      in if low then ucast full else ucast (drop_bit 32 full))"

section \<open>Reference model\<close>

lemma uint_prod_bound: "uint (a::32 word) * uint (b::32 word) < 2 ^ 64"
proof -
  have "uint a * uint b < 2 ^ 32 * 2 ^ 32"
    using uint_bounds32 [of a] uint_bounds32 [of b] by (intro mult_strict_mono) simp_all
  then show ?thesis by simp
qed

lemma uint_full_product: "uint ((ucast (a::32 word) :: 64 word) * ucast (b::32 word)) = uint a * uint b"
proof -
  have "uint (ucast w :: 64 word) = uint w" for w :: "32 word"
    by (simp add: uint_up_ucast is_up)
  with uint_prod_bound [of a b] show ?thesis by (simp add: uint_word_ariths)
qed

lemma mul_predict_word: "mul_predict (uint a) (uint b) low = uint (mul_spec a b (low \<noteq> 0))"
proof -
  have "uint (ucast w :: 32 word) = take_bit 32 (uint w)" for w :: "64 word"
    by (simp add: unsigned_ucast_eq)
  moreover have "uint (drop_bit 32 w) = drop_bit 32 (uint w)" for w :: "64 word"
    by (rule bit_eqI) (auto simp: bit_simps dest: bit_imp_le_length)
  ultimately show ?thesis
    by (simp add: mul_predict_def mul_spec_def Let_def uint_full_product bits)
qed

interpretation mul: pair_scoreboard mul_judge "\<lambda>_. True"
  "\<lambda>i out. mul_out out = mul_predict (mul_a i) (mul_b i) (mul_low i)" "\<lambda>_. AssertionError"
  by unfold_locales (simp_all add: mul_judge_def)

section \<open>Driver and monitors\<close>

definition mul_stimulus :: "mul_input_item \<Rightarrow> (string \<times> int) list" where
  "mul_stimulus it =
     [(''mul_p_valid'', 1), (''rs1_in'', \<bar>mul_a it\<bar>), (''rs2_in'', \<bar>mul_b it\<bar>),
      (''mul_p_rs1_sign'', 0), (''mul_p_rs2_sign'', 0), (''mul_p_low'', mul_low it)]"

definition mul_item_ok :: "mul_input_item \<Rightarrow> bool" where
  "mul_item_ok it \<longleftrightarrow> \<bar>mul_a it\<bar> < 2 ^ 32 \<and> \<bar>mul_b it\<bar> < 2 ^ 32 \<and> mul_low it \<in> {0, 1}"

definition mul_pin_model :: "(string \<Rightarrow> int \<Rightarrow> int) \<Rightarrow> bool" where
  "mul_pin_model rd \<longleftrightarrow> (\<forall>s. rd s 0 = 0) \<and> (\<forall>s. rd s 1 = 1) \<and>
     (\<forall>v. 0 \<le> v \<and> v < 2 ^ 32 \<longrightarrow> rd ''rs1_in'' v = v \<and> rd ''rs2_in'' v = v)"

definition mul_decode :: "pins \<Rightarrow> int \<times> int \<times> int" where
  "mul_decode p = (p ''rs1_in'', p ''rs2_in'', p ''mul_p_low'')"

definition mul_view :: "mul_input_item \<Rightarrow> int \<times> int \<times> int" where
  "mul_view it = (\<bar>mul_a it\<bar>, \<bar>mul_b it\<bar>, mul_low it)"

interpretation mul_pulse: pulse_unit "''mul_p_valid''" "''result_x''" "\<lambda>it. mul_drive (Item it)"
  mul_stimulus mul_item_ok mul_pin_model mul_decode mul_view
proof
  fix rd it p x
  show "mul_drive (Item it) = Inr (pulse ''mul_p_valid'' (mul_stimulus it))"
    by (simp add: mul_drive_def pulse_def drives_def mul_stimulus_def)
  show "mul_decode (p(''result_x'' := x)) = mul_decode p"
    by (simp add: mul_decode_def)
  show "''mul_p_valid'' \<noteq> ''result_x''" by simp
  assume rd: "mul_pin_model rd"
  then show "rd ''mul_p_valid'' 0 = 0" by (simp add: mul_pin_model_def)
  from rd show "pins_after rd (drives (mul_stimulus it)) p ''mul_p_valid'' = 1"
    unfolding pins_after_drives mul_stimulus_def by (simp add: mul_pin_model_def)
  assume "mul_item_ok it"
  with rd show "mul_decode (pins_after rd (drives (mul_stimulus it)) p) = mul_view it"
    unfolding mul_decode_def mul_view_def pins_after_drives mul_stimulus_def
    by (auto simp: mul_pin_model_def mul_item_ok_def)
qed

lemma mul_input_monitor_filter:
  "mul_input_monitor ps =
     map (\<lambda>(a, b, l). \<lparr>mul_op = None, mul_a = a, mul_b = b, mul_low = l\<rparr>)
       (map mul_decode (filter (\<lambda>p. p ''mul_p_valid'' \<noteq> 0) ps))"
  by (induction ps) (simp_all add: mul_decode_def)

lemma mul_output_monitor_samples:
  "mul_output_monitor ps = map (\<lambda>r. \<lparr>mul_out = r\<rparr>) (delayed_samples ''mul_p_valid'' ''result_x'' ps)"
  by (induction ps rule: mul_output_monitor.induct) simp_all

section \<open>Closing the loop\<close>

definition mul_test :: "(string \<Rightarrow> int \<Rightarrow> int) \<Rightarrow> (int \<times> int \<times> int \<Rightarrow> int) \<Rightarrow> int \<Rightarrow> pins
    \<Rightarrow> mul_input_item list \<Rightarrow> bool option py option" where
  "mul_test rd g r p its =
     (let samples = registered ''result_x'' (\<lambda>p. g (mul_decode p)) r (edge_samples rd
            (fst (run_driver (\<lambda>it. mul_drive (Item it)) its) @ [Await (RisingEdge ''clk'')]) p)
      in mul_check_phase list_try_get list_try_get
           (mul_input_monitor samples) (mul_output_monitor samples))"

text \<open>
  Remark: driver, monitors and scoreboard of the multiplier together: the run on a non-empty
  list of items passes exactly when the device returns, for every item, the low or the high word
  of the product of the operands' magnitudes.
\<close>

theorem mul_test_verdict:
  assumes "mul_pin_model rd" and "p ''mul_p_valid'' = 0" and "its \<noteq> []" and "list_all mul_item_ok its"
  shows "mul_test rd g r p its = Some (Inr (Some True)) \<longleftrightarrow>
    list_all (\<lambda>it. g (\<bar>mul_a it\<bar>, \<bar>mul_b it\<bar>, mul_low it) =
      uint (mul_spec (word_of_int \<bar>mul_a it\<bar>) (word_of_int \<bar>mul_b it\<bar>) (mul_low it = 1))) its"
proof -
  have predict: "mul_predict \<bar>mul_a it\<bar> \<bar>mul_b it\<bar> (mul_low it) =
      uint (mul_spec (word_of_int \<bar>mul_a it\<bar>) (word_of_int \<bar>mul_b it\<bar>) (mul_low it = 1))"
    if "it \<in> set its" for it
  proof -
    from assms(4) that have ok: "mul_item_ok it" by (simp add: list_all_iff)
    then have word: "\<bar>mul_a it\<bar> = uint (word_of_int \<bar>mul_a it\<bar> :: 32 word)"
      "\<bar>mul_b it\<bar> = uint (word_of_int \<bar>mul_b it\<bar> :: 32 word)"
      by (simp_all add: uint_word_of_int mul_item_ok_def)
    from ok have "(mul_low it \<noteq> 0) = (mul_low it = 1)" by (auto simp: mul_item_ok_def)
    with mul_predict_word [of "word_of_int \<bar>mul_a it\<bar>" "word_of_int \<bar>mul_b it\<bar>" "mul_low it"]
    show ?thesis by (simp flip: word)
  qed
  show ?thesis
    unfolding mul_test_def Let_def mul_input_monitor_filter mul_output_monitor_samples
      mul_pulse.samples_def [symmetric]
      mul_pulse.monitors_see_items [where p = p, OF assms(1,4,2)]
      mul_pulse.monitors_see_results [where p = p, OF assms(1,4,2)]
      mul_check_phase_def mul.check_passes_iff [OF list_fifo_port list_fifo_port]
    using assms(3)
    by (simp add: list_all2_map1 list_all2_map2 list_all2_same mul_view_def list_all_iff predict)
qed

theorem mul_test_verdict_witness:
  "mul_test (\<lambda>s v. v mod 2 ^ 32) (\<lambda>(a, b, l). if l = 1 then a * b mod 2 ^ 32 else a * b div 2 ^ 32)
     0 (\<lambda>_. 0) [\<lparr>mul_op = Some ''mul'', mul_a = 0x10000, mul_b = 0x30000, mul_low = 0\<rparr>]
   = Some (Inr (Some True))"
proof -
  have "mul_pin_model (\<lambda>s v. v mod 2 ^ 32)" by (simp add: mul_pin_model_def)
  from mul_test_verdict [OF this, of "\<lambda>_. 0"
      "[\<lparr>mul_op = Some ''mul'', mul_a = 0x10000, mul_b = 0x30000, mul_low = 0\<rparr>]"
      "\<lambda>(a, b, l). if l = 1 then a * b mod 2 ^ 32 else a * b div 2 ^ 32" 0]
  show ?thesis
    by (simp add: mul_item_ok_def mul_spec_def)
qed

text \<open>
  Remark: the multiplier's reset sequence never drives \<open>rst_l\<close> to 0, so it does not assert the
  reset it then releases (the ALU's and the divider's do).
\<close>

theorem mul_reset_not_asserted:
  "Drive ''rst_l'' v \<in> set (mul_run_phase []) \<longleftrightarrow> v = 1"
  by (auto simp: mul_run_phase_def mul_do_reset_def mul_reset_pins_def)

end
