(* ===== verification/Exu_Div.thy ===== *)
theory Exu_Div
  imports Uvm_Port
begin

text \<open>
  The divider testbench, \<open>verification/block/exu_div/testbench.py\<close>: the driver, which waits for
  the device with a limit of 100 cycles, the monitors, the scoreboard, the sequence and the reset.
\<close>

section \<open>Definitions\<close>

record div_input_item =
  div_op :: string
  div_num :: int
  div_den :: int
  div_unsign :: int

record div_output_item =
  div_out :: int

text \<open>
  The wait of the driver: \<open>finish i\<close> is whether \<open>finish_dly\<close> reads nonzero after the \<open>i\<close>-th edge,
  \<open>n\<close> the iterations left of \<open>range(100)\<close>; the \<open>else\<close> of the \<open>for\<close> raises.
\<close>

fun div_wait :: "(nat \<Rightarrow> bool) \<Rightarrow> nat \<Rightarrow> nat \<Rightarrow> action list \<times> py_error option" where
  "div_wait finish i 0 = ([], Some RuntimeError)"
| "div_wait finish i (Suc n) =
     (if finish i then ([Await (RisingEdge ''clk''), Drive ''dp_valid'' 0], None)
      else let (as, e) = div_wait finish (Suc i) n
        in (Await (RisingEdge ''clk'') # Drive ''dp_valid'' 0 # as, e))"

definition div_drive :: "(nat \<Rightarrow> bool) \<Rightarrow> div_input_item seq_item \<Rightarrow> action list \<times> py_error option" where
  "div_drive finish item = (case item of
     Item it \<Rightarrow>
       (let (as, e) = div_wait finish 0 100
        in ([Await (RisingEdge ''clk''), Drive ''dp_valid'' 1, Drive ''dp_unsign'' (div_unsign it),
             Drive ''dp_rem'' (of_bool (div_op it = ''rem'')), Drive ''dividend'' (div_num it),
             Drive ''divisor'' (div_den it)] @ as @ (if e = None then [ItemDone] else []), e))
   | OtherItem \<Rightarrow> ([], Some RuntimeError))"

fun div_input_monitor :: "pins list \<Rightarrow> div_input_item list" where
  "div_input_monitor [] = []"
| "div_input_monitor (p # ps) =
     (if p ''dp_valid'' \<noteq> 0
      then \<lparr>div_op = (if p ''dp_rem'' \<noteq> 0 then ''rem'' else ''div''), div_num = p ''dividend'',
            div_den = p ''divisor'', div_unsign = p ''dp_unsign''\<rparr> # div_input_monitor ps
      else div_input_monitor ps)"

fun div_output_monitor :: "pins list \<Rightarrow> div_output_item list" where
  "div_output_monitor [] = []"
| "div_output_monitor (p # ps) =
     (if p ''finish_dly'' \<noteq> 0 then \<lparr>div_out = p ''out''\<rparr> # div_output_monitor ps
      else div_output_monitor ps)"

definition div_judge :: "div_input_item \<Rightarrow> div_output_item \<Rightarrow> bool py" where
  "div_judge inp out =
     (if div_den inp = 0 then Inl ZeroDivisionError
      else let d = div_num inp div div_den inp;
               r = div_num inp - d * div_den inp
        in Inr (\<not> ((div_op inp = ''div'' \<and> div_out out \<noteq> d) \<or> (div_op inp = ''rem'' \<and> div_out out \<noteq> r))))"

definition div_check_phase ::
  "('p \<Rightarrow> div_input_item option \<times> 'p) \<Rightarrow> ('q \<Rightarrow> div_output_item option \<times> 'q) \<Rightarrow> 'p \<Rightarrow> 'q
   \<Rightarrow> bool option py option" where
  "div_check_phase try_get_inp try_get_out port_inp port_out =
     pair_loop try_get_inp try_get_out div_judge port_inp port_out None"

definition div_base_sequence ::
  "nat \<Rightarrow> (nat \<Rightarrow> int) \<Rightarrow> (nat \<Rightarrow> int) \<Rightarrow> (nat \<Rightarrow> string) \<Rightarrow> div_input_item list" where
  "div_base_sequence count rnum rden rop =
     map (\<lambda>i. \<lparr>div_op = rop i, div_num = rnum i, div_den = rden i, div_unsign = 1\<rparr>) [0..<count]"

definition div_do_reset :: "action list" where
  "div_do_reset =
     map (\<lambda>s. Drive s 0)
       [''scan_mode'', ''dp_valid'', ''dp_unsign'', ''dp_rem'', ''dividend'', ''divisor'', ''cancel'',
        ''rst_l''] @
     [Await (ClockCycles ''clk'' 2), Await (FallingEdge ''clk''), Drive ''rst_l'' 1]"

definition div_run_phase :: "action list \<Rightarrow> action list" where
  "div_run_phase run =
     div_do_reset @ [Await (ClockCycles ''clk'' 2)] @ run @ [Await (ClockCycles ''clk'' 10)]"

definition edges :: "action list \<Rightarrow> nat" where
  "edges as = length (filter (\<lambda>a. a = Await (RisingEdge ''clk'')) as)"

section \<open>The driver's wait\<close>

lemma div_wait_finish:
  "finish (i + k) \<Longrightarrow> (\<And>j. j < k \<Longrightarrow> \<not> finish (i + j)) \<Longrightarrow> k < n \<Longrightarrow>
   snd (div_wait finish i n) = None \<and> edges (fst (div_wait finish i n)) = Suc k"
proof (induction n arbitrary: i k)
  case 0
  then show ?case by simp
next
  case (Suc n)
  show ?case
  proof (cases k)
    case 0
    with Suc.prems show ?thesis by (simp add: edges_def)
  next
    case (Suc m)
    have "\<not> finish i" using Suc.prems(2) [of 0] Suc by simp
    moreover have "snd (div_wait finish (Suc i) n) = None \<and>
        edges (fst (div_wait finish (Suc i) n)) = Suc m"
      using Suc.prems(1,3) Suc.prems(2) [of "Suc j" for j] Suc by (intro Suc.IH) auto
    ultimately show ?thesis using Suc by (cases "div_wait finish (Suc i) n") (auto simp: edges_def)
  qed
qed

lemma div_wait_timeout:
  "(\<And>j. j < n \<Longrightarrow> \<not> finish (i + j)) \<Longrightarrow>
   snd (div_wait finish i n) = Some RuntimeError \<and> edges (fst (div_wait finish i n)) = n"
proof (induction n arbitrary: i)
  case 0
  then show ?case by (simp add: edges_def)
next
  case (Suc n)
  have "\<not> finish i" using Suc.prems [of 0] by simp
  moreover have "snd (div_wait finish (Suc i) n) = Some RuntimeError \<and>
      edges (fst (div_wait finish (Suc i) n)) = n"
    using Suc.prems [of "Suc j" for j] by (intro Suc.IH) auto
  ultimately show ?case by (cases "div_wait finish (Suc i) n") (auto simp: edges_def)
qed

text \<open>
  Remark: the divider's driver always comes back: if the device finishes after \<open>k < 100\<close> edges
  the item is completed after exactly \<open>k + 2\<close> edges, otherwise the driver raises after 101.
\<close>

theorem div_drive_latency:
  assumes "k = (LEAST j. finish j \<or> j = 100)"
  shows "snd (div_drive finish (Item it)) = (if k < 100 then None else Some RuntimeError) \<and>
    edges (fst (div_drive finish (Item it))) = (if k < 100 then k + 2 else 101)"
proof -
  have below: "\<not> finish j" if "j < k" for j
    using not_less_Least [of j "\<lambda>j. finish j \<or> j = 100"] that assms by auto
  have le: "k \<le> 100" using Least_le [of "\<lambda>j. finish j \<or> j = 100" 100] assms by simp
  have "finish k \<or> k = 100" using LeastI [of "\<lambda>j. finish j \<or> j = 100" 100] assms by simp
  then have wait: "snd (div_wait finish 0 100) = (if k < 100 then None else Some RuntimeError) \<and>
      edges (fst (div_wait finish 0 100)) = (if k < 100 then Suc k else 100)"
    using div_wait_finish [of finish 0 k 100] div_wait_timeout [of 100 finish 0] below le
    by (cases "k < 100") auto
  then show ?thesis
    by (cases "div_wait finish 0 100") (auto simp: div_drive_def edges_def)
qed

theorem div_drive_latency_witness:
  "snd (div_drive (\<lambda>j. j = 2) (Item \<lparr>div_op = ''div'', div_num = 7, div_den = 2, div_unsign = 1\<rparr>)) = None \<and>
   edges (fst (div_drive (\<lambda>j. j = 2) (Item \<lparr>div_op = ''div'', div_num = 7, div_den = 2, div_unsign = 1\<rparr>))) = 4"
proof -
  have "(2::nat) = (LEAST j. j = 2 \<or> j = 100)"
    by (rule Least_equality [symmetric]) auto
  from div_drive_latency [OF this, of "\<lparr>div_op = ''div'', div_num = 7, div_den = 2, div_unsign = 1\<rparr>"]
  show ?thesis by simp
qed

section \<open>The scoreboard\<close>

interpretation divsb: pair_scoreboard div_judge "\<lambda>i. div_den i \<noteq> 0"
  "\<lambda>i out. (div_op i = ''div'' \<longrightarrow> div_out out = div_num i div div_den i) \<and>
     (div_op i = ''rem'' \<longrightarrow> div_out out = div_num i mod div_den i)" "\<lambda>_. ZeroDivisionError"
  by unfold_locales (auto simp: div_judge_def Let_def minus_div_mult_eq_mod)

text \<open>
  Remark: the divider scoreboard passes exactly when there was an input, every input had its
  output, no divisor was 0, and each output is the quotient or the remainder asked for.
\<close>

theorem div_scoreboard_passes_iff:
  assumes "fifo_port ci tgi" and "fifo_port co tgo"
  shows "div_check_phase tgi tgo p q = Some (Inr (Some True)) \<longleftrightarrow>
    ci p \<noteq> [] \<and>
    list_all2 (\<lambda>i out. div_den i \<noteq> 0 \<and>
      (div_op i = ''div'' \<longrightarrow> div_out out = div_num i div div_den i) \<and>
      (div_op i = ''rem'' \<longrightarrow> div_out out = div_num i mod div_den i)) (ci p) (co q)"
  unfolding div_check_phase_def by (rule divsb.check_passes_iff [OF assms])

theorem div_scoreboard_passes_iff_witness:
  "div_check_phase list_try_get list_try_get
     [\<lparr>div_op = ''rem'', div_num = 7, div_den = 4, div_unsign = 1\<rparr>] [\<lparr>div_out = 3\<rparr>]
   = Some (Inr (Some True))"
  using div_scoreboard_passes_iff [OF list_fifo_port list_fifo_port,
      of "[\<lparr>div_op = ''rem'', div_num = 7, div_den = 4, div_unsign = 1\<rparr>]" "[\<lparr>div_out = 3\<rparr>]"]
  by simp

text \<open>
  Remark: a division by zero is not compared with the RISC-V result: once the loop reaches an
  item with divisor 0 that has an output, \<open>check_phase\<close> raises \<open>ZeroDivisionError\<close>.
\<close>

theorem div_scoreboard_zero_divisor:
  assumes "fifo_port ci tgi" and "fifo_port co tgo"
    and "ci p = xs @ i # ys" and "list_all (\<lambda>i. div_den i \<noteq> 0) xs" and "div_den i = 0"
    and "length xs < length (co q)"
  shows "div_check_phase tgi tgo p q = Some (Inl ZeroDivisionError)"
  unfolding div_check_phase_def
  using divsb.check_raises [OF assms(1-4) _ assms(6)] assms(5) by simp

theorem div_scoreboard_zero_divisor_witness:
  "div_check_phase list_try_get list_try_get
     [\<lparr>div_op = ''div'', div_num = 7, div_den = 0, div_unsign = 1\<rparr>] [\<lparr>div_out = 0xFFFFFFFF\<rparr>]
   = Some (Inl ZeroDivisionError)"
  by (rule div_scoreboard_zero_divisor [OF list_fifo_port list_fifo_port, where xs = "[]" and ys = "[]"
        and i = "\<lparr>div_op = ''div'', div_num = 7, div_den = 0, div_unsign = 1\<rparr>"]) simp_all

end
