(* ===== verification/Bin_Str.thy ===== *)
theory Bin_Str
  imports Py_Prelude
begin

text \<open>
  Python's conversions between integers and strings of binary digits, as the trigger-logic
  scoreboards use them: \<open>f"{x:031b}"\<close> and \<open>f"{x:032b}"\<close> (\<open>fmt_b\<close>), \<open>int(s, 2)\<close> on digits
  (\<open>bin_val\<close>) and \<open>str.rindex\<close> (\<open>py_rindex\<close>). The lemmas relate the digits of a formatted
  number to the bits of the number.
\<close>

unbundle bit_operations_syntax

section \<open>Definitions\<close>

definition bdigit :: "bool \<Rightarrow> char" where
  "bdigit b = (if b then CHR ''1'' else CHR ''0'')"

fun bin_digits :: "nat \<Rightarrow> string" where
  "bin_digits n = (if n < 2 then [bdigit (n = 1)] else bin_digits (n div 2) @ [bdigit (odd n)])"

declare bin_digits.simps [simp del]

definition fmt_b :: "nat \<Rightarrow> int \<Rightarrow> string" where
  "fmt_b w x =
     (let ds = bin_digits (nat \<bar>x\<bar>)
      in if x < 0 then ''-'' @ replicate (w - 1 - length ds) (CHR ''0'') @ ds
         else replicate (w - length ds) (CHR ''0'') @ ds)"

definition bin_val :: "string \<Rightarrow> int" where
  "bin_val s = foldl (\<lambda>v c. 2 * v + of_bool (c = CHR ''1'')) 0 s"

definition is_bin :: "string \<Rightarrow> bool" where
  "is_bin s \<longleftrightarrow> list_all (\<lambda>c. c = CHR ''0'' \<or> c = CHR ''1'') s"

fun py_rindex :: "char \<Rightarrow> string \<Rightarrow> nat py" where
  "py_rindex c [] = Inl ValueError"
| "py_rindex c (x # xs) =
     (case py_rindex c xs of
        Inr i \<Rightarrow> Inr (Suc i)
      | Inl e \<Rightarrow> if x = c then Inr 0 else Inl e)"

text \<open>The \<open>w\<close> lowest bits, most significant first.\<close>

definition bits_of :: "nat \<Rightarrow> int \<Rightarrow> string" where
  "bits_of w x = map (\<lambda>j. bdigit (bit x (w - 1 - j))) [0..<w]"

section \<open>Digits and bits\<close>

lemma bdigit_inject [simp]: "bdigit a = bdigit b \<longleftrightarrow> a = b"
  by (simp add: bdigit_def)

lemma bdigit_eq_0 [simp]: "bdigit b = CHR ''0'' \<longleftrightarrow> \<not> b"
  by (simp add: bdigit_def)

lemma bdigit_eq_1 [simp]: "bdigit b = CHR ''1'' \<longleftrightarrow> b"
  by (simp add: bdigit_def)

lemma length_bits_of [simp]: "length (bits_of w x) = w"
  by (simp add: bits_of_def)

lemma bits_of_nth: "j < w \<Longrightarrow> bits_of w x ! j = bdigit (bit x (w - 1 - j))"
  by (simp add: bits_of_def)

lemma bits_of_Suc: "bits_of (Suc w) x = bits_of w (x div 2) @ [bdigit (odd x)]"
proof (rule nth_equalityI)
  fix j
  assume "j < length (bits_of (Suc w) x)"
  then have j: "j < Suc w" by simp
  show "bits_of (Suc w) x ! j = (bits_of w (x div 2) @ [bdigit (odd x)]) ! j"
  proof (cases "j < w")
    case True
    then have "Suc w - 1 - j = Suc (w - 1 - j)" by simp
    with True show ?thesis by (simp add: bits_of_nth nth_append bit_Suc)
  next
    case False
    with j have "j = w" by simp
    then show ?thesis by (simp add: bits_of_nth nth_append bit_0)
  qed
qed simp

lemma pad_bin_digits:
  "n < 2 ^ w \<Longrightarrow> 0 < w \<Longrightarrow>
   replicate (w - length (bin_digits n)) (CHR ''0'') @ bin_digits n = bits_of w (int n)"
proof (induction n arbitrary: w rule: bin_digits.induct)
  case (1 n)
  then obtain v where w: "w = Suc v" by (cases w) auto
  show ?case
  proof (cases "n < 2")
    case True
    have zero: "bits_of v 0 = replicate v (CHR ''0'')"
      by (rule nth_equalityI) (simp_all add: bits_of_nth bdigit_def)
    from True have "n = 0 \<or> n = 1" by auto
    with w show ?thesis
      by (auto simp: bin_digits.simps [of 0] bin_digits.simps [of "Suc 0"] bits_of_Suc zero replicate_append_same)
  next
    case False
    have "v \<noteq> 0" using False "1.prems"(1) w by (intro notI) simp
    moreover have "n div 2 < 2 ^ v"
      using "1.prems"(1) w by (simp add: less_mult_imp_div_less mult.commute)
    ultimately have v: "n div 2 < 2 ^ v" "0 < v" by simp_all
    from False "1.IH" [OF False v] have
      "replicate (v - length (bin_digits (n div 2))) (CHR ''0'') @ bin_digits (n div 2)
       = bits_of v (int (n div 2))" by simp
    with False w show ?thesis
      by (simp add: bin_digits.simps [of n] bits_of_Suc zdiv_int flip: append_assoc)
  qed
qed

lemma fmt_b_bits: "0 \<le> x \<Longrightarrow> x < 2 ^ w \<Longrightarrow> 0 < w \<Longrightarrow> fmt_b w x = bits_of w x"
  using pad_bin_digits [of "nat x" w] by (simp add: fmt_b_def Let_def nat_less_iff)

lemma bits_of_take_eq_iff:
  assumes "m \<le> w"
  shows "take m (bits_of w x) = take m (bits_of w y) \<longleftrightarrow> (\<forall>k. w - m \<le> k \<and> k < w \<longrightarrow> bit x k = bit y k)"
proof
  assume eq: "take m (bits_of w x) = take m (bits_of w y)"
  show "\<forall>k. w - m \<le> k \<and> k < w \<longrightarrow> bit x k = bit y k"
  proof (intro allI impI)
    fix k assume k: "w - m \<le> k \<and> k < w"
    then have j: "w - 1 - k < m" "w - 1 - k < w" "w - 1 - (w - 1 - k) = k" using assms by auto
    from eq have "take m (bits_of w x) ! (w - 1 - k) = take m (bits_of w y) ! (w - 1 - k)" by simp
    with j show "bit x k = bit y k" by (simp add: bits_of_nth)
  qed
next
  assume "\<forall>k. w - m \<le> k \<and> k < w \<longrightarrow> bit x k = bit y k"
  then show "take m (bits_of w x) = take m (bits_of w y)"
    using assms by (intro nth_equalityI) (auto simp: bits_of_nth)
qed

lemma bits_of_eq_iff: "bits_of w x = bits_of w y \<longleftrightarrow> take_bit w x = take_bit w y"
  using bits_of_take_eq_iff [of w w x y] by (auto simp: bit_eq_iff bit_take_bit_iff)

section \<open>Strings to numbers\<close>

lemma bin_val_snoc: "bin_val (s @ [c]) = 2 * bin_val s + of_bool (c = CHR ''1'')"
  by (simp add: bin_val_def)

lemma bin_val_bounds: "0 \<le> bin_val s \<and> bin_val s < 2 ^ length s"
  by (induction s rule: rev_induct) (auto simp: bin_val_snoc bin_val_def [of "[]"])

lemma bits_of_bin_val: "is_bin s \<Longrightarrow> bits_of (length s) (bin_val s) = s"
proof (induction s rule: rev_induct)
  case Nil
  show ?case by (simp add: bits_of_def)
next
  case (snoc c s)
  then show ?case
    by (auto simp: bits_of_Suc bin_val_snoc is_bin_def bdigit_def)
qed

lemma fmt_b_bin_val: "is_bin s \<Longrightarrow> s \<noteq> [] \<Longrightarrow> fmt_b (length s) (bin_val s) = s"
  using bin_val_bounds [of s] by (simp add: fmt_b_bits bits_of_bin_val)

section \<open>The last occurrence\<close>

lemma py_rindex_append:
  "py_rindex c (xs @ c # replicate n d) = Inr (length xs)" if "c \<noteq> d"
proof -
  have "py_rindex c (replicate n d) = Inl ValueError"
    using that by (induction n) simp_all
  then show ?thesis by (induction xs) simp_all
qed

lemma py_rindex_none: "c \<notin> set xs \<Longrightarrow> py_rindex c xs = Inl ValueError"
  by (induction xs) auto

lemma py_rindex_last:
  "i < length xs \<Longrightarrow> xs ! i = c \<Longrightarrow> (\<And>j. i < j \<Longrightarrow> j < length xs \<Longrightarrow> xs ! j \<noteq> c) \<Longrightarrow>
   py_rindex c xs = Inr i"
proof (induction xs arbitrary: i)
  case Nil
  then show ?case by simp
next
  case (Cons x xs)
  show ?case
  proof (cases i)
    case 0
    have "c \<notin> set xs"
    proof
      assume "c \<in> set xs"
      then obtain k where "k < length xs" "xs ! k = c" by (auto simp: in_set_conv_nth)
      with Cons.prems(3) [of "Suc k"] 0 show False by simp
    qed
    with 0 Cons.prems(2) show ?thesis by (simp add: py_rindex_none)
  next
    case (Suc k)
    have "py_rindex c xs = Inr k"
      using Cons.prems(1,2) Cons.prems(3) [of "Suc j" for j] Suc by (intro Cons.IH) auto
    with Suc show ?thesis by simp
  qed
qed

end
