(* ===== verification/Trigger_Logic.thy ===== *)
theory Trigger_Logic
  imports Uvm_Port Bin_Str
begin

text \<open>
  The testbenches of the two trigger units, \<open>verification/block/dec_tl/testbench.py\<close> (program
  counter, 31 bits) and \<open>verification/block/lsu_tl/testbench.py\<close> (load/store data, 32 bits):
  items with their random triggers, drivers, monitors, scoreboards and sequences. The scoreboards
  compare strings of binary digits; \<open>trigger_matches\<close> is the meaning of a trigger on bits.
\<close>

unbundle bit_operations_syntax

section \<open>Items and triggers\<close>

record tl_input_item =
  tl_match :: int
  tl_data :: int
  tl_tdata :: "int option list"

record tl_output_item =
  tl_matches :: int

definition TlInputItem :: "int \<Rightarrow> int list option \<Rightarrow> int \<Rightarrow> tl_input_item py" where
  "TlInputItem data tdata match =
     (case tdata of
        None \<Rightarrow> Inr \<lparr>tl_match = match, tl_data = data, tl_tdata = replicate 4 None\<rparr>
      | Some ts \<Rightarrow>
          if length ts < 4 then Inl IndexError
          else Inr \<lparr>tl_match = match, tl_data = data, tl_tdata = map (\<lambda>i. Some (ts ! i)) [0..<4]\<rparr>)"

text \<open>
  \<open>random_trigger\<close>: the random draws are the prefix length \<open>rlen\<close>, the random bits \<open>rbits\<close> and
  the position \<open>ri\<close> of the forced mismatch. The result is the pair \<open>match\<close>, \<open>tdata\<close>.
\<close>

definition random_trigger :: "string \<Rightarrow> bool \<Rightarrow> nat \<Rightarrow> string \<Rightarrow> nat \<Rightarrow> int \<times> int" where
  "random_trigger data matching rlen rbits ri =
     (let tdata = (if matching then take rlen data
                   else (let t = take rlen rbits;
                             b = (if data ! ri = CHR ''0'' then CHR ''1'' else CHR ''0'')
                         in take ri t @ [b] @ drop (Suc ri) t));
          rest = 32 - rlen
      in if rest = 0 then (0, bin_val tdata)
         else (1, bin_val (tdata @ ''0'' @ replicate (rest - 1) (CHR ''1''))))"

text \<open>
  \<open>randomize\<close>: the digits of \<open>data\<close> are 31 random bits and a 0; the four triggers are combined
  into the match mask and the list of \<open>tdata\<close>.
\<close>

definition tl_randomize ::
  "string \<Rightarrow> (nat \<Rightarrow> bool) \<Rightarrow> (nat \<Rightarrow> nat) \<Rightarrow> (nat \<Rightarrow> string) \<Rightarrow> (nat \<Rightarrow> nat) \<Rightarrow> tl_input_item" where
  "tl_randomize rdata rmatching rlen rbits ri =
     (let data = rdata @ ''0'';
          trig = (\<lambda>i. random_trigger data (rmatching i) (rlen i) (rbits i) (ri i))
      in \<lparr>tl_match = fold (\<lambda>i m. m OR push_bit i (fst (trig i))) [0..<4] 0,
          tl_data = bin_val data,
          tl_tdata = map (\<lambda>i. Some (snd (trig i))) [0..<4]\<rparr>)"

section \<open>Drivers and monitors\<close>

definition tdata_pin :: "nat \<Rightarrow> string" where
  "tdata_pin i = ''tdata['' @ [[CHR ''0'', CHR ''1'', CHR ''2'', CHR ''3''] ! i] @ '']''"

definition tl_drive_common :: "int \<Rightarrow> tl_input_item \<Rightarrow> action list py" where
  "tl_drive_common period it =
     (if list_all (\<lambda>t. t \<noteq> None) (tl_tdata it) then Inr
        (map (\<lambda>i. Drive (tdata_pin i) (the (tl_tdata it ! i))) [0..<4] @
         [Drive ''match'' (tl_match it), Drive ''select'' 0, Drive ''store'' 15, Drive ''load'' 15,
          Drive ''execute'' 15, Drive ''m'' 15, Await (Timer period)])
      else Inl TypeError)"

definition dec_tl_drive :: "int \<Rightarrow> tl_input_item seq_item \<Rightarrow> action list py" where
  "dec_tl_drive period item = (case item of
     Item it \<Rightarrow> bind_py (tl_drive_common period it)
       (\<lambda>as. Inr (Drive ''dec_i0_pc_d'' (drop_bit 1 (tl_data it)) # as))
   | OtherItem \<Rightarrow> Inl RuntimeError)"

definition lsu_tl_drive :: "int \<Rightarrow> tl_input_item seq_item \<Rightarrow> action list py" where
  "lsu_tl_drive period item = (case item of
     Item it \<Rightarrow> bind_py (tl_drive_common period it)
       (\<lambda>as. Inr (Drive ''lsu_addr_m'' (tl_data it) # Drive ''store_data_m'' (tl_data it) # as))
   | OtherItem \<Rightarrow> Inl RuntimeError)"

definition tl_input_monitor :: "string \<Rightarrow> pins \<Rightarrow> tl_input_item py" where
  "tl_input_monitor data_pin p =
     TlInputItem (p data_pin) (Some (map (\<lambda>i. p (tdata_pin i)) [0..<4])) (p ''match'')"

definition dec_tl_input_monitor :: "pins \<Rightarrow> tl_input_item py" where
  "dec_tl_input_monitor = tl_input_monitor ''dec_i0_pc_d''"

definition lsu_tl_input_monitor :: "pins \<Rightarrow> tl_input_item py" where
  "lsu_tl_input_monitor = tl_input_monitor ''store_data_m''"

definition dec_tl_output_monitor :: "pins \<Rightarrow> tl_output_item" where
  "dec_tl_output_monitor p = \<lparr>tl_matches = p ''dec_i0_trigger_match_d''\<rparr>"

definition lsu_tl_output_monitor :: "pins \<Rightarrow> tl_output_item" where
  "lsu_tl_output_monitor p = \<lparr>tl_matches = p ''lsu_trigger_match_m''\<rparr>"

section \<open>Scoreboards\<close>

text \<open>
  One trigger: \<open>data\<close> and \<open>tdata\<close> are digit strings, \<open>napot\<close> the bit of the match mask. With the
  bit set the strings are compared up to the last 0 of \<open>tdata\<close>, and \<open>rindex\<close> raises if there is
  none.
\<close>

definition tl_compare :: "string \<Rightarrow> string \<Rightarrow> bool \<Rightarrow> bool py" where
  "tl_compare data tdata napot =
     (if napot then bind_py (py_rindex (CHR ''0'') tdata)
        (\<lambda>len. Inr (take len tdata = take len data))
      else Inr (tdata = data))"

definition tl_step :: "nat \<Rightarrow> nat \<Rightarrow> tl_input_item \<Rightarrow> nat \<Rightarrow> int \<Rightarrow> int py" where
  "tl_step w sh inp i res =
     (if length (tl_tdata inp) \<le> i then Inl IndexError
      else case tl_tdata inp ! i of
        None \<Rightarrow> Inl TypeError
      | Some t \<Rightarrow>
          bind_py (tl_compare (fmt_b w (tl_data inp)) (fmt_b w (drop_bit sh t))
                     (tl_match inp AND push_bit i 1 \<noteq> 0))
            (\<lambda>m. Inr (res OR push_bit i (of_bool m))))"

definition dec_tl_predict :: "tl_input_item \<Rightarrow> int py" where
  "dec_tl_predict inp = fold_py (tl_step 31 1 inp) [0..<4] 0"

definition lsu_tl_predict :: "tl_input_item \<Rightarrow> int py" where
  "lsu_tl_predict inp = fold_py (tl_step 32 0 inp) [0..<4] 0"

definition dec_tl_judge :: "tl_input_item \<Rightarrow> tl_output_item \<Rightarrow> bool py" where
  "dec_tl_judge inp out = bind_py (dec_tl_predict inp) (\<lambda>res. Inr (tl_matches out = res))"

definition lsu_tl_judge :: "tl_input_item \<Rightarrow> tl_output_item \<Rightarrow> bool py" where
  "lsu_tl_judge inp out = bind_py (lsu_tl_predict inp) (\<lambda>res. Inr (tl_matches out = res))"

definition dec_tl_check_phase ::
  "('p \<Rightarrow> tl_input_item option \<times> 'p) \<Rightarrow> ('q \<Rightarrow> tl_output_item option \<times> 'q) \<Rightarrow> 'p \<Rightarrow> 'q
   \<Rightarrow> bool option py option" where
  "dec_tl_check_phase try_get_inp try_get_out port_inp port_out =
     pair_loop try_get_inp try_get_out dec_tl_judge port_inp port_out None"

definition lsu_tl_check_phase ::
  "('p \<Rightarrow> tl_input_item option \<times> 'p) \<Rightarrow> ('q \<Rightarrow> tl_output_item option \<times> 'q) \<Rightarrow> 'p \<Rightarrow> 'q
   \<Rightarrow> bool option py option" where
  "lsu_tl_check_phase try_get_inp try_get_out port_inp port_out =
     pair_loop try_get_inp try_get_out lsu_tl_judge port_inp port_out None"

section \<open>Specification on bits\<close>

text \<open>
  A trigger over \<open>w\<close> bits: equality, or with \<open>napot\<close> equality above the lowest 0 bit of \<open>tdata\<close>.
\<close>

definition lowest_zero :: "nat \<Rightarrow> int \<Rightarrow> nat" where
  "lowest_zero w t = (LEAST k. \<not> bit t k \<or> k = w)"

definition trigger_matches :: "nat \<Rightarrow> int \<Rightarrow> int \<Rightarrow> bool \<Rightarrow> bool" where
  "trigger_matches w data t napot =
     (if napot then drop_bit (Suc (lowest_zero w t)) data = drop_bit (Suc (lowest_zero w t)) t
      else data = t)"

section \<open>One trigger\<close>

lemma lowest_zero_le: "lowest_zero w t \<le> w"
  unfolding lowest_zero_def by (rule Least_le) simp

lemma lowest_zero_bit: "lowest_zero w t < w \<Longrightarrow> \<not> bit t (lowest_zero w t)"
  using LeastI [of "\<lambda>k. \<not> bit t k \<or> k = w" w] by (simp add: lowest_zero_def)

lemma below_lowest_zero: "k < lowest_zero w t \<Longrightarrow> bit t k"
  using not_less_Least [of k "\<lambda>k. \<not> bit t k \<or> k = w"] by (simp add: lowest_zero_def)

lemma high_bits_zero:
  assumes "0 \<le> (x::int)" and "x < 2 ^ w" and "bit x k"
  shows "k < w"
proof -
  from assms(1,2) have "take_bit w x = x" by (simp add: take_bit_int_eq_self)
  with assms(3) show ?thesis by (metis bit_take_bit_iff)
qed

lemma rindex_bits_of:
  assumes "lowest_zero w t < w"
  shows "py_rindex (CHR ''0'') (bits_of w t) = Inr (w - 1 - lowest_zero w t)"
proof (rule py_rindex_last)
  let ?k = "lowest_zero w t"
  show "w - 1 - ?k < length (bits_of w t)" using assms by simp
  have "w - 1 - (w - 1 - ?k) = ?k" using assms by simp
  then show "bits_of w t ! (w - 1 - ?k) = CHR ''0''"
    using assms lowest_zero_bit [OF assms] by (simp add: bits_of_nth)
  fix j assume "w - 1 - ?k < j" and "j < length (bits_of w t)"
  moreover from this have "w - 1 - j < ?k" by simp
  ultimately show "bits_of w t ! j \<noteq> CHR ''0''"
    using below_lowest_zero by (simp add: bits_of_nth)
qed

lemma tl_compare_napot:
  assumes "0 \<le> d" "d < 2 ^ w" "0 \<le> t" "t < 2 ^ w" "lowest_zero w t < w"
  shows "tl_compare (fmt_b w d) (fmt_b w t) True = Inr (trigger_matches w d t True)"
proof -
  let ?k = "lowest_zero w t"
  have k: "w - (w - 1 - ?k) = Suc ?k" "w - 1 - ?k \<le> w" "0 < w" using assms(5) by auto
  have "take (w - 1 - ?k) (bits_of w t) = take (w - 1 - ?k) (bits_of w d) \<longleftrightarrow>
      (\<forall>m. Suc ?k \<le> m \<and> m < w \<longrightarrow> bit t m = bit d m)"
    unfolding bits_of_take_eq_iff [OF k(2)] k(1) by (rule refl)
  also have "\<dots> \<longleftrightarrow> drop_bit (Suc ?k) d = drop_bit (Suc ?k) t"
  proof
    assume *: "\<forall>m. Suc ?k \<le> m \<and> m < w \<longrightarrow> bit t m = bit d m"
    show "drop_bit (Suc ?k) d = drop_bit (Suc ?k) t"
    proof (rule bit_eqI)
      fix n
      show "bit (drop_bit (Suc ?k) d) n = bit (drop_bit (Suc ?k) t) n"
        using * high_bits_zero [OF assms(1,2)] high_bits_zero [OF assms(3,4)]
        by (simp only: bit_drop_bit_eq comp_def) (metis le_add1)
    qed
  next
    assume eq: "drop_bit (Suc ?k) d = drop_bit (Suc ?k) t"
    show "\<forall>m. Suc ?k \<le> m \<and> m < w \<longrightarrow> bit t m = bit d m"
    proof (intro allI impI)
      fix m assume "Suc ?k \<le> m \<and> m < w"
      then obtain n where "m = Suc ?k + n" using le_Suc_ex by blast
      with arg_cong [OF eq, of "\<lambda>x. bit x n"] show "bit t m = bit d m"
        by (simp add: bit_drop_bit_eq)
    qed
  qed
  finally show ?thesis
    unfolding tl_compare_def trigger_matches_def
    using assms k(3) by (simp add: fmt_b_bits rindex_bits_of)
qed

lemma tl_compare_equal:
  assumes "0 \<le> d" "d < 2 ^ w" "0 \<le> t" "t < 2 ^ w" "0 < w"
  shows "tl_compare (fmt_b w d) (fmt_b w t) False = Inr (trigger_matches w d t False)"
  using assms
  by (auto simp: tl_compare_def trigger_matches_def fmt_b_bits bits_of_eq_iff take_bit_int_eq_self)

lemma tl_compare_all_ones:
  assumes "0 \<le> t" "t < 2 ^ w" "0 < w" "lowest_zero w t = w"
  shows "tl_compare d (fmt_b w t) True = Inl ValueError"
proof -
  have "CHR ''0'' \<notin> set (bits_of w t)"
    using below_lowest_zero [of _ w t] assms(4) by (auto simp: in_set_conv_nth bits_of_nth)
  then show ?thesis
    using assms by (simp add: tl_compare_def fmt_b_bits py_rindex_none)
qed

lemma mask_bit: "(m::int) AND push_bit i 1 \<noteq> 0 \<longleftrightarrow> bit m i"
proof -
  have "m AND push_bit i 1 = push_bit i (of_bool (bit m i))"
    by (rule bit_eqI) (auto simp: bit_simps)
  then show ?thesis by simp
qed

section \<open>The four triggers\<close>

text \<open>An item as the monitors build it, its values within \<open>w\<close> bits (after the shift).\<close>

definition tl_item_ok :: "nat \<Rightarrow> nat \<Rightarrow> tl_input_item \<Rightarrow> int list \<Rightarrow> bool" where
  "tl_item_ok w sh inp ts \<longleftrightarrow>
     length ts = 4 \<and> tl_tdata inp = map Some ts \<and> 0 \<le> tl_data inp \<and> tl_data inp < 2 ^ w \<and>
     (\<forall>t \<in> set ts. 0 \<le> drop_bit sh t \<and> drop_bit sh t < 2 ^ w)"

lemma tl_step_ok:
  assumes ok: "tl_item_ok w sh inp ts" and w: "0 < w" and i: "i < 4"
    and zero: "bit (tl_match inp) i \<Longrightarrow> lowest_zero w (drop_bit sh (ts ! i)) < w"
  shows "tl_step w sh inp i res = Inr (res OR push_bit i
    (of_bool (trigger_matches w (tl_data inp) (drop_bit sh (ts ! i)) (bit (tl_match inp) i))))"
proof -
  from ok i have t: "tl_tdata inp ! i = Some (ts ! i)" "ts ! i \<in> set ts" "i < length (tl_tdata inp)"
    by (simp_all add: tl_item_ok_def)
  with ok have b: "0 \<le> tl_data inp" "tl_data inp < 2 ^ w" "0 \<le> drop_bit sh (ts ! i)"
    "drop_bit sh (ts ! i) < 2 ^ w" by (simp_all add: tl_item_ok_def)
  show ?thesis
    unfolding tl_step_def mask_bit using t w zero
    by (cases "bit (tl_match inp) i")
      (simp_all add: tl_compare_napot [OF b] tl_compare_equal [OF b])
qed

lemma or_bits: "bit (fold (\<lambda>i r. r OR push_bit i (of_bool (m i))) [0..<n] (0::int)) k \<longleftrightarrow> k < n \<and> m k"
  by (induction n) (auto simp: bit_simps less_Suc_eq)

lemma tl_predict_ok:
  assumes ok: "tl_item_ok w sh inp ts" and w: "0 < w"
    and zero: "\<And>i. i < 4 \<Longrightarrow> bit (tl_match inp) i \<Longrightarrow> lowest_zero w (drop_bit sh (ts ! i)) < w"
  shows "\<exists>r. fold_py (tl_step w sh inp) [0..<4] 0 = Inr r \<and>
    (\<forall>k. bit r k \<longleftrightarrow> k < 4 \<and>
       trigger_matches w (tl_data inp) (drop_bit sh (ts ! k)) (bit (tl_match inp) k))"
proof -
  let ?m = "\<lambda>i. trigger_matches w (tl_data inp) (drop_bit sh (ts ! i)) (bit (tl_match inp) i)"
  have "fold_py (tl_step w sh inp) [0..<4] 0 =
      Inr (fold (\<lambda>i r. r OR push_bit i (of_bool (?m i))) [0..<4] 0)"
    by (rule fold_py_total) (use ok w zero in \<open>simp add: tl_step_ok\<close>)
  then show ?thesis by (simp add: or_bits)
qed


text \<open>
  Remark: the same for the program-counter triggers, which compare the upper 31 bits of
  \<open>tdata\<close> with the 31-bit program counter.
\<close>

theorem dec_tl_predict_refines:
  assumes "tl_item_ok 31 1 inp ts"
    and "\<And>i. i < 4 \<Longrightarrow> bit (tl_match inp) i \<Longrightarrow> lowest_zero 31 (drop_bit 1 (ts ! i)) < 31"
  shows "\<exists>r. dec_tl_predict inp = Inr r \<and>
    (\<forall>k. bit r k \<longleftrightarrow> k < 4 \<and>
       trigger_matches 31 (tl_data inp) (drop_bit 1 (ts ! k)) (bit (tl_match inp) k))"
  using tl_predict_ok [OF assms(1)] assms(2) by (simp add: dec_tl_predict_def)

text \<open>A concrete item: trigger 0 is a NAPOT trigger over 0x10..0x1F, trigger 1 an equality.\<close>

definition tl_example :: tl_input_item where
  "tl_example = \<lparr>tl_match = 1, tl_data = 0x1A, tl_tdata = map Some [0x17, 0x1A, 0, 0]\<rparr>"

lemma lowest_zero_eqI:
  assumes "k < w" "\<not> bit t k" "\<And>j. j < k \<Longrightarrow> bit t j"
  shows "lowest_zero w t = k"
  unfolding lowest_zero_def
proof (rule Least_equality)
  show "k \<le> y" if "\<not> bit t y \<or> y = w" for y
    using that assms by (metis linorder_not_less order_less_asym)
qed (use assms in simp)

lemma lowest_zero_example: "lowest_zero 32 0x17 = 3" "lowest_zero 31 (drop_bit 1 0x17) = 2"
  by (rule lowest_zero_eqI; auto simp: numeral_3_eq_3 numeral_2_eq_2 less_Suc_eq bit_simps)+


theorem dec_tl_predict_refines_witness:
  "\<exists>r. dec_tl_predict tl_example = Inr r \<and>
    (\<forall>k. bit r k \<longleftrightarrow> k < 4 \<and>
       trigger_matches 31 0x1A (drop_bit 1 ([0x17, 0x1A, 0, 0] ! k)) (bit (1::int) k))"
proof -
  have "tl_item_ok 31 1 tl_example [0x17, 0x1A, 0, 0]"
    by (simp add: tl_item_ok_def tl_example_def)
  moreover have "lowest_zero 31 (drop_bit 1 ([0x17, 0x1A, 0, 0] ! i)) < 31"
    if "bit (tl_match tl_example) i" for i
    using that lowest_zero_example by (auto simp: tl_example_def bit_1_iff)
  ultimately show ?thesis
    using dec_tl_predict_refines [of tl_example "[0x17, 0x1A, 0, 0]"]
    by (simp add: tl_example_def)
qed

section \<open>The random triggers do what they are asked for\<close>

lemma compare_prefix:
  assumes "is_bin s" "length s + Suc n = 32" "length data = 32"
  shows "tl_compare data (fmt_b 32 (bin_val (s @ ''0'' @ replicate n (CHR ''1'')))) True =
    Inr (s = take (length s) data)"
proof -
  have bin: "is_bin (s @ ''0'' @ replicate n (CHR ''1''))"
    using assms(1) by (simp add: is_bin_def list_all_append) (simp add: list_all_length)
  have "length (s @ ''0'' @ replicate n (CHR ''1'')) = 32" using assms(2) by simp
  with fmt_b_bin_val [OF bin] have
    "fmt_b 32 (bin_val (s @ ''0'' @ replicate n (CHR ''1''))) = s @ ''0'' @ replicate n (CHR ''1'')"
    by simp
  with py_rindex_append [of "CHR ''0''" "CHR ''1''" s n] show ?thesis by (simp add: tl_compare_def)
qed

text \<open>
  Remark: \<open>random_trigger\<close> keeps its promise on 32-bit data: a trigger requested as matching
  is predicted to match, one requested as not matching is predicted not to match, for every
  outcome of the random draws.
\<close>

theorem random_trigger_sound:
  assumes data: "is_bin data" "length data = 32"
    and bits: "is_bin rbits" "rlen \<le> length rbits"
    and draws: "if matching then rlen \<le> 32 else 1 \<le> rlen \<and> rlen < 32 \<and> ri < rlen"
    and trigger: "random_trigger data matching rlen rbits ri = (m, t)"
  shows "tl_compare data (fmt_b 32 t) (m = 1) = Inr matching"
proof (cases "rlen = 32")
  case True
  with draws have "matching" by (simp split: if_splits)
  with trigger True data have mt: "m = 0" "t = bin_val data"
    by (auto simp: random_trigger_def Let_def)
  from data have "fmt_b 32 (bin_val data) = data" using fmt_b_bin_val [of data] by fastforce
  with mt \<open>matching\<close> show ?thesis by (simp add: tl_compare_def)
next
  case False
  define s where "s = (if matching then take rlen data
    else take ri rbits @ [if data ! ri = CHR ''0'' then CHR ''1'' else CHR ''0''] @
      drop (Suc ri) (take rlen rbits))"
  from draws False have rlen: "rlen < 32" by (simp split: if_splits)
  from draws have ri: "ri < rlen" if "\<not> matching" using that by simp
  have mt: "m = 1" "t = bin_val (s @ ''0'' @ replicate (31 - rlen) (CHR ''1''))"
    using trigger rlen ri by (auto simp: random_trigger_def Let_def s_def min_absorb1)
  have len: "length s = rlen" using rlen ri data(2) bits(2) by (auto simp: s_def)
  have bin: "is_bin s"
    using data(1) bits(1) by (auto simp: s_def is_bin_def list_all_iff dest!: in_set_takeD in_set_dropD)
  have "(s = take (length s) data) = matching"
  proof (cases matching)
    case False
    have "s ! ri \<noteq> data ! ri"
      using False ri bits(2) by (simp add: s_def nth_append min_def)
    moreover have "take (length s) data ! ri = data ! ri" using len ri [OF False] by simp
    ultimately show ?thesis using False by metis
  qed (simp add: len, simp add: s_def)
  then show ?thesis
    using compare_prefix [OF bin, of "31 - rlen" data] len rlen data(2) mt by simp
qed

theorem random_trigger_sound_witness:
  "tl_compare (replicate 32 (CHR ''1''))
     (fmt_b 32 (snd (random_trigger (replicate 32 (CHR ''1'')) False 4 ''0110'' 2)))
     (fst (random_trigger (replicate 32 (CHR ''1'')) False 4 ''0110'' 2) = 1) = Inr False"
  by (rule random_trigger_sound) (simp_all add: is_bin_def list_all_iff)

section \<open>Scoreboards\<close>

interpretation dec_tl: pair_scoreboard dec_tl_judge "\<lambda>i. \<not> isl (dec_tl_predict i)"
  "\<lambda>i out. dec_tl_predict i = Inr (tl_matches out)" "\<lambda>i. projl (dec_tl_predict i)"
  by unfold_locales (auto simp: dec_tl_judge_def bind_py_def isl_def split: sum.splits)

interpretation lsu_tl: pair_scoreboard lsu_tl_judge "\<lambda>i. \<not> isl (lsu_tl_predict i)"
  "\<lambda>i out. lsu_tl_predict i = Inr (tl_matches out)" "\<lambda>i. projl (lsu_tl_predict i)"
  by unfold_locales (auto simp: lsu_tl_judge_def bind_py_def isl_def split: sum.splits)

text \<open>
  Remark: both trigger scoreboards pass exactly when there was an input and every input had
  an output equal to its prediction.
\<close>

theorem tl_scoreboards_pass_iff:
  assumes "fifo_port ci tgi" and "fifo_port co tgo"
  shows "(dec_tl_check_phase tgi tgo p q = Some (Inr (Some True)) \<longleftrightarrow>
      ci p \<noteq> [] \<and> list_all2 (\<lambda>i out. dec_tl_predict i = Inr (tl_matches out)) (ci p) (co q)) \<and>
    (lsu_tl_check_phase tgi tgo p q = Some (Inr (Some True)) \<longleftrightarrow>
      ci p \<noteq> [] \<and> list_all2 (\<lambda>i out. lsu_tl_predict i = Inr (tl_matches out)) (ci p) (co q))"
proof -
  have valid: "(\<lambda>i out. \<not> isl (f i) \<and> f i = Inr (tl_matches out)) = (\<lambda>i out. f i = Inr (tl_matches out))"
    for f :: "tl_input_item \<Rightarrow> int py"
    by (auto simp: fun_eq_iff)
  show ?thesis
    using dec_tl.check_passes_iff [OF assms] lsu_tl.check_passes_iff [OF assms]
    by (simp add: dec_tl_check_phase_def lsu_tl_check_phase_def valid)
qed

theorem tl_scoreboards_pass_iff_witness:
  "lsu_tl_check_phase list_try_get list_try_get
     [\<lparr>tl_match = 0, tl_data = 5, tl_tdata = map Some [5, 4, 5, 0]\<rparr>] [\<lparr>tl_matches = 5\<rparr>]
   = Some (Inr (Some True))"
proof -
  have "lsu_tl_predict \<lparr>tl_match = 0, tl_data = 5, tl_tdata = map Some [5, 4, 5, 0]\<rparr> = Inr 5"
    by code_simp
  then show ?thesis
    using tl_scoreboards_pass_iff [OF list_fifo_port list_fifo_port,
      of "[\<lparr>tl_match = 0, tl_data = 5, tl_tdata = map Some [5, 4, 5, 0]\<rparr>]" "[\<lparr>tl_matches = 5\<rparr>]"]
    by simp
qed

text \<open>
  Remark: a NAPOT trigger without a 0 bit is not judged: \<open>rindex\<close> finds no 0 and the
  prediction raises \<open>ValueError\<close>.
\<close>

theorem lsu_tl_all_ones_raises:
  "lsu_tl_predict \<lparr>tl_match = 1, tl_data = d, tl_tdata = Some 0xFFFFFFFF # ts\<rparr> = Inl ValueError"
proof -
  have "lowest_zero 32 0xFFFFFFFF = 32"
    unfolding lowest_zero_def
  proof (rule Least_equality)
    show "32 \<le> y" if "\<not> bit (0xFFFFFFFF::int) y \<or> y = 32" for y
    proof (rule ccontr)
      assume "\<not> 32 \<le> y"
      then have "bit (mask 32 :: int) y" by (simp add: bit_mask_iff)
      with that \<open>\<not> 32 \<le> y\<close> show False by (simp add: mask_eq_exp_minus_1)
    qed
  qed simp
  then have "tl_compare (fmt_b 32 d) (fmt_b 32 0xFFFFFFFF) True = Inl ValueError"
    by (intro tl_compare_all_ones) simp_all
  then show ?thesis
    by (simp add: lsu_tl_predict_def upt_rec [of 0 4] tl_step_def)
qed

end
