(* ===== verification/Ccm.thy ===== *)
theory Ccm
  imports Uvm_Port
begin

text \<open>
  The closely-coupled memory testbenches, \<open>verification/block/dccm/testbench.py\<close> and
  \<open>verification/block/iccm/testbench.py\<close>: drivers, monitors and the scoreboard, which replays the
  writes into a dictionary and compares every read with it. The two files' scoreboards are the
  same text; drivers and monitors differ in their pins.
\<close>

section \<open>Items, drivers, monitors\<close>

datatype ccm_item =
    CcmWrite int int
  | CcmRead int "int option"

definition dccm_drive :: "ccm_item seq_item \<Rightarrow> action list py" where
  "dccm_drive item = (case item of
     Item (CcmWrite addr data) \<Rightarrow> Inr
       [Await (RisingEdge ''clk''), Drive ''dccm_wren'' 1,
        Drive ''dccm_wr_addr_lo'' addr, Drive ''dccm_wr_data_lo'' data,
        Drive ''dccm_wr_addr_hi'' addr, Drive ''dccm_wr_data_hi'' data,
        Await (RisingEdge ''clk''), Drive ''dccm_wren'' 0]
   | Item (CcmRead addr _) \<Rightarrow> Inr
       [Await (RisingEdge ''clk''), Drive ''dccm_rden'' 1,
        Drive ''dccm_rd_addr_lo'' addr, Drive ''dccm_rd_addr_hi'' addr,
        Await (RisingEdge ''clk''), Drive ''dccm_rden'' 0]
   | OtherItem \<Rightarrow> Inl RuntimeError)"

definition iccm_drive :: "ccm_item seq_item \<Rightarrow> action list py" where
  "iccm_drive item = (case item of
     Item (CcmWrite addr data) \<Rightarrow> Inr
       [Await (RisingEdge ''clk''), Drive ''iccm_wren'' 1,
        Drive ''iccm_rw_addr'' addr, Drive ''iccm_wr_data'' data, Drive ''iccm_wr_size'' 7,
        Await (RisingEdge ''clk''), Drive ''iccm_wren'' 0]
   | Item (CcmRead addr _) \<Rightarrow> Inr
       [Await (RisingEdge ''clk''), Drive ''iccm_rden'' 1, Drive ''iccm_rw_addr'' addr,
        Await (RisingEdge ''clk''), Drive ''iccm_rden'' 0]
   | OtherItem \<Rightarrow> Inl RuntimeError)"

text \<open>
  The monitors on the pins sampled at the rising edges: a read takes its data at the edge after
  the one that shows the request, and that edge is not examined for another request.
\<close>

fun dccm_monitor :: "pins list \<Rightarrow> ccm_item list" where
  "dccm_monitor [] = []"
| "dccm_monitor (p # ps) =
     (if p ''dccm_wren'' \<noteq> 0 then [CcmWrite (p ''dccm_wr_addr_lo'') (p ''dccm_wr_data_lo'')] else []) @
     (if p ''dccm_rden'' \<noteq> 0
      then (case ps of
              [] \<Rightarrow> []
            | q # qs \<Rightarrow> CcmRead (p ''dccm_rd_addr_lo'') (Some (q ''dccm_rd_data_lo'')) # dccm_monitor qs)
      else dccm_monitor ps)"

fun iccm_monitor :: "pins list \<Rightarrow> ccm_item list" where
  "iccm_monitor [] = []"
| "iccm_monitor (p # ps) =
     (if p ''iccm_wren'' \<noteq> 0 then [CcmWrite (p ''iccm_rw_addr'') (p ''iccm_wr_data'')] else []) @
     (if p ''iccm_rden'' \<noteq> 0
      then (case ps of
              [] \<Rightarrow> []
            | q # qs \<Rightarrow> CcmRead (p ''iccm_rw_addr'') (Some (q ''iccm_rd_data_ecc'')) # iccm_monitor qs)
      else iccm_monitor ps)"

section \<open>Scoreboard\<close>

record ccm_state =
  ccm_passed :: "bool option"
  ccm_did_write :: bool
  ccm_did_read :: bool
  ccm_mem :: "int \<rightharpoonup> int"

text \<open>
  The loop body. The debug message of a read formats the expected data with \<open>0x{:08X}\<close> whether or
  not the message is shown, so \<open>None\<close> raises \<open>TypeError\<close> before the comparison.
\<close>

fun ccm_body :: "ccm_item \<Rightarrow> ccm_state \<Rightarrow> ccm_state py" where
  "ccm_body (CcmWrite addr data) s =
     Inr (s\<lparr>ccm_passed := Some (case ccm_passed s of None \<Rightarrow> True | Some b \<Rightarrow> b),
            ccm_did_write := True, ccm_mem := (ccm_mem s)(addr \<mapsto> data)\<rparr>)"
| "ccm_body (CcmRead addr got) s =
     (let s' = s\<lparr>ccm_passed := Some (case ccm_passed s of None \<Rightarrow> True | Some b \<Rightarrow> b),
                 ccm_did_read := True\<rparr>
      in case (ccm_mem s addr, got) of
           (Some data, Some x) \<Rightarrow>
             Inr (if data \<noteq> x then s'\<lparr>ccm_passed := Some False\<rparr> else s')
         | _ \<Rightarrow> Inl TypeError)"

definition ccm_init :: ccm_state where
  "ccm_init = \<lparr>ccm_passed = None, ccm_did_write = False, ccm_did_read = False, ccm_mem = Map.empty\<rparr>"

definition ccm_conclude :: "ccm_state \<Rightarrow> bool option" where
  "ccm_conclude s =
     (if \<not> ccm_did_write s then Some False
      else if \<not> ccm_did_read s then Some False
      else ccm_passed s)"

definition dccm_check_phase :: "('q \<Rightarrow> bool) \<Rightarrow> ('q \<Rightarrow> ccm_item option \<times> 'q) \<Rightarrow> 'q \<Rightarrow> bool option py option" where
  "dccm_check_phase can_get try_get port =
     map_option (\<lambda>r. bind_py r (\<lambda>s. Inr (ccm_conclude s))) (drain_loop can_get try_get ccm_body port ccm_init)"

definition iccm_check_phase :: "('q \<Rightarrow> bool) \<Rightarrow> ('q \<Rightarrow> ccm_item option \<times> 'q) \<Rightarrow> 'q \<Rightarrow> bool option py option" where
  "iccm_check_phase can_get try_get port =
     map_option (\<lambda>r. bind_py r (\<lambda>s. Inr (ccm_conclude s))) (drain_loop can_get try_get ccm_body port ccm_init)"

definition ccm_do_reset :: "action list" where
  "ccm_do_reset =
     [Drive ''rst_l'' 0, Await (ClockCycles ''clk'' 2), Await (FallingEdge ''clk''), Drive ''rst_l'' 1]"

definition iccm_do_reset :: "action list" where
  "iccm_do_reset =
     map (\<lambda>s. Drive s 0)
       [''active_clk'', ''clk_override'', ''iccm_wren'', ''iccm_rden'', ''iccm_rw_addr'',
        ''iccm_buf_correct_ecc'', ''iccm_correction_state'', ''iccm_wr_size'', ''iccm_wr_data'',
        ''iccm_ext_in_pkt_TEST1'', ''iccm_ext_in_pkt_RME'', ''iccm_ext_in_pkt_RM'',
        ''iccm_ext_in_pkt_LS'', ''iccm_ext_in_pkt_DS'', ''iccm_ext_in_pkt_SD'',
        ''iccm_ext_in_pkt_TEST_RNM'', ''iccm_ext_in_pkt_BC1'', ''iccm_ext_in_pkt_BC2'',
        ''scan_mode''] @ ccm_do_reset"

section \<open>Specification: reads return the last write\<close>

definition writes_to :: "int \<Rightarrow> ccm_item list \<Rightarrow> int list" where
  "writes_to a its = List.map_filter (\<lambda>it. case it of CcmWrite b v \<Rightarrow> if b = a then Some v else None | _ \<Rightarrow> None) its"

definition last_write :: "ccm_item list \<Rightarrow> int \<Rightarrow> int option" where
  "last_write its a = (case rev (writes_to a its) of [] \<Rightarrow> None | v # _ \<Rightarrow> Some v)"

definition consistent :: "ccm_item list \<Rightarrow> bool" where
  "consistent its \<longleftrightarrow>
     (\<forall>ys a d zs. its = ys @ CcmRead a d # zs \<longrightarrow> (\<exists>v. last_write ys a = Some v \<and> d = Some v))"

definition is_write :: "ccm_item \<Rightarrow> bool" where
  "is_write it = (case it of CcmWrite _ _ \<Rightarrow> True | _ \<Rightarrow> False)"

section \<open>The replayed memory\<close>

lemma last_write_snoc:
  "last_write (its @ [CcmWrite b v]) = (last_write its)(b \<mapsto> v)"
  "last_write (its @ [CcmRead b d]) = last_write its"
  by (auto simp: last_write_def writes_to_def map_filter_simps fun_eq_iff List.map_filter_def)

lemma consistent_Nil: "consistent []"
  by (simp add: consistent_def)

lemma consistent_snoc_read:
  "consistent (its @ [CcmRead a d]) \<longleftrightarrow> consistent its \<and> (\<exists>v. last_write its a = Some v \<and> d = Some v)"
proof
  assume c: "consistent (its @ [CcmRead a d])"
  then have "consistent its" by (auto simp: consistent_def)
  moreover from c have "\<exists>v. last_write its a = Some v \<and> d = Some v" by (auto simp: consistent_def)
  ultimately show "consistent its \<and> (\<exists>v. last_write its a = Some v \<and> d = Some v)" ..
next
  assume *: "consistent its \<and> (\<exists>v. last_write its a = Some v \<and> d = Some v)"
  show "consistent (its @ [CcmRead a d])"
    unfolding consistent_def
  proof (intro allI impI)
    fix ys b e zs
    assume eq: "its @ [CcmRead a d] = ys @ CcmRead b e # zs"
    show "\<exists>v. last_write ys b = Some v \<and> e = Some v"
    proof (cases zs rule: rev_cases)
      case Nil
      with eq * show ?thesis by simp
    next
      case (snoc zs' z)
      with eq have "its = ys @ CcmRead b e # zs'" by simp
      with * show ?thesis by (auto simp: consistent_def)
    qed
  qed
qed

lemma consistent_snoc_write: "consistent (its @ [CcmWrite a v]) \<longleftrightarrow> consistent its"
proof
  assume "consistent (its @ [CcmWrite a v])"
  then show "consistent its" by (auto simp: consistent_def)
next
  assume c: "consistent its"
  show "consistent (its @ [CcmWrite a v])"
    unfolding consistent_def
  proof (intro allI impI)
    fix ys b e zs
    assume eq: "its @ [CcmWrite a v] = ys @ CcmRead b e # zs"
    then obtain zs' where "its = ys @ CcmRead b e # zs'" by (cases zs rule: rev_cases) auto
    with c show "\<exists>v. last_write ys b = Some v \<and> e = Some v" by (auto simp: consistent_def)
  qed
qed

text \<open>The scoreboard's state after a prefix, as long as no exception was raised.\<close>

lemma ccm_fold_state:
  assumes "fold_py ccm_body its ccm_init = Inr s"
  shows "ccm_mem s = last_write its \<and> ccm_did_write s = list_ex is_write its \<and>
    ccm_did_read s = list_ex (Not \<circ> is_write) its \<and>
    ccm_passed s = (if its = [] then None else Some (consistent its))"
  using assms
proof (induction its arbitrary: s rule: rev_induct)
  case Nil
  then show ?case by (auto simp: ccm_init_def last_write_def writes_to_def map_filter_simps)
next
  case (snoc it its)
  then obtain s0 where s0: "fold_py ccm_body its ccm_init = Inr s0" "ccm_body it s0 = Inr s"
    by (auto simp: fold_py_append bind_py_eq_Inr)
  note IH = snoc.IH [OF s0(1)]
  show ?case
  proof (cases it)
    case (CcmWrite a v)
    with s0(2) IH show ?thesis
      by (auto simp: last_write_snoc consistent_snoc_write consistent_Nil is_write_def)
  next
    case (CcmRead a d)
    with s0(2) IH show ?thesis
      by (auto simp: last_write_snoc consistent_snoc_read consistent_Nil is_write_def Let_def
          split: option.splits if_splits)
  qed
qed

lemma ccm_fold_consistent: "consistent its \<Longrightarrow> \<exists>s. fold_py ccm_body its ccm_init = Inr s"
proof (induction its rule: rev_induct)
  case Nil
  show ?case by simp
next
  case (snoc it its)
  then have "consistent its" by (cases it) (simp_all add: consistent_snoc_write consistent_snoc_read)
  with snoc.IH obtain s0 where s0: "fold_py ccm_body its ccm_init = Inr s0" by blast
  show ?case
  proof (cases it)
    case (CcmWrite a v)
    with s0 show ?thesis by (simp add: fold_py_append)
  next
    case (CcmRead a d)
    with snoc.prems ccm_fold_state [OF s0] obtain v where "ccm_mem s0 a = Some v" "d = Some v"
      by (auto simp: consistent_snoc_read)
    with CcmRead s0 show ?thesis by (simp add: fold_py_append Let_def)
  qed
qed

text \<open>
  Property C8: the memory scoreboards (data and instruction memory) pass exactly when at least one
  write and one read were observed and every read returned the value of the last earlier write to
  its address.
\<close>

theorem ccm_scoreboard_passes_iff:
  assumes "fifo_port c tg" and "fifo_can_get c cg"
  shows "(dccm_check_phase cg tg q = Some (Inr (Some True)) \<longleftrightarrow>
      list_ex is_write (c q) \<and> list_ex (Not \<circ> is_write) (c q) \<and> consistent (c q)) \<and>
    iccm_check_phase cg tg q = dccm_check_phase cg tg q"
proof -
  have "bind_py (fold_py ccm_body its ccm_init) (\<lambda>s. Inr (ccm_conclude s)) = Inr (Some True) \<longleftrightarrow>
      list_ex is_write its \<and> list_ex (Not \<circ> is_write) its \<and> consistent its" for its
  proof (cases "fold_py ccm_body its ccm_init")
    case (Inl e)
    with ccm_fold_consistent [of its] show ?thesis by auto
  next
    case (Inr s)
    with ccm_fold_state [OF Inr] show ?thesis by (auto simp: ccm_conclude_def)
  qed
  then show ?thesis
    by (simp add: dccm_check_phase_def iccm_check_phase_def drain_loop_fold [OF assms])
qed

theorem ccm_scoreboard_passes_iff_witness:
  "dccm_check_phase list_can_get list_try_get [CcmWrite 4 7, CcmWrite 4 9, CcmRead 4 (Some 9)]
   = Some (Inr (Some True))"
proof -
  have "consistent (([CcmWrite 4 7] @ [CcmWrite 4 9]) @ [CcmRead 4 (Some 9)])"
    unfolding consistent_snoc_read last_write_snoc
    using consistent_snoc_write [of "[CcmWrite 4 7]" 4 9] consistent_snoc_write [of "[]" 4 7] consistent_Nil
    by simp
  then show ?thesis
    using ccm_scoreboard_passes_iff [OF list_fifo_port list_fifo_can_get,
      of "[CcmWrite 4 7, CcmWrite 4 9, CcmRead 4 (Some 9)]"]
    by (simp add: is_write_def)
qed

text \<open>
  Remark: a read of an address that was never written is not reported as a mismatch: the
  scoreboard raises \<open>TypeError\<close> while formatting its debug message.
\<close>

theorem ccm_unwritten_read_raises:
  assumes "fifo_port c tg" and "fifo_can_get c cg"
    and "c q = ys @ CcmRead a d # zs" and "consistent ys" and "last_write ys a = None"
  shows "dccm_check_phase cg tg q = Some (Inl TypeError)"
proof -
  obtain s where s: "fold_py ccm_body ys ccm_init = Inr s"
    using ccm_fold_consistent [OF assms(4)] by blast
  with ccm_fold_state [OF s] assms(5) have "ccm_mem s a = None" by simp
  with s show ?thesis
    by (simp add: dccm_check_phase_def drain_loop_fold [OF assms(1,2)] assms(3) fold_py_append Let_def)
qed

theorem ccm_unwritten_read_raises_witness:
  "dccm_check_phase list_can_get list_try_get [CcmRead 4 (Some 0)] = Some (Inl TypeError)"
  by (rule ccm_unwritten_read_raises [OF list_fifo_port list_fifo_can_get, where ys = "[]"])
    (simp_all add: consistent_Nil last_write_def writes_to_def map_filter_simps)

end
