(* ===== verification/Bus_Utils.thy ===== *)
theory Bus_Utils
  imports Uvm_Port
begin

text \<open>
  \<open>verification/block/common/utils.py\<close> and the bytes the buses carry.

  \<^item> \<open>struct.pack\<close> and \<open>struct.unpack\<close> with the formats \<open><I\<close> and \<open><Q\<close> (standard library): four or
    eight bytes, least significant first; anything else raises \<open>struct.error\<close>.
  \<^item> \<open>collect_bytes\<close>: the valid lanes of a data bus. A cocotb signal is its width and its value.
  \<^item> \<open>function_bisect\<close> and \<open>smallest_number_of_trials\<close>: the search for a time-out. The search
    only compares, so its values are of any linear order; the binomial distribution of scipy is
    the parameter \<open>cdf\<close>, and floating-point rounding is outside the model.
\<close>

section \<open>Definitions\<close>

type_synonym bytes = "int list"
type_synonym bus_sig = "nat \<times> int"

definition is_bytes :: "bytes \<Rightarrow> bool" where
  "is_bytes bs \<longleftrightarrow> list_all (\<lambda>b. 0 \<le> b \<and> b < 256) bs"

primrec le_val :: "bytes \<Rightarrow> int" where
  "le_val [] = 0"
| "le_val (b # bs) = b + 256 * le_val bs"

primrec le_bytes :: "nat \<Rightarrow> int \<Rightarrow> bytes" where
  "le_bytes 0 v = []"
| "le_bytes (Suc n) v = v mod 256 # le_bytes n (v div 256)"

definition struct_pack :: "nat \<Rightarrow> int \<Rightarrow> bytes py" where
  "struct_pack n v = (if 0 \<le> v \<and> v < 256 ^ n then Inr (le_bytes n v) else Inl StructError)"

definition struct_unpack :: "nat \<Rightarrow> bytes \<Rightarrow> int py" where
  "struct_unpack n bs = (if length bs = n then Inr (le_val bs) else Inl StructError)"

definition collect_bytes :: "bus_sig \<Rightarrow> bus_sig option \<Rightarrow> bytes py" where
  "collect_bytes data strb =
     (if (case strb of None \<Rightarrow> False | Some s \<Rightarrow> fst data \<noteq> 8 * fst s) then Inl AssertionError
      else Inr (map (\<lambda>i. drop_bit (8 * i) (snd data) AND 0xFF)
             (filter (\<lambda>i. case strb of None \<Rightarrow> True | Some s \<Rightarrow> snd s AND push_bit i 1 \<noteq> 0)
               [0..<fst data div 8])))"

partial_function (option) bisect_grow :: "(nat \<Rightarrow> 'a::linorder) \<Rightarrow> 'a \<Rightarrow> nat \<Rightarrow> nat option" where
  "bisect_grow f target upper_lim =
     (if f upper_lim < target then bisect_grow f target (upper_lim * 2) else Some upper_lim)"

partial_function (option) bisect_narrow ::
  "(nat \<Rightarrow> 'a::linorder) \<Rightarrow> 'a \<Rightarrow> nat \<Rightarrow> nat \<Rightarrow> nat option" where
  "bisect_narrow f target lower_lim upper_lim =
     (if int upper_lim - int lower_lim \<ge> 2 then
        (let mid = (lower_lim + upper_lim) div 2
         in if f mid \<ge> target then bisect_narrow f target lower_lim mid
            else if f mid < target then bisect_narrow f target mid upper_lim
            else bisect_narrow f target lower_lim upper_lim)
      else Some upper_lim)"

definition function_bisect :: "(nat \<Rightarrow> 'a::linorder) \<Rightarrow> 'a \<Rightarrow> nat option" where
  "function_bisect f target =
     (if f 0 \<ge> target then Some 0
      else Option.bind (bisect_grow f target 2) (bisect_narrow f target 0))"

definition smallest_number_of_trials ::
  "(int \<Rightarrow> nat \<Rightarrow> 'a \<Rightarrow> 'a) \<Rightarrow> 'a::linordered_field \<Rightarrow> int \<Rightarrow> 'a \<Rightarrow> nat option" where
  "smallest_number_of_trials cdf p k j = function_bisect (\<lambda>n. 1 - cdf (k - 1) n p) (j / 100)"

section \<open>Packing\<close>

lemma is_bytes_simps [simp]:
  "is_bytes []"
  "is_bytes (b # bs) \<longleftrightarrow> 0 \<le> b \<and> b < 256 \<and> is_bytes bs"
  "is_bytes (bs @ cs) \<longleftrightarrow> is_bytes bs \<and> is_bytes cs"
  by (auto simp: is_bytes_def)

lemma le_val_bound: "is_bytes bs \<Longrightarrow> 0 \<le> le_val bs \<and> le_val bs < 256 ^ length bs"
  by (induction bs) auto

lemma le_val_append: "le_val (bs @ cs) = le_val bs + 256 ^ length bs * le_val cs"
  by (induction bs) (simp_all add: algebra_simps)

lemma length_le_bytes [simp]: "length (le_bytes n v) = n"
  by (induction n arbitrary: v) simp_all

lemma le_bytes_is_bytes [simp]: "is_bytes (le_bytes n v)"
  by (induction n arbitrary: v) simp_all

lemma le_bytes_le_val: "is_bytes bs \<Longrightarrow> le_bytes (length bs) (le_val bs) = bs"
  by (induction bs) auto

lemma le_val_le_bytes: "0 \<le> v \<Longrightarrow> v < 256 ^ n \<Longrightarrow> le_val (le_bytes n v) = v"
proof (induction n arbitrary: v)
  case (Suc n)
  from Suc.prems have "le_val (le_bytes n (v div 256)) = v div 256"
    by (intro Suc.IH) (simp_all add: div_less_iff_less_mult pos_imp_zdiv_nonneg_iff)
  then show ?case by simp
qed simp

lemma le_bytes_nth: "i < n \<Longrightarrow> le_bytes n v ! i = v div 256 ^ i mod 256"
proof (induction n arbitrary: i v)
  case (Suc n)
  show ?case
  proof (cases i)
    case (Suc j)
    with Suc.prems show ?thesis by (simp add: Suc.IH zdiv_zmult2_eq)
  qed simp
qed simp

lemma byte_lane: "drop_bit (8 * i) (v::int) AND 0xFF = v div 256 ^ i mod 256"
  by (simp add: and_mask drop_bit_eq_div take_bit_eq_mod power_mult)

lemma lanes_le_bytes: "map (\<lambda>i. drop_bit (8 * i) (v::int) AND 0xFF) [0..<n] = le_bytes n v"
  by (rule nth_equalityI) (simp_all add: le_bytes_nth byte_lane)

section \<open>Collecting the lanes of a bus\<close>

lemma collect_bytes_all: "collect_bytes (8 * n, v) None = Inr (le_bytes n v)"
  by (simp add: collect_bytes_def lanes_le_bytes)

lemma collect_bytes_strb:
  "collect_bytes (8 * n, v) (Some (n, s)) =
     Inr (map (\<lambda>i. drop_bit (8 * i) v AND 0xFF) (filter (bit s) [0..<n]))"
  by (simp add: collect_bytes_def and_exp_eq_0_iff_not_bit)

lemma filter_upt_below: "k \<le> n \<Longrightarrow> filter (\<lambda>i. i < k) [0..<n] = [0..<k]"
proof (induction n)
  case (Suc n)
  then show ?case by (cases "k = Suc n") simp_all
qed simp

lemma collect_bytes_prefix:
  assumes "k \<le> n"
  shows "collect_bytes (8 * n, v) (Some (n, mask k)) = Inr (le_bytes k v)"
proof -
  have "bit (mask k :: int) = (\<lambda>i. i < k)" by (simp add: fun_eq_iff bit_mask_iff)
  then have "filter (bit (mask k :: int)) [0..<n] = [0..<k]"
    using filter_upt_below [OF assms] by simp
  then show ?thesis by (simp add: collect_bytes_strb lanes_le_bytes)
qed

text \<open>
  Remark: what a bus monitor samples from a 64-bit bus unpacks to the value on the bus; with
  byte strobes the sample has one byte per strobe, so unpacking it raises \<open>struct.error\<close> unless
  all strobes are set.
\<close>

theorem collect_bytes_unpack:
  assumes "0 \<le> v" and "v < 2 ^ 64"
  shows "bind_py (collect_bytes (64, v) None) (struct_unpack 8) = Inr v \<and>
    bind_py (collect_bytes (64, v) (Some (8, s))) (struct_unpack 8) =
      (if \<forall>i<8. bit s i then Inr v else Inl StructError)"
proof -
  have val: "le_val (le_bytes 8 v) = v" using assms by (intro le_val_le_bytes) simp_all
  have all: "collect_bytes (64, v) None = Inr (le_bytes 8 v)" using collect_bytes_all [of 8 v] by simp
  have strb: "collect_bytes (64, v) (Some (8, s)) =
      Inr (map (\<lambda>i. drop_bit (8 * i) v AND 0xFF) (filter (bit s) [0..<8]))"
    using collect_bytes_strb [of 8 v s] by simp
  show ?thesis
  proof (cases "\<forall>i<8. bit s i")
    case True
    then have "filter (bit s) [0..<8] = [0..<8]" by (intro filter_True) simp
    with True val all strb show ?thesis by (simp only: lanes_le_bytes) (simp add: struct_unpack_def)
  next
    case False
    then have "length (filter (bit s) [0..<8]) < 8"
      using length_filter_less [of _ "[0..<8]" "bit s"] by auto
    with False val all strb show ?thesis by (simp add: struct_unpack_def)
  qed
qed

theorem collect_bytes_unpack_witness:
  "bind_py (collect_bytes (64, 0x1122334455667788) (Some (8, 0xFF))) (struct_unpack 8) = Inr 0x1122334455667788"
proof -
  have "\<forall>i<8. bit (0xFF::int) i"
    using bit_mask_iff [of 8, where 'a = int] by (simp add: mask_eq_exp_minus_1)
  then show ?thesis
    using collect_bytes_unpack [of "0x1122334455667788" "0xFF"] by simp
qed

section \<open>The time-out search\<close>

lemma bisect_grow_sound: "bisect_grow f target u = Some v \<Longrightarrow> \<not> f v < target \<and> u \<le> v"
  by (rule bisect_grow.raw_induct [of "\<lambda>f t u v. \<not> f v < t \<and> u \<le> v"]) (fastforce split: if_splits)

lemma bisect_grow_total:
  assumes "mono f" and "target \<le> f x" and "0 < u"
  shows "\<exists>v. bisect_grow f target u = Some v"
  using assms(3)
proof (induction "x - u" arbitrary: u rule: less_induct)
  case less
  show ?case
  proof (cases "f u < target")
    case True
    have "u < x"
    proof (rule ccontr)
      assume "\<not> u < x"
      then have "f x \<le> f u" by (intro monoD [OF assms(1)]) simp
      with True assms(2) show False by simp
    qed
    with less.hyps [of "u * 2"] less.prems have "\<exists>v. bisect_grow f target (u * 2) = Some v" by simp
    then show ?thesis by (subst bisect_grow.simps) simp
  next
    case False
    then show ?thesis by (subst bisect_grow.simps) simp
  qed
qed

lemma bisect_narrow_least:
  assumes "mono f" and "f lo < target" and "target \<le> f hi"
  shows "bisect_narrow f target lo hi = Some (LEAST x. target \<le> f x)"
  using assms(2,3)
proof (induction "hi - lo" arbitrary: lo hi rule: less_induct)
  case less
  have lt: "lo < hi"
  proof (rule ccontr)
    assume "\<not> lo < hi"
    then have "f hi \<le> f lo" by (intro monoD [OF assms(1)]) simp
    with less.prems show False by simp
  qed
  show ?case
  proof (cases "lo + 2 \<le> hi")
    case True
    let ?mid = "(lo + hi) div 2"
    have mid: "lo < ?mid" "?mid < hi" using True by auto
    show ?thesis
    proof (cases "target \<le> f ?mid")
      case ge: True
      with less.hyps [of ?mid lo] mid less.prems(1)
      have "bisect_narrow f target lo ?mid = Some (LEAST x. target \<le> f x)" by simp
      with ge True show ?thesis by (subst bisect_narrow.simps) (simp add: Let_def)
    next
      case lt: False
      with less.hyps [of hi ?mid] mid less.prems(2)
      have "bisect_narrow f target ?mid hi = Some (LEAST x. target \<le> f x)" by simp
      moreover from lt have "f ?mid < target" by (simp add: not_le)
      ultimately show ?thesis using lt True by (subst bisect_narrow.simps) (simp add: Let_def)
    qed
  next
    case False
    with lt have hi: "hi = Suc lo" by simp
    have "(LEAST x. target \<le> f x) = hi"
    proof (rule Least_equality)
      fix y assume y: "target \<le> f y"
      show "hi \<le> y"
      proof (rule ccontr)
        assume "\<not> hi \<le> y"
        then have "f y \<le> f lo" using hi by (intro monoD [OF assms(1)]) simp
        with y less.prems(1) show False by simp
      qed
    qed (rule less.prems)
    with False show ?thesis by (subst bisect_narrow.simps) simp
  qed
qed

text \<open>
  Property C34: on an increasing function \<open>function_bisect\<close> returns the least argument that reaches
  the target, and runs for ever exactly when there is none, as its documentation warns.
\<close>

theorem function_bisect_least:
  assumes "mono f"
  shows "function_bisect f target =
    (if \<exists>x. target \<le> f x then Some (LEAST x. target \<le> f x) else None)"
proof (cases "target \<le> f 0")
  case True
  then have "(LEAST x. target \<le> f x) = 0" by (intro Least_equality) simp_all
  with True show ?thesis by (auto simp: function_bisect_def)
next
  case below: False
  show ?thesis
  proof (cases "bisect_grow f target 2")
    case None
    with bisect_grow_total [OF assms, of target _ 2] below show ?thesis
      by (auto simp: function_bisect_def)
  next
    case (Some v)
    then have "target \<le> f v" using bisect_grow_sound [OF Some] by (simp add: not_less)
    with below Some bisect_narrow_least [OF assms, of 0 target v] show ?thesis
      by (auto simp: function_bisect_def)
  qed
qed

theorem function_bisect_least_witness:
  "function_bisect (\<lambda>n. n * n) (50::nat) = Some 8 \<and> function_bisect (\<lambda>n. min n 3) (4::nat) = None"
proof -
  have "mono (\<lambda>n::nat. n * n)" "mono (\<lambda>n::nat. min n 3)" by (auto simp: mono_def mult_le_mono)
  moreover have "(LEAST x. 50 \<le> x * (x::nat)) = 8"
  proof (rule Least_equality)
    fix y :: nat assume "50 \<le> y * y"
    then show "8 \<le> y" using mult_le_mono [of y 7 y 7] by (cases "y \<le> 7") auto
  qed simp
  moreover have "\<exists>x::nat. 50 \<le> x * x" by (rule exI [of _ 8]) simp
  ultimately show ?thesis
    using function_bisect_least [of "\<lambda>n. n * n" 50] function_bisect_least [of "\<lambda>n. min n 3" 4] by simp
qed

end
