(* ===== verification/Signal_Script.thy ===== *)
theory Signal_Script
  imports Uvm_Port
begin

text \<open>
  Monitors that wait for signals. Such a monitor repeats for ever a fixed sequence of waits
  (\<open>await RisingEdge(signal)\<close>, \<open>await ClockCycles(clk, n)\<close>) and reads of pins; \<open>mon_op\<close> is one of
  these, and \<open>run_script\<close> performs one round of a sequence on the pins seen from now on.

  The pins are represented by their values at the rising edges of the clock. All assignments made
  after an edge take effect together before the next edge. So a signal rises between two edges,
  a coroutine that waited for it sees the pins as they are at the next edge, and the next clock
  edge it waits for is that one. What the device drives is \<open>env t\<close> at edge \<open>t\<close>.

  The locale \<open>script_unit\<close> is the contract between a driver and such a monitor: one round of the
  monitor sees one item of the driver. The signals \<open>sigs\<close> are low between items, \<open>held\<close> are those
  that must also be low when an item starts. Its lemmas show once for all benches that the monitor
  then reports every item exactly once and waits for ever after the last.
\<close>

section \<open>What a driver shows\<close>

text \<open>
  The samples of an action list, one for each clock edge it waits for; \<open>dur s\<close> is the number of
  clock edges that pass while it waits for a signal \<open>s\<close> of the device to fall; the clock itself falls
  before it rises again.
\<close>

fun clk_samples ::
  "(string \<Rightarrow> nat) \<Rightarrow> (string \<Rightarrow> int \<Rightarrow> int) \<Rightarrow> action list \<Rightarrow> pins \<Rightarrow> pins list" where
  "clk_samples dur rd [] p = []"
| "clk_samples dur rd (Drive s v # as) p = clk_samples dur rd as (p(s := rd s v))"
| "clk_samples dur rd (Await (RisingEdge _) # as) p = p # clk_samples dur rd as p"
| "clk_samples dur rd (Await (ClockCycles _ n) # as) p = replicate n p @ clk_samples dur rd as p"
| "clk_samples dur rd (Await (FallingEdge s) # as) p =
     replicate (if s = ''clk'' then 0 else dur s) p @ clk_samples dur rd as p"
| "clk_samples dur rd (Await (Timer _) # as) p = clk_samples dur rd as p"
| "clk_samples dur rd (ItemDone # as) p = clk_samples dur rd as p"

text \<open>The pins at the edges from \<open>t\<close> on: the outputs \<open>outs\<close> of the bench and the device's side.\<close>

definition join_pins :: "string list \<Rightarrow> pins \<Rightarrow> pins \<Rightarrow> pins" where
  "join_pins outs p e = (\<lambda>s. if s \<in> set outs then p s else e s)"

fun observed :: "string list \<Rightarrow> (nat \<Rightarrow> pins) \<Rightarrow> nat \<Rightarrow> pins list \<Rightarrow> pins list" where
  "observed outs env t [] = []"
| "observed outs env t (p # ps) = join_pins outs p (env t) # observed outs env (Suc t) ps"

text \<open>
  A run of a driver over items, from item number \<open>k\<close> on, and the value of \<open>f\<close> for each item at
  the edge at which it starts.
\<close>

fun bench_trace ::
  "('i \<Rightarrow> action list) \<Rightarrow> (nat \<Rightarrow> string \<Rightarrow> nat) \<Rightarrow> (string \<Rightarrow> int \<Rightarrow> int) \<Rightarrow> nat \<Rightarrow> 'i list \<Rightarrow> pins \<Rightarrow> pins list" where
  "bench_trace drive dur rd k [] p = []"
| "bench_trace drive dur rd k (it # its) p =
     clk_samples (dur k) rd (drive it) p @ bench_trace drive dur rd (Suc k) its (pins_after rd (drive it) p)"

fun bench_map ::
  "('i \<Rightarrow> action list) \<Rightarrow> (nat \<Rightarrow> string \<Rightarrow> nat) \<Rightarrow> (string \<Rightarrow> int \<Rightarrow> int) \<Rightarrow> nat \<Rightarrow> nat \<Rightarrow> 'i list \<Rightarrow> pins
   \<Rightarrow> ((string \<Rightarrow> nat) \<Rightarrow> nat \<Rightarrow> pins \<Rightarrow> 'i \<Rightarrow> 'b) \<Rightarrow> 'b list" where
  "bench_map drive dur rd k t [] p f = []"
| "bench_map drive dur rd k t (it # its) p f =
     f (dur k) t p it #
     bench_map drive dur rd (Suc k) (t + length (clk_samples (dur k) rd (drive it) p)) its (pins_after rd (drive it) p) f"

text \<open>Pins of a given width read back what is assigned to them when it fits.\<close>

definition holds_width :: "(string \<Rightarrow> int \<Rightarrow> int) \<Rightarrow> (string \<times> nat) list \<Rightarrow> bool" where
  "holds_width rd ws \<longleftrightarrow> list_all (\<lambda>(s, w). \<forall>v. 0 \<le> v \<and> v < 2 ^ w \<longrightarrow> rd s v = v) ws"

section \<open>Waiting with a time-out\<close>

text \<open>
  The loop \<open>for i in range(max_cycles): await RisingEdge(clk); if ...: break\<close> of the bus functional
  models, whose \<open>else\<close> branch raises \<open>err\<close>: \<open>n\<close> iterations are left and the next edge is edge \<open>t\<close>. The result
  is the number of the edge after the one at which \<open>P\<close> held.
\<close>

fun wait_for :: "(pins \<Rightarrow> bool) \<Rightarrow> py_error \<Rightarrow> (nat \<Rightarrow> pins) \<Rightarrow> nat \<Rightarrow> nat \<Rightarrow> action list \<times> nat py" where
  "wait_for P err env 0 t = ([], Inl err)"
| "wait_for P err env (Suc n) t =
     (if P (env t) then ([Await (RisingEdge ''clk'')], Inr (Suc t))
      else let (as, r) = wait_for P err env n (Suc t) in (Await (RisingEdge ''clk'') # as, r))"

lemma wait_for_edges:
  "wait_for P err env n t = (as, Inr t') \<Longrightarrow>
   \<exists>m<n. as = replicate (Suc m) (Await (RisingEdge ''clk'')) \<and> t' = t + Suc m \<and> P (env (t + m)) \<and>
     (\<forall>k<m. \<not> P (env (t + k)))"
proof (induction n arbitrary: t as)
  case (Suc n)
  show ?case
  proof (cases "P (env t)")
    case True
    with Suc.prems show ?thesis by (intro exI [of _ 0]) auto
  next
    case False
    with Suc.prems obtain bs where bs: "wait_for P err env n (Suc t) = (bs, Inr t')"
        "as = Await (RisingEdge ''clk'') # bs"
      by (auto split: prod.splits)
    from Suc.IH [OF bs(1)] obtain m where m: "m < n" "bs = replicate (Suc m) (Await (RisingEdge ''clk''))"
        "t' = Suc t + Suc m" "P (env (Suc t + m))" "\<forall>k<m. \<not> P (env (Suc t + k))"
      by blast
    have "\<not> P (env (t + k))" if "k < Suc m" for k
      using that m(5) False by (cases k) auto
    with m bs(2) show ?thesis by (intro exI [of _ "Suc m"]) auto
  qed
qed simp

lemma wait_for_timeout:
  "wait_for P err env n t = (as, Inl e) \<Longrightarrow> e = err \<and> (\<forall>k<n. \<not> P (env (t + k)))"
proof (induction n arbitrary: t as)
  case (Suc n)
  from Suc.prems have no: "\<not> P (env t)" by (auto split: if_splits)
  with Suc.prems obtain bs where "wait_for P err env n (Suc t) = (bs, Inl e)" by (auto split: prod.splits)
  from Suc.IH [OF this] have IH: "e = err" "\<forall>k<n. \<not> P (env (Suc t + k))" by blast+
  have "\<not> P (env (t + k))" if "k < Suc n" for k using that no IH(2) by (cases k) auto
  with IH(1) show ?case by blast
qed simp

lemma clk_samples_awaits:
  "clk_samples d rd (replicate k (Await (RisingEdge c)) @ as) p = replicate k p @ clk_samples d rd as p"
  "pins_after rd (replicate k (Await (RisingEdge c)) @ as) p = pins_after rd as p"
  "pins_after rd (replicate k (Await (RisingEdge c))) p = p"
  by (induction k) simp_all

section \<open>What a monitor does\<close>

datatype mon_op = Rise string | Edges nat | Read string

text \<open>The pins now, and the samples of the edges to come.\<close>

type_synonym view = "pins \<times> pins list"

fun await_rise :: "string \<Rightarrow> pins \<Rightarrow> pins list \<Rightarrow> view option" where
  "await_rise s c [] = None"
| "await_rise s c (p # ps) = (if c s = 0 \<and> p s \<noteq> 0 then Some (p, p # ps) else await_rise s p ps)"

fun await_edges :: "nat \<Rightarrow> pins \<Rightarrow> pins list \<Rightarrow> view option" where
  "await_edges 0 c ps = Some (c, ps)"
| "await_edges (Suc n) c [] = None"
| "await_edges (Suc n) c (p # ps) = await_edges n p ps"

fun run_script :: "mon_op list \<Rightarrow> pins \<Rightarrow> pins list \<Rightarrow> (int list \<times> view) option" where
  "run_script [] c ps = Some ([], (c, ps))"
| "run_script (Rise s # ops) c ps = Option.bind (await_rise s c ps) (\<lambda>(c', ps'). run_script ops c' ps')"
| "run_script (Edges n # ops) c ps = Option.bind (await_edges n c ps) (\<lambda>(c', ps'). run_script ops c' ps')"
| "run_script (Read s # ops) c ps =
     Option.bind (run_script ops c ps) (\<lambda>(xs, v). Some (c s # xs, v))"

text \<open>The reports of the first \<open>n\<close> rounds; a round that waits for ever is the last.\<close>

primrec mon_iter :: "nat \<Rightarrow> mon_op list \<Rightarrow> pins \<Rightarrow> pins list \<Rightarrow> int list list" where
  "mon_iter 0 ops c ps = []"
| "mon_iter (Suc n) ops c ps =
     (case run_script ops c ps of None \<Rightarrow> [] | Some (xs, (c', ps')) \<Rightarrow> xs # mon_iter n ops c' ps')"

section \<open>Samples\<close>

lemma join_pins_in: "s \<in> set outs \<Longrightarrow> join_pins outs p e s = p s"
  and join_pins_out: "s \<notin> set outs \<Longrightarrow> join_pins outs p e s = e s"
  by (simp_all add: join_pins_def)


lemma observed_append: "observed outs env t (ps @ qs) = observed outs env t ps @ observed outs env (t + length ps) qs"
  by (induction ps arbitrary: t) simp_all

lemma length_observed [simp]: "length (observed outs env t ps) = length ps"
  by (induction ps arbitrary: t) simp_all

lemma clk_samples_append:
  "clk_samples dur rd (as @ bs) p = clk_samples dur rd as p @ clk_samples dur rd bs (pins_after rd as p)"
  by (induction dur rd as p rule: clk_samples.induct) (simp_all add: fun_upd_def)

lemma pins_after_all: "pins_after rd (map (\<lambda>s. Drive s v) ss) p s = (if s \<in> set ss then rd s v else p s)"
  by (induction ss arbitrary: p) auto

lemma length_bench_map [simp]: "length (bench_map drive dur rd k t its p f) = length its"
  by (induction its arbitrary: k t p) simp_all

lemma bench_map_map:
  "map g (bench_map drive dur rd k t its p f) = bench_map drive dur rd k t its p (\<lambda>d t p it. g (f d t p it))"
  by (induction its arbitrary: k t p) simp_all

lemma list_all2_bench_map:
  "list_all2 R (bench_map drive dur rd k t its p f) (bench_map drive dur rd k t its p g) \<longleftrightarrow>
     list_all (\<lambda>x. x) (bench_map drive dur rd k t its p (\<lambda>d t p it. R (f d t p it) (g d t p it)))"
  by (induction its arbitrary: k t p) simp_all

lemma bench_map_cong:
  "(\<And>d t p it. it \<in> set its \<Longrightarrow> f d t p it = g d t p it) \<Longrightarrow>
   bench_map drive dur rd k t its p f = bench_map drive dur rd k t its p g"
  by (induction its arbitrary: k t p) simp_all

lemma bench_map_const:
  "bench_map drive dur rd k t its p (\<lambda>d t p it. g it) = map g its"
  by (induction its arbitrary: k t p) simp_all

text \<open>Where every item takes \<open>L\<close> edges, item \<open>i\<close> starts \<open>i * L\<close> edges after the first.\<close>

lemma bench_map_steady:
  assumes "\<And>d p it. it \<in> set its \<Longrightarrow> length (clk_samples d rd (drive it) p) = L"
  shows "bench_map drive dur rd k t its p (\<lambda>d t p it. f t it) =
    map (\<lambda>i. f (t + i * L) (its ! i)) [0..<length its]"
  using assms
proof (induction its arbitrary: k t p)
  case (Cons it its)
  have "[0..<length (it # its)] = 0 # map Suc [0..<length its]"
    by (simp add: map_Suc_upt upt_conv_Cons del: upt_Suc)
  with Cons show ?case by (simp add: add.assoc del: upt_Suc)
qed simp

text \<open>
  A monitor may look at the first edges of the next item. Those are the same for every item, so the
  run can be cut at another place: \<open>lead_in\<close> is performed once and then at the end of every item.
\<close>

lemma bench_trace_rotate:
  assumes "\<And>d d' q. clk_samples d rd lead_in q = clk_samples d' rd lead_in q"
  shows "bench_trace (\<lambda>it. lead_in @ body it) dur rd k its p @
      clk_samples d rd lead_in (pins_after rd (concat (map (\<lambda>it. lead_in @ body it) its)) p) =
    clk_samples d rd lead_in p @ bench_trace (\<lambda>it. body it @ lead_in) dur rd k its (pins_after rd lead_in p)"
proof (induction its arbitrary: k p)
  case (Cons it its)
  then show ?case
    by (simp add: clk_samples_append pins_after_append assms [of "dur k" _ d])
qed simp

section \<open>Waiting\<close>

definition quiet :: "string list \<Rightarrow> pins \<Rightarrow> bool" where
  "quiet sigs p \<longleftrightarrow> list_all (\<lambda>s. p s = 0) sigs"

text \<open>No signal of \<open>sigs\<close> rises from now until the last of the samples.\<close>

fun resting :: "string list \<Rightarrow> pins \<Rightarrow> pins list \<Rightarrow> bool" where
  "resting sigs c [] = True"
| "resting sigs c (p # ps) \<longleftrightarrow> list_all (\<lambda>s. c s = 0 \<longrightarrow> p s = 0) sigs \<and> resting sigs p ps"

lemma quiet_simps [simp]:
  "quiet [] p"
  "quiet (s # sigs) p \<longleftrightarrow> p s = 0 \<and> quiet sigs p"
  by (simp_all add: quiet_def)

lemma resting_append: "resting sigs c (ls @ ps) \<longleftrightarrow> resting sigs c ls \<and> resting sigs (last (c # ls)) ps"
  by (induction ls arbitrary: c) auto

lemma quiet_resting: "list_all (quiet sigs) ls \<Longrightarrow> resting sigs c ls"
  by (induction ls arbitrary: c) (auto simp: quiet_def list_all_iff)

lemma await_rise_skip:
  "resting sigs c ls \<Longrightarrow> s \<in> set sigs \<Longrightarrow> await_rise s c (ls @ ps) = await_rise s (last (c # ls)) ps"
  by (induction ls arbitrary: c) (auto simp: list_all_iff)

lemma await_rise_skip1: "resting [s] c ls \<Longrightarrow> await_rise s c (ls @ ps) = await_rise s (last (c # ls)) ps"
  by (erule await_rise_skip) simp

lemma await_rise_resting: "resting sigs c ls \<Longrightarrow> s \<in> set sigs \<Longrightarrow> await_rise s c ls = None"
  using await_rise_skip [of sigs c ls s "[]"] by simp

lemma quiet_observed:
  "list_all (quiet sigs) ps \<Longrightarrow> set sigs \<subseteq> set outs \<Longrightarrow> list_all (quiet sigs) (observed outs env t ps)"
  by (induction ps arbitrary: t) (auto simp: quiet_def list_all_iff join_pins_def)

lemma await_rise_replicate:
  "s \<in> set outs \<Longrightarrow> p s = 0 \<Longrightarrow>
   await_rise s c (observed outs env t (replicate n p) @ q # ps) =
     (if n = 0 then await_rise s c (q # ps) else if q s \<noteq> 0 then Some (q, q # ps) else await_rise s q ps)"
  by (induction n arbitrary: c t) (auto simp: join_pins_in)

lemma run_script_reads: "run_script (map Read ss) c ps = Some (map c ss, (c, ps))"
  by (induction ss) simp_all

lemma await_edges_append:
  "n \<le> length ls \<Longrightarrow> await_edges n c (ls @ ps) = Some (last (c # take n ls), drop n ls @ ps)"
proof (induction n arbitrary: c ls)
  case (Suc n)
  then show ?case by (cases ls) auto
qed simp

text \<open>What is left of an item after a round.\<close>

lemma ex_left_over:
  "(\<exists>ls. a # xs = ls @ xs \<and> P ls) \<longleftrightarrow> P [a]"
  "(\<exists>ls. a # b # xs = ls @ xs \<and> P ls) \<longleftrightarrow> P [a, b]"
  "(\<exists>ls. a # b # c # xs = ls @ xs \<and> P ls) \<longleftrightarrow> P [a, b, c]"
  "(\<exists>ls. a # b # c # d # xs = ls @ xs \<and> P ls) \<longleftrightarrow> P [a, b, c, d]"
proof -
  have "(\<exists>ls. ys @ xs = ls @ xs \<and> P ls) \<longleftrightarrow> P ys" for ys by auto
  from this [of "[a]"] this [of "[a, b]"] this [of "[a, b, c]"] this [of "[a, b, c, d]"]
  show "(\<exists>ls. a # xs = ls @ xs \<and> P ls) \<longleftrightarrow> P [a]"
    "(\<exists>ls. a # b # xs = ls @ xs \<and> P ls) \<longleftrightarrow> P [a, b]"
    "(\<exists>ls. a # b # c # xs = ls @ xs \<and> P ls) \<longleftrightarrow> P [a, b, c]"
    "(\<exists>ls. a # b # c # d # xs = ls @ xs \<and> P ls) \<longleftrightarrow> P [a, b, c, d]" by simp_all
qed

section \<open>The contract between a driver and a monitor\<close>

locale script_unit =
  fixes drive :: "'i \<Rightarrow> action list"
    and script :: "mon_op list"
    and sigs held outs :: "string list"
    and lead :: "nat \<Rightarrow> bool"
    and ok :: "(string \<Rightarrow> int \<Rightarrow> int) \<Rightarrow> 'i \<Rightarrow> bool"
    and vals :: "(nat \<Rightarrow> pins) \<Rightarrow> (string \<Rightarrow> nat) \<Rightarrow> nat \<Rightarrow> pins \<Rightarrow> 'i \<Rightarrow> int list"
  assumes round: "ok rd it \<Longrightarrow> quiet sigs p \<Longrightarrow> resting sigs c ls \<Longrightarrow> quiet held (last (c # ls)) \<Longrightarrow> lead (length ls) \<Longrightarrow>
      \<exists>c' ls'. run_script script c (ls @ observed outs env t (clk_samples d rd (drive it) p) @ rest) =
          Some (vals env d t p it, (c', ls' @ rest)) \<and>
        resting sigs c' ls' \<and> quiet held (last (c' # ls')) \<and> lead (length ls')"
    and release: "ok rd it \<Longrightarrow> quiet sigs p \<Longrightarrow> quiet sigs (pins_after rd (drive it) p)"
    and starved: "resting sigs c ls \<Longrightarrow> run_script script c ls = None"
begin

lemma reports_from:
  assumes "list_all (ok rd) its" "quiet sigs p" "resting sigs c ls" "quiet held (last (c # ls))" "lead (length ls)"
    and "length its \<le> n" and tail: "list_all (quiet sigs) tail"
  shows "mon_iter n script c (ls @ observed outs env t (bench_trace drive dur rd k its p) @ tail) =
    bench_map drive dur rd k t its p (vals env)"
  using assms(1-6)
proof (induction its arbitrary: n p c ls k t)
  case Nil
  then show ?case by (cases n) (simp_all add: starved resting_append quiet_resting [OF tail])
next
  case (Cons it its)
  then obtain m where n: "n = Suc m" "length its \<le> m" by (cases n) auto
  let ?smp = "clk_samples (dur k) rd (drive it) p"
  let ?rest = "observed outs env (t + length ?smp) (bench_trace drive dur rd (Suc k) its (pins_after rd (drive it) p)) @ tail"
  obtain c' ls' where r: "run_script script c (ls @ observed outs env t ?smp @ ?rest) =
      Some (vals env (dur k) t p it, (c', ls' @ ?rest))"
    "resting sigs c' ls'" "quiet held (last (c' # ls'))" "lead (length ls')"
    using round [of rd it p c ls env t "dur k" ?rest] Cons.prems by auto
  have "quiet sigs (pins_after rd (drive it) p)" using Cons.prems by (simp add: release)
  then have "mon_iter m script c' (ls' @ ?rest) =
      bench_map drive dur rd (Suc k) (t + length ?smp) its (pins_after rd (drive it) p) (vals env)"
    using Cons.prems n(2) r by (intro Cons.IH) simp_all
  then show ?case using r(1) by (simp add: n observed_append)
qed

lemmas reports = reports_from [where ls = "[]" and tail = "[]", simplified]

end

end
