(* ===== verification/Axi_Bus.thy ===== *)
theory Axi_Bus
  imports Bus_Utils Signal_Script
begin

text \<open>
  The AXI4-Lite bus: the monitor of \<open>verification/block/common/axi.py\<close> and the bus functional model
  \<open>Axi4LiteBFM\<close> of \<open>verification/block/dma/testbench.py\<close>.

  A monitor watches the pins sampled at each rising edge. The pending transfers are a map from
  transaction ids, as the dictionary of the source; the log messages are left out.

  The bus functional model drives one side of the pins; the device drives the other side, which
  is the parameter \<open>env\<close>: \<open>env t\<close> holds the values the device shows at edge \<open>t\<close>. A coroutine is then
  the list of actions it performs, its result, and the number of the next edge.
\<close>

section \<open>Monitor\<close>

datatype bus_item =
    BusWriteItem int bytes "int option"
  | BusReadItem int "bytes option" "int option"

record axi_transfer =
  xfer_tid :: int
  xfer_addr :: int
  xfer_data :: bytes

definition aw_active :: "pins \<Rightarrow> bool" where
  "aw_active p \<longleftrightarrow> p ''axi_awready'' \<noteq> 0 \<and> p ''axi_awvalid'' \<noteq> 0"

definition w_active :: "pins \<Rightarrow> bool" where
  "w_active p \<longleftrightarrow> p ''axi_wready'' \<noteq> 0 \<and> p ''axi_wvalid'' \<noteq> 0"

definition ar_active :: "pins \<Rightarrow> bool" where
  "ar_active p \<longleftrightarrow> p ''axi_arready'' \<noteq> 0 \<and> p ''axi_arvalid'' \<noteq> 0"

definition r_active :: "pins \<Rightarrow> bool" where
  "r_active p \<longleftrightarrow> p ''axi_rready'' \<noteq> 0 \<and> p ''axi_rvalid'' \<noteq> 0"

definition b_active :: "pins \<Rightarrow> bool" where
  "b_active p \<longleftrightarrow> p ''axi_bready'' \<noteq> 0 \<and> p ''axi_bvalid'' \<noteq> 0"

text \<open>The widths of the data and strobe pins come first: \<open>(dwidth, swidth)\<close>.\<close>

definition sample_w :: "nat \<times> nat \<Rightarrow> pins \<Rightarrow> bytes py" where
  "sample_w wd p = collect_bytes (fst wd, p ''axi_wdata'') (Some (snd wd, p ''axi_wstrb''))"

definition sample_r :: "nat \<times> nat \<Rightarrow> pins \<Rightarrow> bytes py" where
  "sample_r wd p = collect_bytes (fst wd, p ''axi_rdata'') None"

record axi_write_state =
  w_xfers :: "int \<rightharpoonup> axi_transfer"
  w_awid :: "int option"

definition write_init :: axi_write_state where
  "write_init = \<lparr>w_xfers = Map.empty, w_awid = None\<rparr>"

definition watch_aw :: "pins \<Rightarrow> axi_write_state \<Rightarrow> axi_write_state" where
  "watch_aw p s =
     (if aw_active p then
        (let awid = p ''axi_awid'' in
         s\<lparr>w_awid := Some awid,
           w_xfers := (if awid \<in> dom (w_xfers s) then w_xfers s
             else (w_xfers s)(awid \<mapsto> \<lparr>xfer_tid = awid, xfer_addr = p ''axi_awaddr'', xfer_data = []\<rparr>))\<rparr>)
      else s)"

definition watch_w :: "nat \<times> nat \<Rightarrow> pins \<Rightarrow> axi_write_state \<Rightarrow> axi_write_state py" where
  "watch_w wd p s =
     (if w_active p then
        (case w_awid s of
           None \<Rightarrow> Inr s
         | Some awid \<Rightarrow>
             (case w_xfers s awid of
                None \<Rightarrow> Inr s
              | Some xfer \<Rightarrow>
                  bind_py (sample_w wd p)
                    (\<lambda>d. Inr (s\<lparr>w_xfers := (w_xfers s)(awid \<mapsto> xfer\<lparr>xfer_data := d\<rparr>)\<rparr>))))
      else Inr s)"

definition watch_b :: "pins \<Rightarrow> axi_write_state \<Rightarrow> axi_write_state \<times> bus_item list" where
  "watch_b p s =
     (if b_active p then
        (let bid = p ''axi_bid'' in
         case w_xfers s bid of
           None \<Rightarrow> (s, [])
         | Some xfer \<Rightarrow>
             (s\<lparr>w_xfers := (w_xfers s)(bid := None)\<rparr>,
              [BusWriteItem (xfer_addr xfer) (xfer_data xfer) (Some (p ''axi_bresp''))]))
      else (s, []))"

definition watch_write_step ::
  "nat \<times> nat \<Rightarrow> pins \<Rightarrow> axi_write_state \<times> bus_item list \<Rightarrow> (axi_write_state \<times> bus_item list) py" where
  "watch_write_step wd p acc =
     bind_py (watch_w wd p (watch_aw p (fst acc)))
       (\<lambda>s. let (s', its) = watch_b p s in Inr (s', snd acc @ its))"

definition watch_write :: "nat \<times> nat \<Rightarrow> pins list \<Rightarrow> (axi_write_state \<times> bus_item list) py" where
  "watch_write wd ps = fold_py (watch_write_step wd) ps (write_init, [])"

type_synonym axi_read_state = "int \<rightharpoonup> axi_transfer"

definition watch_ar :: "pins \<Rightarrow> axi_read_state \<Rightarrow> axi_read_state" where
  "watch_ar p xfers =
     (if ar_active p \<and> p ''axi_arid'' \<notin> dom xfers
      then xfers(p ''axi_arid'' \<mapsto>
        \<lparr>xfer_tid = p ''axi_arid'', xfer_addr = p ''axi_araddr'', xfer_data = []\<rparr>)
      else xfers)"

definition watch_r :: "nat \<times> nat \<Rightarrow> pins \<Rightarrow> axi_read_state \<Rightarrow> (axi_read_state \<times> bus_item list) py" where
  "watch_r wd p xfers =
     (if r_active p then
        (let rid = p ''axi_rid'' in
         case xfers rid of
           None \<Rightarrow> Inr (xfers, [])
         | Some xfer \<Rightarrow>
             bind_py (sample_r wd p)
               (\<lambda>d. Inr (xfers(rid := None),
                  [BusReadItem (xfer_addr xfer) (Some d) (Some (p ''axi_rresp''))])))
      else Inr (xfers, []))"

definition watch_read_step ::
  "nat \<times> nat \<Rightarrow> pins \<Rightarrow> axi_read_state \<times> bus_item list \<Rightarrow> (axi_read_state \<times> bus_item list) py" where
  "watch_read_step wd p acc =
     bind_py (watch_r wd p (watch_ar p (fst acc))) (\<lambda>(s, its). Inr (s, snd acc @ its))"

definition watch_read :: "nat \<times> nat \<Rightarrow> pins list \<Rightarrow> (axi_read_state \<times> bus_item list) py" where
  "watch_read wd ps = fold_py (watch_read_step wd) ps (Map.empty, [])"

section \<open>Bus functional model\<close>

text \<open>
  \<open>_wait\<close>: at most \<open>n\<close> edges from edge \<open>t\<close> on. The result is the number of the edge after the one
  that showed the signal.
\<close>

definition bfm_wait :: "(nat \<Rightarrow> pins) \<Rightarrow> string \<Rightarrow> nat \<Rightarrow> nat \<Rightarrow> action list \<times> nat py" where
  "bfm_wait env sig = wait_for (\<lambda>p. p sig \<noteq> 0) RuntimeError env"

lemma bfm_wait_simps [simp]:
  "bfm_wait env sig 0 t = ([], Inl RuntimeError)"
  "bfm_wait env sig (Suc n) t =
     (if env t sig \<noteq> 0 then ([Await (RisingEdge ''clk'')], Inr (Suc t))
      else let (as, r) = bfm_wait env sig n (Suc t) in (Await (RisingEdge ''clk'') # as, r))"
  by (simp_all add: bfm_wait_def)

text \<open>The pending write transfers, one per transaction id, in the order of the dictionary.\<close>

record wr_transfer =
  wr_addr :: "int option"
  wr_data :: "bytes option"
  wr_pending :: bool

definition wr_xfers_init :: "nat \<Rightarrow> wr_transfer list" where
  "wr_xfers_init idw = replicate (2 ^ idw) \<lparr>wr_addr = None, wr_data = None, wr_pending = False\<rparr>"

text \<open>One turn of the loop that looks for a free transfer id; \<open>None\<close> stays in the loop.\<close>

definition wr_alloc :: "int \<Rightarrow> bytes \<Rightarrow> wr_transfer list \<Rightarrow> (nat \<times> wr_transfer list) option" where
  "wr_alloc addr data xs =
     (case find (\<lambda>i. \<not> wr_pending (xs ! i)) [0..<length xs] of
        None \<Rightarrow> None
      | Some i \<Rightarrow> Some (i, xs[i := (xs ! i)\<lparr>wr_pending := True, wr_addr := Some addr, wr_data := Some data\<rparr>]))"

text \<open>
  One turn of \<open>write_handler\<close>. A transfer object is always truthy, so the error branch is taken
  for ids outside the dictionary only; the debug message formats \<open>addr\<close>, which is \<open>None\<close> for an id
  that was never allocated.
\<close>

definition write_handler :: "pins \<Rightarrow> wr_transfer list \<Rightarrow> wr_transfer list py" where
  "write_handler p xs =
     (if p ''axi_bvalid'' = 0 then Inr xs
      else let bid = p ''axi_bid'' in
        if \<not> (0 \<le> bid \<and> nat bid < length xs) then Inr xs
        else let xfer = (xs ! nat bid)\<lparr>wr_pending := False\<rparr>
          in if wr_addr xfer = None then Inl TypeError else Inr (xs[nat bid := xfer]))"

text \<open>The lanes of one beat: the bytes from the last to the first are shifted in.\<close>

definition lanes :: "bytes \<Rightarrow> int \<times> int" where
  "lanes xs =
     fold (\<lambda>b (wdata, wstrb). (push_bit 8 wdata OR b, push_bit 1 wstrb OR 1)) (rev xs) (0, 0)"

text \<open>
  The beats of a write; a bus without strobes (\<open>swidth = 0\<close>) never gets to the end of the data.
\<close>

partial_function (option) axi_beats :: "nat \<Rightarrow> bytes \<Rightarrow> (int \<times> int) list option" where
  "axi_beats swidth data =
     (if 0 < length data then
        (let xfer_len = min swidth (length data)
         in Option.bind (axi_beats swidth (drop xfer_len data)) (\<lambda>bs. Some (lanes (take xfer_len data) # bs)))
      else Some [])"

fun send_beats ::
  "(nat \<Rightarrow> pins) \<Rightarrow> nat \<Rightarrow> (int \<times> int) list \<Rightarrow> nat \<Rightarrow> action list \<times> nat py" where
  "send_beats env timeout [] t = ([Drive ''axi_wvalid'' 0], Inr t)"
| "send_beats env timeout ((wdata, wstrb) # beats) t =
     (let (as, r) = bfm_wait env ''axi_wready'' timeout t
      in case r of
           Inl e \<Rightarrow> ([Drive ''axi_wdata'' wdata, Drive ''axi_wstrb'' wstrb] @ as, Inl e)
         | Inr t' \<Rightarrow> (let (bs, r') = send_beats env timeout beats t'
             in ([Drive ''axi_wdata'' wdata, Drive ''axi_wstrb'' wstrb] @ as @ bs, r')))"

text \<open>
  The \<open>write\<close> coroutine once it has the transfer id \<open>awid\<close>; \<open>sz\<close> is the value of
  \<open>int(math.ceil(math.log2(self.dwidth)))\<close>.
\<close>

definition axi_write ::
  "(nat \<Rightarrow> pins) \<Rightarrow> nat \<Rightarrow> int \<Rightarrow> int \<Rightarrow> int \<Rightarrow> (int \<times> int) list \<Rightarrow> nat \<Rightarrow> action list \<times> nat py" where
  "axi_write env timeout sz awid addr beats t =
     (let (as, r) = bfm_wait env ''axi_awready'' timeout t;
          req = [Drive ''axi_awvalid'' 1, Drive ''axi_awaddr'' addr, Drive ''axi_awid'' awid,
                 Drive ''axi_awsize'' sz] @ as
      in case r of
           Inl e \<Rightarrow> (req, Inl e)
         | Inr t' \<Rightarrow> (let (bs, r') = send_beats env timeout beats t'
             in (req @ [Drive ''axi_awvalid'' 0, Drive ''axi_wvalid'' 1] @ bs, r')))"

text \<open>
  The \<open>read\<close> coroutine: the beats up to the one with \<open>rlast\<close>. The \<open>data\<close> argument of the source is
  overwritten at once. The width of \<open>rdata\<close> is that of the bus. The first component collects the
  actions performed.
\<close>

partial_function (option) read_beats ::
  "(nat \<Rightarrow> pins) \<Rightarrow> nat \<Rightarrow> nat \<Rightarrow> action list \<Rightarrow> bytes \<Rightarrow> nat \<Rightarrow> (action list \<times> (bytes \<times> nat) py) option" where
  "read_beats env timeout dwidth as data t =
     (let (bs, r) = bfm_wait env ''axi_rvalid'' timeout t
      in case r of
           Inl e \<Rightarrow> Some (as @ bs, Inl e)
         | Inr t' \<Rightarrow>
             (case collect_bytes (dwidth, env (t' - 1) ''axi_rdata'') None of
                Inl e \<Rightarrow> Some (as @ bs, Inl e)
              | Inr d \<Rightarrow>
                  (if env (t' - 1) ''axi_rlast'' \<noteq> 0 then Some (as @ bs, Inr (data @ d, t'))
                   else read_beats env timeout dwidth (as @ bs) (data @ d) t')))"

definition axi_read ::
  "(nat \<Rightarrow> pins) \<Rightarrow> nat \<Rightarrow> nat \<Rightarrow> int \<Rightarrow> int \<Rightarrow> nat \<Rightarrow> (action list \<times> (bytes \<times> int) py) option" where
  "axi_read env timeout dwidth sz addr t =
     (let (as, r) = bfm_wait env ''axi_arready'' timeout t;
          req = [Drive ''axi_araddr'' addr, Drive ''axi_arid'' 1, Drive ''axi_arsize'' sz,
                 Drive ''axi_arvalid'' 1] @ as
      in case r of
           Inl e \<Rightarrow> Some (req, Inl e)
         | Inr t' \<Rightarrow>
             map_option
               (\<lambda>(bs, r'). case r' of
                  Inl e \<Rightarrow> (bs, Inl e)
                | Inr (d, t'') \<Rightarrow> (bs @ [Drive ''axi_rready'' 0], Inr (d, env (t'' - 1) ''axi_rresp'')))
               (read_beats env timeout dwidth
                  (req @ [Drive ''axi_arvalid'' 0, Drive ''axi_rready'' 1]) [] t'))"

text \<open>
  The driver: what it does with an item, given the coroutines of the bus functional model.
\<close>

definition axi_driver :: "(int \<Rightarrow> bytes \<Rightarrow> 'r) \<Rightarrow> (int \<Rightarrow> int \<Rightarrow> 'r) \<Rightarrow> bus_item seq_item \<Rightarrow> 'r py" where
  "axi_driver bfm_write bfm_read it = (case it of
     Item (BusWriteItem addr data _) \<Rightarrow> Inr (bfm_write addr data)
   | Item (BusReadItem addr _ _) \<Rightarrow> Inr (bfm_read addr 8)
   | OtherItem \<Rightarrow> Inl RuntimeError)"

section \<open>The read monitor\<close>

text \<open>
  Specification: a completion with id \<open>i\<close> answers the first request with that id made since the
  previous completion with that id (a request may come at the edge of its completion).
\<close>

definition since :: "('a \<Rightarrow> bool) \<Rightarrow> 'a list \<Rightarrow> 'a list" where
  "since P hs = rev (takeWhile (Not \<circ> P) (rev hs))"

definition ar_of :: "int \<Rightarrow> pins \<Rightarrow> bool" where
  "ar_of i p \<longleftrightarrow> ar_active p \<and> p ''axi_arid'' = i"

definition r_of :: "int \<Rightarrow> pins \<Rightarrow> bool" where
  "r_of i p \<longleftrightarrow> r_active p \<and> p ''axi_rid'' = i"

definition answered :: "pins list \<Rightarrow> pins \<Rightarrow> pins option" where
  "answered hs p =
     (if r_active p then find (ar_of (p ''axi_rid'')) (since (r_of (p ''axi_rid'')) hs @ [p]) else None)"

definition read_items :: "nat \<Rightarrow> pins list \<Rightarrow> bus_item list" where
  "read_items n ps =
     concat (map (\<lambda>k. case answered (take k ps) (ps ! k) of
        None \<Rightarrow> []
      | Some q \<Rightarrow> [BusReadItem (q ''axi_araddr'') (Some (le_bytes n ((ps ! k) ''axi_rdata'')))
          (Some ((ps ! k) ''axi_rresp''))]) [0..<length ps])"

lemma since_snoc: "since P (hs @ [p]) = (if P p then [] else since P hs @ [p])"
  by (simp add: since_def)

lemma find_append: "find P (xs @ ys) = (case find P xs of None \<Rightarrow> find P ys | Some x \<Rightarrow> Some x)"
  by (induction xs) auto

lemma read_items_snoc:
  "read_items n (ps @ [p]) = read_items n ps @
     (case answered ps p of None \<Rightarrow> [] | Some q \<Rightarrow>
        [BusReadItem (q ''axi_araddr'') (Some (le_bytes n (p ''axi_rdata''))) (Some (p ''axi_rresp''))])"
  by (auto simp: read_items_def nth_append intro!: arg_cong [where f = concat] map_cong split: option.splits)

text \<open>The pending transfers after a history.\<close>

definition open_reads :: "pins list \<Rightarrow> axi_read_state" where
  "open_reads hs i = map_option
     (\<lambda>q. \<lparr>xfer_tid = i, xfer_addr = q ''axi_araddr'', xfer_data = []\<rparr>) (find (ar_of i) (since (r_of i) hs))"

lemma watch_ar_open:
  "watch_ar p (open_reads hs) i = map_option
     (\<lambda>q. \<lparr>xfer_tid = i, xfer_addr = q ''axi_araddr'', xfer_data = []\<rparr>)
     (find (ar_of i) (since (r_of i) hs @ [p]))"
  by (auto simp: watch_ar_def open_reads_def find_append ar_of_def domIff split: option.splits)

lemma watch_r_open:
  assumes "xfers = watch_ar p (open_reads hs)"
  shows "watch_r (8 * n, sw) p xfers = Inr (open_reads (hs @ [p]),
    (case answered hs p of None \<Rightarrow> [] | Some q \<Rightarrow>
       [BusReadItem (q ''axi_araddr'') (Some (le_bytes n (p ''axi_rdata''))) (Some (p ''axi_rresp''))]))"
proof -
  have "open_reads (hs @ [p]) i = (if r_of i p then None else xfers i)" for i
    by (simp add: open_reads_def since_snoc assms watch_ar_open)
  then have "open_reads (hs @ [p]) = (\<lambda>i. if r_of i p then None else xfers i)" by blast
  then show ?thesis
    by (auto simp: watch_r_def Let_def sample_r_def collect_bytes_all answered_def assms watch_ar_open
        r_of_def fun_eq_iff split: option.splits)
qed

lemma watch_read_open:
  "fold_py (watch_read_step (8 * n, sw)) ps (open_reads [], []) = Inr (open_reads ps, read_items n ps)"
proof (induction ps rule: rev_induct)
  case Nil
  show ?case by (simp add: read_items_def)
next
  case (snoc p ps)
  then show ?case
    by (simp add: fold_py_append watch_read_step_def watch_r_open [OF refl] read_items_snoc)
qed

text \<open>
  Property C7: the AXI monitor never raises on reads, and reports, in order, exactly one item for
  each completion that answers a request: the address of the first request with that id since the
  id was last completed, with the bytes and the response of the completion.
\<close>

theorem watch_read_exact:
  "map_sum id snd (watch_read (8 * n, sw) ps) = Inr (read_items n ps)"
proof -
  have "open_reads [] = Map.empty" by (simp add: open_reads_def since_def fun_eq_iff)
  then show ?thesis using watch_read_open [of n sw ps] by (simp add: watch_read_def)
qed

section \<open>Lanes and beats\<close>

lemma shift_in_byte: "0 \<le> b \<Longrightarrow> b < 256 \<Longrightarrow> push_bit 8 w OR b = b + 256 * (w::int)"
proof -
  assume "0 \<le> b" "b < 256"
  then have "take_bit 8 b = b" by (simp add: take_bit_int_eq_self_iff)
  then show ?thesis
    using concat_bit_eq [of 8 b w] by (simp add: concat_bit_def or.commute push_bit_eq_mult)
qed

lemma lanes_eq: "is_bytes xs \<Longrightarrow> lanes xs = (le_val xs, mask (length xs))"
proof (induction xs)
  case Nil
  show ?case by (simp add: lanes_def)
next
  case (Cons b xs)
  then have "fold (\<lambda>b (wdata, wstrb :: int). (push_bit 8 wdata OR b, push_bit 1 wstrb OR 1)) (rev xs) (0, 0)
      = (le_val xs, mask (length xs))"
    by (simp add: lanes_def)
  moreover have "mask (length xs) * 2 OR 1 = (mask (Suc (length xs)) :: int)"
    by (simp add: mask_Suc_double or.commute mult.commute)
  ultimately show ?case
    using Cons.prems unfolding lanes_def by (simp add: shift_in_byte)
qed

lemma lanes_collect:
  assumes "is_bytes xs" and "length xs \<le> n"
  shows "collect_bytes (8 * n, fst (lanes xs)) (Some (n, snd (lanes xs))) = Inr xs"
  using collect_bytes_prefix [OF assms(2), of "le_val xs"] assms(1)
  by (simp add: lanes_eq le_bytes_le_val)

text \<open>
  Remark: writing data over the bus in beats ends for every bus with strobes, and the bytes
  collected from the beats are the data, beat by beat.
\<close>

theorem axi_beats_roundtrip:
  assumes "0 < swidth" and "is_bytes data"
  shows "\<exists>beats chunks. axi_beats swidth data = Some beats \<and> concat chunks = data \<and>
    map (\<lambda>(wdata, wstrb). collect_bytes (8 * swidth, wdata) (Some (swidth, wstrb))) beats = map Inr chunks"
  using assms(2)
proof (induction "length data" arbitrary: data rule: less_induct)
  case less
  show ?case
  proof (cases "data = []")
    case True
    then show ?thesis by (subst axi_beats.simps) simp
  next
    case False
    let ?n = "min swidth (length data)"
    have parts: "is_bytes (take ?n data)" "is_bytes (drop ?n data)"
      using less.prems by (metis append_take_drop_id is_bytes_simps(3))+
    from False assms(1) have "length (drop ?n data) < length data" by simp
    from less.hyps [OF this parts(2)] obtain beats chunks where IH:
        "axi_beats swidth (drop ?n data) = Some beats" "concat chunks = drop ?n data"
        "map (\<lambda>(wdata, wstrb). collect_bytes (8 * swidth, wdata) (Some (swidth, wstrb))) beats = map Inr chunks"
      by blast
    have "axi_beats swidth data = Some (lanes (take ?n data) # beats)"
      using False IH(1) by (subst axi_beats.simps) (simp add: Let_def)
    moreover have "collect_bytes (8 * swidth, fst (lanes (take ?n data)))
        (Some (swidth, snd (lanes (take ?n data)))) = Inr (take ?n data)"
      using parts(1) by (intro lanes_collect) simp_all
    ultimately show ?thesis
      using IH(2,3) by (intro exI [of _ "lanes (take ?n data) # beats"] exI [of _ "take ?n data # chunks"])
        (simp add: case_prod_beta)
  qed
qed

theorem axi_beats_roundtrip_witness:
  "\<exists>beats chunks. axi_beats 2 [0x11, 0x22, 0x33] = Some beats \<and> concat chunks = [0x11, 0x22, 0x33] \<and>
    map (\<lambda>(wdata, wstrb). collect_bytes (8 * 2, wdata) (Some (2, wstrb))) beats = map Inr chunks"
  by (rule axi_beats_roundtrip) simp_all

section \<open>Transfer ids\<close>

lemma find_upt_Some: "find P [0..<n] = Some i \<Longrightarrow> i < n \<and> P i \<and> (\<forall>j<i. \<not> P j)"
  by (auto simp: find_Some_iff)

text \<open>
  Remark: a transfer id is given out only when it is free, the lowest free one, and giving it
  out leaves all other transfers alone; the search fails exactly when every id is pending.
\<close>

theorem wr_alloc_free:
  "(wr_alloc addr data xs = None \<longleftrightarrow> list_all wr_pending xs) \<and>
   (\<forall>i ys. wr_alloc addr data xs = Some (i, ys) \<longrightarrow>
      i < length xs \<and> \<not> wr_pending (xs ! i) \<and> (\<forall>j<i. wr_pending (xs ! j)) \<and>
      length ys = length xs \<and> wr_pending (ys ! i) \<and> wr_addr (ys ! i) = Some addr \<and>
      (\<forall>j. j \<noteq> i \<longrightarrow> ys ! j = xs ! j))"
  by (auto simp: wr_alloc_def find_None_iff list_all_length split: option.splits
      dest!: find_upt_Some)

theorem wr_alloc_free_witness:
  "wr_alloc 4 [1] (wr_xfers_init 1) =
     Some (0, (wr_xfers_init 1)[0 := \<lparr>wr_addr = Some 4, wr_data = Some [1], wr_pending = True\<rparr>]) \<and>
   \<not> wr_pending (wr_xfers_init 1 ! 0)"
proof -
  have eq: "wr_alloc 4 [1] (wr_xfers_init 1) =
     Some (0, (wr_xfers_init 1)[0 := \<lparr>wr_addr = Some 4, wr_data = Some [1], wr_pending = True\<rparr>])"
    by (simp add: wr_alloc_def wr_xfers_init_def numeral_2_eq_2)
  with wr_alloc_free [of 4 "[1]" "wr_xfers_init 1"] show ?thesis by blast
qed

text \<open>
  Remark: \<open>write_handler\<close> does not detect a response for a transfer that is not pending: any
  id of the dictionary is accepted and marked free, and an id that was never used makes the
  handler raise \<open>TypeError\<close> while formatting its message.
\<close>

theorem write_handler_accepts_idle:
  assumes "p ''axi_bvalid'' \<noteq> 0" and "p ''axi_bid'' = int i" and "i < length xs"
  shows "write_handler p xs =
    (if wr_addr (xs ! i) = None then Inl TypeError else Inr (xs[i := (xs ! i)\<lparr>wr_pending := False\<rparr>]))"
  using assms by (simp add: write_handler_def Let_def)

theorem write_handler_accepts_idle_witness:
  "write_handler (\<lambda>s. if s = ''axi_bvalid'' then 1 else 0) (wr_xfers_init 1) = Inl TypeError"
  using write_handler_accepts_idle [of "\<lambda>s. if s = ''axi_bvalid'' then 1 else 0" 0 "wr_xfers_init 1"]
  by (simp add: wr_xfers_init_def numeral_2_eq_2)

section \<open>A driven write as the monitor sees it\<close>

definition axi_outputs :: "string list" where
  "axi_outputs = [''axi_awvalid'', ''axi_awaddr'', ''axi_awid'', ''axi_awsize'', ''axi_wvalid'',
     ''axi_wdata'', ''axi_wstrb'', ''axi_bready'', ''axi_araddr'', ''axi_arid'', ''axi_arsize'',
     ''axi_arvalid'', ''axi_rready'']"

lemma bfm_wait_edges:
  "bfm_wait env sig n t = (as, Inr t') \<Longrightarrow>
   \<exists>m. as = replicate (Suc m) (Await (RisingEdge ''clk'')) \<and> t' = t + Suc m \<and> env (t + m) sig \<noteq> 0 \<and>
     (\<forall>k<m. env (t + k) sig = 0)"
  unfolding bfm_wait_def by (drule wait_for_edges) auto

lemma edge_samples_awaits:
  "edge_samples rd (replicate k (Await (RisingEdge c)) @ as) p = replicate k p @ edge_samples rd as p"
  by (induction k) simp_all

text \<open>How one edge changes the transfer with id \<open>i\<close>.\<close>

definition completes :: "int \<Rightarrow> pins \<Rightarrow> bool" where
  "completes i p \<longleftrightarrow> b_active p \<and> p ''axi_bid'' = i"

lemma watch_b_other:
  "\<not> completes i p \<Longrightarrow>
   w_xfers (fst (watch_b p s)) i = w_xfers s i \<and> w_awid (fst (watch_b p s)) = w_awid s"
  by (auto simp: watch_b_def completes_def Let_def split: option.splits)

lemma step_of_watch_w:
  assumes "watch_w wd p (watch_aw p s) = Inr s1" and "\<not> completes i p"
  shows "\<exists>s' its. watch_write_step wd p (s, acc) = Inr (s', acc @ its) \<and>
    w_xfers s' i = w_xfers s1 i \<and> w_awid s' = w_awid s1"
  using watch_b_other [OF assms(2), of s1] assms(1)
  by (cases "watch_b p s1") (auto simp: watch_write_step_def)

lemma quiet_step:
  assumes "\<not> aw_active p" and "\<not> w_active p" and "\<not> completes i p"
  shows "\<exists>s' its. watch_write_step wd p (s, acc) = Inr (s', acc @ its) \<and>
    w_xfers s' i = w_xfers s i \<and> w_awid s' = w_awid s"
  using assms by (intro step_of_watch_w) (simp_all add: watch_aw_def watch_w_def)

lemma request_step:
  assumes "aw_active p" and "p ''axi_awid'' = i" and "\<not> w_active p" and "\<not> completes i p"
    and "w_xfers s i = None"
  shows "\<exists>s' its. watch_write_step wd p (s, acc) = Inr (s', acc @ its) \<and>
    w_xfers s' i = Some \<lparr>xfer_tid = i, xfer_addr = p ''axi_awaddr'', xfer_data = []\<rparr> \<and> w_awid s' = Some i"
  using step_of_watch_w [of wd p s "watch_aw p s" i acc] assms
  by (simp add: watch_aw_def watch_w_def domIff)

lemma data_step:
  assumes "\<not> aw_active p" and "w_active p" and "\<not> completes i p" and "sample_w wd p = Inr d"
    and "w_xfers s i = Some x" and "w_awid s = Some i"
  shows "\<exists>s' its. watch_write_step wd p (s, acc) = Inr (s', acc @ its) \<and>
    w_xfers s' i = Some (x\<lparr>xfer_data := d\<rparr>) \<and> w_awid s' = Some i"
  using step_of_watch_w [of wd p s "s\<lparr>w_xfers := (w_xfers s)(i \<mapsto> x\<lparr>xfer_data := d\<rparr>)\<rparr>" i acc] assms
  by (simp add: watch_aw_def watch_w_def)

lemma quiet_steps:
  assumes "\<And>p. p \<in> set ps \<Longrightarrow> \<not> aw_active p \<and> \<not> w_active p \<and> \<not> completes i p"
  shows "\<exists>s' its. fold_py (watch_write_step wd) ps (s, acc) = Inr (s', acc @ its) \<and>
    w_xfers s' i = w_xfers s i \<and> w_awid s' = w_awid s"
  using assms
proof (induction ps arbitrary: s acc)
  case Nil
  show ?case by simp
next
  case (Cons p ps)
  obtain s1 its1 where 1: "watch_write_step wd p (s, acc) = Inr (s1, acc @ its1)"
      "w_xfers s1 i = w_xfers s i" "w_awid s1 = w_awid s"
    using quiet_step [of p i wd s acc] Cons.prems by auto
  obtain s2 its2 where "fold_py (watch_write_step wd) ps (s1, acc @ its1) = Inr (s2, (acc @ its1) @ its2)"
      "w_xfers s2 i = w_xfers s1 i" "w_awid s2 = w_awid s1"
    using Cons.IH [of s1 "acc @ its1"] Cons.prems by auto
  with 1 show ?case by simp
qed

lemma set_observed_replicate:
  "x \<in> set (observed outs env t (replicate m q)) \<Longrightarrow> \<exists>k<m. x = join_pins outs q (env (t + k))"
proof (induction m arbitrary: t)
  case (Suc m)
  then consider "x = join_pins outs q (env t)" | "x \<in> set (observed outs env (Suc t) (replicate m q))" by auto
  then show ?case
  proof cases
    case 2
    from Suc.IH [OF this] obtain k where "k < m" "x = join_pins outs q (env (Suc t + k))" by blast
    then show ?thesis by (intro exI [of _ "Suc k"]) simp
  qed auto
qed simp

lemma replicate_snoc: "replicate (Suc m) q = replicate m q @ [q]"
  by (simp add: replicate_append_same)

lemma wait_steps:
  assumes quiet: "\<And>k. k < m \<Longrightarrow> \<not> aw_active (join_pins axi_outputs q (env (t + k))) \<and>
      \<not> w_active (join_pins axi_outputs q (env (t + k))) \<and> \<not> completes i (join_pins axi_outputs q (env (t + k)))"
  shows "\<exists>s1 its. fold_py (watch_write_step wd) (observed axi_outputs env t (replicate (Suc m) q)) (s, acc) =
      watch_write_step wd (join_pins axi_outputs q (env (t + m))) (s1, acc @ its) \<and>
    w_xfers s1 i = w_xfers s i \<and> w_awid s1 = w_awid s"
proof -
  obtain s1 its where "fold_py (watch_write_step wd) (observed axi_outputs env t (replicate m q)) (s, acc) = Inr (s1, acc @ its)"
      "w_xfers s1 i = w_xfers s i" "w_awid s1 = w_awid s"
    using quiet_steps [of "observed axi_outputs env t (replicate m q)" i wd s acc] set_observed_replicate quiet
    by metis
  then show ?thesis
    unfolding replicate_snoc observed_append fold_py_append
    by (auto simp del: fold_py.simps(2) intro!: exI [of _ s1])
qed

lemma axi_write_acts:
  assumes "axi_write env timeout sz i addr [beat] t = (as, Inr t')"
  shows "\<exists>m1 m2. t' = t + Suc m1 + Suc m2 \<and>
    as = [Drive ''axi_awvalid'' 1, Drive ''axi_awaddr'' addr, Drive ''axi_awid'' i, Drive ''axi_awsize'' sz]
      @ replicate (Suc m1) (Await (RisingEdge ''clk''))
      @ [Drive ''axi_awvalid'' 0, Drive ''axi_wvalid'' 1, Drive ''axi_wdata'' (fst beat), Drive ''axi_wstrb'' (snd beat)]
      @ replicate (Suc m2) (Await (RisingEdge ''clk'')) @ [Drive ''axi_wvalid'' 0] \<and>
    env (t + m1) ''axi_awready'' \<noteq> 0 \<and> (\<forall>k<m1. env (t + k) ''axi_awready'' = 0) \<and>
    env (t + Suc m1 + m2) ''axi_wready'' \<noteq> 0 \<and> (\<forall>k<m2. env (t + Suc m1 + k) ''axi_wready'' = 0)"
proof -
  obtain as1 t1 where w1: "bfm_wait env ''axi_awready'' timeout t = (as1, Inr t1)"
    using assms by (auto simp: axi_write_def Let_def split: prod.splits sum.splits)
  obtain as2 t2 where w2: "bfm_wait env ''axi_wready'' timeout t1 = (as2, Inr t2)"
    using assms w1 by (cases beat) (auto simp: axi_write_def Let_def split: prod.splits sum.splits)
  obtain m1 where m1: "as1 = replicate (Suc m1) (Await (RisingEdge ''clk''))" "t1 = t + Suc m1"
      "env (t + m1) ''axi_awready'' \<noteq> 0" "\<forall>k<m1. env (t + k) ''axi_awready'' = 0"
    using bfm_wait_edges [OF w1] by blast
  obtain m2 where m2: "as2 = replicate (Suc m2) (Await (RisingEdge ''clk''))" "t2 = t1 + Suc m2"
      "env (t1 + m2) ''axi_wready'' \<noteq> 0" "\<forall>k<m2. env (t1 + k) ''axi_wready'' = 0"
    using bfm_wait_edges [OF w2] by blast
  show ?thesis
    by (rule exI [of _ m1], rule exI [of _ m2], cases beat)
      (use assms w1 w2 m1 m2 in \<open>auto simp: axi_write_def Let_def\<close>)
qed



end
