(* ===== verification/Dma_Scoreboard.thy ===== *)
theory Dma_Scoreboard
  imports Axi_Bus "HOL-Library.AList"
begin

text \<open>
  The DMA scoreboards, \<open>verification/block/dma/scoreboards.py\<close>, and the items they get from the
  monitors (\<open>common/axi.py\<close> and \<open>dma/testbench.py\<close>).

  A \<open>defaultdict\<close> of counters is an association list. The local variable \<open>data\<close> of a \<open>check_phase\<close>
  lives across the iterations of its loop, so it is part of the state: \<open>None\<close> while it is unbound.

  The locale \<open>parity_scoreboard\<close> is what the read and the write scoreboard share: an item is an
  access to a memory, or is ignored, or is an error, and the run passes when every (address, data)
  of every memory was accessed an even number of times.
\<close>

section \<open>Items and configuration\<close>

record dma_cfg =
  iccm_base :: int
  iccm_size :: int
  dccm_base :: int
  dccm_size :: int

datatype dma_item =
    DmaBus bus_item
  | MemWriteItem string int int int "int option"
  | MemReadItem string int int int "int option"
  | DebugWriteItem int int int int
  | DebugReadItem int int int int

definition is_iccm :: "dma_cfg \<Rightarrow> int \<Rightarrow> bool" where
  "is_iccm cfg addr \<longleftrightarrow> addr \<ge> iccm_base cfg \<and> addr < iccm_base cfg + iccm_size cfg"

definition is_dccm :: "dma_cfg \<Rightarrow> int \<Rightarrow> bool" where
  "is_dccm cfg addr \<longleftrightarrow> addr \<ge> dccm_base cfg \<and> addr < dccm_base cfg + dccm_size cfg"

section \<open>Counting scoreboards\<close>

type_synonym counters = "((int \<times> int) \<times> nat) list"

definition count_of :: "counters \<Rightarrow> int \<times> int \<Rightarrow> nat" where
  "count_of d k = (case map_of d k of None \<Rightarrow> 0 | Some n \<Rightarrow> n)"

definition bump :: "int \<times> int \<Rightarrow> counters \<Rightarrow> counters" where
  "bump k d = AList.update k (Suc (count_of d k)) d"

record dma_sb =
  sb_passed :: "bool option"
  sb_data :: "int option"
  sb_iccm :: counters
  sb_dccm :: counters

definition sb_init :: dma_sb where
  "sb_init = \<lparr>sb_passed = None, sb_data = None, sb_iccm = [], sb_dccm = []\<rparr>"

definition sb_start :: "dma_sb \<Rightarrow> dma_sb" where
  "sb_start s = s\<lparr>sb_passed := Some (case sb_passed s of None \<Rightarrow> True | Some b \<Rightarrow> b)\<rparr>"

text \<open>An access on the bus side: decode the address, count it in its memory.\<close>

definition sb_bus_access :: "dma_cfg \<Rightarrow> int \<Rightarrow> int \<Rightarrow> dma_sb \<Rightarrow> dma_sb" where
  "sb_bus_access cfg addr data s =
     (if is_iccm cfg addr then s\<lparr>sb_iccm := bump (addr - iccm_base cfg, data) (sb_iccm s)\<rparr>
      else if is_dccm cfg addr then s\<lparr>sb_dccm := bump (addr - dccm_base cfg, data) (sb_dccm s)\<rparr>
      else s\<lparr>sb_passed := Some False\<rparr>)"

text \<open>Masking the data of a memory access; an invalid size leaves \<open>data\<close> as it was.\<close>

definition sb_mem_data :: "int \<Rightarrow> int \<Rightarrow> dma_sb \<Rightarrow> dma_sb" where
  "sb_mem_data sz data s =
     (if sz = 0 then s\<lparr>sb_data := Some (data AND 0xFF)\<rparr>
      else if sz = 1 then s\<lparr>sb_data := Some (data AND 0xFFFF)\<rparr>
      else if sz = 2 then s\<lparr>sb_data := Some (data AND 0xFFFFFFFF)\<rparr>
      else if sz \<ge> 3 then s\<lparr>sb_data := Some data\<rparr>
      else s\<lparr>sb_passed := Some False\<rparr>)"

fun dma_read_body :: "dma_cfg \<Rightarrow> dma_item \<Rightarrow> dma_sb \<Rightarrow> dma_sb py" where
  "dma_read_body cfg (DmaBus (BusReadItem addr None resp)) s = Inl TypeError"
| "dma_read_body cfg (DmaBus (BusReadItem addr (Some bs) resp)) s =
     bind_py (struct_unpack 8 bs)
       (\<lambda>data. Inr (sb_bus_access cfg addr data ((sb_start s)\<lparr>sb_data := Some data\<rparr>)))"
| "dma_read_body cfg (DebugReadItem addr data sz fail) s =
     Inr (sb_bus_access cfg addr data ((sb_start s)\<lparr>sb_data := Some data\<rparr>))"
| "dma_read_body cfg (MemReadItem mem addr data sz resp) s =
     (let s' = sb_mem_data sz data (sb_start s)
      in if mem = ''ICCM'' then
           (case sb_data s' of
              None \<Rightarrow> Inl UnboundLocalError
            | Some d \<Rightarrow> Inr (s'\<lparr>sb_iccm := bump (addr, d) (sb_iccm s')\<rparr>))
         else if mem = ''DCCM'' then
           (case sb_data s' of
              None \<Rightarrow> Inl UnboundLocalError
            | Some d \<Rightarrow> Inr (s'\<lparr>sb_dccm := bump (addr, d) (sb_dccm s')\<rparr>))
         else Inr (s'\<lparr>sb_passed := Some False\<rparr>))"
| "dma_read_body cfg _ s = Inr (sb_start s)"

text \<open>The write scoreboard also checks the range of a memory access, and a debug write's status.\<close>

fun dma_write_body :: "dma_cfg \<Rightarrow> dma_item \<Rightarrow> dma_sb \<Rightarrow> dma_sb py" where
  "dma_write_body cfg (DmaBus (BusWriteItem addr bs resp)) s =
     bind_py (struct_unpack 8 bs)
       (\<lambda>data. Inr (sb_bus_access cfg addr data ((sb_start s)\<lparr>sb_data := Some data\<rparr>)))"
| "dma_write_body cfg (DebugWriteItem addr data sz fail) s =
     (let s' = (if fail \<noteq> 0 then (sb_start s)\<lparr>sb_passed := Some False\<rparr> else sb_start s)
      in Inr (sb_bus_access cfg addr data
           (if is_iccm cfg addr \<or> is_dccm cfg addr then s'\<lparr>sb_data := Some data\<rparr> else s')))"
| "dma_write_body cfg (MemWriteItem mem addr data sz resp) s =
     (let s' = sb_mem_data sz data (sb_start s)
      in if mem = ''ICCM'' then
           (if \<not> (addr \<ge> 0 \<and> addr < iccm_size cfg) then Inl AssertionError
            else case sb_data s' of
              None \<Rightarrow> Inl UnboundLocalError
            | Some d \<Rightarrow> Inr (s'\<lparr>sb_iccm := bump (addr, d) (sb_iccm s')\<rparr>))
         else if mem = ''DCCM'' then
           (if \<not> (addr \<ge> 0 \<and> addr < dccm_size cfg) then Inl AssertionError
            else case sb_data s' of
              None \<Rightarrow> Inl UnboundLocalError
            | Some d \<Rightarrow> Inr (s'\<lparr>sb_dccm := bump (addr, d) (sb_dccm s')\<rparr>))
         else Inr (s'\<lparr>sb_passed := Some False\<rparr>))"
| "dma_write_body cfg _ s = Inr (sb_start s)"

text \<open>The check after the loop: an odd count fails.\<close>

definition sb_conclude :: "dma_sb \<Rightarrow> bool option" where
  "sb_conclude s =
     fold (\<lambda>(k, n) passed. if odd n then Some False else passed) (sb_iccm s @ sb_dccm s) (sb_passed s)"

definition dma_read_check ::
  "dma_cfg \<Rightarrow> ('q \<Rightarrow> bool) \<Rightarrow> ('q \<Rightarrow> dma_item option \<times> 'q) \<Rightarrow> 'q \<Rightarrow> bool option py option" where
  "dma_read_check cfg can_get try_get port =
     map_option (\<lambda>r. bind_py r (\<lambda>s. Inr (sb_conclude s)))
       (drain_loop can_get try_get (dma_read_body cfg) port sb_init)"

definition dma_write_check ::
  "dma_cfg \<Rightarrow> ('q \<Rightarrow> bool) \<Rightarrow> ('q \<Rightarrow> dma_item option \<times> 'q) \<Rightarrow> 'q \<Rightarrow> bool option py option" where
  "dma_write_check cfg can_get try_get port =
     map_option (\<lambda>r. bind_py r (\<lambda>s. Inr (sb_conclude s)))
       (drain_loop can_get try_get (dma_write_body cfg) port sb_init)"

section \<open>Access scoreboard\<close>

text \<open>
  Each debug message reads \<open>item.address\<close>; the items have an attribute \<open>addr\<close> and none of that
  name, so the evaluation of the message's arguments raises \<open>AttributeError\<close>.
\<close>

fun dma_access_body :: "dma_item \<Rightarrow> bool option \<Rightarrow> bool option py" where
  "dma_access_body (MemReadItem mem addr data sz resp) passed = Inl AttributeError"
| "dma_access_body (MemWriteItem mem addr data sz resp) passed = Inl AttributeError"
| "dma_access_body (DmaBus (BusReadItem addr data resp)) passed =
     (if resp \<noteq> Some 3 then Inl AttributeError else Inr (Some (case passed of None \<Rightarrow> True | Some b \<Rightarrow> b)))"
| "dma_access_body (DmaBus (BusWriteItem addr data resp)) passed =
     (if resp \<noteq> Some 3 then Inl AttributeError else Inr (Some (case passed of None \<Rightarrow> True | Some b \<Rightarrow> b)))"
| "dma_access_body (DebugReadItem addr data sz fail) passed =
     (if fail = 0 then Inl AttributeError else Inr (Some (case passed of None \<Rightarrow> True | Some b \<Rightarrow> b)))"
| "dma_access_body (DebugWriteItem addr data sz fail) passed =
     (if fail = 0 then Inl AttributeError else Inr (Some (case passed of None \<Rightarrow> True | Some b \<Rightarrow> b)))"

definition dma_access_check ::
  "('q \<Rightarrow> bool) \<Rightarrow> ('q \<Rightarrow> dma_item option \<times> 'q) \<Rightarrow> 'q \<Rightarrow> bool option py option" where
  "dma_access_check can_get try_get port = drain_loop can_get try_get dma_access_body port None"

section \<open>Specification: what an item means for the scoreboard\<close>

datatype region = ICCM | DCCM

type_synonym sb_view = "bool \<times> (region \<times> int \<times> int) option"

definition bus_view :: "dma_cfg \<Rightarrow> int \<Rightarrow> int \<Rightarrow> sb_view" where
  "bus_view cfg addr data =
     (if is_iccm cfg addr then (True, Some (ICCM, addr - iccm_base cfg, data))
      else if is_dccm cfg addr then (True, Some (DCCM, addr - dccm_base cfg, data))
      else (False, None))"

definition low_bytes :: "int \<Rightarrow> int \<Rightarrow> int" where
  "low_bytes sz data = (if sz < 3 then data mod 2 ^ (8 * 2 ^ nat sz) else data)"

definition mem_view :: "string \<Rightarrow> int \<Rightarrow> int \<Rightarrow> int \<Rightarrow> sb_view" where
  "mem_view mem addr data sz =
     (if mem = ''ICCM'' then (True, Some (ICCM, addr, low_bytes sz data))
      else if mem = ''DCCM'' then (True, Some (DCCM, addr, low_bytes sz data))
      else (False, None))"

fun read_view :: "dma_cfg \<Rightarrow> dma_item \<Rightarrow> sb_view py" where
  "read_view cfg (DmaBus (BusReadItem addr None resp)) = Inl TypeError"
| "read_view cfg (DmaBus (BusReadItem addr (Some bs) resp)) =
     bind_py (struct_unpack 8 bs) (\<lambda>data. Inr (bus_view cfg addr data))"
| "read_view cfg (DebugReadItem addr data sz fail) = Inr (bus_view cfg addr data)"
| "read_view cfg (MemReadItem mem addr data sz resp) = Inr (mem_view mem addr data sz)"
| "read_view cfg _ = Inr (True, None)"

fun write_view :: "dma_cfg \<Rightarrow> dma_item \<Rightarrow> sb_view py" where
  "write_view cfg (DmaBus (BusWriteItem addr bs resp)) =
     bind_py (struct_unpack 8 bs) (\<lambda>data. Inr (bus_view cfg addr data))"
| "write_view cfg (DebugWriteItem addr data sz fail) =
     Inr (apfst (\<lambda>ok. ok \<and> fail = 0) (bus_view cfg addr data))"
| "write_view cfg (MemWriteItem mem addr data sz resp) =
     (if mem = ''ICCM'' \<and> \<not> (0 \<le> addr \<and> addr < iccm_size cfg) \<or>
         mem = ''DCCM'' \<and> \<not> (0 \<le> addr \<and> addr < dccm_size cfg) then Inl AssertionError
      else Inr (mem_view mem addr data sz))"
| "write_view cfg _ = Inr (True, None)"

fun size_ok :: "dma_item \<Rightarrow> bool" where
  "size_ok (MemReadItem mem addr data sz resp) \<longleftrightarrow> 0 \<le> sz"
| "size_ok (MemWriteItem mem addr data sz resp) \<longleftrightarrow> 0 \<le> sz"
| "size_ok _ \<longleftrightarrow> True"

definition counters_of :: "dma_sb \<Rightarrow> region \<Rightarrow> counters" where
  "counters_of s r = (case r of ICCM \<Rightarrow> sb_iccm s | DCCM \<Rightarrow> sb_dccm s)"

definition sb_ok :: "dma_sb \<Rightarrow> bool" where
  "sb_ok s \<longleftrightarrow> distinct (map fst (sb_iccm s)) \<and> distinct (map fst (sb_dccm s))"

definition passed_or_fresh :: "bool option \<Rightarrow> bool" where
  "passed_or_fresh p \<longleftrightarrow> p \<noteq> Some False"

definition sb_effect :: "sb_view \<Rightarrow> dma_sb \<Rightarrow> dma_sb \<Rightarrow> bool" where
  "sb_effect v s s' \<longleftrightarrow>
     (sb_ok s \<longrightarrow> sb_ok s') \<and> sb_passed s' = Some (fst v \<and> passed_or_fresh (sb_passed s)) \<and>
     (\<forall>r k. count_of (counters_of s' r) k = count_of (counters_of s r) k + of_bool (snd v = Some (r, k)))"

section \<open>Counters\<close>

lemma all_region: "(\<forall>r. P r) \<longleftrightarrow> P ICCM \<and> P DCCM"
  by (metis region.exhaust)

lemma ex_region: "(\<exists>r. P r) \<longleftrightarrow> P ICCM \<or> P DCCM"
  by (metis region.exhaust)

lemma counters_of_simps [simp]:
  "counters_of s ICCM = sb_iccm s"
  "counters_of s DCCM = sb_dccm s"
  by (simp_all add: counters_of_def)

lemma count_of_bump: "count_of (bump k d) k' = count_of d k' + of_bool (k = k')"
  by (simp add: count_of_def bump_def update_conv')

lemma distinct_bump: "distinct (map fst d) \<Longrightarrow> distinct (map fst (bump k d))"
  by (simp add: bump_def distinct_update)

lemma odd_entries:
  assumes "distinct (map fst d)"
  shows "(\<exists>(k, n)\<in>set d. odd n) \<longleftrightarrow> (\<exists>k. odd (count_of d k))"
proof
  assume "\<exists>(k, n)\<in>set d. odd n"
  then obtain k n where "(k, n) \<in> set d" "odd n" by auto
  with assms have "odd (count_of d k)" by (simp add: count_of_def)
  then show "\<exists>k. odd (count_of d k)" ..
next
  assume "\<exists>k. odd (count_of d k)"
  then obtain k n where "map_of d k = Some n" "odd n" by (auto simp: count_of_def split: option.splits)
  then show "\<exists>(k, n)\<in>set d. odd n" by (auto dest: map_of_SomeD)
qed

lemma fold_odd:
  "fold (\<lambda>(k, n) passed. if odd n then Some False else passed) d p =
     (if \<exists>(k, n)\<in>set d. odd n then Some False else p)"
  by (induction d arbitrary: p) auto

lemma sb_conclude_iff:
  assumes "sb_ok s"
  shows "sb_conclude s = Some True \<longleftrightarrow>
    sb_passed s = Some True \<and> (\<forall>r k. even (count_of (counters_of s r) k))"
proof -
  have "(\<exists>(k, n)\<in>set (sb_iccm s @ sb_dccm s). odd n) \<longleftrightarrow> (\<exists>r k. odd (count_of (counters_of s r) k))"
    using odd_entries [of "sb_iccm s"] odd_entries [of "sb_dccm s"] assms
    by (auto simp: sb_ok_def ex_region)
  then show ?thesis by (auto simp: sb_conclude_def fold_odd)
qed

section \<open>The contract of a counting scoreboard\<close>

locale parity_scoreboard =
  fixes body :: "'i \<Rightarrow> dma_sb \<Rightarrow> dma_sb py"
    and wf :: "'i \<Rightarrow> bool"
    and view :: "'i \<Rightarrow> sb_view py"
  assumes body_ok: "wf i \<Longrightarrow> view i = Inr v \<Longrightarrow> \<exists>s'. body i s = Inr s' \<and> sb_effect v s s'"
    and body_err: "wf i \<Longrightarrow> view i = Inl e \<Longrightarrow> body i s = Inl e"
begin

definition accesses :: "region \<times> int \<times> int \<Rightarrow> 'i list \<Rightarrow> nat" where
  "accesses rk its = length (filter (\<lambda>i. \<exists>ok. view i = Inr (ok, Some rk)) its)"

lemma fold_effect:
  assumes "list_all wf its" and "\<forall>i\<in>set its. \<exists>v. view i = Inr v"
  shows "\<exists>s'. fold_py body its s = Inr s' \<and> (sb_ok s \<longrightarrow> sb_ok s') \<and>
    sb_passed s' = (if its = [] then sb_passed s
      else Some (passed_or_fresh (sb_passed s) \<and> (\<forall>i\<in>set its. \<exists>a. view i = Inr (True, a)))) \<and>
    (\<forall>r k. count_of (counters_of s' r) k = count_of (counters_of s r) k + accesses (r, k) its)"
  using assms
proof (induction its arbitrary: s)
  case Nil
  show ?case by (simp add: accesses_def)
next
  case (Cons i its)
  from Cons.prems obtain ok a where v: "view i = Inr (ok, a)" by auto
  with Cons.prems body_ok [of i "(ok, a)" s] obtain s1 where s1: "body i s = Inr s1" "sb_effect (ok, a) s s1"
    by auto
  obtain s2 where s2: "fold_py body its s1 = Inr s2" "sb_ok s1 \<longrightarrow> sb_ok s2"
      "sb_passed s2 = (if its = [] then sb_passed s1
        else Some (passed_or_fresh (sb_passed s1) \<and> (\<forall>i\<in>set its. \<exists>a. view i = Inr (True, a))))"
      "\<forall>r k. count_of (counters_of s2 r) k = count_of (counters_of s1 r) k + accesses (r, k) its"
    using Cons.IH [of s1] Cons.prems by auto
  have "accesses (r, k) (i # its) = of_bool (a = Some (r, k)) + accesses (r, k) its" for r k
    using v by (simp add: accesses_def)
  with s1 s2 v show ?case
    by (auto simp: sb_effect_def passed_or_fresh_def)
qed

lemma fold_error:
  assumes "list_all wf its" and "i \<in> set its" and "view i = Inl e"
  shows "\<exists>e. fold_py body its s = Inl e"
  using assms
proof (induction its arbitrary: s)
  case (Cons j its)
  show ?case
  proof (cases "view j")
    case (Inl e')
    with Cons.prems body_err [of j e' s] show ?thesis by simp
  next
    case (Inr v)
    with Cons.prems body_ok [of j v s] obtain s1 where "body j s = Inr s1" by auto
    with Cons Inr show ?thesis by auto
  qed
qed simp

lemma check_passes_iff:
  assumes "list_all wf its"
  shows "bind_py (fold_py body its sb_init) (\<lambda>s. Inr (sb_conclude s)) = Inr (Some True) \<longleftrightarrow>
    its \<noteq> [] \<and> (\<forall>i\<in>set its. \<exists>a. view i = Inr (True, a)) \<and> (\<forall>rk. even (accesses rk its))"
proof (cases "\<forall>i\<in>set its. \<exists>v. view i = Inr v")
  case True
  obtain s where s: "fold_py body its sb_init = Inr s" "sb_ok sb_init \<longrightarrow> sb_ok s"
      "sb_passed s = (if its = [] then sb_passed sb_init
        else Some (passed_or_fresh (sb_passed sb_init) \<and> (\<forall>i\<in>set its. \<exists>a. view i = Inr (True, a))))"
      "\<forall>r k. count_of (counters_of s r) k = count_of (counters_of sb_init r) k + accesses (r, k) its"
    using fold_effect [OF assms True, of sb_init] by blast
  have "sb_ok s" using s(2) by (simp add: sb_ok_def sb_init_def)
  from sb_conclude_iff [OF this] show ?thesis
    using s by (auto simp: sb_init_def passed_or_fresh_def all_region count_of_def)
next
  case False
  then obtain i where i: "i \<in> set its" "\<not> (\<exists>v. view i = Inr v)" by blast
  then obtain e where "view i = Inl e" by (cases "view i") auto
  with fold_error [OF assms i(1)] obtain e' where "fold_py body its sb_init = Inl e'" by blast
  with i show ?thesis by auto
qed

end

section \<open>The read and the write scoreboard\<close>

lemma sb_effect_bus:
  "sb_effect (bus_view cfg addr data) s (sb_bus_access cfg addr data ((sb_start s)\<lparr>sb_data := x\<rparr>))"
  by (auto simp: sb_effect_def bus_view_def sb_bus_access_def sb_start_def sb_ok_def distinct_bump
      passed_or_fresh_def all_region count_of_bump split: option.splits)

lemma low_bytes_mask:
  assumes "0 \<le> sz"
  shows "sb_mem_data sz data (sb_start s) = (sb_start s)\<lparr>sb_data := Some (low_bytes sz data)\<rparr>"
proof -
  consider "sz = 0" | "sz = 1" | "sz = 2" | "3 \<le> sz" using assms by linarith
  then show ?thesis by cases (simp_all add: sb_mem_data_def low_bytes_def and_mask take_bit_eq_mod)
qed

lemma sb_effect_mem:
  "sb_effect (mem_view ''ICCM'' addr data sz) s
     ((sb_start s)\<lparr>sb_data := x, sb_iccm := bump (addr, low_bytes sz data) (sb_iccm (sb_start s))\<rparr>)"
  "sb_effect (mem_view ''DCCM'' addr data sz) s
     ((sb_start s)\<lparr>sb_data := x, sb_dccm := bump (addr, low_bytes sz data) (sb_dccm (sb_start s))\<rparr>)"
  "mem \<noteq> ''ICCM'' \<Longrightarrow> mem \<noteq> ''DCCM'' \<Longrightarrow>
     sb_effect (mem_view mem addr data sz) s ((sb_start s)\<lparr>sb_data := x, sb_passed := Some False\<rparr>)"
  by (auto simp: sb_effect_def mem_view_def sb_start_def sb_ok_def distinct_bump
      passed_or_fresh_def all_region count_of_bump split: option.splits)

lemma sb_effect_skip: "sb_effect (True, None) s (sb_start s)"
  by (auto simp: sb_effect_def sb_start_def sb_ok_def passed_or_fresh_def all_region split: option.splits)

lemma sb_effect_failed:
  "sb_effect (ok, a) s s' \<Longrightarrow> sb_effect (False, a) s (s'\<lparr>sb_passed := Some False\<rparr>)"
  by (simp add: sb_effect_def sb_ok_def all_region)

interpretation dread: parity_scoreboard "dma_read_body cfg" size_ok "read_view cfg" for cfg
proof
  fix i v s
  assume "size_ok i" "read_view cfg i = Inr v"
  then show "\<exists>s'. dma_read_body cfg i s = Inr s' \<and> sb_effect v s s'"
    by (cases "(cfg, i)" rule: read_view.cases)
      (auto simp: bind_py_eq_Inr sb_effect_bus sb_effect_skip Let_def sb_effect_mem low_bytes_mask)
next
  fix i e s
  assume "size_ok i" "read_view cfg i = Inl e"
  then show "dma_read_body cfg i s = Inl e"
    by (cases "(cfg, i)" rule: read_view.cases) (auto simp: bind_py_def split: sum.splits)
qed

lemma sb_effect_debug_write:
  "sb_effect (apfst (\<lambda>ok. ok \<and> fail = 0) (bus_view cfg addr data)) s
     (sb_bus_access cfg addr data
       (let s' = (if fail \<noteq> 0 then (sb_start s)\<lparr>sb_passed := Some False\<rparr> else sb_start s)
        in if is_iccm cfg addr \<or> is_dccm cfg addr then s'\<lparr>sb_data := Some data\<rparr> else s'))"
  by (auto simp: sb_effect_def bus_view_def sb_bus_access_def sb_start_def sb_ok_def distinct_bump
      passed_or_fresh_def all_region count_of_bump Let_def split: option.splits)

interpretation dwrite: parity_scoreboard "dma_write_body cfg" size_ok "write_view cfg" for cfg
proof
  fix i v s
  assume i: "size_ok i" "write_view cfg i = Inr v"
  show "\<exists>s'. dma_write_body cfg i s = Inr s' \<and> sb_effect v s s'"
  proof (cases "\<exists>addr data sz fail. i = DebugWriteItem addr data sz fail")
    case True
    then obtain addr data sz fail where "i = DebugWriteItem addr data sz fail" by blast
    moreover from this i(2) have "v = apfst (\<lambda>ok. ok \<and> fail = 0) (bus_view cfg addr data)" by simp
    ultimately show ?thesis
      using sb_effect_debug_write [of fail cfg addr data s] by (simp only: dma_write_body.simps Let_def) blast
  next
    case False
    with i show ?thesis
      by (cases "(cfg, i)" rule: write_view.cases)
        (auto simp: bind_py_eq_Inr sb_effect_bus sb_effect_skip Let_def sb_effect_mem low_bytes_mask
          split: if_splits)
  qed
next
  fix i e s
  assume "size_ok i" "write_view cfg i = Inl e"
  then show "dma_write_body cfg i s = Inl e"
    by (cases "(cfg, i)" rule: write_view.cases)
      (auto simp: bind_py_def Let_def split: sum.splits if_splits)
qed

text \<open>
  Property C6: the DMA read scoreboard passes exactly when it got an item, no item raised or was
  out of range, and every (memory, address, data) was read an even number of times on the bus and
  memory sides together.
\<close>

theorem dma_read_passes_iff:
  assumes "fifo_port c tg" and "fifo_can_get c cg" and "list_all size_ok (c q)"
  shows "dma_read_check cfg cg tg q = Some (Inr (Some True)) \<longleftrightarrow>
    c q \<noteq> [] \<and> (\<forall>i\<in>set (c q). \<exists>a. read_view cfg i = Inr (True, a)) \<and>
    (\<forall>rk. even (length (filter (\<lambda>i. \<exists>ok. read_view cfg i = Inr (ok, Some rk)) (c q))))"
  using dread.check_passes_iff [OF assms(3), of cfg]
  by (simp add: dma_read_check_def drain_loop_fold [OF assms(1,2)] dread.accesses_def)

theorem dma_read_passes_iff_witness:
  "dma_read_check \<lparr>iccm_base = 0xEE000000, iccm_size = 0x10000, dccm_base = 0xF0040000, dccm_size = 0x10000\<rparr>
     list_can_get list_try_get
     [DmaBus (BusReadItem 0xEE000008 (Some [7, 0, 0, 0, 0, 0, 0, 0]) (Some 0)), MemReadItem ''ICCM'' 8 7 3 (Some 0)]
   = Some (Inr (Some True))"
proof -
  let ?cfg = "\<lparr>iccm_base = 0xEE000000, iccm_size = 0x10000, dccm_base = 0xF0040000, dccm_size = 0x10000\<rparr>"
  let ?its = "[DmaBus (BusReadItem 0xEE000008 (Some [7, 0, 0, 0, 0, 0, 0, 0]) (Some 0)), MemReadItem ''ICCM'' 8 7 3 (Some 0)]"
  have v: "read_view ?cfg i = Inr (True, Some (ICCM, 8, 7))" if "i \<in> set ?its" for i
    using that by (auto simp: struct_unpack_def bus_view_def is_iccm_def mem_view_def low_bytes_def)
  have "even (length (filter (\<lambda>i. \<exists>ok. read_view ?cfg i = Inr (ok, Some rk)) ?its))" for rk
    using v [of "?its ! 0"] v [of "?its ! 1"] by (cases "rk = (ICCM, 8, 7)") auto
  with v show ?thesis
    using dma_read_passes_iff [OF list_fifo_port list_fifo_can_get, of ?its ?cfg] by auto
qed

text \<open>
  Property C5: the DMA write scoreboard passes exactly when it got an item, no debug write failed,
  no item raised or was out of range, and every (memory, address, data) was written an even number
  of times on the bus and memory sides together.
\<close>

theorem dma_write_passes_iff:
  assumes "fifo_port c tg" and "fifo_can_get c cg" and "list_all size_ok (c q)"
  shows "dma_write_check cfg cg tg q = Some (Inr (Some True)) \<longleftrightarrow>
    c q \<noteq> [] \<and> (\<forall>i\<in>set (c q). \<exists>a. write_view cfg i = Inr (True, a)) \<and>
    (\<forall>rk. even (length (filter (\<lambda>i. \<exists>ok. write_view cfg i = Inr (ok, Some rk)) (c q))))"
  using dwrite.check_passes_iff [OF assms(3), of cfg]
  by (simp add: dma_write_check_def drain_loop_fold [OF assms(1,2)] dwrite.accesses_def)

theorem dma_write_passes_iff_witness:
  "dma_write_check \<lparr>iccm_base = 0xEE000000, iccm_size = 0x10000, dccm_base = 0xF0040000, dccm_size = 0x10000\<rparr>
     list_can_get list_try_get [DebugWriteItem 0xF0040004 0x155 32 0, MemWriteItem ''DCCM'' 4 0x155 2 None]
   = Some (Inr (Some True))"
proof -
  let ?cfg = "\<lparr>iccm_base = 0xEE000000, iccm_size = 0x10000, dccm_base = 0xF0040000, dccm_size = 0x10000\<rparr>"
  let ?its = "[DebugWriteItem 0xF0040004 0x155 32 0, MemWriteItem ''DCCM'' 4 0x155 2 None]"
  have v: "write_view ?cfg i = Inr (True, Some (DCCM, 4, 0x155))" if "i \<in> set ?its" for i
    using that by (auto simp: bus_view_def is_iccm_def is_dccm_def mem_view_def low_bytes_def)
  have "even (length (filter (\<lambda>i. \<exists>ok. write_view ?cfg i = Inr (ok, Some rk)) ?its))" for rk
    using v [of "?its ! 0"] v [of "?its ! 1"] by (cases "rk = (DCCM, 4, 0x155)") auto
  with v show ?thesis
    using dma_write_passes_iff [OF list_fifo_port list_fifo_can_get, of ?its ?cfg] by auto
qed

section \<open>The access scoreboard\<close>

fun rejected :: "dma_item \<Rightarrow> bool" where
  "rejected (DmaBus (BusReadItem addr data resp)) \<longleftrightarrow> resp = Some 3"
| "rejected (DmaBus (BusWriteItem addr data resp)) \<longleftrightarrow> resp = Some 3"
| "rejected (DebugReadItem addr data sz fail) \<longleftrightarrow> fail \<noteq> 0"
| "rejected (DebugWriteItem addr data sz fail) \<longleftrightarrow> fail \<noteq> 0"
| "rejected _ \<longleftrightarrow> False"

lemma dma_access_body_iff:
  "dma_access_body i passed =
     (if rejected i then Inr (Some (passed \<noteq> Some False)) else Inl AttributeError)"
  by (cases "(i, passed)" rule: dma_access_body.cases) (auto split: option.splits)

lemma dma_access_fold:
  "fold_py dma_access_body its passed =
     (if list_all rejected its then Inr (if its = [] then passed else Some (passed \<noteq> Some False))
      else Inl AttributeError)"
  by (induction its arbitrary: passed) (auto simp: dma_access_body_iff)

text \<open>
  Remark: the access scoreboard passes exactly when it got an item and every item is a
  rejected bus or debug access. It never reports a failure: on any other item it raises
  \<open>AttributeError\<close> instead of setting \<open>passed\<close> to \<open>False\<close>.
\<close>

theorem dma_access_verdict:
  assumes "fifo_port c tg" and "fifo_can_get c cg"
  shows "dma_access_check cg tg q =
    Some (if list_all rejected (c q) then Inr (if c q = [] then None else Some True) else Inl AttributeError)"
  by (simp add: dma_access_check_def drain_loop_fold [OF assms] dma_access_fold)

theorem dma_access_verdict_witness:
  "dma_access_check list_can_get list_try_get [DmaBus (BusReadItem 0 (Some []) (Some 3)), MemReadItem ''ICCM'' 0 0 3 None]
   = Some (Inl AttributeError)"
  by (simp add: dma_access_verdict [OF list_fifo_port list_fifo_can_get])

end
