(* ===== verification/Dma_Bench.thy ===== *)
theory Dma_Bench
  imports Dma_Scoreboard
begin

text \<open>
  The DMA testbench, \<open>verification/block/dma/testbench.py\<close> and \<open>dma/sequences.py\<close>: the memory model
  behind the device and its monitor, the debug interface and its monitor, the sequences and the
  reset. The AXI side is in the theory of the bus.

  Random numbers are arguments: a random choice is the value drawn, a loop over draws takes the
  stream of draws. The sampled pins are those at the rising edges of the clock (for the memory
  monitor, after the \<open>ReadOnly\<close> phase of the edge).
\<close>

section \<open>Memory model\<close>

record mem_bfm =
  bfm_iccm :: "int \<rightharpoonup> int"
  bfm_dccm :: "int \<rightharpoonup> int"

text \<open>
  One access of the responder to the memory whose pins start with \<open>pre\<close> (the two branches of the
  source are the same but for that name). \<open>draw\<close> is the random content of a new location, \<open>ecc\<close> the
  random error flag.
\<close>

definition mem_access ::
  "string \<Rightarrow> int \<Rightarrow> int \<Rightarrow> int \<Rightarrow> bool \<Rightarrow> pins \<Rightarrow> (int \<rightharpoonup> int) \<Rightarrow> (action list \<times> (int \<rightharpoonup> int)) py" where
  "mem_access pre base sz draw ecc p data =
     (let addr = p ''dma_mem_addr'' - base
      in if \<not> (addr \<ge> 0 \<and> addr < sz) then Inl AssertionError
         else if p ''dma_mem_write'' \<noteq> 0 then Inr ([], data(addr \<mapsto> p ''dma_mem_wdata''))
         else let data' = (if addr \<in> dom data then data else data(addr \<mapsto> draw))
           in Inr ([Drive (pre @ ''_dma_rdata'') (the (data' addr)),
                    Drive (pre @ ''_dma_rtag'') (p ''dma_mem_tag''),
                    Drive (pre @ ''_dma_rvalid'') 1,
                    Drive (pre @ ''_dma_ecc_error'') (of_bool ecc)], data'))"

text \<open>One turn of \<open>responder\<close> at an edge: the actions up to the next turn and the memories.\<close>

definition responder_step ::
  "dma_cfg \<Rightarrow> int \<Rightarrow> bool \<Rightarrow> pins \<Rightarrow> mem_bfm \<Rightarrow> (action list \<times> mem_bfm) py" where
  "responder_step cfg draw ecc p m =
     (if p ''dma_dccm_req'' \<noteq> 0 then
        bind_py (mem_access ''dccm'' (dccm_base cfg) (dccm_size cfg) draw ecc p (bfm_dccm m))
          (\<lambda>(as, d). Inr (as @ [Await (RisingEdge ''clk''), Drive ''dccm_dma_rvalid'' 0], m\<lparr>bfm_dccm := d\<rparr>))
      else if p ''dma_iccm_req'' \<noteq> 0 then
        bind_py (mem_access ''iccm'' (iccm_base cfg) (iccm_size cfg) draw ecc p (bfm_iccm m))
          (\<lambda>(as, d). Inr (as @ [Await (RisingEdge ''clk''), Drive ''iccm_dma_rvalid'' 0], m\<lparr>bfm_iccm := d\<rparr>))
      else Inr ([], m))"

text \<open>One turn of \<open>iccm_busy_task\<close> and \<open>dccm_busy_task\<close>: \<open>n\<close> is the drawn cycle count.\<close>

definition busy_turn :: "string \<Rightarrow> bool \<Rightarrow> nat \<Rightarrow> action list" where
  "busy_turn ready hit n =
     Await (RisingEdge ''clk'') #
     (if hit then [Drive ready 0, Await (ClockCycles ''clk'' n), Drive ready 1] else [])"

section \<open>Memory monitor\<close>

record mem_mon =
  mm_pending :: bool
  mm_iccm :: int
  mm_dccm :: int
  mm_wr :: int
  mm_addr :: int
  mm_size :: int

definition mem_mon_init :: mem_mon where
  "mem_mon_init = \<lparr>mm_pending = False, mm_iccm = 0, mm_dccm = 0, mm_wr = 0, mm_addr = 0, mm_size = 0\<rparr>"

definition mem_mon_step :: "dma_cfg \<Rightarrow> pins \<Rightarrow> mem_mon \<Rightarrow> mem_mon \<times> dma_item list" where
  "mem_mon_step cfg p s =
     (let reads =
            (if mm_pending s \<and> mm_wr s = 0 then
               (if mm_iccm s \<noteq> 0 then
                  [MemReadItem ''ICCM'' (mm_addr s - iccm_base cfg) (p ''iccm_dma_rdata'') (mm_size s)
                     (Some (p ''iccm_dma_ecc_error''))] else []) @
               (if mm_dccm s \<noteq> 0 then
                  [MemReadItem ''DCCM'' (mm_addr s - dccm_base cfg) (p ''dccm_dma_rdata'') (mm_size s)
                     (Some (p ''dccm_dma_ecc_error''))] else [])
             else []);
          s1 = s\<lparr>mm_pending := False, mm_iccm := p ''dma_iccm_req'', mm_dccm := p ''dma_dccm_req''\<rparr>
      in if mm_iccm s1 \<noteq> 0 \<or> mm_dccm s1 \<noteq> 0 then
           (let s2 = s1\<lparr>mm_pending := True, mm_addr := p ''dma_mem_addr'', mm_wr := p ''dma_mem_write'',
                  mm_size := p ''dma_mem_sz''\<rparr>
            in (s2, reads @
                  (if mm_wr s2 \<noteq> 0 \<and> mm_iccm s2 \<noteq> 0 then
                     [MemWriteItem ''ICCM'' (mm_addr s2 - iccm_base cfg) (p ''dma_mem_wdata'') (mm_size s2) None] else []) @
                  (if mm_wr s2 \<noteq> 0 \<and> mm_dccm s2 \<noteq> 0 then
                     [MemWriteItem ''DCCM'' (mm_addr s2 - dccm_base cfg) (p ''dma_mem_wdata'') (mm_size s2) None] else [])))
         else (s1, reads))"

fun mem_monitor :: "dma_cfg \<Rightarrow> pins list \<Rightarrow> mem_mon \<Rightarrow> dma_item list" where
  "mem_monitor cfg [] s = []"
| "mem_monitor cfg (p # ps) s =
     (let (s', its) = mem_mon_step cfg p s in its @ mem_monitor cfg ps s')"

section \<open>Debug interface\<close>

text \<open>
  The coroutines of the bus functional model: \<open>rdy\<close> is the value of \<open>dma_dbg_ready\<close> when the command
  has been issued, which decides between the configured time-out and the default of 150 cycles.
\<close>

definition dbg_finish :: "(nat \<Rightarrow> pins) \<Rightarrow> nat \<Rightarrow> nat \<Rightarrow> action list \<times> nat py" where
  "dbg_finish env busy_timeout t =
     bfm_wait env ''dma_dbg_cmd_done''
       (if env (t - 1) ''dma_dbg_ready'' = 0 then busy_timeout else 150) t"

definition dbg_write ::
  "(nat \<Rightarrow> pins) \<Rightarrow> nat \<Rightarrow> int \<Rightarrow> bytes \<Rightarrow> nat \<Rightarrow> action list \<times> int py" where
  "dbg_write env busy_timeout addr data t =
     (let (as, r) = bfm_wait env ''dma_dbg_ready'' busy_timeout t
      in case r of
           Inl e \<Rightarrow> (as, Inl e)
         | Inr t1 \<Rightarrow>
             (let req = as @ [Drive ''dbg_cmd_valid'' 1, Drive ''dbg_cmd_write'' 1, Drive ''dbg_cmd_size'' 2,
                    Drive ''dbg_cmd_addr'' addr]
              in case struct_unpack 4 data of
                   Inl e \<Rightarrow> (req, Inl e)
                 | Inr wrdata \<Rightarrow>
                     (let (bs, r') = dbg_finish env busy_timeout (Suc t1);
                          acts = req @ [Drive ''dbg_cmd_wrdata'' wrdata, Await (RisingEdge ''clk''),
                            Drive ''dbg_cmd_valid'' 0] @ bs
                      in (acts, bind_py r' (\<lambda>t2. Inr (env (t2 - 1) ''dma_dbg_cmd_fail''))))))"

definition dbg_read ::
  "(nat \<Rightarrow> pins) \<Rightarrow> nat \<Rightarrow> int \<Rightarrow> nat \<Rightarrow> action list \<times> (bytes \<times> int) py" where
  "dbg_read env busy_timeout addr t =
     (let (as, r) = bfm_wait env ''dma_dbg_ready'' busy_timeout t
      in case r of
           Inl e \<Rightarrow> (as, Inl e)
         | Inr t1 \<Rightarrow>
             (let (bs, r') = dbg_finish env busy_timeout (Suc t1);
                  acts = as @ [Drive ''dbg_cmd_valid'' 1, Drive ''dbg_cmd_write'' 0, Drive ''dbg_cmd_size'' 2,
                    Drive ''dbg_cmd_addr'' addr, Await (RisingEdge ''clk''), Drive ''dbg_cmd_valid'' 0] @ bs
              in (acts, bind_py r' (\<lambda>t2. bind_py (struct_pack 4 (env (t2 - 1) ''dma_dbg_rddata''))
                   (\<lambda>d. Inr (d, env (t2 - 1) ''dma_dbg_cmd_fail''))))))"

definition dbg_run_phase_start :: "action list" where
  "dbg_run_phase_start = [Drive ''dbg_cmd_type'' 2, Drive ''dbg_dma_bubble'' 1]"

text \<open>One turn of the main loop of the debug BFM's \<open>run_phase\<close>.\<close>

definition dbg_busy_turn :: "bool \<Rightarrow> nat \<Rightarrow> action list" where
  "dbg_busy_turn hit n =
     Await (RisingEdge ''clk'') #
     (if hit then [Drive ''dbg_dma_bubble'' 0, Await (ClockCycles ''clk'' n), Drive ''dbg_dma_bubble'' 1] else [])"

definition dbg_driver ::
  "(int \<Rightarrow> bytes \<Rightarrow> 'w) \<Rightarrow> (int \<Rightarrow> 'r) \<Rightarrow> bus_item seq_item \<Rightarrow> ('w + 'r) py" where
  "dbg_driver bfm_write bfm_read it = (case it of
     Item (BusWriteItem addr data _) \<Rightarrow> Inr (Inl (bfm_write addr data))
   | Item (BusReadItem addr _ _) \<Rightarrow> Inr (Inr (bfm_read addr))
   | OtherItem \<Rightarrow> Inl RuntimeError)"

section \<open>Debug monitor\<close>

text \<open>The variables assigned when a command is accepted; unbound before the first one.\<close>

record dbg_cmd =
  cmd_addr :: int
  cmd_write :: int
  cmd_type :: int
  cmd_size :: int
  cmd_wrdata :: int

record dbg_mon =
  dm_pending :: nat
  dm_curr_rdy :: int
  dm_cmd :: "dbg_cmd option"

definition dbg_mon_init :: dbg_mon where
  "dbg_mon_init = \<lparr>dm_pending = 0, dm_curr_rdy = 0, dm_cmd = None\<rparr>"

definition sample_cmd :: "pins \<Rightarrow> dbg_cmd" where
  "sample_cmd p = \<lparr>cmd_addr = p ''dbg_cmd_addr'', cmd_write = p ''dbg_cmd_write'',
     cmd_type = p ''dbg_cmd_type'', cmd_size = 8 * push_bit (nat (p ''dbg_cmd_size'')) 1,
     cmd_wrdata = p ''dbg_cmd_wrdata''\<rparr>"

definition dbg_accept :: "pins \<Rightarrow> dbg_mon \<Rightarrow> dbg_mon" where
  "dbg_accept p s =
     (let prev_rdy = dm_curr_rdy s; s1 = s\<lparr>dm_curr_rdy := p ''dma_dbg_ready''\<rparr>
      in if (prev_rdy \<noteq> 0 \<or> dm_curr_rdy s1 \<noteq> 0) \<and> p ''dbg_cmd_valid'' \<noteq> 0
         then s1\<lparr>dm_cmd := Some (sample_cmd p), dm_pending := dm_pending s1 + 1\<rparr>
         else s1)"

definition dbg_item :: "pins \<Rightarrow> dbg_cmd \<Rightarrow> dma_item list" where
  "dbg_item p cmd =
     (if cmd_type cmd \<noteq> 2 then []
      else if cmd_write cmd \<noteq> 0
        then [DebugWriteItem (cmd_addr cmd) (cmd_wrdata cmd) (cmd_size cmd) (p ''dma_dbg_cmd_fail'')]
        else [DebugReadItem (cmd_addr cmd) (p ''dma_dbg_rddata'') (cmd_size cmd) (p ''dma_dbg_cmd_fail'')])"

definition dbg_mon_step :: "pins \<Rightarrow> dbg_mon \<times> dma_item list \<Rightarrow> (dbg_mon \<times> dma_item list) py" where
  "dbg_mon_step p acc =
     (let s = dbg_accept p (fst acc)
      in if p ''dma_dbg_cmd_done'' \<noteq> 0 then
           (if dm_pending s = 0 then Inr (s, snd acc)
            else case dm_cmd s of
              None \<Rightarrow> Inl UnboundLocalError
            | Some cmd \<Rightarrow> Inr (s\<lparr>dm_pending := dm_pending s - 1\<rparr>, snd acc @ dbg_item p cmd))
         else Inr (s, snd acc))"

definition dbg_monitor :: "pins list \<Rightarrow> (dbg_mon \<times> dma_item list) py" where
  "dbg_monitor ps = fold_py dbg_mon_step ps (dbg_mon_init, [])"

section \<open>Sequences\<close>

definition seq_addr :: "int \<Rightarrow> int \<Rightarrow> int \<Rightarrow> int" where
  "seq_addr align mem_base r = ((mem_base + r) div align) * align"

definition seq_pack :: "int \<Rightarrow> int \<Rightarrow> bytes py" where
  "seq_pack dwidth data =
     (if dwidth = 32 then struct_pack 4 data
      else if dwidth = 64 then struct_pack 8 data
      else Inl AssertionError)"

text \<open>
  The bodies: \<open>count\<close> bursts of \<open>burst\<close> items, each burst followed by \<open>gap\<close> cycles; \<open>addr j i\<close> and
  \<open>data j i\<close> are the numbers drawn for item \<open>i\<close> of burst \<open>j\<close>. A draw for the data happens after
  the width has been checked.
\<close>

fun seq_items :: "(nat \<Rightarrow> bus_item py) \<Rightarrow> nat \<Rightarrow> bus_item list py" where
  "seq_items item 0 = Inr []"
| "seq_items item (Suc n) =
     bind_py (seq_items item n) (\<lambda>its. bind_py (item n) (\<lambda>it. Inr (its @ [it])))"

definition mem_write_sequence ::
  "int \<Rightarrow> int \<Rightarrow> int \<Rightarrow> nat \<Rightarrow> (nat \<Rightarrow> nat \<Rightarrow> int) \<Rightarrow> (nat \<Rightarrow> nat \<Rightarrow> int) \<Rightarrow> nat \<Rightarrow> bus_item list py" where
  "mem_write_sequence dwidth align mem_base burst addr data j =
     seq_items (\<lambda>i. bind_py (seq_pack dwidth (data j i))
       (\<lambda>bs. Inr (BusWriteItem (seq_addr align mem_base (addr j i)) bs None))) burst"

definition any_mem_write_sequence ::
  "int \<Rightarrow> int \<Rightarrow> (nat \<Rightarrow> nat \<Rightarrow> int) \<Rightarrow> nat \<Rightarrow> (nat \<Rightarrow> nat \<Rightarrow> int) \<Rightarrow> (nat \<Rightarrow> nat \<Rightarrow> int) \<Rightarrow> nat \<Rightarrow> bus_item list py" where
  "any_mem_write_sequence dwidth align mem_base burst addr data j =
     seq_items (\<lambda>i. bind_py (seq_pack dwidth (data j i))
       (\<lambda>bs. Inr (BusWriteItem (seq_addr align (mem_base j i) (addr j i)) bs None))) burst"

definition mem_read_sequence ::
  "int \<Rightarrow> int \<Rightarrow> nat \<Rightarrow> (nat \<Rightarrow> nat \<Rightarrow> int) \<Rightarrow> nat \<Rightarrow> bus_item list" where
  "mem_read_sequence align mem_base burst addr j =
     map (\<lambda>i. BusReadItem (seq_addr align mem_base (addr j i)) None None) [0..<burst]"

definition any_mem_read_sequence ::
  "int \<Rightarrow> (nat \<Rightarrow> nat \<Rightarrow> int) \<Rightarrow> nat \<Rightarrow> (nat \<Rightarrow> nat \<Rightarrow> int) \<Rightarrow> nat \<Rightarrow> bus_item list" where
  "any_mem_read_sequence align mem_base burst addr j =
     map (\<lambda>i. BusReadItem (seq_addr align (mem_base j i) (addr j i)) None None) [0..<burst]"

text \<open>The outer loop of every body, over the bursts.\<close>

datatype seq_step = SendItem bus_item | WaitCycles nat

fun seq_body :: "nat \<Rightarrow> (nat \<Rightarrow> bus_item list py) \<Rightarrow> nat \<Rightarrow> seq_step list py" where
  "seq_body gap bursts 0 = Inr []"
| "seq_body gap bursts (Suc j) =
     bind_py (seq_body gap bursts j)
       (\<lambda>steps. bind_py (bursts j) (\<lambda>its. Inr (steps @ map SendItem its @ [WaitCycles gap])))"

text \<open>The address search of \<open>InvalidAddressSequence\<close>: \<open>draw k\<close> is the \<open>k\<close>-th number drawn.\<close>

definition in_region :: "int \<times> int \<Rightarrow> int \<Rightarrow> bool" where
  "in_region r addr \<longleftrightarrow> addr \<ge> fst r \<and> addr < fst r + snd r"

partial_function (option) invalid_addr ::
  "int \<Rightarrow> int \<times> int \<Rightarrow> int \<times> int \<Rightarrow> int \<times> int \<Rightarrow> (nat \<Rightarrow> int) \<Rightarrow> nat \<Rightarrow> int option" where
  "invalid_addr align iccm dccm pic draw k =
     (let addr = (draw k div align) * align
      in if in_region iccm addr then invalid_addr align iccm dccm pic draw (Suc k)
         else if in_region dccm addr then invalid_addr align iccm dccm pic draw (Suc k)
         else if in_region pic addr then invalid_addr align iccm dccm pic draw (Suc k)
         else Some addr)"

definition invalid_item :: "int \<Rightarrow> bool \<Rightarrow> int \<Rightarrow> int \<Rightarrow> bus_item py" where
  "invalid_item dwidth coin data addr =
     (if coin then Inr (BusReadItem addr None None)
      else bind_py (seq_pack dwidth data) (\<lambda>bs. Inr (BusWriteItem addr bs None)))"

section \<open>Reset and run phase\<close>

definition dma_do_reset :: "action list" where
  "dma_do_reset =
     [Drive ''free_clk'' 0, Drive ''dma_bus_clk_en'' 1] @
     map (\<lambda>s. Drive s 0)
       [''clk_override'', ''scan_mode'', ''dbg_cmd_addr'', ''dbg_cmd_wrdata'', ''dbg_cmd_valid'',
        ''dbg_cmd_write'', ''dbg_cmd_size'', ''dbg_dma_bubble'', ''dccm_dma_rvalid'',
        ''dccm_dma_ecc_error'', ''dccm_dma_rtag'', ''dccm_dma_rdata'', ''iccm_dma_rvalid'',
        ''iccm_dma_ecc_error'', ''iccm_dma_rtag'', ''iccm_dma_rdata'', ''dccm_ready'', ''iccm_ready'',
        ''dec_tlu_dma_qos_prty'', ''dma_axi_awvalid'', ''dma_axi_awid'', ''dma_axi_awaddr'',
        ''dma_axi_awsize'', ''dma_axi_wvalid'', ''dma_axi_wdata'', ''dma_axi_wstrb'', ''dma_axi_bready'',
        ''dma_axi_arvalid'', ''dma_axi_arid'', ''dma_axi_araddr'', ''dma_axi_arsize'', ''dma_axi_rready''] @
     [Drive ''rst_l'' 0, Await (ClockCycles ''clk'' 2), Await (FallingEdge ''clk''), Drive ''rst_l'' 1]"

definition dma_run_phase :: "action list \<Rightarrow> action list" where
  "dma_run_phase run =
     [Drive ''dma_bus_clk_en'' 1] @ dma_do_reset @ [Await (ClockCycles ''clk'' 2)] @ run @
     [Await (ClockCycles ''clk'' 50)]"

section \<open>The memory monitor, edge by edge\<close>

definition mem_reads :: "dma_cfg \<Rightarrow> pins \<Rightarrow> pins \<Rightarrow> dma_item list" where
  "mem_reads cfg q p =
     (if q ''dma_mem_write'' = 0 then
        (if q ''dma_iccm_req'' \<noteq> 0 then
           [MemReadItem ''ICCM'' (q ''dma_mem_addr'' - iccm_base cfg) (p ''iccm_dma_rdata'') (q ''dma_mem_sz'')
              (Some (p ''iccm_dma_ecc_error''))] else []) @
        (if q ''dma_dccm_req'' \<noteq> 0 then
           [MemReadItem ''DCCM'' (q ''dma_mem_addr'' - dccm_base cfg) (p ''dccm_dma_rdata'') (q ''dma_mem_sz'')
              (Some (p ''dccm_dma_ecc_error''))] else [])
      else [])"

definition mem_writes :: "dma_cfg \<Rightarrow> pins \<Rightarrow> dma_item list" where
  "mem_writes cfg p =
     (if p ''dma_mem_write'' \<noteq> 0 then
        (if p ''dma_iccm_req'' \<noteq> 0 then
           [MemWriteItem ''ICCM'' (p ''dma_mem_addr'' - iccm_base cfg) (p ''dma_mem_wdata'') (p ''dma_mem_sz'') None] else []) @
        (if p ''dma_dccm_req'' \<noteq> 0 then
           [MemWriteItem ''DCCM'' (p ''dma_mem_addr'' - dccm_base cfg) (p ''dma_mem_wdata'') (p ''dma_mem_sz'') None] else [])
      else [])"

definition mon_after :: "pins \<Rightarrow> mem_mon \<Rightarrow> bool" where
  "mon_after q s \<longleftrightarrow>
     mm_iccm s = q ''dma_iccm_req'' \<and> mm_dccm s = q ''dma_dccm_req'' \<and>
     mm_pending s = (q ''dma_iccm_req'' \<noteq> 0 \<or> q ''dma_dccm_req'' \<noteq> 0) \<and>
     (mm_pending s \<longrightarrow> mm_wr s = q ''dma_mem_write'' \<and> mm_addr s = q ''dma_mem_addr'' \<and>
        mm_size s = q ''dma_mem_sz'')"

lemma mem_mon_step_after:
  assumes "mon_after q s"
  shows "snd (mem_mon_step cfg p s) = mem_reads cfg q p @ mem_writes cfg p"
    and "mon_after p (fst (mem_mon_step cfg p s))"
  using assms by (auto simp: mem_mon_step_def mon_after_def mem_reads_def mem_writes_def Let_def)

lemma mem_monitor_after:
  "mon_after q s \<Longrightarrow>
   mem_monitor cfg ps s = concat (map2 (\<lambda>q p. mem_reads cfg q p @ mem_writes cfg p) (q # ps) ps)"
proof (induction ps arbitrary: q s)
  case (Cons p ps)
  from mem_mon_step_after [OF Cons.prems, where cfg = cfg and p = p] Cons.IH [of p "fst (mem_mon_step cfg p s)"]
  show ?case by (simp add: case_prod_beta)
qed simp

text \<open>
  Remark: the memory monitor reports a write at the edge that shows it and a read at the edge
  after the one that shows its request, with the data of that edge; nothing else, and nothing twice.
\<close>

theorem mem_monitor_exact:
  "mem_monitor cfg ps mem_mon_init =
     concat (map2 (\<lambda>q p. mem_reads cfg q p @ mem_writes cfg p) ((\<lambda>_. 0) # ps) ps)"
  by (rule mem_monitor_after) (simp add: mon_after_def mem_mon_init_def)

section \<open>The memory model\<close>

text \<open>
  The log of a run of accesses to one memory: address and value, the value being the one written
  or the one driven on the read data pins.
\<close>

fun mem_log ::
  "string \<Rightarrow> int \<Rightarrow> int \<Rightarrow> (pins \<times> int \<times> bool) list \<Rightarrow> (int \<rightharpoonup> int) \<Rightarrow> (bool \<times> int \<times> int) list py" where
  "mem_log pre base sz [] data = Inr []"
| "mem_log pre base sz ((p, draw, ecc) # as) data =
     bind_py (mem_access pre base sz draw ecc p data)
       (\<lambda>(acts, data'). bind_py (mem_log pre base sz as data')
         (\<lambda>log. Inr ((p ''dma_mem_write'' \<noteq> 0, p ''dma_mem_addr'' - base,
            case acts of Drive _ v # _ \<Rightarrow> v | _ \<Rightarrow> p ''dma_mem_wdata'') # log)))"

definition log_consistent :: "(bool \<times> int \<times> int) list \<Rightarrow> (int \<rightharpoonup> int) \<Rightarrow> bool" where
  "log_consistent log data \<longleftrightarrow>
     (\<forall>xs a v ys. log = xs @ (False, a, v) # ys \<longrightarrow>
        (case find (\<lambda>(w, b, u). b = a) (rev xs) of
           Some (w, b, u) \<Rightarrow> v = u
         | None \<Rightarrow> data a = None \<or> data a = Some v))"

lemma mem_access_effect:
  assumes "mem_access pre base sz draw ecc p data = Inr (acts, data')"
  defines "a \<equiv> p ''dma_mem_addr'' - base"
  shows "\<exists>v. data' = data(a \<mapsto> v) \<and>
    (case acts of Drive _ u # _ \<Rightarrow> u | _ \<Rightarrow> p ''dma_mem_wdata'') = v \<and>
    (p ''dma_mem_write'' = 0 \<longrightarrow> data a = None \<or> data a = Some v)"
  using assms by (auto simp: mem_access_def Let_def split: if_splits)

lemma log_consistent_Cons:
  assumes "log_consistent log (data(a \<mapsto> v))" and "\<not> w \<longrightarrow> data a = None \<or> data a = Some v"
  shows "log_consistent ((w, a, v) # log) data"
  unfolding log_consistent_def
proof (intro allI impI)
  fix xs b u ys
  assume eq: "(w, a, v) # log = xs @ (False, b, u) # ys"
  show "case find (\<lambda>(w, c, u). c = b) (rev xs) of
      Some (w, c, u') \<Rightarrow> u = u' | None \<Rightarrow> data b = None \<or> data b = Some u"
  proof (cases xs)
    case Nil
    with eq assms(2) show ?thesis by auto
  next
    case (Cons x xs')
    with eq have x: "x = (w, a, v)" and log: "log = xs' @ (False, b, u) # ys" by simp_all
    with assms(1) have "case find (\<lambda>(w, c, u). c = b) (rev xs') of
        Some (w, c, u') \<Rightarrow> u = u' | None \<Rightarrow> (data(a \<mapsto> v)) b = None \<or> (data(a \<mapsto> v)) b = Some u"
      unfolding log_consistent_def by blast
    with Cons x show ?thesis by (auto simp: find_append split: option.splits if_splits)
  qed
qed

text \<open>
  Remark: the memory model is a memory: in any run of accesses that raises nothing, a read
  returns the value of the latest earlier access to its address, written or read; so a location
  that was never written keeps the random value of its first read.
\<close>

theorem responder_is_memory:
  "mem_log pre base sz as data = Inr log \<Longrightarrow> log_consistent log data"
proof (induction as arbitrary: data log)
  case Nil
  then show ?case by (simp add: log_consistent_def)
next
  case (Cons x as)
  obtain p draw ecc where x: "x = (p, draw, ecc)" by (cases x)
  from Cons.prems obtain acts data' log' where
      acc: "mem_access pre base sz draw ecc p data = Inr (acts, data')"
    and log': "mem_log pre base sz as data' = Inr log'"
    and log: "log = (p ''dma_mem_write'' \<noteq> 0, p ''dma_mem_addr'' - base,
        case acts of Drive _ v # _ \<Rightarrow> v | _ \<Rightarrow> p ''dma_mem_wdata'') # log'"
    unfolding x by (auto simp: bind_py_eq_Inr)
  from mem_access_effect [OF acc] obtain v where v: "data' = data(p ''dma_mem_addr'' - base \<mapsto> v)"
      "(case acts of Drive _ u # _ \<Rightarrow> u | _ \<Rightarrow> p ''dma_mem_wdata'') = v"
      "p ''dma_mem_write'' = 0 \<longrightarrow> data (p ''dma_mem_addr'' - base) = None \<or> data (p ''dma_mem_addr'' - base) = Some v"
    by blast
  have "log_consistent log' (data(p ''dma_mem_addr'' - base \<mapsto> v))"
    using Cons.IH [OF log'] unfolding v(1) .
  then show ?case
    unfolding log v(2) by (rule log_consistent_Cons) (use v(3) in simp)
qed

theorem responder_is_memory_witness:
  "log_consistent [(False, 4, 9), (True, 4, 7), (False, 4, 7)] Map.empty"
  by (rule responder_is_memory [of "''iccm''" 0 16
        "[(\<lambda>s. if s = ''dma_mem_addr'' then 4 else 0, 9, False),
          (\<lambda>s. if s = ''dma_mem_addr'' then 4 else if s = ''dma_mem_write'' then 1
               else if s = ''dma_mem_wdata'' then 7 else 0, 3, False),
          (\<lambda>s. if s = ''dma_mem_addr'' then 4 else 0, 5, False)]"])
    (simp add: mem_access_def)

section \<open>The debug monitor\<close>

definition accepts_at :: "pins list \<Rightarrow> nat \<Rightarrow> bool" where
  "accepts_at ps j \<longleftrightarrow>
     ((0 < j \<and> (ps ! (j - 1)) ''dma_dbg_ready'' \<noteq> 0) \<or> (ps ! j) ''dma_dbg_ready'' \<noteq> 0) \<and>
     (ps ! j) ''dbg_cmd_valid'' \<noteq> 0"

definition last_accept :: "pins list \<Rightarrow> nat option" where
  "last_accept ps = find (accepts_at ps) (rev [0..<length ps])"

definition completion_of :: "pins list \<Rightarrow> dma_item \<Rightarrow> nat \<Rightarrow> nat \<Rightarrow> bool" where
  "completion_of ps it j k \<longleftrightarrow>
     k < length ps \<and> last_accept (take (Suc k) ps) = Some j \<and> (ps ! k) ''dma_dbg_cmd_done'' \<noteq> 0 \<and>
     it \<in> set (dbg_item (ps ! k) (sample_cmd (ps ! j)))"

lemma accepts_at_append: "j < length ps \<Longrightarrow> accepts_at (ps @ qs) j = accepts_at ps j"
  by (auto simp: accepts_at_def nth_append)

lemma last_accept_snoc:
  "last_accept (ps @ [p]) = (if accepts_at (ps @ [p]) (length ps) then Some (length ps) else last_accept ps)"
proof -
  have "find (accepts_at (ps @ [p])) (rev [0..<length ps]) = find (accepts_at ps) (rev [0..<length ps])"
    by (rule find_cong) (simp_all add: accepts_at_append)
  then show ?thesis by (simp add: last_accept_def)
qed

lemma last_accept_less: "last_accept ps = Some j \<Longrightarrow> j < length ps"
  unfolding last_accept_def by (auto simp: find_Some_iff rev_nth)

lemma completion_of_append: "completion_of ps it j k \<Longrightarrow> completion_of (ps @ qs) it j k"
  using last_accept_less [of "take (Suc k) ps" j] by (auto simp: completion_of_def nth_append)

definition dbg_mon_inv :: "pins list \<Rightarrow> dbg_mon \<Rightarrow> bool" where
  "dbg_mon_inv ps s \<longleftrightarrow>
     dm_curr_rdy s = (if ps = [] then 0 else last ps ''dma_dbg_ready'') \<and>
     dm_cmd s = map_option (\<lambda>j. sample_cmd (ps ! j)) (last_accept ps) \<and>
     (0 < dm_pending s \<longrightarrow> last_accept ps \<noteq> None)"

lemma dbg_accept_inv:
  assumes "dbg_mon_inv ps s"
  shows "dbg_mon_inv (ps @ [p]) (dbg_accept p s)"
proof -
  have "accepts_at (ps @ [p]) (length ps) \<longleftrightarrow>
      (dm_curr_rdy s \<noteq> 0 \<or> p ''dma_dbg_ready'' \<noteq> 0) \<and> p ''dbg_cmd_valid'' \<noteq> 0"
    using assms by (cases ps rule: rev_cases) (auto simp: dbg_mon_inv_def accepts_at_def nth_append)
  then show ?thesis
    using assms last_accept_less [of ps]
    by (auto simp: dbg_mon_inv_def dbg_accept_def Let_def last_accept_snoc nth_append
        split: option.splits intro!: map_option_cong)
qed

lemma dbg_mon_step_inv:
  assumes "dbg_mon_inv ps s"
  shows "\<exists>s' its'. dbg_mon_step p (s, its) = Inr (s', its @ its') \<and> dbg_mon_inv (ps @ [p]) s' \<and>
    (\<forall>it\<in>set its'. \<exists>j. completion_of (ps @ [p]) it j (length ps))"
proof -
  note inv = dbg_accept_inv [OF assms, of p]
  show ?thesis
  proof (cases "p ''dma_dbg_cmd_done'' \<noteq> 0 \<and> 0 < dm_pending (dbg_accept p s)")
    case True
    with inv obtain j where j: "last_accept (ps @ [p]) = Some j"
        "dm_cmd (dbg_accept p s) = Some (sample_cmd ((ps @ [p]) ! j))"
      by (auto simp: dbg_mon_inv_def)
    with True inv show ?thesis
      by (auto simp: dbg_mon_step_def Let_def dbg_mon_inv_def completion_of_def)
  next
    case False
    with inv show ?thesis by (auto simp: dbg_mon_step_def Let_def intro!: exI [of _ "[]"])
  qed
qed



section \<open>Sequences\<close>

lemma seq_addr_aligned: "align dvd seq_addr align base r"
  by (simp add: seq_addr_def)

lemma seq_addr_range:
  assumes "0 < align" and "align dvd base" and "0 \<le> r" and "r < sz"
  shows "base \<le> seq_addr align base r" and "seq_addr align base r < base + sz"
proof -
  from assms(2) obtain k where k: "base = align * k" by (elim dvdE)
  have "seq_addr align base r = base + r div align * align"
    using assms(1) by (simp add: seq_addr_def k algebra_simps)
  moreover have "0 \<le> r div align * align" "r div align * align \<le> r"
    using assms(1,3) pos_mod_sign [OF assms(1), of r] div_mult_mod_eq [of r align]
    by (simp add: pos_imp_zdiv_nonneg_iff, linarith)
  ultimately show "base \<le> seq_addr align base r" "seq_addr align base r < base + sz"
    using assms(4) by linarith+
qed

lemma seq_items_map:
  "(\<And>i. i < n \<Longrightarrow> item i = Inr (f i)) \<Longrightarrow> seq_items item n = Inr (map f [0..<n])"
  by (induction n) simp_all

lemma seq_pack_total:
  assumes "dwidth = 32 \<or> dwidth = 64" and "0 \<le> d" and "d < 2 ^ nat dwidth"
  shows "seq_pack dwidth d = Inr (le_bytes (nat dwidth div 8) d)"
  using assms by (auto simp: seq_pack_def struct_pack_def)

text \<open>
  Property C40: a write sequence on an aligned memory never raises, and each of its items is an
  aligned write inside the memory whose bytes unpack to the number drawn.
\<close>

theorem mem_write_sequence_in_memory:
  assumes "dwidth = 32 \<or> dwidth = 64" and "0 < align" and "align dvd base"
    and "\<forall>i. 0 \<le> addr j i \<and> addr j i < sz" and "\<forall>i. 0 \<le> data j i \<and> data j i < 2 ^ nat dwidth - 1"
  shows "\<exists>its. mem_write_sequence dwidth align base burst addr data j = Inr its \<and> length its = burst \<and>
    (\<forall>i<burst. \<exists>a bs. its ! i = BusWriteItem a bs None \<and> align dvd a \<and> base \<le> a \<and> a < base + sz \<and>
       struct_unpack (nat dwidth div 8) bs = Inr (data j i))"
proof -
  let ?f = "\<lambda>i. BusWriteItem (seq_addr align base (addr j i)) (le_bytes (nat dwidth div 8) (data j i)) None"
  have "data j i < 2 ^ nat dwidth" for i
    using assms(5) by (metis add_strict_increasing2 diff_add_cancel less_trans zero_less_one less_add_one)
  then have bs: "seq_pack dwidth (data j i) = Inr (le_bytes (nat dwidth div 8) (data j i))" for i
    using assms(1,5) by (intro seq_pack_total) auto
  have "mem_write_sequence dwidth align base burst addr data j = Inr (map ?f [0..<burst])"
    unfolding mem_write_sequence_def by (rule seq_items_map) (simp add: bs)
  moreover have "struct_unpack (nat dwidth div 8) (le_bytes (nat dwidth div 8) (data j i)) = Inr (data j i)" for i
    using assms(1,5) \<open>data j i < 2 ^ nat dwidth\<close> by (auto simp: struct_unpack_def intro!: le_val_le_bytes)
  moreover have "base \<le> seq_addr align base (addr j i) \<and> seq_addr align base (addr j i) < base + sz" for i
    using seq_addr_range [OF assms(2,3), of "addr j i" sz] assms(4) by simp
  ultimately show ?thesis
    using seq_addr_aligned by (intro exI [of _ "map ?f [0..<burst]"]) auto
qed

theorem mem_write_sequence_in_memory_witness:
  "\<exists>its. mem_write_sequence 64 8 0xEE000000 2 (\<lambda>j i. 5) (\<lambda>j i. 7) 0 = Inr its \<and> length its = 2 \<and>
    (\<forall>i<2. \<exists>a bs. its ! i = BusWriteItem a bs None \<and> 8 dvd a \<and> 0xEE000000 \<le> a \<and> a < 0xEE000000 + 0x10000 \<and>
       struct_unpack (nat 64 div 8) bs = Inr 7)"
  by (rule mem_write_sequence_in_memory) simp_all

lemma invalid_addr_found:
  "invalid_addr align iccm dccm pic draw k = Some a \<Longrightarrow>
   \<exists>n\<ge>k. a = draw n div align * align \<and> \<not> in_region iccm a \<and> \<not> in_region dccm a \<and> \<not> in_region pic a"
proof (rule invalid_addr.raw_induct [of "\<lambda>align iccm dccm pic draw k a. \<exists>n\<ge>k. a = draw n div align * align \<and>
    \<not> in_region iccm a \<and> \<not> in_region dccm a \<and> \<not> in_region pic a"])
  fix rec align iccm dccm pic draw k a
  assume IH: "\<And>align iccm dccm pic draw k a. rec align iccm dccm pic draw k = Some a \<Longrightarrow>
      \<exists>n\<ge>k. a = draw n div align * align \<and> \<not> in_region iccm a \<and> \<not> in_region dccm a \<and> \<not> in_region pic a"
    and eq: "(let addr = draw k div align * align in
        if in_region iccm addr then rec align iccm dccm pic draw (Suc k)
        else if in_region dccm addr then rec align iccm dccm pic draw (Suc k)
        else if in_region pic addr then rec align iccm dccm pic draw (Suc k) else Some addr) = Some a"
  from eq consider "rec align iccm dccm pic draw (Suc k) = Some a"
    | "a = draw k div align * align" "\<not> in_region iccm a" "\<not> in_region dccm a" "\<not> in_region pic a"
    unfolding Let_def by (metis option.inject)
  then show "\<exists>n\<ge>k. a = draw n div align * align \<and> \<not> in_region iccm a \<and> \<not> in_region dccm a \<and> \<not> in_region pic a"
  proof cases
    case 1
    from IH [OF this] obtain n where "Suc k \<le> n" "a = draw n div align * align"
        "\<not> in_region iccm a" "\<not> in_region dccm a" "\<not> in_region pic a"
      by blast
    then show ?thesis by (intro exI [of _ n]) simp
  next
    case 2
    then show ?thesis by (intro exI [of _ k]) simp
  qed
qed

lemma invalid_addr_returns:
  assumes "k \<le> n" and "a = draw n div align * align"
    and "\<not> in_region iccm a" and "\<not> in_region dccm a" and "\<not> in_region pic a"
  shows "\<exists>b. invalid_addr align iccm dccm pic draw k = Some b"
  using assms(1)
proof (induction "n - k" arbitrary: k)
  case 0
  with assms(2-5) have "k = n" by simp
  with assms(2-5) show ?case by (subst invalid_addr.simps) (simp add: Let_def)
next
  case (Suc m)
  then have "\<exists>b. invalid_addr align iccm dccm pic draw (Suc k) = Some b" by (intro Suc.hyps) simp_all
  then show ?case by (subst invalid_addr.simps) (auto simp: Let_def)
qed

text \<open>
  Remark: the search for an address outside the device's memories comes back exactly when
  some draw is outside all three of them, and what it returns is aligned and outside all three.
\<close>

theorem invalid_addr_spec:
  "((\<exists>a. invalid_addr align iccm dccm pic draw 0 = Some a) \<longleftrightarrow>
     (\<exists>n. \<not> in_region iccm (draw n div align * align) \<and> \<not> in_region dccm (draw n div align * align) \<and>
          \<not> in_region pic (draw n div align * align))) \<and>
   (\<forall>a. invalid_addr align iccm dccm pic draw 0 = Some a \<longrightarrow>
     align dvd a \<and> \<not> in_region iccm a \<and> \<not> in_region dccm a \<and> \<not> in_region pic a)"
proof (intro conjI allI impI iffI)
  show "\<exists>n. \<not> in_region iccm (draw n div align * align) \<and> \<not> in_region dccm (draw n div align * align) \<and>
          \<not> in_region pic (draw n div align * align)"
    if "\<exists>a. invalid_addr align iccm dccm pic draw 0 = Some a"
    using that invalid_addr_found by blast
  show "\<exists>a. invalid_addr align iccm dccm pic draw 0 = Some a"
    if "\<exists>n. \<not> in_region iccm (draw n div align * align) \<and> \<not> in_region dccm (draw n div align * align) \<and>
          \<not> in_region pic (draw n div align * align)"
    using that invalid_addr_returns [OF le0 refl] by blast
qed (auto dest!: invalid_addr_found)

theorem invalid_addr_spec_witness:
  "\<exists>a. invalid_addr 8 (16, 16) (64, 16) (128, 16) (\<lambda>k. 20 + 30 * int k) 0 = Some a \<and> 8 dvd a"
proof -
  have "\<exists>n. \<not> in_region (16, 16) ((20 + 30 * int n) div 8 * 8) \<and> \<not> in_region (64, 16) ((20 + 30 * int n) div 8 * 8) \<and>
      \<not> in_region (128, 16) ((20 + 30 * int n) div 8 * 8)"
    by (rule exI [of _ 1]) (simp add: in_region_def)
  with invalid_addr_spec [of 8 "(16, 16)" "(64, 16)" "(128, 16)" "\<lambda>k. 20 + 30 * int k"] show ?thesis by blast
qed

section \<open>A driven debug write as the monitor sees it\<close>

definition dbg_outputs :: "string list" where
  "dbg_outputs = [''dbg_cmd_addr'', ''dbg_cmd_wrdata'', ''dbg_cmd_valid'', ''dbg_cmd_write'',
     ''dbg_cmd_type'', ''dbg_cmd_size'', ''dbg_dma_bubble'']"

lemma dbg_quiet_step:
  assumes "p ''dbg_cmd_valid'' = 0" and "p ''dma_dbg_cmd_done'' = 0 \<or> dm_pending s = 0"
  shows "dbg_mon_step p (s, acc) = Inr (s\<lparr>dm_curr_rdy := p ''dma_dbg_ready''\<rparr>, acc)"
  using assms by (auto simp: dbg_mon_step_def dbg_accept_def Let_def)

lemma dbg_quiet_steps:
  assumes "q ''dbg_cmd_valid'' = 0"
    and "\<And>k. k < m \<Longrightarrow> env (t + k) ''dma_dbg_cmd_done'' = 0 \<or> dm_pending s = 0"
  shows "\<exists>r. fold_py dbg_mon_step (observed dbg_outputs env t (replicate m q)) (s, acc) =
      Inr (s\<lparr>dm_curr_rdy := r\<rparr>, acc) \<and> (0 < m \<longrightarrow> r = env (t + m - 1) ''dma_dbg_ready'')"
  using assms(2)
proof (induction m arbitrary: t s)
  case 0
  show ?case by (simp add: exI [of _ "dm_curr_rdy s"])
next
  case (Suc m)
  let ?p = "join_pins dbg_outputs q (env t)"
  let ?s = "s\<lparr>dm_curr_rdy := ?p ''dma_dbg_ready''\<rparr>"
  have step: "dbg_mon_step ?p (s, acc) = Inr (?s, acc)"
    using assms(1) Suc.prems [of 0] by (intro dbg_quiet_step) (simp_all add: join_pins_def dbg_outputs_def)
  have "\<exists>r. fold_py dbg_mon_step (observed dbg_outputs env (Suc t) (replicate m q)) (?s, acc) =
      Inr (?s\<lparr>dm_curr_rdy := r\<rparr>, acc) \<and> (0 < m \<longrightarrow> r = env (Suc t + m - 1) ''dma_dbg_ready'')"
    using Suc.prems [of "Suc k" for k] by (intro Suc.IH) simp
  then obtain r where r: "fold_py dbg_mon_step (observed dbg_outputs env (Suc t) (replicate m q)) (?s, acc) =
      Inr (s\<lparr>dm_curr_rdy := r\<rparr>, acc)" "0 < m \<longrightarrow> r = env (Suc t + m - 1) ''dma_dbg_ready''" by auto
  show ?case
  proof (cases m)
    case 0
    with step show ?thesis by (intro exI [of _ "?p ''dma_dbg_ready''"]) (simp add: join_pins_def dbg_outputs_def)
  next
    case (Suc n)
    with step r show ?thesis by (intro exI [of _ r]) simp
  qed
qed

lemma dbg_write_acts:
  assumes "dbg_write env bt addr data t = (as, Inr fail)"
  shows "\<exists>m1 m2. length data = 4 \<and>
    as = replicate (Suc m1) (Await (RisingEdge ''clk''))
      @ [Drive ''dbg_cmd_valid'' 1, Drive ''dbg_cmd_write'' 1, Drive ''dbg_cmd_size'' 2, Drive ''dbg_cmd_addr'' addr,
         Drive ''dbg_cmd_wrdata'' (le_val data), Await (RisingEdge ''clk''), Drive ''dbg_cmd_valid'' 0]
      @ replicate (Suc m2) (Await (RisingEdge ''clk'')) \<and>
    env (t + m1) ''dma_dbg_ready'' \<noteq> 0 \<and> (\<forall>k<m1. env (t + k) ''dma_dbg_ready'' = 0) \<and>
    env (t + Suc (Suc m1) + m2) ''dma_dbg_cmd_done'' \<noteq> 0 \<and>
    (\<forall>k<m2. env (t + Suc (Suc m1) + k) ''dma_dbg_cmd_done'' = 0) \<and>
    fail = env (t + Suc (Suc m1) + m2) ''dma_dbg_cmd_fail''"
proof -
  obtain as1 t1 where w1: "bfm_wait env ''dma_dbg_ready'' bt t = (as1, Inr t1)"
    using assms by (auto simp: dbg_write_def Let_def split: prod.splits sum.splits)
  have len: "length data = 4"
    using assms w1 by (auto simp: dbg_write_def Let_def struct_unpack_def split: prod.splits if_splits)
  obtain as2 t2 where w2: "dbg_finish env bt (Suc t1) = (as2, Inr t2)"
    using assms w1 len by (auto simp: dbg_write_def Let_def struct_unpack_def bind_py_eq_Inr split: prod.splits)
  obtain m1 where m1: "as1 = replicate (Suc m1) (Await (RisingEdge ''clk''))" "t1 = t + Suc m1"
      "env (t + m1) ''dma_dbg_ready'' \<noteq> 0" "\<forall>k<m1. env (t + k) ''dma_dbg_ready'' = 0"
    using bfm_wait_edges [OF w1] by blast
  obtain m2 where m2: "as2 = replicate (Suc m2) (Await (RisingEdge ''clk''))" "t2 = Suc t1 + Suc m2"
      "env (Suc t1 + m2) ''dma_dbg_cmd_done'' \<noteq> 0" "\<forall>k<m2. env (Suc t1 + k) ''dma_dbg_cmd_done'' = 0"
    using bfm_wait_edges [OF w2 [unfolded dbg_finish_def]] by blast
  show ?thesis
    by (rule exI [of _ m1], rule exI [of _ m2])
      (use assms w1 w2 m1 m2 len in \<open>auto simp: dbg_write_def Let_def struct_unpack_def\<close>)
qed



end
