(* ===== verification/Pic.thy ===== *)
theory Pic
  imports Uvm_Port
begin

text \<open>
  The interrupt controller testbench, \<open>verification/block/pic/testbench.py\<close>: the register map, the
  register interface, the drivers and monitors of priorities, requests and claims, and the
  predictor of the claimed interrupt.

  A monitor that reports a signal only when it changes keeps the previous value in an attribute;
  the locale \<open>change_monitor\<close> is that contract, interpreted for each of the watched signals.
\<close>

section \<open>Decimal numerals\<close>

text \<open>\<open>str(n)\<close> and \<open>int(s)\<close> of the language, for natural numbers.\<close>

definition dec_digit :: "nat \<Rightarrow> char" where
  "dec_digit d = char_of (48 + d)"

fun str_nat :: "nat \<Rightarrow> string" where
  "str_nat n = (if n < 10 then [dec_digit n] else str_nat (n div 10) @ [dec_digit (n mod 10)])"

declare str_nat.simps [simp del]

definition int_str :: "string \<Rightarrow> nat" where
  "int_str s = foldl (\<lambda>v c. 10 * v + (of_char c - 48)) 0 s"

section \<open>Register map\<close>

record reg_map =
  rm_reg :: "string \<rightharpoonup> int"
  rm_adr :: "int \<rightharpoonup> string"

definition add_reg :: "string \<times> int \<Rightarrow> reg_map \<Rightarrow> reg_map" where
  "add_reg e m = m\<lparr>rm_reg := (rm_reg m)(fst e \<mapsto> snd e), rm_adr := (rm_adr m)(snd e \<mapsto> fst e)\<rparr>"

definition reg_group :: "string \<Rightarrow> int \<Rightarrow> nat list \<Rightarrow> (string \<times> int) list" where
  "reg_group name base ss = map (\<lambda>s. (name @ str_nat s, base + 4 * int s)) ss"

definition reg_list :: "nat \<Rightarrow> int \<Rightarrow> (string \<times> int) list" where
  "reg_list max_irqs base_addr =
     [(''mpiccfg'', base_addr + 0x3000)] @
     reg_group ''meipl'' base_addr [1..<max_irqs] @
     reg_group ''meip'' (base_addr + 0x1000) [0..<max_irqs div 32] @
     reg_group ''meie'' (base_addr + 0x2000) [1..<max_irqs] @
     reg_group ''meigwctrl'' (base_addr + 0x4000) [1..<max_irqs] @
     reg_group ''meigwclr'' (base_addr + 0x5000) [1..<max_irqs]"

definition RegisterMap :: "nat \<Rightarrow> int \<Rightarrow> reg_map" where
  "RegisterMap max_irqs base_addr =
     fold add_reg (reg_list max_irqs base_addr) \<lparr>rm_reg = Map.empty, rm_adr = Map.empty\<rparr>"

section \<open>Items, drivers\<close>

datatype pic_item =
    BusWrite int int
  | BusRead int "int option"
  | PrioLvlItem int
  | PrioThrItem int
  | IrqItem int
  | ClaimItem int int int int
  | WaitItem nat

definition reg_read :: "int \<Rightarrow> action list" where
  "reg_read addr =
     [Await (RisingEdge ''clk''), Drive ''picm_rdaddr'' addr, Drive ''picm_rden'' 1, Drive ''picm_mken'' 0,
      Await (RisingEdge ''clk''), Drive ''picm_rden'' 0, Await (FallingEdge ''clk'')]"

definition reg_write :: "int \<Rightarrow> int \<Rightarrow> action list" where
  "reg_write addr data =
     [Await (RisingEdge ''clk''), Drive ''picm_wraddr'' addr, Drive ''picm_wr_data'' data,
      Drive ''picm_wren'' 1, Drive ''picm_mken'' 0, Await (RisingEdge ''clk''), Drive ''picm_wren'' 0]"

text \<open>
  The register driver. A wait item makes it call \<open>ClockCycles\<close> with the clock only; the number of
  cycles is a required argument of that trigger, so the call raises \<open>TypeError\<close>.
\<close>

fun register_driver :: "pic_item \<Rightarrow> action list py" where
  "register_driver (BusWrite addr data) = Inr (reg_write addr data)"
| "register_driver (BusRead addr _) = Inr (reg_read addr)"
| "register_driver (WaitItem cycles) = Inl TypeError"
| "register_driver _ = Inl RuntimeError"

fun prio_driver :: "pic_item \<Rightarrow> action list py" where
  "prio_driver (PrioLvlItem prio) = Inr [Drive ''meicurpl'' prio]"
| "prio_driver (PrioThrItem prio) = Inr [Drive ''meipt'' prio]"
| "prio_driver _ = Inl RuntimeError"

fun irq_driver :: "pic_item \<Rightarrow> action list py" where
  "irq_driver (IrqItem irqs) = Inr [Drive ''extintsrc_req'' irqs]"
| "irq_driver _ = Inl RuntimeError"

section \<open>Monitors\<close>

text \<open>
  The register monitor samples at the rising edge and, for a read, at the falling edge that
  follows; the write enable is then sampled at the falling edge too.
\<close>

definition register_monitor_edge :: "pins \<times> pins \<Rightarrow> pic_item list" where
  "register_monitor_edge e =
     (let rise = fst e; fall = snd e;
          now = (if rise ''picm_rden'' \<noteq> 0 then fall else rise)
      in (if rise ''picm_rden'' \<noteq> 0
          then [BusRead (rise ''picm_rdaddr'') (Some (fall ''picm_rd_data''))] else []) @
         (if now ''picm_wren'' \<noteq> 0
          then [BusWrite (now ''picm_wraddr'') (now ''picm_wr_data'')] else []))"

definition register_monitor :: "(pins \<times> pins) list \<Rightarrow> pic_item list" where
  "register_monitor es = concat (map register_monitor_edge es)"

fun prio_monitor :: "int option \<Rightarrow> int option \<Rightarrow> pins list \<Rightarrow> pic_item list" where
  "prio_monitor prev_meicurpl prev_meipt [] = []"
| "prio_monitor prev_meicurpl prev_meipt (p # ps) =
     (let curr_meicurpl = p ''meicurpl''; curr_meipt = p ''meipt''
      in (if prev_meicurpl \<noteq> Some curr_meicurpl then [PrioLvlItem curr_meicurpl] else []) @
         (if prev_meipt \<noteq> Some curr_meipt then [PrioThrItem curr_meipt] else []) @
         prio_monitor (Some curr_meicurpl) (Some curr_meipt) ps)"

fun irq_monitor :: "int option \<Rightarrow> pins list \<Rightarrow> pic_item list" where
  "irq_monitor prev_irqs [] = []"
| "irq_monitor prev_irqs (p # ps) =
     (let curr_irqs = p ''extintsrc_req''
      in (if prev_irqs \<noteq> Some curr_irqs then [IrqItem curr_irqs] else []) @
         irq_monitor (Some curr_irqs) ps)"

text \<open>
  The claim monitor waits three more edges after a trigger before it samples the claim; the edges
  in between are not examined.
\<close>

fun claim_monitor :: "int \<Rightarrow> int \<Rightarrow> pins list \<Rightarrow> pic_item list" where
  "claim_monitor prev_irqs prev_wren [] = []"
| "claim_monitor prev_irqs prev_wren (p # ps) =
     (let irqs = p ''extintsrc_req''; wren = p ''picm_wren'';
          is_wren = (wren \<noteq> 0 \<and> prev_wren = 0);
          is_irqs = (irqs AND NOT prev_irqs \<noteq> 0)
      in if is_wren \<or> is_irqs then
           (case ps of
              _ # _ # q # qs \<Rightarrow>
                ClaimItem (q ''claimid'') (q ''pl'') (q ''mexintpend'') (q ''mhwakeup'') # claim_monitor irqs wren qs
            | _ \<Rightarrow> [])
         else claim_monitor irqs wren ps)"

section \<open>Predictor\<close>

record irq =
  irq_id :: int
  irq_priority :: int
  irq_enabled :: bool
  irq_triggered :: bool

definition Irq :: "int \<Rightarrow> irq" where
  "Irq n = \<lparr>irq_id = n, irq_priority = 0, irq_enabled = False, irq_triggered = False\<rparr>"

definition predictor_init :: "irq list" where
  "predictor_init = map Irq [1..31]"

definition predict_step :: "bool \<Rightarrow> irq \<Rightarrow> irq option \<Rightarrow> irq option" where
  "predict_step inv_order i pred =
     (if (if inv_order then irq_priority i = 15 else irq_priority i = 0) then pred
      else case pred of
        None \<Rightarrow> Some i
      | Some b \<Rightarrow>
          (let b1 = (if inv_order then (if irq_priority i < irq_priority b then i else b)
                     else (if irq_priority i > irq_priority b then i else b))
           in Some (if irq_priority i = irq_priority b1 \<and> irq_id i < irq_id b1 then i else b1)))"

definition predict :: "bool \<Rightarrow> irq list \<Rightarrow> irq" where
  "predict inv_order irqs =
     (case fold (predict_step inv_order) (filter (\<lambda>i. irq_enabled i \<and> irq_triggered i) irqs) None of
        None \<Rightarrow> Irq 0
      | Some b \<Rightarrow> b)"

section \<open>Reset and run phase\<close>

definition pic_do_reset :: "action list" where
  "pic_do_reset =
     map (\<lambda>s. Drive s 0)
       [''free_clk'', ''clk_override'', ''io_clk_override'', ''extintsrc_req'', ''picm_rdaddr'',
        ''picm_wraddr'', ''picm_wr_data'', ''picm_wren'', ''picm_rden'', ''picm_mken'', ''meicurpl'',
        ''meipt'', ''scan_mode'', ''rst_l''] @
     [Await (ClockCycles ''clk'' 2), Await (FallingEdge ''clk''), Drive ''rst_l'' 1]"

definition pic_run_phase :: "action list \<Rightarrow> action list" where
  "pic_run_phase run =
     pic_do_reset @ [Await (ClockCycles ''clk'' 2)] @ run @ [Await (ClockCycles ''clk'' 10)]"

section \<open>Decimal numerals are read back\<close>

lemma dec_digit_val: "d < 10 \<Longrightarrow> of_char (dec_digit d) = (48 + d :: nat)"
  by (simp add: dec_digit_def)

lemma int_str_snoc: "int_str (s @ [c]) = 10 * int_str s + (of_char c - 48)"
  by (simp add: int_str_def)

lemma int_str_str_nat: "int_str (str_nat n) = n"
proof (induction n rule: str_nat.induct)
  case (1 n)
  show ?case
  proof (cases "n < 10")
    case True
    then show ?thesis by (subst str_nat.simps) (simp add: int_str_def dec_digit_val)
  next
    case False
    with 1 show ?thesis by (subst str_nat.simps) (simp add: int_str_snoc dec_digit_val)
  qed
qed

lemma str_nat_inject: "str_nat m = str_nat n \<longleftrightarrow> m = n"
  by (metis int_str_str_nat)

lemma str_nat_Cons: "\<exists>d s. d < 10 \<and> str_nat n = dec_digit d # s"
proof (induction n rule: str_nat.induct)
  case (1 n)
  show ?case
  proof (cases "n < 10")
    case True
    then show ?thesis by (subst str_nat.simps) auto
  next
    case False
    with 1 show ?thesis by (subst str_nat.simps) auto
  qed
qed

lemma str_nat_not_l: "str_nat n \<noteq> CHR ''l'' # s"
proof -
  have "dec_digit d \<noteq> CHR ''l''" if "d < 10" for d
  proof
    assume "dec_digit d = CHR ''l''"
    then have "of_char (dec_digit d) = (108::nat)" by simp
    with that show False by (simp add: dec_digit_val)
  qed
  with str_nat_Cons [of n] show ?thesis by fastforce
qed

section \<open>The register map\<close>

lemma fold_add_reg:
  "fold add_reg es m = m\<lparr>rm_reg := rm_reg m ++ map_of (rev es), rm_adr := rm_adr m ++ map_of (map prod.swap (rev es))\<rparr>"
proof (induction es arbitrary: m)
  case (Cons e es)
  then show ?case by (cases e) (simp add: add_reg_def map_add_def fun_eq_iff split: option.splits)
qed simp

lemma in_reg_group: "(a, b) \<in> set (reg_group name base ss) \<longleftrightarrow> (\<exists>s\<in>set ss. a = name @ str_nat s \<and> b = base + 4 * int s)"
  by (auto simp: reg_group_def)

lemma distinct_reg_group:
  "distinct ss \<Longrightarrow> distinct (map fst (reg_group name base ss)) \<and> distinct (map snd (reg_group name base ss))"
  by (auto simp: reg_group_def distinct_map inj_on_def str_nat_inject)

lemma distinct_reg_names: "distinct (map fst (reg_list n base))"
proof -
  have "fst ` set (reg_group name b ss) = (\<lambda>s. name @ str_nat s) ` set ss" for name b ss
    by (auto simp: reg_group_def image_comp)
  then show ?thesis
    by (auto simp: reg_list_def distinct_reg_group str_nat_not_l str_nat_not_l [symmetric])
qed

lemma distinct_reg_addrs:
  assumes "n \<le> 1024"
  shows "distinct (map snd (reg_list n base))"
proof -
  have "snd ` set (reg_group name b ss) = (\<lambda>s. b + 4 * int s) ` set ss" for name b ss
    by (auto simp: reg_group_def image_comp)
  then show ?thesis
    using assms by (auto simp: reg_list_def distinct_reg_group)
qed

text \<open>
  Remark: for up to 1024 interrupts the two directions of the register map are inverse, every
  register of the controller is in it, and the source number is read back from a register's name.
\<close>

theorem register_map_inverse:
  assumes "n \<le> 1024"
  shows "(rm_reg (RegisterMap n base) name = Some a \<longleftrightarrow> rm_adr (RegisterMap n base) a = Some name) \<and>
    (\<forall>s. 1 \<le> s \<and> s < n \<longrightarrow>
       rm_adr (RegisterMap n base) (base + 4 * int s) = Some (''meipl'' @ str_nat s) \<and>
       rm_adr (RegisterMap n base) (base + 0x2000 + 4 * int s) = Some (''meie'' @ str_nat s) \<and>
       int_str (drop 5 (''meipl'' @ str_nat s)) = s \<and> int_str (drop 4 (''meie'' @ str_nat s)) = s)"
proof -
  let ?es = "reg_list n base"
  have reg: "rm_reg (RegisterMap n base) x = Some y \<longleftrightarrow> (x, y) \<in> set ?es" for x y
    using distinct_reg_names [of n base]
    by (simp add: RegisterMap_def fold_add_reg rev_map [symmetric] map_of_eq_Some_iff)
  have "distinct (map fst (map prod.swap (rev ?es)))"
    using distinct_reg_addrs [OF assms, of base] by (simp add: rev_map [symmetric] comp_def)
  then have adr: "rm_adr (RegisterMap n base) y = Some x \<longleftrightarrow> (x, y) \<in> set ?es" for x y
    by (auto simp: RegisterMap_def fold_add_reg map_of_eq_Some_iff)
  show ?thesis
    unfolding adr reg by (auto simp: reg_list_def in_reg_group int_str_str_nat)
qed

theorem register_map_inverse_witness:
  "rm_adr (RegisterMap 32 0xF00C0000) (0xF00C0000 + 4 * int 7) = Some (''meipl'' @ str_nat 7)"
proof -
  have "(32::nat) \<le> 1024" by simp
  from conjunct2 [OF register_map_inverse [OF this, of "0xF00C0000" "[]" 0]]
  show ?thesis by (elim allE [of _ 7]) simp
qed

section \<open>The predictor\<close>

definition beats :: "bool \<Rightarrow> irq \<Rightarrow> irq \<Rightarrow> bool" where
  "beats inv_order a b \<longleftrightarrow>
     (if inv_order then irq_priority a < irq_priority b else irq_priority a > irq_priority b) \<or>
     irq_priority a = irq_priority b \<and> irq_id a \<le> irq_id b"

definition candidate :: "bool \<Rightarrow> irq \<Rightarrow> bool" where
  "candidate inv_order i \<longleftrightarrow>
     irq_enabled i \<and> irq_triggered i \<and> irq_priority i \<noteq> (if inv_order then 15 else 0)"

lemma beats_refl: "beats io a a"
  by (simp add: beats_def)

lemma beats_trans: "beats io a b \<Longrightarrow> beats io b c \<Longrightarrow> beats io a c"
  by (cases io) (auto simp: beats_def)

lemma predict_step_best:
  "predict_step io i pred =
     (if irq_priority i = (if io then 15 else 0) then pred
      else case pred of None \<Rightarrow> Some i | Some b \<Rightarrow> Some (if beats io b i then b else i))"
  by (auto simp: predict_step_def beats_def Let_def split: option.splits)

lemma predict_fold:
  assumes "\<forall>i\<in>set is. irq_enabled i \<and> irq_triggered i"
  shows "case fold (predict_step io) is p of
      None \<Rightarrow> p = None \<and> (\<forall>i\<in>set is. \<not> candidate io i)
    | Some b \<Rightarrow> (Some b = p \<or> b \<in> set is \<and> candidate io b) \<and>
        (\<forall>i\<in>set is. candidate io i \<longrightarrow> beats io b i) \<and> (\<forall>c. p = Some c \<longrightarrow> beats io b c)"
  using assms
proof (induction "is" arbitrary: p)
  case Nil
  show ?case by (simp add: beats_refl split: option.split)
next
  case (Cons i "is")
  let ?p = "predict_step io i p"
  have tot: "beats io a b \<or> beats io b a" for a b by (cases io) (auto simp: beats_def)
  have IH: "case fold (predict_step io) is ?p of
      None \<Rightarrow> ?p = None \<and> (\<forall>i\<in>set is. \<not> candidate io i)
    | Some b \<Rightarrow> (Some b = ?p \<or> b \<in> set is \<and> candidate io b) \<and>
        (\<forall>i\<in>set is. candidate io i \<longrightarrow> beats io b i) \<and> (\<forall>c. ?p = Some c \<longrightarrow> beats io b c)"
    using Cons by simp
  have cand: "candidate io i \<longleftrightarrow> irq_priority i \<noteq> (if io then 15 else 0)"
    using Cons.prems by (simp add: candidate_def)
  show ?case
  proof (cases "candidate io i")
    case False
    then have "?p = p" by (simp add: predict_step_best cand)
    with IH False show ?thesis by (auto split: option.splits)
  next
    case True
    define b where "b = (case p of None \<Rightarrow> i | Some c \<Rightarrow> if beats io c i then c else i)"
    have b: "?p = Some b" "b = i \<or> Some b = p" "beats io b i" "\<forall>c. p = Some c \<longrightarrow> beats io b c"
      using True tot beats_refl
      by (auto simp: predict_step_best cand b_def split: option.splits)
    with IH True show ?thesis by (auto split: option.splits dest: beats_trans)
  qed
qed

text \<open>
  Property C35: the predictor returns the enabled and triggered interrupt with the best priority
  (highest, or lowest when the order is inverted; priority 0, or 15, never wins) and, among equals,
  the lowest number; when there is none it returns interrupt 0.
\<close>

theorem predict_best:
  "(\<forall>i\<in>set irqs. \<not> candidate io i) \<and> predict io irqs = Irq 0 \<or>
   predict io irqs \<in> set irqs \<and> candidate io (predict io irqs) \<and>
     (\<forall>i\<in>set irqs. candidate io i \<longrightarrow> beats io (predict io irqs) i)"
proof -
  let ?is = "filter (\<lambda>i. irq_enabled i \<and> irq_triggered i) irqs"
  have "i \<in> set ?is" if "i \<in> set irqs" "candidate io i" for i
    using that by (simp add: candidate_def)
  note sub = this
  have fold: "case fold (predict_step io) ?is None of
      None \<Rightarrow> \<forall>i\<in>set ?is. \<not> candidate io i
    | Some b \<Rightarrow> b \<in> set ?is \<and> candidate io b \<and> (\<forall>i\<in>set ?is. candidate io i \<longrightarrow> beats io b i)"
    using predict_fold [where ?is = ?is and io = io and p = None] by (simp split: option.splits)
  show ?thesis
  proof (cases "fold (predict_step io) ?is None")
    case None
    with fold have "\<forall>i\<in>set ?is. \<not> candidate io i" by simp
    with sub have "\<forall>i\<in>set irqs. \<not> candidate io i" by blast
    with None show ?thesis by (simp add: predict_def)
  next
    case (Some b)
    with fold have b: "b \<in> set ?is" "candidate io b" "\<forall>i\<in>set ?is. candidate io i \<longrightarrow> beats io b i"
      by simp_all
    from b(1) have "b \<in> set irqs" by simp
    moreover from b(3) sub have "\<forall>i\<in>set irqs. candidate io i \<longrightarrow> beats io b i" by blast
    moreover from Some have "predict io irqs = b" by (simp add: predict_def)
    ultimately show ?thesis using b(2) by blast
  qed
qed

theorem predict_best_witness:
  "candidate False \<lparr>irq_id = 3, irq_priority = 9, irq_enabled = True, irq_triggered = True\<rparr> \<and>
   predict False [\<lparr>irq_id = 2, irq_priority = 4, irq_enabled = True, irq_triggered = True\<rparr>,
     \<lparr>irq_id = 3, irq_priority = 9, irq_enabled = True, irq_triggered = True\<rparr>] =
   \<lparr>irq_id = 3, irq_priority = 9, irq_enabled = True, irq_triggered = True\<rparr>"
  using predict_best [of "[\<lparr>irq_id = 2, irq_priority = 4, irq_enabled = True, irq_triggered = True\<rparr>,
     \<lparr>irq_id = 3, irq_priority = 9, irq_enabled = True, irq_triggered = True\<rparr>]" False]
  by (auto simp: candidate_def beats_def)

section \<open>Change monitors\<close>

text \<open>
  A change monitor reports the values of a signal, one report per change; \<open>reports\<close> are the items of
  the monitor that carry the signal's values.
\<close>

fun changes :: "int option \<Rightarrow> int list \<Rightarrow> int list" where
  "changes prev [] = []"
| "changes prev (x # xs) = (if prev \<noteq> Some x then [x] else []) @ changes (Some x) xs"

locale change_monitor =
  fixes signal :: string
    and reports :: "int option \<Rightarrow> pins list \<Rightarrow> int list"
  assumes reports_changes: "reports prev ps = changes prev (map (\<lambda>p. p signal) ps)"
begin

lemma last_report:
  "ps \<noteq> [] \<Longrightarrow> prev \<noteq> None \<or> reports prev ps \<noteq> []"
  by (cases ps) (auto simp: reports_changes)

lemma current_value:
  "ps \<noteq> [] \<Longrightarrow> last (case prev of None \<Rightarrow> reports prev ps | Some v \<Rightarrow> v # reports prev ps) = last ps signal"
proof (induction ps arbitrary: prev)
  case (Cons p ps)
  show ?case
  proof (cases ps)
    case Nil
    then show ?thesis by (cases prev) (auto simp: reports_changes)
  next
    case (Cons q qs)
    with Cons.IH [of "Some (p signal)"] show ?thesis
      by (cases prev) (auto simp: reports_changes)
  qed
qed simp

lemma no_repeat: "distinct_adj (case prev of None \<Rightarrow> reports prev ps | Some v \<Rightarrow> v # reports prev ps)"
proof (induction ps arbitrary: prev)
  case Nil
  show ?case by (cases prev) (simp_all add: reports_changes)
next
  case (Cons p ps)
  from Cons.IH [of "Some (p signal)"] show ?case by (cases prev) (auto simp: reports_changes)
qed

end

definition lvl_of :: "pic_item \<Rightarrow> int list" where
  "lvl_of it = (case it of PrioLvlItem v \<Rightarrow> [v] | _ \<Rightarrow> [])"

definition thr_of :: "pic_item \<Rightarrow> int list" where
  "thr_of it = (case it of PrioThrItem v \<Rightarrow> [v] | _ \<Rightarrow> [])"

definition irqs_of :: "pic_item \<Rightarrow> int list" where
  "irqs_of it = (case it of IrqItem v \<Rightarrow> [v] | _ \<Rightarrow> [])"

lemma prio_monitor_lvl:
  "concat (map lvl_of (prio_monitor lvl thr ps)) = changes lvl (map (\<lambda>p. p ''meicurpl'') ps)"
  by (induction ps arbitrary: lvl thr) (auto simp: Let_def lvl_of_def)

lemma prio_monitor_thr:
  "concat (map thr_of (prio_monitor lvl thr ps)) = changes thr (map (\<lambda>p. p ''meipt'') ps)"
  by (induction ps arbitrary: lvl thr) (auto simp: Let_def thr_of_def)

interpretation lvl_mon: change_monitor "''meicurpl''" "\<lambda>prev ps. concat (map lvl_of (prio_monitor prev thr ps))" for thr
  by unfold_locales (rule prio_monitor_lvl)

interpretation thr_mon: change_monitor "''meipt''" "\<lambda>prev ps. concat (map thr_of (prio_monitor lvl prev ps))" for lvl
  by unfold_locales (rule prio_monitor_thr)

interpretation irq_mon: change_monitor "''extintsrc_req''" "\<lambda>prev ps. concat (map irqs_of (irq_monitor prev ps))"
proof
  fix prev ps
  show "concat (map irqs_of (irq_monitor prev ps)) = changes prev (map (\<lambda>p. p ''extintsrc_req'') ps)"
    by (induction ps arbitrary: prev) (auto simp: Let_def irqs_of_def)
qed

text \<open>
  Remark: after any non-empty run the last item of each kind reported by the priority and
  request monitors carries the current value of its signal, and no two items in a row of one kind
  carry the same value.
\<close>

theorem pic_monitors_track:
  assumes "ps \<noteq> []"
  shows "last (concat (map lvl_of (prio_monitor None None ps))) = last ps ''meicurpl'' \<and>
    last (concat (map thr_of (prio_monitor None None ps))) = last ps ''meipt'' \<and>
    last (concat (map irqs_of (irq_monitor None ps))) = last ps ''extintsrc_req'' \<and>
    distinct_adj (concat (map irqs_of (irq_monitor None ps)))"
  using lvl_mon.current_value [OF assms, of None None] thr_mon.current_value [OF assms, of None None]
    irq_mon.current_value [OF assms, of None] irq_mon.no_repeat [of None ps] by simp_all

theorem pic_monitors_track_witness:
  "last (concat (map irqs_of (irq_monitor None [\<lambda>s. 4, \<lambda>s. 4, \<lambda>s. 6]))) = 6"
  using pic_monitors_track [of "[\<lambda>s. 4, \<lambda>s. 4, \<lambda>s. 6]"] by simp

text \<open>
  Remark: the register driver cannot process a wait item: it raises instead of waiting.
\<close>

theorem register_driver_wait_raises:
  "run_driver register_driver (WaitItem n # its) = ([], Some TypeError)"
  by simp

end
