(* ===== verification/Csrs.thy ===== *)
theory Csrs
  imports Py_Prelude
begin

text \<open>
  \<open>verification/block/common/csrs.py\<close>: the control and status registers of the core with, for each,
  the function from the value written to the value read back.
\<close>

section \<open>Definitions\<close>

record csr =
  csr_name :: string
  csr_addr :: int
  csr_out :: "int \<Rightarrow> int"

definition get_bit :: "int \<Rightarrow> nat \<Rightarrow> int" where
  "get_bit value i = drop_bit i value AND 1"

text \<open>The loop body and the loop of \<open>_prevent_11_pairs\<close>, over the even indices from 30 down to 0.\<close>

definition pair_step :: "int \<Rightarrow> nat \<Rightarrow> int \<Rightarrow> int" where
  "pair_step value i new_value =
     (let b0 = get_bit value i; b1 = get_bit value (i + 1)
      in push_bit 2 new_value OR (push_bit 1 b1 OR (b0 AND of_bool (b1 = 0))))"

definition prevent_11_pairs :: "int \<Rightarrow> int" where
  "prevent_11_pairs value = fold (pair_step value) (rev (map (\<lambda>k. 2 * k) [0..<16])) 0"

definition mhpme_zero_event :: "int \<Rightarrow> bool" where
  "mhpme_zero_event value \<longleftrightarrow>
     value > 516 \<or> (value < 512 \<and> value > 56) \<or> (value < 54 \<and> value > 50) \<or> value = 29 \<or> value = 33"

definition m_ect :: "int \<Rightarrow> int" where
  "m_ect value =
     (if drop_bit 27 value AND 0x1F > 26 then (value AND 0x07FFFFFF) OR push_bit 27 26 else value)"

definition clear_bit :: "nat \<Rightarrow> int \<Rightarrow> int" where
  "clear_bit i value = value AND NOT (push_bit i 1)"

definition dicawics :: "int \<Rightarrow> int" where
  "dicawics value = fold clear_bit [23, 22, 19, 18, 17, 2, 1, 0] (value AND 0x1FFFFFF)"

definition dcsr :: "int \<Rightarrow> int" where
  "dcsr value =
     (let v1 = (value AND 0xFFFF) OR push_bit 28 0x4;
          v2 = (v1 AND 0xFFFFFFFC) OR 0x3;
          v3 = fold clear_bit [14, 13, 12, 9, 8] v2;
          v4 = clear_bit 7 v3 OR push_bit 7 1;
          v5 = clear_bit 6 v4 OR push_bit 6 1
      in fold clear_bit [5, 4, 3] v5)"

definition mhpme :: "int \<Rightarrow> int" where
  "mhpme x = (if mhpme_zero_event x then 0 else x)"

definition CSR :: "string \<Rightarrow> int \<Rightarrow> (int \<Rightarrow> int) \<Rightarrow> csr" where
  "CSR name addr out = \<lparr>csr_name = name, csr_addr = addr, csr_out = out\<rparr>"

definition csr_table :: "csr list" where
  "csr_table =
    [CSR ''MDEAU'' 0xBC0 (\<lambda>x. x), CSR ''MDSEAC'' 0xFC0 (\<lambda>x. x), CSR ''MEICPCT'' 0xBCA (\<lambda>x. x),
     CSR ''MEIVT'' 0xBC8 (\<lambda>x. x), CSR ''MTSEL'' 0x7A0 (\<lambda>x. x), CSR ''MTDATA1'' 0x7A1 (\<lambda>x. x),
     CSR ''MTDATA2'' 0x7A2 (\<lambda>x. x), CSR ''MEIPT'' 0xBC9 (\<lambda>x. x AND 0xF),
     CSR ''MTVEC'' 0x305 (\<lambda>x. x AND 0xFFFFFFFD), CSR ''MRAC'' 0x7C0 prevent_11_pairs,
     CSR ''MCOUNTINHIBIT'' 0x320 (\<lambda>x. x AND 0x7D), CSR ''MFDHT'' 0x7CE (\<lambda>x. x AND 0x3F),
     CSR ''MEICURPL'' 0xBCC (\<lambda>x. x AND 0xF), CSR ''MFDC'' 0xBCC (\<lambda>x. x AND 0x71FBF),
     CSR ''MHPMC3'' 0xB03 (\<lambda>x. x), CSR ''MHPMC3H'' 0xB83 (\<lambda>x. x), CSR ''MHPMC4'' 0xB04 (\<lambda>x. x),
     CSR ''MHPMC4H'' 0xB84 (\<lambda>x. x), CSR ''MHPMC5'' 0xB05 (\<lambda>x. x), CSR ''MHPMC5H'' 0xB85 (\<lambda>x. x),
     CSR ''MHPMC6'' 0xB06 (\<lambda>x. x), CSR ''MHPMC6H'' 0xB86 (\<lambda>x. x), CSR ''MINSTRETL'' 0xB02 (\<lambda>x. x),
     CSR ''MINSTRETH'' 0xB82 (\<lambda>x. x), CSR ''MCYCLEL'' 0xB00 (\<lambda>x. x), CSR ''MCYCLEH'' 0xB80 (\<lambda>x. x),
     CSR ''MHPME3'' 0x323 mhpme, CSR ''MHPME4'' 0x324 mhpme, CSR ''MHPME5'' 0x325 mhpme,
     CSR ''MHPME6'' 0x326 mhpme, CSR ''MICECT'' 0x7F0 m_ect, CSR ''MICCMECT'' 0x7F1 m_ect,
     CSR ''MDCCMECT'' 0x7F2 m_ect, CSR ''DICAD0'' 0x7C9 (\<lambda>x. x), CSR ''DICAD0H'' 0x7CC (\<lambda>x. x),
     CSR ''DICAD1'' 0x7CA (\<lambda>x. x), CSR ''DICAWICS'' 0x7C8 dicawics,
     CSR ''DPC'' 0x7B1 (\<lambda>x. x AND NOT 0x1), CSR ''DCSR'' 0x7B0 dcsr, CSR ''MEICIDPL'' 0xBCB (\<lambda>x. x AND 0xF)]"

section \<open>Bit fields\<close>

lemma bit_clear_bit: "bit (clear_bit i v) n \<longleftrightarrow> bit v n \<and> n \<noteq> i"
  by (auto simp: clear_bit_def bit_and_iff bit_not_iff bit_exp_iff)

lemma bit_pair_step:
  "bit (pair_step v i acc) q \<longleftrightarrow>
     (if q = 0 then bit v i \<and> \<not> bit v (i + 1) else if q = 1 then bit v (i + 1) else bit acc (q - 2))"
  by (cases "bit v (i + 1)"; cases "bit v i")
    (auto simp: pair_step_def Let_def get_bit_def drop_and_one bit_or_iff bit_push_bit_iff bit_1_iff bit_2_iff)

definition pairs_spec :: "int \<Rightarrow> nat \<Rightarrow> bool" where
  "pairs_spec v m \<longleftrightarrow> (if even m then bit v m \<and> \<not> bit v (m + 1) else bit v m)"

lemma pairs_fold:
  "bit (fold (pair_step v) (rev (map (\<lambda>k. 2 * k) [0..<n])) acc) m
   \<longleftrightarrow> (if m < 2 * n then pairs_spec v m else bit acc (m - 2 * n))"
proof (induction n arbitrary: acc)
  case (Suc n)
  have step: "fold (pair_step v) (rev (map (\<lambda>k. 2 * k) [0..<Suc n])) acc =
      fold (pair_step v) (rev (map (\<lambda>k. 2 * k) [0..<n])) (pair_step v (2 * n) acc)" by simp
  consider "m < 2 * n" | "m = 2 * n" | "m = 2 * n + 1" | "2 * n + 2 \<le> m" by linarith
  then show ?case
    unfolding step Suc.IH bit_pair_step
  proof cases
    case 4
    then have "m - 2 * n \<noteq> 0" "m - 2 * n \<noteq> 1" by linarith+
    with 4 show "(if m < 2 * n then pairs_spec v m
        else if m - 2 * n = 0 then bit v (2 * n) \<and> \<not> bit v (2 * n + 1)
        else if m - 2 * n = 1 then bit v (2 * n + 1) else bit acc (m - 2 * n - 2)) \<longleftrightarrow>
      (if m < 2 * Suc n then pairs_spec v m else bit acc (m - 2 * Suc n))" by simp
  qed (simp_all add: pairs_spec_def)
qed simp

lemma bit_prevent_11_pairs: "bit (prevent_11_pairs v) m \<longleftrightarrow> m < 32 \<and> pairs_spec v m"
  unfolding prevent_11_pairs_def pairs_fold by simp

lemma bit_numeral_masks:
  "bit (0xFFFF :: int) n \<longleftrightarrow> n < 16"
  "bit (0x1FFFFFF :: int) n \<longleftrightarrow> n < 25"
  "bit (0x7FFFFFF :: int) n \<longleftrightarrow> n < 27"
  "bit (0xFFFFFFFC :: int) n \<longleftrightarrow> 2 \<le> n \<and> n < 32"
  "bit (3 :: int) n \<longleftrightarrow> n < 2"
proof -
  have eq: "(0xFFFF :: int) = mask 16" "(0x1FFFFFF :: int) = mask 25" "(0x7FFFFFF :: int) = mask 27"
      "(0xFFFFFFFC :: int) = push_bit 2 (mask 30)" "(3 :: int) = mask 2"
    by (simp_all add: mask_eq_exp_minus_1 push_bit_eq_mult)
  show "bit (0xFFFF :: int) n \<longleftrightarrow> n < 16" "bit (0x1FFFFFF :: int) n \<longleftrightarrow> n < 25"
    "bit (0x7FFFFFF :: int) n \<longleftrightarrow> n < 27" "bit (3 :: int) n \<longleftrightarrow> n < 2"
    unfolding eq by (simp_all add: bit_mask_iff)
  show "bit (0xFFFFFFFC :: int) n \<longleftrightarrow> 2 \<le> n \<and> n < 32"
    unfolding eq by (auto simp: bit_push_bit_iff bit_mask_iff)
qed

lemma bit_dicawics: "bit (dicawics v) n \<longleftrightarrow> bit v n \<and> n < 25 \<and> n \<notin> {0, 1, 2, 17, 18, 19, 22, 23}"
  by (auto simp: dicawics_def bit_clear_bit bit_and_iff bit_numeral_masks)

lemma push_bit_4: "push_bit 28 (4::int) = push_bit 30 1"
  by (simp add: push_bit_eq_mult)

lemma bit_dcsr:
  "bit (dcsr v) n \<longleftrightarrow> n \<in> {0, 1, 6, 7, 30} \<or> n \<in> {2, 10, 11, 15} \<and> bit v n"
proof -
  have "bit (dcsr v) n \<longleftrightarrow>
      n \<noteq> 3 \<and> n \<noteq> 4 \<and> n \<noteq> 5 \<and>
      (n = 6 \<or> n = 7 \<or> n \<noteq> 8 \<and> n \<noteq> 9 \<and> n \<noteq> 12 \<and> n \<noteq> 13 \<and> n \<noteq> 14 \<and>
       (n < 2 \<or> 2 \<le> n \<and> n < 32 \<and> (n = 30 \<or> n < 16 \<and> bit v n)))"
    unfolding dcsr_def Let_def push_bit_4
    by (auto simp: bit_clear_bit bit_or_iff bit_and_iff bit_numeral_masks bit_push_bit_iff bit_1_iff
        simp del: push_bit_of_1)
  also have "\<dots> \<longleftrightarrow> n \<in> {0, 1, 6, 7, 30} \<or> n \<in> {2, 10, 11, 15} \<and> bit v n"
    by (cases "n < 16") (auto simp: less_Suc_eq numeral_nat)
  finally show ?thesis .
qed

lemma m_ect_low: "take_bit 27 (m_ect v) = take_bit 27 v"
proof (rule bit_eqI)
  fix n
  have "\<not> bit (push_bit 27 (26::int)) n" if "n < 27" using that unfolding bit_push_bit_iff by simp
  then show "bit (take_bit 27 (m_ect v)) n = bit (take_bit 27 v) n"
    by (auto simp: m_ect_def bit_take_bit_iff bit_or_iff bit_and_iff bit_numeral_masks)
qed

lemma m_ect_high:
  assumes "0 \<le> v" and "v < 2 ^ 32"
  shows "drop_bit 27 (m_ect v) = min 26 (drop_bit 27 v)"
proof -
  have hi: "drop_bit 27 v AND 0x1F = drop_bit 27 v"
    using assms by (simp add: and_mask take_bit_int_eq_self_iff drop_bit_eq_div div_less_iff_less_mult
        pos_imp_zdiv_nonneg_iff)
  have "drop_bit 27 ((v AND 0x07FFFFFF) OR push_bit 27 26) = 26"
  proof -
    have "drop_bit 27 (v AND 0x07FFFFFF) = 0"
      by (rule bit_eqI) (simp add: bit_drop_bit_eq bit_and_iff bit_numeral_masks)
    then show ?thesis by (simp add: drop_bit_or drop_bit_push_bit)
  qed
  then show ?thesis by (simp add: m_ect_def hi min_def)
qed

lemma m_ect_eq:
  assumes "0 \<le> v" and "v < 2 ^ 32"
  shows "m_ect v = take_bit 27 v + 2 ^ 27 * min 26 (v div 2 ^ 27)"
proof -
  have "m_ect v = take_bit 27 (m_ect v) + 2 ^ 27 * drop_bit 27 (m_ect v)"
    by (simp add: take_bit_eq_mod drop_bit_eq_div)
  then show ?thesis
    unfolding m_ect_low m_ect_high [OF assms] by (simp add: drop_bit_eq_div)
qed

text \<open>
  Remark: the value read back from the registers with fields: \<open>MRAC\<close> never holds the reserved
  pair 11 (the side-effect bit wins over the cacheable bit), the error counters' threshold saturates
  at 26 and leaves the count alone, \<open>DICAWICS\<close> and \<open>DCSR\<close> keep exactly their writable bits and
  \<open>DCSR\<close> reads its fixed bits (version 4, machine mode, and cause bits 6 and 7) as set.
\<close>

theorem csr_fields:
  assumes "0 \<le> v" and "v < 2 ^ 32"
  shows "(\<forall>k. bit (prevent_11_pairs v) (2 * k + 1) = (k < 16 \<and> bit v (2 * k + 1)) \<and>
      bit (prevent_11_pairs v) (2 * k) = (k < 16 \<and> bit v (2 * k) \<and> \<not> bit v (2 * k + 1))) \<and>
    m_ect v = v mod 2 ^ 27 + 2 ^ 27 * min 26 (v div 2 ^ 27) \<and>
    (\<forall>n. bit (dicawics v) n = (bit v n \<and> n < 25 \<and> n \<notin> {0, 1, 2, 17, 18, 19, 22, 23})) \<and>
    (\<forall>n. bit (dcsr v) n = (n \<in> {0, 1, 6, 7, 30} \<or> n \<in> {2, 10, 11, 15} \<and> bit v n))"
proof (intro conjI)
  show "\<forall>k. bit (prevent_11_pairs v) (2 * k + 1) = (k < 16 \<and> bit v (2 * k + 1)) \<and>
      bit (prevent_11_pairs v) (2 * k) = (k < 16 \<and> bit v (2 * k) \<and> \<not> bit v (2 * k + 1))"
    unfolding bit_prevent_11_pairs by (auto simp: pairs_spec_def)
  show "m_ect v = v mod 2 ^ 27 + 2 ^ 27 * min 26 (v div 2 ^ 27)"
    using m_ect_eq [OF assms] by (simp add: take_bit_eq_mod)
qed (simp_all only: bit_dicawics bit_dcsr simp_thms)

theorem csr_fields_witness:
  "m_ect (2 ^ 31 + 2 ^ 30 + 5) = (2 ^ 31 + 2 ^ 30 + 5) mod 2 ^ 27 + 2 ^ 27 * min 26 ((2 ^ 31 + 2 ^ 30 + 5) div 2 ^ 27)"
  using csr_fields [of "2 ^ 31 + 2 ^ 30 + 5"] by simp

section \<open>Writing back what was read\<close>

lemma mhpme_idem: "mhpme (mhpme x) = mhpme x"
  by (simp add: mhpme_def mhpme_zero_event_def)

lemma and_idem: "((x::int) AND m) AND m = x AND m"
  by (simp add: and.assoc)

lemma prevent_11_pairs_idem: "prevent_11_pairs (prevent_11_pairs v) = prevent_11_pairs v"
  by (rule bit_eqI) (auto simp: bit_prevent_11_pairs pairs_spec_def)

lemma dicawics_idem: "dicawics (dicawics v) = dicawics v"
  by (rule bit_eqI) (auto simp: bit_dicawics)

lemma dcsr_idem: "dcsr (dcsr v) = dcsr v"
  by (rule bit_eqI) (simp only: bit_dcsr, blast)

lemma m_ect_idem: "m_ect (m_ect v) = m_ect v"
proof (cases "drop_bit 27 v AND 0x1F > 26")
  case False
  then show ?thesis by (simp add: m_ect_def)
next
  case True
  have "drop_bit 27 (m_ect v) AND 0x1F = 26"
  proof -
    have "drop_bit 27 (v AND 0x07FFFFFF) = 0"
      by (rule bit_eqI) (simp add: bit_drop_bit_eq bit_and_iff bit_numeral_masks)
    with True show ?thesis by (simp add: m_ect_def drop_bit_or drop_bit_push_bit)
  qed
  then show ?thesis by (simp add: m_ect_def [of "m_ect v"])
qed

text \<open>
  Remark: every register is stable: writing back the value read from it changes nothing.
\<close>

theorem csr_out_idempotent:
  "list_all (\<lambda>c. \<forall>v. csr_out c (csr_out c v) = csr_out c v) csr_table"
  unfolding csr_table_def list.pred_inject
  by (simp add: CSR_def and_idem mhpme_idem prevent_11_pairs_idem dicawics_idem dcsr_idem m_ect_idem)

text \<open>
  Remark: two registers of the table have the same address: \<open>MFDC\<close> is declared at the address
  of \<open>MEICURPL\<close>, where the core has it at 0x7F9; all other addresses differ.
\<close>

theorem csr_address_clash:
  "\<not> distinct (map csr_addr csr_table) \<and>
   distinct (map csr_addr (filter (\<lambda>c. csr_name c \<noteq> ''MFDC'') csr_table))"
  by (simp add: csr_table_def CSR_def)

end
