(* ===== verification/Jtag_Tap.thy ===== *)
theory Jtag_Tap
  imports Py_Prelude
begin

text \<open>
  The state machine of the JTAG predictor, \<open>verification/block/dmi/jtag_predictor.py\<close> with the states
  of \<open>jtag_pkg.py\<close>. The predictor is called after every edge of the clock; \<open>tap_edge\<close> is one such call
  as a step relation and \<open>tap_run\<close> the runs. The shift and data registers are those of \<open>Jtag_Regs\<close>. The
  last section is the state machine test, \<open>test_dmi_tap_fsm.py\<close>.
\<close>

section \<open>Definitions\<close>

datatype JTAGStates =
    TEST_LOGIC_RESET_STATE
  | RUN_TEST_IDLE_STATE
  | SELECT_DR_SCAN_STATE
  | CAPTURE_DR_STATE
  | SHIFT_DR_STATE
  | EXIT1_DR_STATE
  | PAUSE_DR_STATE
  | EXIT2_DR_STATE
  | UPDATE_DR_STATE
  | SELECT_IR_SCAN_STATE
  | CAPTURE_IR_STATE
  | SHIFT_IR_STATE
  | EXIT1_IR_STATE
  | PAUSE_IR_STATE
  | EXIT2_IR_STATE
  | UPDATE_IR_STATE

record jtag_fsm =
  js_state :: JTAGStates
  js_nstate :: JTAGStates
  js_prev_nstate :: JTAGStates

text \<open>The pins read by the state machine: test mode select and the active-low test reset.\<close>

record tap_pins =
  tms :: int
  trst_n :: int

definition jtag_init :: jtag_fsm where
  "jtag_init = \<lparr>js_state = TEST_LOGIC_RESET_STATE, js_nstate = TEST_LOGIC_RESET_STATE,
     js_prev_nstate = TEST_LOGIC_RESET_STATE\<rparr>"

text \<open>The chain of tests on the current state.\<close>

definition nstate_of :: "int \<Rightarrow> JTAGStates \<Rightarrow> JTAGStates" where
  "nstate_of t s = (case s of
     TEST_LOGIC_RESET_STATE \<Rightarrow> if t = 1 then TEST_LOGIC_RESET_STATE else RUN_TEST_IDLE_STATE
   | RUN_TEST_IDLE_STATE \<Rightarrow> if t = 1 then SELECT_DR_SCAN_STATE else RUN_TEST_IDLE_STATE
   | SELECT_DR_SCAN_STATE \<Rightarrow> if t = 1 then SELECT_IR_SCAN_STATE else CAPTURE_DR_STATE
   | CAPTURE_DR_STATE \<Rightarrow> if t = 1 then EXIT1_DR_STATE else SHIFT_DR_STATE
   | SHIFT_DR_STATE \<Rightarrow> if t = 1 then EXIT1_DR_STATE else SHIFT_DR_STATE
   | EXIT1_DR_STATE \<Rightarrow> if t = 1 then UPDATE_DR_STATE else PAUSE_DR_STATE
   | PAUSE_DR_STATE \<Rightarrow> if t = 1 then EXIT2_DR_STATE else PAUSE_DR_STATE
   | EXIT2_DR_STATE \<Rightarrow> if t = 1 then UPDATE_DR_STATE else SHIFT_DR_STATE
   | UPDATE_DR_STATE \<Rightarrow> if t = 1 then SELECT_DR_SCAN_STATE else RUN_TEST_IDLE_STATE
   | SELECT_IR_SCAN_STATE \<Rightarrow> if t = 1 then TEST_LOGIC_RESET_STATE else CAPTURE_IR_STATE
   | CAPTURE_IR_STATE \<Rightarrow> if t = 1 then EXIT1_IR_STATE else SHIFT_IR_STATE
   | SHIFT_IR_STATE \<Rightarrow> if t = 1 then EXIT1_IR_STATE else SHIFT_IR_STATE
   | EXIT1_IR_STATE \<Rightarrow> if t = 1 then UPDATE_IR_STATE else PAUSE_IR_STATE
   | PAUSE_IR_STATE \<Rightarrow> if t = 1 then EXIT2_IR_STATE else PAUSE_IR_STATE
   | EXIT2_IR_STATE \<Rightarrow> if t = 1 then UPDATE_IR_STATE else SHIFT_IR_STATE
   | UPDATE_IR_STATE \<Rightarrow> if t = 1 then SELECT_DR_SCAN_STATE else RUN_TEST_IDLE_STATE)"

text \<open>
  \<open>update_nstate\<close>: the assignment made under test reset is followed by the chain of tests, which is
  not an \<open>else\<close> of it.
\<close>

definition update_nstate :: "tap_pins \<Rightarrow> jtag_fsm \<Rightarrow> jtag_fsm" where
  "update_nstate p s =
     (let s1 = s\<lparr>js_prev_nstate := js_nstate s\<rparr>;
          s2 = (if trst_n p = 0 then s1\<lparr>js_nstate := TEST_LOGIC_RESET_STATE\<rparr> else s1)
      in s2\<lparr>js_nstate := nstate_of (tms p) (js_state s2)\<rparr>)"

definition update_state :: "jtag_fsm \<Rightarrow> jtag_fsm" where
  "update_state s = s\<lparr>js_state := js_nstate s\<rparr>"

datatype clk_edge = Pos | Neg

text \<open>One call of \<open>predict_jtag_outputs\<close>, as far as the state machine goes.\<close>

inductive tap_edge :: "clk_edge \<times> tap_pins \<Rightarrow> jtag_fsm \<Rightarrow> jtag_fsm \<Rightarrow> bool" where
  pos: "tap_edge (Pos, p) s (update_state (update_nstate p s))"
| neg: "tap_edge (Neg, p) s (update_nstate p s)"

code_pred tap_edge .

inductive tap_run :: "(clk_edge \<times> tap_pins) list \<Rightarrow> jtag_fsm \<Rightarrow> jtag_fsm \<Rightarrow> bool" where
  stop: "tap_run [] s s"
| edge: "tap_edge e s s1 \<Longrightarrow> tap_run es s1 s2 \<Longrightarrow> tap_run (e # es) s s2"

inductive_cases tap_edgeE [elim!]: "tap_edge e s s'"
inductive_cases tap_run_NilE [elim!]: "tap_run [] s s'"
inductive_cases tap_run_ConsE [elim!]: "tap_run (e # es) s s'"

section \<open>Specification: the TAP controller\<close>

text \<open>The values of test mode select at the rising edges of a run.\<close>

definition tms_of :: "(clk_edge \<times> tap_pins) list \<Rightarrow> int list" where
  "tms_of es = map (\<lambda>e. tms (snd e)) (filter (\<lambda>e. fst e = Pos) es)"

lemma tms_of_simps [simp]:
  "tms_of [] = []"
  "tms_of ((Pos, p) # es) = tms p # tms_of es"
  "tms_of ((Neg, p) # es) = tms_of es"
  by (simp_all add: tms_of_def)

lemma update_nstate_simps [simp]:
  "js_state (update_nstate p s) = js_state s"
  "js_nstate (update_nstate p s) = nstate_of (tms p) (js_state s)"
  by (simp_all add: update_nstate_def Let_def)

lemma tap_run_state: "tap_run es s s' \<Longrightarrow> js_state s' = fold nstate_of (tms_of es) (js_state s)"
proof (induction es s s' rule: tap_run.induct)
  case (edge e s s1 es s2)
  from edge.hyps(1) have "js_state s2 = fold nstate_of (tms_of (e # es)) (js_state s)"
    by (cases rule: tap_edge.cases) (simp_all add: edge.IH update_state_def)
  then show ?case .
qed simp

lemma tap_run_total: "\<exists>s'. tap_run es s s'"
proof (induction es arbitrary: s)
  case (Cons e es)
  have "\<exists>s1. tap_edge e s s1"
    by (cases e; cases "fst e") (auto intro: tap_edge.intros)
  with Cons.IH show ?case by (meson tap_run.edge)
qed (blast intro: tap_run.stop)

lemma five_ones: "fold nstate_of (replicate 5 1) s = TEST_LOGIC_RESET_STATE"
  by (cases s) (simp_all add: nstate_of_def eval_nat_numeral)

lemma reset_stays: "fold nstate_of (replicate n 1) TEST_LOGIC_RESET_STATE = TEST_LOGIC_RESET_STATE"
  by (induction n) (simp_all add: nstate_of_def)

text \<open>
  Property C36: whatever the state, once test mode select has been held at 1 for five rising edges
  (with any falling edges between them) the predicted state is test-logic-reset, and stays there
  for as long as it is held; this is what the standard asks of a TAP controller. Every sequence of
  edges has a prediction.
\<close>

theorem tap_five_ones_reset:
  assumes "tms_of es = replicate (5 + n) 1"
  shows "\<exists>s'. tap_run es s s' \<and> js_state s' = TEST_LOGIC_RESET_STATE"
proof -
  obtain s' where run: "tap_run es s s'" using tap_run_total by blast
  have "js_state s' = fold nstate_of (replicate n 1) (fold nstate_of (replicate 5 1) (js_state s))"
    using tap_run_state [OF run] assms by (simp only: replicate_add fold_append comp_apply)
  then show ?thesis using run by (simp only: five_ones reset_stays) blast
qed

theorem tap_five_ones_reset_witness:
  "\<exists>s'. tap_run (concat (replicate 5 [(Pos, \<lparr>tms = 1, trst_n = 1\<rparr>), (Neg, \<lparr>tms = 1, trst_n = 1\<rparr>)]))
      (jtag_init\<lparr>js_state := PAUSE_DR_STATE\<rparr>) s' \<and> js_state s' = TEST_LOGIC_RESET_STATE"
  by (rule tap_five_ones_reset [where n = 0]) (simp add: eval_nat_numeral)

text \<open>
  Remark: the test reset has no effect on the predicted state: two runs whose edges differ in
  \<open>trst_n\<close> only predict the same states. So the assignment of \<open>update_nstate\<close> under test reset, and
  with it the asynchronous reset of the controller, is lost.
\<close>

theorem tap_ignores_trst:
  assumes "tap_run es s s'" and "tap_run fs s t'"
    and "map (\<lambda>e. (fst e, tms (snd e))) es = map (\<lambda>e. (fst e, tms (snd e))) fs"
  shows "js_state s' = js_state t'"
proof -
  have "tms_of es = map snd (filter (\<lambda>x. fst x = Pos) (map (\<lambda>e. (fst e, tms (snd e))) es))" for es
    by (simp add: tms_of_def filter_map comp_def)
  then have "tms_of es = tms_of fs" using assms(3) by metis
  with tap_run_state [OF assms(1)] tap_run_state [OF assms(2)] show ?thesis by simp
qed

theorem tap_ignores_trst_witness:
  "js_state (update_state (update_nstate \<lparr>tms = 0, trst_n = 0\<rparr> (jtag_init\<lparr>js_state := SHIFT_DR_STATE\<rparr>)))
   = js_state (update_state (update_nstate \<lparr>tms = 0, trst_n = 1\<rparr> (jtag_init\<lparr>js_state := SHIFT_DR_STATE\<rparr>)))"
  by (rule tap_ignores_trst [OF tap_run.edge [OF tap_edge.pos tap_run.stop] tap_run.edge [OF tap_edge.pos tap_run.stop]])
    simp

section \<open>The test of the state machine\<close>

text \<open>
  \<open>test_dmi_tap_fsm.py\<close>: the table of test mode select by transition, the path the test takes, and the values the test
  drives along it; a pair that is not in the table raises.
\<close>

definition TAP_TRANSITIONS :: "((JTAGStates \<times> JTAGStates) \<times> int) list" where
  "TAP_TRANSITIONS =
     [((TEST_LOGIC_RESET_STATE, TEST_LOGIC_RESET_STATE), 1), ((TEST_LOGIC_RESET_STATE, RUN_TEST_IDLE_STATE), 0),
      ((RUN_TEST_IDLE_STATE, SELECT_DR_SCAN_STATE), 1), ((RUN_TEST_IDLE_STATE, RUN_TEST_IDLE_STATE), 0),
      ((SELECT_DR_SCAN_STATE, SELECT_IR_SCAN_STATE), 1), ((SELECT_DR_SCAN_STATE, CAPTURE_DR_STATE), 0), ((CAPTURE_DR_STATE, EXIT1_DR_STATE), 1),
      ((CAPTURE_DR_STATE, SHIFT_DR_STATE), 0), ((SHIFT_DR_STATE, EXIT1_DR_STATE), 1), ((SHIFT_DR_STATE, SHIFT_DR_STATE), 0),
      ((EXIT1_DR_STATE, UPDATE_DR_STATE), 1), ((EXIT1_DR_STATE, PAUSE_DR_STATE), 0), ((PAUSE_DR_STATE, EXIT2_DR_STATE), 1),
      ((PAUSE_DR_STATE, PAUSE_DR_STATE), 0), ((EXIT2_DR_STATE, UPDATE_DR_STATE), 1), ((EXIT2_DR_STATE, SHIFT_DR_STATE), 0),
      ((UPDATE_DR_STATE, SELECT_DR_SCAN_STATE), 1), ((UPDATE_DR_STATE, RUN_TEST_IDLE_STATE), 0),
      ((SELECT_IR_SCAN_STATE, TEST_LOGIC_RESET_STATE), 1), ((SELECT_IR_SCAN_STATE, CAPTURE_IR_STATE), 0),
      ((CAPTURE_IR_STATE, EXIT1_IR_STATE), 1), ((CAPTURE_IR_STATE, SHIFT_IR_STATE), 0), ((SHIFT_IR_STATE, EXIT1_IR_STATE), 1),
      ((SHIFT_IR_STATE, SHIFT_IR_STATE), 0), ((EXIT1_IR_STATE, UPDATE_IR_STATE), 1), ((EXIT1_IR_STATE, PAUSE_IR_STATE), 0),
      ((PAUSE_IR_STATE, EXIT2_IR_STATE), 1), ((PAUSE_IR_STATE, PAUSE_IR_STATE), 0), ((EXIT2_IR_STATE, UPDATE_IR_STATE), 1),
      ((EXIT2_IR_STATE, SHIFT_IR_STATE), 0), ((UPDATE_IR_STATE, SELECT_DR_SCAN_STATE), 1), ((UPDATE_IR_STATE, RUN_TEST_IDLE_STATE), 0)]"

definition TEST_PATH :: "JTAGStates list" where
  "TEST_PATH =
     [TEST_LOGIC_RESET_STATE, TEST_LOGIC_RESET_STATE, RUN_TEST_IDLE_STATE, RUN_TEST_IDLE_STATE, SELECT_DR_SCAN_STATE, CAPTURE_DR_STATE,
      SHIFT_DR_STATE, SHIFT_DR_STATE, EXIT1_DR_STATE, PAUSE_DR_STATE, PAUSE_DR_STATE, EXIT2_DR_STATE, UPDATE_DR_STATE, SELECT_DR_SCAN_STATE,
      CAPTURE_DR_STATE, EXIT1_DR_STATE, PAUSE_DR_STATE, EXIT2_DR_STATE, UPDATE_DR_STATE, RUN_TEST_IDLE_STATE, SELECT_DR_SCAN_STATE,
      CAPTURE_DR_STATE, EXIT1_DR_STATE, PAUSE_DR_STATE, EXIT2_DR_STATE, SHIFT_DR_STATE, EXIT1_DR_STATE, UPDATE_DR_STATE, RUN_TEST_IDLE_STATE,
      SELECT_DR_SCAN_STATE, SELECT_IR_SCAN_STATE, CAPTURE_IR_STATE, SHIFT_IR_STATE, SHIFT_IR_STATE, EXIT1_IR_STATE, PAUSE_IR_STATE,
      PAUSE_IR_STATE, EXIT2_IR_STATE, SHIFT_IR_STATE, EXIT1_IR_STATE, PAUSE_IR_STATE, EXIT2_IR_STATE, UPDATE_IR_STATE, SELECT_DR_SCAN_STATE,
      SELECT_IR_SCAN_STATE, TEST_LOGIC_RESET_STATE, RUN_TEST_IDLE_STATE, SELECT_DR_SCAN_STATE, SELECT_IR_SCAN_STATE, CAPTURE_IR_STATE,
      EXIT1_IR_STATE, UPDATE_IR_STATE]"

fun drive_path :: "JTAGStates list \<Rightarrow> int list py" where
  "drive_path (s0 # s1 # path) = (case map_of TAP_TRANSITIONS (s0, s1) of
     None \<Rightarrow> Inl KeyError
   | Some t \<Rightarrow> bind_py (drive_path (s1 # path)) (\<lambda>ts. Inr (t # ts)))"
| "drive_path path = Inr []"

lemma table_of_predictor: "map_of TAP_TRANSITIONS (s, s') = Some t \<longleftrightarrow> t \<in> {0, 1} \<and> nstate_of t s = s'"
  by (cases s; cases s') (auto simp: TAP_TRANSITIONS_def nstate_of_def)

lemma drive_path_scan:
  "drive_path (s0 # path) = Inr ts \<Longrightarrow> set ts \<subseteq> {0, 1} \<and> path = map (\<lambda>n. fold nstate_of (take (Suc n) ts) s0) [0..<length ts]"
proof (induction path arbitrary: s0 ts)
  case (Cons s1 path)
  from Cons.prems obtain t us where t: "map_of TAP_TRANSITIONS (s0, s1) = Some t" "drive_path (s1 # path) = Inr us" "ts = t # us"
    by (auto simp: bind_py_eq_Inr split: option.splits)
  from t(1) have "t \<in> {0, 1}" "nstate_of t s0 = s1" unfolding table_of_predictor by simp_all
  with Cons.IH [OF t(2)] show ?case by (simp add: t(3) upt_conv_Cons map_Suc_upt [symmetric] comp_def del: upt_Suc)
qed simp

text \<open>
  Remark: the table of the state machine test is the predictor's transition function, so whenever the test drives a path
  the predicted states at the successive rising edges are those of the path.
\<close>

theorem tap_table_agrees:
  assumes "drive_path (s0 # path) = Inr ts"
  shows "set ts \<subseteq> {0, 1} \<and> (\<forall>n < length ts. fold nstate_of (take (Suc n) ts) s0 = path ! n) \<and> length path = length ts"
proof -
  note d = drive_path_scan [OF assms]
  then have "length path = length ts" by (metis length_map length_upt diff_zero)
  moreover have "path ! n = fold nstate_of (take (Suc n) ts) s0" if "n < length ts" for n
    using d that by (metis (no_types, lifting) add_0 diff_zero length_upt nth_map nth_upt)
  ultimately show ?thesis using d by simp
qed

theorem tap_table_agrees_witness:
  "set [0, 1, 0, 0 :: int] \<subseteq> {0, 1} \<and>
    (\<forall>n < length [0, 1, 0, 0 :: int]. fold nstate_of (take (Suc n) [0, 1, 0, 0]) TEST_LOGIC_RESET_STATE =
      [RUN_TEST_IDLE_STATE, SELECT_DR_SCAN_STATE, CAPTURE_DR_STATE, SHIFT_DR_STATE] ! n) \<and>
    length [RUN_TEST_IDLE_STATE, SELECT_DR_SCAN_STATE, CAPTURE_DR_STATE, SHIFT_DR_STATE] = length [0, 1, 0, 0 :: int]"
  by (rule tap_table_agrees) (simp add: TAP_TRANSITIONS_def)

text \<open>
  Remark: the path of the test can be driven, starts in test-logic-reset, and takes every transition of the table but one, from
  update-IR to run-test-idle.
\<close>

theorem tap_test_coverage:
  "\<not> isl (drive_path TEST_PATH) \<and> hd TEST_PATH = TEST_LOGIC_RESET_STATE \<and>
    set (zip TEST_PATH (tl TEST_PATH)) = fst ` set TAP_TRANSITIONS - {(UPDATE_IR_STATE, RUN_TEST_IDLE_STATE)}"
proof (intro conjI)
  show "\<not> isl (drive_path TEST_PATH)" by code_simp
  show "hd TEST_PATH = TEST_LOGIC_RESET_STATE" by code_simp
  show "set (zip TEST_PATH (tl TEST_PATH)) = fst ` set TAP_TRANSITIONS - {(UPDATE_IR_STATE, RUN_TEST_IDLE_STATE)}" by code_simp
qed

end
