(* ===== verification/Bin2hex.thy ===== *)
theory Bin2hex
  imports Bus_Utils
begin

text \<open>
  \<open>Honours-Project-Packet-Buffering/sw/bin2hex.py\<close>: a raw binary as the word-addressed hex text that
  Verilog's \<open>$readmemh\<close> loads. The files are their contents: bytes in, text out.
\<close>

section \<open>Definitions\<close>

text \<open>The conversion \<open>%08X\<close> of a number below 2 to the 32: eight upper-case hex digits.\<close>

definition hex_digit :: "int \<Rightarrow> char" where
  "hex_digit d = (if d < 10 then char_of (48 + nat d) else char_of (55 + nat d))"

fun hex_digits :: "nat \<Rightarrow> int \<Rightarrow> string" where
  "hex_digits 0 v = []"
| "hex_digits (Suc n) v = hex_digits n (v div 16) @ [hex_digit (v mod 16)]"

definition pad4 :: "bytes \<Rightarrow> bytes" where
  "pad4 data =
     (let remainder = length data mod 4
      in if remainder \<noteq> 0 then data @ replicate (4 - remainder) 0 else data)"

text \<open>\<open>struct.unpack('<' + 'I' * n, data)\<close> on \<open>4 * n\<close> bytes.\<close>

fun unpack_words :: "nat \<Rightarrow> bytes \<Rightarrow> int list" where
  "unpack_words 0 data = []"
| "unpack_words (Suc n) data = le_val (take 4 data) # unpack_words n (drop 4 data)"

definition bin_to_hex :: "bytes \<Rightarrow> string" where
  "bin_to_hex bin =
     (let data = pad4 bin;
          num_words = length data div 4;
          words = unpack_words num_words data
      in ''@00000000'' @ [CHR 0x0A] @ concat (map (\<lambda>w. hex_digits 8 w @ [CHR 0x0A]) words))"

section \<open>Reading the text back\<close>

text \<open>
  What a loader of such a text does: skip the address line, read eight digits and a line break per
  word, store each word in memory little end first.
\<close>

definition hex_val :: "char \<Rightarrow> int" where
  "hex_val c = (if of_char c < (58::nat) then int (of_char c) - 48 else int (of_char c) - 55)"

definition parse_hex :: "string \<Rightarrow> int" where
  "parse_hex s = foldl (\<lambda>v c. 16 * v + hex_val c) 0 s"

fun load_words :: "nat \<Rightarrow> string \<Rightarrow> bytes" where
  "load_words 0 s = []"
| "load_words (Suc n) s = le_bytes 4 (parse_hex (take 8 s)) @ load_words n (drop 9 s)"

definition load_hex :: "string \<Rightarrow> bytes" where
  "load_hex s = load_words ((length s - 10) div 9) (drop 10 s)"

lemma hex_val_digit: "0 \<le> d \<Longrightarrow> d < 16 \<Longrightarrow> hex_val (hex_digit d) = d"
  by (simp add: hex_val_def hex_digit_def) linarith

lemma length_hex_digits [simp]: "length (hex_digits n v) = n"
  by (induction n arbitrary: v) simp_all

lemma parse_hex_digits: "0 \<le> v \<Longrightarrow> v < 16 ^ n \<Longrightarrow> parse_hex (hex_digits n v) = v"
proof (induction n arbitrary: v)
  case (Suc n)
  from Suc.prems have "parse_hex (hex_digits n (v div 16)) = v div 16"
    by (intro Suc.IH) (simp_all add: div_less_iff_less_mult pos_imp_zdiv_nonneg_iff)
  then show ?case by (simp add: parse_hex_def hex_val_digit)
qed (simp add: parse_hex_def)

lemma is_bytes_take_drop: "is_bytes bs \<Longrightarrow> is_bytes (take n bs) \<and> is_bytes (drop n bs)"
  by (metis append_take_drop_id is_bytes_simps(3))

lemma load_unpacked:
  "is_bytes data \<Longrightarrow> length data = 4 * n \<Longrightarrow>
   load_words n (concat (map (\<lambda>w. hex_digits 8 w @ [CHR 0x0A]) (unpack_words n data))) = data"
proof (induction n arbitrary: data)
  case (Suc n)
  have b: "is_bytes (take 4 data)" "is_bytes (drop 4 data)"
    using is_bytes_take_drop [OF Suc.prems(1)] by simp_all
  have len: "length (take 4 data) = 4" using Suc.prems(2) by simp
  have v: "0 \<le> le_val (take 4 data)" "le_val (take 4 data) < 16 ^ 8"
    using le_val_bound [OF b(1)] len by simp_all
  have "le_bytes 4 (le_val (take 4 data)) = take 4 data"
    using le_bytes_le_val [OF b(1)] len by simp
  with v Suc.IH [OF b(2)] Suc.prems(2) show ?case
    by (simp add: parse_hex_digits)
qed simp

lemma length_words_text:
  "length (concat (map (\<lambda>w. hex_digits 8 w @ [CHR 0x0A]) ws)) = 9 * length ws"
  by (induction ws) simp_all

lemma length_unpack_words [simp]: "length (unpack_words n data) = n"
  by (induction n arbitrary: data) simp_all

lemma pad4_length: "\<exists>n. length (pad4 data) = 4 * n"
proof -
  have "length (pad4 data) mod 4 = 0"
  proof (cases "length data mod 4 = 0")
    case False
    then have "length (pad4 data) = length data + (4 - length data mod 4)" by (simp add: pad4_def Let_def)
    then show ?thesis by presburger
  qed (simp add: pad4_def)
  then show ?thesis by (metis mod_0_imp_dvd dvdE)
qed

text \<open>
  Property C38: loading the text that \<open>bin_to_hex\<close> writes gives back the bytes of the binary, followed
  by at most three zero bytes up to the next word boundary.
\<close>

theorem bin_to_hex_roundtrip:
  assumes "is_bytes data"
  shows "\<exists>k<4. load_hex (bin_to_hex data) = data @ replicate k 0 \<and> (length data + k) mod 4 = 0"
proof -
  obtain n where n: "length (pad4 data) = 4 * n" using pad4_length by blast
  have bytes: "is_bytes (pad4 data)"
    using assms by (simp add: pad4_def Let_def is_bytes_def list_all_iff)
  let ?ws = "concat (map (\<lambda>w. hex_digits 8 w @ [CHR 0x0A]) (unpack_words n (pad4 data)))"
  have "bin_to_hex data = ''@00000000'' @ [CHR 0x0A] @ ?ws" by (simp add: bin_to_hex_def Let_def n)
  then have "load_hex (bin_to_hex data) = load_words n ?ws"
    by (simp add: load_hex_def length_words_text)
  also have "\<dots> = pad4 data" by (rule load_unpacked [OF bytes n])
  finally have load: "load_hex (bin_to_hex data) = pad4 data" .
  show ?thesis
  proof (cases "length data mod 4 = 0")
    case True
    with load show ?thesis by (intro exI [of _ 0]) (simp add: pad4_def)
  next
    case False
    then have "(length data + (4 - length data mod 4)) mod 4 = 0" by presburger
    with False load show ?thesis
      by (intro exI [of _ "4 - length data mod 4"]) (simp add: pad4_def Let_def)
  qed
qed

theorem bin_to_hex_roundtrip_witness:
  "\<exists>k<4. load_hex (bin_to_hex [0x13, 0x05, 0xA0, 0x00, 0x67]) = [0x13, 0x05, 0xA0, 0x00, 0x67] @ replicate k 0 \<and>
     (length [0x13, 0x05, 0xA0, 0x00, 0x67 :: int] + k) mod 4 = 0"
  by (rule bin_to_hex_roundtrip) simp

end
