(* ===== verification/Dec_Ib.thy ===== *)
theory Dec_Ib
  imports Pic
begin

text \<open>
  The instruction buffer testbench, \<open>verification/block/dec_ib/testbench.py\<close>: debug commands become
  instructions. The opcodes come from an external assembler, which is the parameter \<open>get_opcode\<close>: the
  opcode of a line of assembly, or the exception of its call.
\<close>

section \<open>Definitions\<close>

datatype DebugCmdType = GPR | CSR | MEMORY

record debug_cmd =
  dc_write :: int
  dc_type :: DebugCmdType
  dc_addr :: nat

record ib_input_item =
  ib_debug_cmd :: debug_cmd
  ib_ifu_instr :: int

record ib_output_item =
  ib_instr :: int

definition type_code :: "DebugCmdType \<Rightarrow> int" where
  "type_code t = (case t of GPR \<Rightarrow> 0 | CSR \<Rightarrow> 1 | MEMORY \<Rightarrow> 2)"

text \<open>\<open>DebugCmdType(n)\<close> raises on a number that is not a member's.\<close>

definition type_of_code :: "int \<Rightarrow> DebugCmdType py" where
  "type_of_code n =
     (if n = 0 then Inr GPR else if n = 1 then Inr CSR else if n = 2 then Inr MEMORY else Inl ValueError)"

definition debug_asm :: "debug_cmd \<Rightarrow> string option" where
  "debug_asm c = (case dc_type c of
     GPR \<Rightarrow> Some (if dc_write c \<noteq> 0 then ''or x'' @ str_nat (dc_addr c) @ '', x0, x0''
                 else ''or x0, x'' @ str_nat (dc_addr c) @ '', x0'')
   | CSR \<Rightarrow> Some (if dc_write c \<noteq> 0 then ''csrrw x0, '' @ str_nat (dc_addr c) @ '', x0''
                 else ''csrrs x0, '' @ str_nat (dc_addr c) @ '', x0'')
   | MEMORY \<Rightarrow> None)"

definition debug_instr :: "(string \<Rightarrow> int py) \<Rightarrow> ib_input_item \<Rightarrow> int py" where
  "debug_instr get_opcode it =
     (case debug_asm (ib_debug_cmd it) of None \<Rightarrow> Inr 0 | Some line \<Rightarrow> get_opcode line)"

definition ib_drive :: "int \<Rightarrow> ib_input_item \<Rightarrow> action list" where
  "ib_drive period it =
     [Drive ''dbg_cmd_valid'' 1, Drive ''dbg_cmd_write'' (dc_write (ib_debug_cmd it)),
      Drive ''dbg_cmd_type'' (type_code (dc_type (ib_debug_cmd it))),
      Drive ''dbg_cmd_addr'' (int (dc_addr (ib_debug_cmd it))), Drive ''ifu_i0_instr'' (ib_ifu_instr it),
      Await (Timer period)]"

definition ib_input_sample :: "pins \<Rightarrow> ib_input_item py" where
  "ib_input_sample p =
     bind_py (type_of_code (p ''dbg_cmd_type''))
       (\<lambda>t. Inr \<lparr>ib_debug_cmd = \<lparr>dc_write = p ''dbg_cmd_write'', dc_type = t, dc_addr = nat (p ''dbg_cmd_addr'')\<rparr>,
                 ib_ifu_instr = p ''ifu_i0_instr''\<rparr>)"

definition ib_output_sample :: "pins \<Rightarrow> ib_output_item" where
  "ib_output_sample p = \<lparr>ib_instr = p ''dec_i0_instr_d''\<rparr>"

definition ib_judge :: "(string \<Rightarrow> int py) \<Rightarrow> ib_input_item \<Rightarrow> ib_output_item \<Rightarrow> bool py" where
  "ib_judge get_opcode inp out = bind_py (debug_instr get_opcode inp) (\<lambda>op. Inr (op = ib_instr out))"

definition ib_check_phase ::
  "(string \<Rightarrow> int py) \<Rightarrow> ('p \<Rightarrow> ib_input_item option \<times> 'p) \<Rightarrow> ('q \<Rightarrow> ib_output_item option \<times> 'q) \<Rightarrow> 'p \<Rightarrow> 'q
   \<Rightarrow> bool option py option" where
  "ib_check_phase get_opcode try_get_inp try_get_out port_inp port_out =
     pair_loop try_get_inp try_get_out (ib_judge get_opcode) port_inp port_out None"

text \<open>The random items: \<open>reg\<close> and \<open>csr\<close> are the addresses drawn below 2 to the 5 and 2 to the 12.\<close>

definition ib_sequence ::
  "nat \<Rightarrow> (nat \<Rightarrow> int) \<Rightarrow> (nat \<Rightarrow> bool) \<Rightarrow> (nat \<Rightarrow> nat) \<Rightarrow> (nat \<Rightarrow> nat) \<Rightarrow> (nat \<Rightarrow> int) \<Rightarrow> ib_input_item list" where
  "ib_sequence count write is_gpr reg csr instr =
     map (\<lambda>i. \<lparr>ib_debug_cmd = \<lparr>dc_write = write i, dc_type = (if is_gpr i then GPR else CSR),
                  dc_addr = (if is_gpr i then reg i else csr i)\<rparr>,
                ib_ifu_instr = instr i\<rparr>) [0..<count]"

definition ib_do_reset :: "action list" where
  "ib_do_reset =
     [Drive ''rst_l'' 0, Await (ClockCycles ''clk'' 2), Await (FallingEdge ''clk''), Drive ''rst_l'' 1]"

definition ib_run_phase :: "action list \<Rightarrow> action list" where
  "ib_run_phase run =
     ib_do_reset @ [Await (ClockCycles ''clk'' 2)] @ run @ [Await (ClockCycles ''clk'' 10)]"

section \<open>The bench\<close>

text \<open>What a debug command asks for, encoded by hand: \<open>or\<close>, \<open>csrrw\<close> and \<open>csrrs\<close> with \<open>x0\<close>.\<close>

definition debug_opcode :: "debug_cmd \<Rightarrow> int" where
  "debug_opcode c = (case dc_type c of
     GPR \<Rightarrow> if dc_write c \<noteq> 0 then 0x6033 + 2 ^ 7 * int (dc_addr c) else 0x6033 + 2 ^ 15 * int (dc_addr c)
   | CSR \<Rightarrow> (if dc_write c \<noteq> 0 then 0x1073 else 0x2073) + 2 ^ 20 * int (dc_addr c)
   | MEMORY \<Rightarrow> 0)"

text \<open>
  What the bench relies on of the assembler: it knows these instructions, for the registers and
  CSRs there are.
\<close>

definition assembles :: "(string \<Rightarrow> int py) \<Rightarrow> bool" where
  "assembles get_opcode \<longleftrightarrow>
     (\<forall>r<32. get_opcode (''or x'' @ str_nat r @ '', x0, x0'') = Inr (0x6033 + 2 ^ 7 * int r) \<and>
             get_opcode (''or x0, x'' @ str_nat r @ '', x0'') = Inr (0x6033 + 2 ^ 15 * int r)) \<and>
     (\<forall>c<4096. get_opcode (''csrrw x0, '' @ str_nat c @ '', x0'') = Inr (0x1073 + 2 ^ 20 * int c) \<and>
               get_opcode (''csrrs x0, '' @ str_nat c @ '', x0'') = Inr (0x2073 + 2 ^ 20 * int c))"

definition cmd_ok :: "debug_cmd \<Rightarrow> bool" where
  "cmd_ok c \<longleftrightarrow> (case dc_type c of GPR \<Rightarrow> dc_addr c < 32 | CSR \<Rightarrow> dc_addr c < 4096 | MEMORY \<Rightarrow> True)"

lemma debug_instr_opcode:
  "assembles g \<Longrightarrow> cmd_ok (ib_debug_cmd it) \<Longrightarrow> debug_instr g it = Inr (debug_opcode (ib_debug_cmd it))"
  by (auto simp: debug_instr_def debug_asm_def debug_opcode_def assembles_def cmd_ok_def
      split: DebugCmdType.splits)

lemma ib_judge_cases:
  "ib_judge g i out = (case debug_instr g i of Inl e \<Rightarrow> Inl e | Inr op \<Rightarrow> Inr (op = ib_instr out))"
  by (simp add: ib_judge_def bind_py_def)

interpretation ibsb: pair_scoreboard "ib_judge g" "\<lambda>i. \<exists>op. debug_instr g i = Inr op"
  "\<lambda>i out. debug_instr g i = Inr (ib_instr out)" "\<lambda>i. case debug_instr g i of Inl e \<Rightarrow> e | Inr _ \<Rightarrow> ValueError" for g
  by unfold_locales (auto simp: ib_judge_cases split: sum.splits)

lemma ib_sequence_ok:
  "(\<forall>i. reg i < 32 \<and> csr i < 4096) \<Longrightarrow> list_all (\<lambda>it. cmd_ok (ib_debug_cmd it)) (ib_sequence n w g reg csr ins)"
  by (auto simp: ib_sequence_def list_all_iff cmd_ok_def split: DebugCmdType.splits)


text \<open>An assembler for these lines, to evaluate the bench with.\<close>

definition is_digit :: "char \<Rightarrow> bool" where
  "is_digit c \<longleftrightarrow> 48 \<le> (of_char c :: nat) \<and> (of_char c :: nat) < 58"

definition number_at :: "nat \<Rightarrow> string \<Rightarrow> int" where
  "number_at i line = int (int_str (takeWhile is_digit (drop i line)))"

definition small_assembler :: "string \<Rightarrow> int py" where
  "small_assembler line =
     (if take 8 line = ''csrrw x0'' then Inr (0x1073 + 2 ^ 20 * number_at 10 line)
      else if take 8 line = ''csrrs x0'' then Inr (0x2073 + 2 ^ 20 * number_at 10 line)
      else if take 8 line = ''or x0, x'' then Inr (0x6033 + 2 ^ 15 * number_at 8 line)
      else Inr (0x6033 + 2 ^ 7 * number_at 4 line))"

lemma dec_digit_zero: "dec_digit 0 = CHR ''0''"
  by code_simp

lemma str_nat_digits: "list_all is_digit (str_nat n)"
proof (induction n rule: str_nat.induct)
  case (1 n)
  have d: "is_digit (dec_digit k)" if "k < 10" for k using that by (simp add: is_digit_def dec_digit_val)
  show ?case
    by (cases "n < 10"; subst str_nat.simps) (use 1 d in \<open>auto simp: d\<close>)
qed

lemma takeWhile_str_nat: "takeWhile is_digit (str_nat n @ CHR '','' # s) = str_nat n"
  using str_nat_digits [of n] by (simp add: takeWhile_append2 list_all_iff is_digit_def)

lemma str_nat_zero: "str_nat n @ CHR '','' # s = CHR ''0'' # CHR '','' # t \<Longrightarrow> n = 0"
proof -
  assume eq: "str_nat n @ CHR '','' # s = CHR ''0'' # CHR '','' # t"
  have "str_nat n = takeWhile is_digit (CHR ''0'' # CHR '','' # t)"
    using takeWhile_str_nat [of n s] eq by simp
  also have "\<dots> = str_nat 0" by (simp add: is_digit_def str_nat.simps dec_digit_zero)
  finally show ?thesis by (simp add: str_nat_inject)
qed

lemma small_assembler_assembles: "assembles small_assembler"
proof -
  have or_write: "small_assembler (''or x'' @ str_nat r @ '', x0, x0'') = Inr (0x6033 + 2 ^ 7 * int r)" for r
  proof (cases "r = 0")
    case True
    have "str_nat 0 = ''0''" by (simp add: str_nat.simps dec_digit_zero)
    then show ?thesis
      using True by (simp add: small_assembler_def number_at_def is_digit_def int_str_def)
  next
    case False
    have "take 8 (''or x'' @ str_nat r @ '', x0, x0'') \<noteq> ''or x0, x''"
    proof
      assume "take 8 (''or x'' @ str_nat r @ '', x0, x0'') = ''or x0, x''"
      then have t: "take 4 (str_nat r @ '', x0, x0'') = ''0, x''" by simp
      then have "str_nat r @ '', x0, x0'' = ''0, x'' @ drop 4 (str_nat r @ '', x0, x0'')"
        by (metis append_take_drop_id)
      then have "r = 0" by (intro str_nat_zero [of r "'' x0, x0''" "'' x'' @ drop 4 (str_nat r @ '', x0, x0'')"]) simp
      with False show False ..
    qed
    then show ?thesis
      by (simp add: small_assembler_def number_at_def takeWhile_str_nat int_str_str_nat)
  qed
  have "small_assembler (''or x0, x'' @ str_nat r @ '', x0'') = Inr (0x6033 + 2 ^ 15 * int r)" for r
    by (simp add: small_assembler_def number_at_def takeWhile_str_nat int_str_str_nat)
  moreover have "small_assembler (''csrrw x0, '' @ str_nat c @ '', x0'') = Inr (0x1073 + 2 ^ 20 * int c)" for c
    by (simp add: small_assembler_def number_at_def takeWhile_str_nat int_str_str_nat)
  moreover have "small_assembler (''csrrs x0, '' @ str_nat c @ '', x0'') = Inr (0x2073 + 2 ^ 20 * int c)" for c
    by (simp add: small_assembler_def number_at_def takeWhile_str_nat int_str_str_nat)
  ultimately show ?thesis
    unfolding assembles_def using or_write by blast
qed


end
