(* ===== verification/Trace_Log.thy ===== *)
theory Trace_Log
  imports Py_Prelude
begin

text \<open>
  \<open>tools/riscv-dv/veer_log_to_trace_csv.py\<close>: the parser that turns the execution log of the core into
  an instruction trace. Loads and divisions may write their register later than they execute; the
  log has separate \<open>nbL\<close> and \<open>nbD\<close> lines for these writes, and the parser keeps a queue in which it
  correlates them with their instructions.

  A line of the log is what the two regular expressions of the source make of it: the groups of
  an instruction line, of a delayed-write line, or neither. An entry of the trace is an object of
  riscv-dv; of its class only the fields used are known, and \<open>new\<close> is the object its constructor
  makes. Entries in the queue are updated in place; an index stands for the reference.
\<close>

section \<open>Strings\<close>

definition is_space :: "char \<Rightarrow> bool" where
  "is_space c \<longleftrightarrow> c \<in> {CHR '' '', CHR 0x09, CHR 0x0A, CHR 0x0B, CHR 0x0C, CHR 0x0D}"

function split_ws :: "string \<Rightarrow> string list" where
  "split_ws s =
     (let t = dropWhile is_space s
      in if t = [] then []
         else takeWhile (Not \<circ> is_space) t # split_ws (dropWhile (Not \<circ> is_space) t))"
  by pat_completeness auto

termination
proof (relation "measure length")
  fix s t :: string
  assume t: "t = dropWhile is_space s" "t \<noteq> []"
  from t(2) obtain c cs where c: "t = c # cs" unfolding neq_Nil_conv by blast
  have "\<not> is_space c" using t c by (metis hd_dropWhile list.sel(1))
  then have "length (dropWhile (Not \<circ> is_space) t) \<le> length cs"
    using c by (simp add: length_dropWhile_le)
  also have "\<dots> < length t" using c by simp
  also have "\<dots> \<le> length s" using t by (simp add: length_dropWhile_le)
  finally show "(dropWhile (Not \<circ> is_space) t, s) \<in> measure length" by simp
qed simp

declare split_ws.simps [simp del]

fun split_on :: "char \<Rightarrow> string \<Rightarrow> string list" where
  "split_on c [] = [[]]"
| "split_on c (x # xs) =
     (if x = c then [] # split_on c xs
      else case split_on c xs of [] \<Rightarrow> [[x]] | w # ws \<Rightarrow> (x # w) # ws)"

section \<open>Lines and entries\<close>

record instr_groups =
  g_reg :: "string option"
  g_val :: "string option"
  g_csr :: "string option"
  g_csr_val :: "string option"
  g_pc :: string
  g_opc :: string
  g_mnemonic :: string

record nb_groups =
  n_reg :: string
  n_val :: string
  n_mnemonic :: string

type_synonym log_line = "instr_groups option \<times> nb_groups option"

record trace_entry =
  te_pc :: string
  te_binary :: string
  te_operand :: string
  te_mode :: string
  te_gpr :: "string list"
  te_csr :: "string list"

definition LD_MNEMONICS :: "string list" where
  "LD_MNEMONICS = [''lb'', ''lbu'', ''lh'', ''lhu'', ''lw'', ''c.lw'', ''c.lwsp'']"

definition DIV_MNEMONICS :: "string list" where
  "DIV_MNEMONICS = [''div'', ''divu'', ''rem'', ''remu'']"

definition pair_text :: "string option \<Rightarrow> string option \<Rightarrow> string option" where
  "pair_text reg val = (case (reg, val) of
     (Some r, Some v) \<Rightarrow> if r \<noteq> [] \<and> v \<noteq> [] then Some (r @ '':'' @ v) else None
   | _ \<Rightarrow> None)"

definition operands_of :: "string list \<Rightarrow> string list" where
  "operands_of flds = (case flds of _ # ops # _ \<Rightarrow> split_on CHR '','' ops | _ \<Rightarrow> [])"

section \<open>The searches\<close>

text \<open>
  \<open>for ent in reversed(queue)\<close> for an instruction without its write: the index of the newest
  delayed write of the right kind and register.
\<close>

fun find_nb :: "string \<Rightarrow> string \<Rightarrow> trace_entry list \<Rightarrow> nat \<Rightarrow> nat option py" where
  "find_nb mnemonic dst queue 0 = Inr None"
| "find_nb mnemonic dst queue (Suc i) =
     (let ent = queue ! i
      in if (te_operand ent = ''nbL'' \<and> mnemonic \<in> set LD_MNEMONICS) \<or>
            (te_operand ent = ''nbD'' \<and> mnemonic \<in> set DIV_MNEMONICS)
         then (case te_gpr ent of
                 [] \<Rightarrow> Inl AssertionError
               | g # _ \<Rightarrow>
                   (case split_on CHR '':'' g of
                      [reg, val] \<Rightarrow> if reg = dst then Inr (Some i) else find_nb mnemonic dst queue i
                    | _ \<Rightarrow> Inl ValueError))
         else find_nb mnemonic dst queue i)"

text \<open>The same for a delayed write: the newest instruction of the right kind with that register.\<close>

fun find_instr :: "string \<Rightarrow> string \<Rightarrow> trace_entry list \<Rightarrow> nat \<Rightarrow> nat option py" where
  "find_instr nb reg queue 0 = Inr None"
| "find_instr nb reg queue (Suc i) =
     (let flds = split_ws (te_operand (queue ! i)); operands = operands_of flds
      in case flds of
           [] \<Rightarrow> Inl IndexError
         | mnemonic # _ \<Rightarrow>
             if (nb = ''nbL'' \<and> mnemonic \<in> set LD_MNEMONICS) \<or>
                (nb = ''nbD'' \<and> mnemonic \<in> set DIV_MNEMONICS)
             then (case operands of
                     [] \<Rightarrow> Inl AssertionError
                   | op # _ \<Rightarrow> if reg = op then Inr (Some i) else find_instr nb reg queue i)
             else find_instr nb reg queue i)"

section \<open>One line\<close>

text \<open>How a line leaves the loop body: on to the dequeuing, \<open>continue\<close>, or \<open>break\<close>.\<close>

datatype 'a flow = Go 'a | Skip 'a | Stop 'a

definition fill_entry :: "instr_groups \<Rightarrow> string option \<Rightarrow> string option \<Rightarrow> trace_entry \<Rightarrow> trace_entry" where
  "fill_entry g gpr csr e =
     e\<lparr>te_pc := g_pc g, te_binary := g_opc g, te_operand := g_mnemonic g, te_mode := ''0'',
       te_gpr := te_gpr e @ (case gpr of None \<Rightarrow> [] | Some x \<Rightarrow> [x]),
       te_csr := te_csr e @ (case csr of None \<Rightarrow> [] | Some x \<Rightarrow> [x])\<rparr>"

definition instr_line ::
  "trace_entry \<Rightarrow> instr_groups \<Rightarrow> trace_entry list \<Rightarrow> trace_entry list flow py" where
  "instr_line new g queue =
     (let gpr = pair_text (g_reg g) (g_val g);
          csr = pair_text (g_csr g) (g_csr_val g);
          flds = split_ws (g_mnemonic g);
          operands = operands_of flds
      in case flds of
           [] \<Rightarrow> Inl IndexError
         | mnemonic # _ \<Rightarrow>
             (let delayed = mnemonic \<in> set (LD_MNEMONICS @ DIV_MNEMONICS)
              in if mnemonic = ''ecall'' then Inr (Stop queue)
                 else if gpr = None \<and> delayed then
                   (case operands of
                      [] \<Rightarrow> Inl IndexError
                    | dst # _ \<Rightarrow>
                        if dst = ''zero'' then Inr (Skip queue)
                        else bind_py (find_nb mnemonic dst queue (length queue))
                          (\<lambda>r. case r of
                             None \<Rightarrow> Inr (Go (queue @ [fill_entry g gpr csr new]))
                           | Some i \<Rightarrow> Inr (Go (queue[i := fill_entry g gpr csr (queue ! i)]))))
                 else if gpr \<noteq> None \<or> delayed then Inr (Go (queue @ [fill_entry g gpr csr new]))
                 else Inr (Go queue)))"

definition nb_line :: "trace_entry \<Rightarrow> nb_groups \<Rightarrow> trace_entry list \<Rightarrow> trace_entry list flow py" where
  "nb_line new n queue =
     (if n_reg n = [] \<or> n_val n = [] then Inl AssertionError
      else let gpr = n_reg n @ '':'' @ n_val n
        in if n_reg n = ''zero'' then Inr (Skip queue)
           else bind_py (find_instr (n_mnemonic n) (n_reg n) queue (length queue))
             (\<lambda>r. case r of
                None \<Rightarrow> Inr (Go (queue @ [new\<lparr>te_operand := n_mnemonic n, te_gpr := te_gpr new @ [gpr]\<rparr>]))
              | Some i \<Rightarrow> Inr (Go (queue[i := (queue ! i)\<lparr>te_gpr := te_gpr (queue ! i) @ [gpr]\<rparr>]))))"

definition complete :: "trace_entry \<Rightarrow> bool" where
  "complete e \<longleftrightarrow> te_pc e \<noteq> [] \<and> te_gpr e \<noteq> []"

fun dequeue :: "trace_entry list \<Rightarrow> trace_entry list \<Rightarrow> trace_entry list \<times> trace_entry list" where
  "dequeue data [] = (data, [])"
| "dequeue data (e # queue) = (if \<not> complete e then (data, e # queue) else dequeue (data @ [e]) queue)"

definition after_instr ::
  "trace_entry \<Rightarrow> log_line \<Rightarrow> trace_entry list \<Rightarrow> trace_entry list flow py" where
  "after_instr new line queue =
     (case snd line of None \<Rightarrow> Inr (Go queue) | Some n \<Rightarrow> nb_line new n queue)"

definition parse_line ::
  "trace_entry \<Rightarrow> log_line \<Rightarrow> trace_entry list \<times> trace_entry list
   \<Rightarrow> (trace_entry list \<times> trace_entry list) flow py" where
  "parse_line new line s =
     bind_py
       (case fst line of
          None \<Rightarrow> after_instr new line (snd s)
        | Some g \<Rightarrow> bind_py (instr_line new g (snd s))
            (\<lambda>f. case f of Go queue \<Rightarrow> after_instr new line queue | _ \<Rightarrow> Inr f))
       (\<lambda>f. case f of
          Skip queue \<Rightarrow> Inr (Skip (fst s, queue))
        | Stop queue \<Rightarrow> Inr (Stop (fst s, queue))
        | Go queue \<Rightarrow>
            (let (data, queue') = dequeue (fst s) queue
             in if length queue' \<ge> 1000 then Inl AssertionError else Inr (Go (data, queue'))))"

fun parse_lines ::
  "trace_entry \<Rightarrow> log_line list \<Rightarrow> trace_entry list \<times> trace_entry list \<Rightarrow> (trace_entry list \<times> trace_entry list) py" where
  "parse_lines new [] s = Inr s"
| "parse_lines new (line # lines) s =
     bind_py (parse_line new line s)
       (\<lambda>f. case f of Stop s' \<Rightarrow> Inr s' | Go s' \<Rightarrow> parse_lines new lines s' | Skip s' \<Rightarrow> parse_lines new lines s')"

definition parse_log :: "trace_entry \<Rightarrow> log_line list \<Rightarrow> trace_entry list py" where
  "parse_log new lines = bind_py (parse_lines new lines ([], [])) (\<lambda>s. Inr (fst s))"

section \<open>What leaves the queue\<close>

lemma dequeue_split:
  "dequeue data queue = (data @ takeWhile complete queue, dropWhile complete queue)"
  by (induction data queue rule: dequeue.induct) simp_all

definition flow_val :: "'a flow \<Rightarrow> 'a" where
  "flow_val f = (case f of Go x \<Rightarrow> x | Skip x \<Rightarrow> x | Stop x \<Rightarrow> x)"

text \<open>The data only grow: what was emitted is never changed again.\<close>

lemma parse_line_data:
  assumes "parse_line new line s = Inr f"
  shows "\<exists>more. fst (flow_val f) = fst s @ more \<and> list_all complete more"
proof -
  obtain r where r: "(case r of
          Skip queue \<Rightarrow> Inr (Skip (fst s, queue))
        | Stop queue \<Rightarrow> Inr (Stop (fst s, queue))
        | Go queue \<Rightarrow>
            (let (data, queue') = dequeue (fst s) queue
             in if length queue' \<ge> 1000 then Inl AssertionError else Inr (Go (data, queue')))) = Inr f"
    using assms unfolding parse_line_def bind_py_eq_Inr by blast
  show ?thesis
  proof (cases r)
    case (Go q)
    with r have "f = Go (fst s @ takeWhile complete q, dropWhile complete q)"
      by (simp add: dequeue_split Let_def split: if_splits)
    then show ?thesis by (auto simp: flow_val_def list_all_iff dest: set_takeWhileD)
  qed (use r in \<open>auto simp: flow_val_def\<close>)
qed

lemma parse_lines_step:
  assumes "parse_lines new (x # xs) s = Inr s2"
  obtains s' where "parse_line new x s = Inr (Stop s')" "s2 = s'"
  | f where "parse_line new x s = Inr f" "\<And>s'. f \<noteq> Stop s'"
      "\<And>zs. parse_lines new (x # zs) s = parse_lines new zs (flow_val f)"
proof -
  obtain f where f: "parse_line new x s = Inr f"
    using assms by (auto simp: bind_py_eq_Inr)
  show thesis
    by (cases f) (use f assms that in \<open>auto simp: flow_val_def\<close>)
qed

lemma parse_lines_data:
  "parse_lines new ys s = Inr s2 \<Longrightarrow> \<exists>more. fst s2 = fst s @ more \<and> list_all complete more"
proof (induction ys arbitrary: s)
  case (Cons y ys)
  from Cons.prems show ?case
  proof (cases rule: parse_lines_step)
    case 1
    with parse_line_data [OF 1(1)] show ?thesis by (simp add: flow_val_def)
  next
    case (2 f)
    with Cons.prems have "parse_lines new ys (flow_val f) = Inr s2" by simp
    from Cons.IH [OF this] obtain m2 where "fst s2 = fst (flow_val f) @ m2" "list_all complete m2" by blast
    with parse_line_data [OF 2(1)] show ?thesis by auto
  qed
qed simp

lemma parse_lines_append:
  assumes "parse_lines new xs s = Inr s1" and "parse_lines new (xs @ ys) s = Inr s2"
  shows "\<exists>more. fst s2 = fst s1 @ more \<and> list_all complete more"
  using assms
proof (induction xs arbitrary: s)
  case Nil
  then show ?case using parse_lines_data by simp
next
  case (Cons x xs)
  from Cons.prems(1) show ?case
  proof (cases rule: parse_lines_step)
    case 1
    with Cons.prems show ?thesis by simp
  next
    case (2 f)
    with Cons.prems show ?thesis by (intro Cons.IH [of "flow_val f"]) simp_all
  qed
qed

text \<open>A run with a load whose write comes after the next instruction.\<close>

definition entry0 :: trace_entry where
  "entry0 = \<lparr>te_pc = [], te_binary = [], te_operand = [], te_mode = [], te_gpr = [], te_csr = []\<rparr>"

definition lw_groups :: instr_groups where
  "lw_groups = \<lparr>g_reg = None, g_val = None, g_csr = None, g_csr_val = None, g_pc = ''80'',
     g_opc = ''2503'', g_mnemonic = ''lw a0,0(s0)''\<rparr>"

definition add_groups :: instr_groups where
  "add_groups = \<lparr>g_reg = Some ''a1'', g_val = Some ''07'', g_csr = None, g_csr_val = None, g_pc = ''84'',
     g_opc = ''0533'', g_mnemonic = ''add a1,s0,s1''\<rparr>"

definition lw_write :: nb_groups where
  "lw_write = \<lparr>n_reg = ''a0'', n_val = ''2a'', n_mnemonic = ''nbL''\<rparr>"

text \<open>
  Remark: every entry of the trace is complete, that is, it has a program counter and at least
  one register write; and the trace is final: parsing more lines only adds entries at its end.
\<close>

theorem parse_log_final:
  assumes "parse_log new xs = Inr d1" and "parse_log new (xs @ ys) = Inr d2"
  shows "list_all complete d2 \<and> (\<exists>more. d2 = d1 @ more)"
proof -
  obtain s1 s2 where s1: "parse_lines new xs ([], []) = Inr s1" "d1 = fst s1"
    and s2: "parse_lines new (xs @ ys) ([], []) = Inr s2" "d2 = fst s2"
    using assms by (auto simp: parse_log_def bind_py_eq_Inr)
  have "list_all complete (fst s2)" using parse_lines_data [OF s2(1)] by auto
  with parse_lines_append [OF s1(1) s2(1)] s1(2) s2(2) show ?thesis by auto
qed

theorem parse_log_final_witness:
  "list_all complete (fill_entry lw_groups (Some ''a0:2a'') None entry0 # [fill_entry add_groups (Some ''a1:07'') None entry0])"
proof -
  define d where "d = [fill_entry lw_groups (Some ''a0:2a'') None entry0, fill_entry add_groups (Some ''a1:07'') None entry0]"
  have "parse_log entry0 [(Some lw_groups, None), (Some add_groups, None)] = Inr []"
    by code_simp
  moreover have "parse_log entry0 ([(Some lw_groups, None), (Some add_groups, None)] @ [(None, Some lw_write)]) = Inr d"
    unfolding d_def by code_simp
  ultimately show ?thesis using parse_log_final unfolding d_def by blast
qed

section \<open>Correlating a delayed write with its instruction\<close>

definition same_kind :: "string \<Rightarrow> string \<Rightarrow> bool" where
  "same_kind nb m \<longleftrightarrow>
     (nb = ''nbL'' \<and> m \<in> set LD_MNEMONICS) \<or> (nb = ''nbD'' \<and> m \<in> set DIV_MNEMONICS)"

lemma same_kind_delayed:
  "same_kind nb m \<Longrightarrow> m \<in> set (LD_MNEMONICS @ DIV_MNEMONICS) \<and> m \<noteq> ''ecall''"
  by (auto simp: same_kind_def LD_MNEMONICS_def DIV_MNEMONICS_def)

lemma split_on_no_sep: "c \<notin> set s \<Longrightarrow> split_on c s = [s]"
  by (induction s) auto

lemma split_on_pair:
  "c \<notin> set r \<Longrightarrow> c \<notin> set v \<Longrightarrow> split_on c (r @ c # v) = [r, v]"
  by (induction r) (auto simp: split_on_no_sep)

text \<open>An entry without its write, and the write alone, both block the queue they are appended to.\<close>

lemma dequeue_blocked:
  "\<not> complete (hd (queue @ [e])) \<Longrightarrow> dequeue data (queue @ [e]) = (data, queue @ [e])"
  by (cases queue) simp_all



end
