(* ===== verification/Pmp.thy ===== *)
theory Pmp
  imports Pic "HOL-Library.AList"
begin

text \<open>
  The physical memory protection benches: \<open>verification/block/pmp/testbench.py\<close> with
  \<open>pmp/common.py\<close>, and \<open>verification/block/pmp_random/testbench.py\<close>.

  The registers are a dictionary of \<open>BinaryValue\<close> objects of cocotb. A register is represented by its
  number, and what the bench calls on it is a parameter \<open>binary_value\<close>: reading a bit and a slice,
  storing a number, and \<open>value[i].value = 0\<close>, the effect of which on \<open>value\<close> depends on whether an
  item of a \<open>BinaryValue\<close> is a copy or a view. The reading and storing operations have their
  documented meaning (\<open>bv_reads\<close>, \<open>bv_stores\<close>); for the last one both meanings are considered.

  The scoreboard is shown to agree with the privileged specification on disabled and top-of-range
  entries; for the two naturally aligned modes, exactly where it does is stated.
\<close>

section \<open>Registers\<close>

record binary_value =
  bv_item :: "int \<Rightarrow> nat \<Rightarrow> int"
  bv_slice :: "int \<Rightarrow> nat \<Rightarrow> nat \<Rightarrow> int"
  bv_item_zero :: "int \<Rightarrow> nat \<Rightarrow> int"
  bv_store :: "nat \<Rightarrow> int \<Rightarrow> int"

type_synonym pmp_regs = "(string \<times> int) list"

definition pmpcfg_name :: "nat \<Rightarrow> string" where
  "pmpcfg_name i = ''pmpcfg'' @ str_nat i"

definition pmpaddr_name :: "nat \<Rightarrow> string" where
  "pmpaddr_name i = ''pmpaddr'' @ str_nat i"

definition pmp_RegisterMap :: "nat \<Rightarrow> pmp_regs" where
  "pmp_RegisterMap pmp_entries =
     fold (\<lambda>i reg. AList.update (pmpaddr_name i) 0 (AList.update (pmpcfg_name i) 0 reg)) [0..<pmp_entries] []"

definition dict_get :: "string \<Rightarrow> pmp_regs \<Rightarrow> int py" where
  "dict_get k reg = (case map_of reg k of None \<Rightarrow> Inl KeyError | Some v \<Rightarrow> Inr v)"

text \<open>\<open>None\<close>, the pair of a range, or the entry with its permissions and its lock.\<close>

datatype entry_cfg =
    CfgNone
  | CfgRange int int
  | CfgEntry int int "string \<rightharpoonup> int" int

fun napot_loop :: "binary_value \<Rightarrow> nat list \<Rightarrow> int \<Rightarrow> nat \<Rightarrow> int \<times> nat" where
  "napot_loop bv [] v napot = (v, napot)"
| "napot_loop bv (i # is) v napot =
     (if bv_item bv v i = 1 then napot_loop bv is (bv_item_zero bv v i) (napot + 1)
      else napot_loop bv is v napot)"

text \<open>
  Returns the decoded entry and the registers: in the last mode \<open>start_address\<close> is the register
  object itself, so the loop may change the register.
\<close>

definition decoded :: "bool \<Rightarrow> int \<Rightarrow> int \<Rightarrow> (string \<rightharpoonup> int) \<Rightarrow> int \<Rightarrow> entry_cfg" where
  "decoded range_only start_address end_address permissions locked =
     (if range_only then CfgRange start_address (end_address - 1)
      else CfgEntry start_address (end_address - 1) permissions locked)"

definition getDecodedEntryCfg ::
  "binary_value \<Rightarrow> pmp_regs \<Rightarrow> nat \<Rightarrow> bool \<Rightarrow> (entry_cfg \<times> pmp_regs) py" where
  "getDecodedEntryCfg bv reg index range_only =
     bind_py (dict_get (pmpcfg_name index) reg) (\<lambda>pmpcfg.
     bind_py (dict_get (pmpaddr_name index) reg) (\<lambda>pmpaddr.
     (let permissions = [''R'' \<mapsto> bv_item bv pmpcfg 0, ''W'' \<mapsto> bv_item bv pmpcfg 1, ''X'' \<mapsto> bv_item bv pmpcfg 2];
          address_matching = bv_slice bv pmpcfg 4 3;
          locked = bv_item bv pmpcfg 7
      in bind_py (if index \<noteq> 0
                  then bind_py (dict_get (pmpaddr_name (index - 1)) reg) (\<lambda>a. Inr (push_bit 2 a))
                  else Inr 0) (\<lambda>start_address.
         if address_matching = 0 then
           Inr (if range_only then CfgRange start_address (push_bit 2 pmpaddr) else CfgNone, reg)
         else if address_matching = 1 then
           (let end_address = push_bit 2 pmpaddr
            in if start_address > end_address
               then Inr (if range_only then CfgRange start_address end_address else CfgNone, reg)
               else Inr (decoded range_only start_address end_address permissions locked, reg))
         else if address_matching = 2 then
           Inr (decoded range_only start_address (push_bit 2 pmpaddr + 4) permissions locked, reg)
         else if address_matching = 3 then
           (let (v, napot) = napot_loop bv [0..<32] pmpaddr 3;
                start_address = push_bit 2 v
            in Inr (decoded range_only start_address (start_address + 2 ^ napot) permissions locked,
                    AList.update (pmpaddr_name index) v reg))
         else Inl UnboundLocalError))))"

section \<open>Items, driver, monitor\<close>

datatype pmp_item =
    PMPWriteCfgCSRItem nat int
  | PMPWriteAddrCSRItem nat int
  | PMPCheckItem nat int int "int option"

definition pin_at :: "string \<Rightarrow> nat \<Rightarrow> string" where
  "pin_at s i = s @ ''['' @ str_nat i @ '']''"

definition reg_assign :: "binary_value \<Rightarrow> string \<Rightarrow> nat \<Rightarrow> int \<Rightarrow> pmp_regs \<Rightarrow> pmp_regs py" where
  "reg_assign bv k n_bits v reg =
     bind_py (dict_get k reg) (\<lambda>_. Inr (AList.update k (bv_store bv n_bits v) reg))"

fun pmp_drive :: "binary_value \<Rightarrow> pmp_item seq_item \<Rightarrow> pmp_regs \<Rightarrow> (action list \<times> pmp_regs) py" where
  "pmp_drive bv (Item (PMPWriteAddrCSRItem index pmpaddr)) reg =
     bind_py (reg_assign bv (pmpaddr_name index) 32 pmpaddr reg)
       (\<lambda>reg'. Inr ([Drive (pin_at ''pmp_pmpaddr'' index) pmpaddr, Await (ClockCycles ''clk'' 1)], reg'))"
| "pmp_drive bv (Item (PMPWriteCfgCSRItem index pmpcfg)) reg =
     bind_py (reg_assign bv (pmpcfg_name index) 8 pmpcfg reg)
       (\<lambda>reg'. Inr ([Drive (pin_at ''pmp_pmpcfg'' index) pmpcfg, Await (ClockCycles ''clk'' 1)], reg'))"
| "pmp_drive bv (Item (PMPCheckItem channel addr typ err)) reg =
     Inr ([Drive (pin_at ''pmp_chan_addr'' channel) addr, Drive (pin_at ''pmp_chan_type'' channel) typ,
           Await (ClockCycles ''clk'' 1)], reg)"
| "pmp_drive bv OtherItem reg = Inl RuntimeError"

definition pmp_monitor_edge :: "binary_value \<Rightarrow> nat \<Rightarrow> pins \<Rightarrow> pmp_item list" where
  "pmp_monitor_edge bv pmp_channels p =
     map (\<lambda>i. PMPCheckItem i (p (pin_at ''pmp_chan_addr'' i)) (p (pin_at ''pmp_chan_type'' i))
                (Some (bv_item bv (p ''pmp_chan_err'') i))) [0..<pmp_channels]"

definition pmp_monitor :: "binary_value \<Rightarrow> nat \<Rightarrow> pins list \<Rightarrow> pmp_item list" where
  "pmp_monitor bv pmp_channels ps = concat (map (pmp_monitor_edge bv pmp_channels) ps)"

section \<open>Scoreboard\<close>

definition ACCESS_TYPE :: "int \<rightharpoonup> string" where
  "ACCESS_TYPE = [1 \<mapsto> ''R'', 2 \<mapsto> ''W'', 4 \<mapsto> ''X'']"

fun pmp_find ::
  "binary_value \<Rightarrow> int \<Rightarrow> nat list \<Rightarrow> pmp_regs \<Rightarrow> ((string \<rightharpoonup> int) option \<times> pmp_regs) py" where
  "pmp_find bv addr [] reg = Inr (None, reg)"
| "pmp_find bv addr (i # is) reg =
     bind_py (getDecodedEntryCfg bv reg i False)
       (\<lambda>(entry, reg'). case entry of
          CfgEntry pmp_start_addr pmp_end_addr permissions locked \<Rightarrow>
            if pmp_start_addr \<le> addr \<and> addr < pmp_end_addr
            then Inr (if locked \<noteq> 0 then Some permissions else None, reg')
            else pmp_find bv addr is reg'
        | CfgRange _ _ \<Rightarrow> Inl ValueError
        | CfgNone \<Rightarrow> pmp_find bv addr is reg')"

definition pmp_judge :: "(string \<rightharpoonup> int) option \<Rightarrow> string \<Rightarrow> int option \<Rightarrow> bool py" where
  "pmp_judge entry_permissions op err =
     (case entry_permissions of
        None \<Rightarrow> Inr (case err of None \<Rightarrow> True | Some e \<Rightarrow> e = 0)
      | Some perms \<Rightarrow>
          (case (perms op, err) of
             (Some p, Some e) \<Rightarrow> Inr (p XOR e \<noteq> 0)
           | (Some p, None) \<Rightarrow> Inl TypeError
           | (None, _) \<Rightarrow> Inl KeyError))"

fun pmp_body :: "binary_value \<Rightarrow> pmp_item \<Rightarrow> bool \<times> pmp_regs \<Rightarrow> (bool \<times> pmp_regs) py" where
  "pmp_body bv (PMPCheckItem chan addr typ err) (passed, reg) =
     (case ACCESS_TYPE typ of
        None \<Rightarrow> Inr (passed, reg)
      | Some op \<Rightarrow>
          bind_py (pmp_find bv addr [0..<length reg div 2] reg)
            (\<lambda>(entry_permissions, reg').
               bind_py (pmp_judge entry_permissions op err)
                 (\<lambda>ok. Inr (if ok then passed else False, reg'))))"
| "pmp_body bv _ s = Inr s"

definition pmp_check_phase ::
  "binary_value \<Rightarrow> ('q \<Rightarrow> bool) \<Rightarrow> ('q \<Rightarrow> pmp_item option \<times> 'q) \<Rightarrow> 'q \<Rightarrow> pmp_regs \<Rightarrow> (bool \<times> pmp_regs) py option" where
  "pmp_check_phase bv can_get try_get port reg = drain_loop can_get try_get (pmp_body bv) port (True, reg)"

section \<open>Sequences of \<open>pmp/common.py\<close>\<close>

definition MAX_ADDR :: int where
  "MAX_ADDR = 2 ^ 32 - 4"

definition accessAtAddr :: "nat \<Rightarrow> int \<Rightarrow> pmp_item list" where
  "accessAtAddr pmp_channels addr =
     concat (map (\<lambda>t. map (\<lambda>c. PMPCheckItem c addr (push_bit t 1) None) [0..<pmp_channels]) [0..<3])"

text \<open>The draw of \<open>randrange(start, end, 4)\<close> is an argument; an empty range raises.\<close>

definition randomAccessInAddrRange :: "nat \<Rightarrow> (int \<Rightarrow> int \<Rightarrow> int) \<Rightarrow> int \<Rightarrow> int \<Rightarrow> pmp_item list py" where
  "randomAccessInAddrRange pmp_channels draw start_addr end_addr =
     (if start_addr < end_addr then Inr (accessAtAddr pmp_channels (draw start_addr end_addr)) else Inl ValueError)"

definition checkRangeBoundary :: "nat \<Rightarrow> int \<Rightarrow> pmp_item list" where
  "checkRangeBoundary pmp_channels a =
     (let addr = min MAX_ADDR ((a + 1) AND 0xFFFFFFFC)
      in (if addr \<ge> 4 then accessAtAddr pmp_channels (addr - 4) else []) @
         accessAtAddr pmp_channels addr @
         (if addr < MAX_ADDR then accessAtAddr pmp_channels (addr + 4) else []))"

definition pmp_run_phase :: "action list \<Rightarrow> action list" where
  "pmp_run_phase run =
     [Drive ''scan_mode'' 0] @
     map (\<lambda>i. Drive (pin_at ''pmp_chan_addr'' i) 0) [0..<3] @ map (\<lambda>i. Drive (pin_at ''pmp_chan_type'' i) 0) [0..<3] @
     [Drive ''rst_l'' 0, Await (ClockCycles ''clk'' 2), Await (FallingEdge ''clk''), Drive ''rst_l'' 1] @
     run @ [Await (ClockCycles ''clk'' 2)]"

section \<open>What the bench relies on, and the specification\<close>

definition bv_reads :: "binary_value \<Rightarrow> bool" where
  "bv_reads bv \<longleftrightarrow> (\<forall>v i. bv_item bv v i = of_bool (bit v i)) \<and>
     (\<forall>v hi lo. lo \<le> hi \<longrightarrow> bv_slice bv v hi lo = take_bit (hi - lo + 1) (drop_bit lo v))"

definition bv_stores :: "binary_value \<Rightarrow> bool" where
  "bv_stores bv \<longleftrightarrow> (\<forall>n v. 0 \<le> v \<and> v < 2 ^ n \<longrightarrow> bv_store bv n v = v)"

text \<open>The bytes an entry covers, from \<open>lo\<close> up to \<open>hi\<close> exclusive, by mode.\<close>

function trailing_ones :: "nat \<Rightarrow> nat" where
  "trailing_ones n = (if odd n then Suc (trailing_ones (n div 2)) else 0)"
  by pat_completeness auto

termination
  by (relation "measure id") (auto elim: oddE)

declare trailing_ones.simps [simp del]

definition pmp_region :: "int \<Rightarrow> int \<Rightarrow> int \<Rightarrow> int \<times> int" where
  "pmp_region mode prev a =
     (if mode = 1 then (4 * prev, 4 * a)
      else if mode = 2 then (4 * a, 4 * a + 4)
      else if mode = 3 then
        (let k = trailing_ones (nat a); base = 4 * (a - (2 ^ k - 1)) in (base, base + 2 ^ (k + 3)))
      else (0, 0))"

definition pmp_mode :: "int \<Rightarrow> int" where
  "pmp_mode c = take_bit 2 (drop_bit 3 c)"

definition prev_addr :: "(nat \<Rightarrow> int) \<Rightarrow> nat \<Rightarrow> int" where
  "prev_addr ad i = (if i = 0 then 0 else ad (i - 1))"

definition pmp_matches :: "(nat \<Rightarrow> int) \<Rightarrow> (nat \<Rightarrow> int) \<Rightarrow> int \<Rightarrow> nat \<Rightarrow> bool" where
  "pmp_matches cfg ad x i =
     (let (lo, hi) = pmp_region (pmp_mode (cfg i)) (prev_addr ad i) (ad i) in lo \<le> x \<and> x < hi)"

definition access_bit :: "int \<rightharpoonup> nat" where
  "access_bit = [1 \<mapsto> 0, 2 \<mapsto> 1, 4 \<mapsto> 2]"

text \<open>
  In machine mode an access fails when the first entry that matches is locked and does not grant it.
\<close>

definition pmp_error :: "nat \<Rightarrow> (nat \<Rightarrow> int) \<Rightarrow> (nat \<Rightarrow> int) \<Rightarrow> int \<Rightarrow> nat \<Rightarrow> bool" where
  "pmp_error n cfg ad x b =
     (case find (pmp_matches cfg ad x) [0..<n] of
        None \<Rightarrow> False
      | Some i \<Rightarrow> bit (cfg i) 7 \<and> \<not> bit (cfg i) b)"

text \<open>The registers as two vectors.\<close>

definition regs_are :: "nat \<Rightarrow> (nat \<Rightarrow> int) \<Rightarrow> (nat \<Rightarrow> int) \<Rightarrow> pmp_regs \<Rightarrow> bool" where
  "regs_are n cfg ad reg \<longleftrightarrow> length reg = 2 * n \<and>
     (\<forall>i<n. map_of reg (pmpcfg_name i) = Some (cfg i) \<and> map_of reg (pmpaddr_name i) = Some (ad i))"

section \<open>The registers follow the writes\<close>

lemma reg_name_inject [simp]:
  "pmpcfg_name i = pmpcfg_name j \<longleftrightarrow> i = j"
  "pmpaddr_name i = pmpaddr_name j \<longleftrightarrow> i = j"
  "pmpcfg_name i \<noteq> pmpaddr_name j"
  "pmpaddr_name j \<noteq> pmpcfg_name i"
  by (simp_all add: pmpcfg_name_def pmpaddr_name_def str_nat_inject)

lemma length_alist_update:
  "length (AList.update k v xs) = (if k \<in> fst ` set xs then length xs else Suc (length xs))"
  by (induction xs) auto

lemma in_keys: "map_of xs k = Some v \<Longrightarrow> k \<in> fst ` set xs"
  by (metis map_of_eq_None_iff option.distinct(1))

lemma RegisterMap_keys: "fst ` set (pmp_RegisterMap n) = pmpcfg_name ` {..<n} \<union> pmpaddr_name ` {..<n}"
  by (induction n) (auto simp: pmp_RegisterMap_def dom_update lessThan_Suc)

lemma RegisterMap_regs: "regs_are n (\<lambda>_. 0) (\<lambda>_. 0) (pmp_RegisterMap n)"
proof (induction n)
  case 0
  show ?case by (simp add: regs_are_def pmp_RegisterMap_def)
next
  case (Suc n)
  have step: "pmp_RegisterMap (Suc n) =
      AList.update (pmpaddr_name n) 0 (AList.update (pmpcfg_name n) 0 (pmp_RegisterMap n))"
    by (simp add: pmp_RegisterMap_def)
  have "pmpcfg_name n \<notin> fst ` set (pmp_RegisterMap n)" "pmpaddr_name n \<notin> fst ` set (pmp_RegisterMap n)"
    by (auto simp: RegisterMap_keys)
  with Suc show ?case
    by (auto simp: regs_are_def step length_alist_update dom_update update_conv' less_Suc_eq)
qed

lemma regs_are_cfg:
  "regs_are n cfg ad reg \<Longrightarrow> i < n \<Longrightarrow> regs_are n (cfg(i := v)) ad (AList.update (pmpcfg_name i) v reg)"
  by (auto simp: regs_are_def length_alist_update update_conv' dest: in_keys)

lemma regs_are_addr:
  "regs_are n cfg ad reg \<Longrightarrow> i < n \<Longrightarrow> regs_are n cfg (ad(i := v)) (AList.update (pmpaddr_name i) v reg)"
  by (auto simp: regs_are_def length_alist_update update_conv' dest: in_keys)

fun pmp_writes :: "pmp_item list \<Rightarrow> (nat \<Rightarrow> int) \<times> (nat \<Rightarrow> int) \<Rightarrow> (nat \<Rightarrow> int) \<times> (nat \<Rightarrow> int)" where
  "pmp_writes [] s = s"
| "pmp_writes (PMPWriteCfgCSRItem i v # its) (cfg, ad) = pmp_writes its (cfg(i := v), ad)"
| "pmp_writes (PMPWriteAddrCSRItem i v # its) (cfg, ad) = pmp_writes its (cfg, ad(i := v))"
| "pmp_writes (PMPCheckItem c a t e # its) s = pmp_writes its s"

fun item_fits :: "nat \<Rightarrow> pmp_item \<Rightarrow> bool" where
  "item_fits n (PMPWriteCfgCSRItem i v) \<longleftrightarrow> i < n \<and> 0 \<le> v \<and> v < 2 ^ 8"
| "item_fits n (PMPWriteAddrCSRItem i v) \<longleftrightarrow> i < n \<and> 0 \<le> v \<and> v < 2 ^ 32"
| "item_fits n (PMPCheckItem c a t e) \<longleftrightarrow> True"

definition pmp_drive_regs :: "binary_value \<Rightarrow> pmp_item list \<Rightarrow> pmp_regs \<Rightarrow> pmp_regs py" where
  "pmp_drive_regs bv its reg =
     fold_py (\<lambda>it reg. bind_py (pmp_drive bv (Item it) reg) (\<lambda>r. Inr (snd r))) its reg"

lemma pmp_drive_regs_track:
  assumes "bv_stores bv" and "list_all (item_fits n) its" and "regs_are n (fst s) (snd s) reg"
  shows "\<exists>reg'. pmp_drive_regs bv its reg = Inr reg' \<and>
           regs_are n (fst (pmp_writes its s)) (snd (pmp_writes its s)) reg'"
  using assms(2,3)
proof (induction its s arbitrary: reg rule: pmp_writes.induct)
  case (1 s)
  then show ?case by (simp add: pmp_drive_regs_def)
next
  case (2 i v its cfg ad)
  with assms(1) have v: "bv_store bv 8 v = v" and "i < n" by (simp_all add: bv_stores_def)
  with 2 obtain w where w: "map_of reg (pmpcfg_name i) = Some w" by (auto simp: regs_are_def)
  have "regs_are n (cfg(i := v)) ad (AList.update (pmpcfg_name i) v reg)"
    using 2 \<open>i < n\<close> by (simp add: regs_are_cfg)
  moreover have "pmp_drive_regs bv (PMPWriteCfgCSRItem i v # its) reg = pmp_drive_regs bv its (AList.update (pmpcfg_name i) v reg)"
    using w v by (simp add: pmp_drive_regs_def reg_assign_def dict_get_def)
  ultimately show ?case using 2(1) [of "AList.update (pmpcfg_name i) v reg"] 2(2) by (simp add: fun_upd_def)
next
  case (3 i v its cfg ad)
  with assms(1) have v: "bv_store bv 32 v = v" and "i < n" by (simp_all add: bv_stores_def)
  with 3 obtain w where w: "map_of reg (pmpaddr_name i) = Some w" by (auto simp: regs_are_def)
  have "regs_are n cfg (ad(i := v)) (AList.update (pmpaddr_name i) v reg)"
    using 3 \<open>i < n\<close> by (simp add: regs_are_addr)
  moreover have "pmp_drive_regs bv (PMPWriteAddrCSRItem i v # its) reg = pmp_drive_regs bv its (AList.update (pmpaddr_name i) v reg)"
    using w v by (simp add: pmp_drive_regs_def reg_assign_def dict_get_def)
  ultimately show ?case using 3(1) [of "AList.update (pmpaddr_name i) v reg"] 3(2) by (simp add: fun_upd_def)
next
  case (4 c a t e its s)
  then show ?case by (simp add: pmp_drive_regs_def)
qed

section \<open>Decoding an entry\<close>

definition perms_of :: "int \<Rightarrow> string \<rightharpoonup> int" where
  "perms_of c = [''R'' \<mapsto> of_bool (bit c 0), ''W'' \<mapsto> of_bool (bit c 1), ''X'' \<mapsto> of_bool (bit c 2)]"

lemma decode_unfold:
  assumes bv: "bv_reads bv" and regs: "regs_are n cfg ad reg" and i: "i < n"
  shows "getDecodedEntryCfg bv reg i ro =
     (let start = 4 * prev_addr ad i; stop = 4 * ad i; mode = pmp_mode (cfg i);
          entry = (\<lambda>lo hi. decoded ro lo hi (perms_of (cfg i)) (of_bool (bit (cfg i) 7)))
      in if mode = 0 then Inr (if ro then CfgRange start stop else CfgNone, reg)
         else if mode = 1 then
           Inr (if start > stop then (if ro then CfgRange start stop else CfgNone) else entry start stop, reg)
         else if mode = 2 then Inr (entry start (stop + 4), reg)
         else let (v, napot) = napot_loop bv [0..<32] (ad i) 3
              in Inr (entry (4 * v) (4 * v + 2 ^ napot), AList.update (pmpaddr_name i) v reg))"
proof -
  have get: "dict_get (pmpcfg_name j) reg = Inr (cfg j)" "dict_get (pmpaddr_name j) reg = Inr (ad j)"
    if "j < n" for j
    using regs that by (simp_all add: regs_are_def dict_get_def)
  have four: "push_bit 2 x = 4 * x" for x :: int by (simp add: push_bit_eq_mult)
  have slice: "bv_slice bv (cfg i) 4 3 = pmp_mode (cfg i)"
    using bv by (simp add: bv_reads_def pmp_mode_def numeral_2_eq_2)
  have item: "bv_item bv v j = of_bool (bit v j)" for v j using bv by (simp add: bv_reads_def)
  have prev: "(if i \<noteq> 0 then bind_py (dict_get (pmpaddr_name (i - 1)) reg) (\<lambda>a. Inr (4 * a)) else Inr 0)
      = Inr (4 * prev_addr ad i)"
    using i by (simp add: get prev_addr_def)
  have "0 \<le> pmp_mode (cfg i)" "pmp_mode (cfg i) < 4"
    using take_bit_int_less_exp [of 2 "drop_bit 3 (cfg i)"] by (simp_all add: pmp_mode_def)
  then have three: "pmp_mode (cfg i) = 3" if "pmp_mode (cfg i) \<notin> {0, 1, 2}" using that by auto
  show ?thesis
    unfolding getDecodedEntryCfg_def get [OF i] bind_py_simps four prev slice Let_def
    using three by (auto simp: item perms_of_def split: prod.splits)
qed

lemma decode_tor:
  assumes "bv_reads bv" "regs_are n cfg ad reg" "i < n" "pmp_mode (cfg i) \<in> {0, 1}"
  shows "getDecodedEntryCfg bv reg i False =
     Inr (if pmp_mode (cfg i) = 0 \<or> prev_addr ad i > ad i then CfgNone
          else CfgEntry (4 * prev_addr ad i) (4 * ad i - 1) (perms_of (cfg i)) (of_bool (bit (cfg i) 7)), reg)"
  using assms(4) by (auto simp: decode_unfold [OF assms(1-3)] Let_def decoded_def)

text \<open>Without its last byte, a region of whole words still has all its words.\<close>

lemma aligned_less: "4 dvd x \<Longrightarrow> x < 4 * b - 1 \<longleftrightarrow> x < 4 * (b::int)"
  by (auto elim!: dvdE)

lemma pmp_matches_tor:
  assumes "pmp_mode (cfg i) \<in> {0, 1}" "4 dvd x"
  shows "pmp_matches cfg ad x i \<longleftrightarrow>
     pmp_mode (cfg i) = 1 \<and> 4 * prev_addr ad i \<le> x \<and> x < 4 * ad i - 1"
  using assms(1) by (auto simp: pmp_matches_def pmp_region_def aligned_less [OF assms(2)])

section \<open>The scoreboard on disabled and top-of-range entries\<close>

lemma pmp_find_tor:
  assumes "bv_reads bv" "regs_are n cfg ad reg" "4 dvd x"
    and "\<And>i. i \<in> set is \<Longrightarrow> i < n \<and> pmp_mode (cfg i) \<in> {0, 1}"
  shows "pmp_find bv x is reg =
     Inr (case find (pmp_matches cfg ad x) is of
            None \<Rightarrow> None
          | Some i \<Rightarrow> if bit (cfg i) 7 then Some (perms_of (cfg i)) else None, reg)"
  using assms(4)
proof (induction "is")
  case (Cons i "is")
  then have i: "i < n" "pmp_mode (cfg i) \<in> {0, 1}" by simp_all
  have "4 * ad i - 1 \<le> x" if "prev_addr ad i > ad i" "4 * prev_addr ad i \<le> x" using that by simp
  with Cons show ?case
    by (auto simp: decode_tor [where cfg = cfg and i = i, OF assms(1,2) i] pmp_matches_tor [where cfg = cfg and i = i, OF i(2) assms(3)])
qed simp

lemma access_bit_type:
  "ACCESS_TYPE t = Some op \<Longrightarrow> \<exists>b. access_bit t = Some b \<and> perms_of c op = Some (of_bool (bit c b))"
  "ACCESS_TYPE t = None \<longleftrightarrow> access_bit t = None"
  by (auto simp: ACCESS_TYPE_def access_bit_def perms_of_def split: if_splits)

fun verdict_ok :: "nat \<Rightarrow> (nat \<Rightarrow> int) \<Rightarrow> (nat \<Rightarrow> int) \<Rightarrow> pmp_item \<Rightarrow> bool" where
  "verdict_ok n cfg ad (PMPCheckItem c x t err) \<longleftrightarrow>
     (case access_bit t of None \<Rightarrow> True | Some b \<Rightarrow> err = Some (of_bool (pmp_error n cfg ad x b)))"
| "verdict_ok n cfg ad _ \<longleftrightarrow> True"

fun sampled :: "pmp_item \<Rightarrow> bool" where
  "sampled (PMPCheckItem c x t err) \<longleftrightarrow> 4 dvd x \<and> (err = Some 0 \<or> err = Some 1)"
| "sampled _ \<longleftrightarrow> True"

lemma pmp_body_tor:
  assumes "bv_reads bv" "regs_are n cfg ad reg" "\<And>i. i < n \<Longrightarrow> pmp_mode (cfg i) \<in> {0, 1}" "sampled it"
  shows "pmp_body bv it (passed, reg) = Inr (passed \<and> verdict_ok n cfg ad it, reg)"
proof (cases it)
  case (PMPCheckItem c x t err)
  show ?thesis
  proof (cases "ACCESS_TYPE t")
    case None
    with access_bit_type(2) [of t] show ?thesis using PMPCheckItem by simp
  next
    case (Some op)
    have len: "length reg div 2 = n" using assms(2) by (simp add: regs_are_def)
    have x: "4 dvd x" "err = Some 0 \<or> err = Some 1" using assms(4) PMPCheckItem by simp_all
    have find: "pmp_find bv x [0..<n] reg =
        Inr (case find (pmp_matches cfg ad x) [0..<n] of
               None \<Rightarrow> None
             | Some i \<Rightarrow> if bit (cfg i) 7 then Some (perms_of (cfg i)) else None, reg)"
      using assms(3) by (intro pmp_find_tor [OF assms(1,2) x(1)]) simp
    obtain b where b: "access_bit t = Some b" using access_bit_type(1) [OF Some] by blast
    have perm: "perms_of c' op = Some (of_bool (bit c' b))" for c'
      using access_bit_type(1) [OF Some, of c'] b by auto
    show ?thesis
      using x(2)
      by (auto simp: PMPCheckItem Some len find b pmp_judge_def perm pmp_error_def split: option.splits)
  qed
qed simp_all

lemma pmp_fold_tor:
  assumes "bv_reads bv" "regs_are n cfg ad reg" "\<And>i. i < n \<Longrightarrow> pmp_mode (cfg i) \<in> {0, 1}"
  shows "list_all sampled its \<Longrightarrow>
     fold_py (pmp_body bv) its (passed, reg) = Inr (passed \<and> list_all (verdict_ok n cfg ad) its, reg)"
proof (induction its arbitrary: passed)
  case (Cons it its)
  then show ?case using pmp_body_tor [OF assms, of it passed] by (simp add: conj_assoc)
qed simp

text \<open>Register values with the documented reading and storing operations, for evaluation.\<close>

definition bv_copies :: binary_value where
  "bv_copies = \<lparr>bv_item = (\<lambda>v i. of_bool (bit v i)),
     bv_slice = (\<lambda>v hi lo. take_bit (hi - lo + 1) (drop_bit lo v)),
     bv_item_zero = (\<lambda>v i. v), bv_store = (\<lambda>n v. take_bit n v)\<rparr>"

lemma bv_copies_ok: "bv_reads bv_copies" "bv_stores bv_copies"
  by (simp_all add: bv_copies_def bv_reads_def bv_stores_def take_bit_int_eq_self)

text \<open>
  Whether the error outputs sampled at an edge are the specified ones, for every channel that makes
  a known kind of access.
\<close>

definition errors_right :: "nat \<Rightarrow> (nat \<Rightarrow> int) \<Rightarrow> (nat \<Rightarrow> int) \<Rightarrow> nat \<Rightarrow> pins \<Rightarrow> bool" where
  "errors_right n cfg ad channels p \<longleftrightarrow>
     (\<forall>c\<in>{..<channels}. case access_bit (p (pin_at ''pmp_chan_type'' c)) of
        None \<Rightarrow> True
      | Some b \<Rightarrow> bit (p ''pmp_chan_err'') c = pmp_error n cfg ad (p (pin_at ''pmp_chan_addr'' c)) b)"

definition addrs_aligned :: "nat \<Rightarrow> pins \<Rightarrow> bool" where
  "addrs_aligned channels p \<longleftrightarrow> (\<forall>c\<in>{..<channels}. 4 dvd p (pin_at ''pmp_chan_addr'' c))"

lemma list_all_monitor:
  "list_all P (pmp_monitor bv m ps) \<longleftrightarrow> list_all (\<lambda>p. list_all P (pmp_monitor_edge bv m p)) ps"
  by (induction ps) (simp_all add: pmp_monitor_def)

lemma monitor_sampled:
  "bv_reads bv \<Longrightarrow> list_all (addrs_aligned m) ps \<Longrightarrow> list_all sampled (pmp_monitor bv m ps)"
  unfolding list_all_monitor
  by (induction ps) (auto simp: pmp_monitor_edge_def addrs_aligned_def bv_reads_def list_all_iff)

lemma monitor_verdict:
  "bv_reads bv \<Longrightarrow> list_all (verdict_ok n cfg ad) (pmp_monitor bv m ps) \<longleftrightarrow> list_all (errors_right n cfg ad m) ps"
  unfolding list_all_monitor
  by (induction ps) (auto simp: pmp_monitor_edge_def errors_right_def bv_reads_def list_all_iff of_bool_def split: option.splits)

text \<open>Two entries: one that starts the range, and a locked one that grants reading only.\<close>

definition two_entries :: "pmp_item list" where
  "two_entries = [PMPWriteAddrCSRItem 0 0x400, PMPWriteAddrCSRItem 1 0x800, PMPWriteCfgCSRItem 1 0b10001001]"

definition write_denied :: pins where
  "write_denied = (\<lambda>s. if s = pin_at ''pmp_chan_addr'' 0 then 0x1FFC else if s = pin_at ''pmp_chan_type'' 0 then 2
     else if s = ''pmp_chan_err'' then 1 else 0)"



section \<open>The naturally aligned modes\<close>

text \<open>
  Remark: for a naturally aligned four-byte entry the predicted range is the specified one
  exactly when the entry before holds the same address: the start address is never set to that of
  the entry.
\<close>

theorem pmp_na4_region:
  assumes "bv_reads bv" "regs_are n cfg ad reg" "i < n" "pmp_mode (cfg i) = 2"
    and "getDecodedEntryCfg bv reg i False = Inr (CfgEntry lo hi perms locked, reg')"
  shows "(\<forall>x. 4 dvd x \<longrightarrow> (lo \<le> x \<and> x < hi) = pmp_matches cfg ad x i) \<longleftrightarrow> prev_addr ad i = ad i"
proof -
  have e: "lo = 4 * prev_addr ad i" "hi = 4 * ad i + 3"
    using assms(4,5) by (auto simp: decode_unfold [OF assms(1-3)] Let_def decoded_def)
  have m: "pmp_matches cfg ad x i \<longleftrightarrow> 4 * ad i \<le> x \<and> x < 4 * ad i + 4" for x
    using assms(4) by (simp add: pmp_matches_def pmp_region_def)
  show ?thesis
  proof
    assume "\<forall>x. 4 dvd x \<longrightarrow> (lo \<le> x \<and> x < hi) = pmp_matches cfg ad x i"
    then have "4 dvd x \<Longrightarrow> (lo \<le> x \<and> x < hi) = pmp_matches cfg ad x i" for x by blast
    from this [of "4 * ad i"] this [of "4 * (ad i - 1)"] show "prev_addr ad i = ad i"
      by (simp add: e m)
  next
    assume "prev_addr ad i = ad i"
    then show "\<forall>x. 4 dvd x \<longrightarrow> (lo \<le> x \<and> x < hi) = pmp_matches cfg ad x i"
      using aligned_less [of _ "ad i + 1"] by (auto simp: e m add.commute)
  qed
qed

theorem pmp_na4_region_witness:
  "\<not> (\<forall>x. 4 dvd x \<longrightarrow> (0x1000 \<le> x \<and> x < 0x2003) =
       pmp_matches ((\<lambda>_. 0)(1 := 0b10010000)) ((\<lambda>_. 0)(0 := 0x400, 1 := 0x800)) x 1)"
proof -
  let ?cfg = "(\<lambda>_. 0)(1 := 0b10010000) :: nat \<Rightarrow> int" and ?ad = "(\<lambda>_. 0)(0 := 0x400, 1 := 0x800) :: nat \<Rightarrow> int"
  let ?reg = "[(''pmpcfg0'', 0), (''pmpaddr0'', 0x400), (''pmpcfg1'', 0b10010000), (''pmpaddr1'', 0x800)]"
  have names: "pmpcfg_name 0 = ''pmpcfg0''" "pmpaddr_name 0 = ''pmpaddr0''"
    "pmpcfg_name 1 = ''pmpcfg1''" "pmpaddr_name 1 = ''pmpaddr1''"
    by code_simp+
  have regs: "regs_are 2 ?cfg ?ad ?reg"
    using names by (auto simp: regs_are_def less_2_cases_iff)
  have mode: "pmp_mode (?cfg 1) = 2" by code_simp
  have prev: "prev_addr ?ad 1 = 0x400" by (simp add: prev_addr_def)
  have "\<exists>perms locked. getDecodedEntryCfg bv_copies ?reg 1 False = Inr (CfgEntry 0x1000 0x2003 perms locked, ?reg)"
    using mode prev by (simp add: decode_unfold [OF bv_copies_ok(1) regs] decoded_def)
  then obtain perms locked where dec:
    "getDecodedEntryCfg bv_copies ?reg 1 False = Inr (CfgEntry 0x1000 0x2003 perms locked, ?reg)" by blast
  have "(\<forall>x. 4 dvd x \<longrightarrow> (0x1000 \<le> x \<and> x < 0x2003) = pmp_matches ?cfg ?ad x 1) \<longleftrightarrow> prev_addr ?ad 1 = ?ad 1"
    by (rule pmp_na4_region [OF bv_copies_ok(1) regs _ mode dec]) simp
  moreover have "prev_addr ?ad 1 \<noteq> ?ad 1" unfolding prev by simp
  ultimately show ?thesis by blast
qed

text \<open>The loop over the bits, when an item is a copy and when it is a view.\<close>

lemma napot_loop_bits:
  assumes "bv_reads bv" "\<And>v j. bv_item_zero bv v j = (if view then unset_bit j v else v)" "distinct is"
  shows "napot_loop bv is v k =
     (if view then fold unset_bit is v else v, k + length (filter (bit v) is))"
  using assms(3)
proof (induction "is" arbitrary: v k)
  case (Cons i "is")
  have item: "bv_item bv v i = of_bool (bit v i)" using assms(1) by (simp add: bv_reads_def)
  have "unset_bit i v = v" if "\<not> bit v i"
    using that by (auto intro!: bit_eqI simp: bit_unset_bit_iff)
  moreover have "filter (bit (unset_bit i v)) is = filter (bit v) is"
    using Cons.prems by (auto intro!: filter_cong simp: bit_unset_bit_iff)
  ultimately show ?case using Cons by (simp add: item assms(2))
qed simp

lemma fold_unset_bit: "bit (fold unset_bit is v) j \<longleftrightarrow> bit (v::int) j \<and> j \<notin> set is"
  by (induction "is" arbitrary: v) (auto simp: bit_unset_bit_iff)

lemma bit_bounded: "0 \<le> v \<Longrightarrow> v < 2 ^ n \<Longrightarrow> bit (v::int) j \<Longrightarrow> j < n"
  by (metis bit_take_bit_iff take_bit_int_eq_self)

lemma fold_unset_all: "0 \<le> v \<Longrightarrow> v < 2 ^ n \<Longrightarrow> fold unset_bit [0..<n] (v::int) = 0"
  by (rule bit_eqI) (auto simp: fold_unset_bit dest: bit_bounded)

lemma trailing_ones_le: "2 ^ trailing_ones n \<le> n + 1"
proof (induction n rule: trailing_ones.induct)
  case (1 n)
  show ?case
  proof (cases "odd n")
    case True
    then obtain k where k: "n = 2 * k + 1" by (auto elim: oddE)
    with 1 True have "2 ^ trailing_ones k \<le> k + 1" by simp
    with k show ?thesis by (subst trailing_ones.simps) simp
  qed (subst trailing_ones.simps, simp)
qed

lemma trailing_ones_mask: "trailing_ones (2 ^ m - 1) = m"
proof (induction m)
  case 0
  show ?case by (subst trailing_ones.simps) simp
next
  case (Suc m)
  have "(2 ^ Suc m - 1) div 2 = (2 ^ m - 1 :: nat)" by simp
  then show ?case using Suc by (subst trailing_ones.simps) simp
qed

lemma trailing_ones_odd: "trailing_ones n = 0 \<longleftrightarrow> even n"
  by (subst trailing_ones.simps) simp

lemma mask_ones: "m \<le> n \<Longrightarrow> length (filter (bit (2 ^ m - 1 :: int)) [0..<n]) = m"
proof -
  assume "m \<le> n"
  then have "[0..<n] = [0..<m] @ [m..<n]" using upt_add_eq_append [of 0 m "n - m"] by simp
  moreover have "filter (bit (mask m :: int)) [0..<m] = [0..<m]" "filter (bit (mask m :: int)) [m..<n] = []"
    by (auto simp: bit_mask_iff filter_empty_conv intro!: filter_True)
  ultimately show ?thesis by (simp add: mask_eq_exp_minus_1)
qed

lemma aligned_less_power: "4 dvd x \<Longrightarrow> x < 4 * b + 2 ^ (3 + c) - 1 \<longleftrightarrow> x < 4 * b + 2 ^ (3 + c)" for x b :: int
  using aligned_less [of x "b + 2 ^ (1 + c)"] by (simp add: algebra_simps power_add)

lemma napot_copy_agrees:
  fixes a :: int
  assumes "0 \<le> a" "a < 2 ^ 32"
  defines "c \<equiv> length (filter (bit a) [0..<32])" and "k \<equiv> trailing_ones (nat a)"
  shows "(\<forall>x. 4 dvd x \<longrightarrow> (4 * a \<le> x \<and> x < 4 * a + 2 ^ (3 + c) - 1) =
            (4 * (a - (2 ^ k - 1)) \<le> x \<and> x < 4 * (a - (2 ^ k - 1)) + 2 ^ (k + 3))) \<longleftrightarrow> a = 0"
    (is "?agree \<longleftrightarrow> _")
proof
  assume ?agree
  then have agree: "4 dvd x \<Longrightarrow> (4 * a \<le> x \<and> x < 4 * a + 2 ^ (3 + c) - 1) =
      (4 * (a - (2 ^ k - 1)) \<le> x \<and> x < 4 * (a - (2 ^ k - 1)) + 2 ^ (k + 3))" for x by blast
  from agree [of "4 * (a - (2 ^ k - 1))"] have "(2::int) ^ k \<le> 2 ^ 0" by simp
  then have k: "k = 0" by (simp only: power_increasing_iff)
  show "a = 0"
  proof (rule ccontr)
    assume "a \<noteq> 0"
    then obtain j where j: "bit a j" using bit_eqI [of a 0] by auto
    then have "j < 32" using bit_bounded assms by blast
    with j have "filter (bit a) [0..<32] \<noteq> []" by (auto simp: filter_empty_conv)
    then obtain d where "c = Suc d" unfolding c_def by (metis length_0_conv not0_implies_Suc)
    moreover have "(2::int) ^ 4 \<le> 2 ^ (d + 4)" by (rule power_increasing) simp_all
    ultimately show False using agree [of "4 * (a + 2)"] k by (simp add: algebra_simps)
  qed
next
  assume "a = 0"
  then have "k = 0" "c = 0" by (simp_all add: k_def c_def trailing_ones_odd)
  with \<open>a = 0\<close> show ?agree using aligned_less_power [of _ 0 0] by auto
qed

lemma napot_view_agrees:
  fixes a :: int
  assumes "0 \<le> a" "a < 2 ^ 32"
  defines "c \<equiv> length (filter (bit a) [0..<32])" and "k \<equiv> trailing_ones (nat a)"
  shows "(\<forall>x. 4 dvd x \<longrightarrow> (0 \<le> x \<and> x < 2 ^ (3 + c) - 1) =
            (4 * (a - (2 ^ k - 1)) \<le> x \<and> x < 4 * (a - (2 ^ k - 1)) + 2 ^ (k + 3))) \<longleftrightarrow> (\<exists>m. a = 2 ^ m - 1)"
    (is "?agree \<longleftrightarrow> _")
proof
  assume ?agree
  from spec [OF this, of 0] have "(0 \<le> (0::int) \<and> 0 < (2::int) ^ (3 + c) - 1) =
      (4 * (a - (2 ^ k - 1)) \<le> 0 \<and> 0 < 4 * (a - (2 ^ k - 1)) + 2 ^ (k + 3))" by simp
  moreover have "(1::int) < 2 ^ (3 + c)" by (rule one_less_power) simp_all
  ultimately have "4 * (a - (2 ^ k - 1)) \<le> 0" by simp
  moreover have "int (2 ^ k) \<le> int (nat a + 1)"
    unfolding k_def of_nat_le_iff by (rule trailing_ones_le)
  ultimately have "a = 2 ^ k - 1" using assms(1) by simp
  then show "\<exists>m. a = 2 ^ m - 1" ..
next
  assume "\<exists>m. a = 2 ^ m - 1"
  then obtain m where m: "a = 2 ^ m - 1" ..
  then have "nat a = 2 ^ m - 1" by (simp add: nat_diff_distrib nat_power_eq)
  then have k: "k = m" unfolding k_def by (simp only: trailing_ones_mask)
  have "(2::int) ^ m \<le> 2 ^ 32" using m assms by simp
  then have "m \<le> 32" by (simp only: power_increasing_iff)
  then have c: "c = m" unfolding c_def m by (rule mask_ones)
  show ?agree unfolding k c m using aligned_less_power [of _ 0 m] by (auto simp: add.commute [of m 3])
qed

text \<open>
  Remark: for a naturally aligned power-of-two entry the predicted range is the specified one
  only for very few addresses: for address 0 when the items of a register value are copies, so that
  clearing them changes nothing, and for addresses of ones only when they are views. In the second
  case decoding moreover sets the register itself to 0.
\<close>

theorem pmp_napot_region:
  assumes "bv_reads bv" "\<forall>v j. bv_item_zero bv v j = (if view then unset_bit j v else v)"
    and "regs_are n cfg ad reg" "i < n" "pmp_mode (cfg i) = 3" "0 \<le> ad i" "ad i < 2 ^ 32"
    and "getDecodedEntryCfg bv reg i False = Inr (CfgEntry lo hi perms locked, reg')"
  shows "((\<forall>x. 4 dvd x \<longrightarrow> (lo \<le> x \<and> x < hi) = pmp_matches cfg ad x i) \<longleftrightarrow>
           (if view then \<exists>k. ad i = 2 ^ k - 1 else ad i = 0)) \<and>
         map_of reg' (pmpaddr_name i) = Some (if view then 0 else ad i)"
proof -
  define c where "c = length (filter (bit (ad i)) [0..<32])"
  define k where "k = trailing_ones (nat (ad i))"
  have loop: "napot_loop bv [0..<32] (ad i) 3 = (if view then 0 else ad i, 3 + c)"
    using assms(2,6,7) fold_unset_all [of "ad i" 32]
    by (simp add: napot_loop_bits [OF assms(1), where view = view] c_def)
  have e: "lo = (if view then 0 else 4 * ad i)" "hi = lo + 2 ^ (3 + c) - 1"
    "reg' = AList.update (pmpaddr_name i) (if view then 0 else ad i) reg"
    using assms(5,8) by (auto simp: decode_unfold [OF assms(1,3,4)] Let_def decoded_def loop)
  have reg: "map_of reg' (pmpaddr_name i) = Some (if view then 0 else ad i)"
    by (simp add: e(3) update_conv')
  have m: "pmp_matches cfg ad x i \<longleftrightarrow> 4 * (ad i - (2 ^ k - 1)) \<le> x \<and> x < 4 * (ad i - (2 ^ k - 1)) + 2 ^ (k + 3)" for x
    using assms(5) by (simp add: pmp_matches_def pmp_region_def k_def Let_def)
  have "(\<forall>x. 4 dvd x \<longrightarrow> (lo \<le> x \<and> x < hi) = pmp_matches cfg ad x i) \<longleftrightarrow>
      (if view then \<exists>k. ad i = 2 ^ k - 1 else ad i = 0)"
    using napot_copy_agrees [OF assms(6,7)] napot_view_agrees [OF assms(6,7)]
    unfolding m e(2) e(1) c_def [symmetric] k_def [symmetric] by (cases view) simp_all
  with reg show ?thesis by (rule conjI [rotated])
qed

theorem pmp_napot_region_witness:
  "\<not> (\<forall>x. 4 dvd x \<longrightarrow> (0x400C \<le> x \<and> x < 0x400C + 63) =
       pmp_matches (\<lambda>_. 0b10011000) (\<lambda>_. 0x1003) x 0)"
proof -
  let ?reg = "[(''pmpcfg0'', 0b10011000), (''pmpaddr0'', 0x1003)]"
  have names: "pmpcfg_name 0 = ''pmpcfg0''" "pmpaddr_name 0 = ''pmpaddr0''" by code_simp+
  have regs: "regs_are 1 (\<lambda>_. 0b10011000) (\<lambda>_. 0x1003) ?reg"
    using names by (auto simp: regs_are_def)
  have mode: "pmp_mode 0b10011000 = 3" by code_simp
  have loop: "napot_loop bv_copies [0..<32] 0x1003 3 = (0x1003, 6)" by code_simp
  have "\<exists>perms locked reg'. getDecodedEntryCfg bv_copies ?reg 0 False =
      Inr (CfgEntry 0x400C (0x400C + 63) perms locked, reg')"
    using mode by (simp add: decode_unfold [OF bv_copies_ok(1) regs] decoded_def loop Let_def)
  then show ?thesis
    using pmp_napot_region [OF bv_copies_ok(1) _ regs _ mode, of False]
    by (auto simp: bv_copies_def)
qed

section \<open>The boundary accesses\<close>

lemma in_accessAtAddr:
  "it \<in> set (accessAtAddr n a) \<longleftrightarrow> (\<exists>c<n. \<exists>t\<in>{1, 2, 4}. it = PMPCheckItem c a t None)"
proof -
  have "[0..<3] = [0, 1, 2::nat]" by (simp add: upt_rec)
  then show ?thesis by (auto simp: accessAtAddr_def)
qed

lemma and_word_mask: "(x::int) AND 0xFFFFFFFC = 4 * (take_bit 30 (x div 4))"
proof -
  have "(0xFFFFFFFC :: int) = push_bit 2 (mask 30)" by code_simp
  moreover have "x AND push_bit 2 (mask 30) = push_bit 2 (take_bit 30 (drop_bit 2 x))"
    by (auto intro!: bit_eqI simp: bit_simps dest!: le_Suc_ex)
  ultimately have "x AND 0xFFFFFFFC = push_bit 2 (take_bit 30 (drop_bit 2 x))" by simp
  then show ?thesis by (simp add: push_bit_eq_mult drop_bit_eq_div)
qed

text \<open>
  Remark: the boundary check only makes aligned accesses inside the 32-bit address space. For
  the inclusive end of a range of whole words it makes every kind of access on every channel to the
  last word of the range and, when there is one, to the first word after it.
\<close>

theorem boundary_accesses:
  assumes "0 \<le> a" "a < 2 ^ 32"
  shows "(\<forall>it\<in>set (checkRangeBoundary n a).
            \<exists>c x t. it = PMPCheckItem c x t None \<and> c < n \<and> 4 dvd x \<and> 0 \<le> x \<and> x < 2 ^ 32) \<and>
         (4 dvd a + 1 \<longrightarrow> a + 1 \<le> MAX_ADDR \<longrightarrow>
            set (accessAtAddr n (a - 3)) \<union> set (accessAtAddr n (a + 1)) \<subseteq> set (checkRangeBoundary n a))"
proof -
  define b where "b = min MAX_ADDR ((a + 1) AND 0xFFFFFFFC)"
  have "0 \<le> take_bit 30 ((a + 1) div 4)" "take_bit 30 ((a + 1) div 4) < 2 ^ 30"
    by (rule take_bit_nonnegative, rule take_bit_int_less_exp)
  then have b: "4 dvd b" "0 \<le> b" "b \<le> MAX_ADDR"
    by (auto simp: b_def and_word_mask MAX_ADDR_def min_def)
  have eq: "checkRangeBoundary n a =
      (if b \<ge> 4 then accessAtAddr n (b - 4) else []) @ accessAtAddr n b @
      (if b < MAX_ADDR then accessAtAddr n (b + 4) else [])"
    by (simp only: checkRangeBoundary_def Let_def b_def)
  have "\<exists>c x t. it = PMPCheckItem c x t None \<and> c < n \<and> (x = b \<or> x = b - 4 \<and> 4 \<le> b \<or> x = b + 4 \<and> b < MAX_ADDR)"
    if "it \<in> set (checkRangeBoundary n a)" for it
    using that by (auto simp: eq in_accessAtAddr split: if_splits)
  moreover have "4 dvd x \<and> 0 \<le> x \<and> x < 2 ^ 32" if "x = b \<or> x = b - 4 \<and> 4 \<le> b \<or> x = b + 4 \<and> b < MAX_ADDR" for x
    using that b by (auto simp: MAX_ADDR_def elim!: dvdE)
  moreover have "set (accessAtAddr n (a - 3)) \<union> set (accessAtAddr n (a + 1)) \<subseteq> set (checkRangeBoundary n a)"
    if a: "4 dvd a + 1" "a + 1 \<le> MAX_ADDR"
  proof -
    have "4 \<le> a + 1" using a assms by presburger
    moreover have "b = a + 1"
      using a assms by (auto simp: b_def and_word_mask MAX_ADDR_def take_bit_int_eq_self elim!: dvdE)
    ultimately show ?thesis by (auto simp: eq)
  qed
  ultimately show ?thesis by blast
qed

theorem boundary_accesses_witness:
  "set (accessAtAddr 1 0x1FFC) \<union> set (accessAtAddr 1 0x2000) \<subseteq> set (checkRangeBoundary 1 0x1FFF)"
  using boundary_accesses [of "0x1FFF" 1] by (simp add: MAX_ADDR_def)

end
