(* ===== verification/Pmp_Random.thy ===== *)
theory Pmp_Random
  imports Pmp
begin

text \<open>
  The random protection bench, \<open>verification/block/pmp_random/testbench.py\<close>. One class of item serves the
  sequence (numbers), the monitor of the inputs (arrays of pin values) and the monitor of the
  outputs (a handle of the simulator, whose number is read when it is asked for); its fields are
  therefore Python values \<open>py_val\<close>. What a handle reads as is a parameter.
\<close>

datatype py_val = PInt int | PInts "int list" | PHandle string

record rand_item =
  ri_cfg :: py_val
  ri_entry :: nat
  ri_pmp_addr :: py_val
  ri_chan_addr :: py_val
  ri_chan_type :: py_val
  ri_chan :: nat
  ri_chan_err :: py_val

definition InputItem :: rand_item where
  "InputItem = \<lparr>ri_cfg = PInt 0, ri_entry = 0, ri_pmp_addr = PInt 0, ri_chan_addr = PInt 0,
     ri_chan_type = PInt 0, ri_chan = 0, ri_chan_err = PInt 0\<rparr>"

text \<open>The numbers drawn are the arguments.\<close>

definition rand_randomize :: "int \<Rightarrow> nat \<Rightarrow> int \<Rightarrow> nat \<Rightarrow> int \<Rightarrow> int \<Rightarrow> rand_item \<Rightarrow> rand_item" where
  "rand_randomize cfg entry pmp_addr chan chan_addr chan_type it =
     it\<lparr>ri_cfg := PInt cfg, ri_entry := entry, ri_pmp_addr := PInt pmp_addr, ri_chan := chan,
        ri_chan_addr := PInt chan_addr, ri_chan_type := PInt chan_type\<rparr>"

definition assign_pin :: "string \<Rightarrow> py_val \<Rightarrow> action py" where
  "assign_pin s v = (case v of PInt n \<Rightarrow> Inr (Drive s n) | _ \<Rightarrow> Inl TypeError)"

fun rand_drive :: "rand_item seq_item \<Rightarrow> action list py" where
  "rand_drive (Item it) =
     bind_py (assign_pin (pin_at ''pmp_pmpcfg'' (ri_entry it)) (ri_cfg it)) (\<lambda>a1.
     bind_py (assign_pin (pin_at ''pmp_pmpaddr'' (ri_entry it)) (ri_pmp_addr it)) (\<lambda>a2.
     bind_py (assign_pin (pin_at ''pmp_chan_addr'' (ri_chan it)) (ri_chan_addr it)) (\<lambda>a3.
     bind_py (assign_pin (pin_at ''pmp_chan_type'' (ri_chan it)) (ri_chan_type it)) (\<lambda>a4.
     Inr [Await (RisingEdge ''clk''), a1, a2, a3, a4]))))"
| "rand_drive OtherItem = Inl RuntimeError"

definition pin_array :: "string \<Rightarrow> nat \<Rightarrow> pins \<Rightarrow> py_val" where
  "pin_array s n p = PInts (map (\<lambda>i. p (pin_at s i)) [0..<n])"

definition rand_write_sample :: "nat \<Rightarrow> nat \<Rightarrow> pins \<Rightarrow> rand_item" where
  "rand_write_sample entries channels p =
     InputItem\<lparr>ri_cfg := pin_array ''pmp_pmpcfg'' entries p, ri_pmp_addr := pin_array ''pmp_pmpaddr'' entries p,
       ri_chan_addr := pin_array ''pmp_chan_addr'' channels p, ri_chan_type := PHandle ''pmp_chan_type''\<rparr>"

definition rand_read_sample :: "pins \<Rightarrow> rand_item" where
  "rand_read_sample p = InputItem\<lparr>ri_chan_err := PHandle ''pmp_chan_err''\<rparr>"

definition py_int :: "(string \<Rightarrow> int) \<Rightarrow> py_val \<Rightarrow> int py" where
  "py_int handle_value v = (case v of PInt n \<Rightarrow> Inr n | PHandle s \<Rightarrow> Inr (handle_value s) | PInts _ \<Rightarrow> Inl TypeError)"

definition rand_judge :: "(string \<Rightarrow> int) \<Rightarrow> rand_item \<Rightarrow> rand_item \<Rightarrow> bool py" where
  "rand_judge handle_value inp out = bind_py (py_int handle_value (ri_chan_err inp)) (\<lambda>e. Inr (e = 0))"

definition rand_check_phase ::
  "(string \<Rightarrow> int) \<Rightarrow> ('p \<Rightarrow> rand_item option \<times> 'p) \<Rightarrow> ('q \<Rightarrow> rand_item option \<times> 'q) \<Rightarrow> 'p \<Rightarrow> 'q
   \<Rightarrow> bool option py option" where
  "rand_check_phase handle_value try_get_inp try_get_out port_inp port_out =
     pair_loop try_get_inp try_get_out (rand_judge handle_value) port_inp port_out None"

definition rand_do_reset :: "action list" where
  "rand_do_reset =
     [Drive ''rst_l'' 0, Await (ClockCycles ''clk'' 2), Await (FallingEdge ''clk''), Drive ''rst_l'' 1]"

definition rand_run_phase :: "action list \<Rightarrow> action list" where
  "rand_run_phase run =
     rand_do_reset @ [Await (ClockCycles ''clk'' 2)] @ run @ [Await (ClockCycles ''clk'' 10)]"

section \<open>The verdict\<close>

interpretation randsb: pair_scoreboard "rand_judge h" "\<lambda>i. \<exists>e. py_int h (ri_chan_err i) = Inr e"
  "\<lambda>i out. py_int h (ri_chan_err i) = Inr 0"
  "\<lambda>i. case py_int h (ri_chan_err i) of Inl e \<Rightarrow> e | Inr _ \<Rightarrow> ValueError" for h
  by unfold_locales (auto simp: rand_judge_def bind_py_def split: sum.splits)

lemma write_sample_err: "py_int h (ri_chan_err (rand_write_sample n m p)) = Inr 0"
  by (simp add: py_int_def rand_write_sample_def InputItem_def)

text \<open>
  Remark: the random protection bench cannot fail. It means to fail on any protection error, but
  it looks for the error in the items of the input monitor, where the field has its default 0; so it
  passes after any sequence of samples, whatever the device drives on its error outputs.
\<close>

theorem rand_scoreboard_blind:
  assumes "fifo_port ci tgi" and "fifo_port co tgo"
    and "ci p = map (rand_write_sample n m) ps" and "co q = map rand_read_sample ps"
  shows "rand_check_phase h tgi tgo p q = Some (Inr (Some True)) \<longleftrightarrow> ps \<noteq> []"
  unfolding rand_check_phase_def randsb.check_passes_iff [OF assms(1,2)] assms(3,4)
  by (simp add: write_sample_err list_all2_conv_all_nth)

theorem rand_scoreboard_blind_witness:
  "rand_check_phase (\<lambda>s. if s = ''pmp_chan_err'' then 7 else 0) list_try_get list_try_get
     (map (rand_write_sample 16 3) [\<lambda>s. 7]) (map rand_read_sample [\<lambda>s. 7]) = Some (Inr (Some True))"
  using rand_scoreboard_blind [OF list_fifo_port list_fifo_port refl refl, of _ 16 3 "[\<lambda>s. 7]"] by blast

end
