(* ===== verification/Csr_Bench.thy ===== *)
theory Csr_Bench
  imports Csrs Bin_Str Signal_Script "HOL-Library.List_Lexorder" "HOL-Library.Char_ord"
begin

text \<open>
  What the decoder bench (\<open>verification/block/dec/testbench.py\<close>) and the trap unit bench
  (\<open>verification/block/dec_tlu_ctl/testbench.py\<close>) share: the list of CSR objects they search, the
  trigger packet, and the comparison of a trigger with the registers it was programmed with.
\<close>

section \<open>Definitions\<close>

text \<open>
  The CSR with a name of the module \<open>csrs\<close>; as a number it is its address. The names are constants
  of the source, so the default is never used.
\<close>

definition csr_at :: "string \<Rightarrow> int" where
  "csr_at name = (case find (\<lambda>c. csr_name c = name) csr_table of None \<Rightarrow> 0 | Some c \<Rightarrow> csr_addr c)"

text \<open>The objects with the given names.\<close>

definition csrs_named :: "string list \<Rightarrow> csr list" where
  "csrs_named names = List.map_filter (\<lambda>n. find (\<lambda>c. csr_name c = n) csr_table) names"

text \<open>\<open>dir(csrs)\<close> lists the names of the module in alphabetical order.\<close>

definition csr_list :: "csr list" where
  "csr_list = sort_key csr_name csr_table"

text \<open>The loop \<open>for c in csrs: if c == csr: value = c.out(value); break\<close>.\<close>

definition csr_readback :: "csr list \<Rightarrow> int \<Rightarrow> int \<Rightarrow> int" where
  "csr_readback cs addr value = (case find (\<lambda>c. csr_addr c = addr) cs of None \<Rightarrow> value | Some c \<Rightarrow> csr_out c value)"

record TriggerAnyPktT =
  tp_select :: int
  tp_match :: int
  tp_store :: int
  tp_load :: int
  tp_execute :: int
  tp_m :: int
  tp_tdata2 :: int

definition pkt0 :: TriggerAnyPktT where
  "pkt0 = \<lparr>tp_select = 0, tp_match = 0, tp_store = 0, tp_load = 0, tp_execute = 0, tp_m = 0, tp_tdata2 = 0\<rparr>"

definition pkt_pins :: "string list" where
  "pkt_pins = [''trigger_pkt_any_select'', ''trigger_pkt_any_match'', ''trigger_pkt_any_store'',
     ''trigger_pkt_any_load'', ''trigger_pkt_any_execute'', ''trigger_pkt_any_m'', ''trigger_pkt_any_tdata2'']"

definition get_from_dut :: "pins \<Rightarrow> TriggerAnyPktT" where
  "get_from_dut p = \<lparr>tp_select = p ''trigger_pkt_any_select'', tp_match = p ''trigger_pkt_any_match'',
     tp_store = p ''trigger_pkt_any_store'', tp_load = p ''trigger_pkt_any_load'',
     tp_execute = p ''trigger_pkt_any_execute'', tp_m = p ''trigger_pkt_any_m'',
     tp_tdata2 = p ''trigger_pkt_any_tdata2''\<rparr>"

text \<open>The branch \<open>mtdata\<close> of both scoreboards: all seven comparisons.\<close>

definition mtdata_agrees :: "nat \<Rightarrow> int \<Rightarrow> int \<Rightarrow> TriggerAnyPktT \<Rightarrow> bool" where
  "mtdata_agrees mtsel mtdata1_i mtdata2_i pkt =
     (let select_i = get_bit mtdata1_i 19; match_i = get_bit mtdata1_i 7; store_i = get_bit mtdata1_i 1;
          load_i = get_bit mtdata1_i 0 AND NOT (get_bit mtdata1_i 19);
          execute_i = get_bit mtdata1_i 2 AND NOT (get_bit mtdata1_i 19);
          m_i = get_bit mtdata1_i 6;
          mtdata2_o = drop_bit (mtsel * 32) (tp_tdata2 pkt) AND 0xFFFFFFFF
      in mtdata2_i = mtdata2_o \<and> select_i = get_bit (tp_select pkt) mtsel \<and> match_i = get_bit (tp_match pkt) mtsel \<and>
         store_i = get_bit (tp_store pkt) mtsel \<and> load_i = get_bit (tp_load pkt) mtsel \<and>
         execute_i = get_bit (tp_execute pkt) mtsel \<and> m_i = get_bit (tp_m pkt) mtsel)"

text \<open>
  The random \<open>mtdata1\<close>: four fixed bits, then 28 drawn ones, of which the first is overwritten.
\<close>

definition random_mtdata1 :: "(nat \<Rightarrow> bool) \<Rightarrow> string" where
  "random_mtdata1 draw = (''0010'' @ map (\<lambda>i. if draw i then CHR ''1'' else CHR ''0'') [0..<28])[31 - 27 := CHR ''0'']"

section \<open>Random triggers\<close>

lemma random_mtdata1_split:
  "random_mtdata1 draw = ''00100'' @ map (\<lambda>i. if draw i then CHR ''1'' else CHR ''0'') [1..<28]"
  by (simp add: random_mtdata1_def upt_conv_Cons)

lemma bin_val_append: "bin_val (xs @ ys) = bin_val xs * 2 ^ length ys + bin_val ys"
proof (induction ys rule: rev_induct)
  case (snoc y ys)
  then show ?case by (simp add: bin_val_def algebra_simps)
qed (simp add: bin_val_def)

lemma bin_val_range: "0 \<le> bin_val s" "bin_val s < 2 ^ length s"
proof -
  have "0 \<le> bin_val s \<and> bin_val s < 2 ^ length s"
    by (induction s rule: rev_induct) (auto simp: bin_val_def)
  then show "0 \<le> bin_val s" "bin_val s < 2 ^ length s" by simp_all
qed

lemma random_mtdata1_range: "0 \<le> bin_val (random_mtdata1 draw)" "bin_val (random_mtdata1 draw) < 2 ^ 32"
  using bin_val_range [of "random_mtdata1 draw"] by (simp_all add: random_mtdata1_def)

text \<open>Remark: the random triggers have type 2 in the top bits and are writable outside debug mode.\<close>

lemma random_mtdata1_type: "drop_bit 27 (bin_val (random_mtdata1 draw)) = 4"
proof -
  let ?ys = "map (\<lambda>i. if draw i then CHR ''1'' else CHR ''0'') [1..<28]"
  have "bin_val ''00100'' = 4" by (simp add: bin_val_def)
  then have "bin_val (random_mtdata1 draw) = 4 * 2 ^ 27 + bin_val ?ys"
    unfolding random_mtdata1_split bin_val_append by simp
  moreover have "0 \<le> bin_val ?ys" "bin_val ?ys < 2 ^ 27" using bin_val_range [of ?ys] by simp_all
  ultimately show ?thesis by (simp add: drop_bit_eq_div)
qed

section \<open>What is read back\<close>

lemma csr_at_range: "0 \<le> csr_at n" "csr_at n < 4096"
proof -
  have "list_all (\<lambda>c. 0 \<le> csr_addr c \<and> csr_addr c < 2 ^ 12) csr_table"
    by (simp add: csr_table_def CSR_def)
  then have "0 \<le> csr_at n \<and> csr_at n < 2 ^ 12"
    by (auto simp: csr_at_def list_all_iff find_Some_iff split: option.split)
  then show "0 \<le> csr_at n" "csr_at n < 4096" by simp_all
qed

lemma get_bit_bit: "get_bit v i = of_bool (bit v i)"
  by (simp add: get_bit_def drop_and_one)

lemma csr_list_set: "set csr_list = set csr_table"
  by (simp add: csr_list_def)

text \<open>The search takes the alphabetically first of the registers at an address.\<close>

lemma find_hd_filter: "find P xs = (case filter P xs of [] \<Rightarrow> None | x # _ \<Rightarrow> Some x)"
  by (induction xs) simp_all

lemma csr_readback_sorted:
  "csr_readback csr_list addr v =
     (case sort_key csr_name (filter (\<lambda>c. csr_addr c = addr) csr_table) of [] \<Rightarrow> v | c # _ \<Rightarrow> csr_out c v)"
  by (simp add: csr_readback_def csr_list_def find_hd_filter filter_sort split: list.split)

lemma filter_key: "distinct (map f xs) \<Longrightarrow> c \<in> set xs \<Longrightarrow> filter (\<lambda>x. f x = f c) xs = [c]"
proof (induction xs)
  case (Cons x xs)
  show ?case
  proof (cases "c = x")
    case True
    with Cons.prems(1) have "f c \<notin> f ` set xs" by simp
    then have "filter (\<lambda>y. f y = f c) xs = []" by (simp add: filter_empty_conv image_iff) metis
    with True show ?thesis by simp
  next
    case False
    with Cons show ?thesis by auto
  qed
qed simp

lemma csrs_at_own:
  assumes "c \<in> set csr_table" "csr_addr c \<noteq> 0xBCC"
  shows "filter (\<lambda>x. csr_addr x = csr_addr c) csr_table = [c]"
proof -
  let ?t = "filter (\<lambda>x. csr_addr x \<noteq> 0xBCC) csr_table"
  have "distinct (map csr_addr ?t)" by (simp add: csr_table_def CSR_def)
  moreover have "filter (\<lambda>x. csr_addr x = csr_addr c) csr_table = filter (\<lambda>x. csr_addr x = csr_addr c) ?t"
    using assms(2) by (auto intro!: filter_cong)
  ultimately show ?thesis using filter_key [of csr_addr ?t c] assms by simp
qed

lemma csrs_at_MEICURPL: "filter (\<lambda>x. csr_addr x = 0xBCC) csr_table =
    [CSR ''MEICURPL'' 0xBCC (\<lambda>x. x AND 0xF), CSR ''MFDC'' 0xBCC (\<lambda>x. x AND 0x71FBF)]"
  by (simp add: csr_table_def CSR_def)

text \<open>
  Remark: the scoreboards predict for every register of the table the value its own function
  gives, with one exception: a register is found by its address in alphabetical order, so for
  \<open>MFDC\<close>, declared at the address of \<open>MEICURPL\<close>, they predict what \<open>MEICURPL\<close> would hold.
\<close>

theorem csr_readback_own:
  "(\<forall>c\<in>set csr_table. csr_name c \<noteq> ''MFDC'' \<longrightarrow> csr_readback csr_list (csr_addr c) v = csr_out c v) \<and>
   csr_readback csr_list (csr_at ''MFDC'') v = v AND 0xF"
proof -
  let ?dup = "[CSR ''MEICURPL'' 0xBCC (\<lambda>x. x AND 0xF), CSR ''MFDC'' 0xBCC (\<lambda>x. x AND 0x71FBF)]"
  have at: "csr_at ''MFDC'' = 0xBCC" by (simp add: csr_at_def csr_table_def CSR_def)
  have BCC: "csr_readback csr_list 0xBCC v = v AND 0xF"
    by (simp add: csr_readback_sorted csrs_at_MEICURPL CSR_def)
  have "csr_readback csr_list (csr_addr c) v = csr_out c v" if c: "c \<in> set csr_table" "csr_name c \<noteq> ''MFDC''" for c
  proof (cases "csr_addr c = 0xBCC")
    case True
    with c(1) have "c \<in> set (filter (\<lambda>x. csr_addr x = 0xBCC) csr_table)" by simp
    with c(2) have "c = hd ?dup" unfolding csrs_at_MEICURPL by (auto simp: CSR_def)
    with BCC show ?thesis by (simp add: CSR_def)
  next
    case False
    then show ?thesis using csrs_at_own [OF c(1)] by (simp add: csr_readback_sorted)
  qed
  with BCC at show ?thesis by simp
qed

theorem csr_readback_own_witness:
  "csr_readback csr_list 0x305 7 = 5"
proof -
  let ?c = "CSR ''MTVEC'' 0x305 (\<lambda>x. x AND 0xFFFFFFFD)"
  have "?c \<in> set csr_table" unfolding csr_table_def by (intro list.set_intros)
  then show ?thesis using csr_readback_own [of 7] by (auto simp: CSR_def)
qed

text \<open>
  Remark: a trigger agrees with its registers exactly when each bit of the packet for the selected
  trigger is the corresponding bit of \<open>mtdata1\<close>; load and execute triggers are off when the trigger
  matches data.
\<close>

lemma mtdata_agrees_iff:
  "mtdata_agrees k d1 d2 pkt \<longleftrightarrow>
     d2 = take_bit 32 (drop_bit (k * 32) (tp_tdata2 pkt)) \<and>
     bit (tp_select pkt) k = bit d1 19 \<and> bit (tp_match pkt) k = bit d1 7 \<and> bit (tp_store pkt) k = bit d1 1 \<and>
     bit (tp_load pkt) k = (bit d1 0 \<and> \<not> bit d1 19) \<and> bit (tp_execute pkt) k = (bit d1 2 \<and> \<not> bit d1 19) \<and>
     bit (tp_m pkt) k = bit d1 6"
proof -
  have "of_bool P AND NOT (of_bool Q) = (of_bool (P \<and> \<not> Q) :: int)" for P Q
    by (cases P; cases Q) simp_all
  then show ?thesis by (auto simp: mtdata_agrees_def get_bit_bit and_mask)
qed

end
