(* ===== verification/Dec_Bench.thy ===== *)
theory Dec_Bench
  imports Csr_Bench
begin

text \<open>
  The decoder testbench, \<open>verification/block/dec/testbench.py\<close>. A driver feeds CSR instructions to the
  decoder, two monitors report what went in and what the core answered, and a scoreboard compares.
  The configuration string \<open>TEST\<close> selects one of six tests: it is the argument \<open>dec_test\<close> of each
  part. The monitors are scripts of \<open>Signal_Script\<close>; \<open>dec_inp_item\<close> and \<open>dec_out_item\<close> build the item
  of the values one round has read. What the random generator draws is an argument: \<open>ri w\<close> is
  \<open>randint(w)\<close>, \<open>pick\<close> is \<open>random.choice\<close> on registers, \<open>draw i\<close> is the \<open>i\<close>-th choice of a digit.
\<close>

section \<open>Definitions\<close>

datatype dec_test = meihap | mtdata | csr_access | debug_ic_cache | debug_csrs_access | meicidpl

subsection \<open>Instructions\<close>

definition CSR_OPCODE :: int where
  "CSR_OPCODE = 0b1110011"

datatype Funct3 = CSRRW | CSRRS | CSRRC | CSRRWI | CSRRSI | CSRRCI

definition funct3_code :: "Funct3 \<Rightarrow> int" where
  "funct3_code f = (case f of CSRRW \<Rightarrow> 0b001 | CSRRS \<Rightarrow> 0b010 | CSRRC \<Rightarrow> 0b011
     | CSRRWI \<Rightarrow> 0b101 | CSRRSI \<Rightarrow> 0b110 | CSRRCI \<Rightarrow> 0b111)"

definition csr_access_inst :: "int \<Rightarrow> int \<Rightarrow> int \<Rightarrow> int \<Rightarrow> int \<Rightarrow> int" where
  "csr_access_inst csr rs1 funct3 rd opcode =
     (let csr_mask = push_bit 13 1 - 1; rs1_mask = push_bit 6 1 - 1; funct3_mask = push_bit 4 1 - 1;
          rd_mask = push_bit 6 1 - 1; opcode_mask = push_bit 8 1 - 1
      in push_bit 20 (csr AND csr_mask) OR push_bit 15 (rs1 AND rs1_mask) OR push_bit 12 (funct3 AND funct3_mask)
           OR push_bit 7 (rd AND rd_mask) OR (opcode AND opcode_mask))"

definition ReadCSRInst :: "int \<Rightarrow> int" where
  "ReadCSRInst csr = csr_access_inst csr 0 (funct3_code CSRRS) 0 CSR_OPCODE"

definition WriteCSRInst :: "int \<Rightarrow> int" where
  "WriteCSRInst csr = csr_access_inst csr 0 (funct3_code CSRRW) 0 CSR_OPCODE"

subsection \<open>Items\<close>

record DecInputItem =
  di_pic_pl :: int
  di_pic_claimid :: int
  di_exu_i0_result_x :: int
  di_ifu_ic_debug_rd_data :: int
  di_csrw_instr :: int
  di_csrr_instr :: int
  di_csr_addr :: int
  di_mtdata1 :: int
  di_mtdata2 :: int
  di_mtsel :: int

definition dec_input0 :: DecInputItem where
  "dec_input0 = \<lparr>di_pic_pl = 0, di_pic_claimid = 0, di_exu_i0_result_x = 0, di_ifu_ic_debug_rd_data = 0,
     di_csrw_instr = 0, di_csrr_instr = 0, di_csr_addr = 0, di_mtdata1 = 0, di_mtdata2 = 0, di_mtsel = 0\<rparr>"

record DecOutputItem =
  do_csrr_instr :: int
  do_dec_csr_wrdata_r :: int
  do_dec_csr_rddata_d :: int
  do_dec_tlu_meihap :: int
  do_trigger_pkt_any :: TriggerAnyPktT
  do_ifu_ic_debug_rd_data :: int

definition dec_output0 :: DecOutputItem where
  "dec_output0 = \<lparr>do_csrr_instr = 0, do_dec_csr_wrdata_r = 0, do_dec_csr_rddata_d = 0, do_dec_tlu_meihap = 0,
     do_trigger_pkt_any = pkt0, do_ifu_ic_debug_rd_data = 0\<rparr>"

text \<open>The last three assignments of most branches of \<open>randomize\<close>.\<close>

definition set_csr :: "int \<Rightarrow> DecInputItem \<Rightarrow> DecInputItem" where
  "set_csr addr it = it\<lparr>di_csr_addr := addr, di_csrw_instr := WriteCSRInst addr, di_csrr_instr := ReadCSRInst addr\<rparr>"

definition accessed_csrs :: "string list" where
  "accessed_csrs = [''MCOUNTINHIBIT'', ''MDCCMECT'', ''MEICURPL'', ''MEIPT'', ''MFDC'', ''MFDHT'', ''MHPMC3'',
     ''MHPMC3H'', ''MHPMC4'', ''MHPMC4H'', ''MHPMC5'', ''MHPMC5H'', ''MHPMC6'', ''MHPMC6H'', ''MHPME3'', ''MHPME4'',
     ''MHPME5'', ''MHPME6'', ''MICCMECT'', ''MICECT'', ''MINSTRETH'', ''MINSTRETL'', ''MRAC'', ''MTVEC'']"

definition debug_csrs :: "string list" where
  "debug_csrs = [''DICAD0'', ''DICAD0H'', ''DICAWICS'', ''DPC'', ''DCSR'']"

definition dec_randomize ::
  "dec_test \<Rightarrow> (nat \<Rightarrow> int) \<Rightarrow> (string list \<Rightarrow> string) \<Rightarrow> (nat \<Rightarrow> bool) \<Rightarrow> DecInputItem \<Rightarrow> DecInputItem" where
  "dec_randomize test ri pick draw it = (case test of
     meihap \<Rightarrow> set_csr (csr_at ''MEIVT'') (it\<lparr>di_pic_claimid := ri 8, di_exu_i0_result_x := push_bit 10 (ri 22)\<rparr>)
   | mtdata \<Rightarrow> it\<lparr>di_mtdata1 := bin_val (random_mtdata1 draw), di_mtdata2 := ri 32, di_mtsel := ri 2\<rparr>
   | csr_access \<Rightarrow> set_csr (csr_at (pick accessed_csrs)) (it\<lparr>di_exu_i0_result_x := ri 32\<rparr>)
   | debug_ic_cache \<Rightarrow> it\<lparr>di_ifu_ic_debug_rd_data := ri 71\<rparr>
   | debug_csrs_access \<Rightarrow> set_csr (csr_at (pick debug_csrs)) (it\<lparr>di_exu_i0_result_x := ri 32\<rparr>)
   | meicidpl \<Rightarrow> set_csr (csr_at ''MEICIDPL'') (it\<lparr>di_pic_pl := ri 4\<rparr>))"

definition dec_sequence ::
  "dec_test \<Rightarrow> nat \<Rightarrow> (nat \<Rightarrow> nat \<Rightarrow> int) \<Rightarrow> (nat \<Rightarrow> string list \<Rightarrow> string) \<Rightarrow> (nat \<Rightarrow> nat \<Rightarrow> bool) \<Rightarrow> DecInputItem list" where
  "dec_sequence test count ri pick draw =
     map (\<lambda>k. dec_randomize test (ri k) (pick k) (draw k) dec_input0) [0..<count]"

subsection \<open>Driver\<close>

definition read_csr :: "int \<Rightarrow> action list" where
  "read_csr instr =
     [Drive ''ifu_i0_valid'' 0, Await (RisingEdge ''clk''), Drive ''ifu_i0_valid'' 1, Drive ''ifu_i0_instr'' instr,
      Await (RisingEdge ''clk''), Drive ''ifu_i0_valid'' 0, Drive ''ifu_i0_instr'' 0]"

definition write_csr :: "int \<Rightarrow> int \<Rightarrow> action list" where
  "write_csr instr data =
     [Drive ''ifu_i0_valid'' 0, Await (RisingEdge ''clk''), Drive ''ifu_i0_valid'' 1, Drive ''ifu_i0_instr'' instr,
      Await (RisingEdge ''clk''), Drive ''ifu_i0_instr'' 0, Drive ''exu_i0_result_x'' data, Drive ''ifu_i0_valid'' 0,
      Await (RisingEdge ''clk''), Drive ''exu_i0_result_x'' 0]"

definition dec_drive :: "dec_test \<Rightarrow> DecInputItem \<Rightarrow> action list" where
  "dec_drive test it = (case test of
     meihap \<Rightarrow> write_csr (di_csrw_instr it) (di_exu_i0_result_x it) @ [Await (ClockCycles ''clk'' 2),
       Drive ''pic_claimid'' (di_pic_claimid it)] @ write_csr (WriteCSRInst (csr_at ''MEICPCT'')) (di_exu_i0_result_x it) @
       [Await (ClockCycles ''clk'' 2)]
   | mtdata \<Rightarrow> write_csr (WriteCSRInst (csr_at ''MTSEL'')) (di_mtsel it) @
       write_csr (WriteCSRInst (csr_at ''MTDATA1'')) (di_mtdata1 it) @
       write_csr (WriteCSRInst (csr_at ''MTDATA2'')) (di_mtdata2 it) @ [Await (ClockCycles ''clk'' 4)]
   | csr_access \<Rightarrow> write_csr (di_csrw_instr it) (di_exu_i0_result_x it) @ [Await (ClockCycles ''clk'' 2)] @
       read_csr (di_csrr_instr it) @ [Await (RisingEdge ''clk'')]
   | debug_ic_cache \<Rightarrow> [Drive ''ifu_ic_debug_rd_data_valid'' 1,
       Drive ''ifu_ic_debug_rd_data'' (di_ifu_ic_debug_rd_data it), Await (RisingEdge ''clk''),
       Drive ''ifu_ic_debug_rd_data_valid'' 0] @ read_csr (ReadCSRInst (csr_at ''DICAD0'')) @
       read_csr (ReadCSRInst (csr_at ''DICAD0H'')) @ read_csr (ReadCSRInst (csr_at ''DICAD1''))
   | debug_csrs_access \<Rightarrow> write_csr (di_csrw_instr it) (di_exu_i0_result_x it) @ [Await (ClockCycles ''clk'' 2)] @
       read_csr (di_csrr_instr it) @ [Await (ClockCycles ''clk'' 2)]
   | meicidpl \<Rightarrow> [Drive ''pic_pl'' (di_pic_pl it)] @ write_csr (di_csrw_instr it) 0 @
       [Await (ClockCycles ''clk'' 2)] @ read_csr (di_csrr_instr it) @ [Await (RisingEdge ''clk'')])"

definition dec_drive_any :: "dec_test \<Rightarrow> DecInputItem seq_item \<Rightarrow> action list py" where
  "dec_drive_any test it = (case it of Item i \<Rightarrow> Inr (dec_drive test i) | OtherItem \<Rightarrow> Inl RuntimeError)"

subsection \<open>Monitors\<close>

definition dec_inp_script :: "dec_test \<Rightarrow> mon_op list" where
  "dec_inp_script test = (case test of
     meihap \<Rightarrow> [Rise ''ifu_i0_valid'', Edges 2, Read ''exu_i0_result_x'', Rise ''ifu_i0_valid'', Read ''pic_claimid'']
   | mtdata \<Rightarrow> [Rise ''ifu_i0_valid'', Edges 2, Read ''exu_i0_result_x'', Rise ''ifu_i0_valid'', Edges 2,
       Read ''exu_i0_result_x'', Rise ''ifu_i0_valid'', Edges 2, Read ''exu_i0_result_x'']
   | csr_access \<Rightarrow> [Rise ''ifu_i0_valid'', Edges 1, Read ''ifu_i0_instr'', Edges 1, Read ''exu_i0_result_x'',
       Rise ''ifu_i0_valid'', Edges 1, Read ''ifu_i0_instr'']
   | debug_ic_cache \<Rightarrow> [Rise ''ifu_ic_debug_rd_data_valid'', Edges 1, Read ''ifu_ic_debug_rd_data'', Edges 4]
   | debug_csrs_access \<Rightarrow> [Rise ''ifu_i0_valid'', Edges 1, Read ''ifu_i0_instr'', Edges 1, Read ''exu_i0_result_x'',
       Rise ''ifu_i0_valid'', Edges 1]
   | meicidpl \<Rightarrow> [Rise ''ifu_i0_valid'', Read ''ifu_i0_instr'', Edges 2, Read ''exu_i0_result_x'', Rise ''ifu_i0_valid''])"

definition dec_inp_item :: "dec_test \<Rightarrow> int list \<Rightarrow> DecInputItem" where
  "dec_inp_item test v = (case test of
     meihap \<Rightarrow> dec_input0\<lparr>di_exu_i0_result_x := v ! 0, di_pic_claimid := v ! 1\<rparr>
   | mtdata \<Rightarrow> dec_input0\<lparr>di_mtsel := v ! 0, di_mtdata1 := v ! 1, di_mtdata2 := v ! 2\<rparr>
   | csr_access \<Rightarrow> dec_input0\<lparr>di_csrw_instr := v ! 0, di_exu_i0_result_x := v ! 1, di_csrr_instr := v ! 2\<rparr>
   | debug_ic_cache \<Rightarrow> dec_input0\<lparr>di_ifu_ic_debug_rd_data := v ! 0\<rparr>
   | debug_csrs_access \<Rightarrow> dec_input0\<lparr>di_csr_addr := drop_bit 20 (v ! 0), di_exu_i0_result_x := v ! 1\<rparr>
   | meicidpl \<Rightarrow> dec_input0\<lparr>di_csr_addr := drop_bit 20 (v ! 0), di_exu_i0_result_x := v ! 1\<rparr>)"

definition dec_out_script :: "dec_test \<Rightarrow> mon_op list" where
  "dec_out_script test = (case test of
     meihap \<Rightarrow> replicate 2 (Rise ''ifu_i0_valid'') @ [Edges 4, Read ''dec_tlu_meihap'']
   | mtdata \<Rightarrow> replicate 3 (Rise ''ifu_i0_valid'') @ [Edges 4] @ map Read pkt_pins
   | csr_access \<Rightarrow> replicate 2 (Rise ''ifu_i0_valid'') @ [Edges 1, Read ''ifu_i0_instr'', Read ''dec_csr_rddata_d'']
   | debug_ic_cache \<Rightarrow> [Rise ''ifu_ic_debug_rd_data_valid'', Rise ''ifu_i0_valid'', Edges 1, Read ''dec_csr_rddata_d'',
       Rise ''ifu_i0_valid'', Edges 1, Read ''dec_csr_rddata_d'', Rise ''ifu_i0_valid'', Edges 1, Read ''dec_csr_rddata_d'']
   | debug_csrs_access \<Rightarrow> replicate 2 (Rise ''ifu_i0_valid'') @ [Edges 1, Read ''dec_csr_rddata_d'']
   | meicidpl \<Rightarrow> replicate 2 (Rise ''ifu_i0_valid'') @ [Read ''ifu_i0_instr'', Edges 1, Read ''dec_csr_rddata_d''])"

definition dec_out_item :: "dec_test \<Rightarrow> int list \<Rightarrow> DecOutputItem" where
  "dec_out_item test v = (case test of
     meihap \<Rightarrow> dec_output0\<lparr>do_dec_tlu_meihap := v ! 0\<rparr>
   | mtdata \<Rightarrow> dec_output0\<lparr>do_trigger_pkt_any := \<lparr>tp_select = v ! 0, tp_match = v ! 1, tp_store = v ! 2,
       tp_load = v ! 3, tp_execute = v ! 4, tp_m = v ! 5, tp_tdata2 = v ! 6\<rparr>\<rparr>
   | csr_access \<Rightarrow> dec_output0\<lparr>do_csrr_instr := v ! 0, do_dec_csr_rddata_d := v ! 1\<rparr>
   | debug_ic_cache \<Rightarrow>
       dec_output0\<lparr>do_ifu_ic_debug_rd_data := v ! 0 OR push_bit 32 (v ! 1) OR push_bit 64 (v ! 2)\<rparr>
   | debug_csrs_access \<Rightarrow> dec_output0\<lparr>do_dec_csr_rddata_d := v ! 0\<rparr>
   | meicidpl \<Rightarrow> dec_output0\<lparr>do_csrr_instr := v ! 0, do_dec_csr_rddata_d := v ! 1\<rparr>)"

subsection \<open>Scoreboard\<close>

text \<open>The message of the last branch uses a variable that only other branches assign.\<close>

definition dec_judge :: "dec_test \<Rightarrow> DecInputItem \<Rightarrow> DecOutputItem \<Rightarrow> bool py" where
  "dec_judge test i out = (case test of
     meihap \<Rightarrow> Inr (di_pic_claimid i = do_dec_tlu_meihap out AND 0xFF \<and>
       drop_bit 12 (di_exu_i0_result_x i) = drop_bit 10 (do_dec_tlu_meihap out))
   | mtdata \<Rightarrow> Inr (mtdata_agrees (nat (di_mtsel i)) (di_mtdata1 i) (di_mtdata2 i) (do_trigger_pkt_any out))
   | csr_access \<Rightarrow>
       (let wr_addr = drop_bit 20 (di_csrw_instr i) AND (push_bit 13 1 - 1);
            rd_addr = drop_bit 20 (di_csrr_instr i) AND (push_bit 13 1 - 1)
        in Inr (wr_addr = rd_addr \<and>
          csr_readback csr_list rd_addr (di_exu_i0_result_x i) = do_dec_csr_rddata_d out))
   | debug_ic_cache \<Rightarrow> Inr (di_ifu_ic_debug_rd_data i = do_ifu_ic_debug_rd_data out)
   | debug_csrs_access \<Rightarrow> Inr (csr_readback (csrs_named debug_csrs) (di_csr_addr i) (di_exu_i0_result_x i) =
       do_dec_csr_rddata_d out)
   | meicidpl \<Rightarrow>
       (if csr_readback (csrs_named [''MEICIDPL'']) (csr_at ''MEICIDPL'') (di_exu_i0_result_x i) \<noteq> do_dec_csr_rddata_d out
        then Inl UnboundLocalError else Inr True))"

definition dec_check_phase ::
  "dec_test \<Rightarrow> ('p \<Rightarrow> DecInputItem option \<times> 'p) \<Rightarrow> ('q \<Rightarrow> DecOutputItem option \<times> 'q) \<Rightarrow> 'p \<Rightarrow> 'q \<Rightarrow> bool option py option" where
  "dec_check_phase test try_get_inp try_get_out port_inp port_out =
     pair_loop try_get_inp try_get_out (dec_judge test) port_inp port_out None"

subsection \<open>Test\<close>

definition enter_debug_mode :: "int \<Rightarrow> action list" where
  "enter_debug_mode o_debug_mode_status =
     [Drive ''dbg_halt_req'' 1, Await (ClockCycles ''clk'' 2), Drive ''dbg_halt_req'' 0] @
     (if o_debug_mode_status = 0 then [Await (RisingEdge ''o_debug_mode_status'')] else [])"

definition dec_do_reset :: "action list" where
  "dec_do_reset = [Drive ''rst_l'' 0, Await (ClockCycles ''clk'' 2), Await (FallingEdge ''clk''), Drive ''rst_l'' 1]"

text \<open>The inputs of the core the test sets to zero, in the order of the source.\<close>

definition dec_zeroed :: "string list" where
  "dec_zeroed =
    [''lsu_fastint_stall_any'', ''rst_vec'', ''nmi_int'', ''nmi_vec'', ''i_cpu_halt_req'', ''i_cpu_run_req'',
     ''core_id'', ''mpc_debug_halt_req'', ''mpc_debug_run_req'', ''exu_pmu_i0_br_misp'', ''exu_pmu_i0_br_ataken'',
     ''exu_pmu_i0_pc4'', ''lsu_nonblock_load_valid_m'', ''lsu_nonblock_load_tag_m'', ''lsu_nonblock_load_inv_r'',
     ''lsu_nonblock_load_inv_tag_r'', ''lsu_nonblock_load_data_valid'', ''lsu_nonblock_load_data_error'',
     ''lsu_nonblock_load_data_tag'', ''lsu_nonblock_load_data'', ''lsu_pmu_bus_trxn'', ''lsu_pmu_bus_misaligned'',
     ''lsu_pmu_bus_error'', ''lsu_pmu_bus_busy'', ''lsu_pmu_misaligned_m'', ''lsu_pmu_load_external_m'',
     ''lsu_pmu_store_external_m'', ''dma_pmu_dccm_read'', ''dma_pmu_dccm_write'', ''dma_pmu_any_read'',
     ''dma_pmu_any_write'', ''lsu_fir_addr'', ''lsu_fir_error'', ''ifu_pmu_instr_aligned'',
     ''ifu_pmu_fetch_stall'', ''ifu_pmu_ic_miss'', ''ifu_pmu_ic_hit'', ''ifu_pmu_bus_error'', ''ifu_pmu_bus_busy'',
     ''ifu_pmu_bus_trxn'', ''ifu_ic_error_start'', ''ifu_iccm_rd_ecc_single_err'', ''lsu_trigger_match_m'',
     ''dbg_cmd_valid'', ''dbg_cmd_write'', ''dbg_cmd_type'', ''dbg_cmd_addr'', ''dbg_cmd_wrdata'', ''ifu_i0_icaf'',
     ''ifu_i0_icaf_type'', ''ifu_i0_icaf_second'', ''ifu_i0_dbecc'', ''ifu_i0_bp_index'', ''ifu_i0_bp_fghr'',
     ''ifu_i0_bp_btag'', ''ifu_i0_fa_index'', ''lsu_single_ecc_error_incr'', ''lsu_imprecise_error_load_any'',
     ''lsu_imprecise_error_store_any'', ''lsu_imprecise_error_addr_any'', ''exu_div_result'', ''exu_div_wren'',
     ''exu_csr_rs1_x'', ''lsu_result_m'', ''lsu_result_corr_r'', ''lsu_load_stall_any'', ''lsu_store_stall_any'',
     ''dma_dccm_stall_any'', ''dma_iccm_stall_any'', ''iccm_dma_sb_error'', ''exu_flush_final'', ''exu_npc_r'',
     ''exu_i0_result_x'', ''ifu_i0_valid'', ''ifu_i0_instr'', ''ifu_i0_pc'', ''ifu_i0_pc4'', ''exu_i0_pc_x'',
     ''mexintpend'', ''timer_int'', ''soft_int'', ''pic_claimid'', ''pic_pl'', ''mhwakeup'',
     ''ifu_ic_debug_rd_data'', ''ifu_ic_debug_rd_data_valid'', ''dbg_halt_req'', ''dbg_resume_req'',
     ''exu_i0_br_hist_r'', ''exu_i0_br_error_r'', ''exu_i0_br_start_error_r'', ''exu_i0_br_valid_r'',
     ''exu_i0_br_mp_r'', ''exu_i0_br_middle_r'', ''exu_i0_br_way_r'', ''ifu_i0_cinst'']"

text \<open>Everything \<open>run_phase\<close> does before the items; \<open>status\<close> is read in \<open>enter_debug_mode\<close>.\<close>

definition dec_prepare :: "dec_test \<Rightarrow> int \<Rightarrow> action list" where
  "dec_prepare test status =
     [Drive ''mpc_reset_run_req'' 1, Drive ''lsu_idle_any'' 1, Drive ''ifu_miss_state_idle'' 1] @
     map (\<lambda>s. Drive s 0) dec_zeroed @ dec_do_reset @ [Await (ClockCycles ''clk'' 2)] @
     (if test = debug_csrs_access then enter_debug_mode status else [])"

section \<open>What the monitors see\<close>

definition dec_width :: "(string \<times> nat) list" where
  "dec_width = [(''ifu_i0_valid'', 1), (''ifu_i0_instr'', 32), (''exu_i0_result_x'', 32), (''pic_claimid'', 8),
     (''pic_pl'', 4), (''ifu_ic_debug_rd_data'', 71), (''ifu_ic_debug_rd_data_valid'', 1)]"

definition dec_sigs :: "dec_test \<Rightarrow> string list" where
  "dec_sigs test = (if test = debug_ic_cache then [''ifu_ic_debug_rd_data_valid''] else [''ifu_i0_valid''])"

definition dec_held :: "dec_test \<Rightarrow> string list" where
  "dec_held test = (if test = debug_ic_cache then [''ifu_ic_debug_rd_data_valid''] else [])"

definition dec_ok :: "dec_test \<Rightarrow> (string \<Rightarrow> int \<Rightarrow> int) \<Rightarrow> DecInputItem \<Rightarrow> bool" where
  "dec_ok test rd it \<longleftrightarrow> holds_width rd dec_width \<and>
     0 \<le> di_pic_claimid it \<and> di_pic_claimid it < 2 ^ 8 \<and>
     0 \<le> di_exu_i0_result_x it \<and> di_exu_i0_result_x it < 2 ^ 32 \<and>
     0 \<le> di_ifu_ic_debug_rd_data it \<and> di_ifu_ic_debug_rd_data it < 2 ^ 71 \<and>
     0 \<le> di_mtdata1 it \<and> di_mtdata1 it < 2 ^ 32 \<and> 0 \<le> di_mtdata2 it \<and> di_mtdata2 it < 2 ^ 32 \<and>
     0 \<le> di_mtsel it \<and> di_mtsel it < 2 ^ 32 \<and> 
     0 \<le> di_csrw_instr it \<and> di_csrw_instr it < 2 ^ 32 \<and> 0 \<le> di_csrr_instr it \<and> di_csrr_instr it < 2 ^ 32"

definition dec_inp_vals :: "dec_test \<Rightarrow> DecInputItem \<Rightarrow> int list" where
  "dec_inp_vals test it = (case test of
     meihap \<Rightarrow> [di_exu_i0_result_x it, di_pic_claimid it]
   | mtdata \<Rightarrow> [di_mtsel it, di_mtdata1 it, di_mtdata2 it]
   | csr_access \<Rightarrow> [di_csrw_instr it, di_exu_i0_result_x it, di_csrr_instr it]
   | debug_ic_cache \<Rightarrow> [di_ifu_ic_debug_rd_data it]
   | debug_csrs_access \<Rightarrow> [di_csrw_instr it, di_exu_i0_result_x it]
   | meicidpl \<Rightarrow> [di_csrw_instr it, 0])"

definition dec_out_vals :: "dec_test \<Rightarrow> (nat \<Rightarrow> pins) \<Rightarrow> nat \<Rightarrow> DecInputItem \<Rightarrow> int list" where
  "dec_out_vals test env t it = (case test of
     meihap \<Rightarrow> [env (t + 9) ''dec_tlu_meihap'']
   | mtdata \<Rightarrow> map (env (t + 10)) pkt_pins
   | csr_access \<Rightarrow> [di_csrr_instr it, env (t + 6) ''dec_csr_rddata_d'']
   | debug_ic_cache \<Rightarrow> map (\<lambda>k. env (t + k) ''dec_csr_rddata_d'') [2, 4, 6]
   | debug_csrs_access \<Rightarrow> [env (t + 6) ''dec_csr_rddata_d'']
   | meicidpl \<Rightarrow> [di_csrr_instr it, env (t + 6) ''dec_csr_rddata_d''])"

definition dec_outs :: "string list" where
  "dec_outs = map fst dec_width"

lemma dec_outs_join [simp]:
  "join_pins dec_outs p e ''ifu_i0_valid'' = p ''ifu_i0_valid''"
  "join_pins dec_outs p e ''ifu_i0_instr'' = p ''ifu_i0_instr''"
  "join_pins dec_outs p e ''exu_i0_result_x'' = p ''exu_i0_result_x''"
  "join_pins dec_outs p e ''pic_claimid'' = p ''pic_claimid''"
  "join_pins dec_outs p e ''ifu_ic_debug_rd_data'' = p ''ifu_ic_debug_rd_data''"
  "join_pins dec_outs p e ''ifu_ic_debug_rd_data_valid'' = p ''ifu_ic_debug_rd_data_valid''"
  "join_pins dec_outs p e ''dec_tlu_meihap'' = e ''dec_tlu_meihap''"
  "join_pins dec_outs p e ''dec_csr_rddata_d'' = e ''dec_csr_rddata_d''"
  by (simp_all add: join_pins_def dec_outs_def dec_width_def)

lemma dec_pkt_join: "map (join_pins dec_outs p e) pkt_pins = map e pkt_pins"
  by (simp add: join_pins_def dec_outs_def dec_width_def pkt_pins_def)

lemma dec_rd:
  assumes "holds_width rd dec_width" 
  shows "rd ''ifu_i0_valid'' 0 = 0" "rd ''ifu_i0_valid'' 1 = 1" "rd ''ifu_i0_instr'' 0 = 0" "rd ''exu_i0_result_x'' 0 = 0"
    "rd ''ifu_ic_debug_rd_data_valid'' 0 = 0" "rd ''ifu_ic_debug_rd_data_valid'' 1 = 1"
    "0 \<le> v \<Longrightarrow> v < 2 ^ 32 \<Longrightarrow> rd ''exu_i0_result_x'' v = v" "0 \<le> v \<Longrightarrow> v < 2 ^ 32 \<Longrightarrow> rd ''ifu_i0_instr'' v = v"
    "0 \<le> v \<Longrightarrow> v < 2 ^ 8 \<Longrightarrow> rd ''pic_claimid'' v = v" "0 \<le> v \<Longrightarrow> v < 2 ^ 71 \<Longrightarrow> rd ''ifu_ic_debug_rd_data'' v = v"
  using assms by (simp_all add: holds_width_def dec_width_def)

lemmas dec_run_simps = write_csr_def read_csr_def await_rise_skip1 numeral_eq_Suc ex_left_over run_script_reads dec_pkt_join

lemma dec_inp_round:
  assumes "dec_ok test rd it" "resting (dec_sigs test) c ls" "quiet (dec_held test) (last (c # ls))"
  shows "\<exists>c' ls'. run_script (dec_inp_script test) c
      (ls @ observed dec_outs env t (clk_samples d rd (dec_drive test it) p) @ rest) =
        Some (dec_inp_vals test it, (c', ls' @ rest)) \<and> resting (dec_sigs test) c' ls' \<and>
        quiet (dec_held test) (last (c' # ls'))"
proof -
  from assms(1) have w: "holds_width rd dec_width" by (simp add: dec_ok_def)
  show ?thesis using assms
    by (cases test)
      (simp_all add: dec_ok_def dec_inp_script_def dec_drive_def dec_inp_vals_def dec_sigs_def dec_held_def
         dec_rd [OF w] dec_run_simps split: if_splits)
qed

lemma dec_out_round:
  assumes "dec_ok test rd it" "resting (dec_sigs test) c ls" "quiet (dec_held test) (last (c # ls))"
  shows "\<exists>c' ls'. run_script (dec_out_script test) c
      (ls @ observed dec_outs env t (clk_samples d rd (dec_drive test it) p) @ rest) =
        Some (dec_out_vals test env t it, (c', ls' @ rest)) \<and> resting (dec_sigs test) c' ls' \<and>
        quiet (dec_held test) (last (c' # ls'))"
proof -
  from assms(1) have w: "holds_width rd dec_width" by (simp add: dec_ok_def)
  show ?thesis using assms
    by (cases test)
      (simp_all add: dec_ok_def dec_out_script_def dec_drive_def dec_out_vals_def dec_sigs_def dec_held_def
         dec_rd [OF w] dec_run_simps split: if_splits)
qed

interpretation dec_inp: script_unit "dec_drive test" "dec_inp_script test" "dec_sigs test" "dec_held test" dec_outs
  "\<lambda>_. True" "dec_ok test" "\<lambda>env d t p. dec_inp_vals test" for test
proof
  show "resting (dec_sigs test) c ls \<Longrightarrow> run_script (dec_inp_script test) c ls = None" for c ls
    by (cases test) (simp_all add: dec_inp_script_def dec_sigs_def await_rise_resting)
  show "dec_ok test rd it \<Longrightarrow> quiet (dec_sigs test) p \<Longrightarrow> quiet (dec_sigs test) (pins_after rd (dec_drive test it) p)"
    for rd it p
    by (cases test) (simp_all add: dec_ok_def dec_drive_def dec_sigs_def write_csr_def read_csr_def dec_rd)
qed (use dec_inp_round in simp)

interpretation dec_out: script_unit "dec_drive test" "dec_out_script test" "dec_sigs test" "dec_held test" dec_outs
  "\<lambda>_. True" "dec_ok test" "\<lambda>env d t p. dec_out_vals test env t" for test
proof
  show "resting (dec_sigs test) c ls \<Longrightarrow> run_script (dec_out_script test) c ls = None" for c ls
    by (cases test) (simp_all add: dec_out_script_def dec_sigs_def await_rise_resting numeral_eq_Suc)
qed (use dec_out_round dec_inp.release in simp_all)

section \<open>Instructions\<close>

lemma and_low_mask: "0 \<le> (v::int) \<Longrightarrow> v < 2 ^ n \<Longrightarrow> n \<le> m \<Longrightarrow> v AND (push_bit m 1 - 1) = v"
proof -
  assume "0 \<le> v" "v < 2 ^ n" "n \<le> m"
  then have "v < 2 ^ m" by (meson less_le_trans numeral_le_one_iff one_le_numeral power_increasing)
  with \<open>0 \<le> v\<close> have "take_bit m v = v" by (simp add: take_bit_int_eq_self_iff)
  then show ?thesis by (simp add: take_bit_eq_mask mask_eq_exp_minus_1 push_bit_eq_mult)
qed

lemma high_bit: "0 \<le> (v::int) \<Longrightarrow> v < 2 ^ n \<Longrightarrow> bit v i \<Longrightarrow> i < n"
  by (metis bit_take_bit_iff take_bit_int_eq_self_iff)

lemma bit_csr_access_inst:
  assumes "0 \<le> csr" "csr < 2 ^ 12" "0 \<le> rs1" "rs1 < 2 ^ 5" "0 \<le> funct3" "funct3 < 2 ^ 3" "0 \<le> rd" "rd < 2 ^ 5"
    "0 \<le> opcode" "opcode < 2 ^ 7"
  shows "bit (csr_access_inst csr rs1 funct3 rd opcode) i \<longleftrightarrow>
    (if i < 7 then bit opcode i else if i < 12 then bit rd (i - 7) else if i < 15 then bit funct3 (i - 12)
     else if i < 20 then bit rs1 (i - 15) else i < 32 \<and> bit csr (i - 20))"
proof -
  note hb = high_bit [OF assms(1,2)] high_bit [OF assms(3,4)] high_bit [OF assms(5,6)] high_bit [OF assms(7,8)]
    high_bit [OF assms(9,10)]
  have "bit csr (i - 20) \<Longrightarrow> i - 20 < 12" "bit rs1 (i - 15) \<Longrightarrow> i - 15 < 5" "bit funct3 (i - 12) \<Longrightarrow> i - 12 < 3"
    "bit rd (i - 7) \<Longrightarrow> i - 7 < 5" "bit opcode i \<Longrightarrow> i < 7" using hb by blast+
  moreover have mm: "12 \<le> (13::nat)" "5 \<le> (6::nat)" "3 \<le> (4::nat)" "7 \<le> (8::nat)" by simp_all
  have "csr_access_inst csr rs1 funct3 rd opcode =
      push_bit 20 csr OR push_bit 15 rs1 OR push_bit 12 funct3 OR push_bit 7 rd OR opcode"
    unfolding csr_access_inst_def Let_def
      and_low_mask [OF assms(1,2), where m = 13, OF mm(1)] and_low_mask [OF assms(3,4), where m = 6, OF mm(2)]
      and_low_mask [OF assms(5,6), where m = 4, OF mm(3)] and_low_mask [OF assms(7,8), where m = 6, OF mm(2)]
      and_low_mask [OF assms(9,10), where m = 8, OF mm(4)] by simp
  ultimately show ?thesis by (auto simp: bit_or_iff bit_push_bit_iff)
qed

text \<open>
  Remark: an instruction assembled from fields of their architectural widths fits 32 bits and
  holds each field where the architecture has it.
\<close>

theorem csr_access_inst_fields:
  assumes "0 \<le> csr" "csr < 2 ^ 12" "0 \<le> rs1" "rs1 < 2 ^ 5" "0 \<le> funct3" "funct3 < 2 ^ 3" "0 \<le> rd" "rd < 2 ^ 5"
    "0 \<le> opcode" "opcode < 2 ^ 7"
  shows "take_bit 32 (csr_access_inst csr rs1 funct3 rd opcode) = csr_access_inst csr rs1 funct3 rd opcode \<and>
    take_bit 7 (csr_access_inst csr rs1 funct3 rd opcode) = opcode \<and>
    take_bit 5 (drop_bit 7 (csr_access_inst csr rs1 funct3 rd opcode)) = rd \<and>
    take_bit 3 (drop_bit 12 (csr_access_inst csr rs1 funct3 rd opcode)) = funct3 \<and>
    take_bit 5 (drop_bit 15 (csr_access_inst csr rs1 funct3 rd opcode)) = rs1 \<and>
    drop_bit 20 (csr_access_inst csr rs1 funct3 rd opcode) = csr"
proof -
  note hb = high_bit [OF assms(1,2)] high_bit [OF assms(3,4)] high_bit [OF assms(5,6)] high_bit [OF assms(7,8)]
    high_bit [OF assms(9,10)]
  show ?thesis
    by (intro conjI; rule bit_eqI)
      (use hb in \<open>auto simp: bit_take_bit_iff bit_drop_bit_eq bit_csr_access_inst [OF assms]\<close>)
qed

theorem csr_access_inst_fields_witness:
  "take_bit 5 (drop_bit 15 (csr_access_inst 0x305 9 1 4 CSR_OPCODE)) = 9 \<and>
   drop_bit 20 (csr_access_inst 0x305 9 1 4 CSR_OPCODE) = 0x305"
  using csr_access_inst_fields [of "0x305" 9 1 4 CSR_OPCODE] by (simp add: CSR_OPCODE_def)

lemma drop_csr_access_inst:
  assumes "0 \<le> csr" "csr < 2 ^ 12" "0 \<le> funct3" "funct3 < 2 ^ 3"
  shows "drop_bit 20 (csr_access_inst csr 0 funct3 0 CSR_OPCODE) = csr"
    and "0 \<le> csr_access_inst csr 0 funct3 0 CSR_OPCODE"
    and "csr_access_inst csr 0 funct3 0 CSR_OPCODE < 2 ^ 32"
proof -
  let ?i = "csr_access_inst csr 0 funct3 0 CSR_OPCODE"
  have b: "bit ?i i \<longleftrightarrow> (if i < 7 then bit CSR_OPCODE i else if i < 12 then bit (0::int) (i - 7)
      else if i < 15 then bit funct3 (i - 12) else if i < 20 then bit (0::int) (i - 15) else i < 32 \<and> bit csr (i - 20))" for i
    by (rule bit_csr_access_inst) (use assms in \<open>simp_all add: CSR_OPCODE_def\<close>)
  show "drop_bit 20 ?i = csr"
    by (rule bit_eqI) (use high_bit [OF assms(1,2)] in \<open>auto simp: bit_drop_bit_eq b\<close>)
  have "take_bit 32 ?i = ?i" by (rule bit_eqI) (auto simp: bit_take_bit_iff b)
  then show "0 \<le> ?i" "?i < 2 ^ 32" by (simp_all only: take_bit_int_eq_self_iff)
qed

lemma funct3_code_range: "0 \<le> funct3_code f" "funct3_code f < 2 ^ 3"
  by (cases f; simp add: funct3_code_def)+

lemma encode_csr:
  assumes "0 \<le> c" "c < 4096"
  shows "drop_bit 20 (ReadCSRInst c) = c" "0 \<le> ReadCSRInst c" "ReadCSRInst c < 4294967296"
    "drop_bit 20 (WriteCSRInst c) = c" "0 \<le> WriteCSRInst c" "WriteCSRInst c < 4294967296"
  using drop_csr_access_inst [OF assms(1) _ funct3_code_range] assms(2)
  by (simp_all add: ReadCSRInst_def WriteCSRInst_def)

section \<open>Random items\<close>

text \<open>What \<open>random.randint\<close> promises.\<close>

definition in_range :: "(nat \<Rightarrow> int) \<Rightarrow> bool" where
  "in_range ri \<longleftrightarrow> (\<forall>w. 0 \<le> ri w \<and> ri w < 2 ^ w)"

lemma dec_randomize_ok:
  assumes "in_range ri" "holds_width rd dec_width"
  shows "dec_ok test rd (dec_randomize test ri pick draw dec_input0)"
proof -
  have "0 \<le> ri w" "ri w < 2 ^ w" for w using assms(1) by (simp_all add: in_range_def)
  note r = this(1) this(2) [of 8, simplified] this(2) [of 22, simplified] this(2) [of 32, simplified]
    this(2) [of 71, simplified] this(2) [of 2, simplified]
  have m: "0 \<le> bin_val (random_mtdata1 draw)" "bin_val (random_mtdata1 draw) < 4294967296"
    using random_mtdata1_range [of draw] by simp_all
  have "push_bit 10 (ri 22) < 4294967296" using r(3) by (simp add: push_bit_eq_mult)
  then show ?thesis
    using assms(2) r m
    by (cases test) (simp_all add: dec_ok_def dec_randomize_def dec_input0_def set_csr_def encode_csr csr_at_range)
qed

lemma dec_sequence_ok:
  assumes "\<forall>k. in_range (ri k)" "holds_width rd dec_width"
  shows "list_all (dec_ok test rd) (dec_sequence test n ri pick draw)"
  using dec_randomize_ok assms by (auto simp: dec_sequence_def list_all_iff)

section \<open>The bench\<close>

text \<open>The edges one item takes, and what the core has to show \<open>t\<close> edges after the start for it.\<close>

definition dec_period :: "dec_test \<Rightarrow> nat" where
  "dec_period test = (case test of meihap \<Rightarrow> 10 | mtdata \<Rightarrow> 13 | csr_access \<Rightarrow> 8 | debug_ic_cache \<Rightarrow> 7
     | debug_csrs_access \<Rightarrow> 9 | meicidpl \<Rightarrow> 8)"

definition dec_answers :: "dec_test \<Rightarrow> (nat \<Rightarrow> pins) \<Rightarrow> nat \<Rightarrow> DecInputItem \<Rightarrow> bool" where
  "dec_answers test env t it = (case test of
     meihap \<Rightarrow> take_bit 8 (env (t + 9) ''dec_tlu_meihap'') = di_pic_claimid it \<and>
       drop_bit 10 (env (t + 9) ''dec_tlu_meihap'') = drop_bit 12 (di_exu_i0_result_x it)
   | mtdata \<Rightarrow> mtdata_agrees (nat (di_mtsel it)) (di_mtdata1 it) (di_mtdata2 it) (get_from_dut (env (t + 10)))
   | csr_access \<Rightarrow> env (t + 6) ''dec_csr_rddata_d'' = csr_readback csr_list (di_csr_addr it) (di_exu_i0_result_x it)
   | debug_ic_cache \<Rightarrow> env (t + 2) ''dec_csr_rddata_d'' OR push_bit 32 (env (t + 4) ''dec_csr_rddata_d'') OR
       push_bit 64 (env (t + 6) ''dec_csr_rddata_d'') = di_ifu_ic_debug_rd_data it
   | debug_csrs_access \<Rightarrow> env (t + 6) ''dec_csr_rddata_d'' =
       csr_readback (csrs_named debug_csrs) (di_csr_addr it) (di_exu_i0_result_x it)
   | meicidpl \<Rightarrow> env (t + 6) ''dec_csr_rddata_d'' = 0)"

lemma csr_readback_zero: "csr_readback (csrs_named [''MEICIDPL'']) (csr_at ''MEICIDPL'') 0 = 0"
  by (simp add: csr_readback_def csrs_named_def csr_at_def csr_table_def CSR_def map_filter_simps)

lemma and_8191: "0 \<le> a \<Longrightarrow> a < 4096 \<Longrightarrow> a AND 8191 = (a::int)"
  using and_low_mask [of a 12 13] by simp

definition dec_coded :: "DecInputItem \<Rightarrow> bool" where
  "dec_coded it \<longleftrightarrow> (\<exists>a. 0 \<le> a \<and> a < 4096 \<and> di_csr_addr it = a \<and> di_csrw_instr it = WriteCSRInst a \<and>
     di_csrr_instr it = ReadCSRInst a)"

lemma dec_judge_answers:
  assumes "test \<in> {csr_access, debug_csrs_access} \<Longrightarrow> dec_coded it"
  shows "dec_judge test (dec_inp_item test (dec_inp_vals test it)) (dec_out_item test (dec_out_vals test env t it)) = Inr True
    \<longleftrightarrow> dec_answers test env t it"
  using assms
  by (cases test)
    (auto simp: dec_judge_def dec_inp_item_def dec_out_item_def dec_inp_vals_def dec_out_vals_def dec_answers_def
       dec_input0_def dec_output0_def dec_coded_def encode_csr and_8191 get_from_dut_def pkt_pins_def
       and_mask csr_readback_zero)

lemma dec_period_samples: "length (clk_samples d rd (dec_drive test it) p) = dec_period test"
  by (cases test) (simp_all add: dec_period_def dec_drive_def write_csr_def read_csr_def)

lemma dec_bench_pairs:
  assumes "list_all dec_coded its \<or> test \<notin> {csr_access, debug_csrs_access}"
  shows "list_all2 (\<lambda>i out. dec_judge test i out = Inr True)
      (map (dec_inp_item test) (bench_map (dec_drive test) dur rd 0 0 its p (\<lambda>d t p. dec_inp_vals test)))
      (map (dec_out_item test) (bench_map (dec_drive test) dur rd 0 0 its p (\<lambda>d t p. dec_out_vals test env t)))
    \<longleftrightarrow> (\<forall>i < length its. dec_answers test env (i * dec_period test) (its ! i))"
proof -
  have "dec_judge test (dec_inp_item test (dec_inp_vals test (its ! i)))
      (dec_out_item test (dec_out_vals test env t (its ! i))) = Inr True \<longleftrightarrow> dec_answers test env t (its ! i)"
    if "i < length its" for i t
    using assms that by (intro dec_judge_answers) (auto simp: list_all_iff)
  then show ?thesis
    by (simp add: bench_map_steady [where L = "dec_period test"] dec_period_samples list_all2_map1 list_all2_map2
        list_all2_same Ball_def)
qed

lemma dec_sequence_coded:
  "test \<in> {csr_access, debug_csrs_access} \<Longrightarrow> list_all dec_coded (dec_sequence test n ri pick draw)"
  by (auto simp: dec_sequence_def list_all_iff dec_coded_def dec_randomize_def set_csr_def csr_at_range)

lemma dec_prepare_quiet:
  assumes "holds_width rd dec_width"
  shows "quiet (dec_sigs test) (pins_after rd (dec_prepare test status) p)"
proof -
  have "''ifu_i0_valid'' \<in> set dec_zeroed" "''ifu_ic_debug_rd_data_valid'' \<in> set dec_zeroed"
    by (simp_all add: dec_zeroed_def)
  then show ?thesis
    using assms
    by (simp add: dec_prepare_def dec_do_reset_def enter_debug_mode_def dec_sigs_def dec_rd pins_after_append pins_after_all)
qed

text \<open>
  Property C12: the decoder bench from reset on, whichever test is selected. The monitors see
  \<open>pre\<close> edges before the items, at which nothing is driven, and \<open>post\<close> after them. On random items
  the scoreboard passes exactly when there is an item and the core shows for each, at the edge at
  which the output monitor looks, what the test asks for.
\<close>

theorem dec_bench_verdict:
  assumes "fifo_port ci tgi" "fifo_port co tgo" "holds_width rd dec_width" "\<forall>k. in_range (ri k)"
    and "its = dec_sequence test n ri pick draw" "p = pins_after rd (dec_prepare test status) q"
    and "quiet (dec_sigs test) c" "list_all (quiet (dec_sigs test)) pre" "list_all (quiet (dec_sigs test)) post"
    and "trace = pre @ observed dec_outs env 0 (bench_trace (dec_drive test) dur rd 0 its p) @ post" "n \<le> m"
    and "ci pi = map (dec_inp_item test) (mon_iter m (dec_inp_script test) c trace)"
    and "co po = map (dec_out_item test) (mon_iter m (dec_out_script test) c trace)"
  shows "dec_check_phase test tgi tgo pi po = Some (Inr (Some True)) \<longleftrightarrow>
    0 < n \<and> (\<forall>i < n. dec_answers test env (i * dec_period test) (its ! i))"
proof -
  have len: "length its = n" using assms(5) by (simp add: dec_sequence_def)
  have ok: "list_all (dec_ok test rd) its" using dec_sequence_ok assms(3-5) by blast
  have q: "quiet (dec_sigs test) p" using dec_prepare_quiet assms(3,6) by blast
  have r: "resting (dec_sigs test) c pre" using assms(8) by (rule quiet_resting)
  have h: "quiet (dec_held test) (last (c # pre))"
    using assms(7,8) by (cases pre rule: rev_cases) (simp_all add: dec_sigs_def dec_held_def split: if_splits)
  have i: "mon_iter m (dec_inp_script test) c trace = bench_map (dec_drive test) dur rd 0 0 its p (\<lambda>d t p. dec_inp_vals test)"
    unfolding assms(10) by (rule dec_inp.reports_from) (use ok q r h len assms in simp_all)
  have o: "mon_iter m (dec_out_script test) c trace = bench_map (dec_drive test) dur rd 0 0 its p (\<lambda>d t p. dec_out_vals test env t)"
    unfolding assms(10) by (rule dec_out.reports_from) (use ok q r h len assms in simp_all)
  have "list_all dec_coded its \<or> test \<notin> {csr_access, debug_csrs_access}"
    using dec_sequence_coded assms(5) by blast
  from dec_bench_pairs [OF this, of dur rd p env] show ?thesis
    unfolding dec_check_phase_def pair_loop_passes_iff [OF assms(1,2)] assms(12,13) i o
    by (simp add: len flip: length_greater_0_conv)
qed

text \<open>A core that answers: \<open>MEICIDPL\<close> reads as zero.\<close>

theorem dec_bench_verdict_witness:
  "dec_check_phase meicidpl list_try_get list_try_get
     (map (dec_inp_item meicidpl) (mon_iter 1 (dec_inp_script meicidpl) (\<lambda>_. 0)
        (observed dec_outs (\<lambda>_ _. 0) 0 (bench_trace (dec_drive meicidpl) (\<lambda>_ _. 0) (\<lambda>_ v. v) 0
          (dec_sequence meicidpl 1 (\<lambda>_ _. 0) (\<lambda>_. hd) (\<lambda>_ _. True)) (pins_after (\<lambda>_ v. v) (dec_prepare meicidpl 0) (\<lambda>_. 0))))))
     (map (dec_out_item meicidpl) (mon_iter 1 (dec_out_script meicidpl) (\<lambda>_. 0)
        (observed dec_outs (\<lambda>_ _. 0) 0 (bench_trace (dec_drive meicidpl) (\<lambda>_ _. 0) (\<lambda>_ v. v) 0
          (dec_sequence meicidpl 1 (\<lambda>_ _. 0) (\<lambda>_. hd) (\<lambda>_ _. True)) (pins_after (\<lambda>_ v. v) (dec_prepare meicidpl 0) (\<lambda>_. 0))))))
   = Some (Inr (Some True))"
  using dec_bench_verdict [OF list_fifo_port list_fifo_port, where test = meicidpl and n = 1 and m = 1 and
        ri = "\<lambda>_ _. 0" and pick = "\<lambda>_. hd" and draw = "\<lambda>_ _. True" and rd = "\<lambda>_ v. v" and status = 0 and q = "\<lambda>_. 0" and
        c = "\<lambda>_. 0" and pre = "[]" and post = "[]" and env = "\<lambda>_ _. 0" and dur = "\<lambda>_ _. 0",
        OF _ _ refl refl _ _ _ refl _ refl refl]
  by (simp add: holds_width_def list_all_iff in_range_def dec_sigs_def dec_answers_def)

text \<open>
  Remark: the test of \<open>MEICIDPL\<close> writes zero whatever priority level was drawn, and a core that
  answers anything else is not reported as a mismatch: the message names a variable that branch
  never assigns, so the check ends in an exception.
\<close>

theorem meicidpl_mismatch_raises:
  assumes "fifo_port ci tgi" "fifo_port co tgo" "ci pi = i # is" "co po = out # os" "di_exu_i0_result_x i = 0"
  shows "dec_check_phase meicidpl tgi tgo pi po = Some (Inl UnboundLocalError) \<or>
    do_dec_csr_rddata_d out = 0"
  using assms(3-5)
  by (simp add: dec_check_phase_def pair_loop_verdict [OF assms(1,2)] dec_judge_def csr_readback_zero)

theorem meicidpl_mismatch_raises_witness:
  "dec_check_phase meicidpl list_try_get list_try_get [dec_input0] [dec_output0\<lparr>do_dec_csr_rddata_d := 3\<rparr>] =
     Some (Inl UnboundLocalError)"
  using meicidpl_mismatch_raises [OF list_fifo_port list_fifo_port, of "[dec_input0]" dec_input0 "[]"
      "[dec_output0\<lparr>do_dec_csr_rddata_d := 3\<rparr>]" "dec_output0\<lparr>do_dec_csr_rddata_d := 3\<rparr>" "[]"]
  by (simp add: dec_input0_def dec_output0_def)

end
