(* ===== verification/Tlu_Bench.thy ===== *)
theory Tlu_Bench
  imports Csr_Bench
begin

text \<open>
  The trap unit testbench, \<open>verification/block/dec_tlu_ctl/testbench.py\<close>. It is built like the decoder
  bench, but writes the registers through the write port of the unit and not by instructions.
  The argument \<open>tlu_test\<close> is the configuration string \<open>TEST\<close>. The random strings of digits are given
  by their draws: \<open>draw k i\<close> is digit \<open>i\<close> of the \<open>k\<close>-th string of an item.
\<close>

section \<open>Definitions\<close>

datatype tlu_test = tlu_meihap | tlu_mtdata | tlu_mdseac | tlu_csrs_access | tlu_mhpme | tlu_debug_csrs_access | tlu_debug_ic_cache

subsection \<open>Items\<close>

record TluInputItem =
  ti_pic_claimid :: int
  ti_dec_csr_wrdata_r :: int
  ti_mtdata1 :: int
  ti_mtdata2 :: int
  ti_mtsel :: int
  ti_mdeau :: int
  ti_csr_addr :: int
  ti_dec_csr_rddata_d :: int
  ti_ifu_ic_debug_rd_data :: int
  ti_lsu_imprecise_error_addr_any :: int

definition tlu_input0 :: TluInputItem where
  "tlu_input0 = \<lparr>ti_pic_claimid = 0, ti_dec_csr_wrdata_r = 0, ti_mtdata1 = 0, ti_mtdata2 = 0, ti_mtsel = 0,
     ti_mdeau = 0, ti_csr_addr = 0, ti_dec_csr_rddata_d = 0, ti_ifu_ic_debug_rd_data = 0,
     ti_lsu_imprecise_error_addr_any = 0\<rparr>"

text \<open>The default of \<open>trigger_pkt_any\<close>, the number zero, is never looked at; \<open>pkt0\<close> stands for it.\<close>

record TluOutputItem =
  to_dec_tlu_meihap :: int
  to_mtdata1 :: int
  to_mtdata2 :: int
  to_mtsel :: int
  to_trigger_pkt_any :: TriggerAnyPktT
  to_dec_csr_rddata_d :: int
  to_ifu_ic_debug_rd_data :: int

definition tlu_output0 :: TluOutputItem where
  "tlu_output0 = \<lparr>to_dec_tlu_meihap = 0, to_mtdata1 = 0, to_mtdata2 = 0, to_mtsel = 0, to_trigger_pkt_any = pkt0,
     to_dec_csr_rddata_d = 0, to_ifu_ic_debug_rd_data = 0\<rparr>"

text \<open>\<open>int(value, 2)\<close> of a string of \<open>w\<close> random digits.\<close>

definition rand_bits :: "nat \<Rightarrow> (nat \<Rightarrow> bool) \<Rightarrow> int" where
  "rand_bits w draw = bin_val (map (\<lambda>i. if draw i then CHR ''1'' else CHR ''0'') [0..<w])"

definition mhpme_names :: "string list" where
  "mhpme_names = [''MHPME3'', ''MHPME4'', ''MHPME5'', ''MHPME6'']"

definition tlu_accessed :: "string list" where
  "tlu_accessed = [''MHPMC3'', ''MHPMC3H'', ''MHPMC4'', ''MHPMC4H'', ''MHPMC5'', ''MHPMC5H'', ''MHPMC6'', ''MHPMC6H'',
     ''MCYCLEL'', ''MCYCLEH'', ''MINSTRETL'', ''MINSTRETH'', ''MICECT'', ''MICCMECT'', ''MDCCMECT'', ''MTVEC'',
     ''MHPME3'', ''MHPME4'', ''MHPME5'', ''MHPME6'', ''MRAC'', ''MEIPT'', ''MCOUNTINHIBIT'', ''MFDHT'', ''MEICURPL'',
     ''MFDC'']"

definition tlu_debug_accessed :: "string list" where
  "tlu_debug_accessed = [''DICAD0'', ''DICAD0H'', ''DICAWICS'', ''DPC'', ''DCSR'']"

definition tlu_randomize ::
  "tlu_test \<Rightarrow> (nat \<Rightarrow> nat \<Rightarrow> bool) \<Rightarrow> (string list \<Rightarrow> string) \<Rightarrow> TluInputItem \<Rightarrow> TluInputItem" where
  "tlu_randomize test draw pick it = (case test of
     tlu_meihap \<Rightarrow> it\<lparr>ti_pic_claimid := rand_bits 8 (draw 0), ti_dec_csr_wrdata_r := push_bit 10 (rand_bits 22 (draw 1))\<rparr>
   | tlu_mhpme \<Rightarrow> it\<lparr>ti_dec_csr_wrdata_r := rand_bits 10 (draw 0), ti_csr_addr := csr_at (pick mhpme_names)\<rparr>
   | tlu_mtdata \<Rightarrow> it\<lparr>ti_mtdata1 := bin_val (random_mtdata1 (draw 0)), ti_mtdata2 := rand_bits 32 (draw 1),
       ti_mtsel := rand_bits 2 (draw 2)\<rparr>
   | tlu_mdseac \<Rightarrow> it\<lparr>ti_mdeau := rand_bits 32 (draw 0), ti_lsu_imprecise_error_addr_any := rand_bits 32 (draw 1),
       ti_csr_addr := csr_at ''MDSEAC''\<rparr>
   | tlu_csrs_access \<Rightarrow> it\<lparr>ti_dec_csr_wrdata_r := rand_bits 32 (draw 0), ti_csr_addr := csr_at (pick tlu_accessed)\<rparr>
   | tlu_debug_csrs_access \<Rightarrow>
       it\<lparr>ti_dec_csr_wrdata_r := rand_bits 32 (draw 0), ti_csr_addr := csr_at (pick tlu_debug_accessed)\<rparr>
   | tlu_debug_ic_cache \<Rightarrow> it\<lparr>ti_ifu_ic_debug_rd_data := rand_bits 71 (draw 0)\<rparr>)"

definition tlu_sequence ::
  "tlu_test \<Rightarrow> nat \<Rightarrow> (nat \<Rightarrow> nat \<Rightarrow> nat \<Rightarrow> bool) \<Rightarrow> (nat \<Rightarrow> string list \<Rightarrow> string) \<Rightarrow> TluInputItem list" where
  "tlu_sequence test count draw pick = map (\<lambda>k. tlu_randomize test (draw k) (pick k) tlu_input0) [0..<count]"

subsection \<open>Driver\<close>

definition tlu_read_csr :: "int \<Rightarrow> action list" where
  "tlu_read_csr address = [Drive ''dec_csr_rdaddr_d'' address, Await (RisingEdge ''clk'')]"

definition tlu_write_csr :: "int \<Rightarrow> int \<Rightarrow> action list" where
  "tlu_write_csr address value =
     [Drive ''dec_csr_wen_r'' 0, Await (RisingEdge ''clk''), Drive ''dec_csr_wen_r'' 1,
      Drive ''dec_csr_wraddr_r'' address, Drive ''dec_csr_wrdata_r'' value, Await (RisingEdge ''clk''),
      Drive ''dec_csr_wen_r'' 0]"

definition tlu_do_reset :: "action list" where
  "tlu_do_reset = [Drive ''rst_l'' 0, Await (ClockCycles ''clk'' 2), Await (FallingEdge ''clk''), Drive ''rst_l'' 1]"

text \<open>\<open>locked\<close> is the value of \<open>mdseac_locked_f\<close> when the driver of the item reads it.\<close>

definition tlu_drive :: "tlu_test \<Rightarrow> bool \<times> TluInputItem \<Rightarrow> action list" where
  "tlu_drive test = (\<lambda>(locked, it). case test of
     tlu_meihap \<Rightarrow> tlu_write_csr (csr_at ''MEIVT'') (ti_dec_csr_wrdata_r it) @
       [Await (RisingEdge ''clk''), Drive ''pic_claimid'' (ti_pic_claimid it), Drive ''dec_csr_wen_r'' 1,
        Drive ''dec_csr_wraddr_r'' (csr_at ''MEICPCT''), Await (RisingEdge ''clk''), Drive ''dec_csr_wen_r'' 0,
        Await (RisingEdge ''clk''), Await (RisingEdge ''clk'')]
   | tlu_mtdata \<Rightarrow> tlu_write_csr (csr_at ''MTSEL'') (ti_mtsel it) @ tlu_write_csr (csr_at ''MTDATA1'') (ti_mtdata1 it) @
       tlu_write_csr (csr_at ''MTDATA2'') (ti_mtdata2 it)
   | tlu_mdseac \<Rightarrow> tlu_write_csr (csr_at ''MDEAU'') (ti_mdeau it) @
       (if locked then [Await (FallingEdge ''mdseac_locked_f'')] else []) @
       [Await (RisingEdge ''clk''), Drive ''lsu_imprecise_error_addr_any'' (ti_lsu_imprecise_error_addr_any it),
        Drive ''lsu_imprecise_error_store_any'' 1, Await (RisingEdge ''clk''), Drive ''lsu_imprecise_error_store_any'' 0,
        Await (RisingEdge ''clk'')] @ tlu_read_csr (ti_csr_addr it) @ tlu_do_reset
   | tlu_csrs_access \<Rightarrow> tlu_write_csr (ti_csr_addr it) (ti_dec_csr_wrdata_r it) @ tlu_read_csr (ti_csr_addr it)
   | tlu_mhpme \<Rightarrow> tlu_write_csr (ti_csr_addr it) (ti_dec_csr_wrdata_r it) @ tlu_read_csr (ti_csr_addr it)
   | tlu_debug_csrs_access \<Rightarrow> [Drive ''dbg_halt_req'' 1, Await (RisingEdge ''clk''), Await (RisingEdge ''clk'')] @
       tlu_write_csr (ti_csr_addr it) (ti_dec_csr_wrdata_r it) @ tlu_read_csr (ti_csr_addr it)
   | tlu_debug_ic_cache \<Rightarrow> [Drive ''ifu_ic_debug_rd_data_valid'' 1,
       Drive ''ifu_ic_debug_rd_data'' (ti_ifu_ic_debug_rd_data it), Await (RisingEdge ''clk''),
       Drive ''ifu_ic_debug_rd_data_valid'' 0, Drive ''ifu_ic_debug_rd_data'' 0] @ tlu_read_csr (csr_at ''DICAD0'') @
       tlu_read_csr (csr_at ''DICAD0H'') @ tlu_read_csr (csr_at ''DICAD1''))"

definition tlu_drive_any :: "tlu_test \<Rightarrow> bool \<Rightarrow> TluInputItem seq_item \<Rightarrow> action list py" where
  "tlu_drive_any test locked it = (case it of Item i \<Rightarrow> Inr (tlu_drive test (locked, i)) | OtherItem \<Rightarrow> Inl RuntimeError)"

subsection \<open>Monitors\<close>

definition tlu_inp_script :: "tlu_test \<Rightarrow> mon_op list" where
  "tlu_inp_script test = (case test of
     tlu_meihap \<Rightarrow> [Rise ''dec_csr_wen_r'', Rise ''dec_csr_wen_r'', Read ''pic_claimid'', Read ''dec_csr_wrdata_r'']
   | tlu_mtdata \<Rightarrow> [Rise ''dec_csr_wen_r'', Edges 1, Read ''dec_csr_wrdata_r'', Rise ''dec_csr_wen_r'', Edges 1,
       Read ''dec_csr_wrdata_r'', Rise ''dec_csr_wen_r'', Edges 1, Read ''dec_csr_wrdata_r'']
   | tlu_mdseac \<Rightarrow> [Rise ''lsu_imprecise_error_store_any'', Edges 1, Read ''dec_csr_rdaddr_d'',
       Read ''lsu_imprecise_error_addr_any'']
   | tlu_csrs_access \<Rightarrow> [Rise ''dec_csr_wen_r'', Edges 1, Read ''dec_csr_wraddr_r'', Read ''dec_csr_wrdata_r'']
   | tlu_mhpme \<Rightarrow> [Rise ''dec_csr_wen_r'', Edges 1, Read ''dec_csr_wraddr_r'', Read ''dec_csr_wrdata_r'']
   | tlu_debug_csrs_access \<Rightarrow> [Edges 1, Edges 1, Rise ''dec_csr_wen_r'', Edges 1, Read ''dec_csr_wraddr_r'',
       Read ''dec_csr_wrdata_r'']
   | tlu_debug_ic_cache \<Rightarrow> [Rise ''ifu_ic_debug_rd_data_valid'', Edges 1, Read ''ifu_ic_debug_rd_data''])"

definition tlu_inp_item :: "tlu_test \<Rightarrow> int list \<Rightarrow> TluInputItem" where
  "tlu_inp_item test v = (case test of
     tlu_meihap \<Rightarrow> tlu_input0\<lparr>ti_pic_claimid := v ! 0, ti_dec_csr_wrdata_r := v ! 1\<rparr>
   | tlu_mtdata \<Rightarrow> tlu_input0\<lparr>ti_mtsel := v ! 0, ti_mtdata1 := v ! 1, ti_mtdata2 := v ! 2\<rparr>
   | tlu_mdseac \<Rightarrow> tlu_input0\<lparr>ti_csr_addr := v ! 0, ti_lsu_imprecise_error_addr_any := v ! 1\<rparr>
   | tlu_debug_ic_cache \<Rightarrow> tlu_input0\<lparr>ti_ifu_ic_debug_rd_data := v ! 0\<rparr>
   | _ \<Rightarrow> tlu_input0\<lparr>ti_csr_addr := v ! 0, ti_dec_csr_wrdata_r := v ! 1\<rparr>)"

definition tlu_out_script :: "tlu_test \<Rightarrow> mon_op list" where
  "tlu_out_script test = (case test of
     tlu_meihap \<Rightarrow> [Rise ''dec_csr_wen_r'', Rise ''dec_csr_wen_r'', Edges 1, Edges 1, Read ''dec_tlu_meihap'']
   | tlu_mtdata \<Rightarrow> replicate 3 (Rise ''dec_csr_wen_r'') @ replicate 2 (Edges 1) @ map Read pkt_pins
   | tlu_mdseac \<Rightarrow> [Rise ''lsu_imprecise_error_store_any''] @ replicate 3 (Edges 1) @ [Read ''dec_csr_rddata_d'']
   | tlu_csrs_access \<Rightarrow> [Rise ''dec_csr_wen_r'', Edges 1, Edges 1, Read ''dec_csr_rddata_d'']
   | tlu_mhpme \<Rightarrow> [Rise ''dec_csr_wen_r'', Edges 1, Edges 1, Read ''dec_csr_rddata_d'']
   | tlu_debug_csrs_access \<Rightarrow> [Edges 1, Edges 1, Rise ''dec_csr_wen_r'', Edges 1, Edges 1, Read ''dec_csr_rddata_d'']
   | tlu_debug_ic_cache \<Rightarrow> [Rise ''ifu_ic_debug_rd_data_valid'', Edges 1, Edges 1, Read ''dec_csr_rddata_d'',
       Edges 1, Read ''dec_csr_rddata_d'', Edges 1, Read ''dec_csr_rddata_d''])"

definition tlu_out_item :: "tlu_test \<Rightarrow> int list \<Rightarrow> TluOutputItem" where
  "tlu_out_item test v = (case test of
     tlu_meihap \<Rightarrow> tlu_output0\<lparr>to_dec_tlu_meihap := push_bit 2 (v ! 0)\<rparr>
   | tlu_mtdata \<Rightarrow> tlu_output0\<lparr>to_trigger_pkt_any := \<lparr>tp_select = v ! 0, tp_match = v ! 1, tp_store = v ! 2,
       tp_load = v ! 3, tp_execute = v ! 4, tp_m = v ! 5, tp_tdata2 = v ! 6\<rparr>\<rparr>
   | tlu_debug_ic_cache \<Rightarrow>
       tlu_output0\<lparr>to_ifu_ic_debug_rd_data := v ! 0 OR push_bit 32 (v ! 1) OR push_bit 64 (v ! 2)\<rparr>
   | _ \<Rightarrow> tlu_output0\<lparr>to_dec_csr_rddata_d := v ! 0\<rparr>)"

subsection \<open>Scoreboard\<close>

definition tlu_debug_out :: "int \<Rightarrow> int \<Rightarrow> int" where
  "tlu_debug_out csr v =
     (if csr = csr_at ''DCSR'' then dcsr v
      else if csr = csr_at ''DPC'' then v AND NOT 0x1
      else if csr = csr_at ''DICAWICS'' then dicawics v else v)"

definition tlu_judge :: "tlu_test \<Rightarrow> TluInputItem \<Rightarrow> TluOutputItem \<Rightarrow> bool py" where
  "tlu_judge test i out = (case test of
     tlu_meihap \<Rightarrow> Inr (ti_pic_claimid i = drop_bit 2 (to_dec_tlu_meihap out) AND 0xFF \<and>
       drop_bit 12 (ti_dec_csr_wrdata_r i) = drop_bit 12 (to_dec_tlu_meihap out))
   | tlu_mtdata \<Rightarrow> Inr (mtdata_agrees (nat (ti_mtsel i)) (ti_mtdata1 i) (ti_mtdata2 i) (to_trigger_pkt_any out))
   | tlu_mhpme \<Rightarrow> (case filter (\<lambda>c. csr_addr c = ti_csr_addr i) (csrs_named mhpme_names) of
       [] \<Rightarrow> Inl IndexError
     | c # _ \<Rightarrow> Inr (csr_out c (ti_dec_csr_wrdata_r i) = to_dec_csr_rddata_d out))
   | tlu_mdseac \<Rightarrow> Inr (ti_lsu_imprecise_error_addr_any i = to_dec_csr_rddata_d out)
   | tlu_csrs_access \<Rightarrow> Inr (csr_readback csr_list (ti_csr_addr i) (ti_dec_csr_wrdata_r i) = to_dec_csr_rddata_d out)
   | tlu_debug_csrs_access \<Rightarrow> Inr (tlu_debug_out (ti_csr_addr i) (ti_dec_csr_wrdata_r i) = to_dec_csr_rddata_d out)
   | tlu_debug_ic_cache \<Rightarrow> Inr (ti_ifu_ic_debug_rd_data i = to_ifu_ic_debug_rd_data out))"

definition tlu_check_phase ::
  "tlu_test \<Rightarrow> ('p \<Rightarrow> TluInputItem option \<times> 'p) \<Rightarrow> ('q \<Rightarrow> TluOutputItem option \<times> 'q) \<Rightarrow> 'p \<Rightarrow> 'q \<Rightarrow> bool option py option" where
  "tlu_check_phase test try_get_inp try_get_out port_inp port_out =
     pair_loop try_get_inp try_get_out (tlu_judge test) port_inp port_out None"

subsection \<open>Test\<close>

text \<open>The inputs of the unit the test sets to zero, in the order of the source.\<close>

definition tlu_zeroed :: "string list" where
  "tlu_zeroed =
    [''rst_vec'', ''nmi_int'', ''nmi_vec'', ''i_cpu_halt_req'', ''i_cpu_run_req'', ''lsu_fastint_stall_any'',
     ''ifu_pmu_instr_aligned'', ''ifu_pmu_fetch_stall'', ''ifu_pmu_ic_miss'', ''ifu_pmu_ic_hit'',
     ''ifu_pmu_bus_error'', ''ifu_pmu_bus_busy'', ''ifu_pmu_bus_trxn'', ''dec_pmu_instr_decoded'',
     ''dec_pmu_decode_stall'', ''dec_pmu_presync_stall'', ''dec_pmu_postsync_stall'', ''lsu_store_stall_any'',
     ''dma_dccm_stall_any'', ''dma_iccm_stall_any'', ''exu_pmu_i0_br_misp'', ''exu_pmu_i0_br_ataken'',
     ''exu_pmu_i0_pc4'', ''lsu_pmu_bus_trxn'', ''lsu_pmu_bus_misaligned'', ''lsu_pmu_bus_error'',
     ''lsu_pmu_bus_busy'', ''lsu_pmu_load_external_m'', ''lsu_pmu_store_external_m'', ''dma_pmu_dccm_read'',
     ''dma_pmu_dccm_write'', ''dma_pmu_any_read'', ''dma_pmu_any_write'', ''lsu_fir_addr'', ''lsu_fir_error'',
     ''iccm_dma_sb_error'', ''lsu_single_ecc_error_incr'', ''dec_pause_state'', ''lsu_imprecise_error_store_any'',
     ''lsu_imprecise_error_load_any'', ''lsu_imprecise_error_addr_any'', ''dec_csr_wen_unq_d'',
     ''dec_csr_any_unq_d'', ''dec_csr_rdaddr_d'', ''dec_csr_wen_r'', ''dec_csr_rdaddr_r'', ''dec_csr_wraddr_r'',
     ''dec_csr_wrdata_r'', ''dec_csr_stall_int_ff'', ''dec_tlu_i0_valid_r'', ''exu_npc_r'', ''dec_tlu_i0_pc_r'',
     ''dec_illegal_inst'', ''dec_i0_decode_d'', ''exu_i0_br_hist_r'', ''exu_i0_br_error_r'',
     ''exu_i0_br_start_error_r'', ''exu_i0_br_valid_r'', ''exu_i0_br_mp_r'', ''exu_i0_br_middle_r'',
     ''exu_i0_br_way_r'', ''dbg_halt_req'', ''dbg_resume_req'', ''ifu_miss_state_idle'', ''lsu_idle_any'',
     ''dec_div_active'', ''ifu_ic_error_start'', ''ifu_iccm_rd_ecc_single_err'', ''ifu_ic_debug_rd_data'',
     ''ifu_ic_debug_rd_data_valid'', ''pic_claimid'', ''pic_pl'', ''mhwakeup'', ''mexintpend'', ''timer_int'',
     ''soft_int'', ''core_id'', ''mpc_debug_halt_req'', ''mpc_debug_run_req'', ''mpc_reset_run_req'']"

definition tlu_prepare :: "action list" where
  "tlu_prepare = map (\<lambda>s. Drive s 0) tlu_zeroed @ tlu_do_reset @ [Await (ClockCycles ''clk'' 2)]"

section \<open>What the monitors see\<close>

definition tlu_width :: "(string \<times> nat) list" where
  "tlu_width = [(''dec_csr_wen_r'', 1), (''dec_csr_wraddr_r'', 12), (''dec_csr_wrdata_r'', 32), (''dec_csr_rdaddr_d'', 12),
     (''pic_claimid'', 8), (''lsu_imprecise_error_addr_any'', 32), (''lsu_imprecise_error_store_any'', 1),
     (''ifu_ic_debug_rd_data'', 71), (''ifu_ic_debug_rd_data_valid'', 1)]"

definition tlu_outs :: "string list" where
  "tlu_outs = map fst tlu_width"

definition tlu_sigs :: "tlu_test \<Rightarrow> string list" where
  "tlu_sigs test = (case test of tlu_mdseac \<Rightarrow> [''lsu_imprecise_error_store_any'']
     | tlu_debug_ic_cache \<Rightarrow> [''ifu_ic_debug_rd_data_valid''] | _ \<Rightarrow> [''dec_csr_wen_r''])"

definition tlu_held :: "tlu_test \<Rightarrow> string list" where
  "tlu_held test = (if test = tlu_debug_ic_cache then [''ifu_ic_debug_rd_data_valid''] else [])"

definition fits :: "nat \<Rightarrow> int \<Rightarrow> bool" where
  "fits w v \<longleftrightarrow> 0 \<le> v \<and> v < 2 ^ w"

definition tlu_ok :: "(string \<Rightarrow> int \<Rightarrow> int) \<Rightarrow> bool \<times> TluInputItem \<Rightarrow> bool" where
  "tlu_ok rd = (\<lambda>(locked, it). holds_width rd tlu_width \<and> fits 8 (ti_pic_claimid it) \<and> fits 32 (ti_dec_csr_wrdata_r it) \<and>
     fits 32 (ti_mtdata1 it) \<and> fits 32 (ti_mtdata2 it) \<and> fits 32 (ti_mtsel it) \<and> fits 12 (ti_csr_addr it) \<and>
     fits 71 (ti_ifu_ic_debug_rd_data it) \<and> fits 32 (ti_lsu_imprecise_error_addr_any it))"

text \<open>The edges the driver spends waiting for the error register to be unlocked.\<close>

definition unlock_time :: "(string \<Rightarrow> nat) \<Rightarrow> bool \<Rightarrow> nat" where
  "unlock_time d locked = (if locked then d ''mdseac_locked_f'' else 0)"

definition tlu_inp_vals :: "tlu_test \<Rightarrow> pins \<Rightarrow> bool \<times> TluInputItem \<Rightarrow> int list" where
  "tlu_inp_vals test p = (\<lambda>(locked, it). case test of
     tlu_meihap \<Rightarrow> [ti_pic_claimid it, ti_dec_csr_wrdata_r it]
   | tlu_mtdata \<Rightarrow> [ti_mtsel it, ti_mtdata1 it, ti_mtdata2 it]
   | tlu_mdseac \<Rightarrow> [p ''dec_csr_rdaddr_d'', ti_lsu_imprecise_error_addr_any it]
   | tlu_debug_ic_cache \<Rightarrow> [ti_ifu_ic_debug_rd_data it]
   | _ \<Rightarrow> [ti_csr_addr it, ti_dec_csr_wrdata_r it])"

definition tlu_out_vals :: "tlu_test \<Rightarrow> (nat \<Rightarrow> pins) \<Rightarrow> (string \<Rightarrow> nat) \<Rightarrow> nat \<Rightarrow> bool \<times> TluInputItem \<Rightarrow> int list" where
  "tlu_out_vals test env d t = (\<lambda>(locked, it). case test of
     tlu_meihap \<Rightarrow> [env (t + 4) ''dec_tlu_meihap'']
   | tlu_mtdata \<Rightarrow> map (env (t + 6)) pkt_pins
   | tlu_mdseac \<Rightarrow> [env (t + 5 + unlock_time d locked) ''dec_csr_rddata_d'']
   | tlu_csrs_access \<Rightarrow> [env (t + 2) ''dec_csr_rddata_d'']
   | tlu_mhpme \<Rightarrow> [env (t + 2) ''dec_csr_rddata_d'']
   | tlu_debug_csrs_access \<Rightarrow> [env (t + 4) ''dec_csr_rddata_d'']
   | tlu_debug_ic_cache \<Rightarrow> map (\<lambda>k. env (t + k) ''dec_csr_rddata_d'') [1, 2, 3])"

lemma tlu_outs_join [simp]:
  "join_pins tlu_outs p e ''dec_csr_wen_r'' = p ''dec_csr_wen_r''"
  "join_pins tlu_outs p e ''dec_csr_wraddr_r'' = p ''dec_csr_wraddr_r''"
  "join_pins tlu_outs p e ''dec_csr_wrdata_r'' = p ''dec_csr_wrdata_r''"
  "join_pins tlu_outs p e ''dec_csr_rdaddr_d'' = p ''dec_csr_rdaddr_d''"
  "join_pins tlu_outs p e ''pic_claimid'' = p ''pic_claimid''"
  "join_pins tlu_outs p e ''lsu_imprecise_error_addr_any'' = p ''lsu_imprecise_error_addr_any''"
  "join_pins tlu_outs p e ''lsu_imprecise_error_store_any'' = p ''lsu_imprecise_error_store_any''"
  "join_pins tlu_outs p e ''ifu_ic_debug_rd_data'' = p ''ifu_ic_debug_rd_data''"
  "join_pins tlu_outs p e ''ifu_ic_debug_rd_data_valid'' = p ''ifu_ic_debug_rd_data_valid''"
  "join_pins tlu_outs p e ''dec_tlu_meihap'' = e ''dec_tlu_meihap''"
  "join_pins tlu_outs p e ''dec_csr_rddata_d'' = e ''dec_csr_rddata_d''"
  by (simp_all add: join_pins_def tlu_outs_def tlu_width_def)

lemma tlu_pkt_join: "map (join_pins tlu_outs p e) pkt_pins = map e pkt_pins"
  by (simp add: join_pins_def tlu_outs_def tlu_width_def pkt_pins_def)

lemma store_any_out: "''lsu_imprecise_error_store_any'' \<in> set tlu_outs"
  by (simp add: tlu_outs_def tlu_width_def)

lemma tlu_rd:
  assumes "holds_width rd tlu_width"
  shows "rd ''dec_csr_wen_r'' 0 = 0" "rd ''dec_csr_wen_r'' 1 = 1" "rd ''lsu_imprecise_error_store_any'' 0 = 0"
    "rd ''lsu_imprecise_error_store_any'' 1 = 1" "rd ''ifu_ic_debug_rd_data_valid'' 0 = 0"
    "rd ''ifu_ic_debug_rd_data_valid'' 1 = 1" "fits 12 v \<Longrightarrow> rd ''dec_csr_wraddr_r'' v = v"
    "fits 32 v \<Longrightarrow> rd ''dec_csr_wrdata_r'' v = v" "fits 8 v \<Longrightarrow> rd ''pic_claimid'' v = v"
    "fits 32 v \<Longrightarrow> rd ''lsu_imprecise_error_addr_any'' v = v" "fits 71 v \<Longrightarrow> rd ''ifu_ic_debug_rd_data'' v = v"
  using assms by (simp_all add: holds_width_def tlu_width_def fits_def)

lemmas tlu_run_simps = tlu_write_csr_def tlu_read_csr_def tlu_do_reset_def await_rise_skip1 numeral_eq_Suc ex_left_over
  run_script_reads tlu_pkt_join observed_append unlock_time_def

lemmas tlu_script_simps = tlu_inp_script_def tlu_out_script_def tlu_drive_def tlu_inp_vals_def tlu_out_vals_def tlu_sigs_def tlu_held_def

lemma tlu_inp_round:
  assumes "tlu_ok rd it" "quiet (tlu_sigs test) p" "resting (tlu_sigs test) c ls" "quiet (tlu_held test) (last (c # ls))"
  shows "\<exists>c' ls'. run_script (tlu_inp_script test) c
      (ls @ observed tlu_outs env t (clk_samples d rd (tlu_drive test it) p) @ rest) =
        Some (tlu_inp_vals test p it, (c', ls' @ rest)) \<and> resting (tlu_sigs test) c' ls' \<and>
        quiet (tlu_held test) (last (c' # ls'))"
proof -
  from assms(1) have w: "holds_width rd tlu_width" by (simp add: tlu_ok_def split: prod.splits)
  show ?thesis
  proof (cases "test = tlu_debug_csrs_access")
    case True
    with assms show ?thesis
      by (cases it; cases ls; cases "tl ls")
        (simp_all add: tlu_ok_def tlu_script_simps tlu_rd [OF w] tlu_run_simps split: if_splits)
  next
    case False
    with assms show ?thesis
      by (cases test; cases it)
        (simp_all add: tlu_ok_def tlu_script_simps tlu_rd [OF w] tlu_run_simps await_rise_replicate store_any_out split: if_splits)
  qed
qed

lemma tlu_out_round:
  assumes "tlu_ok rd it" "test \<noteq> tlu_mtdata"
    and "quiet (tlu_sigs test) p" "resting (tlu_sigs test) c ls" "quiet (tlu_held test) (last (c # ls))"
  shows "\<exists>c' ls'. run_script (tlu_out_script test) c
      (ls @ observed tlu_outs env t (clk_samples d rd (tlu_drive test it) p) @ rest) =
        Some (tlu_out_vals test env d t it, (c', ls' @ rest)) \<and> resting (tlu_sigs test) c' ls' \<and>
        quiet (tlu_held test) (last (c' # ls'))"
proof -
  from assms(1) have w: "holds_width rd tlu_width" by (simp add: tlu_ok_def split: prod.splits)
  show ?thesis
  proof (cases "test = tlu_debug_csrs_access")
    case True
    with assms show ?thesis
      by (cases it; cases ls; cases "tl ls")
        (simp_all add: tlu_ok_def tlu_script_simps tlu_rd [OF w] tlu_run_simps split: if_splits)
  next
    case False
    with assms show ?thesis
      by (cases test; cases it)
        (simp_all add: tlu_ok_def tlu_script_simps tlu_rd [OF w] tlu_run_simps await_rise_replicate store_any_out add.commute split: if_splits)
  qed
qed

text \<open>The triggers test, cut after the first edge of an item.\<close>

definition mtdata_lead :: "action list" where
  "mtdata_lead = [Drive ''dec_csr_wen_r'' 0, Await (RisingEdge ''clk'')]"

definition mtdata_body :: "bool \<times> TluInputItem \<Rightarrow> action list" where
  "mtdata_body it = drop 2 (tlu_drive tlu_mtdata it)"

lemma mtdata_drive_cut: "tlu_drive tlu_mtdata it = mtdata_lead @ mtdata_body it"
  by (cases it) (simp add: mtdata_lead_def mtdata_body_def tlu_drive_def tlu_write_csr_def)

lemma mtdata_out_round:
  assumes "tlu_ok rd it" "quiet [''dec_csr_wen_r''] p" "resting [''dec_csr_wen_r''] c ls"
    "quiet [''dec_csr_wen_r''] (last (c # ls))"
  shows "\<exists>c' ls'. run_script (tlu_out_script tlu_mtdata) c
      (ls @ observed tlu_outs env t (clk_samples d rd (mtdata_body it @ mtdata_lead) p) @ rest) =
        Some (map (env (t + 5)) pkt_pins, (c', ls' @ rest)) \<and> resting [''dec_csr_wen_r''] c' ls' \<and>
        quiet [''dec_csr_wen_r''] (last (c' # ls'))"
proof -
  from assms(1) have w: "holds_width rd tlu_width" by (simp add: tlu_ok_def split: prod.splits)
  with assms show ?thesis
    by (cases it)
      (simp add: tlu_ok_def tlu_out_script_def mtdata_body_def mtdata_lead_def tlu_drive_def tlu_rd tlu_run_simps split: if_splits)
qed

interpretation tlu_inp: script_unit "tlu_drive test" "tlu_inp_script test" "tlu_sigs test" "tlu_held test" tlu_outs
  "\<lambda>_. True" tlu_ok "\<lambda>env d t p. tlu_inp_vals test p" for test
proof
  show "resting (tlu_sigs test) c ls \<Longrightarrow> run_script (tlu_inp_script test) c ls = None" for c ls
    by (cases test; cases ls; cases "tl ls")
      (auto simp: tlu_inp_script_def tlu_sigs_def await_rise_resting)
  show "tlu_ok rd it \<Longrightarrow> quiet (tlu_sigs test) p \<Longrightarrow> quiet (tlu_sigs test) (pins_after rd (tlu_drive test it) p)"
    for rd it p
    by (cases it; cases test)
      (simp_all add: tlu_ok_def tlu_drive_def tlu_sigs_def tlu_write_csr_def tlu_read_csr_def tlu_do_reset_def tlu_rd)
qed (use tlu_inp_round in simp)

interpretation tlu_out: script_unit "tlu_drive test" "tlu_out_script test" "tlu_sigs test" "tlu_held test" tlu_outs
  "\<lambda>_. True" "\<lambda>rd it. tlu_ok rd it \<and> test \<noteq> tlu_mtdata" "\<lambda>env d t p. tlu_out_vals test env d t" for test
proof
  show "resting (tlu_sigs test) c ls \<Longrightarrow> run_script (tlu_out_script test) c ls = None" for c ls
    by (cases test; cases ls; cases "tl ls")
      (auto simp: tlu_out_script_def tlu_sigs_def await_rise_resting numeral_eq_Suc)
qed (use tlu_out_round tlu_inp.release in simp_all)

interpretation mt_out: script_unit "\<lambda>it. mtdata_body it @ mtdata_lead" "tlu_out_script tlu_mtdata" "[''dec_csr_wen_r'']"
  "[''dec_csr_wen_r'']" tlu_outs "\<lambda>_. True" tlu_ok "\<lambda>env d t p it. map (env (t + 5)) pkt_pins"
proof
  show "resting [''dec_csr_wen_r''] c ls \<Longrightarrow> run_script (tlu_out_script tlu_mtdata) c ls = None" for c ls
    by (simp add: tlu_out_script_def await_rise_resting numeral_eq_Suc)
  show "tlu_ok rd it \<Longrightarrow> quiet [''dec_csr_wen_r''] p \<Longrightarrow> quiet [''dec_csr_wen_r''] (pins_after rd (mtdata_body it @ mtdata_lead) p)"
    for rd it p
    by (cases it) (simp add: tlu_ok_def pins_after_append mtdata_lead_def tlu_rd)
qed (use mtdata_out_round in simp)

lemma mtdata_period: "length (clk_samples d rd (tlu_drive tlu_mtdata it) p) = 6"
  "length (clk_samples d rd (mtdata_body it @ mtdata_lead) p) = 6"
  by (cases it; simp add: tlu_drive_def tlu_write_csr_def mtdata_body_def mtdata_lead_def)+

lemma tlu_final_quiet:
  "list_all (tlu_ok rd) its \<Longrightarrow> quiet (tlu_sigs test) p \<Longrightarrow>
   quiet (tlu_sigs test) (pins_after rd (concat (map (tlu_drive test) its)) p)"
  by (induction its arbitrary: p) (simp_all add: pins_after_append tlu_inp.release)

text \<open>The pins when all items are done, held for the ten edges at the end of the test.\<close>

definition tlu_final :: "tlu_test \<Rightarrow> (string \<Rightarrow> int \<Rightarrow> int) \<Rightarrow> (bool \<times> TluInputItem) list \<Rightarrow> pins \<Rightarrow> pins" where
  "tlu_final test rd its p = pins_after rd (concat (map (tlu_drive test) its)) p"

definition tlu_trace :: "tlu_test \<Rightarrow> (nat \<Rightarrow> pins) \<Rightarrow> (nat \<Rightarrow> string \<Rightarrow> nat) \<Rightarrow> (string \<Rightarrow> int \<Rightarrow> int) \<Rightarrow> (bool \<times> TluInputItem) list
    \<Rightarrow> pins \<Rightarrow> pins list" where
  "tlu_trace test env dur rd its p =
     observed tlu_outs env 0 (bench_trace (tlu_drive test) dur rd 0 its p @ replicate 10 (tlu_final test rd its p))"

lemma tlu_sigs_outs: "set (tlu_sigs test) \<subseteq> set tlu_outs"
  by (cases test) (simp_all add: tlu_sigs_def tlu_outs_def tlu_width_def)

lemma mtdata_trace:
  assumes "list_all (tlu_ok rd) its" "quiet [''dec_csr_wen_r''] p" "its \<noteq> []"
  shows "tlu_trace tlu_mtdata env dur rd its p =
    join_pins tlu_outs p (env 0) # observed tlu_outs env 1 (bench_trace (\<lambda>it. mtdata_body it @ mtdata_lead) dur rd 0 its p) @
    observed tlu_outs env (Suc (6 * length its)) (replicate 9 (tlu_final tlu_mtdata rd its p))"
proof -
  let ?f = "tlu_final tlu_mtdata rd its p"
  have w: "holds_width rd tlu_width" using assms(1,3) by (cases its) (auto simp: tlu_ok_def)
  have lead: "clk_samples d rd mtdata_lead q = [q] \<and> pins_after rd mtdata_lead q = q" if "quiet [''dec_csr_wen_r''] q" for d q
    using that by (simp add: mtdata_lead_def tlu_rd [OF w] fun_upd_idem)
  have qf: "quiet [''dec_csr_wen_r''] ?f"
    using tlu_final_quiet [OF assms(1), of tlu_mtdata p] assms(2) by (simp add: tlu_final_def tlu_sigs_def)
  have cut: "tlu_drive tlu_mtdata = (\<lambda>it. mtdata_lead @ mtdata_body it)" by (rule ext) (rule mtdata_drive_cut)
  have same: "clk_samples d rd mtdata_lead q = clk_samples d' rd mtdata_lead q" for d d' q
    by (simp add: mtdata_lead_def)
  have rot: "bench_trace (tlu_drive tlu_mtdata) dur rd 0 its p @ [?f] =
      p # bench_trace (\<lambda>it. mtdata_body it @ mtdata_lead) dur rd 0 its p"
    using bench_trace_rotate [OF same, of mtdata_body dur 0 its p "dur 0", folded cut tlu_final_def]
      lead [OF qf] lead [OF assms(2)] by (simp add: tlu_final_def)
  have len: "length (bench_trace (\<lambda>it. mtdata_body it @ mtdata_lead) dur rd k its q) = 6 * length its" for k q its
    by (induction its arbitrary: k q) (simp_all only: bench_trace.simps length_append mtdata_period list.size, simp_all)
  have "bench_trace (tlu_drive tlu_mtdata) dur rd 0 its p @ replicate 10 ?f =
      (bench_trace (tlu_drive tlu_mtdata) dur rd 0 its p @ [?f]) @ replicate 9 ?f"
    by (simp add: numeral_eq_Suc)
  then show ?thesis unfolding tlu_trace_def rot by (simp add: observed_append len)
qed


lemma mtdata_reports:
  assumes "list_all (tlu_ok rd) its" "quiet [''dec_csr_wen_r''] p" "its \<noteq> []" "quiet [''dec_csr_wen_r''] c"
    "list_all (quiet [''dec_csr_wen_r'']) pre" "length its \<le> m"
  shows "mon_iter m (tlu_out_script tlu_mtdata) c (pre @ tlu_trace tlu_mtdata env dur rd its p) =
    bench_map (tlu_drive tlu_mtdata) dur rd 0 0 its p (\<lambda>d t p. tlu_out_vals tlu_mtdata env d t)"
proof -
  let ?post = "observed tlu_outs env (Suc (6 * length its)) (replicate 9 (tlu_final tlu_mtdata rd its p))"
  have "quiet [''dec_csr_wen_r''] (tlu_final tlu_mtdata rd its p)"
    using tlu_final_quiet [OF assms(1), of tlu_mtdata p] assms(2) by (simp add: tlu_final_def tlu_sigs_def)
  then have "list_all (quiet [''dec_csr_wen_r'']) (replicate 9 (tlu_final tlu_mtdata rd its p))" by (simp add: list_all_iff)
  then have post: "list_all (quiet [''dec_csr_wen_r'']) ?post"
    using quiet_observed tlu_sigs_outs [of tlu_mtdata] by (simp add: tlu_sigs_def)
  have pre: "list_all (quiet [''dec_csr_wen_r'']) (pre @ [join_pins tlu_outs p (env 0)])"
    using assms(2,5) by simp
  have "mon_iter m (tlu_out_script tlu_mtdata) c
      ((pre @ [join_pins tlu_outs p (env 0)]) @
        observed tlu_outs env 1 (bench_trace (\<lambda>it. mtdata_body it @ mtdata_lead) dur rd 0 its p) @ ?post) =
    bench_map (\<lambda>it. mtdata_body it @ mtdata_lead) dur rd 0 1 its p (\<lambda>d t p it. map (env (t + 5)) pkt_pins)"
    using assms post by (intro mt_out.reports_from quiet_resting [OF pre]) simp_all
  also have "\<dots> = bench_map (tlu_drive tlu_mtdata) dur rd 0 0 its p (\<lambda>d t p. tlu_out_vals tlu_mtdata env d t)"
    by (simp add: tlu_out_vals_def split_def bench_map_steady [where L = 6] mtdata_period add.commute)
  finally show ?thesis by (simp add: mtdata_trace [OF assms(1-3)])
qed

lemma tlu_reports:
  assumes "list_all (tlu_ok rd) its" "quiet (tlu_sigs test) p" "its \<noteq> []" "quiet (tlu_sigs test) c"
    "list_all (quiet (tlu_sigs test)) pre" "length its \<le> m"
  shows "mon_iter m (tlu_inp_script test) c (pre @ tlu_trace test env dur rd its p) =
      bench_map (tlu_drive test) dur rd 0 0 its p (\<lambda>d t p. tlu_inp_vals test p)"
    and "mon_iter m (tlu_out_script test) c (pre @ tlu_trace test env dur rd its p) =
      bench_map (tlu_drive test) dur rd 0 0 its p (\<lambda>d t p. tlu_out_vals test env d t)"
proof -
  let ?tail = "observed tlu_outs env (length (bench_trace (tlu_drive test) dur rd 0 its p)) (replicate 10 (tlu_final test rd its p))"
  have "list_all (quiet (tlu_sigs test)) (replicate 10 (tlu_final test rd its p))"
    using tlu_final_quiet [OF assms(1,2)] by (simp add: tlu_final_def list_all_iff)
  then have tail: "list_all (quiet (tlu_sigs test)) ?tail" using quiet_observed tlu_sigs_outs by blast
  have h: "quiet (tlu_held test) (last (c # pre))"
    using assms(4,5) by (cases pre rule: rev_cases) (simp_all add: tlu_sigs_def tlu_held_def split: tlu_test.splits)
  have tr: "tlu_trace test env dur rd its p = observed tlu_outs env 0 (bench_trace (tlu_drive test) dur rd 0 its p) @ ?tail"
    by (simp add: tlu_trace_def observed_append)
  show "mon_iter m (tlu_inp_script test) c (pre @ tlu_trace test env dur rd its p) =
      bench_map (tlu_drive test) dur rd 0 0 its p (\<lambda>d t p. tlu_inp_vals test p)"
    unfolding tr using assms h tail by (intro tlu_inp.reports_from quiet_resting) simp_all
  show "mon_iter m (tlu_out_script test) c (pre @ tlu_trace test env dur rd its p) =
      bench_map (tlu_drive test) dur rd 0 0 its p (\<lambda>d t p. tlu_out_vals test env d t)"
  proof (cases "test = tlu_mtdata")
    case True
    with assms show ?thesis using mtdata_reports [of rd its p c pre m env dur] by (simp add: tlu_sigs_def)
  next
    case False
    then show ?thesis
      unfolding tr using assms h tail by (intro tlu_out.reports_from quiet_resting) (simp_all add: list_all_iff)
  qed
qed

section \<open>Random items\<close>

lemma rand_bits_fits: "fits w (rand_bits w draw)"
  using bin_val_range [of "map (\<lambda>i. if draw i then CHR ''1'' else CHR ''0'') [0..<w]"]
  by (simp add: rand_bits_def fits_def)

lemma tlu_randomize_ok:
  assumes "holds_width rd tlu_width"
  shows "tlu_ok rd (locked, tlu_randomize test draw pick tlu_input0)"
proof -
  have wide: "fits w 0" "w \<le> v \<Longrightarrow> fits w x \<Longrightarrow> fits v x" for w v x
    by (auto simp: fits_def intro: less_le_trans)
  have "fits 32 (push_bit 10 (rand_bits 22 (draw 1)))" "fits 32 (bin_val (random_mtdata1 (draw 0)))"
    using rand_bits_fits [of 22 "draw 1"] random_mtdata1_range [of "draw 0"] by (simp_all add: fits_def push_bit_eq_mult)
  moreover have "fits 32 (rand_bits 2 f)" "fits 32 (rand_bits 10 f)" for f
    using wide(2) [OF _ rand_bits_fits] by simp_all
  moreover have "fits 12 (csr_at n)" for n using csr_at_range [of n] by (simp add: fits_def)
  ultimately show ?thesis
    using assms by (cases test) (simp_all add: tlu_ok_def tlu_randomize_def tlu_input0_def wide(1) rand_bits_fits)
qed

text \<open>What \<open>random.choice\<close> promises.\<close>

definition picks :: "(string list \<Rightarrow> string) \<Rightarrow> bool" where
  "picks pick \<longleftrightarrow> (\<forall>xs. xs \<noteq> [] \<longrightarrow> pick xs \<in> set xs)"

section \<open>The bench\<close>

lemma debug_objects: "csrs_named tlu_debug_accessed = [CSR ''DICAD0'' 0x7C9 (\<lambda>x. x), CSR ''DICAD0H'' 0x7CC (\<lambda>x. x),
    CSR ''DICAWICS'' 0x7C8 dicawics, CSR ''DPC'' 0x7B1 (\<lambda>x. x AND NOT 0x1), CSR ''DCSR'' 0x7B0 dcsr]"
  by (simp add: tlu_debug_accessed_def csrs_named_def csr_table_def CSR_def map_filter_simps)

lemma debug_addrs: "csr_at ''DCSR'' = 0x7B0" "csr_at ''DPC'' = 0x7B1" "csr_at ''DICAWICS'' = 0x7C8"
  by (simp_all add: csr_at_def csr_table_def CSR_def)

lemma mhpme_names_at: "n \<in> set mhpme_names \<Longrightarrow> csr_at n \<in> {0x323, 0x324, 0x325, 0x326}"
proof -
  have "csr_at ''MHPME3'' = 0x323" "csr_at ''MHPME4'' = 0x324" "csr_at ''MHPME5'' = 0x325" "csr_at ''MHPME6'' = 0x326"
    by (simp_all add: csr_at_def csr_table_def CSR_def)
  then show "n \<in> set mhpme_names \<Longrightarrow> csr_at n \<in> {0x323, 0x324, 0x325, 0x326}" by (auto simp: mhpme_names_def)
qed

lemma mhpme_objects: "csrs_named mhpme_names =
    [CSR ''MHPME3'' 0x323 mhpme, CSR ''MHPME4'' 0x324 mhpme, CSR ''MHPME5'' 0x325 mhpme, CSR ''MHPME6'' 0x326 mhpme]"
  by (simp add: mhpme_names_def csrs_named_def csr_table_def CSR_def map_filter_simps)

text \<open>
  Remark: the two benches, written differently, predict the same for the debug registers: the
  list of five registers of one and the chain of comparisons of the other agree everywhere.
\<close>

theorem tlu_debug_out_equiv:
  "tlu_debug_out csr v = csr_readback (csrs_named tlu_debug_accessed) csr v"
  by (simp add: tlu_debug_out_def csr_readback_def debug_objects debug_addrs CSR_def)

definition tlu_answers :: "tlu_test \<Rightarrow> (nat \<Rightarrow> pins) \<Rightarrow> (string \<Rightarrow> nat) \<Rightarrow> nat \<Rightarrow> bool \<times> TluInputItem \<Rightarrow> bool" where
  "tlu_answers test env d t = (\<lambda>(locked, it). case test of
     tlu_meihap \<Rightarrow> take_bit 8 (env (t + 4) ''dec_tlu_meihap'') = ti_pic_claimid it \<and>
       drop_bit 10 (env (t + 4) ''dec_tlu_meihap'') = drop_bit 12 (ti_dec_csr_wrdata_r it)
   | tlu_mtdata \<Rightarrow> mtdata_agrees (nat (ti_mtsel it)) (ti_mtdata1 it) (ti_mtdata2 it) (get_from_dut (env (t + 6)))
   | tlu_mdseac \<Rightarrow> env (t + 5 + unlock_time d locked) ''dec_csr_rddata_d'' = ti_lsu_imprecise_error_addr_any it
   | tlu_csrs_access \<Rightarrow> env (t + 2) ''dec_csr_rddata_d'' = csr_readback csr_list (ti_csr_addr it) (ti_dec_csr_wrdata_r it)
   | tlu_mhpme \<Rightarrow> env (t + 2) ''dec_csr_rddata_d'' = mhpme (ti_dec_csr_wrdata_r it)
   | tlu_debug_csrs_access \<Rightarrow> env (t + 4) ''dec_csr_rddata_d'' = tlu_debug_out (ti_csr_addr it) (ti_dec_csr_wrdata_r it)
   | tlu_debug_ic_cache \<Rightarrow> env (t + 1) ''dec_csr_rddata_d'' OR push_bit 32 (env (t + 2) ''dec_csr_rddata_d'') OR
       push_bit 64 (env (t + 3) ''dec_csr_rddata_d'') = ti_ifu_ic_debug_rd_data it)"

lemma tlu_judge_answers:
  assumes "test = tlu_mhpme \<Longrightarrow> ti_csr_addr (snd it) \<in> {0x323, 0x324, 0x325, 0x326}"
  shows "tlu_judge test (tlu_inp_item test (tlu_inp_vals test p it)) (tlu_out_item test (tlu_out_vals test env d t it)) = Inr True
    \<longleftrightarrow> tlu_answers test env d t it"
proof (cases "test = tlu_mhpme")
  case True
  then show ?thesis
    using assms by (cases it) (auto simp: tlu_judge_def tlu_inp_item_def tlu_out_item_def tlu_inp_vals_def tlu_out_vals_def
       tlu_answers_def tlu_input0_def tlu_output0_def mhpme_objects CSR_def)
next
  case False
  then show ?thesis
    by (cases it; cases test)
      (auto simp: tlu_judge_def tlu_inp_item_def tlu_out_item_def tlu_inp_vals_def tlu_out_vals_def tlu_answers_def
         tlu_input0_def tlu_output0_def get_from_dut_def pkt_pins_def and_mask drop_bit_push_bit_int)
qed

lemma tlu_prepare_quiet:
  assumes "holds_width rd tlu_width"
  shows "quiet (tlu_sigs test) (pins_after rd tlu_prepare p)"
proof -
  have "''dec_csr_wen_r'' \<in> set tlu_zeroed" "''lsu_imprecise_error_store_any'' \<in> set tlu_zeroed"
    "''ifu_ic_debug_rd_data_valid'' \<in> set tlu_zeroed" by (simp_all add: tlu_zeroed_def)
  then show ?thesis
    using assms
    by (cases test) (simp_all add: tlu_prepare_def tlu_do_reset_def tlu_sigs_def tlu_rd pins_after_append pins_after_all)
qed



end
