(* ===== verification/Dec_Pmp_Ctl.thy ===== *)
theory Dec_Pmp_Ctl
  imports Signal_Script
begin

text \<open>
  The bench of the register side of the memory protection unit,
  \<open>verification/block/dec_pmp_ctl/testbench.py\<close> with its sequences in \<open>test_dec_pmp_ctl.py\<close>: registers
  are written through one port and read back through another, and what was written has to come
  back in the same order. The values the random generator returns are a stream \<open>draw\<close>: draw \<open>k\<close> is
  the offset and the data of the \<open>k\<close>-th call of \<open>randomize\<close>.
\<close>

section \<open>Definitions\<close>

definition PMPCFG :: int where "PMPCFG = 0x3A0"
definition PMPADDR0 :: int where "PMPADDR0 = 0x3B0"
definition PMPADDR16 :: int where "PMPADDR16 = 0x3C0"
definition PMPADDR32 :: int where "PMPADDR32 = 0x3D0"
definition PMPADDR48 :: int where "PMPADDR48 = 0x3E0"

lemmas PMP_defs = PMPCFG_def PMPADDR0_def PMPADDR16_def PMPADDR32_def PMPADDR48_def

record pmpctl_item =
  ii_addr :: int
  ii_data :: int

definition ii_randomize :: "int \<times> int \<Rightarrow> pmpctl_item \<Rightarrow> pmpctl_item" where
  "ii_randomize = (\<lambda>(offset, data) it. it\<lparr>ii_addr := ii_addr it + offset, ii_data := data\<rparr>)"

subsection \<open>Sequences\<close>

text \<open>\<open>while True: item = InputItem(base); item.randomize(); if item.addr not in addrs: break\<close>.\<close>

partial_function (option) fresh_item ::
  "(nat \<Rightarrow> int \<times> int) \<Rightarrow> int \<Rightarrow> int list \<Rightarrow> nat \<Rightarrow> (pmpctl_item \<times> nat) option" where
  "fresh_item draw base addrs k =
     (let item = ii_randomize (draw k) \<lparr>ii_addr = base, ii_data = 0\<rparr>
      in if ii_addr item \<notin> set addrs then Some (item, Suc k) else fresh_item draw base addrs (Suc k))"

text \<open>The two sequences differ in the mask \<open>m\<close>: only the second may lock an entry.\<close>

definition legalize_pmpcfg :: "int \<Rightarrow> pmpctl_item \<Rightarrow> pmpctl_item" where
  "legalize_pmpcfg m item =
     item\<lparr>ii_data := ii_data item AND (push_bit 24 m OR push_bit 16 m OR push_bit 8 m OR m)\<rparr>"

definition legalize_pmpaddr :: "pmpctl_item \<Rightarrow> pmpctl_item" where
  "legalize_pmpaddr item = item\<lparr>ii_data := ii_data item AND 0x3FFFFFFF\<rparr>"

text \<open>The items for a list of bases, each with the function that makes its data legal.\<close>

fun generate ::
  "(nat \<Rightarrow> int \<times> int) \<Rightarrow> (int \<times> (pmpctl_item \<Rightarrow> pmpctl_item)) list \<Rightarrow> int list \<Rightarrow> nat \<Rightarrow> (pmpctl_item list \<times> nat) option" where
  "generate draw [] addrs k = Some ([], k)"
| "generate draw ((base, legalize) # bs) addrs k =
     Option.bind (fresh_item draw base addrs k) (\<lambda>(item, k').
       Option.bind (generate draw bs (ii_addr item # addrs) k') (\<lambda>(items, k'').
         Some (legalize item # items, k'')))"

definition CsrSequence :: "(nat \<Rightarrow> int \<times> int) \<Rightarrow> nat \<Rightarrow> (pmpctl_item list \<times> nat) option" where
  "CsrSequence draw k = generate draw (concat (replicate 5
     ((PMPCFG, legalize_pmpcfg 0b00011101) #
      map (\<lambda>base. (base, legalize_pmpaddr)) [PMPADDR0, PMPADDR16, PMPADDR32, PMPADDR48]))) [] k"

definition PmpCfgLockSequence :: "(nat \<Rightarrow> int \<times> int) \<Rightarrow> nat \<Rightarrow> (pmpctl_item list \<times> nat) option" where
  "PmpCfgLockSequence draw k = generate draw (replicate 10 (PMPCFG, legalize_pmpcfg 0b10011101)) [] k"

subsection \<open>Drivers\<close>

definition CsrWriteDriver :: "pmpctl_item \<Rightarrow> action list" where
  "CsrWriteDriver it =
     [Await (RisingEdge ''clk''), Drive ''dec_csr_wen_r'' 1, Drive ''dec_csr_wraddr_r'' (ii_addr it),
      Drive ''dec_csr_wrdata_r'' (ii_data it), Await (RisingEdge ''clk''), Drive ''dec_csr_wen_r'' 0]"

definition CsrReadDriver :: "pmpctl_item \<Rightarrow> action list" where
  "CsrReadDriver it =
     [Await (RisingEdge ''clk''), Drive ''dec_csr_rdaddr_d'' (ii_addr it), Await (RisingEdge ''clk''),
      Drive ''dec_csr_rdaddr_d'' 0]"

definition pmpctl_drive_any :: "(pmpctl_item \<Rightarrow> action list) \<Rightarrow> pmpctl_item seq_item \<Rightarrow> action list py" where
  "pmpctl_drive_any drive it = (case it of Item i \<Rightarrow> Inr (drive i) | OtherItem \<Rightarrow> Inl RuntimeError)"

subsection \<open>Monitors\<close>

definition WriteMonitor :: "pins list \<Rightarrow> pmpctl_item list" where
  "WriteMonitor = List.map_filter (\<lambda>p. if p ''dec_csr_wen_r'' \<noteq> 0
     then Some \<lparr>ii_addr = p ''dec_csr_wraddr_r'', ii_data = p ''dec_csr_wrdata_r''\<rparr> else None)"

definition ReadMonitor :: "pins list \<Rightarrow> pmpctl_item list" where
  "ReadMonitor = List.map_filter (\<lambda>p.
     if p ''dec_csr_rdaddr_d'' AND 0x3F0 \<in> set [PMPCFG, PMPADDR0, PMPADDR16, PMPADDR32, PMPADDR48]
     then Some \<lparr>ii_addr = p ''dec_csr_rdaddr_d'', ii_data = p ''dec_csr_rddata_d''\<rparr> else None)"

subsection \<open>Scoreboard\<close>

definition pmpctl_judge :: "pmpctl_item \<Rightarrow> pmpctl_item \<Rightarrow> bool py" where
  "pmpctl_judge i out = Inr (\<not> (ii_addr i \<noteq> ii_addr out \<or> ii_data i \<noteq> ii_data out))"

definition pmpctl_check_phase ::
  "('p \<Rightarrow> pmpctl_item option \<times> 'p) \<Rightarrow> ('q \<Rightarrow> pmpctl_item option \<times> 'q) \<Rightarrow> 'p \<Rightarrow> 'q \<Rightarrow> bool option py option" where
  "pmpctl_check_phase try_get_inp try_get_out port_inp port_out =
     pair_loop try_get_inp try_get_out pmpctl_judge port_inp port_out None"

subsection \<open>Tests\<close>

definition pmpctl_zeroed :: "string list" where
  "pmpctl_zeroed =
    [''dec_csr_rdaddr_d'', ''i_cpu_halt_req'', ''i_cpu_run_req'', ''lsu_fastint_stall_any'',
     ''ifu_pmu_instr_aligned'', ''ifu_pmu_fetch_stall'', ''ifu_pmu_ic_miss'', ''ifu_pmu_ic_hit'',
     ''ifu_pmu_bus_error'', ''ifu_pmu_bus_busy'', ''ifu_pmu_bus_trxn'', ''dec_pmu_instr_decoded'',
     ''dec_pmu_decode_stall'', ''dec_pmu_presync_stall'', ''dec_pmu_postsync_stall'', ''lsu_store_stall_any'',
     ''dma_dccm_stall_any'', ''dma_iccm_stall_any'', ''exu_pmu_i0_br_misp'', ''exu_pmu_i0_br_ataken'',
     ''exu_pmu_i0_pc4'', ''lsu_pmu_bus_trxn'', ''lsu_pmu_bus_misaligned'', ''lsu_pmu_bus_error'',
     ''lsu_pmu_bus_busy'', ''lsu_pmu_load_external_m'', ''lsu_pmu_store_external_m'', ''dma_pmu_dccm_read'',
     ''dma_pmu_dccm_write'', ''dma_pmu_any_read'', ''dma_pmu_any_write'', ''lsu_fir_addr'', ''lsu_fir_error'',
     ''iccm_dma_sb_error'', ''lsu_single_ecc_error_incr'', ''dec_pause_state'', ''lsu_imprecise_error_store_any'',
     ''lsu_imprecise_error_load_any'', ''lsu_imprecise_error_addr_any'', ''dec_csr_wen_unq_d'',
     ''dec_csr_any_unq_d'', ''dec_csr_rdaddr_d'', ''dec_csr_wen_r'', ''dec_csr_rdaddr_r'', ''dec_csr_wraddr_r'',
     ''dec_csr_wrdata_r'', ''dec_csr_stall_int_ff'', ''dec_tlu_i0_valid_r'', ''exu_npc_r'', ''dec_tlu_i0_pc_r'',
     ''dec_illegal_inst'', ''dec_i0_decode_d'', ''exu_i0_br_hist_r'', ''exu_i0_br_error_r'',
     ''exu_i0_br_start_error_r'', ''exu_i0_br_valid_r'', ''exu_i0_br_mp_r'', ''exu_i0_br_middle_r'',
     ''exu_i0_br_way_r'', ''dec_csr_stall_int_ff'', ''dbg_halt_req'', ''dbg_resume_req'', ''lsu_idle_any'',
     ''dec_div_active'', ''ifu_ic_error_start'', ''ifu_iccm_rd_ecc_single_err'', ''ifu_ic_debug_rd_data'',
     ''ifu_ic_debug_rd_data_valid'', ''core_id'']"

definition pmpctl_do_reset :: "action list" where
  "pmpctl_do_reset = [Drive ''rst_l'' 0] @ map (\<lambda>s. Drive s 0) pmpctl_zeroed @
     [Await (ClockCycles ''clk'' 10), Await (FallingEdge ''clk''), Drive ''rst_l'' 1]"

definition pmpctl_prepare :: "action list" where
  "pmpctl_prepare = pmpctl_do_reset @ [Await (ClockCycles ''clk'' 2)]"

text \<open>One sequence, written and then read back; the lock test resets the unit after each.\<close>

definition csr_access_round :: "pmpctl_item list \<Rightarrow> action list" where
  "csr_access_round items = concat (map CsrWriteDriver items) @ concat (map CsrReadDriver items)"

definition cfg_lock_round :: "pmpctl_item list \<Rightarrow> action list" where
  "cfg_lock_round items = csr_access_round items @ pmpctl_do_reset"

section \<open>Drawing fresh addresses\<close>

definition window :: "int \<Rightarrow> int \<Rightarrow> bool" where
  "window base a \<longleftrightarrow> base \<le> a \<and> a < base + 16"

text \<open>The generator stays in its ranges and sooner or later returns every offset.\<close>

definition fair_draws :: "(nat \<Rightarrow> int \<times> int) \<Rightarrow> bool" where
  "fair_draws draw \<longleftrightarrow>
     (\<forall>k. 0 \<le> fst (draw k) \<and> fst (draw k) < 16 \<and> 0 \<le> snd (draw k) \<and> snd (draw k) \<le> 0xFFFFFFFF) \<and>
     (\<forall>k off. 0 \<le> off \<and> off < 16 \<longrightarrow> (\<exists>j\<ge>k. fst (draw j) = off))"

lemma fresh_item_returns:
  assumes "fair_draws draw" "window base a" "a \<notin> set addrs"
  shows "\<exists>b d k'. fresh_item draw base addrs k = Some (\<lparr>ii_addr = b, ii_data = d\<rparr>, k') \<and>
    window base b \<and> b \<notin> set addrs \<and> 0 \<le> d \<and> d \<le> 0xFFFFFFFF"
proof -
  from assms(1,2) obtain j where j: "k \<le> j" "fst (draw j) = a - base"
    unfolding fair_draws_def window_def by (metis diff_ge_0_iff_ge diff_less_eq add.commute)
  then show ?thesis
  proof (induction "j - k" arbitrary: k)
    case 0
    then show ?case
      using assms by (subst fresh_item.simps) (auto simp: ii_randomize_def split_def fair_draws_def window_def)
  next
    case (Suc n)
    then have IH: "\<exists>b d k'. fresh_item draw base addrs (Suc k) = Some (\<lparr>ii_addr = b, ii_data = d\<rparr>, k') \<and>
        window base b \<and> b \<notin> set addrs \<and> 0 \<le> d \<and> d \<le> 0xFFFFFFFF" by (intro Suc(1)) simp_all
    have "window base (base + fst (draw k))" "0 \<le> snd (draw k)" "snd (draw k) \<le> 0xFFFFFFFF"
      using assms(1) by (simp_all add: fair_draws_def window_def)
    with IH show ?case by (subst fresh_item.simps) (simp add: ii_randomize_def split_def)
  qed
qed

lemma window_free:
  assumes "length (filter (window base) addrs) < 16"
  shows "\<exists>a. window base a \<and> a \<notin> set addrs"
proof (rule ccontr)
  assume "\<not> ?thesis"
  then have "{base..<base + 16} \<subseteq> set (filter (window base) addrs)" by (auto simp: window_def)
  then have "card {base..<base + 16} \<le> length (filter (window base) addrs)"
    by (meson card_length card_mono finite_set le_trans)
  with assms show False by simp
qed

text \<open>The bases are multiples of 16, so the windows of different bases do not meet.\<close>

lemma window_apart: "16 dvd b \<Longrightarrow> 16 dvd base \<Longrightarrow> window base a \<Longrightarrow> window b a \<longleftrightarrow> b = base"
  by (auto simp: window_def elim!: dvdE)

definition keeps_addr :: "(pmpctl_item \<Rightarrow> pmpctl_item) \<Rightarrow> bool" where
  "keeps_addr legalize \<longleftrightarrow> (\<forall>it. ii_addr (legalize it) = ii_addr it)"

lemma generate_returns:
  assumes "fair_draws draw" "\<forall>(b, legalize)\<in>set bs. 16 dvd b \<and> keeps_addr legalize"
    and "\<forall>b. 16 dvd b \<longrightarrow> length (filter (window b) addrs) + count_list (map fst bs) b \<le> 16"
  shows "\<exists>items k'. generate draw bs addrs k = Some (items, k') \<and> distinct (map ii_addr items) \<and>
    set (map ii_addr items) \<inter> set addrs = {} \<and>
    list_all2 (\<lambda>(b, legalize) it. \<exists>a d. it = legalize \<lparr>ii_addr = a, ii_data = d\<rparr> \<and> window b a \<and> 0 \<le> d \<and> d \<le> 0xFFFFFFFF) bs items"
  using assms(2,3)
proof (induction bs arbitrary: addrs k)
  case Nil
  then show ?case by simp
next
  case (Cons bl bs)
  obtain b l where bl: "bl = (b, l)" by (cases bl)
  from Cons.prems bl have b: "16 dvd b" "keeps_addr l" by auto
  from Cons.prems(2) b(1) bl have "length (filter (window b) addrs) < 16" by force
  then obtain a where a: "window b a" "a \<notin> set addrs" using window_free by blast
  obtain a' d k' where f: "fresh_item draw b addrs k = Some (\<lparr>ii_addr = a', ii_data = d\<rparr>, k')"
    "window b a'" "a' \<notin> set addrs" "0 \<le> d" "d \<le> 0xFFFFFFFF"
    using fresh_item_returns [OF assms(1) a] by blast
  have cnt: "\<forall>c. 16 dvd c \<longrightarrow> length (filter (window c) (a' # addrs)) + count_list (map fst bs) c \<le> 16"
  proof (intro allI impI)
    fix c :: int assume c: "16 dvd c"
    with Cons.prems(2) have "length (filter (window c) addrs) + count_list (map fst (bl # bs)) c \<le> 16" by blast
    with bl window_apart [OF c b(1) f(2)]
    show "length (filter (window c) (a' # addrs)) + count_list (map fst bs) c \<le> 16" by (auto split: if_splits)
  qed
  obtain items k'' where g: "generate draw bs (a' # addrs) k' = Some (items, k'')" "distinct (map ii_addr items)"
    "set (map ii_addr items) \<inter> set (a' # addrs) = {}"
    "list_all2 (\<lambda>(b, legalize) it. \<exists>a d. it = legalize \<lparr>ii_addr = a, ii_data = d\<rparr> \<and> window b a \<and> 0 \<le> d \<and> d \<le> 0xFFFFFFFF) bs items"
    using Cons.IH [OF _ cnt, of k'] Cons.prems(1) by auto
  have "ii_addr (l \<lparr>ii_addr = a', ii_data = d\<rparr>) = a'" using b(2) by (simp add: keeps_addr_def)
  then show ?case using f g by (auto simp: bl)
qed

lemma legalize_keeps [simp]: "keeps_addr (legalize_pmpcfg m)" "keeps_addr legalize_pmpaddr"
  by (simp_all add: keeps_addr_def legalize_pmpcfg_def legalize_pmpaddr_def)

text \<open>What the sequences are meant to produce.\<close>

definition legal_item :: "pmpctl_item \<Rightarrow> bool" where
  "legal_item it \<longleftrightarrow> 0x3A0 \<le> ii_addr it \<and> ii_addr it < 0x3F0 \<and>
     (if ii_addr it < 0x3B0 then ii_data it AND 0x9D9D9D9D = ii_data it else take_bit 30 (ii_data it) = ii_data it)"

lemma legal_cfg: "window PMPCFG a \<Longrightarrow> m \<in> {0b00011101, 0b10011101} \<Longrightarrow> legal_item (legalize_pmpcfg m \<lparr>ii_addr = a, ii_data = d\<rparr>)"
  by (auto simp: legal_item_def legalize_pmpcfg_def window_def PMPCFG_def and.assoc)

lemma legal_addr:
  "window b a \<Longrightarrow> b \<in> {PMPADDR0, PMPADDR16, PMPADDR32, PMPADDR48} \<Longrightarrow> legal_item (legalize_pmpaddr \<lparr>ii_addr = a, ii_data = d\<rparr>)"
proof -
  have "d AND 0x3FFFFFFF = take_bit 30 d" by (simp add: take_bit_eq_mask mask_eq_exp_minus_1)
  then show "window b a \<Longrightarrow> b \<in> {PMPADDR0, PMPADDR16, PMPADDR32, PMPADDR48} \<Longrightarrow> legal_item (legalize_pmpaddr \<lparr>ii_addr = a, ii_data = d\<rparr>)"
    by (auto simp: legal_item_def legalize_pmpaddr_def window_def PMP_defs)
qed

lemma list_all2_second: "list_all2 P xs ys \<Longrightarrow> (\<And>x y. x \<in> set xs \<Longrightarrow> P x y \<Longrightarrow> Q y) \<Longrightarrow> list_all Q ys"
  by (induction xs ys rule: list_all2_induct) auto

text \<open>
  Remark: however the generator repeats itself, as long as it keeps returning every offset, both
  sequences get all their items: 25 and 10, at different addresses, with legal data.
\<close>

theorem pmp_sequences_terminate:
  assumes "fair_draws draw"
  shows "(\<exists>items k'. CsrSequence draw k = Some (items, k') \<and> length items = 25 \<and> distinct (map ii_addr items) \<and>
      list_all legal_item items) \<and>
    (\<exists>items k'. PmpCfgLockSequence draw k = Some (items, k') \<and> length items = 10 \<and> distinct (map ii_addr items) \<and>
      list_all legal_item items)"
proof
  let ?bs = "concat (replicate 5 ((PMPCFG, legalize_pmpcfg 0b00011101) #
      map (\<lambda>base. (base, legalize_pmpaddr)) [PMPADDR0, PMPADDR16, PMPADDR32, PMPADDR48]))"
  have "\<forall>(b, l)\<in>set ?bs. 16 dvd b \<and> keeps_addr l" by (simp add: PMP_defs)
  moreover have "\<forall>b. 16 dvd b \<longrightarrow> length (filter (window b) []) + count_list (map fst ?bs) b \<le> 16"
    by (simp add: PMP_defs numeral_eq_Suc)
  ultimately obtain items k' where g: "generate draw ?bs [] k = Some (items, k')" "distinct (map ii_addr items)"
    "list_all2 (\<lambda>(b, l) it. \<exists>a d. it = l \<lparr>ii_addr = a, ii_data = d\<rparr> \<and> window b a \<and> 0 \<le> d \<and> d \<le> 0xFFFFFFFF) ?bs items"
    using generate_returns [OF assms, of ?bs "[]" k] by blast
  have "list_all legal_item items"
    by (rule list_all2_second [OF g(3)]) (auto simp: legal_cfg legal_addr)
  moreover have "length items = 25" using list_all2_lengthD [OF g(3)] by (simp add: length_concat sum_list_replicate)
  ultimately show "\<exists>items k'. CsrSequence draw k = Some (items, k') \<and> length items = 25 \<and> distinct (map ii_addr items) \<and>
      list_all legal_item items" using g(1,2) by (auto simp: CsrSequence_def)
next
  let ?bs = "replicate 10 (PMPCFG, legalize_pmpcfg 0b10011101)"
  have "\<forall>(b, l)\<in>set ?bs. 16 dvd b \<and> keeps_addr l" by (simp add: PMP_defs)
  moreover have "\<forall>b. 16 dvd b \<longrightarrow> length (filter (window b) []) + count_list (map fst ?bs) b \<le> 16"
    by (simp add: PMP_defs numeral_eq_Suc)
  ultimately obtain items k' where g: "generate draw ?bs [] k = Some (items, k')" "distinct (map ii_addr items)"
    "list_all2 (\<lambda>(b, l) it. \<exists>a d. it = l \<lparr>ii_addr = a, ii_data = d\<rparr> \<and> window b a \<and> 0 \<le> d \<and> d \<le> 0xFFFFFFFF) ?bs items"
    using generate_returns [OF assms, of ?bs "[]" k] by blast
  have "list_all legal_item items"
    by (rule list_all2_second [OF g(3)]) (auto simp: legal_cfg)
  moreover have "length items = 10" using list_all2_lengthD [OF g(3)] by simp
  ultimately show "\<exists>items k'. PmpCfgLockSequence draw k = Some (items, k') \<and> length items = 10 \<and> distinct (map ii_addr items) \<and>
      list_all legal_item items" using g(1,2) by (auto simp: PmpCfgLockSequence_def)
qed

text \<open>A generator that counts.\<close>

lemma counting_fair: "fair_draws (\<lambda>k. (int (k mod 16), 0))"
proof -
  have "\<exists>j\<ge>k. int (j mod 16) = off" if "0 \<le> off" "off < 16" for k off
    using that by (intro exI [of _ "16 * k + nat off"]) auto
  then show ?thesis by (simp add: fair_draws_def)
qed

theorem pmp_sequences_terminate_witness:
  "\<exists>items k'. CsrSequence (\<lambda>k. (int (k mod 16), 0)) 0 = Some (items, k') \<and> length items = 25"
  using pmp_sequences_terminate [OF counting_fair, of 0] by auto

section \<open>The bench\<close>

definition pmpctl_width :: "(string \<times> nat) list" where
  "pmpctl_width = [(''dec_csr_wen_r'', 1), (''dec_csr_wraddr_r'', 12), (''dec_csr_wrdata_r'', 32), (''dec_csr_rdaddr_d'', 12)]"

definition pmpctl_outs :: "string list" where
  "pmpctl_outs = map fst pmpctl_width"

definition pmpctl_sigs :: "string list" where
  "pmpctl_sigs = [''dec_csr_wen_r'', ''dec_csr_rdaddr_d'']"

definition pmp_read :: "(nat \<Rightarrow> pins) \<Rightarrow> nat \<Rightarrow> pmpctl_item \<Rightarrow> pmpctl_item" where
  "pmp_read env t it = it\<lparr>ii_data := env t ''dec_csr_rddata_d''\<rparr>"

lemma pmpctl_join [simp]:
  "join_pins pmpctl_outs p e ''dec_csr_wen_r'' = p ''dec_csr_wen_r''"
  "join_pins pmpctl_outs p e ''dec_csr_wraddr_r'' = p ''dec_csr_wraddr_r''"
  "join_pins pmpctl_outs p e ''dec_csr_wrdata_r'' = p ''dec_csr_wrdata_r''"
  "join_pins pmpctl_outs p e ''dec_csr_rdaddr_d'' = p ''dec_csr_rdaddr_d''"
  "join_pins pmpctl_outs p e ''dec_csr_rddata_d'' = e ''dec_csr_rddata_d''"
  by (simp_all add: join_pins_def pmpctl_outs_def pmpctl_width_def)

lemma pmp_monitors_append:
  "WriteMonitor (ps @ qs) = WriteMonitor ps @ WriteMonitor qs"
  "ReadMonitor (ps @ qs) = ReadMonitor ps @ ReadMonitor qs"
  by (simp_all add: WriteMonitor_def ReadMonitor_def List.map_filter_def)

lemma pmp_monitors_Cons [simp]:
  "WriteMonitor [] = []"
  "ReadMonitor [] = []"
  "WriteMonitor (p # ps) = (if p ''dec_csr_wen_r'' \<noteq> 0
     then [\<lparr>ii_addr = p ''dec_csr_wraddr_r'', ii_data = p ''dec_csr_wrdata_r''\<rparr>] else []) @ WriteMonitor ps"
  "ReadMonitor (p # ps) = (if p ''dec_csr_rdaddr_d'' AND 0x3F0 \<in> {PMPCFG, PMPADDR0, PMPADDR16, PMPADDR32, PMPADDR48}
     then [\<lparr>ii_addr = p ''dec_csr_rdaddr_d'', ii_data = p ''dec_csr_rddata_d''\<rparr>] else []) @ ReadMonitor ps"
  by (simp_all add: WriteMonitor_def ReadMonitor_def map_filter_simps)

lemma pmp_base:
  assumes "0x3A0 \<le> a" "a < 0x3F0"
  shows "a AND 0x3F0 = PMPCFG \<or> a AND 0x3F0 = PMPADDR0 \<or> a AND 0x3F0 = PMPADDR16 \<or> a AND 0x3F0 = PMPADDR32 \<or>
    a AND 0x3F0 = PMPADDR48"
proof -
  have "list_all (\<lambda>a. a AND 0x3F0 = 0x3A0 \<or> a AND 0x3F0 = 0x3B0 \<or> a AND 0x3F0 = 0x3C0 \<or> a AND 0x3F0 = 0x3D0 \<or>
      a AND 0x3F0 = 0x3E0) [0x3A0..0x3EF :: int]" by code_simp
  moreover have "a \<in> set [0x3A0..0x3EF :: int]" unfolding set_upto using assms by auto
  ultimately show ?thesis unfolding list_all_iff PMP_defs by blast
qed

definition pmpctl_ok :: "pmpctl_item \<Rightarrow> bool" where
  "pmpctl_ok it \<longleftrightarrow> 0x3A0 \<le> ii_addr it \<and> ii_addr it < 0x3F0 \<and> 0 \<le> ii_data it \<and> ii_data it < 2 ^ 32"

lemma legal_ok: "legal_item it \<Longrightarrow> pmpctl_ok it"
proof -
  have "0 \<le> d \<and> d < 2 ^ 32" if "d AND 0x9D9D9D9D = d" for d :: int
    using that AND_upper2 [of "0x9D9D9D9D" d] and_nonnegative_int_iff [of d "0x9D9D9D9D"] by auto
  moreover have "0 \<le> d \<and> d < 2 ^ 32" if "take_bit 30 d = d" for d :: int
    using that take_bit_nonnegative [of 30 d] take_bit_int_less_exp [of 30 d] by simp
  ultimately show "legal_item it \<Longrightarrow> pmpctl_ok it" by (auto simp: legal_item_def pmpctl_ok_def split: if_splits)
qed

lemma pmpctl_rd:
  assumes "holds_width rd pmpctl_width"
  shows "rd ''dec_csr_wen_r'' 0 = 0" "rd ''dec_csr_wen_r'' 1 = 1" "rd ''dec_csr_rdaddr_d'' 0 = 0"
    "pmpctl_ok it \<Longrightarrow> rd ''dec_csr_wraddr_r'' (ii_addr it) = ii_addr it"
    "pmpctl_ok it \<Longrightarrow> rd ''dec_csr_rdaddr_d'' (ii_addr it) = ii_addr it"
    "pmpctl_ok it \<Longrightarrow> rd ''dec_csr_wrdata_r'' (ii_data it) = ii_data it"
  using assms by (simp_all add: holds_width_def pmpctl_width_def pmpctl_ok_def)

lemma PMP_nonzero: "PMPCFG \<noteq> 0" "PMPADDR0 \<noteq> 0" "PMPADDR16 \<noteq> 0" "PMPADDR32 \<noteq> 0" "PMPADDR48 \<noteq> 0"
  by (simp_all add: PMP_defs)

text \<open>What the read monitor reports for one sequence that starts at edge \<open>t\<close>, and for several.\<close>

fun reads_at :: "(nat \<Rightarrow> pins) \<Rightarrow> nat \<Rightarrow> pmpctl_item list \<Rightarrow> pmpctl_item list" where
  "reads_at env t [] = []"
| "reads_at env t (it # its) = pmp_read env (t + 1) it # reads_at env (t + 2) its"

fun rounds_read :: "(nat \<Rightarrow> pins) \<Rightarrow> nat \<Rightarrow> nat \<Rightarrow> pmpctl_item list list \<Rightarrow> pmpctl_item list" where
  "rounds_read env pause t [] = []"
| "rounds_read env pause t (its # rs) =
     reads_at env (t + 2 * length its) its @ rounds_read env pause (t + 4 * length its + pause) rs"

abbreviation pmp_seen :: "(nat \<Rightarrow> pins) \<Rightarrow> nat \<Rightarrow> (string \<Rightarrow> nat) \<Rightarrow> (string \<Rightarrow> int \<Rightarrow> int) \<Rightarrow> action list \<Rightarrow> pins \<Rightarrow> pins list" where
  "pmp_seen env t d rd as p \<equiv> observed pmpctl_outs env t (clk_samples d rd as p)"

lemma pmp_writes:
  assumes "holds_width rd pmpctl_width" "list_all pmpctl_ok its" "quiet pmpctl_sigs p"
  shows "WriteMonitor (pmp_seen env t d rd (concat (map CsrWriteDriver its)) p) = its \<and>
    ReadMonitor (pmp_seen env t d rd (concat (map CsrWriteDriver its)) p) = [] \<and>
    length (clk_samples d rd (concat (map CsrWriteDriver its)) p) = 2 * length its \<and>
    quiet pmpctl_sigs (pins_after rd (concat (map CsrWriteDriver its)) p)"
  using assms(2,3)
proof (induction its arbitrary: p t)
  case (Cons it its)
  have "WriteMonitor (pmp_seen env t d rd (CsrWriteDriver it) p) = [it] \<and> ReadMonitor (pmp_seen env t d rd (CsrWriteDriver it) p) = [] \<and>
    length (clk_samples d rd (CsrWriteDriver it) p) = 2 \<and> quiet pmpctl_sigs (pins_after rd (CsrWriteDriver it) p)"
    using Cons.prems pmpctl_rd [OF assms(1)] PMP_nonzero by (simp add: CsrWriteDriver_def pmpctl_sigs_def)
  with Cons show ?case by (simp add: observed_append pins_after_append clk_samples_append pmp_monitors_append)
qed simp

lemma pmp_reads:
  assumes "holds_width rd pmpctl_width" "list_all pmpctl_ok its" "quiet pmpctl_sigs p"
  shows "WriteMonitor (pmp_seen env t d rd (concat (map CsrReadDriver its)) p) = [] \<and>
    ReadMonitor (pmp_seen env t d rd (concat (map CsrReadDriver its)) p) = reads_at env t its \<and>
    length (clk_samples d rd (concat (map CsrReadDriver its)) p) = 2 * length its \<and>
    quiet pmpctl_sigs (pins_after rd (concat (map CsrReadDriver its)) p)"
  using assms(2,3)
proof (induction its arbitrary: p t)
  case (Cons it its)
  have "pmpctl_ok it" using Cons.prems by simp
  then have "WriteMonitor (pmp_seen env t d rd (CsrReadDriver it) p) = [] \<and>
    ReadMonitor (pmp_seen env t d rd (CsrReadDriver it) p) = [pmp_read env (t + 1) it] \<and>
    length (clk_samples d rd (CsrReadDriver it) p) = 2 \<and> quiet pmpctl_sigs (pins_after rd (CsrReadDriver it) p)"
    using Cons.prems pmpctl_rd [OF assms(1)] PMP_nonzero pmp_base [of "ii_addr it"]
    by (simp add: CsrReadDriver_def pmpctl_sigs_def pmp_read_def pmpctl_ok_def)
  with Cons show ?case by (simp add: observed_append pins_after_append clk_samples_append pmp_monitors_append)
qed simp

lemma pmp_reset:
  assumes "holds_width rd pmpctl_width"
  shows "WriteMonitor (pmp_seen env t d rd pmpctl_do_reset p) = [] \<and> ReadMonitor (pmp_seen env t d rd pmpctl_do_reset p) = [] \<and>
    length (clk_samples d rd pmpctl_do_reset p) = 10 \<and> quiet pmpctl_sigs (pins_after rd pmpctl_do_reset p)"
proof -
  let ?q = "pins_after rd (Drive ''rst_l'' 0 # map (\<lambda>s. Drive s 0) pmpctl_zeroed) p"
  have z: "''dec_csr_wen_r'' \<in> set pmpctl_zeroed" "''dec_csr_rdaddr_d'' \<in> set pmpctl_zeroed"
    by (simp_all add: pmpctl_zeroed_def)
  have q: "quiet pmpctl_sigs ?q" using z pmpctl_rd [OF assms] by (simp add: pmpctl_sigs_def pins_after_all)
  have none: "clk_samples d rd (map (\<lambda>s. Drive s 0) ss) p' = []" for ss p' by (induction ss arbitrary: p') simp_all
  have s: "clk_samples d rd pmpctl_do_reset p = replicate 10 ?q"
    by (simp add: pmpctl_do_reset_def clk_samples_append none pins_after_append)
  have idle: "WriteMonitor (observed pmpctl_outs env t (replicate n ?q)) = [] \<and>
      ReadMonitor (observed pmpctl_outs env t (replicate n ?q)) = []" for n
    using q PMP_nonzero by (induction n arbitrary: t) (simp_all add: pmpctl_sigs_def del: pins_after.simps)
  have "quiet pmpctl_sigs (pins_after rd pmpctl_do_reset p)"
    using q by (simp add: pmpctl_do_reset_def pins_after_append pmpctl_sigs_def)
  then show ?thesis unfolding s using idle by simp
qed

definition pmp_round :: "bool \<Rightarrow> pmpctl_item list \<Rightarrow> action list" where
  "pmp_round lock its = (if lock then cfg_lock_round its else csr_access_round its)"

definition pmp_pause :: "bool \<Rightarrow> nat" where
  "pmp_pause lock = (if lock then 10 else 0)"

lemma pmp_rounds:
  assumes "holds_width rd pmpctl_width" "list_all (list_all pmpctl_ok) rs" "quiet pmpctl_sigs p"
  shows "WriteMonitor (pmp_seen env t d rd (concat (map (pmp_round lock) rs)) p) = concat rs \<and>
    ReadMonitor (pmp_seen env t d rd (concat (map (pmp_round lock) rs)) p) = rounds_read env (pmp_pause lock) t rs"
  using assms(2,3)
proof (induction rs arbitrary: p t)
  case (Cons its rs)
  let ?w = "pins_after rd (concat (map CsrWriteDriver its)) p"
  let ?r = "pins_after rd (concat (map CsrReadDriver its)) ?w"
  have ok: "list_all pmpctl_ok its" using Cons.prems by simp
  note w = pmp_writes [OF assms(1) ok Cons.prems(2)]
  then have qw: "quiet pmpctl_sigs ?w" by blast
  note r = pmp_reads [OF assms(1) ok qw]
  then have qr: "quiet pmpctl_sigs ?r" by blast
  have one: "WriteMonitor (pmp_seen env t d rd (pmp_round lock its) p) = its \<and>
      ReadMonitor (pmp_seen env t d rd (pmp_round lock its) p) = reads_at env (t + 2 * length its) its \<and>
      length (clk_samples d rd (pmp_round lock its) p) = 4 * length its + pmp_pause lock \<and>
      quiet pmpctl_sigs (pins_after rd (pmp_round lock its) p)"
    using w r qr pmp_reset [OF assms(1)]
    by (simp add: pmp_round_def pmp_pause_def cfg_lock_round_def csr_access_round_def observed_append pins_after_append
        clk_samples_append pmp_monitors_append)
  with Cons show ?case
    by (simp add: observed_append pins_after_append clk_samples_append pmp_monitors_append add.assoc)
qed simp

interpretation pmpctlsb: pair_scoreboard pmpctl_judge "\<lambda>_. True" "(=)" "\<lambda>_. AssertionError"
  by unfold_locales (auto simp: pmpctl_judge_def)

text \<open>
  Property C14: the register bench from reset on, for the access test and for the lock test, which
  resets the unit after every sequence. It passes exactly when there is an item and every register
  reads as what was written to it, at the edge at which its address is on the read port.
\<close>

theorem pmpctl_bench_verdict:
  assumes "fifo_port ci tgi" "fifo_port co tgo" "holds_width rd pmpctl_width" "list_all (list_all legal_item) rs"
    and "p = pins_after rd pmpctl_prepare q"
    and "seen = observed pmpctl_outs env 0 (clk_samples d rd (concat (map (pmp_round lock) rs)) p)"
    and "ci pi = WriteMonitor seen" "co po = ReadMonitor seen"
  shows "pmpctl_check_phase tgi tgo pi po = Some (Inr (Some True)) \<longleftrightarrow>
    concat rs \<noteq> [] \<and> rounds_read env (pmp_pause lock) 0 rs = concat rs"
proof -
  have "quiet pmpctl_sigs p"
    using pmp_reset [OF assms(3)] by (simp add: assms(5) pmpctl_prepare_def pins_after_append)
  moreover have "list_all (list_all pmpctl_ok) rs" using assms(4) legal_ok by (auto simp: list_all_iff)
  ultimately show ?thesis
    using pmp_rounds [OF assms(3), of rs p env 0 d lock]
    unfolding pmpctl_check_phase_def pmpctlsb.check_passes_iff [OF assms(1,2)] assms(6-8)
    by (auto simp: list.rel_eq)
qed

theorem pmpctl_bench_verdict_witness:
  "pmpctl_check_phase list_try_get list_try_get [\<lparr>ii_addr = 0x3B0, ii_data = 7\<rparr>] [\<lparr>ii_addr = 0x3B0, ii_data = 7\<rparr>] =
     Some (Inr (Some True))"
proof -
  let ?it = "\<lparr>ii_addr = 0x3B0, ii_data = 7\<rparr>"
  let ?p = "pins_after (\<lambda>_ v. v) pmpctl_prepare (\<lambda>_. 0)"
  let ?seen = "observed pmpctl_outs (\<lambda>_ _. 7) 0 (clk_samples (\<lambda>_. 0) (\<lambda>_ v. v) (concat (map (pmp_round False) [[?it]])) ?p)"
  have h: "holds_width (\<lambda>_ v. v) pmpctl_width" by (simp add: holds_width_def list_all_iff)
  have ok: "list_all (list_all legal_item) [[?it]]" by (simp add: legal_item_def)
  have "quiet pmpctl_sigs ?p" using pmp_reset [OF h] by (simp add: pmpctl_prepare_def pins_after_append)
  from pmp_rounds [OF h _ this, of "[[?it]]" "\<lambda>_ _. 7" 0 "\<lambda>_. 0" False] legal_ok [of ?it] ok
  have "WriteMonitor ?seen = [?it]" "ReadMonitor ?seen = [?it]" by (simp_all add: pmp_read_def)
  then show ?thesis
    using pmpctl_bench_verdict [OF list_fifo_port list_fifo_port h ok refl refl, where env = "\<lambda>_ _. 7" and d = "\<lambda>_. 0" and
        lock = False and q = "\<lambda>_. 0" and pi = "[?it]" and po = "[?it]"]
    by (simp add: pmp_read_def)
qed

end
