(* ===== verification/Ahb_Bus.thy ===== *)
theory Ahb_Bus
  imports Axi_Bus
begin

text \<open>
  The bench of the AHB to AXI bridge, \<open>verification/block/lib_ahb_to_axi4/testbench.py\<close>: the manager
  that issues AHB transfers and the monitor that watches them, the AXI subordinate, and the
  scoreboard. As in \<open>Axi_Bus\<close>, \<open>env t\<close> holds what the bridge shows at edge \<open>t\<close>, and a coroutine is the
  list of its actions with its result, the number of the next edge.
\<close>

section \<open>Definitions\<close>

subsection \<open>AHB manager\<close>

datatype HTRANS = IDLE | BUSY | NONSEQ | SEQ

definition htrans_code :: "HTRANS \<Rightarrow> int" where
  "htrans_code h = (case h of IDLE \<Rightarrow> 0b00 | BUSY \<Rightarrow> 0b01 | NONSEQ \<Rightarrow> 0b10 | SEQ \<Rightarrow> 0b11)"

definition htrans_of :: "int \<Rightarrow> HTRANS py" where
  "htrans_of v = (if v = 0 then Inr IDLE else if v = 1 then Inr BUSY else if v = 2 then Inr NONSEQ
     else if v = 3 then Inr SEQ else Inl ValueError)"

datatype HBURST = SINGLE | INCR | WRAP4 | INCR4 | WRAP8 | INCR8 | WRAP16 | INCR16

definition hburst_code :: "HBURST \<Rightarrow> int" where
  "hburst_code h = (case h of SINGLE \<Rightarrow> 0 | INCR \<Rightarrow> 1 | WRAP4 \<Rightarrow> 2 | INCR4 \<Rightarrow> 3 | WRAP8 \<Rightarrow> 4 | INCR8 \<Rightarrow> 5
     | WRAP16 \<Rightarrow> 6 | INCR16 \<Rightarrow> 7)"

text \<open>The dictionary from word counts to \<open>HSIZE\<close>: of equal keys the last one counts.\<close>

definition hsize :: "nat \<Rightarrow> nat \<Rightarrow> int option" where
  "hsize dwidth = map_of (rev [(64 div dwidth, 3), (128 div dwidth, 4), (256 div dwidth, 5), (512 div dwidth, 6),
     (1024 div dwidth, 7)])"

definition ahb_wait :: "(nat \<Rightarrow> pins) \<Rightarrow> nat \<Rightarrow> action list \<times> nat py" where
  "ahb_wait env = wait_for (\<lambda>p. p ''ahb_hreadyout'' = 1) TimeoutError env 200"

text \<open>The address phase; \<open>hreset\<close> is the value of the reset when the coroutine looks at it.\<close>

definition ahb_address :: "int \<Rightarrow> int \<Rightarrow> int \<Rightarrow> int \<Rightarrow> action list" where
  "ahb_address hreset sz addr hwrite =
     (if hreset = 0 then [Await (RisingEdge ''ahb_hreset'')] else []) @
     [Await (RisingEdge ''clk''), Drive ''ahb_hsel'' 1, Drive ''ahb_hprot'' 1, Drive ''ahb_hsize'' sz,
      Drive ''ahb_haddr'' addr, Drive ''ahb_hwrite'' hwrite, Drive ''ahb_htrans'' (htrans_code NONSEQ),
      Drive ''ahb_hburst'' (hburst_code SINGLE)]"

text \<open>The data phase: the words to write, or \<open>None\<close> for each word to read.\<close>

definition ahb_beat :: "nat \<Rightarrow> int \<Rightarrow> bool \<Rightarrow> int option \<Rightarrow> action list" where
  "ahb_beat dwidth addr follows word =
     (if follows then [Drive ''ahb_haddr'' (addr + int (dwidth div 8)), Drive ''ahb_htrans'' (htrans_code SEQ)]
      else [Drive ''ahb_htrans'' (htrans_code IDLE)]) @
     (case word of None \<Rightarrow> [] | Some w \<Rightarrow> [Drive ''ahb_hwdata'' w])"

fun ahb_data :: "(nat \<Rightarrow> pins) \<Rightarrow> nat \<Rightarrow> int \<Rightarrow> int option list \<Rightarrow> nat \<Rightarrow> action list \<times> nat py" where
  "ahb_data env dwidth addr [] t = ([], Inr t)"
| "ahb_data env dwidth addr (word # words) t =
     (let (as, r) = ahb_wait env t; beat = ahb_beat dwidth addr (words \<noteq> []) word
      in case r of
           Inl e \<Rightarrow> (beat @ as, Inl e)
         | Inr t' \<Rightarrow> (let (bs, r') = ahb_data env dwidth (addr + int (dwidth div 8)) words t' in (beat @ as @ bs, r')))"

definition ahb_transfer ::
  "(nat \<Rightarrow> pins) \<Rightarrow> nat \<Rightarrow> int \<Rightarrow> int \<Rightarrow> int \<Rightarrow> int option list \<Rightarrow> nat \<Rightarrow> action list \<times> nat py" where
  "ahb_transfer env dwidth hreset addr hwrite words t =
     (case hsize dwidth (length words) of
        None \<Rightarrow> ([], Inl AssertionError)
      | Some sz \<Rightarrow>
          (let (as, r) = ahb_wait env (Suc t); req = ahb_address hreset sz addr hwrite @ as
           in case r of
                Inl e \<Rightarrow> (req, Inl e)
              | Inr t' \<Rightarrow> (let (bs, r') = ahb_data env dwidth addr words t' in (req @ bs, r'))))"

definition ahb_write :: "(nat \<Rightarrow> pins) \<Rightarrow> nat \<Rightarrow> int \<Rightarrow> int \<Rightarrow> int list \<Rightarrow> nat \<Rightarrow> action list \<times> nat py" where
  "ahb_write env dwidth hreset addr data = ahb_transfer env dwidth hreset addr 1 (map Some data)"

definition ahb_read :: "(nat \<Rightarrow> pins) \<Rightarrow> nat \<Rightarrow> int \<Rightarrow> int \<Rightarrow> nat \<Rightarrow> nat \<Rightarrow> action list \<times> nat py" where
  "ahb_read env dwidth hreset addr len = ahb_transfer env dwidth hreset addr 0 (replicate len None)"

definition ahb_driver :: "(nat \<Rightarrow> pins) \<Rightarrow> nat \<Rightarrow> int \<Rightarrow> bus_item seq_item \<Rightarrow> nat \<Rightarrow> action list \<times> nat py" where
  "ahb_driver env dwidth hreset it t = (case it of
     Item (BusWriteItem addr data _) \<Rightarrow> ahb_write env dwidth hreset addr data t
   | Item (BusReadItem addr _ _) \<Rightarrow> ahb_read env dwidth hreset addr 1 t
   | OtherItem \<Rightarrow> ([], Inl RuntimeError))"

fun ahb_run_phase :: "(nat \<Rightarrow> pins) \<Rightarrow> nat \<Rightarrow> int \<Rightarrow> bus_item seq_item list \<Rightarrow> nat \<Rightarrow> action list \<times> nat py" where
  "ahb_run_phase env dwidth hreset [] t = ([], Inr t)"
| "ahb_run_phase env dwidth hreset (it # its) t =
     (let (as, r) = ahb_driver env dwidth hreset it t
      in case r of
           Inl e \<Rightarrow> (as, Inl e)
         | Inr t' \<Rightarrow> (let (bs, r') = ahb_run_phase env dwidth hreset its t' in (as @ ItemDone # bs, r')))"

subsection \<open>AHB monitor\<close>

text \<open>
  The local variables of \<open>watch\<close>; \<open>am_reset\<close> is the reset as last seen. While the reset is low the
  monitor waits for it to rise and takes no edge.
\<close>

record ahb_monitor =
  am_reset :: int
  am_data_stage :: bool
  am_hdata :: bytes
  am_haddr :: int
  am_htrans :: "HTRANS option"
  am_hwrite :: int

definition ahb_monitor0 :: ahb_monitor where
  "ahb_monitor0 = \<lparr>am_reset = 0, am_data_stage = False, am_hdata = [], am_haddr = 0, am_htrans = None, am_hwrite = 0\<rparr>"

definition ahb_sample :: "nat \<Rightarrow> pins \<Rightarrow> ahb_monitor \<Rightarrow> (ahb_monitor \<times> bus_item list) py" where
  "ahb_sample dwidth p s =
     (if am_data_stage s then
        (if am_htrans s \<in> {Some SEQ, Some NONSEQ} then
           bind_py (collect_bytes (dwidth, p (if am_hwrite s \<noteq> 0 then ''ahb_hwdata'' else ''ahb_hrdata'')) None)
             (\<lambda>data. Inr (s\<lparr>am_hdata := am_hdata s @ data\<rparr>, []))
         else if am_htrans s = Some IDLE then
           Inr (s\<lparr>am_data_stage := False\<rparr>,
             [if am_hwrite s \<noteq> 0 then BusWriteItem (am_haddr s) (am_hdata s) None
              else BusReadItem (am_haddr s) (Some (am_hdata s)) None])
         else Inr (s, []))
      else Inr (s, []))"

definition ahb_signals :: "pins \<Rightarrow> ahb_monitor \<Rightarrow> ahb_monitor py" where
  "ahb_signals p s = bind_py (htrans_of (p ''ahb_htrans'')) (\<lambda>htrans.
     Inr (if \<not> am_data_stage s \<and> htrans \<in> {SEQ, NONSEQ}
          then s\<lparr>am_htrans := Some htrans, am_hwrite := p ''ahb_hwrite'', am_haddr := p ''ahb_haddr'', am_hdata := [],
            am_data_stage := True\<rparr>
          else s\<lparr>am_htrans := Some htrans\<rparr>))"

definition ahb_watch_step ::
  "nat \<Rightarrow> pins \<Rightarrow> ahb_monitor \<times> bus_item list \<Rightarrow> (ahb_monitor \<times> bus_item list) py" where
  "ahb_watch_step dwidth p acc =
     (let s = (fst acc)\<lparr>am_reset := p ''ahb_hreset''\<rparr>
      in if am_reset (fst acc) = 0 \<and> p ''ahb_hreset'' = 0 then Inr (s, snd acc)
         else if p ''ahb_hreadyout'' = 0 then Inr (s, snd acc)
         else bind_py (ahb_sample dwidth p s) (\<lambda>(s', items).
           bind_py (ahb_signals p s') (\<lambda>s''. Inr (s'', snd acc @ items))))"

definition ahb_watch :: "nat \<Rightarrow> pins list \<Rightarrow> (ahb_monitor \<times> bus_item list) py" where
  "ahb_watch dwidth ps = fold_py (ahb_watch_step dwidth) ps (ahb_monitor0, [])"

subsection \<open>AXI subordinate\<close>

datatype axi_sub_item = AXI4LiteReadyItem "string list" bool | AXI4LiteResponseItem "string list"

definition axi_sub_wait :: "(nat \<Rightarrow> pins) \<Rightarrow> string \<Rightarrow> nat \<Rightarrow> action list \<times> nat py" where
  "axi_sub_wait env sig = wait_for (\<lambda>p. p sig \<noteq> 0) TimeoutError env 200"

definition set_ready :: "string \<Rightarrow> bool \<Rightarrow> nat \<Rightarrow> action list \<times> nat py" where
  "set_ready channel ready t =
     (if channel \<notin> {''aw'', ''w'', ''ar'', ''r''} then ([], Inl AssertionError)
      else ([Await (RisingEdge ''clk''), Drive (''axi_'' @ channel @ ''ready'') (of_bool ready)], Inr (Suc t)))"

text \<open>Ready until the bridge shows valid: the channels \<open>aw\<close>, \<open>w\<close> and \<open>ar\<close>.\<close>

definition respond_ready :: "(nat \<Rightarrow> pins) \<Rightarrow> string \<Rightarrow> string \<Rightarrow> nat \<Rightarrow> action list \<times> nat py" where
  "respond_ready env ready valid t =
     (let (as, r) = axi_sub_wait env valid t
      in (Drive ready 1 # as @ (case r of Inl _ \<Rightarrow> [] | Inr _ \<Rightarrow> [Drive ready 0]), r))"

definition respond_aw :: "(nat \<Rightarrow> pins) \<Rightarrow> nat \<Rightarrow> action list \<times> nat py" where
  "respond_aw env = respond_ready env ''axi_awready'' ''axi_awvalid''"

definition respond_w :: "(nat \<Rightarrow> pins) \<Rightarrow> nat \<Rightarrow> action list \<times> nat py" where
  "respond_w env = respond_ready env ''axi_wready'' ''axi_wvalid''"

definition respond_ar :: "(nat \<Rightarrow> pins) \<Rightarrow> nat \<Rightarrow> action list \<times> nat py" where
  "respond_ar env = respond_ready env ''axi_arready'' ''axi_arvalid''"

definition respond_b :: "(nat \<Rightarrow> pins) \<Rightarrow> nat \<Rightarrow> action list \<times> nat py" where
  "respond_b env t =
     (let (as, r) = axi_sub_wait env ''axi_bready'' t
      in case r of
           Inl e \<Rightarrow> (as, Inl e)
         | Inr t' \<Rightarrow> (as @ [Drive ''axi_bvalid'' 1, Drive ''axi_bid'' 0, Drive ''axi_bresp'' 0,
             Await (RisingEdge ''clk''), Drive ''axi_bvalid'' 0], Inr (Suc t')))"

text \<open>\<open>rdata\<close> is the value \<open>random.randrange\<close> returns.\<close>

definition respond_r :: "(nat \<Rightarrow> pins) \<Rightarrow> int \<Rightarrow> nat \<Rightarrow> action list \<times> nat py" where
  "respond_r env rdata t =
     (let (as, r) = axi_sub_wait env ''axi_rready'' t
      in case r of
           Inl e \<Rightarrow> (as, Inl e)
         | Inr t' \<Rightarrow> (as @ [Drive ''axi_rvalid'' 1, Drive ''axi_rdata'' rdata, Await (RisingEdge ''clk''),
             Drive ''axi_rvalid'' 0], Inr (Suc t')))"

text \<open>The tasks the driver starts together for an item.\<close>

definition func_map :: "(nat \<Rightarrow> pins) \<Rightarrow> int \<Rightarrow> string \<Rightarrow> (nat \<Rightarrow> action list \<times> nat py) py" where
  "func_map env rdata c =
     (if c = ''aw'' then Inr (respond_aw env) else if c = ''w'' then Inr (respond_w env)
      else if c = ''b'' then Inr (respond_b env) else if c = ''ar'' then Inr (respond_ar env)
      else if c = ''r'' then Inr (respond_r env rdata) else Inl KeyError)"

fun all_py :: "'a py list \<Rightarrow> 'a list py" where
  "all_py [] = Inr []"
| "all_py (x # xs) = bind_py x (\<lambda>v. bind_py (all_py xs) (\<lambda>vs. Inr (v # vs)))"

definition axi_sub_driver :: "(nat \<Rightarrow> pins) \<Rightarrow> int \<Rightarrow> axi_sub_item seq_item \<Rightarrow> nat \<Rightarrow> (action list \<times> nat py) list py" where
  "axi_sub_driver env rdata it t = (case it of
     Item (AXI4LiteResponseItem channels) \<Rightarrow>
       bind_py (all_py (map (func_map env rdata) channels)) (\<lambda>tasks. Inr (map (\<lambda>f. f t) tasks))
   | Item (AXI4LiteReadyItem channels ready) \<Rightarrow> Inr (map (\<lambda>c. set_ready c ready t) channels)
   | OtherItem \<Rightarrow> Inl RuntimeError)"

subsection \<open>Scoreboard\<close>

fun item_addr :: "bus_item \<Rightarrow> int" where
  "item_addr (BusWriteItem addr data resp) = addr"
| "item_addr (BusReadItem addr data resp) = addr"

text \<open>The message of a pair lists the data of both items; \<open>None\<close> cannot be listed.\<close>

fun item_data :: "bus_item \<Rightarrow> bytes py" where
  "item_data (BusWriteItem addr data resp) = Inr data"
| "item_data (BusReadItem addr data resp) = (case data of None \<Rightarrow> Inl TypeError | Some d \<Rightarrow> Inr d)"

definition bridge_agrees :: "bus_item \<Rightarrow> bus_item \<Rightarrow> bool py" where
  "bridge_agrees ahb axi = bind_py (item_data ahb) (\<lambda>d. bind_py (item_data axi) (\<lambda>d'.
     Inr (\<not> (item_addr ahb \<noteq> item_addr axi \<or> d \<noteq> d'))))"

partial_function (option) bridge_loop ::
  "('p \<Rightarrow> bool) \<Rightarrow> ('p \<Rightarrow> bus_item option \<times> 'p) \<Rightarrow> 'p \<Rightarrow> 'p \<Rightarrow> bool option \<Rightarrow> (bool option \<times> 'p \<times> 'p) py option" where
  "bridge_loop can_get try_get ahb axi passed =
     (if can_get ahb \<and> can_get axi then
        (case (try_get ahb, try_get axi) of
           ((Some x, ahb'), (Some y, axi')) \<Rightarrow>
             (case bridge_agrees x y of
                Inl e \<Rightarrow> Some (Inl e)
              | Inr ok \<Rightarrow> bridge_loop can_get try_get ahb' axi' (Some ok))
         | _ \<Rightarrow> Some (Inl AttributeError))
      else Some (Inr (passed, ahb, axi)))"

definition bridge_check_phase ::
  "('p \<Rightarrow> bool) \<Rightarrow> ('p \<Rightarrow> bus_item option \<times> 'p) \<Rightarrow> 'p \<Rightarrow> 'p \<Rightarrow> bool option py option" where
  "bridge_check_phase can_get try_get ahb axi =
     Option.bind (bridge_loop can_get try_get ahb axi None) (\<lambda>r. Some (bind_py r (\<lambda>(passed, ahb', axi').
       Inr (if can_get ahb' \<or> can_get axi' then Some False else passed))))"

subsection \<open>Test\<close>

definition bridge_do_reset :: "action list" where
  "bridge_do_reset = map (\<lambda>s. Drive s 0)
     [''scan_mode'', ''clk_override'', ''axi_awready'', ''axi_wready'', ''axi_bvalid'', ''axi_bresp'', ''axi_bid'',
      ''axi_arready'', ''axi_rvalid'', ''axi_rid'', ''axi_rdata'', ''axi_rresp'', ''ahb_haddr'', ''ahb_hburst'',
      ''ahb_hmastlock'', ''ahb_hprot'', ''ahb_hsize'', ''ahb_htrans'', ''ahb_hwrite'', ''ahb_hwdata'', ''ahb_hsel'',
      ''rst_l''] @
     [Await (ClockCycles ''clk'' 2), Await (FallingEdge ''clk''), Drive ''rst_l'' 1]"

definition bridge_prepare :: "action list" where
  "bridge_prepare = bridge_do_reset @
     [Drive ''bus_clk_en'' 1, Drive ''ahb_hreadyin'' 1, Await (ClockCycles ''clk'' 2)]"

section \<open>The scoreboard\<close>

fun bridge_pairs :: "bus_item list \<Rightarrow> bus_item list \<Rightarrow> bool option \<Rightarrow> bool option py" where
  "bridge_pairs [] [] passed = Inr passed"
| "bridge_pairs [] (_ # _) passed = Inr (Some False)"
| "bridge_pairs (_ # _) [] passed = Inr (Some False)"
| "bridge_pairs (x # xs) (y # ys) passed =
     (case bridge_agrees x y of Inl e \<Rightarrow> Inl e | Inr ok \<Rightarrow> bridge_pairs xs ys (Some ok))"

lemma bridge_check_pairs:
  assumes port: "fifo_port c tg" and can: "fifo_can_get c cg"
  shows "Option.bind (bridge_loop cg tg p q passed) (\<lambda>r. Some (bind_py r (\<lambda>(passed, p', q').
      Inr (if cg p' \<or> cg q' then Some False else passed)))) = Some (bridge_pairs (c p) (c q) passed)"
proof (induction "c p" arbitrary: p q passed)
  case Nil
  note nil = Nil.hyps [symmetric]
  with can have "\<not> cg p" "cg q \<longleftrightarrow> c q \<noteq> []" by (simp_all add: fifo_can_get_def)
  with nil show ?case by (subst bridge_loop.simps) (cases "c q"; simp)
next
  case (Cons x xs)
  note hd = Cons.hyps(2) [symmetric]
  obtain p' where p': "tg p = (Some x, p')" "c p' = xs" using fifo_port_Cons [OF port hd] by metis
  from hd can have cp: "cg p" by (simp add: fifo_can_get_def)
  show ?case
  proof (cases "c q")
    case Nil
    with can have "\<not> cg q" by (simp add: fifo_can_get_def)
    with cp hd Nil show ?thesis by (subst bridge_loop.simps) simp
  next
    case (Cons y ys)
    obtain q' where q': "tg q = (Some y, q')" "c q' = ys" using fifo_port_Cons [OF port Cons] by metis
    from Cons can have "cg q" by (simp add: fifo_can_get_def)
    with cp p'(1) q'(1) have unfold: "bridge_loop cg tg p q passed =
        (case bridge_agrees x y of Inl e \<Rightarrow> Some (Inl e) | Inr ok \<Rightarrow> bridge_loop cg tg p' q' (Some ok))"
      by (subst bridge_loop.simps) simp
    show ?thesis
      unfolding unfold using Cons.hyps(1) [OF p'(2) [symmetric], of q'] hd \<open>c q = y # ys\<close> p'(2) q'(2)
      by (simp split: sum.split)
  qed
qed

definition has_data :: "bus_item \<Rightarrow> bool" where
  "has_data it \<longleftrightarrow> \<not> isl (item_data it)"

lemma bridge_agrees_data:
  "has_data x \<Longrightarrow> has_data y \<Longrightarrow> bridge_agrees x y = Inr (item_addr x = item_addr y \<and> item_data x = item_data y)"
  by (cases "item_data x"; cases "item_data y") (simp_all add: bridge_agrees_def has_data_def)

lemma bridge_pairs_last:
  "list_all has_data xs \<Longrightarrow> list_all has_data ys \<Longrightarrow>
   bridge_pairs xs ys passed = Inr (Some True) \<longleftrightarrow>
     length xs = length ys \<and> (if xs = [] then passed = Some True else bridge_agrees (last xs) (last ys) = Inr True)"
proof (induction xs ys passed rule: bridge_pairs.induct)
  case (4 x xs y ys passed)
  then show ?case by (auto simp: bridge_agrees_data split: if_splits)
qed auto

text \<open>
  Remark: the verdict of the bridge scoreboard. It forgets a mismatch when the next pair
  agrees: it passes exactly when both buses saw the same number of transfers, at least one, and
  the last pair has the same address and data, whatever the pairs before it are. It compares
  neither the kind of the transfers nor their responses.
\<close>

theorem bridge_verdict_last:
  assumes "fifo_port c tg" "fifo_can_get c cg" "list_all has_data (c p)" "list_all has_data (c q)"
  shows "bridge_check_phase cg tg p q = Some (Inr (Some True)) \<longleftrightarrow>
    c p \<noteq> [] \<and> length (c p) = length (c q) \<and> item_addr (last (c p)) = item_addr (last (c q)) \<and>
    item_data (last (c p)) = item_data (last (c q))"
proof -
  have "has_data (last (c p))" "has_data (last (c q))" if "c p \<noteq> []" "length (c p) = length (c q)"
    using that assms(3,4) unfolding list_all_iff by (metis last_in_set length_0_conv)+
  then show ?thesis
    unfolding bridge_check_phase_def bridge_check_pairs [OF assms(1,2)]
    using bridge_pairs_last [OF assms(3,4), of None] by (auto simp: bridge_agrees_data)
qed

theorem bridge_verdict_last_witness:
  "bridge_check_phase list_can_get list_try_get
     [BusWriteItem 8 [1] None, BusWriteItem 16 [2] None] [BusWriteItem 0 [9] None, BusReadItem 16 (Some [2]) None] =
   Some (Inr (Some True))"
  using bridge_verdict_last [OF list_fifo_port list_fifo_can_get,
      of "[BusWriteItem 8 [1] None, BusWriteItem 16 [2] None]" "[BusWriteItem 0 [9] None, BusReadItem 16 (Some [2]) None]"]
  by (simp add: has_data_def)

section \<open>A response is one handshake\<close>



section \<open>AHB transfers as the monitor sees them\<close>

definition ahb_outs :: "string list" where
  "ahb_outs = [''ahb_hsel'', ''ahb_hprot'', ''ahb_hsize'', ''ahb_haddr'', ''ahb_hwrite'', ''ahb_htrans'', ''ahb_hburst'',
     ''ahb_hwdata'']"

lemma ahb_join [simp]:
  "join_pins ahb_outs p e ''ahb_haddr'' = p ''ahb_haddr''"
  "join_pins ahb_outs p e ''ahb_hwrite'' = p ''ahb_hwrite''"
  "join_pins ahb_outs p e ''ahb_htrans'' = p ''ahb_htrans''"
  "join_pins ahb_outs p e ''ahb_hwdata'' = p ''ahb_hwdata''"
  "join_pins ahb_outs p e ''ahb_hreset'' = e ''ahb_hreset''"
  "join_pins ahb_outs p e ''ahb_hreadyout'' = e ''ahb_hreadyout''"
  "join_pins ahb_outs p e ''ahb_hrdata'' = e ''ahb_hrdata''"
  by (simp_all add: join_pins_def ahb_outs_def)

text \<open>The bridge is out of reset and its ready pin is a bit.\<close>

definition ahb_live :: "(nat \<Rightarrow> pins) \<Rightarrow> bool" where
  "ahb_live env \<longleftrightarrow> (\<forall>t. env t ''ahb_hreset'' = 1 \<and> env t ''ahb_hreadyout'' \<in> {0, 1})"

definition ahb_width :: "nat \<Rightarrow> (string \<times> nat) list" where
  "ahb_width n = [(''ahb_haddr'', 32), (''ahb_hwrite'', 1), (''ahb_htrans'', 2), (''ahb_hwdata'', 8 * n)]"

text \<open>Between transfers the bus is idle; a transfer that has ended may still be unreported.\<close>

definition ahb_between :: "ahb_monitor \<Rightarrow> bool" where
  "ahb_between s \<longleftrightarrow> am_reset s = 1 \<and> (am_data_stage s \<longrightarrow> am_htrans s = Some IDLE)"

definition unreported :: "ahb_monitor \<Rightarrow> bus_item list" where
  "unreported s = (if am_data_stage s then
     [if am_hwrite s \<noteq> 0 then BusWriteItem (am_haddr s) (am_hdata s) None
      else BusReadItem (am_haddr s) (Some (am_hdata s)) None] else [])"

definition ahb_active :: "int \<Rightarrow> int \<Rightarrow> bytes \<Rightarrow> HTRANS \<Rightarrow> ahb_monitor" where
  "ahb_active hwrite haddr hdata htrans = \<lparr>am_reset = 1, am_data_stage = True, am_hdata = hdata, am_haddr = haddr,
     am_htrans = Some htrans, am_hwrite = hwrite\<rparr>"

lemma ahb_not_ready:
  "am_reset s = 1 \<Longrightarrow> p ''ahb_hreset'' = 1 \<Longrightarrow> p ''ahb_hreadyout'' = 0 \<Longrightarrow> ahb_watch_step w p (s, its) = Inr (s, its)"
  by (simp add: ahb_watch_step_def)

lemma ahb_wait_steps:
  assumes live: "ahb_live env" and "ahb_wait env t = (as, Inr t')" "am_reset s = 1"
  shows "as = replicate (t' - t) (Await (RisingEdge ''clk'')) \<and> t < t' \<and> env (t' - 1) ''ahb_hreadyout'' = 1 \<and>
    fold_py (ahb_watch_step w) (observed ahb_outs env t (replicate (t' - t) q)) (s, its) =
      ahb_watch_step w (join_pins ahb_outs q (env (t' - 1))) (s, its)"
proof -
  from assms(2) obtain m where m: "as = replicate (Suc m) (Await (RisingEdge ''clk''))" "t' = t + Suc m"
    "env (t + m) ''ahb_hreadyout'' = 1" "\<forall>k<m. env (t + k) ''ahb_hreadyout'' \<noteq> 1"
    unfolding ahb_wait_def by (auto dest: wait_for_edges)
  have "fold_py (ahb_watch_step w) (observed ahb_outs env t (replicate k q)) (s, its) = Inr (s, its)"
    if "\<forall>j<k. env (t + j) ''ahb_hreadyout'' \<noteq> 1" for k t
    using that
  proof (induction k arbitrary: t)
    case (Suc k)
    have "env t ''ahb_hreadyout'' \<noteq> 1" "\<forall>j<k. env (Suc t + j) ''ahb_hreadyout'' \<noteq> 1"
      using Suc.prems by (metis add_0_right zero_less_Suc) (metis Suc.prems Suc_less_eq add_Suc_shift)
    moreover from this(1) live have "env t ''ahb_hreadyout'' = 0" "env t ''ahb_hreset'' = 1"
      unfolding ahb_live_def by auto
    ultimately show ?case using Suc.IH [of "Suc t"] assms(3) by (simp add: ahb_not_ready)
  qed simp
  from this [OF m(4)] show ?thesis
    unfolding m(2) using m by (simp add: replicate_snoc observed_append fold_py_append del: replicate.simps fold_py.simps(2))
qed

lemma ahb_idle_edge:
  assumes "ahb_live env" "ahb_between s" "p ''ahb_htrans'' = 0"
  shows "\<exists>s' its'. ahb_watch_step w (join_pins ahb_outs p (env t)) (s, its) = Inr (s', its') \<and> ahb_between s' \<and>
    its' @ unreported s' = its @ unreported s \<and> (env t ''ahb_hreadyout'' = 1 \<longrightarrow> unreported s' = [])"
  using assms
  by (cases "env t ''ahb_hreadyout'' = 0")
    (auto simp: ahb_live_def ahb_between_def ahb_watch_step_def ahb_sample_def ahb_signals_def htrans_of_def unreported_def)

lemma ahb_start_edge:
  assumes "ahb_live env" "ahb_between s" "env t ''ahb_hreadyout'' = 1" "p ''ahb_htrans'' = 2"
  shows "ahb_watch_step w (join_pins ahb_outs p (env t)) (s, its) =
    Inr (ahb_active (p ''ahb_hwrite'') (p ''ahb_haddr'') [] NONSEQ, its @ unreported s)"
  using assms
  by (auto simp: ahb_live_def ahb_between_def ahb_watch_step_def ahb_sample_def ahb_signals_def htrans_of_def
      unreported_def ahb_active_def)

lemma ahb_beat_edge:
  assumes "ahb_live env" "env t ''ahb_hreadyout'' = 1" "h \<in> {NONSEQ, SEQ}" "p ''ahb_htrans'' = htrans_code h'"
  shows "ahb_watch_step (8 * n) (join_pins ahb_outs p (env t)) (ahb_active hw ha d h, its) =
    Inr (ahb_active hw ha (d @ le_bytes n (if hw \<noteq> 0 then p ''ahb_hwdata'' else env t ''ahb_hrdata'')) h', its)"
  using assms
  by (cases h') (auto simp: ahb_live_def ahb_watch_step_def ahb_sample_def ahb_signals_def htrans_of_def
      ahb_active_def htrans_code_def collect_bytes_all)

text \<open>The bytes of a transfer: the words written, or what the bridge shows at the end of each beat.\<close>

fun ahb_bytes :: "(nat \<Rightarrow> pins) \<Rightarrow> nat \<Rightarrow> int option list \<Rightarrow> nat \<Rightarrow> bytes" where
  "ahb_bytes env n [] t = []"
| "ahb_bytes env n (word # words) t = (case snd (ahb_wait env t) of
     Inl _ \<Rightarrow> []
   | Inr t' \<Rightarrow> le_bytes n (case word of Some v \<Rightarrow> v | None \<Rightarrow> env (t' - 1) ''ahb_hrdata'') @ ahb_bytes env n words t')"

definition word_fits :: "nat \<Rightarrow> int \<Rightarrow> int option \<Rightarrow> bool" where
  "word_fits n hwrite word = (case word of Some v \<Rightarrow> hwrite = 1 \<and> 0 \<le> v \<and> v < 2 ^ (8 * n) | None \<Rightarrow> hwrite = 0)"

lemma ahb_rd:
  assumes "holds_width rd (ahb_width n)"
  shows "rd ''ahb_htrans'' (htrans_code h) = htrans_code h" "rd ''ahb_hwrite'' 0 = 0" "rd ''ahb_hwrite'' 1 = 1"
    "0 \<le> a \<Longrightarrow> a < 2 ^ 32 \<Longrightarrow> rd ''ahb_haddr'' a = a" "0 \<le> v \<Longrightarrow> v < 2 ^ (8 * n) \<Longrightarrow> rd ''ahb_hwdata'' v = v"
  using assms by (cases h; simp add: holds_width_def ahb_width_def htrans_code_def)+

lemma ahb_beat_pins:
  assumes "holds_width rd (ahb_width n)" "word_fits n hw word"
  shows "clk_samples d rd (ahb_beat (8 * n) addr follows word @ as) p =
      clk_samples d rd as (pins_after rd (ahb_beat (8 * n) addr follows word) p) \<and>
    pins_after rd (ahb_beat (8 * n) addr follows word) p ''ahb_htrans'' = htrans_code (if follows then SEQ else IDLE) \<and>
    (case word of None \<Rightarrow> hw = 0 | Some v \<Rightarrow> hw = 1 \<and> pins_after rd (ahb_beat (8 * n) addr follows word) p ''ahb_hwdata'' = v)"
  using assms(2) ahb_rd [OF assms(1)]
  by (cases word; cases follows) (simp_all add: ahb_beat_def word_fits_def)

lemma ahb_data_steps:
  assumes live: "ahb_live env" and w: "holds_width rd (ahb_width n)"
  shows "ahb_data env (8 * n) addr words t = (as, Inr t') \<Longrightarrow> words \<noteq> [] \<Longrightarrow> list_all (word_fits n hw) words \<Longrightarrow>
    h \<in> {NONSEQ, SEQ} \<Longrightarrow>
    fold_py (ahb_watch_step (8 * n)) (observed ahb_outs env t (clk_samples d rd as p)) (ahb_active hw ha dd h, its) =
      Inr (ahb_active hw ha (dd @ ahb_bytes env n words t) IDLE, its) \<and>
    t + length (clk_samples d rd as p) = t' \<and> pins_after rd as p ''ahb_htrans'' = 0"
proof (induction words arbitrary: addr t as p dd h)
  case (Cons word words)
  let ?follows = "words \<noteq> []"
  let ?q = "pins_after rd (ahb_beat (8 * n) addr ?follows word) p"
  obtain ws r where wt: "ahb_wait env t = (ws, r)" by (cases "ahb_wait env t")
  with Cons.prems(1) obtain t1 where r: "r = Inr t1" by (cases r) (auto simp: Let_def)
  obtain bs r' where rest: "ahb_data env (8 * n) (addr + int n) words t1 = (bs, r')"
    by (cases "ahb_data env (8 * n) (addr + int n) words t1")
  from Cons.prems(1) wt r rest have as: "as = ahb_beat (8 * n) addr ?follows word @ ws @ bs" "r' = Inr t'"
    by (simp_all add: Let_def)
  have fits: "word_fits n hw word" using Cons.prems(3) by simp
  note pins = ahb_beat_pins [OF w fits, of d addr ?follows _ p]
  note wait = ahb_wait_steps [OF live wt [unfolded r], of "ahb_active hw ha dd h"]
  let ?d = "dd @ le_bytes n (case word of Some v \<Rightarrow> v | None \<Rightarrow> env (t1 - 1) ''ahb_hrdata'')"
  have "(if hw \<noteq> 0 then ?q ''ahb_hwdata'' else env (t1 - 1) ''ahb_hrdata'') =
      (case word of Some v \<Rightarrow> v | None \<Rightarrow> env (t1 - 1) ''ahb_hrdata'')"
    using pins fits by (cases word) (auto simp: word_fits_def)
  then have step: "ahb_watch_step (8 * n) (join_pins ahb_outs ?q (env (t1 - 1))) (ahb_active hw ha dd h, its) =
      Inr (ahb_active hw ha ?d (if ?follows then SEQ else IDLE), its)"
    using ahb_beat_edge [OF live, of "t1 - 1" h ?q "if ?follows then SEQ else IDLE" n hw ha dd its] wait Cons.prems(4) pins
    by (simp add: ahb_active_def)
  have smp: "clk_samples d rd as p = replicate (t1 - t) ?q @ clk_samples d rd bs ?q"
    and aft: "pins_after rd as p = pins_after rd bs ?q"
    using pins wait by (simp_all add: as(1) ahb_active_def clk_samples_awaits pins_after_append)
  have edges: "fold_py (ahb_watch_step (8 * n)) (observed ahb_outs env t (replicate (t1 - t) ?q)) (ahb_active hw ha dd h, its) =
      Inr (ahb_active hw ha ?d (if ?follows then SEQ else IDLE), its)" "t < t1"
    using wait step by (simp_all add: ahb_active_def)
  show ?case
  proof (cases "words = []")
    case True
    with rest as(2) have "bs = []" "t' = t1" by simp_all
    then show ?thesis
      using smp aft edges pins True wt r by (simp add: htrans_code_def)
  next
    case False
    from Cons.IH [OF rest [unfolded as(2)] False, of SEQ ?q ?d] Cons.prems(3)
    have IH: "fold_py (ahb_watch_step (8 * n)) (observed ahb_outs env t1 (clk_samples d rd bs ?q)) (ahb_active hw ha ?d SEQ, its) =
        Inr (ahb_active hw ha (?d @ ahb_bytes env n words t1) IDLE, its) \<and> t1 + length (clk_samples d rd bs ?q) = t' \<and>
        pins_after rd bs ?q ''ahb_htrans'' = 0" by simp
    then show ?thesis
      using smp aft edges False wt r by (simp add: observed_append fold_py_append)
  qed
qed simp

definition ahb_item :: "int \<Rightarrow> int \<Rightarrow> bytes \<Rightarrow> bus_item" where
  "ahb_item hwrite addr data =
     (if hwrite \<noteq> 0 then BusWriteItem addr data None else BusReadItem addr (Some data) None)"

lemma ahb_transfer_steps:
  assumes live: "ahb_live env" and w: "holds_width rd (ahb_width n)"
    and tr: "ahb_transfer env (8 * n) 1 addr hw words t = (as, Inr t')"
    and "list_all (word_fits n hw) words" "words \<noteq> []" "hw \<in> {0, 1}" "0 \<le> addr" "addr < 2 ^ 32"
    and "ahb_between s" "p ''ahb_htrans'' = 0"
  shows "\<exists>s' t1. ahb_wait env (Suc t) = (replicate (t1 - Suc t) (Await (RisingEdge ''clk'')), Inr t1) \<and>
    (\<exists>bs. ahb_data env (8 * n) addr words t1 = (bs, Inr t')) \<and>
    fold_py (ahb_watch_step (8 * n)) (observed ahb_outs env t (clk_samples d rd as p)) (s, its) =
      Inr (s', its @ unreported s) \<and> ahb_between s' \<and> unreported s' = [ahb_item hw addr (ahb_bytes env n words t1)] \<and>
    t + length (clk_samples d rd as p) = t' \<and> pins_after rd as p ''ahb_htrans'' = 0"
proof -
  from tr obtain sz where sz: "hsize (8 * n) (length words) = Some sz"
    by (auto simp: ahb_transfer_def split: option.splits)
  obtain ws r where wt: "ahb_wait env (Suc t) = (ws, r)" by (cases "ahb_wait env (Suc t)")
  with tr sz obtain t1 where r: "r = Inr t1" by (cases r) (auto simp: ahb_transfer_def Let_def)
  obtain bs r' where dt: "ahb_data env (8 * n) addr words t1 = (bs, r')" by (cases "ahb_data env (8 * n) addr words t1")
  from tr sz wt r dt have as: "as = ahb_address 1 sz addr hw @ ws @ bs" "r' = Inr t'"
    by (simp_all add: ahb_transfer_def Let_def)
  let ?q = "pins_after rd (ahb_address 1 sz addr hw) p"
  have q: "?q ''ahb_htrans'' = 2" "?q ''ahb_haddr'' = addr" "?q ''ahb_hwrite'' = hw"
    using ahb_rd [OF w] assms(6-8) by (auto simp: ahb_address_def htrans_code_def) (use ahb_rd(1) [OF w, of NONSEQ] in \<open>simp add: htrans_code_def\<close>)+
  have smp1: "clk_samples d rd (ahb_address 1 sz addr hw @ cs) p = p # clk_samples d rd cs ?q" for cs
    by (simp add: ahb_address_def)
  obtain s1 its1 where s1: "ahb_watch_step (8 * n) (join_pins ahb_outs p (env t)) (s, its) = Inr (s1, its1)"
    "ahb_between s1" "its1 @ unreported s1 = its @ unreported s"
    using ahb_idle_edge [of env s p "8 * n" t its] live assms(9,10) by blast
  then have "am_reset s1 = 1" by (simp add: ahb_between_def)
  note wait = ahb_wait_steps [OF live wt [unfolded r] this]
  let ?act = "ahb_active hw addr [] NONSEQ"
  have edges: "fold_py (ahb_watch_step (8 * n)) (observed ahb_outs env (Suc t) (replicate (t1 - Suc t) ?q)) (s1, its1) =
      Inr (?act, its @ unreported s)" "Suc t < t1"
    using wait ahb_start_edge [OF live s1(2), of "t1 - 1" ?q "8 * n" its1] q s1(3) by simp_all
  from ahb_data_steps [OF live w dt [unfolded as(2)] assms(5,4), of NONSEQ d ?q addr "[]" "its @ unreported s"]
  have data: "fold_py (ahb_watch_step (8 * n)) (observed ahb_outs env t1 (clk_samples d rd bs ?q)) (?act, its @ unreported s) =
      Inr (ahb_active hw addr (ahb_bytes env n words t1) IDLE, its @ unreported s)"
    "t1 + length (clk_samples d rd bs ?q) = t'" "pins_after rd bs ?q ''ahb_htrans'' = 0" by simp_all
  have smp: "clk_samples d rd as p = p # replicate (t1 - Suc t) ?q @ clk_samples d rd bs ?q"
    and aft: "pins_after rd as p = pins_after rd bs ?q"
    using wait by (simp_all add: as(1) smp1 clk_samples_awaits pins_after_append)
  have "fold_py (ahb_watch_step (8 * n)) (observed ahb_outs env t (clk_samples d rd as p)) (s, its) =
      Inr (ahb_active hw addr (ahb_bytes env n words t1) IDLE, its @ unreported s)"
    using s1(1) edges data(1) by (simp add: smp observed_append fold_py_append)
  moreover have "t + length (clk_samples d rd as p) = t'" using smp edges(2) data(2) by simp
  moreover have "ahb_wait env (Suc t) = (replicate (t1 - Suc t) (Await (RisingEdge ''clk'')), Inr t1)"
    using wt r wait by simp
  ultimately show ?thesis
    using dt as(2) data(3) aft assms(6)
    by (intro exI [of _ "ahb_active hw addr (ahb_bytes env n words t1) IDLE"] exI [of _ t1])
      (auto simp: ahb_between_def unreported_def ahb_active_def ahb_item_def)
qed

text \<open>What the monitor has to report for an item whose transfer ended before edge \<open>t\<close>.\<close>

definition ahb_report :: "(nat \<Rightarrow> pins) \<Rightarrow> nat \<Rightarrow> bus_item \<Rightarrow> nat \<Rightarrow> bus_item" where
  "ahb_report env n it t = (case it of
     BusWriteItem addr data _ \<Rightarrow> BusWriteItem addr (concat (map (le_bytes n) data)) None
   | BusReadItem addr _ _ \<Rightarrow> BusReadItem addr (Some (le_bytes n (env (t - 1) ''ahb_hrdata''))) None)"

fun ahb_reports :: "(nat \<Rightarrow> pins) \<Rightarrow> nat \<Rightarrow> bus_item list \<Rightarrow> nat \<Rightarrow> bus_item list" where
  "ahb_reports env n [] t = []"
| "ahb_reports env n (it # its) t = (case snd (ahb_driver env (8 * n) 1 (Item it) t) of
     Inl _ \<Rightarrow> []
   | Inr t' \<Rightarrow> ahb_report env n it t' # ahb_reports env n its t')"

fun ahb_fits :: "nat \<Rightarrow> bus_item \<Rightarrow> bool" where
  "ahb_fits n (BusWriteItem addr data resp) \<longleftrightarrow> 0 \<le> addr \<and> addr < 2 ^ 32 \<and> data \<noteq> [] \<and> list_all (\<lambda>v. 0 \<le> v \<and> v < 2 ^ (8 * n)) data"
| "ahb_fits n (BusReadItem addr data resp) \<longleftrightarrow> 0 \<le> addr \<and> addr < 2 ^ 32"

lemma ahb_bytes_write:
  "ahb_data env w addr (map Some data) t = (as, Inr t') \<Longrightarrow> ahb_bytes env n (map Some data) t = concat (map (le_bytes n) data)"
proof (induction data arbitrary: addr t as)
  case (Cons v data)
  then show ?case by (auto simp: Let_def split: prod.splits sum.splits)
qed simp

lemma ahb_driver_steps:
  assumes live: "ahb_live env" and w: "holds_width rd (ahb_width n)"
    and "ahb_driver env (8 * n) 1 (Item it) t = (as, Inr t')" "ahb_fits n it" "ahb_between s" "p ''ahb_htrans'' = 0"
  shows "\<exists>s'. fold_py (ahb_watch_step (8 * n)) (observed ahb_outs env t (clk_samples d rd as p)) (s, its) =
      Inr (s', its @ unreported s) \<and> ahb_between s' \<and> unreported s' = [ahb_report env n it t'] \<and>
    t + length (clk_samples d rd as p) = t' \<and> pins_after rd as p ''ahb_htrans'' = 0"
proof (cases it)
  case (BusWriteItem addr data resp)
  have "list_all (word_fits n 1) (map Some data)" using assms(4) BusWriteItem by (auto simp: list_all_iff word_fits_def)
  then show ?thesis
    using ahb_transfer_steps [OF live w, of addr 1 "map Some data" t as t' s p d its] assms(3-6) BusWriteItem
    by (auto simp: ahb_driver_def ahb_write_def ahb_item_def ahb_report_def ahb_bytes_write)
next
  case (BusReadItem addr data resp)
  have "list_all (word_fits n 0) [None]" by (simp add: word_fits_def)
  then obtain s' t1 bs where x: "ahb_data env (8 * n) addr [None] t1 = (bs, Inr t')"
    "fold_py (ahb_watch_step (8 * n)) (observed ahb_outs env t (clk_samples d rd as p)) (s, its) = Inr (s', its @ unreported s)"
    "ahb_between s'" "unreported s' = [ahb_item 0 addr (ahb_bytes env n [None] t1)]"
    "t + length (clk_samples d rd as p) = t'" "pins_after rd as p ''ahb_htrans'' = 0"
    using ahb_transfer_steps [OF live w, of addr 0 "[None]" t as t' s p d its] assms(3-6) BusReadItem
    by (auto simp: ahb_driver_def ahb_read_def)
  from x(1) have "ahb_bytes env n [None] t1 = le_bytes n (env (t' - 1) ''ahb_hrdata'')"
    by (auto simp: Let_def split: prod.splits sum.splits)
  with x BusReadItem show ?thesis by (auto simp: ahb_item_def ahb_report_def)
qed

lemma ahb_run_steps:
  assumes live: "ahb_live env" and w: "holds_width rd (ahb_width n)"
  shows "ahb_run_phase env (8 * n) 1 (map Item its) t = (as, Inr t') \<Longrightarrow> list_all (ahb_fits n) its \<Longrightarrow> ahb_between s \<Longrightarrow>
    p ''ahb_htrans'' = 0 \<Longrightarrow>
    \<exists>s' out'. fold_py (ahb_watch_step (8 * n)) (observed ahb_outs env t (clk_samples d rd as p)) (s, out) = Inr (s', out') \<and>
      ahb_between s' \<and> out' @ unreported s' = out @ unreported s @ ahb_reports env n its t \<and>
      t + length (clk_samples d rd as p) = t' \<and> pins_after rd as p ''ahb_htrans'' = 0"
proof (induction its arbitrary: t as s p out)
  case (Cons it its)
  obtain as1 r where dr: "ahb_driver env (8 * n) 1 (Item it) t = (as1, r)" by (cases "ahb_driver env (8 * n) 1 (Item it) t")
  with Cons.prems(1) obtain t1 where r: "r = Inr t1" by (cases r) auto
  obtain bs r' where rest: "ahb_run_phase env (8 * n) 1 (map Item its) t1 = (bs, r')"
    by (cases "ahb_run_phase env (8 * n) 1 (map Item its) t1")
  from Cons.prems(1) dr r rest have as: "as = as1 @ ItemDone # bs" "r' = Inr t'" by simp_all
  have fits: "ahb_fits n it" "list_all (ahb_fits n) its" using Cons.prems(2) by simp_all
  obtain s1 where s1: "fold_py (ahb_watch_step (8 * n)) (observed ahb_outs env t (clk_samples d rd as1 p)) (s, out) =
      Inr (s1, out @ unreported s)" "ahb_between s1" "unreported s1 = [ahb_report env n it t1]"
    "t + length (clk_samples d rd as1 p) = t1" "pins_after rd as1 p ''ahb_htrans'' = 0"
    using ahb_driver_steps [OF live w dr [unfolded r] fits(1) Cons.prems(3), of p d out] Cons.prems(4) by blast
  from Cons.IH [OF rest [unfolded as(2)] fits(2) s1(2), of "pins_after rd as1 p" "out @ unreported s"] s1(5)
  obtain s' out' where "fold_py (ahb_watch_step (8 * n)) (observed ahb_outs env t1 (clk_samples d rd bs (pins_after rd as1 p)))
      (s1, out @ unreported s) = Inr (s', out')" "ahb_between s'"
    "out' @ unreported s' = out @ unreported s @ ahb_reports env n (it # its) t"
    "t1 + length (clk_samples d rd bs (pins_after rd as1 p)) = t'" "pins_after rd bs (pins_after rd as1 p) ''ahb_htrans'' = 0"
    using s1(3) dr r by auto
  with s1(1,4) show ?case
    by (auto simp: as(1) clk_samples_append pins_after_append observed_append fold_py_append)
qed simp

lemma ahb_out_of_reset:
  "p ''ahb_hreset'' = 1 \<Longrightarrow> ahb_watch_step w p (s, out) = ahb_watch_step w p (s\<lparr>am_reset := 1\<rparr>, out)"
  by (simp add: ahb_watch_step_def Let_def)

lemma ahb_in_reset:
  "list_all (\<lambda>q. q ''ahb_hreset'' = 0) pre \<Longrightarrow> fold_py (ahb_watch_step w) pre (ahb_monitor0, []) = Inr (ahb_monitor0, [])"
  by (induction pre) (simp_all add: ahb_watch_step_def ahb_monitor0_def)

text \<open>
  Property C11: whatever the bridge's timing, if the manager gets through a list of transfers, the
  monitor reports each exactly once and in order, also when they follow each other without a gap:
  a write with its address and its words as bytes, a read with its address and the bytes the bridge
  showed at the edge that ended it. The last one is reported at the first ready edge after it.
\<close>

theorem ahb_transfers_observed:
  assumes "ahb_live env" "holds_width rd (ahb_width n)" "list_all (ahb_fits n) its" "p ''ahb_htrans'' = 0"
    and "ahb_run_phase env (8 * n) 1 (map Item its) 0 = (as, Inr t)" "env t ''ahb_hreadyout'' = 1"
    and "list_all (\<lambda>q. q ''ahb_hreset'' = 0) pre"
  shows "map_sum id snd (ahb_watch (8 * n) (pre @ observed ahb_outs env 0 (clk_samples d rd as p @ [pins_after rd as p]))) =
    Inr (ahb_reports env n its 0)"
proof -
  let ?s = "ahb_monitor0\<lparr>am_reset := 1\<rparr>" and ?q = "pins_after rd as p"
  let ?seen = "observed ahb_outs env 0 (clk_samples d rd as p @ [?q])"
  have s: "ahb_between ?s" "unreported ?s = []" by (simp_all add: ahb_between_def ahb_monitor0_def unreported_def)
  from ahb_run_steps [OF assms(1,2,5,3) s(1), of p d "[]"] assms(4) obtain s' out' where
    run: "fold_py (ahb_watch_step (8 * n)) (observed ahb_outs env 0 (clk_samples d rd as p)) (?s, []) = Inr (s', out')"
    "ahb_between s'" "out' @ unreported s' = ahb_reports env n its 0" "length (clk_samples d rd as p) = t" "?q ''ahb_htrans'' = 0"
    using s(2) by auto
  from ahb_idle_edge [of env s' ?q "8 * n" t out'] assms(1,6) run(2,5) obtain s'' out'' where
    last: "ahb_watch_step (8 * n) (join_pins ahb_outs ?q (env t)) (s', out') = Inr (s'', out'')"
    "out'' @ unreported s'' = out' @ unreported s'" "unreported s'' = []" by blast
  have "fold_py (ahb_watch_step (8 * n)) ?seen (?s, []) = Inr (s'', ahb_reports env n its 0)"
    using run last by (simp add: observed_append fold_py_append)
  moreover have "fold_py (ahb_watch_step (8 * n)) ?seen (ahb_monitor0, []) = fold_py (ahb_watch_step (8 * n)) ?seen (?s, [])"
  proof (cases ?seen)
    case (Cons x xs)
    moreover have "x ''ahb_hreset'' = 1"
      using Cons assms(1) by (cases "clk_samples d rd as p @ [?q]") (auto simp: ahb_live_def)
    ultimately show ?thesis using ahb_out_of_reset [of x "8 * n" ahb_monitor0 "[]"] by simp
  next
    case Nil
    then have "length ?seen = 0" by (simp only: list.size)
    then show ?thesis by simp
  qed
  ultimately show ?thesis
    using ahb_in_reset [OF assms(7), of "8 * n"] by (simp add: ahb_watch_def fold_py_append)
qed

text \<open>A write and a read with a bridge that is always ready and reads 5.\<close>

theorem ahb_transfers_observed_witness:
  "map_sum id snd (ahb_watch 64 ([\<lambda>_. 0] @ observed ahb_outs (\<lambda>_ s. if s = ''ahb_hrdata'' then 5 else 1) 0
     (clk_samples (\<lambda>_. 0) (\<lambda>_ v. v)
        (fst (ahb_run_phase (\<lambda>_ s. if s = ''ahb_hrdata'' then 5 else 1) 64 1
           (map Item [BusWriteItem 16 [258] None, BusReadItem 24 None None]) 0)) (\<lambda>_. 0) @
      [pins_after (\<lambda>_ v. v)
        (fst (ahb_run_phase (\<lambda>_ s. if s = ''ahb_hrdata'' then 5 else 1) 64 1
           (map Item [BusWriteItem 16 [258] None, BusReadItem 24 None None]) 0)) (\<lambda>_. 0)]))) =
   Inr [BusWriteItem 16 [2, 1, 0, 0, 0, 0, 0, 0] None, BusReadItem 24 (Some [5, 0, 0, 0, 0, 0, 0, 0]) None]"
proof -
  let ?env = "\<lambda>(_::nat) s. if s = ''ahb_hrdata'' then 5 else (1::int)"
  let ?its = "[BusWriteItem 16 [258] None, BusReadItem 24 None None]"
  have w: "ahb_wait ?env t = ([Await (RisingEdge ''clk'')], Inr (Suc t))" for t
    using wait_for.simps(2) [of "\<lambda>p. p ''ahb_hreadyout'' = 1" TimeoutError ?env 199 t] by (simp add: ahb_wait_def)
  have h: "hsize 64 (Suc 0) = Some 3" by (simp add: hsize_def)
  have run: "\<exists>as. ahb_run_phase ?env 64 1 (map Item ?its) 0 = (as, Inr 6)"
    by (simp add: ahb_driver_def ahb_write_def ahb_read_def ahb_transfer_def w h)
  then obtain as where as: "ahb_run_phase ?env (8 * 8) 1 (map Item ?its) 0 = (as, Inr 6)" by auto
  have "le_bytes 8 258 = [2, 1, 0, 0, 0, 0, 0, 0]" "le_bytes 8 5 = [5, 0, 0, 0, 0, 0, 0, 0]"
    by (simp_all add: numeral_eq_Suc)
  then have rep: "ahb_reports ?env 8 ?its 0 = [BusWriteItem 16 [2, 1, 0, 0, 0, 0, 0, 0] None,
      BusReadItem 24 (Some [5, 0, 0, 0, 0, 0, 0, 0]) None]"
    by (simp add: ahb_report_def ahb_driver_def ahb_write_def ahb_read_def ahb_transfer_def w h)
  show ?thesis
    using ahb_transfers_observed [of ?env "\<lambda>_ v. v" 8 ?its "\<lambda>_. 0" as 6 "[\<lambda>_. 0]" "\<lambda>_. 0"] as rep
    by (simp add: ahb_live_def holds_width_def ahb_width_def)
qed

end
