(* ===== verification/Axi_To_Ahb.thy ===== *)
theory Axi_To_Ahb
  imports Ahb_Bus
begin

text \<open>
  The bench of the AXI to AHB bridge, \<open>verification/block/lib_axi4_to_ahb\<close>: the sequences of both
  buses and the coordinator, the drivers and bus functional models with the queues between them,
  the monitors, and the scoreboard.

  A signal may be unresolved (bits \<open>X\<close> or \<open>Z\<close>) and is then \<open>None\<close>; such a value raises \<open>ValueError\<close> when
  it is used as a number and is not true as a condition. The reset is always resolved. The bus
  functional models take items from a queue of length 1 at clock edges, while the drivers fill it
  and sample handshake signals at the same edges; which of the two coroutines runs first at an edge
  is left open (\<open>w_edge\<close>), so the theorems hold for every order.
\<close>

section \<open>Definitions\<close>

subsection \<open>Signals\<close>

type_synonym sig_value = "int option"
type_synonym xpins = "string \<Rightarrow> sig_value"
type_synonym tuple_item = "sig_value list"

definition get_int :: "sig_value \<Rightarrow> int" where
  "get_int v = (case v of None \<Rightarrow> 0 | Some i \<Rightarrow> i)"

definition sig_int :: "sig_value \<Rightarrow> int py" where
  "sig_int v = (case v of None \<Rightarrow> Inl ValueError | Some i \<Rightarrow> Inr i)"

definition sig_true :: "sig_value \<Rightarrow> bool" where
  "sig_true v \<longleftrightarrow> v \<noteq> None \<and> v \<noteq> Some 0"

definition assert_eq :: "sig_value \<Rightarrow> int \<Rightarrow> unit py" where
  "assert_eq v n = bind_py (sig_int v) (\<lambda>i. if i = n then Inr () else Inl AssertionError)"

definition tuple_at :: "tuple_item \<Rightarrow> nat \<Rightarrow> sig_value py" where
  "tuple_at item i = (if i < length item then Inr (item ! i) else Inl IndexError)"

definition AXI_W_CHAN_DRV_SIGNALS :: "string list" where
  "AXI_W_CHAN_DRV_SIGNALS = [''axi_awvalid'', ''axi_awid'', ''axi_awaddr'', ''axi_awsize'', ''axi_awprot'', ''axi_wvalid'',
     ''axi_wdata'', ''axi_wstrb'', ''axi_wlast'', ''axi_bready'']"

definition AXI_W_CHAN_RSP_SIGNALS :: "string list" where
  "AXI_W_CHAN_RSP_SIGNALS = [''axi_awready'', ''axi_wready'', ''axi_bvalid'', ''axi_bresp'', ''axi_bid'']"

definition AXI_R_CHAN_DRV_SIGNALS :: "string list" where
  "AXI_R_CHAN_DRV_SIGNALS = [''axi_arvalid'', ''axi_arid'', ''axi_araddr'', ''axi_arsize'', ''axi_arprot'', ''axi_rready'']"

definition AXI_R_CHAN_RSP_SIGNALS :: "string list" where
  "AXI_R_CHAN_RSP_SIGNALS = [''axi_arready'', ''axi_rvalid'', ''axi_rid'', ''axi_rdata'', ''axi_rresp'', ''axi_rlast'']"

definition AHB_DRV_SIGNALS :: "string list" where
  "AHB_DRV_SIGNALS = [''ahb_hrdata'', ''ahb_hready'', ''ahb_hresp'']"

definition AHB_RSP_SIGNALS :: "string list" where
  "AHB_RSP_SIGNALS = [''ahb_haddr'', ''ahb_hburst'', ''ahb_hmastlock'', ''ahb_hprot'', ''ahb_hsize'', ''ahb_htrans'',
     ''ahb_hwrite'', ''ahb_hwdata'']"

subsection \<open>Scoreboard\<close>

datatype transfer_type = WRITE | READ

record transaction =
  tr_type :: transfer_type
  tr_address :: sig_value
  tr_data :: sig_value

text \<open>A loop \<open>while port.can_get(): _, item = port.try_get()\<close>; an empty \<open>item\<close> cannot be indexed.\<close>

definition drain ::
  "('q \<Rightarrow> bool) \<Rightarrow> ('q \<Rightarrow> 'i option \<times> 'q) \<Rightarrow> ('i \<Rightarrow> 's \<Rightarrow> 's py) \<Rightarrow> 'q \<Rightarrow> 's \<Rightarrow> 's py option" where
  "drain can_get try_get body =
     drain_loop can_get (\<lambda>q. (Some (fst (try_get q)), snd (try_get q)))
       (\<lambda>item s. case item of None \<Rightarrow> Inl TypeError | Some it \<Rightarrow> body it s)"

definition then_py :: "'a py option \<Rightarrow> ('a \<Rightarrow> 'b py option) \<Rightarrow> 'b py option" where
  "then_py m f = (case m of None \<Rightarrow> None | Some (Inl e) \<Rightarrow> Some (Inl e) | Some (Inr x) \<Rightarrow> f x)"

definition check :: "bool \<Rightarrow> 'a py \<Rightarrow> 'a py" where
  "check b r = (if b then r else Inl AssertionError)"

text \<open>The slices \<open>xs[0::2]\<close> and \<open>xs[1::2]\<close>.\<close>

fun slice2 :: "'a list \<Rightarrow> 'a list" where
  "slice2 [] = []"
| "slice2 [x] = [x]"
| "slice2 (x # y # xs) = x # slice2 xs"

datatype w_req = ADDRESS sig_value | DATA sig_value

definition w_req_step :: "tuple_item \<Rightarrow> w_req list \<Rightarrow> w_req list py" where
  "w_req_step item reqs =
     bind_py (tuple_at item 0) (\<lambda>awvalid. bind_py (tuple_at item 2) (\<lambda>awaddr.
     bind_py (tuple_at item 5) (\<lambda>wvalid. bind_py (tuple_at item 6) (\<lambda>wdata.
       if sig_true awvalid then Inr (reqs @ [ADDRESS awaddr])
       else if sig_true wvalid then Inr (reqs @ [DATA wdata])
       else Inl ValueError))))"

definition w_transaction :: "w_req \<Rightarrow> w_req \<Rightarrow> transaction py" where
  "w_transaction req dat = (case (req, dat) of
     (ADDRESS a, DATA d) \<Rightarrow> Inr \<lparr>tr_type = WRITE, tr_address = a, tr_data = d\<rparr> | _ \<Rightarrow> Inl KeyError)"

definition w_rsp_step :: "tuple_item \<Rightarrow> nat \<Rightarrow> nat py" where
  "w_rsp_step item n =
     bind_py (tuple_at item 2) (\<lambda>bvalid. bind_py (tuple_at item 3) (\<lambda>bresp.
       bind_py (assert_eq bvalid 1) (\<lambda>_. bind_py (assert_eq bresp 0) (\<lambda>_. Inr (Suc n)))))"

definition check_axi_write ::
  "('q \<Rightarrow> bool) \<Rightarrow> ('q \<Rightarrow> tuple_item option \<times> 'q) \<Rightarrow> 'q \<Rightarrow> 'q \<Rightarrow> transaction list py option" where
  "check_axi_write can_get try_get req_port rsp_port =
     then_py (drain can_get try_get w_req_step req_port []) (\<lambda>reqs.
     then_py (Some (check (length (slice2 reqs) = length (slice2 (drop 1 reqs)))
       (all_py (map2 w_transaction (slice2 reqs) (slice2 (drop 1 reqs)))))) (\<lambda>ts.
     then_py (drain can_get try_get w_rsp_step rsp_port 0) (\<lambda>n.
       Some (check (length (slice2 reqs) = n) (Inr ts)))))"

definition r_req_step :: "tuple_item \<Rightarrow> sig_value list \<Rightarrow> sig_value list py" where
  "r_req_step item reqs =
     bind_py (tuple_at item 0) (\<lambda>arvalid. bind_py (tuple_at item 2) (\<lambda>araddr.
       bind_py (assert_eq arvalid 1) (\<lambda>_. Inr (reqs @ [araddr]))))"

definition r_rsp_step :: "tuple_item \<Rightarrow> int list \<Rightarrow> int list py" where
  "r_rsp_step item rsps =
     bind_py (tuple_at item 1) (\<lambda>rvalid. bind_py (tuple_at item 3) (\<lambda>rdata. bind_py (tuple_at item 4) (\<lambda>rresp.
       bind_py (assert_eq rvalid 1) (\<lambda>_. bind_py (assert_eq rresp 0) (\<lambda>_.
         bind_py (sig_int rdata) (\<lambda>d. Inr (rsps @ [d])))))))"

definition check_axi_read ::
  "('q \<Rightarrow> bool) \<Rightarrow> ('q \<Rightarrow> tuple_item option \<times> 'q) \<Rightarrow> 'q \<Rightarrow> 'q \<Rightarrow> transaction list py option" where
  "check_axi_read can_get try_get req_port rsp_port =
     then_py (drain can_get try_get r_req_step req_port []) (\<lambda>reqs.
     then_py (drain can_get try_get r_rsp_step rsp_port []) (\<lambda>rsps.
       Some (check (length reqs = length rsps)
         (Inr (map2 (\<lambda>a d. \<lparr>tr_type = READ, tr_address = a, tr_data = Some d\<rparr>) reqs rsps)))))"

text \<open>
  An entry of \<open>ahb_rsp_list\<close>; a read has no data. \<open>is_even\<close> is true exactly while the dictionary is
  empty, so both are one optional entry.
\<close>

record ahb_rsp =
  ar_type :: transfer_type
  ar_data :: sig_value
  ar_address :: int

definition ahb_rsp_entry :: "tuple_item \<Rightarrow> ahb_rsp py" where
  "ahb_rsp_entry item =
     bind_py (tuple_at item 0) (\<lambda>haddr. bind_py (tuple_at item 5) (\<lambda>htrans. bind_py (tuple_at item 6) (\<lambda>hwrite.
     bind_py (tuple_at item 7) (\<lambda>hwdata.
       bind_py (assert_eq htrans (htrans_code NONSEQ)) (\<lambda>_.
       bind_py (if sig_true hwrite then bind_py (sig_int hwdata) (\<lambda>d. Inr (WRITE, Some d)) else Inr (READ, None)) (\<lambda>(ty, d).
       bind_py (sig_int haddr) (\<lambda>a. Inr \<lparr>ar_type = ty, ar_data = d, ar_address = a\<rparr>)))))))"

definition ahb_rsp_step :: "tuple_item \<Rightarrow> ahb_rsp option \<times> ahb_rsp list \<Rightarrow> (ahb_rsp option \<times> ahb_rsp list) py" where
  "ahb_rsp_step item s =
     (if length item < 8 then Inl IndexError
      else case s of
        (None, rsps) \<Rightarrow> bind_py (ahb_rsp_entry item) (\<lambda>e. Inr (Some e, rsps))
      | (Some e, rsps) \<Rightarrow> Inr (None, rsps @ [e]))"

definition ahb_req_step :: "tuple_item \<Rightarrow> bool \<times> int list \<Rightarrow> (bool \<times> int list) py" where
  "ahb_req_step item s = (case s of (is_even, reqs) \<Rightarrow>
     bind_py (tuple_at item 0) (\<lambda>hrdata. bind_py (tuple_at item 1) (\<lambda>hready. bind_py (tuple_at item 2) (\<lambda>hresp.
       bind_py (assert_eq hready 1) (\<lambda>_. bind_py (assert_eq hresp 0) (\<lambda>_.
         if is_even then Inr (False, reqs) else bind_py (sig_int hrdata) (\<lambda>d. Inr (True, reqs @ [d]))))))))"

definition ahb_transaction :: "ahb_rsp \<Rightarrow> int \<Rightarrow> transaction" where
  "ahb_transaction rsp d = \<lparr>tr_type = ar_type rsp, tr_address = Some (ar_address rsp),
     tr_data = (case ar_type rsp of WRITE \<Rightarrow> ar_data rsp | READ \<Rightarrow> Some d)\<rparr>"

definition check_ahb ::
  "('q \<Rightarrow> bool) \<Rightarrow> ('q \<Rightarrow> tuple_item option \<times> 'q) \<Rightarrow> 'q \<Rightarrow> 'q \<Rightarrow> transaction list py option" where
  "check_ahb can_get try_get rsp_port req_port =
     then_py (drain can_get try_get ahb_rsp_step rsp_port (None, [])) (\<lambda>(_, rsps).
     then_py (drain can_get try_get ahb_req_step req_port (True, [])) (\<lambda>(_, reqs).
       Some (check (length rsps = length reqs) (Inr (map2 ahb_transaction rsps reqs)))))"

record 'q bridge_ports =
  axi_w_req_port :: 'q
  axi_w_rsp_port :: 'q
  axi_r_req_port :: 'q
  axi_r_rsp_port :: 'q
  ahb_req_port :: 'q
  ahb_rsp_port :: 'q

definition axi2ahb_check_phase ::
  "('q \<Rightarrow> bool) \<Rightarrow> ('q \<Rightarrow> tuple_item option \<times> 'q) \<Rightarrow> 'q bridge_ports \<Rightarrow> unit py option" where
  "axi2ahb_check_phase can_get try_get ports =
     then_py (check_axi_write can_get try_get (axi_w_req_port ports) (axi_w_rsp_port ports)) (\<lambda>axi_w.
     then_py (check_axi_read can_get try_get (axi_r_req_port ports) (axi_r_rsp_port ports)) (\<lambda>axi_r.
     then_py (check_ahb can_get try_get (ahb_rsp_port ports) (ahb_req_port ports)) (\<lambda>ahb.
       let ahb_w = filter (\<lambda>t. tr_type t = WRITE) ahb; ahb_r = filter (\<lambda>t. tr_type t \<noteq> WRITE) ahb
       in Some (check (length axi_w = length ahb_w) (check (length axi_r = length ahb_r)
            (check (axi_w = ahb_w) (check (axi_r = ahb_r) (Inr ()))))))))"

subsection \<open>Sequence items\<close>

text \<open>The classes of the write items; \<open>draw k lo hi\<close> is the \<open>k\<close>-th value of \<open>random.randint\<close>.\<close>

datatype w_class = WInactive | WRequest | WData | WLastData | WResponse

record w_item =
  w_class :: w_class
  axi_awvalid :: int
  axi_awid :: int
  axi_awaddr :: int
  axi_awsize :: int
  axi_awprot :: int
  axi_wvalid :: int
  axi_wdata :: int
  axi_wstrb :: int
  axi_wlast :: int
  axi_bready :: int

definition AXIWriteBaseSeqItem :: "w_class \<Rightarrow> w_item" where
  "AXIWriteBaseSeqItem c = \<lparr>w_class = c, axi_awvalid = 0, axi_awid = 0, axi_awaddr = 0, axi_awsize = 3, axi_awprot = 0,
     axi_wvalid = 0, axi_wdata = 0, axi_wstrb = 2 ^ (64 div 8) - 1, axi_wlast = 0, axi_bready = 0\<rparr>"

definition w_init :: "w_class \<Rightarrow> w_item" where
  "w_init c = (let b = AXIWriteBaseSeqItem c in case c of
     WInactive \<Rightarrow> b\<lparr>axi_awsize := 0, axi_wstrb := 0\<rparr>
   | WRequest \<Rightarrow> b\<lparr>axi_awvalid := 1\<rparr>
   | WData \<Rightarrow> b\<lparr>axi_wvalid := 1\<rparr>
   | WLastData \<Rightarrow> b\<lparr>axi_wvalid := 1, axi_wlast := 1\<rparr>
   | WResponse \<Rightarrow> b\<lparr>axi_bready := 1\<rparr>)"

definition w_randomize :: "(nat \<Rightarrow> int \<Rightarrow> int \<Rightarrow> int) \<Rightarrow> w_item \<Rightarrow> w_item" where
  "w_randomize draw it = (case w_class it of
     WRequest \<Rightarrow> it\<lparr>axi_awid := draw 0 0 1, axi_awaddr := 8 * draw 1 0 0x1FFFFFFF\<rparr>
   | WData \<Rightarrow> it\<lparr>axi_wdata := draw 0 0 0xFFFFFFFFFFFFFFFF\<rparr>
   | WLastData \<Rightarrow> it\<lparr>axi_wdata := draw 0 0 0xFFFFFFFFFFFFFFFF\<rparr>
   | _ \<Rightarrow> it)"

definition AXIWriteTransactionRequestSeq :: "w_class list" where
  "AXIWriteTransactionRequestSeq = [WInactive, WRequest, WInactive]"

definition AXIWriteDataSeq :: "w_class list" where
  "AXIWriteDataSeq = [WInactive, WLastData, WInactive]"

definition AXIWriteResponseSeq :: "w_class list" where
  "AXIWriteResponseSeq = [WInactive, WResponse, WInactive]"

text \<open>\<open>BaseSeq.run_items\<close>: every item is randomized before it is sent; \<open>draws i\<close> are the draws of item \<open>i\<close>.\<close>

fun w_run_items :: "(nat \<Rightarrow> nat \<Rightarrow> int \<Rightarrow> int \<Rightarrow> int) \<Rightarrow> w_class list \<Rightarrow> w_item list" where
  "w_run_items draws [] = []"
| "w_run_items draws (c # cs) = w_randomize (draws 0) (w_init c) # w_run_items (\<lambda>i. draws (Suc i)) cs"

datatype r_class = RInactive | RRequest | RResponse

record r_item =
  r_class :: r_class
  axi_arvalid :: int
  axi_arid :: int
  axi_araddr :: int
  axi_arsize :: int
  axi_arprot :: int
  axi_rready :: int

definition AXIReadBaseSeqItem :: "r_class \<Rightarrow> r_item" where
  "AXIReadBaseSeqItem c = \<lparr>r_class = c, axi_arvalid = 0, axi_arid = 0, axi_araddr = 0, axi_arsize = 3, axi_arprot = 0,
     axi_rready = 0\<rparr>"

definition r_init :: "r_class \<Rightarrow> r_item" where
  "r_init c = (let b = AXIReadBaseSeqItem c in case c of
     RInactive \<Rightarrow> b\<lparr>axi_arsize := 0\<rparr> | RRequest \<Rightarrow> b\<lparr>axi_arvalid := 1\<rparr> | RResponse \<Rightarrow> b\<lparr>axi_rready := 1\<rparr>)"

definition r_randomize :: "(nat \<Rightarrow> int \<Rightarrow> int \<Rightarrow> int) \<Rightarrow> r_item \<Rightarrow> r_item" where
  "r_randomize draw it = (if r_class it = RRequest then it\<lparr>axi_araddr := 8 * draw 0 0 0x1FFFFFFF\<rparr> else it)"

definition AXIReadTransactionRequestSeq :: "r_class list" where
  "AXIReadTransactionRequestSeq = [RRequest, RInactive]"

definition AXIReadTransactionResponseSeq :: "r_class list" where
  "AXIReadTransactionResponseSeq = [RResponse, RInactive]"

datatype ahb_class = AhbInactive | AhbReadyRead | AhbReadyWrite | AhbReadyNoData

record ahb_item3 =
  ahb_class :: ahb_class
  ahb_hrdata :: int
  ahb_hready :: int
  ahb_hresp :: int

definition AHBLiteSeqItem :: "ahb_class \<Rightarrow> ahb_item3" where
  "AHBLiteSeqItem c = \<lparr>ahb_class = c, ahb_hrdata = 0, ahb_hready = of_bool (c \<noteq> AhbInactive), ahb_hresp = 0\<rparr>"

definition ahb_randomize :: "(nat \<Rightarrow> int \<Rightarrow> int \<Rightarrow> int) \<Rightarrow> ahb_item3 \<Rightarrow> ahb_item3" where
  "ahb_randomize draw it = (if ahb_class it = AhbReadyRead then it\<lparr>ahb_hrdata := draw 0 0 255\<rparr> else it)"

definition AHBLiteAcceptWriteSeq :: "ahb_class list" where
  "AHBLiteAcceptWriteSeq = [AhbReadyNoData, AhbReadyWrite]"

definition AHBLiteAcceptReadSeq :: "ahb_class list" where
  "AHBLiteAcceptReadSeq = [AhbReadyNoData, AhbReadyRead]"

subsection \<open>Coordinator\<close>

text \<open>
  What the coordinator does: it starts sequences, waits for clock edges and waits for the AHB driver's
  notification (\<open>AHB_LITE_WRITE\<close> is 1, \<open>AHB_LITE_READ\<close> is 2).
\<close>

datatype coord_op =
    StartW "w_class list"
  | StartR "r_class list"
  | StartAhb "ahb_class list"
  | Delay nat
  | GetResponse

type_synonym coord = "coord_op list \<times> unit py"

definition coord_then :: "coord \<Rightarrow> coord \<Rightarrow> coord" where
  "coord_then m n = (case snd m of Inl e \<Rightarrow> m | Inr _ \<Rightarrow> (fst m @ fst n, snd n))"

definition ahb_response_handler :: "bool \<Rightarrow> int \<Rightarrow> coord" where
  "ahb_response_handler is_read response =
     (if response = (if is_read then 2 else 1)
      then ([GetResponse, StartAhb (if is_read then AHBLiteAcceptReadSeq else AHBLiteAcceptWriteSeq)], Inr ())
      else ([GetResponse], Inl ValueError))"

definition coord_axi_write :: "int \<Rightarrow> coord" where
  "coord_axi_write response =
     coord_then ([StartW AXIWriteTransactionRequestSeq, Delay 5, StartW AXIWriteDataSeq], Inr ())
       (coord_then (ahb_response_handler False response) ([StartW AXIWriteResponseSeq], Inr ()))"

definition coord_axi_read :: "int \<Rightarrow> coord" where
  "coord_axi_read response =
     coord_then ([StartR AXIReadTransactionRequestSeq, Delay 5], Inr ())
       (coord_then (ahb_response_handler True response) ([Delay 5, StartR AXIReadTransactionResponseSeq], Inr ()))"

text \<open>The bodies of the tests, given the notification that arrives in each round.\<close>

fun TestWriteChannelSeq :: "int list \<Rightarrow> coord" where
  "TestWriteChannelSeq [] = ([], Inr ())"
| "TestWriteChannelSeq (r # rs) = coord_then (coord_then (coord_axi_write r) ([Delay 10], Inr ())) (TestWriteChannelSeq rs)"

fun TestReadChannelSeq :: "int list \<Rightarrow> coord" where
  "TestReadChannelSeq [] = ([], Inr ())"
| "TestReadChannelSeq (r # rs) = coord_then (coord_then (coord_axi_read r) ([Delay 10], Inr ())) (TestReadChannelSeq rs)"

fun TestBothChannelsSeq :: "(int \<times> int) list \<Rightarrow> coord" where
  "TestBothChannelsSeq [] = ([], Inr ())"
| "TestBothChannelsSeq ((rw, r) # rs) =
     coord_then (if rw \<noteq> 0 then coord_axi_read r else coord_axi_write r) (TestBothChannelsSeq rs)"

subsection \<open>Monitors of the bus functional models\<close>

text \<open>
  A loop that waits for the reset to rise while it is low, then for the clock, and then looks at the
  pins; \<open>waiting\<close> holds while it waits for the reset, as it does at first.
\<close>

definition edge_taken :: "bool \<Rightarrow> xpins \<Rightarrow> bool" where
  "edge_taken waiting p \<longleftrightarrow> \<not> waiting \<or> p ''rst_l'' = Some 1"

fun gated :: "(xpins \<Rightarrow> 'a list) \<Rightarrow> bool \<Rightarrow> xpins list \<Rightarrow> 'a list" where
  "gated look waiting [] = []"
| "gated look waiting (p # ps) =
     (if edge_taken waiting p then look p @ gated look (p ''rst_l'' = Some 0) ps else gated look True ps)"

definition both :: "xpins \<Rightarrow> string \<Rightarrow> string \<Rightarrow> bool" where
  "both p valid ready \<longleftrightarrow> get_int (p valid) \<noteq> 0 \<and> get_int (p ready) \<noteq> 0"

definition w_report :: "xpins \<Rightarrow> tuple_item list" where
  "w_report p = (if both p ''axi_awvalid'' ''axi_awready'' \<or> both p ''axi_wvalid'' ''axi_wready''
     then [map (\<lambda>s. Some (get_int (p s))) AXI_W_CHAN_DRV_SIGNALS] else [])"

definition w_req_monitor :: "xpins list \<Rightarrow> tuple_item list" where
  "w_req_monitor = gated w_report True"

definition w_rsp_monitor :: "xpins list \<Rightarrow> tuple_item list" where
  "w_rsp_monitor = gated (\<lambda>p. if both p ''axi_bvalid'' ''axi_bready'' then [map p AXI_W_CHAN_RSP_SIGNALS] else []) True"

definition r_req_monitor :: "xpins list \<Rightarrow> tuple_item list" where
  "r_req_monitor = gated (\<lambda>p. if both p ''axi_arvalid'' ''axi_arready''
     then [map (\<lambda>s. Some (get_int (p s))) AXI_R_CHAN_DRV_SIGNALS] else []) True"

definition r_rsp_monitor :: "xpins list \<Rightarrow> tuple_item list" where
  "r_rsp_monitor = gated (\<lambda>p. if both p ''axi_rvalid'' ''axi_rready'' then [map p AXI_R_CHAN_RSP_SIGNALS] else []) True"

text \<open>The AHB monitors do not look at the reset.\<close>

definition ahb_req_monitor :: "xpins list \<Rightarrow> tuple_item list" where
  "ahb_req_monitor ps = concat (map (\<lambda>p. if get_int (p ''ahb_hready'') \<noteq> 0
     then [map (\<lambda>s. Some (get_int (p s))) AHB_DRV_SIGNALS] else []) ps)"

definition ahb_rsp_monitor :: "xpins list \<Rightarrow> tuple_item list" where
  "ahb_rsp_monitor ps = concat (map (\<lambda>p. if get_int (p ''ahb_hready'') \<noteq> 0 then [map p AHB_RSP_SIGNALS] else []) ps)"

subsection \<open>AHB bus functional model and driver\<close>

record ahb_bfm =
  ab_waiting :: bool
  ab_htrans :: int

definition ahb_bfm0 :: ahb_bfm where
  "ahb_bfm0 = \<lparr>ab_waiting = True, ab_htrans = htrans_code IDLE\<rparr>"

text \<open>
  One clock edge of \<open>drive\<close> with the item waiting in the queue: the notification it puts, and the
  values it leaves on \<open>hrdata\<close>, \<open>hready\<close> and \<open>hresp\<close> (\<open>None\<close> if it assigns nothing). Of several
  assignments at an edge the last counts: the queue's over those for an idle bus, and the reset's
  over both.
\<close>

definition ahb_bfm_edge ::
  "xpins \<Rightarrow> ahb_item3 option \<Rightarrow> ahb_bfm \<Rightarrow> ahb_bfm \<times> int list \<times> (int \<times> int \<times> int) option" where
  "ahb_bfm_edge p slot s =
     (if \<not> edge_taken (ab_waiting s) p then (s, [], None)
      else let h = get_int (p ''ahb_htrans'');
             htrans = (if h = htrans_code IDLE \<or> h = htrans_code NONSEQ then h else ab_htrans s);
             notes = (if h = htrans_code NONSEQ \<and> htrans \<noteq> ab_htrans s
                      then [if get_int (p ''ahb_hwrite'') \<noteq> 0 then 1 else 2] else []);
             queued = (case slot of Some it \<Rightarrow> (ahb_hrdata it, ahb_hready it, ahb_hresp it) | None \<Rightarrow> (0, 0, 0))
        in (\<lparr>ab_waiting = (p ''rst_l'' = Some 0), ab_htrans = htrans\<rparr>, notes,
            Some (if p ''rst_l'' = Some 0 then (0, 0, 0) else queued)))"

fun ahb_bfm_run :: "(xpins \<times> ahb_item3 option) list \<Rightarrow> ahb_bfm \<Rightarrow> int list" where
  "ahb_bfm_run [] s = []"
| "ahb_bfm_run ((p, slot) # ps) s = (case ahb_bfm_edge p slot s of (s', notes, _) \<Rightarrow> notes @ ahb_bfm_run ps s')"

text \<open>
  The driver passes each notification on as a response and then two items of the sequencer to the
  model's queue; without an item it waits.
\<close>

fun ahb_driver_run :: "int list \<Rightarrow> ahb_item3 list \<Rightarrow> int list \<times> ahb_item3 list" where
  "ahb_driver_run [] items = ([], [])"
| "ahb_driver_run (n # ns) (i # j # items) =
     (case ahb_driver_run ns items of (rs, out) \<Rightarrow> (n # rs, i # j # out))"
| "ahb_driver_run (n # ns) items = ([n], items)"

subsection \<open>AXI write agent\<close>

text \<open>
  The signal a driver waits for after it has handed an item over; \<open>None\<close> for an item it does not
  wait for. It has no branch for an item of class \<open>WData\<close>, which no sequence makes.
\<close>

definition w_handshake :: "w_class \<Rightarrow> string option" where
  "w_handshake c = (case c of WRequest \<Rightarrow> Some ''axi_awready'' | WLastData \<Rightarrow> Some ''axi_wready''
     | WResponse \<Rightarrow> Some ''axi_bvalid'' | _ \<Rightarrow> None)"

text \<open>
  The items still to come from the sequencer, the signal the driver waits for with its counter, the
  queue, the items the model has driven, and the exception the driver ended with.
\<close>

record w_agent =
  wa_todo :: "w_item list"
  wa_wait :: "(string \<times> nat) option"
  wa_slot :: "w_item option"
  wa_shown :: "w_item list"
  wa_error :: "py_error option"

definition w_agent0 :: w_agent where
  "w_agent0 = \<lparr>wa_todo = [], wa_wait = None, wa_slot = None, wa_shown = [], wa_error = None\<rparr>"

text \<open>The driver takes the next item and puts it into the queue as soon as there is room.\<close>

definition w_put :: "w_agent \<Rightarrow> w_agent" where
  "w_put s = (case (wa_todo s, wa_slot s, wa_wait s, wa_error s) of
     (it # its, None, None, None) \<Rightarrow>
       s\<lparr>wa_todo := its, wa_slot := Some it, wa_wait := map_option (\<lambda>sig. (sig, 0)) (w_handshake (w_class it))\<rparr>
   | _ \<Rightarrow> s)"

text \<open>One edge of \<open>wait_handshake\<close>, with its bound of 30.\<close>

definition w_wait_edge :: "xpins \<Rightarrow> w_agent \<Rightarrow> w_agent" where
  "w_wait_edge p s = (case wa_wait s of
     None \<Rightarrow> s
   | Some (sig, timeout) \<Rightarrow>
       if sig_true (p sig) then s\<lparr>wa_wait := None\<rparr>
       else if Suc timeout > 30 then s\<lparr>wa_wait := None, wa_error := Some TimeoutError\<rparr>
       else s\<lparr>wa_wait := Some (sig, Suc timeout)\<rparr>)"

text \<open>One edge of the model's \<open>drive\<close> out of reset.\<close>

definition w_take :: "w_agent \<Rightarrow> w_agent" where
  "w_take s = (case wa_slot s of None \<Rightarrow> s | Some it \<Rightarrow> s\<lparr>wa_slot := None, wa_shown := wa_shown s @ [it]\<rparr>)"

text \<open>At an edge either the driver or the model runs first.\<close>

inductive w_edge :: "xpins \<Rightarrow> w_agent \<Rightarrow> w_agent \<Rightarrow> bool" for p where
  driver_first: "w_edge p s (w_put (w_take (w_put (w_wait_edge p s))))"
| model_first: "w_edge p s (w_put (w_wait_edge p (w_take s)))"

definition w_fields :: "w_item \<Rightarrow> int list" where
  "w_fields it = [axi_awvalid it, axi_awid it, axi_awaddr it, axi_awsize it, axi_awprot it, axi_wvalid it, axi_wdata it,
     axi_wstrb it, axi_wlast it, axi_bready it]"

text \<open>The pins at an edge: those of the last item driven, or of the reset, and those of the bridge.\<close>

definition w_shown_pins :: "w_item list \<Rightarrow> xpins \<Rightarrow> xpins" where
  "w_shown_pins shown e = (\<lambda>s.
     case map_of (zip AXI_W_CHAN_DRV_SIGNALS (if shown = [] then replicate 10 0 else w_fields (last shown))) s of
       Some v \<Rightarrow> Some v | None \<Rightarrow> e s)"

text \<open>
  A run of the agent on a bridge that shows \<open>env t\<close> at edge \<open>t\<close>: the coordinator starts sequences between the
  edges. The last two arguments are the items supplied and the items the monitor has reported.
\<close>

inductive w_run :: "(nat \<Rightarrow> xpins) \<Rightarrow> nat \<Rightarrow> w_agent \<Rightarrow> w_item list \<Rightarrow> tuple_item list \<Rightarrow> bool" for env where
  w_start: "w_run env 0 w_agent0 [] []"
| w_supply: "w_run env t s given seen \<Longrightarrow>
    sq \<in> {AXIWriteTransactionRequestSeq, AXIWriteDataSeq, AXIWriteResponseSeq} \<Longrightarrow> items = w_run_items draws sq \<Longrightarrow>
    w_run env t (w_put (s\<lparr>wa_todo := wa_todo s @ items\<rparr>)) (given @ items) seen"
| w_clock: "w_run env t s given seen \<Longrightarrow> w_edge (env t) s s' \<Longrightarrow>
    w_run env (Suc t) s' given (seen @ w_report (w_shown_pins (wa_shown s) (env t)))"

subsection \<open>AXI read agent\<close>

text \<open>
  The read model: whether it waits for the reset, the counter of the loop that waits for \<open>arready\<close>, and its
  queue of notifications, which holds one.
\<close>

record r_bfm =
  rb_waiting :: bool
  rb_timeout :: "nat option"
  rb_notes :: "int list"

definition r_bfm0 :: r_bfm where
  "r_bfm0 = \<lparr>rb_waiting = True, rb_timeout = None, rb_notes = []\<rparr>"

text \<open>The test of the waiting loop and its body up to the next edge.\<close>

definition r_bfm_wait :: "xpins \<Rightarrow> nat \<Rightarrow> r_bfm \<Rightarrow> r_bfm py" where
  "r_bfm_wait p timeout s =
     (if get_int (p ''axi_arready'') \<noteq> 0 then Inr (s\<lparr>rb_timeout := None\<rparr>)
      else if rb_notes s \<noteq> [] then Inl QueueFull
      else Inr (s\<lparr>rb_timeout := Some (Suc timeout), rb_notes := [2]\<rparr>))"

text \<open>
  One clock edge of \<open>drive\<close>: the item it drives, if any, and whether it zeroes the pins. The value
  of \<open>arvalid\<close> it tests is the one before its own assignment takes effect.
\<close>

definition r_bfm_edge :: "xpins \<Rightarrow> r_item option \<Rightarrow> r_bfm \<Rightarrow> (r_bfm \<times> r_item option \<times> bool) py" where
  "r_bfm_edge p slot s = (case rb_timeout s of
     Some timeout \<Rightarrow>
       if timeout > 20 then Inl TimeoutError
       else bind_py (r_bfm_wait p timeout s) (\<lambda>s'.
         Inr (s'\<lparr>rb_waiting := rb_timeout s' = None \<and> p ''rst_l'' = Some 0\<rparr>, None, rb_timeout s' = None \<and> p ''rst_l'' = Some 0))
   | None \<Rightarrow>
       if \<not> edge_taken (rb_waiting s) p then Inr (s, None, False)
       else bind_py (if get_int (p ''axi_arvalid'') \<noteq> 0 then r_bfm_wait p 0 s else Inr s) (\<lambda>s'.
         Inr (s'\<lparr>rb_waiting := rb_timeout s' = None \<and> p ''rst_l'' = Some 0\<rparr>, slot, rb_timeout s' = None \<and> p ''rst_l'' = Some 0)))"

text \<open>
  One round of the read driver: a notification, if there is one, and the number 3 go back as
  responses, and then the next item is handed over.
\<close>

definition r_driver_round :: "r_item \<Rightarrow> r_bfm \<Rightarrow> int list \<times> r_item \<times> r_bfm" where
  "r_driver_round it s = (case rb_notes s of [] \<Rightarrow> ([3], it, s) | n # ns \<Rightarrow> ([n, 3], it, s\<lparr>rb_notes := ns\<rparr>))"

subsection \<open>Test\<close>

definition axi2ahb_do_reset :: "action list" where
  "axi2ahb_do_reset =
     [Drive ''rst_l'' 0, Drive ''free_clk'' 0, Drive ''bus_clk_en'' 1, Drive ''clk_override'' 0, Drive ''dec_tlu_force_halt'' 0] @
     map (\<lambda>s. Drive s 0) (AXI_W_CHAN_DRV_SIGNALS @ AXI_R_CHAN_DRV_SIGNALS @ AHB_DRV_SIGNALS) @
     [Drive ''rst_l'' 0, Drive ''scan_mode'' 0, Drive ''bus_clk_en'' 1, Drive ''clk_override'' 0, Drive ''dec_tlu_force_halt'' 0,
      Await (Timer 10), Drive ''rst_l'' 1]"

definition axi2ahb_run_phase :: "action list \<Rightarrow> action list" where
  "axi2ahb_run_phase run =
     axi2ahb_do_reset @ Await (ClockCycles ''clk'' 2) # run @ [Await (ClockCycles ''clk'' 10)]"

section \<open>The scoreboard\<close>

lemma then_py_simps [simp]:
  "then_py (Some (Inl e)) f = Some (Inl e)"
  "then_py (Some (Inr x)) f = f x"
  by (simp_all add: then_py_def)

lemma check_eq_Inr [simp]: "check b r = Inr x \<longleftrightarrow> b \<and> r = Inr x"
  by (simp add: check_def)

lemma then_py_eq_Inr: "then_py m f = Some (Inr y) \<longleftrightarrow> (\<exists>x. m = Some (Inr x) \<and> f x = Some (Inr y))"
  by (auto simp: then_py_def split: option.splits sum.splits)

lemma drain_fold:
  assumes port: "fifo_port c tg" and can: "fifo_can_get c cg"
  shows "drain cg tg body q s = Some (fold_py body (c q) s)"
proof (induction "c q" arbitrary: q s)
  case Nil
  note nil = Nil.hyps [symmetric]
  with can have "\<not> cg q" by (simp add: fifo_can_get_def)
  then show ?case unfolding nil drain_def by (subst drain_loop.simps) simp
next
  case (Cons x xs)
  obtain q' where q': "tg q = (Some x, q')" "c q' = xs"
    using fifo_port_Cons [OF port Cons.hyps(2) [symmetric]] by metis
  from Cons.hyps(2) [symmetric] can have "cg q" by (simp add: fifo_can_get_def)
  then have "drain cg tg body q s =
      (case body x s of Inl e \<Rightarrow> Some (Inl e) | Inr s' \<Rightarrow> drain cg tg body q' s')"
    unfolding drain_def by (subst drain_loop.simps) (simp add: q'(1))
  then show ?case
    using Cons.hyps(1) [OF q'(2) [symmetric]] q'(2) Cons.hyps(2) [symmetric] by (simp split: sum.split)
qed

text \<open>What the items of each port must be, for the list of transactions they stand for.\<close>

definition w_req_shows :: "tuple_item \<Rightarrow> w_req \<Rightarrow> bool" where
  "w_req_shows item r \<longleftrightarrow> 7 \<le> length item \<and>
     (case r of ADDRESS a \<Rightarrow> sig_true (item ! 0) \<and> item ! 2 = a
      | DATA d \<Rightarrow> \<not> sig_true (item ! 0) \<and> sig_true (item ! 5) \<and> item ! 6 = d)"

fun shows_writes :: "tuple_item list \<Rightarrow> transaction list \<Rightarrow> bool" where
  "shows_writes [] [] \<longleftrightarrow> True"
| "shows_writes (x # y # items) (t # ts) \<longleftrightarrow>
     w_req_shows x (ADDRESS (tr_address t)) \<and> w_req_shows y (DATA (tr_data t)) \<and> tr_type t = WRITE \<and> shows_writes items ts"
| "shows_writes _ _ \<longleftrightarrow> False"

definition w_rsp_okay :: "tuple_item \<Rightarrow> bool" where
  "w_rsp_okay item \<longleftrightarrow> 4 \<le> length item \<and> item ! 2 = Some 1 \<and> item ! 3 = Some 0"

definition shows_araddr :: "tuple_item \<Rightarrow> sig_value \<Rightarrow> bool" where
  "shows_araddr item a \<longleftrightarrow> 3 \<le> length item \<and> item ! 0 = Some 1 \<and> item ! 2 = a"

definition shows_rdata :: "tuple_item \<Rightarrow> int \<Rightarrow> bool" where
  "shows_rdata item d \<longleftrightarrow> 5 \<le> length item \<and> item ! 1 = Some 1 \<and> item ! 4 = Some 0 \<and> item ! 3 = Some d"

definition shows_entry :: "tuple_item \<Rightarrow> ahb_rsp \<Rightarrow> bool" where
  "shows_entry item e \<longleftrightarrow> 8 \<le> length item \<and> item ! 5 = Some 2 \<and> item ! 0 = Some (ar_address e) \<and>
     (if sig_true (item ! 6) then ar_type e = WRITE \<and> item ! 7 \<noteq> None \<and> ar_data e = item ! 7
      else ar_type e = READ \<and> ar_data e = None)"

fun shows_entries :: "tuple_item list \<Rightarrow> ahb_rsp list \<Rightarrow> bool" where
  "shows_entries [] [] \<longleftrightarrow> True"
| "shows_entries [x] [] \<longleftrightarrow> (\<exists>e. shows_entry x e)"
| "shows_entries (x # y # items) (e # es) \<longleftrightarrow> shows_entry x e \<and> 8 \<le> length y \<and> shows_entries items es"
| "shows_entries _ _ \<longleftrightarrow> False"

definition ahb_okay :: "tuple_item \<Rightarrow> bool" where
  "ahb_okay item \<longleftrightarrow> 3 \<le> length item \<and> item ! 1 = Some 1 \<and> item ! 2 = Some 0"

fun shows_hrdata :: "tuple_item list \<Rightarrow> int list \<Rightarrow> bool" where
  "shows_hrdata [] [] \<longleftrightarrow> True"
| "shows_hrdata [x] [] \<longleftrightarrow> ahb_okay x"
| "shows_hrdata (x # y # items) (d # ds) \<longleftrightarrow> ahb_okay x \<and> ahb_okay y \<and> y ! 0 = Some d \<and> shows_hrdata items ds"
| "shows_hrdata _ _ \<longleftrightarrow> False"

lemma assert_eq_Inr [simp]: "assert_eq v n = Inr u \<longleftrightarrow> v = Some n"
  by (auto simp: assert_eq_def sig_int_def split: option.splits)

lemma sig_int_Inr [simp]: "sig_int v = Inr i \<longleftrightarrow> v = Some i"
  by (auto simp: sig_int_def split: option.splits)

lemma tuple_at_Inr [simp]: "tuple_at item i = Inr v \<longleftrightarrow> i < length item \<and> item ! i = v"
  by (auto simp: tuple_at_def)

lemma w_req_step_Inr: "w_req_step item reqs = Inr reqs' \<longleftrightarrow> (\<exists>r. reqs' = reqs @ [r] \<and> w_req_shows item r)"
proof -
  have "(\<exists>r. reqs' = reqs @ [r] \<and> w_req_shows item r) \<longleftrightarrow>
      (\<exists>a. reqs' = reqs @ [ADDRESS a] \<and> w_req_shows item (ADDRESS a)) \<or>
      (\<exists>d. reqs' = reqs @ [DATA d] \<and> w_req_shows item (DATA d))"
    by (metis w_req.exhaust)
  then show ?thesis by (auto simp: w_req_step_def w_req_shows_def bind_py_eq_Inr split: if_splits)
qed

lemma w_rsp_step_Inr: "w_rsp_step item n = Inr n' \<longleftrightarrow> n' = Suc n \<and> w_rsp_okay item"
  by (auto simp: w_rsp_step_def w_rsp_okay_def bind_py_eq_Inr)

lemma r_req_step_Inr: "r_req_step item reqs = Inr reqs' \<longleftrightarrow> (\<exists>a. reqs' = reqs @ [a] \<and> shows_araddr item a)"
  by (auto simp: r_req_step_def shows_araddr_def bind_py_eq_Inr)

lemma r_rsp_step_Inr: "r_rsp_step item rsps = Inr rsps' \<longleftrightarrow> (\<exists>d. rsps' = rsps @ [d] \<and> shows_rdata item d)"
  by (auto simp: r_rsp_step_def shows_rdata_def bind_py_eq_Inr)

lemma ahb_rsp_entry_Inr: "ahb_rsp_entry item = Inr e \<longleftrightarrow> shows_entry item e"
  by (cases e) (auto simp: ahb_rsp_entry_def shows_entry_def htrans_code_def bind_py_eq_Inr split: if_splits)

text \<open>A loop that appends one entry for each item.\<close>

lemma fold_py_append_one:
  assumes "\<And>x acc acc'. f x acc = Inr acc' \<longleftrightarrow> (\<exists>r. acc' = acc @ [r] \<and> P x r)"
  shows "fold_py f xs acc = Inr acc' \<longleftrightarrow> (\<exists>rs. acc' = acc @ rs \<and> list_all2 P xs rs)"
proof (induction xs arbitrary: acc)
  case (Cons x xs)
  show ?case by (auto simp: bind_py_eq_Inr assms Cons.IH list_all2_Cons1)
qed auto

lemma all_py_Inr: "all_py ms = Inr xs \<longleftrightarrow> ms = map Inr xs"
  by (induction ms arbitrary: xs) (auto simp: bind_py_eq_Inr)

lemma w_req_fold: "fold_py w_req_step items [] = Inr reqs \<longleftrightarrow> list_all2 w_req_shows items reqs"
  using fold_py_append_one [of w_req_step w_req_shows, OF w_req_step_Inr] by simp

lemma w_rsp_fold: "fold_py w_rsp_step items n = Inr n' \<longleftrightarrow> n' = n + length items \<and> list_all w_rsp_okay items"
  by (induction items arbitrary: n) (auto simp: bind_py_eq_Inr w_rsp_step_Inr)

lemma r_req_fold: "fold_py r_req_step items [] = Inr reqs \<longleftrightarrow> list_all2 shows_araddr items reqs"
  using fold_py_append_one [of r_req_step shows_araddr, OF r_req_step_Inr] by simp

lemma r_rsp_fold: "fold_py r_rsp_step items [] = Inr rsps \<longleftrightarrow> list_all2 shows_rdata items rsps"
  using fold_py_append_one [of r_rsp_step shows_rdata, OF r_rsp_step_Inr] by simp

text \<open>Two items at a time.\<close>

lemma shows_entries_cases:
  "shows_entries [] es \<longleftrightarrow> es = []"
  "shows_entries [x] es \<longleftrightarrow> es = [] \<and> (\<exists>e. shows_entry x e)"
  "shows_entries (x # y # items) es \<longleftrightarrow> (\<exists>e es'. es = e # es' \<and> shows_entry x e \<and> 8 \<le> length y \<and> shows_entries items es')"
  by (cases es; simp)+

lemma shows_hrdata_cases:
  "shows_hrdata [] ds \<longleftrightarrow> ds = []"
  "shows_hrdata [x] ds \<longleftrightarrow> ds = [] \<and> ahb_okay x"
  "shows_hrdata (x # y # items) ds \<longleftrightarrow>
     (\<exists>d ds'. ds = d # ds' \<and> ahb_okay x \<and> ahb_okay y \<and> y ! 0 = Some d \<and> shows_hrdata items ds')"
  by (cases ds; auto)+

lemma shows_writes_cases:
  "shows_writes [] ts \<longleftrightarrow> ts = []"
  "shows_writes [x] ts \<longleftrightarrow> False"
  "shows_writes (x # y # items) ts \<longleftrightarrow> (\<exists>t ts'. ts = t # ts' \<and> w_req_shows x (ADDRESS (tr_address t)) \<and>
     w_req_shows y (DATA (tr_data t)) \<and> tr_type t = WRITE \<and> shows_writes items ts')"
  by (cases ts; auto)+

lemma slice2_Cons: "slice2 (x # xs) = x # slice2 (drop 1 xs)"
  by (cases xs) simp_all

lemma ahb_rsp_step_even:
  "bind_py (ahb_rsp_step item (None, acc)) f = Inr r \<longleftrightarrow> (\<exists>e. shows_entry item e \<and> f (Some e, acc) = Inr r)"
  using ahb_rsp_entry_Inr [of item] by (auto simp: ahb_rsp_step_def bind_py_eq_Inr shows_entry_def)

lemma ahb_rsp_step_odd:
  "bind_py (ahb_rsp_step item (Some e, acc)) f = Inr r \<longleftrightarrow> 8 \<le> length item \<and> f (None, acc @ [e]) = Inr r"
  by (auto simp: ahb_rsp_step_def)

lemma ahb_rsp_fold:
  "(\<exists>e. fold_py ahb_rsp_step items (None, acc) = Inr (e, rsps)) \<longleftrightarrow> (\<exists>es. rsps = acc @ es \<and> shows_entries items es)"
proof (induction items arbitrary: acc rule: slice2.induct)
  case (2 x)
  show ?case by (auto simp: ahb_rsp_step_even shows_entries_cases)
next
  case (3 x y items)
  have "(\<exists>e. fold_py ahb_rsp_step (x # y # items) (None, acc) = Inr (e, rsps)) \<longleftrightarrow>
      (\<exists>e. shows_entry x e \<and> 8 \<le> length y \<and> (\<exists>e'. fold_py ahb_rsp_step items (None, acc @ [e]) = Inr (e', rsps)))"
    by (auto simp: ahb_rsp_step_even ahb_rsp_step_odd)
  then show ?case by (auto simp: "3.IH" shows_entries_cases)
qed (auto simp: shows_entries_cases)

lemma ahb_req_fold:
  "(\<exists>b. fold_py ahb_req_step items (True, acc) = Inr (b, reqs)) \<longleftrightarrow> (\<exists>ds. reqs = acc @ ds \<and> shows_hrdata items ds)"
proof (induction items arbitrary: acc rule: slice2.induct)
  case (2 x)
  show ?case by (auto simp: ahb_req_step_def bind_py_eq_Inr shows_hrdata_cases ahb_okay_def)
next
  case (3 x y items)
  have "(\<exists>b. fold_py ahb_req_step (x # y # items) (True, acc) = Inr (b, reqs)) \<longleftrightarrow>
      (\<exists>d. ahb_okay x \<and> ahb_okay y \<and> y ! 0 = Some d \<and> (\<exists>b. fold_py ahb_req_step items (True, acc @ [d]) = Inr (b, reqs)))"
    by (auto simp: ahb_req_step_def bind_py_eq_Inr ahb_okay_def)
  then show ?case by (auto simp: "3.IH" shows_hrdata_cases)
qed (auto simp: shows_hrdata_cases)

lemma w_transaction_Inr:
  "w_transaction r d = Inr t \<longleftrightarrow> r = ADDRESS (tr_address t) \<and> d = DATA (tr_data t) \<and> tr_type t = WRITE"
  by (cases t) (auto simp: w_transaction_def split: w_req.splits)

lemma w_reqs_transactions:
  "(\<exists>reqs. list_all2 w_req_shows items reqs \<and> length (slice2 reqs) = length (slice2 (drop 1 reqs)) \<and>
      map2 w_transaction (slice2 reqs) (slice2 (drop 1 reqs)) = map Inr ts) \<longleftrightarrow> shows_writes items ts"
proof (induction items arbitrary: ts rule: slice2.induct)
  case (2 x)
  show ?case by (auto simp: shows_writes_cases list_all2_Cons1)
next
  case (3 x y items)
  have two: "(\<exists>reqs. list_all2 w_req_shows (x # y # items) reqs \<and> Q reqs) \<longleftrightarrow>
      (\<exists>r d reqs. w_req_shows x r \<and> w_req_shows y d \<and> list_all2 w_req_shows items reqs \<and> Q (r # d # reqs))" for Q
    by (fastforce simp: list_all2_Cons1)
  show ?case
    unfolding two shows_writes_cases "3.IH" [symmetric]
    by (auto simp: slice2_Cons Cons_eq_map_conv w_transaction_Inr) metis+
qed (auto simp: shows_writes_cases)

text \<open>What each of the three checks accepts, and the transactions it returns.\<close>

lemma check_axi_write_Inr:
  assumes "fifo_port c tg" "fifo_can_get c cg"
  shows "check_axi_write cg tg p q = Some (Inr ts) \<longleftrightarrow>
    shows_writes (c p) ts \<and> list_all w_rsp_okay (c q) \<and> length (c q) = length ts"
proof -
  have "length (slice2 reqs) = length ts"
    if "length (slice2 reqs) = length (slice2 (drop (Suc 0) reqs))"
      "map2 w_transaction (slice2 reqs) (slice2 (drop (Suc 0) reqs)) = map Inr ts" for reqs
    using that by (metis length_map length_zip min.idem)
  then show ?thesis
    unfolding w_reqs_transactions [symmetric] check_axi_write_def drain_fold [OF assms]
    by (auto simp: then_py_eq_Inr all_py_Inr w_req_fold w_rsp_fold)
qed

lemma check_axi_read_Inr:
  assumes "fifo_port c tg" "fifo_can_get c cg"
  shows "check_axi_read cg tg p q = Some (Inr ts) \<longleftrightarrow>
    list_all (\<lambda>t. tr_type t = READ \<and> tr_data t \<noteq> None) ts \<and>
    list_all2 shows_araddr (c p) (map tr_address ts) \<and> list_all2 shows_rdata (c q) (map (the \<circ> tr_data) ts)"
    (is "?l = ?r")
proof
  assume ?l
  then obtain as ds where ad: "list_all2 shows_araddr (c p) as" "list_all2 shows_rdata (c q) ds" "length as = length ds"
    "ts = map2 (\<lambda>a d. \<lparr>tr_type = READ, tr_address = a, tr_data = Some d\<rparr>) as ds"
    unfolding check_axi_read_def drain_fold [OF assms] by (auto simp: then_py_eq_Inr r_req_fold r_rsp_fold)
  have "map tr_address ts = as" "map (the \<circ> tr_data) ts = ds"
    unfolding ad(4) using ad(3) by (induction as ds rule: list_induct2) simp_all
  with ad show ?r by (auto simp: list_all_iff)
next
  assume r: ?r
  have "ts = map2 (\<lambda>a d. \<lparr>tr_type = READ, tr_address = a, tr_data = Some d\<rparr>) (map tr_address ts) (map (the \<circ> tr_data) ts)"
    using conjunct1 [OF r] by (induction ts) auto
  with r show ?l
    unfolding check_axi_read_def drain_fold [OF assms]
    by (auto simp: then_py_eq_Inr r_req_fold r_rsp_fold intro!: exI [of _ "map tr_address ts"] exI [of _ "map (the \<circ> tr_data) ts"])
qed

lemma check_ahb_Inr:
  assumes "fifo_port c tg" "fifo_can_get c cg"
  shows "check_ahb cg tg p q = Some (Inr ts) \<longleftrightarrow>
    (\<exists>es ds. shows_entries (c p) es \<and> shows_hrdata (c q) ds \<and> length es = length ds \<and> ts = map2 ahb_transaction es ds)"
proof -
  have "check_ahb cg tg p q = Some (Inr ts) \<longleftrightarrow> (\<exists>es ds. (\<exists>e. fold_py ahb_rsp_step (c p) (None, []) = Inr (e, es)) \<and>
      (\<exists>b. fold_py ahb_req_step (c q) (True, []) = Inr (b, ds)) \<and> length es = length ds \<and> ts = map2 ahb_transaction es ds)"
    unfolding check_ahb_def drain_fold [OF assms] by (auto simp: then_py_eq_Inr)
  then show ?thesis unfolding ahb_rsp_fold ahb_req_fold by simp
qed

text \<open>
  Property C16: the verdict of the scoreboard of the AXI to AHB bridge, for any contents of its six queues. It raises
  nothing exactly when the AHB items stand for a list of transactions whose writes are those of the AXI
  write channel and whose reads are those of the read channel, each in order: the AXI write items alternate between
  an address and its data, all responses are okay, and each AHB transaction is a pair of items. A
  last AHB item without a partner is not compared, and the data of an AHB write is what the bus shows in the first item
  of the pair, the address phase.
\<close>

theorem axi2ahb_verdict:
  assumes "fifo_port c tg" "fifo_can_get c cg"
  shows "axi2ahb_check_phase cg tg ports = Some (Inr ()) \<longleftrightarrow>
    (\<exists>es ds ts. shows_entries (c (ahb_rsp_port ports)) es \<and> shows_hrdata (c (ahb_req_port ports)) ds \<and>
      length es = length ds \<and> ts = map2 ahb_transaction es ds \<and>
      shows_writes (c (axi_w_req_port ports)) (filter (\<lambda>t. tr_type t = WRITE) ts) \<and>
      list_all w_rsp_okay (c (axi_w_rsp_port ports)) \<and>
      length (c (axi_w_rsp_port ports)) = length (filter (\<lambda>t. tr_type t = WRITE) ts) \<and>
      list_all2 shows_araddr (c (axi_r_req_port ports)) (map tr_address (filter (\<lambda>t. tr_type t = READ) ts)) \<and>
      list_all2 shows_rdata (c (axi_r_rsp_port ports)) (map (the \<circ> tr_data) (filter (\<lambda>t. tr_type t = READ) ts)))"
proof -
  have reads: "filter (\<lambda>t. tr_type t \<noteq> WRITE) ts = filter (\<lambda>t. tr_type t = READ) ts" for ts :: "transaction list"
    by (rule filter_cong) (auto intro: transfer_type.exhaust)
  have data: "list_all (\<lambda>t. tr_type t = READ \<and> tr_data t \<noteq> None) (filter (\<lambda>t. tr_type t = READ) (map2 ahb_transaction es ds))" for es ds
    by (auto simp: list_all_iff ahb_transaction_def)
  have equal: "(let ahb_w = filter (\<lambda>t. tr_type t = WRITE) ahb; ahb_r = filter (\<lambda>t. tr_type t \<noteq> WRITE) ahb
       in Some (check (length axi_w = length ahb_w) (check (length axi_r = length ahb_r)
            (check (axi_w = ahb_w) (check (axi_r = ahb_r) (Inr ())))))) = Some (Inr ()) \<longleftrightarrow>
      axi_w = filter (\<lambda>t. tr_type t = WRITE) ahb \<and> axi_r = filter (\<lambda>t. tr_type t = READ) ahb" for axi_w axi_r ahb :: "transaction list"
    by (auto simp: Let_def reads)
  show ?thesis
    unfolding axi2ahb_check_phase_def then_py_eq_Inr check_axi_write_Inr [OF assms] check_axi_read_Inr [OF assms]
      check_ahb_Inr [OF assms] equal
    using data by blast
qed

text \<open>One write and one read.\<close>

theorem axi2ahb_verdict_witness:
  "axi2ahb_check_phase list_can_get list_try_get
     \<lparr>axi_w_req_port = [map Some [1, 0, 8, 3, 0, 0, 0, 255, 0, 0], map Some [0, 0, 0, 3, 0, 1, 77, 255, 1, 0]],
      axi_w_rsp_port = [[None, None, Some 1, Some 0, Some 0]],
      axi_r_req_port = [map Some [1, 0, 16, 3, 0, 0]],
      axi_r_rsp_port = [[None, Some 1, Some 0, Some 5, Some 0, Some 1]],
      ahb_req_port = map (map Some) [[0, 1, 0], [0, 1, 0], [0, 1, 0], [5, 1, 0]],
      ahb_rsp_port = [map Some [8, 0, 0, 0, 0, 2, 1, 77], map Some [8, 0, 0, 0, 0, 0, 0, 77],
        map Some [16, 0, 0, 0, 0, 2, 0, 0], replicate 8 None]\<rparr> = Some (Inr ())"
proof -
  let ?es = "[\<lparr>ar_type = WRITE, ar_data = Some 77, ar_address = 8\<rparr>, \<lparr>ar_type = READ, ar_data = None, ar_address = 16\<rparr>]"
  note defs = shows_entry_def ahb_okay_def w_req_shows_def w_rsp_okay_def shows_araddr_def shows_rdata_def sig_true_def
    ahb_transaction_def
  show ?thesis
    unfolding axi2ahb_verdict [OF list_fifo_port list_fifo_can_get]
    by (intro exI [of _ ?es] exI [of _ "[0, 5]"] exI [of _ "map2 ahb_transaction ?es [0, 5]"]) (simp add: defs)
qed

section \<open>The write agent\<close>

text \<open>The items on their way, in order.\<close>

definition w_flow :: "w_agent \<Rightarrow> w_item list" where
  "w_flow s = wa_shown s @ (case wa_slot s of None \<Rightarrow> [] | Some it \<Rightarrow> [it]) @ wa_todo s"

definition w_bounded :: "w_agent \<Rightarrow> bool" where
  "w_bounded s \<longleftrightarrow> (case wa_wait s of None \<Rightarrow> True | Some (sig, n) \<Rightarrow> n \<le> 30) \<and> wa_error s \<in> {None, Some TimeoutError}"

lemma w_flow_steps [simp]:
  "w_flow (w_put s) = w_flow s"
  "w_flow (w_wait_edge p s) = w_flow s"
  "w_flow (w_take s) = w_flow s"
  "w_flow (s\<lparr>wa_todo := wa_todo s @ items\<rparr>) = w_flow s @ items"
  by (auto simp: w_flow_def w_put_def w_wait_edge_def w_take_def split: list.splits option.splits)

lemma w_bounded_steps:
  "w_bounded s \<Longrightarrow> w_bounded (w_put s)"
  "w_bounded s \<Longrightarrow> w_bounded (w_wait_edge p s)"
  "w_bounded s \<Longrightarrow> w_bounded (w_take s)"
  by (auto simp: w_bounded_def w_put_def w_wait_edge_def w_take_def split: list.splits option.splits)

lemma w_edge_flow: "w_edge p s s' \<Longrightarrow> w_flow s' = w_flow s"
  by (induction rule: w_edge.induct) simp_all

lemma w_edge_bounded: "w_edge p s s' \<Longrightarrow> w_bounded s \<Longrightarrow> w_bounded s'"
  by (induction rule: w_edge.induct) (simp_all add: w_bounded_steps)

lemma w_run_flow: "w_run env t s given seen \<Longrightarrow> w_flow s = given"
  by (induction rule: w_run.induct) (auto simp: w_edge_flow, simp add: w_flow_def w_agent0_def)

text \<open>
  Property C17: in every run of the write agent, whichever of driver and bus functional model runs first at each
  edge, whatever the bridge answers and whenever sequences are started: the items driven onto the pins, the one in the
  queue and those to come are together the items of the sequences, in order; the driver has waited for at
  most 30 edges without an answer, and it has raised nothing but \<open>TimeoutError\<close>.
\<close>

theorem w_agent_invariant:
  assumes "w_run env t s given seen"
  shows "w_flow s = given \<and> w_bounded s"
proof -
  from assms have "w_bounded s"
  proof (induction rule: w_run.induct)
    case (w_supply t s given seen sq items draws)
    then show ?case by (intro w_bounded_steps(1)) (simp add: w_bounded_def)
  qed (auto simp: w_edge_bounded, simp add: w_bounded_def w_agent0_def)
  with w_run_flow [OF assms] show ?thesis ..
qed

text \<open>Items the monitor is to see, and what it reports for one.\<close>

definition w_visible :: "w_item \<Rightarrow> bool" where
  "w_visible it \<longleftrightarrow> w_class it \<in> {WRequest, WLastData}"

definition w_tuple :: "w_item \<Rightarrow> tuple_item" where
  "w_tuple it = map Some (w_fields it)"

text \<open>The items of the sequences: the valid signals follow the class, and an active item is followed by an inactive one.\<close>

definition w_formed :: "w_item \<Rightarrow> bool" where
  "w_formed it \<longleftrightarrow> axi_awvalid it = of_bool (w_class it = WRequest) \<and> axi_wvalid it = of_bool (w_class it = WLastData)"

fun w_calm :: "w_item list \<Rightarrow> bool" where
  "w_calm [] \<longleftrightarrow> True"
| "w_calm (it # its) \<longleftrightarrow> (w_class it \<noteq> WInactive \<longrightarrow> its \<noteq> [] \<and> w_class (hd its) = WInactive) \<and> w_formed it \<and> w_calm its"

lemma w_calm_append: "w_calm xs \<Longrightarrow> w_calm ys \<Longrightarrow> w_calm (xs @ ys)"
  by (induction xs) auto

lemma w_calm_formed: "w_calm xs \<Longrightarrow> x \<in> set xs \<Longrightarrow> w_formed x"
  by (induction xs) auto

lemma w_item_class [simp]: "w_class (w_randomize d (w_init c)) = c"
  by (cases c) (simp_all add: w_randomize_def w_init_def AXIWriteBaseSeqItem_def)

lemma w_item_formed: "c \<noteq> WData \<Longrightarrow> w_formed (w_randomize d (w_init c))"
  by (cases c) (simp_all add: w_formed_def w_randomize_def w_init_def AXIWriteBaseSeqItem_def)

lemma w_sequence_calm:
  assumes "sq \<in> {AXIWriteTransactionRequestSeq, AXIWriteDataSeq, AXIWriteResponseSeq}"
  shows "w_calm (w_run_items draws sq)"
  using assms
  by (auto simp: AXIWriteTransactionRequestSeq_def AXIWriteDataSeq_def AXIWriteResponseSeq_def w_item_formed)

lemma w_shown_pins_simps:
  "w_shown_pins shown e ''axi_awready'' = e ''axi_awready''"
  "w_shown_pins shown e ''axi_wready'' = e ''axi_wready''"
  "w_shown_pins [] e ''axi_awvalid'' = Some 0"
  "w_shown_pins [] e ''axi_wvalid'' = Some 0"
  "shown \<noteq> [] \<Longrightarrow> w_shown_pins shown e ''axi_awvalid'' = Some (axi_awvalid (last shown))"
  "shown \<noteq> [] \<Longrightarrow> w_shown_pins shown e ''axi_wvalid'' = Some (axi_wvalid (last shown))"
  "shown \<noteq> [] \<Longrightarrow> map (w_shown_pins shown e) AXI_W_CHAN_DRV_SIGNALS = w_tuple (last shown)"
  by (simp_all add: w_shown_pins_def AXI_W_CHAN_DRV_SIGNALS_def w_fields_def w_tuple_def eval_nat_numeral)

lemma w_shown_report:
  assumes "e ''axi_awready'' = Some 1" "e ''axi_wready'' = Some 1" "list_all w_formed shown"
  shows "w_report (w_shown_pins shown e) = (if shown \<noteq> [] \<and> w_visible (last shown) then [w_tuple (last shown)] else [])"
proof (cases "shown = []")
  case True
  then show ?thesis by (simp add: w_report_def both_def w_shown_pins_simps get_int_def)
next
  case False
  with assms(3) have "w_formed (last shown)" by (simp add: list_all_iff)
  moreover have "map (\<lambda>s. Some (get_int (w_shown_pins shown e s))) AXI_W_CHAN_DRV_SIGNALS =
      map (Some \<circ> get_int) (map (w_shown_pins shown e) AXI_W_CHAN_DRV_SIGNALS)"
    by simp
  ultimately show ?thesis using False assms(1,2)
    by (simp add: w_report_def both_def w_shown_pins_simps get_int_def w_tuple_def comp_def w_formed_def w_visible_def)
qed

text \<open>The bridge answers every handshake at once.\<close>

definition w_ready :: "(nat \<Rightarrow> xpins) \<Rightarrow> bool" where
  "w_ready env \<longleftrightarrow> (\<forall>t. env t ''axi_awready'' = Some 1 \<and> env t ''axi_wready'' = Some 1 \<and> env t ''axi_bvalid'' = Some 1)"

definition w_waits :: "(string \<times> nat) option \<Rightarrow> bool" where
  "w_waits w \<longleftrightarrow> (case w of None \<Rightarrow> True | Some (sig, n) \<Rightarrow> sig \<in> {''axi_awready'', ''axi_wready'', ''axi_bvalid''})"

lemma w_waits_simps [simp]: "w_waits None" "w_waits (map_option (\<lambda>sig. (sig, n)) (w_handshake c))"
  by (cases c; simp add: w_waits_def w_handshake_def)+

text \<open>
  The state between edges on such a bridge: nothing waits behind an empty queue, and an active item
  on the pins has its successor in the queue.
\<close>

definition w_prompt :: "w_agent \<Rightarrow> bool" where
  "w_prompt s \<longleftrightarrow> wa_error s = None \<and> list_all w_formed (wa_shown s) \<and>
     (wa_slot s = None \<longrightarrow> wa_todo s = [] \<and> wa_wait s = None) \<and>
     w_waits (wa_wait s) \<and>
     w_calm ((case wa_slot s of None \<Rightarrow> [] | Some it \<Rightarrow> [it]) @ wa_todo s) \<and>
     (wa_shown s \<noteq> [] \<and> w_class (last (wa_shown s)) \<noteq> WInactive \<longrightarrow>
       (\<exists>it. wa_slot s = Some it \<and> w_class it = WInactive))"

lemma w_ready_wait:
  "w_ready env \<Longrightarrow> w_waits (wa_wait s) \<Longrightarrow> w_wait_edge (env t) s = s\<lparr>wa_wait := None\<rparr>"
  by (auto simp: w_waits_def w_ready_def w_wait_edge_def sig_true_def split: option.splits)

text \<open>Both orders of an edge come to the same.\<close>

definition w_settle :: "w_agent \<Rightarrow> w_agent" where
  "w_settle s = w_put ((w_take s)\<lparr>wa_wait := None\<rparr>)"

lemma w_prompt_edge:
  assumes "w_prompt s" "w_ready env" "w_edge (env t) s s'"
  shows "s' = w_settle s"
proof -
  from assms(1) have w: "w_waits (wa_wait s)" "w_waits (wa_wait (w_take s))"
    by (auto simp: w_prompt_def w_take_def split: option.split)
  have put: "w_put (s\<lparr>wa_wait := None\<rparr>) = s\<lparr>wa_wait := None\<rparr>"
    using assms(1) by (cases "wa_slot s") (auto simp: w_prompt_def w_put_def split: list.split)
  have take: "w_take (s\<lparr>wa_wait := None\<rparr>) = (w_take s)\<lparr>wa_wait := None\<rparr>"
    by (cases s) (simp add: w_take_def split: option.split)
  from assms(3) show ?thesis
    by cases (simp_all add: w_settle_def w_ready_wait [OF assms(2)] w put take)
qed

lemma w_prompt_settle:
  assumes "w_prompt s"
  shows "w_prompt (w_settle s)"
proof (cases "wa_slot s")
  case None
  with assms show ?thesis by (simp add: w_settle_def w_take_def w_put_def w_prompt_def)
next
  case (Some it)
  show ?thesis
  proof (cases "wa_todo s")
    case Nil
    with Some assms show ?thesis by (auto simp: w_settle_def w_take_def w_put_def w_prompt_def)
  next
    case (Cons jt its)
    with Some assms show ?thesis
      by (auto simp: w_settle_def w_take_def w_put_def w_prompt_def)
  qed
qed

lemma w_prompt_supply:
  assumes "w_prompt s" "w_calm items"
  shows "w_prompt (w_put (s\<lparr>wa_todo := wa_todo s @ items\<rparr>))"
proof (cases "wa_slot s")
  case None
  with assms show ?thesis
    by (cases items) (auto simp: w_put_def w_prompt_def)
next
  case (Some it)
  then have "w_put (s\<lparr>wa_todo := wa_todo s @ items\<rparr>) = s\<lparr>wa_todo := wa_todo s @ items\<rparr>"
    by (simp add: w_put_def split: list.split)
  moreover have "w_calm (it # wa_todo s) \<Longrightarrow> w_calm (it # wa_todo s @ items)"
    using w_calm_append [of "it # wa_todo s" items] assms(2) by simp
  ultimately show ?thesis using Some assms(1) by (simp add: w_prompt_def)
qed

lemma w_run_prompt:
  assumes "w_run env t s given seen" "w_ready env"
  shows "w_prompt s \<and> seen @ (if wa_shown s \<noteq> [] \<and> w_visible (last (wa_shown s)) then [w_tuple (last (wa_shown s))] else []) =
    map w_tuple (filter w_visible (wa_shown s))"
  using assms(1)
proof (induction rule: w_run.induct)
  case w_start
  show ?case by (simp add: w_prompt_def w_agent0_def)
next
  case (w_supply t s given seen sq items draws)
  have "wa_shown (w_put (s\<lparr>wa_todo := wa_todo s @ items\<rparr>)) = wa_shown s"
    by (auto simp: w_put_def split: list.splits option.splits)
  moreover have "w_calm items" unfolding w_supply.hyps(3) by (rule w_sequence_calm [OF w_supply.hyps(2)])
  ultimately show ?case using w_supply.IH w_prompt_supply by metis
next
  case (w_clock t s given seen s')
  then have s': "s' = w_settle s" "w_prompt s" using w_prompt_edge [OF _ assms(2)] by auto
  have shown: "wa_shown (w_settle s) = wa_shown s @ (case wa_slot s of None \<Rightarrow> [] | Some it \<Rightarrow> [it])"
    by (auto simp: w_settle_def w_take_def w_put_def split: option.splits list.splits)
  have rep: "w_report (w_shown_pins (wa_shown s) (env t)) =
      (if wa_shown s \<noteq> [] \<and> w_visible (last (wa_shown s)) then [w_tuple (last (wa_shown s))] else [])"
    using assms(2) s'(2) by (intro w_shown_report) (auto simp: w_ready_def w_prompt_def)
  show ?case
    using w_clock.IH s'(2) w_prompt_settle [OF s'(2)] unfolding s'(1) rep shown
    by (cases "wa_slot s") (auto simp: w_prompt_def w_visible_def)
qed

text \<open>
  Remark: on a bridge that answers every handshake at once, the monitor of the write channel reports every request
  and every data item of the sequences exactly once, in order and with the values that were sent,
  whichever coroutine runs first at each edge and whenever the sequences are started.
\<close>

theorem w_ready_reported:
  assumes "w_run env t s given seen" "w_ready env" "wa_slot s = None"
  shows "seen = map w_tuple (filter w_visible given)"
proof -
  from w_run_prompt [OF assms(1,2)] assms(3) have "w_prompt s" "wa_todo s = []"
    "wa_shown s = [] \<or> \<not> w_visible (last (wa_shown s))"
    by (auto simp: w_prompt_def w_visible_def)
  with w_run_prompt [OF assms(1,2)] w_run_flow [OF assms(1)] assms(3) show ?thesis
    by (auto simp: w_flow_def)
qed

text \<open>A concrete run: one request to a bridge that is ready at edge 1. The request is on the pins at edge 2.\<close>

definition w_one_request :: "w_item list" where
  "w_one_request = w_run_items (\<lambda>i k lo hi. lo) AXIWriteTransactionRequestSeq"

lemma w_request_run:
  assumes "sig_true (env 1 ''axi_awready'')"
  shows "w_run env 3 (w_agent0\<lparr>wa_shown := w_one_request\<rparr>) w_one_request
    (w_report (w_shown_pins (butlast w_one_request) (env 2)))"
proof -
  define i where "i = w_init WInactive"
  define r where "r = w_randomize (\<lambda>k lo hi. lo) (w_init WRequest)"
  have g: "w_one_request = [i, r, i]"
    by (simp add: w_one_request_def AXIWriteTransactionRequestSeq_def i_def r_def w_randomize_def w_init_def AXIWriteBaseSeqItem_def)
  have c: "w_class i = WInactive" "w_class r = WRequest"
    by (simp add: i_def w_init_def AXIWriteBaseSeqItem_def) (simp add: r_def)
  note steps = w_put_def w_take_def w_wait_edge_def w_handshake_def c w_agent0_def
  have "w_run env 0 (w_put (w_agent0\<lparr>wa_todo := wa_todo w_agent0 @ w_one_request\<rparr>)) ([] @ w_one_request) []"
    using w_run.w_start by (rule w_run.w_supply) (auto simp: w_one_request_def)
  then have 0: "w_run env 0 (w_agent0\<lparr>wa_todo := [r, i], wa_slot := Some i\<rparr>) w_one_request []"
    by (simp add: g steps)
  have rep: "w_report (w_shown_pins [] (env 0)) = []" "w_report (w_shown_pins [i] (env 1)) = []"
    by (simp_all add: w_report_def both_def w_shown_pins_simps get_int_def i_def w_init_def AXIWriteBaseSeqItem_def)
  let ?s1 = "w_agent0\<lparr>wa_todo := [i], wa_slot := Some r, wa_wait := Some (''axi_awready'', 0), wa_shown := [i]\<rparr>"
  let ?s2 = "w_agent0\<lparr>wa_slot := Some i, wa_shown := [i, r]\<rparr>"
  have 1: "w_run env 1 ?s1 w_one_request []"
    using w_run.w_clock [OF 0 model_first] rep(1) by (simp add: steps)
  have 2: "w_run env 2 ?s2 w_one_request []"
    using w_run.w_clock [OF 1 model_first] rep(2) assms by (simp add: steps numeral_2_eq_2)
  show ?thesis
    using w_run.w_clock [OF 2 model_first] by (simp add: steps g numeral_3_eq_3 numeral_2_eq_2)
qed

definition w_always :: "nat \<Rightarrow> xpins" where
  "w_always t = (\<lambda>s. Some 1)"

theorem w_agent_invariant_witness:
  "w_flow (w_agent0\<lparr>wa_shown := w_one_request\<rparr>) = w_one_request \<and> w_bounded (w_agent0\<lparr>wa_shown := w_one_request\<rparr>)"
  by (rule w_agent_invariant [OF w_request_run [of w_always]]) (simp add: w_always_def sig_true_def)

theorem w_ready_reported_witness:
  "w_report (w_shown_pins (butlast w_one_request) (w_always 2)) = map w_tuple (filter w_visible w_one_request)"
  by (rule w_ready_reported [OF w_request_run [of w_always]])
    (simp_all add: w_always_def sig_true_def w_ready_def w_agent0_def)


section \<open>The AHB subordinate\<close>

lemma ahb_bfm_edge_live:
  "p ''rst_l'' = Some 1 \<Longrightarrow> ahb_bfm_edge p slot s =
     (let h = get_int (p ''ahb_htrans''); htrans = (if h = 0 \<or> h = 2 then h else ab_htrans s)
      in (\<lparr>ab_waiting = False, ab_htrans = htrans\<rparr>,
          if h = 2 \<and> ab_htrans s \<noteq> 2 then [if get_int (p ''ahb_hwrite'') \<noteq> 0 then 1 else 2] else [],
          Some (case slot of Some it \<Rightarrow> (ahb_hrdata it, ahb_hready it, ahb_hresp it) | None \<Rightarrow> (0, 0, 0))))"
  by (auto simp: ahb_bfm_edge_def edge_taken_def htrans_code_def Let_def)

text \<open>The edges that start a transfer: the bus turns from idle to a non-sequential transfer.\<close>

definition ahb_shows :: "int \<Rightarrow> xpins \<Rightarrow> bool" where
  "ahb_shows h p \<longleftrightarrow> get_int (p ''ahb_htrans'') = h"

fun transfer_starts :: "bool \<Rightarrow> xpins list \<Rightarrow> xpins list" where
  "transfer_starts idle [] = []"
| "transfer_starts idle (p # ps) = (if idle \<and> ahb_shows 2 p then [p] else []) @ transfer_starts (ahb_shows 0 p) ps"

text \<open>
  Remark: out of reset the AHB model notifies the driver exactly once for each time the bus turns from idle to
  a non-sequential transfer, with the direction it shows at that edge, however long the transfer
  lasts; edges that show busy or sequential transfers change nothing.
\<close>

theorem ahb_notified_once:
  assumes "list_all (\<lambda>(p, _). p ''rst_l'' = Some 1) ps" "ab_htrans s \<in> {0, 2}"
  shows "ahb_bfm_run ps s =
    map (\<lambda>p. if get_int (p ''ahb_hwrite'') \<noteq> 0 then 1 else 2)
      (transfer_starts (ab_htrans s = 0) (filter (\<lambda>p. ahb_shows 0 p \<or> ahb_shows 2 p) (map fst ps)))"
  using assms
proof (induction ps arbitrary: s)
  case (Cons x ps)
  obtain p slot where x: "x = (p, slot)" by (cases x)
  with Cons show ?case by (auto simp: ahb_bfm_edge_live Let_def ahb_shows_def)
qed simp

theorem ahb_notified_once_witness:
  "ahb_bfm_run (map (\<lambda>(h, w). ((\<lambda>s. Some 1)(''ahb_htrans'' := h, ''ahb_hwrite'' := w), None))
     [(None, None), (Some 2, Some 1), (Some 2, Some 1), (Some 0, None), (Some 3, None), (Some 2, None)]) ahb_bfm0 = [1, 2]"
  by (subst ahb_notified_once) (simp_all add: ahb_bfm0_def htrans_code_def ahb_shows_def get_int_def)

text \<open>The pins at the edges of a run of the AHB model: \<open>cur\<close> is what it drove last.\<close>

definition ahb_driven :: "int \<times> int \<times> int \<Rightarrow> xpins \<Rightarrow> xpins" where
  "ahb_driven cur p = (case cur of (hrdata, hready, hresp) \<Rightarrow>
     p(''ahb_hrdata'' := Some hrdata, ''ahb_hready'' := Some hready, ''ahb_hresp'' := Some hresp))"

fun ahb_samples :: "(xpins \<times> ahb_item3 option) list \<Rightarrow> ahb_bfm \<Rightarrow> int \<times> int \<times> int \<Rightarrow> xpins list" where
  "ahb_samples [] s cur = []"
| "ahb_samples ((p, slot) # ps) s cur = ahb_driven cur p #
     (case ahb_bfm_edge p slot s of (s', _, out) \<Rightarrow> ahb_samples ps s' (case out of None \<Rightarrow> cur | Some d \<Rightarrow> d))"

definition ahb_tuple :: "ahb_item3 \<Rightarrow> tuple_item" where
  "ahb_tuple it = [Some (ahb_hrdata it), Some (ahb_hready it), Some (ahb_hresp it)]"

definition ahb_taken :: "(xpins \<times> ahb_item3 option) list \<Rightarrow> ahb_item3 list" where
  "ahb_taken ps = concat (map (\<lambda>(p, slot). case slot of None \<Rightarrow> [] | Some it \<Rightarrow> [it]) ps)"

lemma ahb_req_monitor_Cons:
  "ahb_req_monitor (ahb_driven cur p # ps) =
     (if fst (snd cur) \<noteq> 0 then [[Some (fst cur), Some (fst (snd cur)), Some (snd (snd cur))]] else []) @ ahb_req_monitor ps"
  by (simp add: ahb_req_monitor_def ahb_driven_def AHB_DRV_SIGNALS_def get_int_def split: prod.split)

lemma ahb_items_seen:
  assumes "list_all (\<lambda>(p, _). p ''rst_l'' = Some 1) ps" "ps \<noteq> []"
  shows "ahb_req_monitor (ahb_samples ps s cur) =
    (if fst (snd cur) \<noteq> 0 then [[Some (fst cur), Some (fst (snd cur)), Some (snd (snd cur))]] else []) @
    map ahb_tuple (filter (\<lambda>it. ahb_hready it \<noteq> 0) (ahb_taken (butlast ps)))"
  using assms
proof (induction ps arbitrary: s cur)
  case (Cons x ps)
  obtain p slot where x: "x = (p, slot)" by (cases x)
  show ?case
  proof (cases "ps = []")
    case True
    then show ?thesis by (simp add: x ahb_req_monitor_Cons ahb_taken_def split: prod.split) (simp add: ahb_req_monitor_def)
  next
    case False
    with Cons.IH [of "fst (ahb_bfm_edge p slot s)"] Cons.prems show ?thesis
      by (simp add: x ahb_req_monitor_Cons ahb_bfm_edge_live Let_def ahb_taken_def ahb_tuple_def split: option.split)
  qed
qed simp

text \<open>The items of the sequences that accept transfers; \<open>d\<close> is the data of a read.\<close>

definition accept_items :: "(transfer_type \<times> int) list \<Rightarrow> ahb_item3 list" where
  "accept_items rs = concat (map (\<lambda>(ty, d). map (\<lambda>c. ahb_randomize (\<lambda>_ _ _. d) (AHBLiteSeqItem c))
     (case ty of WRITE \<Rightarrow> AHBLiteAcceptWriteSeq | READ \<Rightarrow> AHBLiteAcceptReadSeq)) rs)"

lemma accept_shows:
  "shows_hrdata (map ahb_tuple (filter (\<lambda>it. ahb_hready it \<noteq> 0) (accept_items rs)))
     (map (\<lambda>(ty, d). if ty = READ then d else 0) rs)"
proof (induction rs)
  case (Cons r rs)
  obtain ty d where r: "r = (ty, d)" by (cases r)
  from Cons show ?case unfolding r
    by (cases ty) (simp_all add: accept_items_def AHBLiteAcceptWriteSeq_def AHBLiteAcceptReadSeq_def AHBLiteSeqItem_def
        ahb_randomize_def ahb_tuple_def ahb_okay_def)
qed (simp add: accept_items_def)

text \<open>
  Remark: what the AHB side answers is what the scoreboard reads. When the items of a series of accepting
  sequences are taken from the queue, at any edges after each other, the monitor's reports pass the checks of the scoreboard,
  two for each transfer, and give it the data sent for each read, in order, and 0 for each write.
\<close>

theorem ahb_answers_checked:
  assumes "list_all (\<lambda>(p, _). p ''rst_l'' = Some 1) ps" "ps \<noteq> []" "ahb_taken (butlast ps) = accept_items rs"
  shows "\<exists>b. fold_py ahb_req_step (ahb_req_monitor (ahb_samples ps s (0, 0, 0))) (True, []) =
    Inr (b, map (\<lambda>(ty, d). if ty = READ then d else 0) rs)"
  unfolding ahb_req_fold ahb_items_seen [OF assms(1,2)] assms(3) using accept_shows by simp

text \<open>A write and a read, each answered after an edge without an item.\<close>

theorem ahb_answers_checked_witness:
  "\<exists>b. fold_py ahb_req_step (ahb_req_monitor (ahb_samples
     (map (Pair (\<lambda>_. Some 1)) ([None] @ map Some (accept_items [(WRITE, 7)]) @ [None] @ map Some (accept_items [(READ, 9)]) @ [None]))
     ahb_bfm0 (0, 0, 0))) (True, []) = Inr (b, map (\<lambda>(ty, d). if ty = READ then d else 0) [(WRITE, 7), (READ, 9)])"
  by (rule ahb_answers_checked)
    (simp_all add: list_all_iff accept_items_def ahb_taken_def butlast_append AHBLiteAcceptWriteSeq_def AHBLiteAcceptReadSeq_def)

section \<open>The read model\<close>

text \<open>
  Remark: the read model tolerates a busy bridge for one edge only. Its queue of notifications holds one, and the read driver empties
  it only when it fetches its next item; so if \<open>arready\<close> is low at the edge at which the request is seen and at
  the next, the model raises \<open>QueueFull\<close> there, and its own bound of 20 edges is never reached.
\<close>

theorem r_busy_overflow:
  assumes "rb_timeout s = None" "\<not> rb_waiting s" "rb_notes s = []"
    and "get_int (p ''axi_arvalid'') \<noteq> 0" "get_int (p ''axi_arready'') = 0" "get_int (q ''axi_arready'') = 0"
  shows "\<exists>s'. r_bfm_edge p slot s = Inr (s', slot, False) \<and> r_bfm_edge q slot' s' = Inl QueueFull"
  using assms by (simp add: r_bfm_edge_def r_bfm_wait_def edge_taken_def)

theorem r_busy_overflow_witness:
  "\<exists>s'. r_bfm_edge ((\<lambda>_. Some 0)(''axi_arvalid'' := Some 1)) None (r_bfm0\<lparr>rb_waiting := False\<rparr>) = Inr (s', None, False) \<and>
    r_bfm_edge (\<lambda>_. None) None s' = Inl QueueFull"
  by (rule r_busy_overflow) (simp_all add: r_bfm0_def get_int_def)

section \<open>The coordinator\<close>

lemma coord_then_Inr: "snd (coord_then m n) = Inr () \<longleftrightarrow> snd m = Inr () \<and> snd n = Inr ()"
  by (auto simp: coord_then_def split: sum.split)

lemma coord_transfer_Inr:
  "snd (coord_axi_write r) = Inr () \<longleftrightarrow> r = 1"
  "snd (coord_axi_read r) = Inr () \<longleftrightarrow> r = 2"
  by (simp_all add: coord_axi_write_def coord_axi_read_def coord_then_Inr ahb_response_handler_def)

text \<open>The classes of the items a test sends to a bus.\<close>

definition sent_w :: "coord_op list \<Rightarrow> w_class list" where
  "sent_w ops = concat (map (\<lambda>x. case x of StartW cs \<Rightarrow> filter (\<lambda>c. c \<in> {WRequest, WLastData}) cs | _ \<Rightarrow> []) ops)"

definition sent_ahb :: "coord_op list \<Rightarrow> ahb_class list" where
  "sent_ahb ops = concat (map (\<lambda>x. case x of StartAhb cs \<Rightarrow> cs | _ \<Rightarrow> []) ops)"

lemma sent_append [simp]: "sent_w (xs @ ys) = sent_w xs @ sent_w ys" "sent_ahb (xs @ ys) = sent_ahb xs @ sent_ahb ys"
  by (simp_all add: sent_w_def sent_ahb_def)

lemma coord_transfer_ops:
  "r = 1 \<Longrightarrow> sent_w (fst (coord_axi_write r)) = [WRequest, WLastData] \<and> sent_ahb (fst (coord_axi_write r)) = AHBLiteAcceptWriteSeq"
  "r = 2 \<Longrightarrow> sent_w (fst (coord_axi_read r)) = [] \<and> sent_ahb (fst (coord_axi_read r)) = AHBLiteAcceptReadSeq"
  by (simp_all add: coord_axi_write_def coord_axi_read_def coord_then_def ahb_response_handler_def sent_w_def sent_ahb_def
      AXIWriteTransactionRequestSeq_def AXIWriteDataSeq_def AXIWriteResponseSeq_def AHBLiteAcceptReadSeq_def
      AHBLiteAcceptWriteSeq_def)

text \<open>
  Remark: the test of both channels runs to its end exactly when every round is notified of the transfer it started, and
  raises otherwise. Then it sends for each write one request followed by one item of data, the order the scoreboard
  expects, and accepts each transfer with the sequence for its direction.
\<close>

theorem both_channels_complete:
  "(snd (TestBothChannelsSeq rs) = Inr () \<longleftrightarrow> list_all (\<lambda>(rw, r). r = (if rw \<noteq> 0 then 2 else 1)) rs) \<and>
   (snd (TestBothChannelsSeq rs) = Inr () \<longrightarrow>
     sent_w (fst (TestBothChannelsSeq rs)) = concat (map (\<lambda>(rw, _). if rw \<noteq> 0 then [] else [WRequest, WLastData]) rs) \<and>
     sent_ahb (fst (TestBothChannelsSeq rs)) =
       concat (map (\<lambda>(rw, _). if rw \<noteq> 0 then AHBLiteAcceptReadSeq else AHBLiteAcceptWriteSeq) rs))"
proof (induction rs)
  case (Cons x rs)
  obtain rw r where x: "x = (rw, r)" by (cases x)
  let ?m = "if rw \<noteq> 0 then coord_axi_read r else coord_axi_write r"
  have ok: "snd (TestBothChannelsSeq (x # rs)) = Inr () \<longleftrightarrow> r = (if rw \<noteq> 0 then 2 else 1) \<and> snd (TestBothChannelsSeq rs) = Inr ()"
    by (simp add: x coord_then_Inr coord_transfer_Inr)
  have "fst (TestBothChannelsSeq (x # rs)) = fst ?m @ fst (TestBothChannelsSeq rs)" if "snd ?m = Inr ()"
    using that by (simp add: x coord_then_def)
  with ok Cons.IH show ?case
    unfolding list.map concat.simps list.pred_inject x
    by (auto simp: coord_transfer_Inr coord_transfer_ops)
qed (simp add: sent_w_def sent_ahb_def)

theorem both_channels_complete_witness:
  "snd (TestBothChannelsSeq [(0, 1), (1, 2)]) = Inr () \<and>
   sent_w (fst (TestBothChannelsSeq [(0, 1), (1, 2)])) = [WRequest, WLastData]"
  using both_channels_complete [of "[(0, 1), (1, 2)]"] by simp

end
