(* ===== verification/Jtag_Regs.thy ===== *)
theory Jtag_Regs
  imports Jtag_Tap
begin

text \<open>
  The registers of the JTAG predictor, \<open>verification/block/dmi/jtag_predictor.py\<close>, and the sequences
  that shift values into them (\<open>jtag_seq.py\<close>, \<open>dmi_seq.py\<close>).

  The registers are cocotb's \<open>LogicArray\<close>, so its operations are an argument of the model, \<open>logic_ops\<close>;
  \<open>logic_laws\<close> is its documented behaviour: an array has a length and the unsigned number its
  bits stand for; making one from a number that does not fit raises \<open>ValueError\<close>. The predictor is called
  after each edge of the clock; \<open>predict_jtag_outputs\<close> is one call. \<open>cyc\<close> is the specification of a
  clock cycle on numbers, and \<open>predict_cycle_refines\<close> shows that the predictor implements it.
\<close>

section \<open>Definitions\<close>

subsection \<open>Bit arrays\<close>

record 'l logic_ops =
  la_new :: "nat \<Rightarrow> int \<Rightarrow> 'l py"
  la_auto :: "int \<Rightarrow> 'l"
  la_cat :: "'l \<Rightarrow> 'l \<Rightarrow> 'l"
  la_slice :: "'l \<Rightarrow> nat \<Rightarrow> nat \<Rightarrow> 'l"
  la_clear0 :: "'l \<Rightarrow> 'l"
  la_len :: "'l \<Rightarrow> nat"
  la_int :: "'l \<Rightarrow> int"
  la_eq :: "'l \<Rightarrow> 'l \<Rightarrow> bool"
  la_list :: "'l \<Rightarrow> int list"

definition concat_py :: "'l logic_ops \<Rightarrow> 'l py \<Rightarrow> 'l py \<Rightarrow> 'l py" where
  "concat_py L x y = bind_py x (\<lambda>a. bind_py y (\<lambda>b. Inr (la_cat L a b)))"

subsection \<open>Predictor\<close>

record 'l predictor =
  pr_fsm :: jtag_fsm
  pr_ir :: 'l
  pr_dr :: 'l
  pr_ndr :: 'l
  pr_sr :: 'l
  pr_nsr :: 'l
  pr_tdo :: int
  pr_tdoEnable :: int
  pr_wr_addr :: 'l
  pr_wr_data :: 'l
  pr_wr_en :: int
  pr_rd_en :: int
  pr_dmi_hard_reset :: int

text \<open>The pins the predictor reads.\<close>

record jtag_pins = tap_pins +
  tdi :: int
  rd_data :: int

definition predictor_init :: "'l logic_ops \<Rightarrow> nat \<Rightarrow> 'l predictor py" where
  "predictor_init L W =
     bind_py (la_new L 5 1) (\<lambda>one. bind_py (la_new L (W + 34) 0) (\<lambda>z.
     bind_py (la_new L W 0) (\<lambda>a. bind_py (la_new L 32 0) (\<lambda>d.
       Inr \<lparr>pr_fsm = jtag_init, pr_ir = one, pr_dr = z, pr_ndr = z, pr_sr = z, pr_nsr = z, pr_tdo = 0, pr_tdoEnable = 0,
         pr_wr_addr = a, pr_wr_data = d, pr_wr_en = 0, pr_rd_en = 0, pr_dmi_hard_reset = 0\<rparr>))))"

definition DEVICE_ID_SEL :: int where "DEVICE_ID_SEL = 0b00001"
definition DR_EN_0 :: int where "DR_EN_0 = 0b10000"
definition DR_EN_1 :: int where "DR_EN_1 = 0b10001"

definition ir_is :: "'l logic_ops \<Rightarrow> 'l predictor \<Rightarrow> int \<Rightarrow> bool py" where
  "ir_is L s v = bind_py (la_new L 5 v) (\<lambda>c. Inr (la_eq L (pr_ir s) c))"

text \<open>\<open>Defaults\<close> and \<open>JTAGDefaults\<close>: identification and status words.\<close>

definition JTAG_ID :: "'l logic_ops \<Rightarrow> 'l py" where
  "JTAG_ID L = concat_py L (concat_py L (la_new L 4 0) (la_new L 16 0)) (la_new L 11 0)"

definition dtmcs :: "'l logic_ops \<Rightarrow> 'l py" where
  "dtmcs L = concat_py L (concat_py L (concat_py L (la_new L 2 0) (la_new L 2 0)) (la_new L 6 7)) (la_new L 4 1)"

text \<open>The value the shift register takes next while data is shifted, while data is captured, and in general.\<close>

definition nsr_shift_dr :: "'l logic_ops \<Rightarrow> nat \<Rightarrow> jtag_pins \<Rightarrow> 'l predictor \<Rightarrow> 'l \<Rightarrow> 'l py" where
  "nsr_shift_dr L W p s nsr =
     (let tdi_lr = la_auto L (tdi p) in
      bind_py (ir_is L s DR_EN_1) (\<lambda>en1. bind_py (ir_is L s DR_EN_0) (\<lambda>en0. bind_py (ir_is L s DEVICE_ID_SEL) (\<lambda>dev.
        if en1 then Inr (la_cat L tdi_lr (la_slice L (pr_sr s) (W + 33) 1))
        else if en0 \<or> dev then concat_py L (la_new L (W + 2) 0) (Inr (la_cat L tdi_lr (la_slice L (pr_sr s) 31 1)))
        else la_new L (la_len L nsr) (tdi p)))))"

definition nsr_capture_dr :: "'l logic_ops \<Rightarrow> nat \<Rightarrow> jtag_pins \<Rightarrow> 'l predictor \<Rightarrow> 'l \<Rightarrow> 'l py" where
  "nsr_capture_dr L W p s nsr =
     bind_py (ir_is L s DR_EN_0) (\<lambda>en0. bind_py (ir_is L s DR_EN_1) (\<lambda>en1. bind_py (ir_is L s DEVICE_ID_SEL) (\<lambda>dev.
       if en0 then concat_py L (la_new L (W + 19) 0) (dtmcs L)
       else if en1 then concat_py L (concat_py L (la_new L W 0) (la_new L 32 (rd_data p))) (la_new L 2 0)
       else if dev then concat_py L (la_new L (W + 2) 0) (concat_py L (JTAG_ID L) (Inr (la_auto L 1)))
       else Inr (la_clear0 L nsr))))"

definition predict_nsr_reg :: "'l logic_ops \<Rightarrow> nat \<Rightarrow> jtag_pins \<Rightarrow> 'l predictor \<Rightarrow> 'l predictor py" where
  "predict_nsr_reg L W p s =
     bind_py (la_new L (W + 34) (la_int L (pr_sr s))) (\<lambda>nsr.
     bind_py (case js_state (pr_fsm s) of
         SHIFT_DR_STATE \<Rightarrow> nsr_shift_dr L W p s nsr
       | CAPTURE_DR_STATE \<Rightarrow> nsr_capture_dr L W p s nsr
       | SHIFT_IR_STATE \<Rightarrow>
           concat_py L (la_new L (W + 29) 0) (Inr (la_cat L (la_auto L (tdi p)) (la_slice L (pr_sr s) 4 1)))
       | CAPTURE_IR_STATE \<Rightarrow> la_new L (W + 34) 1
       | _ \<Rightarrow> Inr nsr) (\<lambda>nsr'.
       Inr (s\<lparr>pr_nsr := nsr'\<rparr>)))"

definition posedge_sr :: "'l logic_ops \<Rightarrow> nat \<Rightarrow> jtag_pins \<Rightarrow> 'l predictor \<Rightarrow> 'l predictor py" where
  "posedge_sr L W p s =
     (let s1 = s\<lparr>pr_dr := pr_ndr s\<rparr> in
      bind_py (la_new L (W + 34) (if trst_n p = 0 then 0 else la_int L (pr_nsr s1))) (\<lambda>sr.
        if trst_n p = 0 then
          bind_py (la_new L (la_len L (pr_nsr s1)) 0) (\<lambda>nsr. bind_py (la_new L (la_len L (pr_ir s1)) 1) (\<lambda>ir.
          bind_py (la_new L (la_len L (pr_dr s1)) 0) (\<lambda>ndr.
            Inr (s1\<lparr>pr_sr := sr, pr_nsr := nsr, pr_ir := ir, pr_ndr := ndr\<rparr>))))
        else Inr (s1\<lparr>pr_sr := sr\<rparr>)))"

definition posedge_ir :: "'l logic_ops \<Rightarrow> 'l predictor \<Rightarrow> 'l predictor py" where
  "posedge_ir L s =
     (if js_state (pr_fsm s) = UPDATE_IR_STATE then
        (if la_int L (la_slice L (pr_sr s) 4 0) = 0
         then bind_py (la_new L (la_len L (pr_ir s)) 0x1F) (\<lambda>ir. Inr (s\<lparr>pr_ir := ir\<rparr>))
         else Inr (s\<lparr>pr_ir := la_slice L (pr_sr s) 4 0\<rparr>))
      else Inr s)"

definition posedge_ndr :: "'l logic_ops \<Rightarrow> nat \<Rightarrow> 'l predictor \<Rightarrow> 'l predictor py" where
  "posedge_ndr L W s =
     bind_py (ir_is L s DR_EN_1) (\<lambda>en1.
     bind_py (if js_state (pr_fsm s) = UPDATE_DR_STATE \<and> en1 then la_new L (W + 34) (la_int L (pr_sr s))
         else concat_py L (Inr (la_slice L (pr_dr s) (W + 33) 2)) (la_new L 2 0)) (\<lambda>ndr.
       Inr (s\<lparr>pr_ndr := ndr\<rparr>)))"

definition predict_regs_posedge :: "'l logic_ops \<Rightarrow> nat \<Rightarrow> jtag_pins \<Rightarrow> 'l predictor \<Rightarrow> 'l predictor py" where
  "predict_regs_posedge L W p s =
     bind_py (posedge_sr L W p s) (\<lambda>s1. bind_py (posedge_ir L s1) (\<lambda>s2. bind_py (posedge_ndr L W s2)
       (predict_nsr_reg L W p)))"

definition shifting :: "'l predictor \<Rightarrow> int" where
  "shifting s = of_bool (js_state (pr_fsm s) \<in> {SHIFT_DR_STATE, SHIFT_IR_STATE})"

definition predict_regs_negedge :: "'l logic_ops \<Rightarrow> nat \<Rightarrow> jtag_pins \<Rightarrow> 'l predictor \<Rightarrow> 'l predictor py" where
  "predict_regs_negedge L W p s =
     predict_nsr_reg L W p (s\<lparr>pr_tdo := la_int L (la_slice L (pr_sr s) 0 0), pr_tdoEnable := shifting s\<rparr>)"

definition predict_ports :: "'l logic_ops \<Rightarrow> nat \<Rightarrow> jtag_pins \<Rightarrow> 'l predictor \<Rightarrow> 'l predictor py" where
  "predict_ports L W p s =
     bind_py (ir_is L s DR_EN_0) (\<lambda>en0.
       Inr (s\<lparr>pr_tdoEnable := shifting s,
         pr_wr_addr := la_auto L (la_int L (la_slice L (pr_dr s) (W + 34 - 1) 34)),
         pr_wr_data := la_auto L (la_int L (la_slice L (pr_dr s) 33 2)),
         pr_wr_en := la_int L (la_slice L (pr_dr s) 1 1),
         pr_rd_en := la_int L (la_slice L (pr_dr s) 0 0),
         pr_dmi_hard_reset := (if js_state (pr_fsm s) = UPDATE_DR_STATE \<and> en0
           then la_int L (la_slice L (pr_sr s) 17 17) else 0)\<rparr>))"

definition predict_jtag_outputs :: "'l logic_ops \<Rightarrow> nat \<Rightarrow> clk_edge \<Rightarrow> jtag_pins \<Rightarrow> 'l predictor \<Rightarrow> 'l predictor py" where
  "predict_jtag_outputs L W e p s =
     (let fsm = update_nstate (tap_pins.truncate p) (pr_fsm s) in
      bind_py (case e of
          Pos \<Rightarrow> predict_regs_posedge L W p (s\<lparr>pr_fsm := update_state fsm\<rparr>)
        | Neg \<Rightarrow> predict_regs_negedge L W p (s\<lparr>pr_fsm := fsm\<rparr>))
        (predict_ports L W p))"

text \<open>
  The monitor of the bus functional model calls the predictor after the falling and after the rising
  edge of each clock cycle; test mode select and data change at falling edges.
\<close>

definition predict_cycle :: "'l logic_ops \<Rightarrow> nat \<Rightarrow> jtag_pins \<Rightarrow> 'l predictor \<Rightarrow> 'l predictor py" where
  "predict_cycle L W p s = bind_py (predict_jtag_outputs L W Neg p s) (predict_jtag_outputs L W Pos p)"

subsection \<open>Sequences\<close>

text \<open>The items of a sequence: test mode select and data.\<close>

type_synonym jtag_item = "int \<times> int"

definition SetIRSequence :: "int \<Rightarrow> jtag_item list" where
  "SetIRSequence instr =
     [(1, 0), (1, 0), (0, 0), (0, 0), (0, drop_bit 0 instr AND 1), (0, drop_bit 1 instr AND 1), (0, drop_bit 2 instr AND 1),
      (0, drop_bit 3 instr AND 1), (1, drop_bit 4 instr AND 1), (1, 0), (0, 0), (0, 0), (0, 0)]"

definition ReadIDCODESequence :: "jtag_item list" where
  "ReadIDCODESequence = SetIRSequence 0b00001"

definition CaptureDRSequence :: "jtag_item list" where
  "CaptureDRSequence = [(1, 0), (0, 0), (0, 0)] @ replicate 40 (0, 0) @ [(1, 0), (1, 0), (0, 0), (0, 0), (0, 0)]"

definition AccessDMIRegSequence :: "'l logic_ops \<Rightarrow> int \<Rightarrow> int \<Rightarrow> bool \<Rightarrow> jtag_item list py" where
  "AccessDMIRegSequence L addr data is_write =
     bind_py (la_new L 7 addr) (\<lambda>a. bind_py (la_new L 32 data) (\<lambda>d.
       let bits = rev (la_list L a) in
       Inr ([(1, 0), (0, 0), (0, 0), (0, 1), (0, of_bool is_write)] @
         map (Pair 0) (rev (la_list L d)) @
         map (\<lambda>i. (of_bool (i = length bits - 1), bits ! i)) [0..<length bits] @
         [(1, 0), (0, 0), (0, 0), (0, 0)])))"

section \<open>What a bit array does\<close>

definition logic_laws :: "'l logic_ops \<Rightarrow> bool" where
  "logic_laws L \<longleftrightarrow>
     (\<forall>a. 0 \<le> la_int L a \<and> la_int L a < 2 ^ la_len L a) \<and>
     (\<forall>w v. 0 \<le> v \<and> v < 2 ^ w \<longrightarrow> (\<exists>a. la_new L w v = Inr a \<and> la_len L a = w \<and> la_int L a = v)) \<and>
     (\<forall>w v. \<not> (0 \<le> v \<and> v < 2 ^ w) \<longrightarrow> la_new L w v = Inl ValueError) \<and>
     (\<forall>v. 0 \<le> v \<longrightarrow> la_int L (la_auto L v) = v) \<and>
     la_len L (la_auto L 0) = 1 \<and> la_len L (la_auto L 1) = 1 \<and>
     (\<forall>a b. la_len L (la_cat L a b) = la_len L a + la_len L b \<and>
        la_int L (la_cat L a b) = la_int L a * 2 ^ la_len L b + la_int L b) \<and>
     (\<forall>a hi lo. lo \<le> hi \<and> hi < la_len L a \<longrightarrow>
        la_len L (la_slice L a hi lo) = hi - lo + 1 \<and>
        la_int L (la_slice L a hi lo) = la_int L a div 2 ^ lo mod 2 ^ (hi - lo + 1)) \<and>
     (\<forall>a. la_len L (la_clear0 L a) = la_len L a \<and> la_int L (la_clear0 L a) = la_int L a - la_int L a mod 2) \<and>
     (\<forall>a b. la_eq L a b \<longleftrightarrow> la_len L a = la_len L b \<and> la_int L a = la_int L b) \<and>
     (\<forall>a. la_list L a = map (\<lambda>i. la_int L a div 2 ^ i mod 2) (rev [0..<la_len L a]))"

definition la_fit :: "'l logic_ops \<Rightarrow> nat \<Rightarrow> int \<Rightarrow> 'l" where
  "la_fit L w v = projr (la_new L w v)"

lemma la_fit_laws:
  assumes "logic_laws L" "0 \<le> v" "v < 2 ^ w"
  shows "la_new L w v = Inr (la_fit L w v)" "la_len L (la_fit L w v) = w" "la_int L (la_fit L w v) = v"
proof -
  from assms obtain a where "la_new L w v = Inr a" "la_len L a = w" "la_int L a = v"
    unfolding logic_laws_def by metis
  then show "la_new L w v = Inr (la_fit L w v)" "la_len L (la_fit L w v) = w" "la_int L (la_fit L w v) = v"
    by (simp_all add: la_fit_def)
qed

lemma la_zero:
  assumes "logic_laws L"
  shows "la_new L w 0 = Inr (la_fit L w 0)" "la_len L (la_fit L w 0) = w" "la_int L (la_fit L w 0) = 0"
  using la_fit_laws [OF assms, of 0 w] by simp_all

lemma la_bounds:
  assumes "logic_laws L"
  shows "0 \<le> la_int L a" "la_int L a < 2 ^ la_len L a"
  using assms by (auto simp: logic_laws_def)

lemma la_same_length:
  assumes "logic_laws L" "la_len L a \<le> w"
  shows "la_new L w (la_int L a) = Inr (la_fit L w (la_int L a))" "la_len L (la_fit L w (la_int L a)) = w"
    "la_int L (la_fit L w (la_int L a)) = la_int L a"
proof -
  have "la_int L a < 2 ^ w"
    using la_bounds(2) [OF assms(1), of a] power_increasing [OF assms(2), of "2 :: int"] by linarith
  with la_fit_laws [OF assms(1) la_bounds(1) [OF assms(1)]] 
  show "la_new L w (la_int L a) = Inr (la_fit L w (la_int L a))" "la_len L (la_fit L w (la_int L a)) = w"
    "la_int L (la_fit L w (la_int L a)) = la_int L a" by blast+
qed

lemma la_ops:
  assumes "logic_laws L"
  shows "0 \<le> v \<Longrightarrow> la_int L (la_auto L v) = v"
    "v \<in> {0, 1} \<Longrightarrow> la_len L (la_auto L v) = 1"
    "la_len L (la_cat L a b) = la_len L a + la_len L b"
    "la_int L (la_cat L a b) = la_int L a * 2 ^ la_len L b + la_int L b"
    "lo \<le> hi \<Longrightarrow> hi < la_len L a \<Longrightarrow> la_len L (la_slice L a hi lo) = hi - lo + 1"
    "lo \<le> hi \<Longrightarrow> hi < la_len L a \<Longrightarrow> la_int L (la_slice L a hi lo) = la_int L a div 2 ^ lo mod 2 ^ (hi - lo + 1)"
    "la_len L (la_clear0 L a) = la_len L a" "la_int L (la_clear0 L a) = la_int L a - la_int L a mod 2"
    "la_eq L a b \<longleftrightarrow> la_len L a = la_len L b \<and> la_int L a = la_int L b"
    "la_list L a = map (\<lambda>i. la_int L a div 2 ^ i mod 2) (rev [0..<la_len L a])"
  using assms by (auto simp: logic_laws_def)

section \<open>Specification of a clock cycle\<close>

text \<open>The registers as numbers.\<close>

record jtag_spec =
  sp_state :: JTAGStates
  sp_ir :: int
  sp_sr :: int
  sp_dr :: int
  sp_ndr :: int

text \<open>What the shift register takes next.\<close>

definition nsr_value :: "nat \<Rightarrow> int \<Rightarrow> int \<Rightarrow> jtag_spec \<Rightarrow> int" where
  "nsr_value W d rd s = (case sp_state s of
     SHIFT_DR_STATE \<Rightarrow>
       if sp_ir s = 17 then d * 2 ^ (W + 33) + sp_sr s div 2
       else if sp_ir s = 16 \<or> sp_ir s = 1 then d * 2 ^ 31 + sp_sr s div 2 mod 2 ^ 31
       else d
   | CAPTURE_DR_STATE \<Rightarrow>
       if sp_ir s = 16 then 0x71 else if sp_ir s = 17 then rd * 4 else if sp_ir s = 1 then 1
       else sp_sr s - sp_sr s mod 2
   | SHIFT_IR_STATE \<Rightarrow> d * 2 ^ 4 + sp_sr s div 2 mod 2 ^ 4
   | CAPTURE_IR_STATE \<Rightarrow> 1
   | _ \<Rightarrow> sp_sr s)"

text \<open>
  A cycle out of reset: the shift register is loaded, the state moves on, an update state takes over
  the shift register, and the two enable bits of the data register last for one cycle.
\<close>

definition load :: "JTAGStates \<Rightarrow> int \<Rightarrow> jtag_spec \<Rightarrow> jtag_spec" where
  "load st sr s =
     (let ir = (if st = UPDATE_IR_STATE then if sr mod 32 = 0 then 31 else sr mod 32 else sp_ir s); dr = sp_ndr s
      in \<lparr>sp_state = st, sp_ir = ir, sp_sr = sr, sp_dr = dr,
          sp_ndr = (if st = UPDATE_DR_STATE \<and> ir = 17 then sr else dr - dr mod 4)\<rparr>)"

definition cyc :: "nat \<Rightarrow> int \<Rightarrow> int \<Rightarrow> int \<Rightarrow> jtag_spec \<Rightarrow> jtag_spec" where
  "cyc W t d rd s = load (nstate_of t (sp_state s)) (nsr_value W d rd s) s"

definition spec_of :: "'l logic_ops \<Rightarrow> 'l predictor \<Rightarrow> jtag_spec" where
  "spec_of L s = \<lparr>sp_state = js_state (pr_fsm s), sp_ir = la_int L (pr_ir s), sp_sr = la_int L (pr_sr s),
     sp_dr = la_int L (pr_dr s), sp_ndr = la_int L (pr_ndr s)\<rparr>"

text \<open>The predicted ports, and the fields of a data register: address, data, write enable, read enable.\<close>

definition ports_of :: "'l logic_ops \<Rightarrow> 'l predictor \<Rightarrow> int \<times> int \<times> int \<times> int" where
  "ports_of L s = (la_int L (pr_wr_addr s), la_int L (pr_wr_data s), pr_wr_en s, pr_rd_en s)"

definition ports_in :: "int \<Rightarrow> int \<times> int \<times> int \<times> int" where
  "ports_in dr = (dr div 2 ^ 34, dr div 4 mod 2 ^ 32, dr div 2 mod 2, dr mod 2)"

text \<open>The lengths of the registers, and pins of their widths.\<close>

definition regs_ok :: "'l logic_ops \<Rightarrow> nat \<Rightarrow> 'l predictor \<Rightarrow> bool" where
  "regs_ok L W s \<longleftrightarrow> la_len L (pr_sr s) = W + 34 \<and> la_len L (pr_dr s) = W + 34 \<and> la_len L (pr_ndr s) = W + 34 \<and>
     la_len L (pr_ir s) = 5 \<and> la_len L (pr_nsr s) \<le> W + 34"

definition pins_ok :: "jtag_pins \<Rightarrow> bool" where
  "pins_ok p \<longleftrightarrow> tdi p \<in> {0, 1} \<and> 0 \<le> rd_data p \<and> rd_data p < 2 ^ 32"

section \<open>The predictor implements the specification\<close>

lemma ir_is_value:
  assumes "logic_laws L" "la_len L (pr_ir s) = 5" "0 \<le> v" "v < 32"
  shows "ir_is L s v = Inr (la_int L (pr_ir s) = v)"
  using la_fit_laws [OF assms(1), of v 5] assms by (simp add: ir_is_def la_ops(9) [OF assms(1)])

lemma nsr_shift_dr_value:
  assumes L: "logic_laws L" and r: "regs_ok L W s" and p: "pins_ok p" and n: "la_len L nsr = W + 34"
    and st: "js_state (pr_fsm s) = SHIFT_DR_STATE"
  shows "\<exists>a. nsr_shift_dr L W p s nsr = Inr a \<and> la_len L a \<le> W + 34 \<and>
    la_int L a = nsr_value W (tdi p) (rd_data p) (spec_of L s)"
proof -
  have ir: "ir_is L s v = Inr (la_int L (pr_ir s) = v)" if "0 \<le> v" "v < 32" for v
    using r that by (intro ir_is_value [OF L]) (auto simp: regs_ok_def)
  have d: "0 \<le> tdi p" "tdi p < 2 ^ (W + 34)"
    using p one_less_power [of "2::int" "W + 34"] by (auto simp: pins_ok_def)
  have sl: "la_len L (la_slice L (pr_sr s) (W + 33) 1) = W + 33" "la_len L (la_slice L (pr_sr s) 31 1) = 31"
    "la_int L (la_slice L (pr_sr s) 31 1) = la_int L (pr_sr s) div 2 mod 2 ^ 31"
    using r by (simp_all add: regs_ok_def la_ops(5,6) [OF L])
  have "la_int L (pr_sr s) div 2 < 2 ^ (W + 33)"
    using la_bounds(2) [OF L, of "pr_sr s"] r by (simp add: regs_ok_def eval_nat_numeral)
  then have "la_int L (pr_sr s) div 2 mod 2 ^ (W + 33) = la_int L (pr_sr s) div 2"
    using la_bounds(1) [OF L, of "pr_sr s"] by (intro mod_pos_pos_trivial) simp_all
  then have sl': "la_int L (la_slice L (pr_sr s) (W + 33) 1) = la_int L (pr_sr s) div 2"
    using r by (simp add: regs_ok_def la_ops(6) [OF L] add.commute)
  have au: "la_len L (la_auto L (tdi p)) = 1" "la_int L (la_auto L (tdi p)) = tdi p"
    using p d(1) by (simp_all add: la_ops(1,2) [OF L] pins_ok_def)
  show ?thesis
    unfolding nsr_shift_dr_def nsr_value_def spec_of_def
    using la_fit_laws [OF L d] n st
    by (simp add: ir DR_EN_1_def DR_EN_0_def DEVICE_ID_SEL_def concat_py_def la_zero [OF L] la_ops(3,4) [OF L] sl sl' au
        del: One_nat_def)
qed

lemma nsr_capture_dr_value:
  assumes L: "logic_laws L" and r: "regs_ok L W s" and p: "pins_ok p"
    and n: "la_len L nsr = W + 34" "la_int L nsr = la_int L (pr_sr s)" and st: "js_state (pr_fsm s) = CAPTURE_DR_STATE"
  shows "\<exists>a. nsr_capture_dr L W p s nsr = Inr a \<and> la_len L a \<le> W + 34 \<and>
    la_int L a = nsr_value W (tdi p) (rd_data p) (spec_of L s)"
proof -
  have ir: "ir_is L s v = Inr (la_int L (pr_ir s) = v)" if "0 \<le> v" "v < 32" for v
    using r that by (intro ir_is_value [OF L]) (auto simp: regs_ok_def)
  note fits = la_fit_laws [OF L, of 7 6] la_fit_laws [OF L, of 1 4] la_fit_laws [OF L, of "rd_data p" 32]
  show ?thesis
    unfolding nsr_capture_dr_def nsr_value_def spec_of_def
    using n st p fits
    by (simp add: ir DR_EN_1_def DR_EN_0_def DEVICE_ID_SEL_def concat_py_def la_zero [OF L] la_ops [OF L] dtmcs_def JTAG_ID_def
        pins_ok_def)
qed

lemma predict_nsr_value:
  assumes L: "logic_laws L" and r: "regs_ok L W s" and p: "pins_ok p"
  shows "\<exists>a. predict_nsr_reg L W p s = Inr (s\<lparr>pr_nsr := a\<rparr>) \<and> la_len L a \<le> W + 34 \<and>
    la_int L a = nsr_value W (tdi p) (rd_data p) (spec_of L s)"
proof -
  have len: "la_len L (pr_sr s) \<le> W + 34" using r by (simp add: regs_ok_def)
  let ?n = "la_fit L (W + 34) (la_int L (pr_sr s))"
  note n = la_same_length [OF L len]
  have au: "la_len L (la_auto L (tdi p)) = 1" "la_int L (la_auto L (tdi p)) = tdi p"
    using p by (auto simp: la_ops(1,2) [OF L] pins_ok_def)
  show ?thesis
  proof (cases "js_state (pr_fsm s)")
    case SHIFT_DR_STATE
    with nsr_shift_dr_value [OF L r p n(2)] show ?thesis by (auto simp: predict_nsr_reg_def n)
  next
    case CAPTURE_DR_STATE
    with nsr_capture_dr_value [OF L r p n(2,3)] show ?thesis by (auto simp: predict_nsr_reg_def n)
  next
    case SHIFT_IR_STATE
    with r show ?thesis
      by (intro exI [of _ "la_cat L (la_fit L (W + 29) 0) (la_cat L (la_auto L (tdi p)) (la_slice L (pr_sr s) 4 1))"])
        (simp add: predict_nsr_reg_def n concat_py_def la_zero [OF L] la_ops(3-6) [OF L] au nsr_value_def spec_of_def regs_ok_def
          del: One_nat_def)
  next
    case CAPTURE_IR_STATE
    with la_fit_laws [OF L, of 1 "W + 34"] one_less_power [of "2::int" "W + 34"] show ?thesis
      by (auto simp: predict_nsr_reg_def n nsr_value_def spec_of_def)
  qed (auto simp: predict_nsr_reg_def n nsr_value_def spec_of_def)
qed

lemma posedge_sr_value:
  assumes L: "logic_laws L" and r: "regs_ok L W s"
  shows "\<exists>s'. posedge_sr L W p s = Inr s' \<and> regs_ok L W s' \<and> pr_fsm s' = pr_fsm s \<and> pr_dr s' = pr_ndr s \<and>
    (trst_n p \<noteq> 0 \<longrightarrow> la_int L (pr_sr s') = la_int L (pr_nsr s) \<and> pr_ir s' = pr_ir s)"
proof -
  have len: "la_len L (pr_nsr s) \<le> W + 34" using r by (simp add: regs_ok_def)
  show ?thesis
    using r la_fit_laws [OF L, of 1 5]
    by (cases "trst_n p = 0") (simp_all add: posedge_sr_def regs_ok_def la_zero [OF L] la_same_length [OF L len])
qed

lemma posedge_ir_value:
  assumes L: "logic_laws L" and r: "regs_ok L W s"
  shows "\<exists>s'. posedge_ir L s = Inr s' \<and> regs_ok L W s' \<and> pr_fsm s' = pr_fsm s \<and> pr_dr s' = pr_dr s \<and> pr_sr s' = pr_sr s \<and>
    la_int L (pr_ir s') = (if js_state (pr_fsm s) = UPDATE_IR_STATE
      then if la_int L (pr_sr s) mod 32 = 0 then 31 else la_int L (pr_sr s) mod 32 else la_int L (pr_ir s))"
  using r la_fit_laws [OF L, of 31 5]
  by (auto simp: posedge_ir_def regs_ok_def la_ops(5,6) [OF L])

lemma posedge_ndr_value:
  assumes L: "logic_laws L" and r: "regs_ok L W s"
  shows "\<exists>s'. posedge_ndr L W s = Inr s' \<and> regs_ok L W s' \<and> pr_fsm s' = pr_fsm s \<and> pr_dr s' = pr_dr s \<and> pr_sr s' = pr_sr s \<and>
    pr_ir s' = pr_ir s \<and> la_int L (pr_ndr s') = (if js_state (pr_fsm s) = UPDATE_DR_STATE \<and> la_int L (pr_ir s) = 17
      then la_int L (pr_sr s) else la_int L (pr_dr s) - la_int L (pr_dr s) mod 4)"
proof -
  have ir: "ir_is L s DR_EN_1 = Inr (la_int L (pr_ir s) = 17)"
    unfolding DR_EN_1_def using r by (subst ir_is_value [OF L]) (auto simp: regs_ok_def)
  have len: "la_len L (pr_sr s) \<le> W + 34" using r by (simp add: regs_ok_def)
  have "la_int L (pr_dr s) div 4 < 2 ^ (W + 32)"
    using la_bounds(2) [OF L, of "pr_dr s"] r by (simp add: regs_ok_def eval_nat_numeral)
  then have "la_int L (pr_dr s) div 4 mod 2 ^ (W + 32) = la_int L (pr_dr s) div 4"
    using la_bounds(1) [OF L, of "pr_dr s"] by (intro mod_pos_pos_trivial) simp_all
  then have sl: "la_int L (la_slice L (pr_dr s) (W + 33) 2) * 4 = la_int L (pr_dr s) - la_int L (pr_dr s) mod 4"
    "la_len L (la_slice L (pr_dr s) (W + 33) 2) = W + 32"
    using r by (simp_all add: regs_ok_def la_ops(5,6) [OF L] add.commute minus_mod_eq_div_mult)
  show ?thesis
    using r sl by (simp add: posedge_ndr_def ir concat_py_def la_zero [OF L] la_same_length [OF L len] la_ops(3,4) [OF L] regs_ok_def)
qed

lemma spec_of_simps [simp]:
  "sp_state (spec_of L s) = js_state (pr_fsm s)" "sp_ir (spec_of L s) = la_int L (pr_ir s)"
  "sp_sr (spec_of L s) = la_int L (pr_sr s)" "sp_dr (spec_of L s) = la_int L (pr_dr s)" "sp_ndr (spec_of L s) = la_int L (pr_ndr s)"
  by (simp_all add: spec_of_def)

lemma regs_posedge_value:
  assumes L: "logic_laws L" and r: "regs_ok L W s" and p: "pins_ok p"
  shows "\<exists>s'. predict_regs_posedge L W p s = Inr s' \<and> regs_ok L W s' \<and> pr_fsm s' = pr_fsm s \<and>
    (trst_n p \<noteq> 0 \<longrightarrow> spec_of L s' = load (js_state (pr_fsm s)) (la_int L (pr_nsr s)) (spec_of L s))"
proof -
  obtain s1 where s1: "posedge_sr L W p s = Inr s1" "regs_ok L W s1" "pr_fsm s1 = pr_fsm s" "pr_dr s1 = pr_ndr s"
    "trst_n p \<noteq> 0 \<longrightarrow> la_int L (pr_sr s1) = la_int L (pr_nsr s) \<and> pr_ir s1 = pr_ir s"
    using posedge_sr_value [OF L r] by blast
  obtain s2 where s2: "posedge_ir L s1 = Inr s2" "regs_ok L W s2" "pr_fsm s2 = pr_fsm s1" "pr_dr s2 = pr_dr s1" "pr_sr s2 = pr_sr s1"
    "la_int L (pr_ir s2) = (if js_state (pr_fsm s1) = UPDATE_IR_STATE
      then if la_int L (pr_sr s1) mod 32 = 0 then 31 else la_int L (pr_sr s1) mod 32 else la_int L (pr_ir s1))"
    using posedge_ir_value [OF L s1(2)] by blast
  obtain s3 where s3: "posedge_ndr L W s2 = Inr s3" "regs_ok L W s3" "pr_fsm s3 = pr_fsm s2" "pr_dr s3 = pr_dr s2" "pr_sr s3 = pr_sr s2"
    "pr_ir s3 = pr_ir s2" "la_int L (pr_ndr s3) = (if js_state (pr_fsm s2) = UPDATE_DR_STATE \<and> la_int L (pr_ir s2) = 17
      then la_int L (pr_sr s2) else la_int L (pr_dr s2) - la_int L (pr_dr s2) mod 4)"
    using posedge_ndr_value [OF L s2(2)] by blast
  obtain a where a: "predict_nsr_reg L W p s3 = Inr (s3\<lparr>pr_nsr := a\<rparr>)" "la_len L a \<le> W + 34"
    using predict_nsr_value [OF L s3(2) p] by blast
  have "predict_regs_posedge L W p s = Inr (s3\<lparr>pr_nsr := a\<rparr>)"
    by (simp add: predict_regs_posedge_def s1(1) s2(1) s3(1) a(1))
  moreover have "regs_ok L W (s3\<lparr>pr_nsr := a\<rparr>)" using s3(2) a(2) by (simp add: regs_ok_def)
  ultimately show ?thesis
    using s1 s2 s3 by (simp add: load_def Let_def spec_of_def)
qed

lemma ports_value:
  assumes L: "logic_laws L" and r: "regs_ok L W s" and W: "0 < W"
  shows "\<exists>s'. predict_ports L W p s = Inr s' \<and> regs_ok L W s' \<and> pr_fsm s' = pr_fsm s \<and> spec_of L s' = spec_of L s \<and>
    pr_nsr s' = pr_nsr s \<and> la_int L (pr_wr_addr s') = la_int L (pr_dr s) div 2 ^ 34 \<and>
    la_int L (pr_wr_data s') = la_int L (pr_dr s) div 4 mod 2 ^ 32 \<and>
    pr_wr_en s' = la_int L (pr_dr s) div 2 mod 2 \<and> pr_rd_en s' = la_int L (pr_dr s) mod 2"
proof -
  have ir: "ir_is L s DR_EN_0 = Inr (la_int L (pr_ir s) = 16)"
    unfolding DR_EN_0_def using r by (subst ir_is_value [OF L]) (auto simp: regs_ok_def)
  have "la_int L (pr_dr s) < 2 ^ W * 2 ^ 34"
    using la_bounds(2) [OF L, of "pr_dr s"] r by (simp add: regs_ok_def power_add)
  then have "la_int L (pr_dr s) div 2 ^ 34 < 2 ^ W"
    using div_mult_mod_eq [of "la_int L (pr_dr s)" "2 ^ 34"] pos_mod_sign [of "2 ^ 34" "la_int L (pr_dr s)"]
      mult_right_mono [of "2 ^ W" "la_int L (pr_dr s) div 2 ^ 34" "2 ^ 34"] by (rule_tac ccontr) simp
  then have "la_int L (pr_dr s) div 2 ^ 34 mod 2 ^ W = la_int L (pr_dr s) div 2 ^ 34"
    using la_bounds(1) [OF L, of "pr_dr s"] by (intro mod_pos_pos_trivial) simp_all
  then show ?thesis
    using r W la_bounds(1) [OF L, of "pr_dr s"]
    by (simp add: predict_ports_def ir regs_ok_def spec_of_def la_ops(1,5,6) [OF L])
qed

lemma regs_negedge_value:
  assumes L: "logic_laws L" and r: "regs_ok L W s" and p: "pins_ok p"
  shows "\<exists>s'. predict_regs_negedge L W p s = Inr s' \<and> regs_ok L W s' \<and> pr_fsm s' = pr_fsm s \<and> spec_of L s' = spec_of L s \<and>
    la_int L (pr_nsr s') = nsr_value W (tdi p) (rd_data p) (spec_of L s)"
proof -
  let ?s1 = "s\<lparr>pr_tdo := la_int L (la_slice L (pr_sr s) 0 0), pr_tdoEnable := shifting s\<rparr>"
  have ok: "regs_ok L W ?s1" "spec_of L ?s1 = spec_of L s" using r by (simp_all add: regs_ok_def spec_of_def)
  from predict_nsr_value [OF L ok(1) p] obtain a where a: "predict_nsr_reg L W p ?s1 = Inr (?s1\<lparr>pr_nsr := a\<rparr>)"
    "la_len L a \<le> W + 34" "la_int L a = nsr_value W (tdi p) (rd_data p) (spec_of L ?s1)" by blast
  with ok show ?thesis by (simp add: predict_regs_negedge_def regs_ok_def spec_of_def)
qed

lemma outputs_value:
  assumes L: "logic_laws L" and r: "regs_ok L W s" and p: "pins_ok p" and W: "0 < W"
  shows "\<exists>s'. predict_jtag_outputs L W e p s = Inr s' \<and> regs_ok L W s' \<and>
    pr_fsm s' = (case e of Pos \<Rightarrow> update_state (update_nstate (tap_pins.truncate p) (pr_fsm s))
      | Neg \<Rightarrow> update_nstate (tap_pins.truncate p) (pr_fsm s)) \<and>
    la_int L (pr_wr_addr s') = sp_dr (spec_of L s') div 2 ^ 34 \<and> la_int L (pr_wr_data s') = sp_dr (spec_of L s') div 4 mod 2 ^ 32 \<and>
    pr_wr_en s' = sp_dr (spec_of L s') div 2 mod 2 \<and> pr_rd_en s' = sp_dr (spec_of L s') mod 2 \<and>
    (e = Neg \<longrightarrow> spec_of L s' = spec_of L s \<and> la_int L (pr_nsr s') = nsr_value W (tdi p) (rd_data p) (spec_of L s)) \<and>
    (e = Pos \<and> trst_n p \<noteq> 0 \<longrightarrow> spec_of L s' = load (nstate_of (tms p) (sp_state (spec_of L s))) (la_int L (pr_nsr s)) (spec_of L s))"
proof -
  define fsm where "fsm = update_nstate (tap_pins.truncate p) (pr_fsm s)"
  define s0 where "s0 = s\<lparr>pr_fsm := (case e of Pos \<Rightarrow> update_state fsm | Neg \<Rightarrow> fsm)\<rparr>"
  have fsm0: "js_state fsm = sp_state (spec_of L s)" "js_nstate fsm = nstate_of (tms p) (sp_state (spec_of L s))"
    by (simp_all add: fsm_def tap_pins.truncate_def)
  have r0: "regs_ok L W s0" using r by (simp add: regs_ok_def s0_def)
  have load: "load st sr (spec_of L s0) = load st sr (spec_of L s)" for st sr by (simp add: load_def s0_def)
  have s0: "pr_fsm s0 = (case e of Pos \<Rightarrow> update_state fsm | Neg \<Rightarrow> fsm)" "pr_nsr s0 = pr_nsr s" by (simp_all add: s0_def)
  have neg: "spec_of L s0 = spec_of L s" if "e = Neg" using that fsm0(1) by (simp add: spec_of_def s0_def)
  obtain s1 where s1: "(case e of Pos \<Rightarrow> predict_regs_posedge L W p s0 | Neg \<Rightarrow> predict_regs_negedge L W p s0) = Inr s1"
    "regs_ok L W s1" "pr_fsm s1 = pr_fsm s0"
    "e = Neg \<longrightarrow> spec_of L s1 = spec_of L s \<and> la_int L (pr_nsr s1) = nsr_value W (tdi p) (rd_data p) (spec_of L s)"
    "e = Pos \<and> trst_n p \<noteq> 0 \<longrightarrow> spec_of L s1 = load (nstate_of (tms p) (sp_state (spec_of L s))) (la_int L (pr_nsr s)) (spec_of L s)"
  proof (cases e)
    case Pos
    with s0(1) fsm0(2) have st: "js_state (pr_fsm s0) = nstate_of (tms p) (sp_state (spec_of L s))"
      by (simp add: update_state_def)
    obtain s1 where "predict_regs_posedge L W p s0 = Inr s1" "regs_ok L W s1" "pr_fsm s1 = pr_fsm s0"
      "trst_n p \<noteq> 0 \<longrightarrow> spec_of L s1 = load (js_state (pr_fsm s0)) (la_int L (pr_nsr s0)) (spec_of L s0)"
      using regs_posedge_value [OF L r0 p] by blast
    then show ?thesis using Pos that [of s1] unfolding st s0(2) load by simp
  next
    case Neg
    obtain s1 where "predict_regs_negedge L W p s0 = Inr s1" "regs_ok L W s1" "pr_fsm s1 = pr_fsm s0"
      "spec_of L s1 = spec_of L s0" "la_int L (pr_nsr s1) = nsr_value W (tdi p) (rd_data p) (spec_of L s0)"
      using regs_negedge_value [OF L r0 p] by blast
    then show ?thesis using Neg that [of s1] unfolding neg [OF Neg] by simp
  qed
  obtain s2 where s2: "predict_ports L W p s1 = Inr s2" "regs_ok L W s2" "pr_fsm s2 = pr_fsm s1" "spec_of L s2 = spec_of L s1"
    "pr_nsr s2 = pr_nsr s1"
    "la_int L (pr_wr_addr s2) = sp_dr (spec_of L s1) div 2 ^ 34" "la_int L (pr_wr_data s2) = sp_dr (spec_of L s1) div 4 mod 2 ^ 32"
    "pr_wr_en s2 = sp_dr (spec_of L s1) div 2 mod 2" "pr_rd_en s2 = sp_dr (spec_of L s1) mod 2"
    unfolding spec_of_simps using ports_value [OF L s1(2) W, of p] by blast
  have "predict_jtag_outputs L W e p s = Inr s2"
    using s1(1) s2(1) unfolding predict_jtag_outputs_def Let_def fsm_def [symmetric] s0_def by (cases e) simp_all
  moreover have "pr_fsm s2 = (case e of Pos \<Rightarrow> update_state fsm | Neg \<Rightarrow> fsm)" using s2(3) s1(3) s0(1) by simp
  ultimately show ?thesis
    using s2(2) s2(6-9) [folded s2(4)] s1(4,5) [folded s2(4,5)] unfolding fsm_def
    by (intro exI [of _ s2] conjI) assumption+
qed


lemma predict_cycle_spec:
  assumes "logic_laws L" "regs_ok L W s" "pins_ok p" "0 < W" "trst_n p \<noteq> 0"
  shows "\<exists>s'. predict_cycle L W p s = Inr s' \<and> regs_ok L W s' \<and>
    spec_of L s' = cyc W (tms p) (tdi p) (rd_data p) (spec_of L s) \<and> ports_of L s' = ports_in (sp_dr (spec_of L s'))"
proof -
  obtain s1 where s1: "predict_jtag_outputs L W Neg p s = Inr s1" "regs_ok L W s1" "spec_of L s1 = spec_of L s"
    "la_int L (pr_nsr s1) = nsr_value W (tdi p) (rd_data p) (spec_of L s)"
    using outputs_value [OF assms(1-4), of Neg] by auto
  from outputs_value [OF assms(1) s1(2) assms(3,4), of Pos] assms(5) show ?thesis
    unfolding predict_cycle_def s1(1) bind_py_simps cyc_def s1(3,4) ports_of_def ports_in_def prod.inject by blast
qed

text \<open>
  Property C20: over a clock cycle out of reset the predictor is the specification \<open>cyc\<close>, and the ports it predicts are the fields of
  the data register: address, data, write enable and read enable.
\<close>

theorem predict_cycle_refines:
  assumes "logic_laws L" "regs_ok L W s" "pins_ok p" "0 < W" "trst_n p \<noteq> 0"
  shows "\<exists>s'. predict_cycle L W p s = Inr s' \<and> regs_ok L W s' \<and>
    spec_of L s' = cyc W (tms p) (tdi p) (rd_data p) (spec_of L s) \<and> ports_of L s' = ports_in (sp_dr (spec_of L s'))"
  by (rule predict_cycle_spec [OF assms])

section \<open>A concrete bit array\<close>

fun bit_length :: "nat \<Rightarrow> nat" where
  "bit_length n = (if n < 2 then 1 else Suc (bit_length (n div 2)))"

declare bit_length.simps [simp del]

lemma bit_length_bound: "n < 2 ^ bit_length n"
proof (induction n rule: bit_length.induct)
  case (1 n)
  then show ?case by (subst bit_length.simps) auto
qed

definition int_logic :: "(nat \<times> int) logic_ops" where
  "int_logic = \<lparr>la_new = (\<lambda>w v. if 0 \<le> v \<and> v < 2 ^ w then Inr (w, v) else Inl ValueError),
     la_auto = (\<lambda>v. (bit_length (nat v), v)),
     la_cat = (\<lambda>a b. (fst a + fst b, snd a mod 2 ^ fst a * 2 ^ fst b + snd b mod 2 ^ fst b)),
     la_slice = (\<lambda>a hi lo. (hi - lo + 1, snd a mod 2 ^ fst a div 2 ^ lo mod 2 ^ (hi - lo + 1))),
     la_clear0 = (\<lambda>a. (fst a, snd a mod 2 ^ fst a - snd a mod 2 ^ fst a mod 2)),
     la_len = fst, la_int = (\<lambda>a. snd a mod 2 ^ fst a),
     la_eq = (\<lambda>a b. fst a = fst b \<and> snd a mod 2 ^ fst a = snd b mod 2 ^ fst b),
     la_list = (\<lambda>a. map (\<lambda>i. snd a mod 2 ^ fst a div 2 ^ i mod 2) (rev [0..<fst a]))\<rparr>"

lemma clear0_bound: "0 \<le> x \<Longrightarrow> (x::int) < m \<Longrightarrow> (x - x mod 2) mod m = x - x mod 2"
  by (rule mod_pos_pos_trivial) (use mod_le_divisor in \<open>auto simp: minus_mod_eq_mult_div\<close>)

lemma cat_bound:
  fixes x y :: int
  assumes "0 \<le> x" "x < 2 ^ m" "0 \<le> y" "y < 2 ^ n"
  shows "(x * 2 ^ n + y) mod 2 ^ (m + n) = x * 2 ^ n + y"
proof (rule mod_pos_pos_trivial)
  have "x + 1 \<le> 2 ^ m" using assms(2) by simp
  then have "(x + 1) * 2 ^ n \<le> 2 ^ m * 2 ^ n" by (rule mult_right_mono) simp
  with assms(4) show "x * 2 ^ n + y < 2 ^ (m + n)" by (simp add: power_add distrib_right)
qed (use assms in simp)

lemma int_logic_laws: "logic_laws int_logic"
proof -
  have "v mod 2 ^ bit_length (nat v) = v" if "0 \<le> v" for v :: int
  proof (rule mod_pos_pos_trivial)
    have "int (nat v) < int (2 ^ bit_length (nat v))" using bit_length_bound of_nat_less_iff by blast
    with that show "v < 2 ^ bit_length (nat v)" by simp
  qed (rule that)
  moreover have "bit_length (nat 0) = 1" "bit_length (nat 1) = 1" by (simp_all add: bit_length.simps)
  ultimately show ?thesis
    unfolding logic_laws_def int_logic_def by (simp add: cat_bound clear0_bound)
qed


definition int_idle :: "(nat \<times> int) predictor" where
  "int_idle = \<lparr>pr_fsm = jtag_init\<lparr>js_state := RUN_TEST_IDLE_STATE\<rparr>, pr_ir = (5, 17), pr_dr = (41, 0), pr_ndr = (41, 0), pr_sr = (41, 3),
     pr_nsr = (41, 0), pr_tdo = 0, pr_tdoEnable = 0, pr_wr_addr = (7, 0), pr_wr_data = (32, 0), pr_wr_en = 0, pr_rd_en = 0,
     pr_dmi_hard_reset = 0\<rparr>"

lemma int_idle_ok: "regs_ok int_logic 7 int_idle"
  by (simp add: regs_ok_def int_idle_def int_logic_def)

theorem predict_cycle_refines_witness:
  "\<exists>s'. predict_cycle int_logic 7 \<lparr>tms = 1, trst_n = 1, tdi = 0, rd_data = 5\<rparr> int_idle = Inr s' \<and> regs_ok int_logic 7 s' \<and>
    spec_of int_logic s' = cyc 7 1 0 5 (spec_of int_logic int_idle) \<and>
    ports_of int_logic s' = ports_in (sp_dr (spec_of int_logic s'))"
  using predict_cycle_refines [OF int_logic_laws int_idle_ok, of "\<lparr>tms = 1, trst_n = 1, tdi = 0, rd_data = 5\<rparr>"]
  by (simp add: pins_ok_def)

section \<open>Sequences of items\<close>

text \<open>
  The cycles of a sequence, each item with what the design shows on \<open>rd_data\<close> during it, for the predictor and for
  the specification.
\<close>

definition jtag_cycles :: "'l logic_ops \<Rightarrow> nat \<Rightarrow> (jtag_item \<times> int) list \<Rightarrow> 'l predictor \<Rightarrow> 'l predictor py" where
  "jtag_cycles L W = fold_py (\<lambda>((t, d), rd). predict_cycle L W \<lparr>tms = t, trst_n = 1, tdi = d, rd_data = rd\<rparr>)"

definition cycs :: "nat \<Rightarrow> (jtag_item \<times> int) list \<Rightarrow> jtag_spec \<Rightarrow> jtag_spec" where
  "cycs W = fold (\<lambda>((t, d), rd). cyc W t d rd)"

definition drivable :: "jtag_item \<times> int \<Rightarrow> bool" where
  "drivable x \<longleftrightarrow> snd (fst x) \<in> {0, 1} \<and> 0 \<le> snd x \<and> snd x < 2 ^ 32"

lemma cycs_simps [simp]:
  "cycs W [] s = s"
  "cycs W (((t, d), rd) # xs) s = cycs W xs (cyc W t d rd s)"
  "cycs W (xs @ ys) s = cycs W ys (cycs W xs s)"
  by (simp_all add: cycs_def)

lemma jtag_cycles_refine:
  assumes L: "logic_laws L" and W: "0 < W"
  shows "regs_ok L W s \<Longrightarrow> list_all drivable xs \<Longrightarrow> \<exists>s'. jtag_cycles L W xs s = Inr s' \<and> regs_ok L W s' \<and>
    spec_of L s' = cycs W xs (spec_of L s) \<and> (xs \<noteq> [] \<longrightarrow> ports_of L s' = ports_in (sp_dr (cycs W xs (spec_of L s))))"
proof (induction xs arbitrary: s)
  case (Cons x xs)
  obtain t d rd where x: "x = ((t, d), rd)" by (metis prod.exhaust)
  let ?p = "\<lparr>tms = t, trst_n = 1, tdi = d, rd_data = rd\<rparr>"
  have "pins_ok ?p" using Cons.prems(2) x by (simp add: drivable_def pins_ok_def)
  from predict_cycle_spec [OF L Cons.prems(1) this W] obtain s1 where s1: "predict_cycle L W ?p s = Inr s1" "regs_ok L W s1"
    "spec_of L s1 = cyc W t d rd (spec_of L s)" "ports_of L s1 = ports_in (sp_dr (spec_of L s1))"
    by (auto simp del: spec_of_simps)
  from Cons.IH [OF s1(2)] Cons.prems(2) obtain s2 where s2: "jtag_cycles L W xs s1 = Inr s2" "regs_ok L W s2"
    "spec_of L s2 = cycs W xs (spec_of L s1)" "xs \<noteq> [] \<longrightarrow> ports_of L s2 = ports_in (sp_dr (cycs W xs (spec_of L s1)))" by auto
  have "jtag_cycles L W (x # xs) s = Inr s2" using s1(1) s2(1) by (simp add: jtag_cycles_def x)
  moreover have "ports_of L s2 = ports_in (sp_dr (cycs W (x # xs) (spec_of L s)))"
    using s2(1,4) s1(3,4) by (cases "xs = []") (simp_all add: x jtag_cycles_def del: spec_of_simps)
  ultimately show ?case using s2(2,3) s1(3) by (simp add: x del: spec_of_simps)
qed (simp add: jtag_cycles_def)

text \<open>Shifting bits into a register of \<open>n\<close> bits, least significant first.\<close>

fun bits_val :: "int list \<Rightarrow> int" where
  "bits_val [] = 0"
| "bits_val (b # bs) = b + 2 * bits_val bs"

definition shift_in :: "nat \<Rightarrow> int list \<Rightarrow> int \<Rightarrow> int" where
  "shift_in n = fold (\<lambda>d sr. d * 2 ^ (n - 1) + sr div 2)"

lemma shift_in_value:
  "length bs \<le> n \<Longrightarrow> shift_in n bs sr = bits_val bs * 2 ^ (n - length bs) + sr div 2 ^ length bs"
proof (induction bs arbitrary: sr)
  case (Cons b bs)
  then have n: "n - 1 = length bs + (n - Suc (length bs))" "n - length bs = Suc (n - Suc (length bs))" by simp_all
  have "(b * 2 ^ (n - 1) + sr div 2) div 2 ^ length bs = b * 2 ^ (n - Suc (length bs)) + sr div 2 div 2 ^ length bs"
    unfolding n(1) power_add by (simp add: mult.left_commute [of b] div_mult_self4)
  with Cons show ?case
    by (simp add: shift_in_def n(2) algebra_simps zdiv_zmult2_eq)
qed (simp add: shift_in_def)

lemma bits_val_append: "bits_val (xs @ ys) = bits_val xs + 2 ^ length xs * bits_val ys"
  by (induction xs) (simp_all add: algebra_simps)

lemma bits_val_digits: "0 \<le> v \<Longrightarrow> v < 2 ^ n \<Longrightarrow> bits_val (map (\<lambda>i. v div 2 ^ i mod 2) [0..<n]) = v"
proof (induction n arbitrary: v)
  case (Suc n)
  have "map (\<lambda>i. v div 2 ^ i mod 2) [0..<Suc n] = v mod 2 # map (\<lambda>i. v div 2 div 2 ^ i mod 2) [0..<n]"
    by (simp add: upt_conv_Cons map_Suc_upt [symmetric] comp_def zdiv_zmult2_eq del: upt_Suc)
  with Suc.IH [of "v div 2"] Suc.prems show ?case by (simp del: upt_Suc)
qed simp

text \<open>Cycles in the states that shift.\<close>

lemma cyc_simps [simp]:
  "sp_state (cyc W t d rd s) = nstate_of t (sp_state s)"
  "sp_sr (cyc W t d rd s) = nsr_value W d rd s"
  "sp_dr (cyc W t d rd s) = sp_ndr s"
  "nstate_of t (sp_state s) \<noteq> UPDATE_IR_STATE \<Longrightarrow> sp_ir (cyc W t d rd s) = sp_ir s"
  by (simp_all add: cyc_def load_def Let_def)

lemma shift_dr_cycs:
  "sp_state s = SHIFT_DR_STATE \<Longrightarrow> sp_ir s = 17 \<Longrightarrow> list_all (\<lambda>x. fst (fst x) = 0) xs \<Longrightarrow>
   sp_state (cycs W xs s) = SHIFT_DR_STATE \<and> sp_ir (cycs W xs s) = 17 \<and>
   sp_sr (cycs W xs s) = shift_in (W + 34) (map (snd \<circ> fst) xs) (sp_sr s)"
proof (induction xs arbitrary: s)
  case (Cons x xs)
  obtain t d rd where x: "x = ((t, d), rd)" by (metis prod.exhaust)
  let ?s = "cyc W 0 d rd s"
  have "sp_state ?s = SHIFT_DR_STATE" "sp_ir ?s = 17" "sp_sr ?s = d * 2 ^ (W + 33) + sp_sr s div 2"
    using Cons.prems by (simp_all add: nstate_of_def nsr_value_def)
  with Cons.IH [of ?s] Cons.prems x show ?case by (simp add: shift_in_def add.commute [of W])
qed (simp add: shift_in_def)

lemma shift_ir_cycs:
  "sp_state s = SHIFT_IR_STATE \<Longrightarrow> 0 \<le> sp_sr s \<Longrightarrow> sp_sr s < 32 \<Longrightarrow> list_all (\<lambda>x. fst (fst x) = 0 \<and> snd (fst x) \<in> {0, 1}) xs \<Longrightarrow>
   sp_state (cycs W xs s) = SHIFT_IR_STATE \<and> 0 \<le> sp_sr (cycs W xs s) \<and> sp_sr (cycs W xs s) < 32 \<and>
   sp_sr (cycs W xs s) = shift_in 5 (map (snd \<circ> fst) xs) (sp_sr s)"
proof (induction xs arbitrary: s)
  case (Cons x xs)
  obtain t d rd where x: "x = ((t, d), rd)" by (metis prod.exhaust)
  let ?s = "cyc W 0 d rd s"
  have d: "d \<in> {0, 1}" using Cons.prems(4) x by simp
  have "sp_sr s div 2 mod 16 = sp_sr s div 2" using Cons.prems by (intro mod_pos_pos_trivial) auto
  then have s: "sp_state ?s = SHIFT_IR_STATE" "sp_sr ?s = d * 16 + sp_sr s div 2"
    using Cons.prems by (simp_all add: nstate_of_def nsr_value_def)
  then have "0 \<le> sp_sr ?s" "sp_sr ?s < 32" using d Cons.prems by auto
  with Cons.IH [of ?s] s Cons.prems x show ?case by (simp add: shift_in_def)
qed (simp add: shift_in_def)

lemma cyc_ndr:
  "nstate_of t (sp_state s) = UPDATE_DR_STATE \<Longrightarrow> sp_ir s = 17 \<Longrightarrow> sp_ndr (cyc W t d rd s) = nsr_value W d rd s"
  "nstate_of t (sp_state s) \<noteq> UPDATE_DR_STATE \<Longrightarrow> sp_ndr (cyc W t d rd s) = sp_ndr s - sp_ndr s mod 4"
  by (simp_all add: cyc_def load_def Let_def)

lemma access_tail:
  assumes "sp_state s = SHIFT_DR_STATE" "sp_ir s = 17" "b * 2 ^ (W + 33) + sp_sr s div 2 = v"
  shows "sp_state (cycs W [((1, b), r4), ((1, 0), r5), ((0, 0), r6)] s) = RUN_TEST_IDLE_STATE \<and>
    sp_ir (cycs W [((1, b), r4), ((1, 0), r5), ((0, 0), r6)] s) = 17 \<and>
    sp_dr (cycs W [((1, b), r4), ((1, 0), r5), ((0, 0), r6)] s) = v \<and>
    sp_ndr (cycs W [((1, b), r4), ((1, 0), r5), ((0, 0), r6)] s) = v - v mod 4"
proof -
  define s5 where "s5 = cyc W 1 b r4 s"
  have s5: "sp_sr s5 = v" "sp_state s5 = EXIT1_DR_STATE" "sp_ir s5 = 17"
    using assms by (simp_all add: s5_def nstate_of_def nsr_value_def)
  define s6 where "s6 = cyc W 1 0 r5 s5"
  have s6: "sp_state s6 = UPDATE_DR_STATE" "sp_ir s6 = 17" "sp_ndr s6 = v"
    using s5 by (simp_all add: s6_def cyc_ndr nstate_of_def) (simp add: nsr_value_def s5(2))
  show ?thesis
    using s6 by (simp add: s5_def [symmetric] s6_def [symmetric] cyc_ndr(2) nstate_of_def)
qed

lemma access_spec:
  assumes s: "sp_state s = RUN_TEST_IDLE_STATE" "sp_ir s = 17"
    and xs: "map fst xs = [(1, 0), (0, 0), (0, 0)] @ map (Pair 0) bs @ [(1, b), (1, 0), (0, 0)]"
    and len: "length bs = W + 33" and dr: "list_all drivable xs"
  shows "sp_state (cycs W xs s) = RUN_TEST_IDLE_STATE \<and> sp_ir (cycs W xs s) = 17 \<and>
    sp_dr (cycs W xs s) = bits_val (bs @ [b]) \<and> sp_ndr (cycs W xs s) = bits_val (bs @ [b]) - bits_val (bs @ [b]) mod 4"
proof -
  from xs obtain r1 r2 r3 ys r4 r5 r6 where x: "xs = [((1, 0), r1), ((0, 0), r2), ((0, 0), r3)] @ ys @ [((1, b), r4), ((1, 0), r5), ((0, 0), r6)]"
    "map fst ys = map (Pair 0) bs"
    by (auto simp: map_eq_append_conv map_eq_Cons_conv)
  let ?s3 = "cycs W [((1, 0), r1), ((0, 0), r2), ((0, 0), r3)] s"
  let ?s4 = "cycs W ys ?s3"
  have s3: "sp_state ?s3 = SHIFT_DR_STATE" "sp_ir ?s3 = 17" "sp_sr ?s3 = r3 * 4"
    using s by (simp_all add: nstate_of_def nsr_value_def)
  have ys: "list_all (\<lambda>x. fst (fst x) = 0) ys" "map (snd \<circ> fst) ys = bs"
  proof -
    have "map fst (map fst ys) = map fst (map (Pair 0) bs)" "map snd (map fst ys) = map snd (map (Pair 0) bs)"
      unfolding x(2) by simp_all
    then show "map (snd \<circ> fst) ys = bs" "list_all (\<lambda>x. fst (fst x) = 0) ys"
      by (simp_all add: comp_def list_all_length list_eq_iff_nth_eq)
  qed
  have s4: "sp_state ?s4 = SHIFT_DR_STATE" "sp_ir ?s4 = 17" "sp_sr ?s4 = shift_in (W + 34) bs (r3 * 4)"
    using shift_dr_cycs [OF s3(1,2) ys(1), of W] s3(3) ys(2) by simp_all
  have r3: "0 \<le> r3" "r3 < 2 ^ 32" using dr x(1) by (simp_all add: drivable_def)
  then have "r3 * 4 < 2 ^ (W + 34)" using power_increasing [of 34 "W + 34" "2 :: int"] by simp
  with r3(1) have "r3 * 4 div 2 ^ (W + 34) = 0" by simp
  then have "shift_in (W + 34) (bs @ [b]) (r3 * 4) = bits_val (bs @ [b])"
    using len by (subst shift_in_value) (simp_all add: add.commute [of W])
  then have "b * 2 ^ (W + 33) + sp_sr ?s4 div 2 = bits_val (bs @ [b])"
    unfolding s4(3) by (simp add: shift_in_def add.commute [of W])
  from access_tail [OF s4(1,2) this, of r4 r5 r6] show ?thesis unfolding x(1) by simp
qed

lemma bit_01: "(v :: int) mod 2 \<in> {0, 1}"
  by (cases "even v") (simp_all add: even_iff_mod_2_eq_zero odd_iff_mod_2_eq_one)

lemma AccessDMIRegSequence_bits:
  assumes "logic_laws L" "0 \<le> addr" "addr < 2 ^ 7" "0 \<le> data" "data < 2 ^ 32"
  shows "\<exists>bs b. AccessDMIRegSequence L addr data w =
      Inr ([(1, 0), (0, 0), (0, 0)] @ map (Pair 0) bs @ [(1, b), (1, 0), (0, 0), (0, 0), (0, 0)]) \<and> length bs = 40 \<and>
    set (bs @ [b]) \<subseteq> {0, 1} \<and> bits_val (bs @ [b]) = (addr * 2 ^ 32 + data) * 4 + of_bool w * 2 + 1"
proof -
  let ?a = "map (\<lambda>i. addr div 2 ^ i mod 2) [0..<7]" and ?d = "map (\<lambda>i. data div 2 ^ i mod 2) [0..<32]"
  let ?bs = "[1, of_bool w] @ ?d @ butlast ?a"
  have a: "la_new L 7 addr = Inr (la_fit L 7 addr)" "rev (la_list L (la_fit L 7 addr)) = ?a"
    "la_new L 32 data = Inr (la_fit L 32 data)" "rev (la_list L (la_fit L 32 data)) = ?d"
    using la_fit_laws [OF assms(1-3)] la_fit_laws [OF assms(1,4,5)] by (simp_all add: la_ops(10) [OF assms(1)] rev_map)
  have part: "map (\<lambda>i. (of_bool (i = length ?a - 1), ?a ! i)) [0..<length ?a] = map (Pair (0::int)) (butlast ?a) @ [(1, last ?a)]"
    by (simp add: upt_rec)
  have "AccessDMIRegSequence L addr data w =
      Inr ([(1, 0), (0, 0), (0, 0)] @ map (Pair 0) ?bs @ [(1, last ?a), (1, 0), (0, 0), (0, 0), (0, 0)])"
    unfolding AccessDMIRegSequence_def a(1,3) bind_py_simps Let_def a(2,4) part by simp
  moreover have "bits_val (?bs @ [last ?a]) = bits_val ([1, of_bool w] @ ?d @ ?a)"
    by (simp add: upt_rec)
  moreover have "bits_val ([1, of_bool w] @ ?d @ ?a) = (addr * 2 ^ 32 + data) * 4 + of_bool w * 2 + 1"
    using bits_val_digits [OF assms(2,3)] bits_val_digits [OF assms(4,5)] by (simp add: bits_val_append del: upt_rec_numeral)
  moreover have "set (?bs @ [last ?a]) \<subseteq> {0, 1}"
  proof -
    have "v mod 2 \<in> {0, 1}" for v :: int by (rule bit_01)
    moreover have "set (butlast ?a) \<subseteq> set ?a" "last ?a \<in> set ?a" by (auto dest: in_set_butlastD simp: upt_rec)
    ultimately show ?thesis by (fastforce simp del: upt_rec_numeral)
  qed
  ultimately show ?thesis by (intro exI [of _ ?bs] exI [of _ "last ?a"]) (simp del: upt_rec_numeral)
qed

lemma low_bits:
  fixes k w r :: int
  assumes "w \<in> {0, 1}" "r \<in> {0, 1}"
  shows "(k * 4 + w * 2 + r) div 4 = k" "(k * 4 + w * 2 + r) div 2 mod 2 = w" "(k * 4 + w * 2 + r) mod 2 = r"
    "(k * 4 + w * 2 + r) mod 4 = w * 2 + r"
proof -
  have c: "0 \<le> w * 2 + r" "w * 2 + r < 4" using assms by auto
  have "(w * 2 + r + k * 4) div 4 = k + (w * 2 + r) div 4" by (rule div_mult_self1) simp
  with c show "(k * 4 + w * 2 + r) div 4 = k" by (simp add: add.commute add.left_commute)
  have "(w * 2 + r + k * 4) mod 4 = (w * 2 + r) mod 4" by (rule mod_mult_self1)
  with c show "(k * 4 + w * 2 + r) mod 4 = w * 2 + r" by (simp add: add.commute add.left_commute)
  have e: "k * 4 + w * 2 + r = r + (k * 2 + w) * 2" by simp
  show "(k * 4 + w * 2 + r) mod 2 = r" unfolding e mod_mult_self1 using assms by auto
  have "(r + (k * 2 + w) * 2) div 2 = (k * 2 + w) + r div 2" by (rule div_mult_self1) simp
  then have "(k * 4 + w * 2 + r) div 2 = w + k * 2" unfolding e using assms by auto
  then show "(k * 4 + w * 2 + r) div 2 mod 2 = w" using assms by auto
qed

lemma ports_in_fields:
  assumes "0 \<le> data" "data < 2 ^ 32" "w \<in> {0, 1}" "r \<in> {0, 1}"
  shows "ports_in ((addr * 2 ^ 32 + data) * 4 + w * 2 + r) = (addr, data, w, r)"
proof -
  let ?v = "(addr * 2 ^ 32 + data) * 4 + w * 2 + r"
  have "?v div 2 ^ 34 = ?v div 4 div 2 ^ 32" by (simp add: zdiv_zmult2_eq [symmetric])
  then have "?v div 2 ^ 34 = addr" unfolding low_bits(1) [OF assms(3,4)] using assms(1,2) by simp
  then show ?thesis unfolding ports_in_def low_bits [OF assms(3,4)] using assms(1,2) by simp
qed

text \<open>
  Remark: a sequence that accesses a register through the debug module interface, started in the idle state with that
  instruction loaded, leads the predictor to expect exactly this access: after the cycle that returns to idle the predicted
  address, data and write enable are those of the sequence and read enable is 1, whatever is in the
  registers before and whatever the design returns; one cycle later both enables are 0 again, and the
  predictor is idle with the same instruction for the next sequence.
\<close>

theorem access_predicted:
  assumes "logic_laws L" "regs_ok L 7 s" "js_state (pr_fsm s) = RUN_TEST_IDLE_STATE" "la_int L (pr_ir s) = DR_EN_1"
    and "0 \<le> addr" "addr < 2 ^ 7" "0 \<le> data" "data < 2 ^ 32"
    and "AccessDMIRegSequence L addr data w = Inr (map fst (xs @ [y, z]))" "list_all drivable (xs @ [y])"
  shows "(\<exists>s'. jtag_cycles L 7 xs s = Inr s' \<and> ports_of L s' = (addr, data, of_bool w, 1)) \<and>
    (\<exists>s'. jtag_cycles L 7 (xs @ [y]) s = Inr s' \<and> ports_of L s' = (addr, data, 0, 0) \<and>
      js_state (pr_fsm s') = RUN_TEST_IDLE_STATE \<and> la_int L (pr_ir s') = DR_EN_1)"
proof -
  obtain bs b where b: "map fst (xs @ [y, z]) = [(1, 0), (0, 0), (0, 0)] @ map (Pair 0) bs @ [(1, b), (1, 0), (0, 0), (0, 0), (0, 0)]"
    "length bs = 40" and v: "bits_val (bs @ [b]) = (addr * 2 ^ 32 + data) * 4 + of_bool w * 2 + 1"
    using AccessDMIRegSequence_bits [OF assms(1,5-8), of w] assms(9) by auto
  from b(1) have xs: "map fst xs = [(1, 0), (0, 0), (0, 0)] @ map (Pair 0) bs @ [(1, b), (1, 0), (0, 0)]" "fst y = (0, 0)"
    by (simp_all add: Cons_eq_append_conv append_eq_Cons_conv flip: append.assoc)
  let ?v = "bits_val (bs @ [b])" and ?sp = "cycs 7 xs (spec_of L s)"
  have sp: "sp_state ?sp = RUN_TEST_IDLE_STATE" "sp_ir ?sp = 17" "sp_dr ?sp = ?v" "sp_ndr ?sp = ?v - ?v mod 4"
    using access_spec [of "spec_of L s" xs bs b 7] assms(3,4,10) xs(1) b(2) by (simp_all add: DR_EN_1_def)
  obtain rd where y: "y = ((0, 0), rd)" using xs(2) by (metis prod.collapse)
  have sp': "sp_state (cycs 7 (xs @ [y]) (spec_of L s)) = RUN_TEST_IDLE_STATE" "sp_ir (cycs 7 (xs @ [y]) (spec_of L s)) = 17"
    "sp_dr (cycs 7 (xs @ [y]) (spec_of L s)) = ?v - ?v mod 4"
    using sp by (simp_all add: y nstate_of_def)
  have bits: "of_bool w \<in> {0, 1 :: int}" "1 \<in> {0, 1 :: int}" by simp_all
  have v0: "?v - ?v mod 4 = (addr * 2 ^ 32 + data) * 4 + 0 * 2 + 0" unfolding v low_bits(4) [OF bits] by simp
  have d: "list_all drivable xs" "xs \<noteq> []" using assms(10) xs(1) by auto
  obtain s1 where s1: "jtag_cycles L 7 xs s = Inr s1" "ports_of L s1 = ports_in ?v"
    using jtag_cycles_refine [OF assms(1) _ assms(2) d(1)] d(2) sp(3) by auto
  obtain s2 where s2: "jtag_cycles L 7 (xs @ [y]) s = Inr s2" "spec_of L s2 = cycs 7 (xs @ [y]) (spec_of L s)"
    "ports_of L s2 = ports_in (?v - ?v mod 4)"
    using jtag_cycles_refine [OF assms(1) _ assms(2,10)] unfolding sp'(3) by auto
  have "js_state (pr_fsm s2) = RUN_TEST_IDLE_STATE" "la_int L (pr_ir s2) = DR_EN_1"
    using sp'(1,2) unfolding s2(2) [symmetric] by (simp_all add: DR_EN_1_def)
  moreover have "ports_in ?v = (addr, data, of_bool w, 1)" unfolding v by (rule ports_in_fields [OF assms(7,8) bits])
  moreover have "ports_in (?v - ?v mod 4) = (addr, data, 0, 0)" unfolding v0 by (rule ports_in_fields [OF assms(7,8)]) simp_all
  ultimately show ?thesis using s1 s2(1,3) by metis
qed

theorem access_predicted_witness:
  "\<exists>xs y z. AccessDMIRegSequence int_logic 0x11 0xDEADBEEF True = Inr (map fst (xs @ [y, z])) \<and>
    (\<exists>s'. jtag_cycles int_logic 7 xs int_idle = Inr s' \<and> ports_of int_logic s' = (0x11, 0xDEADBEEF, 1, 1))"
proof -
  obtain bs b where b: "AccessDMIRegSequence int_logic 0x11 0xDEADBEEF True =
      Inr ([(1, 0), (0, 0), (0, 0)] @ map (Pair 0) bs @ [(1, b), (1, 0), (0, 0), (0, 0), (0, 0)])" "set (bs @ [b]) \<subseteq> {0, 1}"
    using AccessDMIRegSequence_bits [OF int_logic_laws, of "0x11" "0xDEADBEEF" True] by auto
  let ?xs = "map (\<lambda>i. (i, 0 :: int)) ([(1, 0), (0, 0), (0, 0)] @ map (Pair 0) bs @ [(1, b), (1, 0), (0, 0)])"
  let ?y = "((0, 0), 0) :: jtag_item \<times> int"
  have seq: "AccessDMIRegSequence int_logic 0x11 0xDEADBEEF True = Inr (map fst (?xs @ [?y, ?y]))"
    using b(1) by (simp add: comp_def)
  have "list_all drivable (?xs @ [?y])" using b(2) by (auto simp: list_all_iff drivable_def)
  from access_predicted [OF int_logic_laws int_idle_ok _ _ _ _ _ _ seq this]
  have "\<exists>s'. jtag_cycles int_logic 7 ?xs int_idle = Inr s' \<and> ports_of int_logic s' = (0x11, 0xDEADBEEF, of_bool True, 1)"
    by (simp add: int_idle_def int_logic_def DR_EN_1_def)
  with seq show ?thesis by (intro exI [of _ ?xs] exI [of _ ?y]) simp
qed

lemma set_ir_tail:
  assumes "sp_state s = SHIFT_IR_STATE" "0 \<le> sp_sr s" "sp_sr s < 32" "b * 16 + sp_sr s div 2 = instr" "0 \<le> instr" "instr < 32"
  shows "sp_state (cycs W [((1, b), r9), ((1, 0), r10), ((0, 0), r11), ((0, 0), r12), ((0, 0), r13)] s) = RUN_TEST_IDLE_STATE \<and>
    sp_ir (cycs W [((1, b), r9), ((1, 0), r10), ((0, 0), r11), ((0, 0), r12), ((0, 0), r13)] s) = (if instr = 0 then 31 else instr)"
proof -
  define s9 where "s9 = cyc W 1 b r9 s"
  have "sp_sr s div 2 mod 16 = sp_sr s div 2" using assms(2,3) by (intro mod_pos_pos_trivial) auto
  then have s9: "sp_sr s9 = instr" "sp_state s9 = EXIT1_IR_STATE"
    using assms(1,4) by (simp_all add: s9_def nstate_of_def nsr_value_def)
  define s10 where "s10 = cyc W 1 0 r10 s9"
  have s10: "sp_state s10 = UPDATE_IR_STATE" "sp_ir s10 = (if instr = 0 then 31 else instr)"
    using s9 assms(5,6) by (simp_all add: s10_def nstate_of_def cyc_def load_def Let_def nsr_value_def)
  show ?thesis
    using s10 by (simp add: s9_def [symmetric] s10_def [symmetric] nstate_of_def)
qed

lemma set_ir_spec:
  assumes "sp_state s = RUN_TEST_IDLE_STATE" "0 \<le> instr" "instr < 32" "map fst xs = SetIRSequence instr"
  shows "sp_state (cycs W xs s) = RUN_TEST_IDLE_STATE \<and> sp_ir (cycs W xs s) = (if instr = 0 then 31 else instr)"
proof -
  let ?b = "\<lambda>i. instr div 2 ^ i mod 2"
  have bit: "drop_bit n instr AND 1 = ?b n" for n
    using take_bit_eq_mask [of 1 "drop_bit n instr"] by (simp add: take_bit_eq_mod drop_bit_eq_div)
  from assms(4) obtain r1 r2 r3 r4 r5 r6 r7 r8 r9 r10 r11 r12 r13 where
    x: "xs = [((1, 0), r1), ((1, 0), r2), ((0, 0), r3), ((0, 0), r4)] @
      [((0, ?b 0), r5), ((0, ?b 1), r6), ((0, ?b 2), r7), ((0, ?b 3), r8)] @
      [((1, ?b 4), r9), ((1, 0), r10), ((0, 0), r11), ((0, 0), r12), ((0, 0), r13)]"
    unfolding SetIRSequence_def bit by (auto simp: map_eq_Cons_conv)
  define s4 where "s4 = cycs W [((1, 0), r1), ((1, 0), r2), ((0, 0), r3), ((0, 0), r4)] s"
  have s4: "sp_state s4 = SHIFT_IR_STATE" "sp_sr s4 = 1"
    using assms(1) by (simp_all add: s4_def nstate_of_def nsr_value_def)
  let ?x = "[((0, ?b 0), r5), ((0, ?b 1), r6), ((0, ?b 2), r7), ((0, ?b 3), r8)]"
  define s8 where "s8 = cycs W ?x s4"
  have "0 \<le> sp_sr s4" "sp_sr s4 < 32" using s4(2) by simp_all
  moreover have "list_all (\<lambda>x. fst (fst x) = 0 \<and> snd (fst x) \<in> {0, 1}) ?x"
    by (simp only: list.pred_inject fst_conv snd_conv bit_01 simp_thms)
  ultimately have "0 \<le> sp_sr s4" "sp_sr s4 < 32" "list_all (\<lambda>x. fst (fst x) = 0 \<and> snd (fst x) \<in> {0, 1}) ?x" .
  from shift_ir_cycs [OF s4(1) this, of W, folded s8_def]
  have s8: "sp_state s8 = SHIFT_IR_STATE" "0 \<le> sp_sr s8" "sp_sr s8 < 32" "sp_sr s8 = shift_in 5 [?b 0, ?b 1, ?b 2, ?b 3] 1"
    unfolding s4(2) by simp_all
  have e: "map ?b [0..<5] = [?b 0, ?b 1, ?b 2, ?b 3] @ [?b 4]" by (simp add: upt_rec)
  have sh: "shift_in 5 bs 1 = bits_val bs" if "length bs = 5" for bs using that by (simp add: shift_in_value)
  have snoc: "shift_in 5 (bs @ [b]) 1 = b * 16 + shift_in 5 bs 1 div 2" for bs b by (simp add: shift_in_def)
  have "bits_val (map ?b [0..<5]) = instr" using assms(2,3) by (intro bits_val_digits) simp_all
  with sh [of "map ?b [0..<5]"] have "shift_in 5 (map ?b [0..<5]) 1 = instr" by (simp only: length_map length_upt diff_zero)
  then have "?b 4 * 16 + sp_sr s8 div 2 = instr" unfolding e snoc s8(4) .
  from set_ir_tail [OF s8(1-3) this assms(2,3), of W r9 r10 r11 r12 r13]
  show "sp_state (cycs W xs s) = RUN_TEST_IDLE_STATE \<and> sp_ir (cycs W xs s) = (if instr = 0 then 31 else instr)"
    unfolding x s8_def s4_def cycs_simps(3) by (simp only: numeral_One)
qed

text \<open>
  Remark: a sequence that loads an instruction, started in the idle state with any contents of the registers, leaves the
  predictor idle with that instruction; the instruction 0 is replaced by 31.
\<close>

theorem set_ir_predicted:
  assumes "logic_laws L" "0 < W" "regs_ok L W s" "js_state (pr_fsm s) = RUN_TEST_IDLE_STATE" "0 \<le> instr" "instr < 32"
    and "map fst xs = SetIRSequence instr" "list_all drivable xs"
  shows "\<exists>s'. jtag_cycles L W xs s = Inr s' \<and> regs_ok L W s' \<and> js_state (pr_fsm s') = RUN_TEST_IDLE_STATE \<and>
    la_int L (pr_ir s') = (if instr = 0 then 31 else instr)"
  using jtag_cycles_refine [OF assms(1-3,8)] set_ir_spec [OF _ assms(5-7), of "spec_of L s" W] assms(4)
  by (metis spec_of_simps(1,2))

theorem set_ir_predicted_witness:
  "\<exists>s'. jtag_cycles int_logic 7 (map (\<lambda>i. (i, 0)) (SetIRSequence 16)) int_idle = Inr s' \<and> regs_ok int_logic 7 s' \<and>
    js_state (pr_fsm s') = RUN_TEST_IDLE_STATE \<and> la_int int_logic (pr_ir s') = (if 16 = (0 :: int) then 31 else 16)"
  by (rule set_ir_predicted [OF int_logic_laws _ int_idle_ok])
    (simp_all add: int_idle_def SetIRSequence_def drivable_def drop_bit_eq_div)

end
