(* ===== verification/Dmi_Bench.thy ===== *)
theory Dmi_Bench
  imports Axi_To_Ahb Jtag_Regs
begin

text \<open>
  The bench of the debug module interface, \<open>verification/block/dmi\<close>: the two bus functional models
  with their memories (\<open>dmi_bfm.py\<close>, \<open>jtag_bfm.py\<close>), the agents, the scoreboard and the test
  (\<open>testbench.py\<close>). The predictor the models consult is that of \<open>Jtag_Regs\<close>. Signals may be unresolved, as
  in \<open>Axi_To_Ahb\<close>. The truth value of a signal handle, which one condition tests in place of the
  signal's value, belongs to cocotb and is an argument.
\<close>

section \<open>Definitions\<close>

subsection \<open>Memory\<close>

definition DTMCS :: "'l logic_ops \<Rightarrow> 'l py" where
  "DTMCS L = concat_py L (concat_py L (la_new L 2 0) (la_new L 6 7)) (la_new L 4 1)"

type_synonym memory = "int \<rightharpoonup> int"

definition memory_reset :: "'l logic_ops \<Rightarrow> memory py" where
  "memory_reset L = bind_py (JTAG_ID L) (\<lambda>j. bind_py (DTMCS L) (\<lambda>d.
     Inr [0x01 \<mapsto> la_int L j, 0x10 \<mapsto> la_int L d, 0x11 \<mapsto> 0]))"

definition memory_write :: "int \<Rightarrow> int \<Rightarrow> memory \<Rightarrow> memory" where
  "memory_write addr data m = m(addr \<mapsto> data)"

text \<open>\<open>setdefault\<close>: an address read for the first time is entered with 0.\<close>

definition memory_read :: "int \<Rightarrow> memory \<Rightarrow> int \<times> memory" where
  "memory_read addr m = (case m addr of Some v \<Rightarrow> (v, m) | None \<Rightarrow> (0, m(addr \<mapsto> 0)))"

text \<open>
  The memory of \<open>jtag_bfm.py\<close>, which nothing uses: \<open>update\<close> is given a set instead of a dictionary, and \<open>get\<close> is
  indexed instead of called.
\<close>

definition jtag_memory_write :: "int \<Rightarrow> int \<Rightarrow> memory \<Rightarrow> memory py" where
  "jtag_memory_write addr data m = Inl TypeError"

definition jtag_memory_read :: "int \<Rightarrow> memory \<Rightarrow> (int \<times> memory) py" where
  "jtag_memory_read addr m = Inl TypeError"

subsection \<open>Bus functional model of the debug module interface\<close>

record dmi_bfm =
  db_waiting :: bool
  core_mem :: memory
  uncore_mem :: memory

definition DMI_CORE_BOUNDARY :: int where
  "DMI_CORE_BOUNDARY = 0x4F"

definition dmi_start :: "int \<Rightarrow> action list" where
  "dmi_start jtag_id = [Drive ''dmi_core_rdata'' 0, Drive ''dmi_uncore_rdata'' 0, Drive ''uncore_enable'' 0, Drive ''jtag_id'' jtag_id]"

text \<open>The driver takes an item at a falling edge: the value for \<open>uncore_enable\<close>, or an item of another class.\<close>

definition dmi_driver_edge :: "int seq_item option \<Rightarrow> action list" where
  "dmi_driver_edge slot = (case slot of Some (Item v) \<Rightarrow> [Drive ''uncore_enable'' v] | _ \<Rightarrow> [])"

definition SetUncoreEnableSequence :: "int \<Rightarrow> int seq_item list" where
  "SetUncoreEnableSequence v = [Item v]"

text \<open>The read and then the write of one of the two memories at an edge.\<close>

definition serve :: "string \<Rightarrow> xpins \<Rightarrow> memory \<Rightarrow> memory \<times> action list" where
  "serve part p m =
     (let addr = get_int (p (part @ ''_addr''));
          (m1, as) = (if sig_true (p (part @ ''_en'')) then
             (case memory_read addr m of (v, m') \<Rightarrow> (m', [Drive (part @ ''_rdata'') v])) else (m, []))
      in (if sig_true (p (part @ ''_wr_en'')) then memory_write addr (get_int (p (part @ ''_wdata''))) m1 else m1, as))"

text \<open>An item for the scoreboard: read data, expected data, address, enable, predicted enable, and the kind of access.\<close>

type_synonym dmi_item = "(int \<times> int \<times> int \<times> int \<times> int) \<times> string"

definition dmi_values :: "string \<Rightarrow> int \<Rightarrow> xpins \<Rightarrow> int \<times> int \<times> int \<times> int \<times> int" where
  "dmi_values part pen p = (get_int (p ''rd_data''), get_int (p (part @ ''_rdata'')), get_int (p (part @ ''_addr'')),
     get_int (p (part @ ''_en'')), pen)"

definition dmi_report :: "bool \<Rightarrow> int \<Rightarrow> int \<Rightarrow> xpins \<Rightarrow> dmi_item list" where
  "dmi_report handle paddr pen p =
     (if sig_true (p ''dmi_uncore_en'') \<or> sig_true (p ''dmi_core_en'') then
        (if paddr > DMI_CORE_BOUNDARY \<and> handle then [(dmi_values ''dmi_uncore'' pen p, ''uncore'')]
         else [(dmi_values ''dmi_core'' pen p, ''core'')])
      else [])"

text \<open>One edge of the core clock; \<open>paddr\<close> and \<open>pen\<close> are the predictor's \<open>wr_addr\<close> and \<open>rd_en\<close>. The loop waits for the reset to rise
  first, and again after an edge with the reset low.\<close>

definition dmi_edge ::
  "'l logic_ops \<Rightarrow> bool \<Rightarrow> int \<Rightarrow> int \<Rightarrow> xpins \<Rightarrow> dmi_bfm \<Rightarrow> (dmi_bfm \<times> action list \<times> dmi_item list) py" where
  "dmi_edge L handle paddr pen p s =
     (if db_waiting s \<and> p ''core_rst_n'' \<noteq> Some 1 then Inr (s, [], [])
      else bind_py (if sig_true (p ''dmi_hard_reset'') then
            bind_py (memory_reset L) (\<lambda>m. Inr (s\<lparr>core_mem := m, uncore_mem := m\<rparr>)) else Inr s) (\<lambda>s1.
        let (c, as) = serve ''dmi_core'' p (core_mem s1); (u, bs) = serve ''dmi_uncore'' p (uncore_mem s1)
        in Inr (\<lparr>db_waiting = (p ''core_rst_n'' = Some 0), core_mem = c, uncore_mem = u\<rparr>, as @ bs, dmi_report handle paddr pen p)))"

subsection \<open>Bus functional model of the test access port\<close>

definition jtag_reset :: "action list" where
  "jtag_reset = [Await (FallingEdge ''tck''), Drive ''trst_n'' 0, Drive ''tms'' 1, Drive ''tdi'' 0, Await (ClockCycles ''tck'' 10),
     Await (FallingEdge ''tck''), Drive ''trst_n'' 1, Await (FallingEdge ''tck'')]"

definition jtag_driver_start :: "action list" where
  "jtag_driver_start = [Drive ''tms'' 0, Drive ''tdi'' 0]"

definition jtag_driver_edge :: "jtag_item option \<Rightarrow> action list" where
  "jtag_driver_edge slot = (case slot of Some (t, d) \<Rightarrow> [Drive ''tms'' t, Drive ''tdi'' d] | None \<Rightarrow> [])"

text \<open>The request monitor: the pins at each rising edge out of test reset.\<close>

fun jtag_req_monitor :: "bool \<Rightarrow> xpins list \<Rightarrow> jtag_item list" where
  "jtag_req_monitor waiting [] = []"
| "jtag_req_monitor waiting (p # ps) =
     (if waiting \<and> p ''trst_n'' \<noteq> Some 1 then jtag_req_monitor True ps
      else (get_int (p ''tms''), get_int (p ''tdi'')) # jtag_req_monitor (p ''trst_n'' = Some 0) ps)"

text \<open>
  The monitor waits for the reset at the start of a cycle, then for a falling and a rising edge, and lets the
  predictor follow each; the report is the design's output and the predicted one.
\<close>

definition jtag_rsp_cycle ::
  "'l logic_ops \<Rightarrow> nat \<Rightarrow> jtag_pins \<Rightarrow> jtag_pins \<Rightarrow> int \<Rightarrow> int \<Rightarrow> 'l predictor \<Rightarrow> ('l predictor \<times> (int \<times> int) \<times> int \<times> int) py" where
  "jtag_rsp_cycle L W p q tdo tdoEnable s =
     bind_py (predict_jtag_outputs L W Neg p s) (\<lambda>s1. bind_py (predict_jtag_outputs L W Pos q s1) (\<lambda>s2.
       Inr (s2, (tdo, tdoEnable), pr_tdo s2, pr_tdoEnable s2)))"

subsection \<open>Scoreboard\<close>

definition dmi_body :: "dmi_item \<Rightarrow> bool \<Rightarrow> bool py" where
  "dmi_body item passed = (case item of ((read_data, dmi_rdata, dmi_addr, dmi_en, pred_en), dmi_type) \<Rightarrow>
     let passed1 = (if pred_en \<noteq> dmi_en then False else passed)
     in Inr (if dmi_en \<noteq> 0 \<and> read_data \<noteq> dmi_rdata then False else passed1))"

definition jtag_body :: "(int \<times> int) \<times> int \<times> int \<Rightarrow> bool \<Rightarrow> bool py" where
  "jtag_body item passed = (case item of ((tdo, tdoEnable), ptdo, ptdoEnable) \<Rightarrow>
     let passed1 = (if tdo \<noteq> ptdo then False else passed)
     in Inr (if tdoEnable \<noteq> ptdoEnable then False else passed1))"

definition check_dmi :: "('q \<Rightarrow> bool) \<Rightarrow> ('q \<Rightarrow> dmi_item option \<times> 'q) \<Rightarrow> 'q \<Rightarrow> unit py option" where
  "check_dmi can_get try_get port =
     then_py (drain can_get try_get dmi_body port True) (\<lambda>passed. Some (check passed (Inr ())))"

definition check_jtag :: "('q \<Rightarrow> bool) \<Rightarrow> ('q \<Rightarrow> ((int \<times> int) \<times> int \<times> int) option \<times> 'q) \<Rightarrow> 'q \<Rightarrow> unit py option" where
  "check_jtag can_get try_get port =
     then_py (drain can_get try_get jtag_body port True) (\<lambda>passed. Some (check passed (Inr ())))"

definition dmi_check_phase ::
  "('q \<Rightarrow> bool) \<Rightarrow> ('q \<Rightarrow> ((int \<times> int) \<times> int \<times> int) option \<times> 'q) \<Rightarrow> ('r \<Rightarrow> bool) \<Rightarrow> ('r \<Rightarrow> dmi_item option \<times> 'r) \<Rightarrow>
   'q \<Rightarrow> 'r \<Rightarrow> unit py option" where
  "dmi_check_phase can_get_j try_get_j can_get_d try_get_d jtag_port dmi_port =
     then_py (check_jtag can_get_j try_get_j jtag_port) (\<lambda>_. check_dmi can_get_d try_get_d dmi_port)"

subsection \<open>Test\<close>

definition dmi_do_reset :: "string list \<Rightarrow> bool \<Rightarrow> int \<Rightarrow> action list" where
  "dmi_do_reset signals isActiveHigh timeLength =
     map (\<lambda>s. Drive s (of_bool isActiveHigh)) signals @ [Await (Timer timeLength)] @
     map (\<lambda>s. Drive s (of_bool (\<not> isActiveHigh))) signals"

definition dmi_run_phase :: "action list \<Rightarrow> action list" where
  "dmi_run_phase run = dmi_do_reset [''trst_n'', ''core_rst_n''] False 100 @
     Await (ClockCycles ''core_clk'' 2) # run @ [Await (ClockCycles ''core_clk'' 10)]"

section \<open>The scoreboard\<close>

lemma dmi_fold:
  "fold_py dmi_body items passed = Inr (passed \<and> list_all (\<lambda>((rd, exp, a, en, pen), ty). pen = en \<and> (en \<noteq> 0 \<longrightarrow> rd = exp)) items)"
  by (induction items arbitrary: passed) (auto simp: dmi_body_def Let_def)

lemma jtag_fold:
  "fold_py jtag_body items passed = Inr (passed \<and> list_all (\<lambda>(out, exp). out = exp) items)"
  by (induction items arbitrary: passed) (auto simp: jtag_body_def Let_def)

text \<open>
  Remark: the scoreboard of the debug interface passes exactly when every output of the test access port was the
  predicted one and every access had the predicted enable and, when enabled, read the data the memory model answered
  with; otherwise it raises \<open>AssertionError\<close>.
\<close>

theorem dmi_verdict:
  assumes "fifo_port c tg" "fifo_can_get c cg" "fifo_port d th" "fifo_can_get d ch"
  shows "dmi_check_phase cg tg ch th p q =
    Some (if list_all (\<lambda>(out, exp). out = exp) (c p) \<and>
             list_all (\<lambda>((rd, exp, a, en, pen), ty). pen = en \<and> (en \<noteq> 0 \<longrightarrow> rd = exp)) (d q)
          then Inr () else Inl AssertionError)"
  unfolding dmi_check_phase_def check_jtag_def check_dmi_def drain_fold [OF assms(1,2)] drain_fold [OF assms(3,4)] dmi_fold jtag_fold
  by (auto simp: check_def)

theorem dmi_verdict_witness:
  "dmi_check_phase list_can_get list_try_get list_can_get list_try_get [((1, 1), 1, 1)] [((5, 5, 17, 1, 1), ''core'')] = Some (Inr ())"
  using dmi_verdict [OF list_fifo_port list_fifo_can_get list_fifo_port list_fifo_can_get, of "[((1, 1), 1, 1)]"
      "[((5, 5, 17, 1, 1), ''core'')]"] by simp

section \<open>The memories\<close>

text \<open>What a memory answers at an address.\<close>

definition answers :: "memory \<Rightarrow> int \<Rightarrow> int" where
  "answers m a = (case m a of Some v \<Rightarrow> v | None \<Rightarrow> 0)"

definition write_req :: "string \<Rightarrow> xpins \<Rightarrow> (int \<Rightarrow> int) \<Rightarrow> int \<Rightarrow> int" where
  "write_req part p f =
     (if sig_true (p (part @ ''_wr_en'')) then f(get_int (p (part @ ''_addr'')) := get_int (p (part @ ''_wdata''))) else f)"

lemma serve_answers:
  "answers (fst (serve part p m)) = write_req part p (answers m)"
  "snd (serve part p m) = (if sig_true (p (part @ ''_en'')) then [Drive (part @ ''_rdata'') (answers m (get_int (p (part @ ''_addr''))))] else [])"
  by (auto simp: serve_def write_req_def memory_read_def memory_write_def answers_def Let_def fun_eq_iff split: option.splits)

text \<open>Edges with the reset high and no hard reset.\<close>

definition live :: "xpins \<Rightarrow> bool" where
  "live p \<longleftrightarrow> p ''core_rst_n'' = Some 1 \<and> \<not> sig_true (p ''dmi_hard_reset'')"

fun dmi_edges ::
  "'l logic_ops \<Rightarrow> (bool \<times> int \<times> int \<times> xpins) list \<Rightarrow> dmi_bfm \<Rightarrow> (dmi_bfm \<times> action list \<times> dmi_item list) py" where
  "dmi_edges L [] s = Inr (s, [], [])"
| "dmi_edges L ((h, pa, pe, p) # xs) s =
     bind_py (dmi_edge L h pa pe p s) (\<lambda>(s1, as, is1). bind_py (dmi_edges L xs s1) (\<lambda>(s2, bs, is2). Inr (s2, as @ bs, is1 @ is2)))"

lemma dmi_edge_live:
  assumes "live p"
  shows "\<exists>s'. dmi_edge L h pa pe p s = Inr (s', snd (serve ''dmi_core'' p (core_mem s)) @ snd (serve ''dmi_uncore'' p (uncore_mem s)), dmi_report h pa pe p) \<and>
    answers (core_mem s') = write_req ''dmi_core'' p (answers (core_mem s)) \<and>
    answers (uncore_mem s') = write_req ''dmi_uncore'' p (answers (uncore_mem s))"
  using assms serve_answers(1) [of "''dmi_core''" p] serve_answers(1) [of "''dmi_uncore''" p]
  by (auto simp: dmi_edge_def live_def Let_def split: prod.splits) (metis fst_conv)+

lemma dmi_edges_live:
  "list_all (\<lambda>(h, pa, pe, p). live p) xs \<Longrightarrow> \<exists>s' as. dmi_edges L xs s = Inr (s', as, concat (map (\<lambda>(h, pa, pe, p). dmi_report h pa pe p) xs)) \<and>
    answers (core_mem s') = fold (\<lambda>(h, pa, pe, p). write_req ''dmi_core'' p) xs (answers (core_mem s)) \<and>
    answers (uncore_mem s') = fold (\<lambda>(h, pa, pe, p). write_req ''dmi_uncore'' p) xs (answers (uncore_mem s))"
proof (induction xs arbitrary: s)
  case (Cons x xs)
  obtain h pa pe p where x: "x = (h, pa, pe, p)" by (metis prod.exhaust)
  from Cons.prems have "live p" by (simp add: x)
  from dmi_edge_live [OF this, of L h pa pe s] obtain s1 as where s1: "dmi_edge L h pa pe p s = Inr (s1, as, dmi_report h pa pe p)"
    "answers (core_mem s1) = write_req ''dmi_core'' p (answers (core_mem s))"
    "answers (uncore_mem s1) = write_req ''dmi_uncore'' p (answers (uncore_mem s))" by blast
  from Cons.IH [of s1] Cons.prems show ?case by (auto simp: x s1)
qed simp

text \<open>
  Remark: the bus functional model answers accesses like a memory. After any edges with the reset high and no hard reset, an enabled
  read of the core part is answered with the data written last to its address (the contents before the edges, where nothing was
  written), whatever was read meanwhile; the uncore memory is separate and behaves the same way.
\<close>

theorem dmi_memory_answers:
  assumes "list_all (\<lambda>(h, pa, pe, p). live p) xs" "live q" "sig_true (q ''dmi_core_en'')" "sig_true (q ''dmi_uncore_en'')"
  shows "\<exists>s1 s2 as. dmi_edges L xs s = Inr (s1, as, concat (map (\<lambda>(h, pa, pe, p). dmi_report h pa pe p) xs)) \<and>
    dmi_edge L h a e q s1 = Inr (s2,
      [Drive ''dmi_core_rdata'' (fold (\<lambda>(h, pa, pe, p). write_req ''dmi_core'' p) xs (answers (core_mem s)) (get_int (q ''dmi_core_addr''))),
       Drive ''dmi_uncore_rdata'' (fold (\<lambda>(h, pa, pe, p). write_req ''dmi_uncore'' p) xs (answers (uncore_mem s)) (get_int (q ''dmi_uncore_addr'')))],
      dmi_report h a e q)"
proof -
  from dmi_edges_live [OF assms(1), of L s] obtain s1 as where s1:
    "dmi_edges L xs s = Inr (s1, as, concat (map (\<lambda>(h, pa, pe, p). dmi_report h pa pe p) xs))"
    "answers (core_mem s1) = fold (\<lambda>(h, pa, pe, p). write_req ''dmi_core'' p) xs (answers (core_mem s))"
    "answers (uncore_mem s1) = fold (\<lambda>(h, pa, pe, p). write_req ''dmi_uncore'' p) xs (answers (uncore_mem s))" by blast
  with dmi_edge_live [OF assms(2), of L h a e s1] assms(3,4) show ?thesis by (auto simp: serve_answers(2))
qed

theorem dmi_memory_answers_witness:
  "let off = (\<lambda>_. Some 0)(''core_rst_n'' := Some 1);
       w = off(''dmi_core_wr_en'' := Some 1, ''dmi_core_addr'' := Some 0x11, ''dmi_core_wdata'' := Some 0xAB);
       r = off(''dmi_core_en'' := Some 1, ''dmi_core_addr'' := Some 0x11, ''dmi_uncore_en'' := Some 1, ''dmi_uncore_addr'' := Some 0x11)
   in \<exists>s1 s2 as. dmi_edges int_logic [(True, 0, 0, w), (True, 0, 0, off)] \<lparr>db_waiting = True, core_mem = Map.empty, uncore_mem = Map.empty\<rparr> = Inr (s1, as, []) \<and>
     dmi_edge int_logic True 0x11 1 r s1 = Inr (s2, [Drive ''dmi_core_rdata'' 0xAB, Drive ''dmi_uncore_rdata'' 0],
       [((0, 0, 0x11, 1, 1), ''core'')])"
  unfolding Let_def
  using dmi_memory_answers [of "[(True, 0, 0, ((\<lambda>_. Some 0)(''core_rst_n'' := Some 1))(''dmi_core_wr_en'' := Some 1, ''dmi_core_addr'' := Some 0x11,
        ''dmi_core_wdata'' := Some 0xAB)), (True, 0, 0, (\<lambda>_. Some 0)(''core_rst_n'' := Some 1))]"
      "((\<lambda>_. Some 0)(''core_rst_n'' := Some 1))(''dmi_core_en'' := Some 1, ''dmi_core_addr'' := Some 0x11, ''dmi_uncore_en'' := Some 1,
        ''dmi_uncore_addr'' := Some 0x11)" int_logic "\<lparr>db_waiting = True, core_mem = Map.empty, uncore_mem = Map.empty\<rparr>" True "0x11" 1]
  by (simp add: live_def sig_true_def get_int_def write_req_def answers_def dmi_report_def dmi_values_def DMI_CORE_BOUNDARY_def)

section \<open>The accesses of a test\<close>

text \<open>
  The predicted ports after each cycle of a list of items, and the data register that the specification has then.
\<close>

fun jtag_trace :: "'l logic_ops \<Rightarrow> nat \<Rightarrow> (jtag_item \<times> int) list \<Rightarrow> 'l predictor \<Rightarrow> (int \<times> int \<times> int \<times> int) list py" where
  "jtag_trace L W [] s = Inr []"
| "jtag_trace L W (((t, d), rd) # xs) s =
     bind_py (predict_cycle L W \<lparr>tms = t, trst_n = 1, tdi = d, rd_data = rd\<rparr> s) (\<lambda>s'.
     bind_py (jtag_trace L W xs s') (\<lambda>tr. Inr (ports_of L s' # tr)))"

fun drs :: "nat \<Rightarrow> (jtag_item \<times> int) list \<Rightarrow> jtag_spec \<Rightarrow> int list" where
  "drs W [] s = []"
| "drs W (((t, d), rd) # xs) s = sp_ndr s # drs W xs (cyc W t d rd s)"

lemma drs_append [simp]: "drs W (xs @ ys) s = drs W xs s @ drs W ys (cycs W xs s)"
  by (induction W xs s rule: drs.induct) simp_all

lemma jtag_trace_refine:
  assumes L: "logic_laws L" and W: "0 < W"
  shows "regs_ok L W s \<Longrightarrow> list_all drivable xs \<Longrightarrow> jtag_trace L W xs s = Inr (map ports_in (drs W xs (spec_of L s)))"
proof (induction xs arbitrary: s)
  case (Cons x xs)
  obtain t d rd where x: "x = ((t, d), rd)" by (metis prod.exhaust)
  let ?p = "\<lparr>tms = t, trst_n = 1, tdi = d, rd_data = rd\<rparr>"
  have "pins_ok ?p" using Cons.prems(2) by (simp add: x drivable_def pins_ok_def)
  from predict_cycle_spec [OF L Cons.prems(1) this W] obtain s1 where s1: "predict_cycle L W ?p s = Inr s1" "regs_ok L W s1"
    "spec_of L s1 = cyc W t d rd (spec_of L s)" "ports_of L s1 = ports_in (sp_dr (spec_of L s1))"
    by (auto simp del: spec_of_simps)
  with Cons.IH [OF s1(2)] Cons.prems show ?case by (simp add: x del: spec_of_simps)
qed simp

fun path :: "int list \<Rightarrow> JTAGStates \<Rightarrow> JTAGStates list" where
  "path [] st = []"
| "path (t # ts) st = nstate_of t st # path ts (nstate_of t st)"

lemma quiet_drs:
  "sp_ndr s mod 4 = 0 \<Longrightarrow> UPDATE_DR_STATE \<notin> set (path (map (fst \<circ> fst) xs) (sp_state s)) \<Longrightarrow>
   sp_ndr (cycs W xs s) mod 4 = 0 \<and> filter odd (drs W xs s) = []"
proof (induction W xs s rule: drs.induct)
  case (2 W t d rd xs s)
  then have "sp_ndr (cyc W t d rd s) = sp_ndr s" by (auto simp: cyc_ndr(2))
  moreover have "even (sp_ndr s)" using "2.prems"(1) by presburger
  ultimately show ?case using 2 by simp
qed simp

lemma path_shift: "UPDATE_DR_STATE \<notin> set (path (replicate n 0 @ [1]) SHIFT_DR_STATE)"
  by (induction n) (simp_all add: nstate_of_def)

lemma even_of_mod4: "(n :: int) mod 4 = 0 \<Longrightarrow> even n"
  by presburger

lemma map_split:
  assumes "map f xs = ys @ zs"
  obtains us vs where "xs = us @ vs" "map f vs = zs" "map f us = ys"
  using assms by (metis map_eq_append_conv)

lemma access_reads:
  assumes s: "sp_state s = RUN_TEST_IDLE_STATE" "sp_ir s = 17" "sp_ndr s mod 4 = 0"
    and xs: "map fst xs = [(1, 0), (0, 0), (0, 0)] @ map (Pair 0) bs @ [(1, b), (1, 0), (0, 0), (0, 0), (0, 0)]"
    and len: "length bs = W + 33" and dr: "list_all drivable xs" and odd: "odd (bits_val (bs @ [b]))"
  shows "filter odd (drs W xs s) = [bits_val (bs @ [b])] \<and> sp_state (cycs W xs s) = RUN_TEST_IDLE_STATE \<and>
    sp_ir (cycs W xs s) = 17 \<and> sp_ndr (cycs W xs s) mod 4 = 0"
proof -
  let ?v = "bits_val (bs @ [b])"
  have "map fst xs = ([(1, 0), (0, 0), (0, 0)] @ map (Pair 0) bs @ [(1, b)]) @ [(1, 0), (0, 0), (0, 0), (0, 0)]" using xs by simp
  then obtain pre post where p: "xs = pre @ post" "map fst post = [(1, 0), (0, 0), (0, 0), (0, 0)]"
    and pre: "map fst pre = [(1, 0), (0, 0), (0, 0)] @ map (Pair 0) bs @ [(1, b)]"
    by (rule map_split)
  from p(2) obtain r5 r6 r7 r8 where "post = [((1, 0), r5), ((0, 0), r6), ((0, 0), r7), ((0, 0), r8)]"
    by (auto simp: map_eq_Cons_conv)
  with p(1) have x: "xs = (pre @ [((1, 0), r5), ((0, 0), r6)]) @ [((0, 0), r7), ((0, 0), r8)]" by simp
  have "map (fst \<circ> fst) pre = map fst (map fst pre)" by simp
  then have "map (fst \<circ> fst) pre = [1, 0, 0] @ replicate (W + 33) 0 @ [1]" unfolding pre using len by (simp add: comp_def map_replicate_const)
  moreover have "UPDATE_DR_STATE \<notin> set (path ([1, 0, 0] @ replicate (W + 33) 0 @ [1]) RUN_TEST_IDLE_STATE)"
    using path_shift [of "W + 33"] by (simp add: nstate_of_def del: replicate_Suc)
  ultimately have q: "sp_ndr (cycs W pre s) mod 4 = 0" "filter odd (drs W pre s) = []"
    using quiet_drs [OF s(3), of pre W] s(1) by simp_all
  define n where "n = cycs W pre s"
  define m where "m = cyc W 0 0 r6 (cyc W 1 0 r5 n)"
  have mn: "cycs W (pre @ [((1, 0), r5), ((0, 0), r6)]) s = m" by (simp add: m_def n_def)
  have m: "sp_state m = RUN_TEST_IDLE_STATE" "sp_ir m = 17" "sp_dr m = ?v" "sp_ndr m = ?v - ?v mod 4"
    using access_spec [OF s(1,2) _ len, of "pre @ [((1, 0), r5), ((0, 0), r6)]" b, unfolded mn] pre dr by (simp_all add: x)
  have m4: "sp_ndr m mod 4 = 0" unfolding m(4) minus_mod_eq_mult_div by simp
  define m7 where "m7 = cyc W 0 0 r7 m"
  have m7: "sp_state m7 = RUN_TEST_IDLE_STATE" "sp_ir m7 = 17" "sp_ndr m7 = sp_ndr m"
    using m m4 by (simp_all add: m7_def cyc_ndr(2) nstate_of_def)
  have m8: "sp_state (cyc W 0 0 r8 m7) = RUN_TEST_IDLE_STATE" "sp_ir (cyc W 0 0 r8 m7) = 17" "sp_ndr (cyc W 0 0 r8 m7) = sp_ndr m"
    using m7 m4 by (simp_all add: cyc_ndr(2) nstate_of_def)
  have v: "sp_ndr (cyc W 1 0 r5 n) = ?v" using m(3) by (simp add: m_def)
  have "drs W xs s = drs W pre s @ [sp_ndr n, ?v, sp_ndr m, sp_ndr m]" "cycs W xs s = cyc W 0 0 r8 m7"
    unfolding x drs_append cycs_simps drs.simps
    by (simp_all only: n_def [symmetric] m_def [symmetric] m7_def [symmetric] v m7(3) append.assoc append.simps)
  then show ?thesis
    using m8 m4 q odd even_of_mod4 [OF m4] even_of_mod4 [OF q(1)] by (simp add: n_def)
qed

text \<open>The accesses of a test: address, data, and whether it is a write; and the items of their sequences.\<close>

type_synonym access = "int \<times> int \<times> bool"

definition acc_ok :: "access \<Rightarrow> bool" where
  "acc_ok x = (case x of (addr, data, w) \<Rightarrow> 0 \<le> addr \<and> addr < 2 ^ 7 \<and> 0 \<le> data \<and> data < 2 ^ 32)"

fun acc_items :: "'l logic_ops \<Rightarrow> access list \<Rightarrow> jtag_item list py" where
  "acc_items L [] = Inr []"
| "acc_items L ((addr, data, w) # accs) =
     bind_py (AccessDMIRegSequence L addr data w) (\<lambda>items. bind_py (acc_items L accs) (\<lambda>rest. Inr (items @ rest)))"

definition TestDMIReadWriteRegs :: "access list" where
  "TestDMIReadWriteRegs = [(0x10, 0x01234567, True), (0x11, 0xDEADBEEF, True), (0x10, 0, False), (0x11, 0, False)]"

definition TestUncoreDMIReadWriteRegs :: "access list" where
  "TestUncoreDMIReadWriteRegs =
     [(0x11, 0xDEADBEEF, True), (0x7F, 0x76543210, True), (0x11, 0, False), (0x7F, 0, False),
      (0x4F, 0xBEEFDEAD, True), (0x50, 0xFEEDABED, True), (0x4F, 0, False), (0x50, 0, False)]"

definition test_items :: "'l logic_ops \<Rightarrow> access list \<Rightarrow> jtag_item list py" where
  "test_items L accs = bind_py (acc_items L accs) (\<lambda>items. Inr (SetIRSequence DR_EN_1 @ items))"

definition enabled :: "int \<times> int \<times> int \<times> int \<Rightarrow> bool" where
  "enabled x = (case x of (a, d, w, r) \<Rightarrow> r \<noteq> 0)"

lemma enabled_ports: "filter enabled (map ports_in vs) = map ports_in (filter odd vs)"
  by (induction vs) (simp_all add: enabled_def ports_in_def odd_iff_mod_2_eq_one)

lemma acc_items_bits:
  assumes "logic_laws L" "list_all acc_ok accs"
  shows "\<exists>items. acc_items L accs = Inr items \<and> (\<forall>x\<in>set items. snd x \<in> {0, 1})"
  using assms(2)
proof (induction accs)
  case (Cons x accs)
  obtain addr data w where x: "x = (addr, data, w)" by (metis prod.exhaust)
  with Cons.prems have "0 \<le> addr" "addr < 2 ^ 7" "0 \<le> data" "data < 2 ^ 32" by (simp_all add: acc_ok_def)
  from AccessDMIRegSequence_bits [OF assms(1) this, of w] obtain bs b where b: "AccessDMIRegSequence L addr data w =
      Inr ([(1, 0), (0, 0), (0, 0)] @ map (Pair 0) bs @ [(1, b), (1, 0), (0, 0), (0, 0), (0, 0)])" "set (bs @ [b]) \<subseteq> {0, 1}" by blast
  from Cons.IH Cons.prems obtain items where it: "acc_items L accs = Inr items" "\<forall>x\<in>set items. snd x \<in> {0, 1}" by auto
  from b(2) have "\<forall>v\<in>set bs. v \<in> {0, 1}" "b \<in> {0, 1}" by auto
  with it(2) show ?case by (simp add: x b(1) it(1) ball_Un)
qed simp

lemma accesses_read:
  assumes L: "logic_laws L"
  shows "list_all acc_ok accs \<Longrightarrow> sp_state s = RUN_TEST_IDLE_STATE \<Longrightarrow> sp_ir s = 17 \<Longrightarrow> sp_ndr s mod 4 = 0 \<Longrightarrow>
    acc_items L accs = Inr (map fst xs) \<Longrightarrow> list_all drivable xs \<Longrightarrow>
    map ports_in (filter odd (drs 7 xs s)) = map (\<lambda>(a, d, w). (a, d, of_bool w, 1)) accs"
proof (induction accs arbitrary: s xs)
  case (Cons x accs)
  obtain addr data w where x: "x = (addr, data, w)" by (metis prod.exhaust)
  with Cons.prems(1) have r: "0 \<le> addr" "addr < 2 ^ 7" "0 \<le> data" "data < 2 ^ 32" by (simp_all add: acc_ok_def)
  from AccessDMIRegSequence_bits [OF L r, of w] obtain bs b where b: "AccessDMIRegSequence L addr data w =
      Inr ([(1, 0), (0, 0), (0, 0)] @ map (Pair 0) bs @ [(1, b), (1, 0), (0, 0), (0, 0), (0, 0)])" "length bs = 7 + 33"
    "bits_val (bs @ [b]) = (addr * 2 ^ 32 + data) * 4 + of_bool w * 2 + 1" by auto
  from acc_items_bits [OF L, of accs] Cons.prems(1) obtain rest where rest: "acc_items L accs = Inr rest" by auto
  have "map fst xs = ([(1, 0), (0, 0), (0, 0)] @ map (Pair 0) bs @ [(1, b), (1, 0), (0, 0), (0, 0), (0, 0)]) @ rest"
    using Cons.prems(5) by (simp add: x b(1) rest)
  then obtain ys zs where yz: "xs = ys @ zs" "map fst zs = rest"
    "map fst ys = [(1, 0), (0, 0), (0, 0)] @ map (Pair 0) bs @ [(1, b), (1, 0), (0, 0), (0, 0), (0, 0)]"
    by (rule map_split)
  have d: "list_all drivable ys" "list_all drivable zs" using Cons.prems(6) yz(1) by simp_all
  have "odd (bits_val (bs @ [b]))" unfolding b(3) by simp
  note y = access_reads [OF Cons.prems(2-4) yz(3) b(2) d(1) this]
  have "ports_in (bits_val (bs @ [b])) = (addr, data, of_bool w, 1)"
    unfolding b(3) by (rule ports_in_fields [OF r(3,4)]) simp_all
  with Cons.IH [of "cycs 7 ys s" zs] Cons.prems(1) d(2) rest y yz(1,2) show ?case by (simp add: x)
qed simp

lemma set_ir_quiet:
  assumes "sp_state s = RUN_TEST_IDLE_STATE" "sp_ndr s mod 4 = 0" "map fst xs = SetIRSequence instr"
  shows "sp_ndr (cycs W xs s) mod 4 = 0 \<and> filter odd (drs W xs s) = []"
proof -
  have "map (fst \<circ> fst) xs = map fst (map fst xs)" by simp
  also have "\<dots> = [1, 1, 0, 0, 0, 0, 0, 0, 1, 1, 0, 0, 0]" unfolding assms(3) by (simp add: SetIRSequence_def)
  finally show ?thesis using assms(1) by (intro quiet_drs [OF assms(2)]) (simp add: nstate_of_def)
qed



end
