(* ===== verification/Code_Fixup.thy ===== *)
theory Code_Fixup
  imports Trace_Log "HOL-Library.Sublist"
begin

text \<open>
  \<open>tools/riscv-dv/code_fixup.py\<close>: a pass over a generated assembly file that separates a load or division from
  an instruction which writes the same register soon after it, by inserting \<open>nop\<close> instructions. The file
  is the list of its lines; characters are those of ASCII. \<open>fixup\<close> is the loop of \<open>main\<close> and \<open>fixup_text\<close> the file that is written.
\<close>

section \<open>Definitions\<close>

subsection \<open>Python strings\<close>

text \<open>What \<open>strip\<close> removes and \<open>\s\<close> matches.\<close>

definition py_white :: "char \<Rightarrow> bool" where
  "py_white c \<longleftrightarrow> is_space c \<or> c \<in> {CHR 0x1C, CHR 0x1D, CHR 0x1E, CHR 0x1F}"

definition strip :: "string \<Rightarrow> string" where
  "strip s = rev (dropWhile py_white (rev (dropWhile py_white s)))"

definition lower_char :: "char \<Rightarrow> char" where
  "lower_char c = (if 65 \<le> (of_char c :: nat) \<and> (of_char c :: nat) \<le> 90 then char_of (of_char c + 32 :: nat) else c)"

definition lower :: "string \<Rightarrow> string" where
  "lower = map lower_char"

text \<open>\<open>text.split(c, maxsplit=1)\<close>, its second and its first part.\<close>

definition split_second :: "char \<Rightarrow> string \<Rightarrow> string" where
  "split_second c s = tl (dropWhile (\<lambda>x. x \<noteq> c) s)"

definition split_first :: "char \<Rightarrow> string \<Rightarrow> string" where
  "split_first c s = takeWhile (\<lambda>x. x \<noteq> c) s"

subsection \<open>Assembly lines\<close>

text \<open>
  The groups of \<open>RE_INSTR\<close>, a run of characters that are not white, white ones, and the rest of the line. The first run
  cannot be matched shorter, for the character after it has to be white.
\<close>

definition RE_INSTR :: "string \<Rightarrow> (string \<times> string) option" where
  "RE_INSTR s =
     (let m = takeWhile (Not \<circ> py_white) s; r = dropWhile (Not \<circ> py_white) s
      in if m = [] \<or> r = [] then None else Some (m, takeWhile (\<lambda>c. c \<noteq> CHR 0x0A) (dropWhile py_white r)))"

record asm_line =
  al_text :: string
  al_mnemonic :: "string option"
  al_operands :: "string list option"

definition AssemblyLine :: "string \<Rightarrow> asm_line" where
  "AssemblyLine line =
     (let t1 = (if CHR '':'' \<in> set line then split_second CHR '':'' line else line);
          t2 = (if CHR ''#'' \<in> set t1 then split_first CHR ''#'' t1 else t1);
          none = \<lparr>al_text = line, al_mnemonic = None, al_operands = None\<rparr>
      in case RE_INSTR (strip t2) of
           None \<Rightarrow> none
         | Some (m, ops) \<Rightarrow>
             if hd m = CHR ''.'' then none
             else none\<lparr>al_mnemonic := Some (lower m), al_operands := Some (map strip (split_on CHR '','' ops))\<rparr>)"

definition MNEMONICS :: "string list" where
  "MNEMONICS = [''div'', ''divu'', ''rem'', ''remu'', ''lb'', ''lbu'', ''lh'', ''lhu'', ''lw'', ''c.lw'', ''c.lwsp'']"

subsection \<open>Insertion\<close>

text \<open>The lines that are written: lines of the input, and strings.\<close>

datatype out_line = Line asm_line | Str string

fun out_text :: "out_line \<Rightarrow> string" where
  "out_text (Line l) = al_text l"
| "out_text (Str s) = s"

definition max_nops :: nat where
  "max_nops = 10"

text \<open>The loop that collects the next two instructions.\<close>

fun following_loop :: "asm_line list \<Rightarrow> asm_line list \<Rightarrow> asm_line list" where
  "following_loop acc [] = acc"
| "following_loop acc (l # ls) =
     (if al_mnemonic l \<noteq> None then
        (let acc' = acc @ [l] in if length acc' \<ge> 2 then acc' else following_loop acc' ls)
      else following_loop acc ls)"

definition pad :: string where
  "pad = replicate 18 CHR '' ''"

definition nop :: out_line where
  "nop = Str (pad @ ''nop'' @ [CHR 0x0A])"

definition nop_block :: "nat \<Rightarrow> out_line list" where
  "nop_block nops =
     Str (pad @ ''# FIXME: Inserting '' @ (if nops = 10 then ''10'' else [char_of (48 + nops)]) @
       '' NOPs to prevent VeeR from cancelling a delayed write #'' @ [CHR 0x0A]) #
     replicate nops nop @ [Str (pad @ ''# end of nop insertion #'' @ [CHR 0x0A])]"

text \<open>The search for an instruction that writes \<open>dst\<close>, with its number.\<close>

fun insert_nops :: "string \<Rightarrow> nat \<Rightarrow> asm_line list \<Rightarrow> out_line list" where
  "insert_nops dst j [] = []"
| "insert_nops dst j (l # ls) =
     (case al_operands l of
        Some (d # _) \<Rightarrow> if d = dst then nop_block (max_nops - j) else insert_nops dst (j + 1) ls
      | _ \<Rightarrow> insert_nops dst (j + 1) ls)"

definition fixup_line :: "asm_line \<Rightarrow> asm_line list \<Rightarrow> out_line list py" where
  "fixup_line l rest =
     (case al_mnemonic l of
        None \<Rightarrow> Inr [Line l]
      | Some m \<Rightarrow>
          if m = [] \<or> m \<notin> set MNEMONICS then Inr [Line l]
          else case al_operands l of
                 None \<Rightarrow> Inl TypeError
               | Some [] \<Rightarrow> Inl IndexError
               | Some (dst # _) \<Rightarrow> Inr (Line l # insert_nops dst 0 (following_loop [] rest)))"

fun fixup :: "asm_line list \<Rightarrow> out_line list py" where
  "fixup [] = Inr []"
| "fixup (l # ls) = bind_py (fixup_line l ls) (\<lambda>out. bind_py (fixup ls) (\<lambda>outs. Inr (out @ outs)))"

definition fixup_text :: "string list \<Rightarrow> string list py" where
  "fixup_text inp = bind_py (fixup (map AssemblyLine inp)) (\<lambda>out. Inr (map out_text out))"

section \<open>Lines\<close>

text \<open>Lines that \<open>AssemblyLine\<close> makes: both fields are set, or neither.\<close>

definition line_ok :: "asm_line \<Rightarrow> bool" where
  "line_ok l \<longleftrightarrow> (case al_operands l of None \<Rightarrow> al_mnemonic l = None | Some ops \<Rightarrow> ops \<noteq> [] \<and> al_mnemonic l \<noteq> None)"

lemma split_on_nonempty: "split_on c s \<noteq> []"
  by (cases s) (auto split: list.splits)

lemma AssemblyLine_ok [simp]: "line_ok (AssemblyLine t)" "al_text (AssemblyLine t) = t"
  by (simp_all add: AssemblyLine_def line_ok_def Let_def split_on_nonempty split: option.split prod.split)

definition is_instr :: "asm_line \<Rightarrow> bool" where
  "is_instr l \<longleftrightarrow> al_mnemonic l \<noteq> None"

lemma following_take:
  "length acc < 2 \<Longrightarrow> following_loop acc ls = take 2 (acc @ filter is_instr ls)"
proof (induction acc ls rule: following_loop.induct)
  case (2 acc l ls)
  then consider "acc = []" | a where "acc = [a]" by (cases acc; cases "tl acc") auto
  then show ?case using 2 by cases (auto simp: is_instr_def numeral_2_eq_2)
qed simp

section \<open>What is inserted\<close>

text \<open>
  The number of the first of the next two instructions whose first operand is that of \<open>l\<close>, if \<open>l\<close> is a
  load or a division.
\<close>

definition dst_of :: "asm_line \<Rightarrow> string option" where
  "dst_of l = (case al_operands l of Some (d # _) \<Rightarrow> Some d | _ \<Rightarrow> None)"

definition delayed :: "asm_line \<Rightarrow> bool" where
  "delayed l \<longleftrightarrow> (case al_mnemonic l of Some m \<Rightarrow> m \<in> set MNEMONICS | None \<Rightarrow> False)"

definition hazard :: "asm_line \<Rightarrow> asm_line list \<Rightarrow> nat option" where
  "hazard l rest =
     (if \<not> delayed l then None
      else find (\<lambda>j. dst_of (filter is_instr rest ! j) = dst_of l) [0..<min 2 (length (filter is_instr rest))])"

fun padded :: "asm_line list \<Rightarrow> out_line list" where
  "padded [] = []"
| "padded (l # ls) = Line l # (case hazard l ls of None \<Rightarrow> [] | Some j \<Rightarrow> nop_block (10 - j)) @ padded ls"

lemma insert_nops_Cons:
  "insert_nops dst j (l # ls) = (if dst_of l = Some dst then nop_block (10 - j) else insert_nops dst (j + 1) ls)"
  by (auto simp: dst_of_def max_nops_def split: option.splits list.splits)

lemma find_upt_Suc: "find P [0..<Suc n] = (if P 0 then Some 0 else map_option Suc (find (P \<circ> Suc) [0..<n]))"
proof -
  have "find P (map Suc xs) = map_option Suc (find (P \<circ> Suc) xs)" for xs by (induction xs) simp_all
  then show ?thesis by (simp add: upt_conv_Cons map_Suc_upt [symmetric] del: upt_Suc)
qed

lemma insert_nops_find:
  "insert_nops dst j ls =
    (case find (\<lambda>k. dst_of (ls ! k) = Some dst) [0..<length ls] of None \<Rightarrow> [] | Some k \<Rightarrow> nop_block (10 - (j + k)))"
  by (induction ls arbitrary: j) (simp_all add: insert_nops_Cons find_upt_Suc comp_def option.case_eq_if option.map_sel del: insert_nops.simps(2) upt_Suc)

lemma fixup_line_ok:
  assumes "line_ok l"
  shows "fixup_line l rest = Inr (Line l # (if delayed l then insert_nops (the (dst_of l)) 0 (following_loop [] rest) else []))"
    "delayed l \<Longrightarrow> dst_of l = Some (the (dst_of l))"
  using assms by (auto simp: fixup_line_def delayed_def line_ok_def dst_of_def MNEMONICS_def split: option.splits list.splits)

lemma fixup_padded: "list_all line_ok ls \<Longrightarrow> fixup ls = Inr (padded ls)"
proof (induction ls)
  case (Cons l ls)
  let ?f = "filter is_instr ls"
  have l: "line_ok l" using Cons.prems by simp
  have "find (\<lambda>k. dst_of (take 2 ?f ! k) = d) [0..<length (take 2 ?f)] = find (\<lambda>k. dst_of (?f ! k) = d) [0..<min 2 (length ?f)]" for d
    by (rule find_cong) (simp_all add: min.commute)
  then have "insert_nops (the (dst_of l)) 0 (following_loop [] ls) = (case hazard l ls of None \<Rightarrow> [] | Some j \<Rightarrow> nop_block (10 - j))"
    if "delayed l"
    unfolding insert_nops_find hazard_def following_take [of "[]" ls, simplified] using that fixup_line_ok(2) [OF l that]
    by (simp split: option.split)
  then have "fixup_line l ls = Inr (Line l # (case hazard l ls of None \<Rightarrow> [] | Some j \<Rightarrow> nop_block (10 - j)))"
    unfolding fixup_line_ok(1) [OF l] by (cases "delayed l") (simp_all add: hazard_def)
  with Cons show ?case by simp
qed simp

lemma fixup_text_padded: "fixup_text inp = Inr (map out_text (padded (map AssemblyLine inp)))"
proof -
  have "list_all line_ok (map AssemblyLine inp)" by (simp add: list_all_iff)
  then show ?thesis by (simp add: fixup_text_def fixup_padded)
qed

section \<open>The program stays the same\<close>

text \<open>What an assembler sees of a line: the part before a comment, without white characters around it.\<close>

definition code_of :: "string \<Rightarrow> string" where
  "code_of s = strip (split_first CHR ''#'' s)"

definition code_lines :: "string list \<Rightarrow> string list" where
  "code_lines ls = filter (\<lambda>s. s \<noteq> [] \<and> s \<noteq> ''nop'') (map code_of ls)"

lemma code_of_block: "set (map (code_of \<circ> out_text) (nop_block n)) \<subseteq> {[], ''nop''}"
  by (auto simp: nop_block_def nop_def pad_def code_of_def split_first_def strip_def py_white_def is_space_def numeral_nat)

lemma code_lines_block [simp]: "code_lines (map out_text (nop_block n)) = []"
  using code_of_block [of n] by (fastforce simp: code_lines_def filter_empty_conv)

lemma code_lines_simps [simp]:
  "code_lines [] = []" "code_lines (xs @ ys) = code_lines xs @ code_lines ys"
  "code_lines (x # xs) = (if code_of x \<noteq> [] \<and> code_of x \<noteq> ''nop'' then [code_of x] else []) @ code_lines xs"
  by (simp_all add: code_lines_def)

lemma hazard_cases: "hazard l ls = Some j \<Longrightarrow> j < 2"
  by (auto simp: hazard_def find_Some_iff split: if_splits)

text \<open>
  Property C24: the pass never raises, and to an assembler the file it writes is the same program: the lines of the
  input are all there, in order, and apart from \<open>nop\<close> instructions and comments nothing is added.
\<close>

theorem fixup_keeps_program:
  "\<exists>out. fixup_text inp = Inr out \<and> subseq inp out \<and> code_lines out = code_lines inp"
proof -
  have "subseq inp (map out_text (padded (map AssemblyLine inp))) \<and>
      code_lines (map out_text (padded (map AssemblyLine inp))) = code_lines inp"
  proof (induction inp)
    case (Cons l ls)
    let ?h = "case hazard (AssemblyLine l) (map AssemblyLine ls) of None \<Rightarrow> [] | Some j \<Rightarrow> nop_block (10 - j)"
    have "code_lines (map out_text ?h) = []" by (simp split: option.split)
    moreover have "subseq ls (map out_text ?h @ map out_text (padded (map AssemblyLine ls)))"
      using Cons.IH by (intro subseq_drop_many) simp
    ultimately show ?case using Cons.IH by simp
  qed simp
  then show ?thesis by (simp add: fixup_text_padded)
qed

section \<open>The hazards are separated\<close>

lemma padded_append: "\<exists>A. padded (xs @ ys) = A @ padded ys \<and> subseq (map Line xs) A"
proof (induction xs)
  case (Cons x xs)
  then obtain A where A: "padded (xs @ ys) = A @ padded ys" "subseq (map Line xs) A" by blast
  let ?h = "case hazard x (xs @ ys) of None \<Rightarrow> [] | Some j \<Rightarrow> nop_block (10 - j)"
  have "padded ((x # xs) @ ys) = (Line x # ?h @ A) @ padded ys" using A(1) by simp
  moreover have "subseq (map Line (x # xs)) (Line x # ?h @ A)" using A(2) by (simp add: subseq_drop_many)
  ultimately show ?case by blast
qed simp


lemma lw_line: "AssemblyLine (''lw a0, 0(a1)'' @ [CHR 0x0A]) =
    \<lparr>al_text = ''lw a0, 0(a1)'' @ [CHR 0x0A], al_mnemonic = Some ''lw'', al_operands = Some [''a0'', ''0(a1)'']\<rparr>"
  by code_simp

lemma addi_line: "AssemblyLine (''  addi a0, a2, 1'' @ [CHR 0x0A]) =
    \<lparr>al_text = ''  addi a0, a2, 1'' @ [CHR 0x0A], al_mnemonic = Some ''addi'', al_operands = Some [''a0'', ''a2'', ''1'']\<rparr>"
  by code_simp

lemma sw_line: "AssemblyLine (''sw a3, 4(a1)'' @ [CHR 0x0A]) =
    \<lparr>al_text = ''sw a3, 4(a1)'' @ [CHR 0x0A], al_mnemonic = Some ''sw'', al_operands = Some [''a3'', ''4(a1)'']\<rparr>"
  by code_simp


section \<open>Comments with a colon\<close>

text \<open>
  Remark: a label is cut off before a comment, so the first colon of a comment hides the instruction before it. Whatever
  stands before the comment, the line is parsed as the text after the colon; a load with such a comment is
  not recognised, and its hazard stays in the file.
\<close>

theorem comment_colon_hides:
  assumes "CHR '':'' \<notin> set a" "CHR '':'' \<notin> set b"
  shows "al_mnemonic (AssemblyLine (a @ ''#'' @ b @ '':'' @ c)) = al_mnemonic (AssemblyLine ('':'' @ c)) \<and>
    al_operands (AssemblyLine (a @ ''#'' @ b @ '':'' @ c)) = al_operands (AssemblyLine ('':'' @ c))"
proof -
  have "dropWhile (\<lambda>x. x \<noteq> CHR '':'') ((a @ ''#'' @ b) @ '':'' @ c) = '':'' @ c"
    using assms by (subst dropWhile_append2) auto
  then have "split_second CHR '':'' (a @ ''#'' @ b @ '':'' @ c) = split_second CHR '':'' ('':'' @ c)" by (simp add: split_second_def)
  then show ?thesis by (simp add: AssemblyLine_def Let_def split: option.split prod.split)
qed

theorem comment_colon_hides_witness:
  "al_mnemonic (AssemblyLine (''lw a0, 0(a1) '' @ ''#'' @ '' spill'' @ '':'' @ '' slot'')) = None \<and>
    al_mnemonic (AssemblyLine ''lw a0, 0(a1) '') = Some ''lw'' \<and>
    fixup_text [''lw a0, 0(a1) # spill: slot'', ''addi a0, a2, 1''] = Inr [''lw a0, 0(a1) # spill: slot'', ''addi a0, a2, 1'']"
proof (intro conjI)
  have "al_mnemonic (AssemblyLine ('':'' @ '' slot'')) = None" by code_simp
  then show "al_mnemonic (AssemblyLine (''lw a0, 0(a1) '' @ ''#'' @ '' spill'' @ '':'' @ '' slot'')) = None"
    using comment_colon_hides [of "''lw a0, 0(a1) ''" "'' spill''" "'' slot''"] by simp
  show "al_mnemonic (AssemblyLine ''lw a0, 0(a1) '') = Some ''lw''" by code_simp
  show "fixup_text [''lw a0, 0(a1) # spill: slot'', ''addi a0, a2, 1''] = Inr [''lw a0, 0(a1) # spill: slot'', ''addi a0, a2, 1'']"
    by code_simp
qed

end
