(* ===== verification/Ifu_Compress.thy ===== *)
theory Ifu_Compress
  imports Pic Bin_Str Trace_Log
begin

text \<open>
  The bench of the instruction decompressor, \<open>verification/block/ifu_compress/testbench.py\<close>: random pairs of a compressed
  instruction and its expansion as assembly text, the cache of their opcodes, driver, monitor and scoreboard.

  The opcodes come from an external assembler; \<open>listing asm ext\<close> stands for what its command prints for a line of assembly. The
  monitor makes its items of the handles of the two signals and not of their values, so a value is only
  read when the scoreboard looks at the item: \<open>val s\<close> is the text of signal \<open>s\<close> at that time.
\<close>

section \<open>Definitions\<close>

subsection \<open>Opcodes\<close>

fun hex_char :: "char \<Rightarrow> int option" where
  "hex_char c = (let n = of_char c :: nat in
     if 48 \<le> n \<and> n \<le> 57 then Some (int n - 48)
     else if 65 \<le> n \<and> n \<le> 70 then Some (int n - 55)
     else if 97 \<le> n \<and> n \<le> 102 then Some (int n - 87) else None)"

text \<open>\<open>int(s, 16)\<close> for a word of the listing.\<close>

definition py_int16 :: "string \<Rightarrow> int py" where
  "py_int16 s = (if s = [] \<or> None \<in> set (map hex_char s) then Inl ValueError
     else Inr (foldl (\<lambda>v c. 16 * v + the (hex_char c)) 0 s))"

text \<open>\<open>textwrap.wrap(s, 2)\<close> for a word.\<close>

fun wrap2 :: "string \<Rightarrow> string list" where
  "wrap2 (a # b # s) = [a, b] # wrap2 s"
| "wrap2 [a] = [[a]]"
| "wrap2 [] = []"

definition get_opcode :: "(string \<Rightarrow> string \<Rightarrow> string) \<Rightarrow> string \<Rightarrow> string \<Rightarrow> nat \<Rightarrow> string py" where
  "get_opcode listing asm_line ext sz =
     (let cols = split_ws (listing asm_line ext) in
      if length cols \<le> 2 then Inl IndexError
      else let out = concat (rev (wrap2 (cols ! 2))) in
        if length out \<noteq> sz div 4 then Inl AssertionError
        else bind_py (py_int16 out) (\<lambda>v. Inr (fmt_b sz v)))"

subsection \<open>Instruction pairs\<close>

record pair_draw =
  pd_dreg :: nat
  pd_sreg :: nat
  pd_imm :: nat
  pd_sgn :: string
  pd_choice :: nat

definition or_1 :: "nat \<Rightarrow> nat" where
  "or_1 n = (if n = 0 then 1 else n)"

definition asm_pairs :: "pair_draw \<Rightarrow> (string \<times> string) list" where
  "asm_pairs r =
     (let d = ''x'' @ str_nat (pd_dreg r); s = ''x'' @ str_nat (pd_sreg r); i = str_nat (pd_imm r mod 5);
          j = str_nat (or_1 (pd_imm r mod 5)); n = pd_sgn r
      in [(''c.add '' @ d @ '', '' @ s, ''add '' @ d @ '', '' @ d @ '', '' @ s),
          (''c.or '' @ d @ '', '' @ s, ''or '' @ d @ '', '' @ d @ '', '' @ s),
          (''c.xor '' @ d @ '', '' @ s, ''xor '' @ d @ '', '' @ d @ '', '' @ s),
          (''c.sub '' @ d @ '', '' @ s, ''sub '' @ d @ '', '' @ d @ '', '' @ s),
          (''c.mv '' @ d @ '', '' @ s, ''add '' @ d @ '', x0, '' @ s),
          (''c.andi '' @ d @ '', '' @ n @ i, ''andi '' @ d @ '', '' @ d @ '', '' @ n @ i),
          (''c.addi '' @ d @ '', '' @ n @ i, ''addi '' @ d @ '', '' @ d @ '', '' @ n @ i),
          (''c.srli '' @ d @ '', '' @ j, ''srli '' @ d @ '', '' @ d @ '', '' @ j),
          (''c.srai '' @ d @ '', '' @ j, ''srai '' @ d @ '', '' @ d @ '', '' @ j),
          (''c.slli '' @ d @ '', '' @ j, ''slli '' @ d @ '', '' @ d @ '', '' @ j),
          (''c.ebreak'', ''ebreak'')])"

definition generate_assembly_pair :: "pair_draw \<Rightarrow> string \<times> string" where
  "generate_assembly_pair r = asm_pairs r ! pd_choice r"

definition draw_ok :: "pair_draw \<Rightarrow> bool" where
  "draw_ok r \<longleftrightarrow> pd_dreg r \<in> {8..<16} \<and> pd_sreg r \<in> {8..<16} \<and> pd_imm r < 2 ^ 11 \<and> pd_sgn r \<in> {''-'', []} \<and> pd_choice r < 11"

subsection \<open>The cache and the sequence\<close>

type_synonym lookup = "string \<rightharpoonup> string"

definition CompressedGenerator_get ::
  "(string \<Rightarrow> string \<Rightarrow> string) \<Rightarrow> pair_draw \<Rightarrow> lookup \<Rightarrow> (string \<times> lookup) py" where
  "CompressedGenerator_get listing r lookup =
     (let (asm_com, asm_dec) = generate_assembly_pair r in
      bind_py (get_opcode listing asm_com ''rv32ic'' 16) (\<lambda>com.
      bind_py (get_opcode listing asm_dec ''rv32i'' 32) (\<lambda>dec.
        Inr (com, lookup(com \<mapsto> dec)))))"

definition CompressedGenerator_check :: "lookup \<Rightarrow> string \<Rightarrow> string \<Rightarrow> bool py" where
  "CompressedGenerator_check lookup com dec =
     (case lookup com of None \<Rightarrow> Inl AssertionError | Some d \<Rightarrow> Inr (d = dec))"

fun CompressedSequence ::
  "(string \<Rightarrow> string \<Rightarrow> string) \<Rightarrow> pair_draw list \<Rightarrow> lookup \<Rightarrow> (string list \<times> lookup) py" where
  "CompressedSequence listing [] lookup = Inr ([], lookup)"
| "CompressedSequence listing (r # rs) lookup =
     bind_py (CompressedGenerator_get listing r lookup) (\<lambda>(instr, lookup1).
     bind_py (CompressedSequence listing rs lookup1) (\<lambda>(instrs, lookup2). Inr (instr # instrs, lookup2)))"

subsection \<open>Driver, monitor, scoreboard\<close>

text \<open>The item holds the instruction as binary digits; times are in nanoseconds.\<close>

definition decompressor_write :: "string \<Rightarrow> action list" where
  "decompressor_write instr = [Drive ''din'' (bin_val instr), Await (Timer 10000)]"

definition decompressor_drive :: "string seq_item \<Rightarrow> action list py" where
  "decompressor_drive it = (case it of Item instr \<Rightarrow> Inr (decompressor_write instr) | OtherItem \<Rightarrow> Inl RuntimeError)"

record instruction_pair_item =
  ip_din :: string
  ip_dout :: string

definition decompressor_monitor :: "nat \<Rightarrow> instruction_pair_item list" where
  "decompressor_monitor n = replicate n \<lparr>ip_din = ''din'', ip_dout = ''dout''\<rparr>"

definition compress_body ::
  "lookup \<Rightarrow> (string \<Rightarrow> string) \<Rightarrow> instruction_pair_item \<Rightarrow> bool option \<Rightarrow> bool option py" where
  "compress_body lookup val item passed =
     (let passed1 = (if passed = None then Some True else passed) in
      bind_py (CompressedGenerator_check lookup (val (ip_din item)) (val (ip_dout item))) (\<lambda>ok.
        Inr (if ok then passed1 else Some False)))"

definition compress_check_phase ::
  "('q \<Rightarrow> bool) \<Rightarrow> ('q \<Rightarrow> instruction_pair_item option \<times> 'q) \<Rightarrow> lookup \<Rightarrow> (string \<Rightarrow> string) \<Rightarrow> 'q \<Rightarrow> bool option py option" where
  "compress_check_phase can_get try_get lookup val port = drain_loop can_get try_get (compress_body lookup val) port None"

section \<open>Opcodes are binary digits of their width\<close>

lemma fmt_b_range: "0 \<le> v \<Longrightarrow> v < 2 ^ w \<Longrightarrow> 0 < w \<Longrightarrow> is_bin (fmt_b w v) \<and> length (fmt_b w v) = w"
  by (auto simp: fmt_b_bits is_bin_def list_all_iff bits_of_def bdigit_def)

lemma py_int16_range:
  assumes "py_int16 s = Inr v"
  shows "0 \<le> v" "v < 16 ^ length s"
proof -
  have "0 \<le> foldl (\<lambda>v c. 16 * v + the (hex_char c)) 0 s \<and> foldl (\<lambda>v c. 16 * v + the (hex_char c)) 0 s < 16 ^ length s"
    if "None \<notin> set (map hex_char s)" using that
  proof (induction s rule: rev_induct)
    case (snoc c s)
    then have "hex_char c \<noteq> None" by auto
    then have "0 \<le> the (hex_char c) \<and> the (hex_char c) < 16" by (auto simp: Let_def split: if_splits)
    moreover from snoc have "0 \<le> foldl (\<lambda>v c. 16 * v + the (hex_char c)) 0 s \<and>
        foldl (\<lambda>v c. 16 * v + the (hex_char c)) 0 s + 1 \<le> 16 ^ length s" by simp
    ultimately show ?case by (simp del: hex_char.simps)
  qed simp
  with assms show "0 \<le> v" "v < 16 ^ length s" by (auto simp: py_int16_def split: if_splits)
qed

lemma get_opcode_16:
  assumes "get_opcode listing line ext 16 = Inr com"
  shows "is_bin com \<and> length com = 16"
proof -
  from assms obtain v out where v: "py_int16 out = Inr v" "length out = 4" "com = fmt_b 16 v"
    by (auto simp: get_opcode_def Let_def bind_py_eq_Inr split: if_splits)
  with py_int16_range [OF v(1)] fmt_b_range [of v 16] show ?thesis by simp
qed

section \<open>The verdict\<close>

text \<open>The opcodes of the two instructions of a draw.\<close>

definition com_of :: "(string \<Rightarrow> string \<Rightarrow> string) \<Rightarrow> pair_draw \<Rightarrow> string py" where
  "com_of listing r = get_opcode listing (fst (generate_assembly_pair r)) ''rv32ic'' 16"

definition dec_of :: "(string \<Rightarrow> string \<Rightarrow> string) \<Rightarrow> pair_draw \<Rightarrow> string py" where
  "dec_of listing r = get_opcode listing (snd (generate_assembly_pair r)) ''rv32i'' 32"

lemma generator_get:
  "CompressedGenerator_get listing r lookup =
     bind_py (com_of listing r) (\<lambda>com. bind_py (dec_of listing r) (\<lambda>dec. Inr (com, lookup(com \<mapsto> dec))))"
  by (simp add: CompressedGenerator_get_def com_of_def dec_of_def split: prod.split)

lemma sequence_last:
  "CompressedSequence listing (rs @ [r]) lookup0 = Inr (cs, lookup) \<Longrightarrow>
   \<exists>cs0 com dec. cs = cs0 @ [com] \<and> com_of listing r = Inr com \<and> dec_of listing r = Inr dec \<and> lookup com = Some dec"
proof (induction rs arbitrary: lookup0 cs)
  case (Cons r' rs)
  from Cons.prems obtain c l1 cs' where c: "CompressedSequence listing (rs @ [r]) l1 = Inr (cs', lookup)" "cs = c # cs'"
    by (auto simp: bind_py_eq_Inr split: prod.splits)
  from Cons.IH [OF c(1)] obtain cs0 com dec where "cs' = cs0 @ [com]" "com_of listing r = Inr com" "dec_of listing r = Inr dec"
    "lookup com = Some dec" by blast
  with c(2) show ?case by (intro exI [of _ "c # cs0"] exI [of _ com] exI [of _ dec]) simp
qed (auto simp: generator_get bind_py_eq_Inr)

lemma driver_last:
  assumes "run_driver decompressor_drive (map Item (cs @ [c])) = (as, e)"
  shows "e = None \<and> pins_after rd as p ''din'' = rd ''din'' (bin_val c)"
  using assms
  by (induction cs arbitrary: as p)
    (auto simp: decompressor_drive_def decompressor_write_def Let_def pins_after_append split: prod.splits)

lemma compress_fold:
  assumes "lookup (val ''din'') = Some dec"
  shows "fold_py (compress_body lookup val) (decompressor_monitor n) None =
    Inr (if n = 0 then None else Some (dec = val ''dout''))"
proof -
  let ?it = "\<lparr>ip_din = ''din'', ip_dout = ''dout''\<rparr>"
  have step: "compress_body lookup val ?it b = Inr (if dec = val ''dout'' then (if b = None then Some True else b) else Some False)" for b
    using assms by (simp add: compress_body_def CompressedGenerator_check_def)
  have "fold_py (compress_body lookup val) (replicate n ?it) (Some (dec = val ''dout'')) = Inr (Some (dec = val ''dout''))" for n
    by (cases "dec = val ''dout''"; induction n) (simp_all add: step)
  then show ?thesis by (cases n; cases "dec = val ''dout''") (simp_all add: decompressor_monitor_def step)
qed

text \<open>
  Remark: the verdict of the decompressor bench. The items hold handles, and the scoreboard reads them when the run is over, so every
  item is judged by the last instruction: however many instructions were driven, the bench passes
  exactly when the monitor made an item and the device expands the last instruction to the opcode the assembler gives for its
  expansion. What the device made of the other instructions plays no part.
\<close>

theorem compress_verdict_last:
  assumes "CompressedSequence listing (rs @ [r]) lookup0 = Inr (cs, lookup)"
    and "run_driver decompressor_drive (map Item cs) = (as, e)"
    and "\<forall>v. 0 \<le> v \<and> v < 2 ^ 16 \<longrightarrow> rd ''din'' v = v"
    and "val ''din'' = fmt_b 16 (pins_after rd as p ''din'')" "val ''dout'' = fmt_b 32 (dut (pins_after rd as p ''din''))"
    and "fifo_port c tg" "fifo_can_get c cg" "c q = decompressor_monitor n"
  shows "\<exists>com dec. com_of listing r = Inr com \<and> dec_of listing r = Inr dec \<and>
    map_option (\<lambda>res. bind_py res final_phase) (compress_check_phase cg tg lookup val q) =
      Some (if 0 < n \<and> fmt_b 32 (dut (bin_val com)) = dec then Inr () else Inl AssertionError)"
proof -
  obtain cs0 com dec where s: "cs = cs0 @ [com]" "com_of listing r = Inr com" "dec_of listing r = Inr dec" "lookup com = Some dec"
    using sequence_last [OF assms(1)] by blast
  have com: "is_bin com" "length com = 16" using s(2) get_opcode_16 by (auto simp: com_of_def)
  then have "pins_after rd as p ''din'' = bin_val com"
    using driver_last [of cs0 com as e rd p] assms(2,3) bin_val_bounds [of com] s(1) by simp
  then have v: "val ''din'' = com" "val ''dout'' = fmt_b 32 (dut (bin_val com))"
    using assms(4,5) fmt_b_bin_val [of com] com by (cases com; simp)+
  then have "compress_check_phase cg tg lookup val q =
      Some (Inr (if n = 0 then None else Some (dec = fmt_b 32 (dut (bin_val com)))))"
    unfolding compress_check_phase_def drain_loop_fold [OF assms(6,7)] assms(8)
    using compress_fold [of lookup val dec n] s(4) by simp
  then show ?thesis using s(2,3) by (auto simp: final_phase_def)
qed

text \<open>A listing for one pair, and a device that expands every instruction to \<open>ebreak\<close>.\<close>

definition ebreak_listing :: "string \<Rightarrow> string \<Rightarrow> string" where
  "ebreak_listing line ext = (if line = ''c.ebreak'' then ''   1 0000 0290  c.ebreak'' else ''   1 0000 73001000  ebreak'')"

definition ebreak_draw :: pair_draw where
  "ebreak_draw = \<lparr>pd_dreg = 8, pd_sreg = 9, pd_imm = 3, pd_sgn = ''-'', pd_choice = 10\<rparr>"

lemma ebreak_columns:
  "split_ws ''   1 0000 0290  c.ebreak'' = [''1'', ''0000'', ''0290'', ''c.ebreak'']"
  "split_ws ''   1 0000 73001000  ebreak'' = [''1'', ''0000'', ''73001000'', ''ebreak'']"
  by (simp_all add: split_ws.simps is_space_def)

lemma ebreak_numbers:
  "py_int16 ''9002'' = Inr 0x9002" "py_int16 ''00100073'' = Inr 0x100073"
  by (simp_all add: py_int16_def)

lemma eleven_zeros: "replicate 11 (CHR ''0'') = ''00000000000''"
  by code_simp

lemma ebreak_digits:
  "fmt_b 16 0x9002 = ''1001000000000010''" "fmt_b 32 0x100073 = ''00000000000100000000000001110011''"
  by (simp_all add: fmt_b_def bin_digits.simps bdigit_def eleven_zeros)

lemma ebreak_pair: "generate_assembly_pair ebreak_draw = (''c.ebreak'', ''ebreak'')"
  by (simp add: generate_assembly_pair_def ebreak_draw_def asm_pairs_def Let_def)

lemma ebreak_opcodes:
  "com_of ebreak_listing ebreak_draw = Inr ''1001000000000010''"
  "dec_of ebreak_listing ebreak_draw = Inr ''00000000000100000000000001110011''"
  by (simp_all add: com_of_def dec_of_def ebreak_pair get_opcode_def ebreak_listing_def ebreak_columns ebreak_numbers ebreak_digits)

theorem compress_verdict_last_witness:
  "map_option (\<lambda>res. bind_py res final_phase)
      (compress_check_phase list_can_get list_try_get [''1001000000000010'' \<mapsto> ''00000000000100000000000001110011'']
        (\<lambda>s. if s = ''din'' then fmt_b 16 0x9002 else fmt_b 32 0x100073) (decompressor_monitor 3)) = Some (Inr ())"
proof -
  have val: "bin_val ''1001000000000010'' = 0x9002" by (simp add: bin_val_def)
  let ?v = "\<lambda>s. if s = ''din'' then fmt_b 16 0x9002 else fmt_b 32 0x100073"
  let ?as = "[Drive ''din'' 0x9002, Await (Timer 10000), ItemDone]"
  have "\<exists>com dec. com_of ebreak_listing ebreak_draw = Inr com \<and> dec_of ebreak_listing ebreak_draw = Inr dec \<and>
      map_option (\<lambda>res. bind_py res final_phase)
        (compress_check_phase list_can_get list_try_get [''1001000000000010'' \<mapsto> ''00000000000100000000000001110011''] ?v (decompressor_monitor 3)) =
      Some (if 0 < (3 :: nat) \<and> fmt_b 32 ((\<lambda>_. 0x100073) (bin_val com)) = dec then Inr () else Inl AssertionError)"
    by (rule compress_verdict_last [where rs = "[]" and ?lookup0.0 = Map.empty and cs = "[''1001000000000010'']" and as = ?as and e = None and
          rd = "\<lambda>s v. v" and p = "\<lambda>_. 0" and c = "\<lambda>xs. xs"])
      (simp_all add: generator_get ebreak_opcodes val decompressor_drive_def decompressor_write_def list_fifo_port list_fifo_can_get fun_eq_iff)
  then show ?thesis using ebreak_opcodes ebreak_digits by auto
qed

end
