(* ===== verification/Core_Benches.thy ===== *)
theory Core_Benches
  imports Pulse_Unit
begin

text \<open>
  Three benches without a scoreboard of their own: the instruction fetch memory controller
  (\<open>verification/block/ifu_mem_ctl/common.py\<close>) with its AXI read responder, the lockstep bench (\<open>verification/block/dcls/testbench.py\<close>), and the
  interrupt bench of the whole core (\<open>verification/top/test_pyuvm/test_irq\<close>). What a coroutine does at an
  edge is a function of the pins it sees there; random numbers are arguments.
\<close>

section \<open>Definitions\<close>

subsection \<open>Instruction fetch memory controller\<close>

definition ICCM_BASE :: int where "ICCM_BASE = 0xEE000000"
definition ICCM_SIZE :: int where "ICCM_SIZE = 0x10000"

text \<open>
  \<open>read_handler\<close>: it waits for the reset, for a request (at most 200 edges), and for the edge that ends its
  answer. After the reset has risen it is ready at once, so the next edge is its first.
\<close>

datatype rd_state = InReset | Waiting nat | Responding

definition rd_wait :: "int \<Rightarrow> pins \<Rightarrow> nat \<Rightarrow> (rd_state \<times> action list) py" where
  "rd_wait d p k =
     (if p ''ifu_axi_arvalid'' \<noteq> 0 then
        Inr (Responding, [Drive ''ifu_axi_arready'' 0, Drive ''ifu_axi_rvalid'' 1, Drive ''ifu_axi_rdata'' d, Drive ''ifu_axi_rresp'' 0])
      else if k + 1 \<ge> 200 then Inl RuntimeError else Inr (Waiting (k + 1), []))"

definition rd_top :: "pins \<Rightarrow> rd_state \<times> action list" where
  "rd_top p = (if p ''rst_l'' = 0 then (InReset, []) else (Waiting 0, [Drive ''ifu_axi_arready'' 1]))"

definition rd_edge :: "int \<Rightarrow> pins \<Rightarrow> rd_state \<Rightarrow> (rd_state \<times> action list) py" where
  "rd_edge d p s = (case s of
     InReset \<Rightarrow> if p ''rst_l'' = 0 then Inr (InReset, [])
       else bind_py (rd_wait d p 0) (\<lambda>(s', as). Inr (s', Drive ''ifu_axi_arready'' 1 # as))
   | Waiting k \<Rightarrow> rd_wait d p k
   | Responding \<Rightarrow> let (s', as) = rd_top p
       in Inr (s', [Drive ''ifu_axi_rvalid'' 0, Drive ''ifu_axi_rdata'' 0, Drive ''ifu_axi_rresp'' 0] @ as))"

definition mem_ctl_reset :: "action list" where
  "mem_ctl_reset = [Drive ''rst_l'' 0, Await (ClockCycles ''clk'' 2), Await (FallingEdge ''clk''), Drive ''rst_l'' 1,
     Await (ClockCycles ''clk'' 2), Drive ''ifu_bus_clk_en'' 1]"

definition mem_ctl_inputs :: "string list" where
  "mem_ctl_inputs =
     [''active_clk'', ''free_l2clk'', ''exu_flush_final'', ''dec_tlu_flush_lower_wb'', ''dec_tlu_flush_err_wb'', ''dec_tlu_i0_commit_cmt'',
      ''dec_tlu_force_halt'', ''ifc_fetch_addr_bf'', ''ifc_fetch_uncacheable_bf'', ''ifc_fetch_req_bf'', ''ifc_fetch_req_bf_raw'', ''ifc_iccm_access_bf'',
      ''ifc_region_acc_fault_bf'', ''ifc_dma_access_ok'', ''dec_tlu_fence_i_wb'', ''ifu_bp_hit_taken_f'', ''ifu_bp_inst_mask_f'', ''ifu_axi_arready'',
      ''ifu_axi_rvalid'', ''ifu_axi_rid'', ''ifu_axi_rdata'', ''ifu_axi_rresp'', ''ifu_bus_clk_en'', ''dma_iccm_req'', ''dma_mem_addr'', ''dma_mem_sz'',
      ''dma_mem_write'', ''dma_mem_wdata'', ''dma_mem_tag'', ''ic_rd_data'', ''ic_rd_addr_lo'', ''ic_rd_bank_check_en'', ''ic_debug_rd_data'',
      ''ictag_debug_rd_data'', ''ic_rd_hit'', ''ic_tag_perr'', ''iccm_rd_data'', ''iccm_rd_data_ecc'', ''ifu_fetch_val'', ''icache_wrdata'',
      ''icache_dicawics'', ''icache_rd_valid'', ''icache_wr_valid'', ''dec_tlu_core_ecc_disable'', ''ifu_pmp_error'', ''scan_mode'']"

definition mem_ctl_initialize :: "action list" where
  "mem_ctl_initialize = map (\<lambda>s. Drive s 0) mem_ctl_inputs @ mem_ctl_reset"

definition mem_ctl_write :: "int \<Rightarrow> int \<Rightarrow> action list" where
  "mem_ctl_write addr wdata =
     [Await (RisingEdge ''clk''), Drive ''dma_iccm_req'' 1, Drive ''dma_mem_addr'' addr, Drive ''dma_mem_write'' 1, Drive ''dma_mem_wdata'' wdata,
      Await (RisingEdge ''clk''), Drive ''dma_iccm_req'' 0, Drive ''dma_mem_addr'' 0, Drive ''dma_mem_write'' 0, Drive ''dma_mem_wdata'' 0]"

definition mem_ctl_read :: "int \<Rightarrow> action list" where
  "mem_ctl_read addr = [Await (RisingEdge ''clk''), Drive ''dma_iccm_req'' 1, Drive ''dma_mem_write'' 0, Drive ''dma_mem_addr'' addr]"

text \<open>The numbers \<open>random.randint\<close> may return.\<close>

definition rand_iccm_addr :: "int set" where
  "rand_iccm_addr = {ICCM_BASE..ICCM_BASE + ICCM_SIZE}"

definition rand_iccm_data :: "int set" where
  "rand_iccm_data = {0..2 ^ 64 - 1}"

definition rand_ifu_addr :: "int set" where
  "rand_ifu_addr = {0..2 ^ 31 - 1}"

definition get_bitflip_mask :: "int \<Rightarrow> int \<Rightarrow> int" where
  "get_bitflip_mask r do_double_bit = push_bit (nat (r mod 37)) 2 OR (2 ^ 40 AND (2 ^ 40 - do_double_bit))"

subsection \<open>Lockstep\<close>

definition MUBI_TRUE :: int where "MUBI_TRUE = 0x6"
definition MUBI_FALSE :: int where "MUBI_FALSE = 0x9"
definition MUBI_WIDTH :: nat where "MUBI_WIDTH = 4"

definition mubi_max :: int where
  "mubi_max = 2 ^ MUBI_WIDTH - 1"

definition dcls_do_reset :: "action list" where
  "dcls_do_reset = [Drive ''rst_l'' 0, Drive ''dbg_rst_l'' 0, Await (ClockCycles ''clk'' 2), Await (FallingEdge ''clk''), Drive ''rst_l'' 1,
     Drive ''dbg_rst_l'' 1, Drive ''disable_corruption_detection_i'' MUBI_FALSE, Drive ''lockstep_err_injection_en_i'' MUBI_FALSE]"

definition dcls_run_phase :: "action list \<Rightarrow> action list" where
  "dcls_run_phase run = dcls_do_reset @ Await (RisingEdge ''clk'') # run @ [Await (ClockCycles ''clk'' 10)]"

subsection \<open>Interrupts\<close>

record irq_item =
  irq_nmi :: int
  irq_soft :: int
  irq_timer :: int
  irq_ext :: int

text \<open>Ten items, each with four draws.\<close>

definition IrqTriggerSeqItem :: "(nat \<Rightarrow> int) \<Rightarrow> nat \<Rightarrow> irq_item" where
  "IrqTriggerSeqItem r i = \<lparr>irq_nmi = r (4 * i), irq_soft = r (4 * i + 1), irq_timer = r (4 * i + 2), irq_ext = r (4 * i + 3)\<rparr>"

definition vIrqSeq :: "(nat \<Rightarrow> int) \<Rightarrow> irq_item list" where
  "vIrqSeq r = map (IrqTriggerSeqItem r) [0..<10]"

definition irq_reset :: "action list" where
  "irq_reset = Await (FallingEdge ''clk'') # map (\<lambda>s. Drive s 0) [''soft_int'', ''timer_int'', ''nmi_int'', ''extintsrc_req''] @
     [Await (FallingEdge ''clk'')]"

text \<open>The item in the driver's queue is driven at a falling edge.\<close>

definition irq_drive_edge :: "irq_item option \<Rightarrow> action list" where
  "irq_drive_edge slot = (case slot of None \<Rightarrow> []
   | Some it \<Rightarrow> [Drive ''soft_int'' (irq_soft it), Drive ''timer_int'' (irq_timer it), Drive ''nmi_int'' (irq_nmi it),
       Drive ''extintsrc_req'' (irq_ext it)])"

definition irq_source :: "pins \<Rightarrow> int \<times> int \<times> int \<times> int" where
  "irq_source p = (p ''soft_int'', p ''timer_int'', p ''nmi_int'', p ''extintsrc_req'')"

text \<open>
  The agent: the items to come, the slot of the queue of size one, whether the driver waits for a trace item, the queue of trace items,
  and the results the driver wrote.
\<close>

record irq_agent =
  iq_todo :: "irq_item list"
  iq_slot :: "irq_item option"
  iq_busy :: bool
  iq_traces :: "int list"
  iq_results :: "int list"

text \<open>The driver runs until it waits: for room in the slot, for a trace item, or for an item.\<close>

function irq_driver :: "irq_agent \<Rightarrow> irq_agent" where
  "irq_driver s =
     (if iq_busy s then
        (case iq_traces s of [] \<Rightarrow> s
         | v # vs \<Rightarrow> irq_driver (s\<lparr>iq_busy := False, iq_traces := vs, iq_results := iq_results s @ [v]\<rparr>))
      else if iq_slot s \<noteq> None then s
      else (case iq_todo s of [] \<Rightarrow> s | it # its \<Rightarrow> irq_driver (s\<lparr>iq_todo := its, iq_slot := Some it, iq_busy := True\<rparr>)))"
  by pat_completeness auto

termination
  by (relation "measure (\<lambda>s. 2 * length (iq_todo s) + of_bool (iq_busy s))") auto

declare irq_driver.simps [simp del]

text \<open>A falling edge: the slot is driven, the pins are sampled as they are before that, and the driver goes on.\<close>

definition irq_edge :: "pins \<Rightarrow> irq_agent \<Rightarrow> irq_agent \<times> action list \<times> (int \<times> int \<times> int \<times> int)" where
  "irq_edge p s =
     (irq_driver (s\<lparr>iq_slot := None, iq_traces := iq_traces s @ [p ''trace_rv_i_interrupt_ip'']\<rparr>), irq_drive_edge (iq_slot s), irq_source p)"

text \<open>The scoreboard reads none of its items.\<close>

definition irq_check_phase :: "'q \<Rightarrow> 'r \<Rightarrow> unit py" where
  "irq_check_phase interrupt_source_port trace_interrupt_port = (let passed = True in if passed then Inr () else Inl AssertionError)"

section \<open>The read responder\<close>

text \<open>
  The pins of the responder before each edge, for edges that show \<open>p\<close> and draws \<open>d\<close>.
\<close>

fun rd_run :: "(string \<Rightarrow> int \<Rightarrow> int) \<Rightarrow> (int \<times> pins) list \<Rightarrow> rd_state \<Rightarrow> pins \<Rightarrow> pins list py" where
  "rd_run rd [] s q = Inr [q]"
| "rd_run rd ((d, p) # es) s q =
     bind_py (rd_edge d p s) (\<lambda>(s', as). bind_py (rd_run rd es s' (pins_after rd as q)) (\<lambda>qs. Inr (q # qs)))"

definition rd_wires :: "(string \<Rightarrow> int \<Rightarrow> int) \<Rightarrow> (int \<times> pins) list \<Rightarrow> bool" where
  "rd_wires rd es \<longleftrightarrow> (\<forall>s\<in>{''ifu_axi_arready'', ''ifu_axi_rvalid''}. rd s 0 = 0 \<and> rd s 1 = 1) \<and>
     list_all (\<lambda>(d, p). rd ''ifu_axi_rdata'' d = d) es"

definition rd_visible :: "rd_state \<Rightarrow> pins \<Rightarrow> bool" where
  "rd_visible s q \<longleftrightarrow> (case s of InReset \<Rightarrow> False
   | Waiting _ \<Rightarrow> q ''ifu_axi_arready'' = 1 \<and> q ''ifu_axi_rvalid'' = 0
   | Responding \<Rightarrow> q ''ifu_axi_arready'' = 0 \<and> q ''ifu_axi_rvalid'' = 1)"

definition handshake :: "pins \<Rightarrow> pins \<Rightarrow> bool" where
  "handshake q p \<longleftrightarrow> q ''ifu_axi_arready'' \<noteq> 0 \<and> p ''ifu_axi_arvalid'' \<noteq> 0"

lemma rd_edge_visible:
  assumes "rd_wires rd ((d, p) # es)" "p ''rst_l'' \<noteq> 0" "rd_visible s q" "rd_edge d p s = Inr (s', as)"
  shows "rd_visible s' (pins_after rd as q) \<and> pins_after rd as q ''ifu_axi_rvalid'' = of_bool (handshake q p) \<and>
    (handshake q p \<longrightarrow> pins_after rd as q ''ifu_axi_rdata'' = d)"
  using assms by (cases s) (auto simp: rd_edge_def rd_wait_def rd_top_def rd_visible_def rd_wires_def handshake_def split: if_splits)

lemma rd_run_visible:
  "rd_wires rd es \<Longrightarrow> list_all (\<lambda>(d, p). p ''rst_l'' \<noteq> 0) es \<Longrightarrow> rd_visible s q \<Longrightarrow> rd_run rd es s q = Inr qs \<Longrightarrow>
   length qs = Suc (length es) \<and> qs ! 0 = q \<and>
   (\<forall>i<length es. (qs ! Suc i) ''ifu_axi_rvalid'' = of_bool (handshake (qs ! i) (snd (es ! i))) \<and>
     (handshake (qs ! i) (snd (es ! i)) \<longrightarrow> (qs ! Suc i) ''ifu_axi_rdata'' = fst (es ! i)))"
proof (induction es arbitrary: s q qs)
  case (Cons e es)
  obtain d p where e: "e = (d, p)" by (cases e)
  from Cons.prems(4) obtain s' as qs' where r: "rd_edge d p s = Inr (s', as)" "rd_run rd es s' (pins_after rd as q) = Inr qs'" "qs = q # qs'"
    by (auto simp: e bind_py_eq_Inr)
  have w: "rd_wires rd es" "p ''rst_l'' \<noteq> 0" "list_all (\<lambda>(d, p). p ''rst_l'' \<noteq> 0) es"
    using Cons.prems(1,2) by (simp_all add: e rd_wires_def)
  note v = rd_edge_visible [OF Cons.prems(1) [unfolded e] w(2) Cons.prems(3) r(1)]
  from Cons.IH [OF w(1,3) _ r(2)] v have IH: "length qs' = Suc (length es)" "qs' ! 0 = pins_after rd as q"
    "\<forall>i<length es. (qs' ! Suc i) ''ifu_axi_rvalid'' = of_bool (handshake (qs' ! i) (snd (es ! i))) \<and>
     (handshake (qs' ! i) (snd (es ! i)) \<longrightarrow> (qs' ! Suc i) ''ifu_axi_rdata'' = fst (es ! i))" by blast+
  show ?case
  proof (intro conjI allI impI)
    fix i assume "i < length (e # es)"
    then show "(qs ! Suc i) ''ifu_axi_rvalid'' = of_bool (handshake (qs ! i) (snd ((e # es) ! i)))"
      using IH v by (cases i) (simp_all add: r(3) e)
  next
    fix i assume "i < length (e # es)" "handshake (qs ! i) (snd ((e # es) ! i))"
    then show "(qs ! Suc i) ''ifu_axi_rdata'' = fst ((e # es) ! i)" using IH v by (cases i) (simp_all add: r(3) e)
  qed (simp_all add: r(3) IH)
qed auto

lemma rd_run_raises:
  "rd_run rd es s q = Inl e \<Longrightarrow> list_all (\<lambda>(d, p). p ''rst_l'' \<noteq> 0) es \<Longrightarrow> s \<noteq> InReset \<Longrightarrow>
   e = RuntimeError \<and> ((\<exists>i. i + 200 \<le> length es \<and> (\<forall>j<200. snd (es ! (i + j)) ''ifu_axi_arvalid'' = 0)) \<or>
     (\<exists>k. s = Waiting k \<and> 200 - k \<le> length es \<and> (\<forall>j<200 - k. snd (es ! j) ''ifu_axi_arvalid'' = 0)))"
proof (induction es arbitrary: s q)
  case (Cons x es)
  obtain d p where x: "x = (d, p)" by (cases x)
  let ?w = "\<lambda>es. \<exists>i. i + 200 \<le> length es \<and> (\<forall>j<200. snd (es ! (i + j)) ''ifu_axi_arvalid'' = 0)"
  have shift: "?w (x # es)" if "?w es" using that by (metis add_Suc_shift add_Suc add_le_mono1 length_Cons nth_Cons_Suc plus_1_eq_Suc Suc_le_mono)
  show ?case
  proof (cases "rd_edge d p s")
    case (Inl e')
    then obtain k where k: "s = Waiting k" "p ''ifu_axi_arvalid'' = 0" "200 \<le> k + 1" "e' = RuntimeError"
      using Cons.prems(3) by (cases s) (auto simp: rd_edge_def rd_wait_def rd_top_def split: if_splits)
    then have "snd ((x # es) ! j) ''ifu_axi_arvalid'' = 0" if "j < 200 - k" for j using that by (cases j) (simp_all add: x)
    with k Inl Cons.prems(1) show ?thesis by (auto simp: x)
  next
    case (Inr r)
    obtain s' as where r: "r = (s', as)" by (cases r)
    have run: "rd_run rd es s' (pins_after rd as q) = Inl e"
      using Cons.prems(1) Inr by (cases "rd_run rd es s' (pins_after rd as q)") (simp_all add: x r)
    have rst: "p ''rst_l'' \<noteq> 0" "list_all (\<lambda>(d, p). p ''rst_l'' \<noteq> 0) es" using Cons.prems(2) by (simp_all add: x)
    have s': "s' \<noteq> InReset" using Inr Cons.prems(3) rst(1) by (cases s) (auto simp: r rd_edge_def rd_wait_def rd_top_def split: if_splits)
    from Cons.IH [OF run rst(2) s'] consider "e = RuntimeError" "?w es"
      | k where "e = RuntimeError" "s' = Waiting k" "200 - k \<le> length es" "\<forall>j<200 - k. snd (es ! j) ''ifu_axi_arvalid'' = 0" by blast
    then show ?thesis
    proof cases
      case 1
      then show ?thesis using shift by blast
    next
      case (2 k)
      then consider "s = Responding" "k = 0" | k' where "s = Waiting k'" "k = Suc k'" "p ''ifu_axi_arvalid'' = 0" "k' < 200"
        using Inr Cons.prems(3) rst(1) by (cases s) (auto simp: r rd_edge_def rd_wait_def rd_top_def split: if_splits)
      then show ?thesis
      proof cases
        case 1
        with 2 have "?w es" by (intro exI [of _ 0]) simp
        with 2 shift show ?thesis by blast
      next
        case (2 k'')
        have "snd ((x # es) ! j) ''ifu_axi_arvalid'' = 0" if "j < 200 - k''" for j
          using that \<open>\<forall>j<200 - k. _ j\<close> 2 by (cases j) (simp_all add: x)
        then show ?thesis using 2 \<open>200 - k \<le> length es\<close> \<open>e = RuntimeError\<close> by auto
      qed
    qed
  qed
qed simp

text \<open>
  Remark: the AXI read responder answers every request once. Out of reset its \<open>rvalid\<close> is high at exactly the edges that follow an edge with a
  handshake of \<open>arready\<close> and \<open>arvalid\<close>, with the data drawn at that edge. It raises only \<open>RuntimeError\<close>, and only if \<open>arvalid\<close> was
  low at 200 edges in a row.
\<close>

theorem read_responder:
  assumes "rd_wires rd es" "list_all (\<lambda>(d, p). p ''rst_l'' \<noteq> 0) es" "q ''ifu_axi_arready'' = 1" "q ''ifu_axi_rvalid'' = 0"
  shows "case rd_run rd es (Waiting 0) q of
      Inr qs \<Rightarrow> length qs = Suc (length es) \<and>
        (\<forall>i<length es. (qs ! Suc i) ''ifu_axi_rvalid'' = of_bool (handshake (qs ! i) (snd (es ! i))) \<and>
          (handshake (qs ! i) (snd (es ! i)) \<longrightarrow> (qs ! Suc i) ''ifu_axi_rdata'' = fst (es ! i)))
    | Inl e \<Rightarrow> e = RuntimeError \<and> (\<exists>i. i + 200 \<le> length es \<and> (\<forall>j<200. snd (es ! (i + j)) ''ifu_axi_arvalid'' = 0))"
proof (cases "rd_run rd es (Waiting 0) q")
  case (Inl e)
  from rd_run_raises [OF this assms(2)] have "e = RuntimeError" "(\<exists>i. i + 200 \<le> length es \<and> (\<forall>j<200. snd (es ! (i + j)) ''ifu_axi_arvalid'' = 0)) \<or>
      (200 \<le> length es \<and> (\<forall>j<200. snd (es ! j) ''ifu_axi_arvalid'' = 0))" by auto
  moreover have "\<exists>i. i + 200 \<le> length es \<and> (\<forall>j<200. snd (es ! (i + j)) ''ifu_axi_arvalid'' = 0)"
    if "200 \<le> length es" "\<forall>j<200. snd (es ! j) ''ifu_axi_arvalid'' = 0"
    using that by (intro exI [of _ 0]) simp
  ultimately show ?thesis unfolding Inl by (simp only: sum.case) blast
next
  case (Inr qs)
  have "rd_visible (Waiting 0) q" using assms(3,4) by (simp add: rd_visible_def)
  from rd_run_visible [OF assms(1,2) this Inr] show ?thesis unfolding Inr by simp
qed

theorem read_responder_witness:
  "let es = [(7, (\<lambda>_. 0)(''rst_l'' := 1, ''ifu_axi_arvalid'' := 1)), (8, (\<lambda>_. 0)(''rst_l'' := 1))];
       q = (\<lambda>_. 0)(''ifu_axi_arready'' := 1)
   in case rd_run (\<lambda>_ v. v) es (Waiting 0) q of
      Inr qs \<Rightarrow> length qs = 3 \<and> (qs ! 1) ''ifu_axi_rvalid'' = 1 \<and> (qs ! 1) ''ifu_axi_rdata'' = 7 \<and> (qs ! 2) ''ifu_axi_rvalid'' = 0
    | Inl e \<Rightarrow> False"
proof -
  let ?es = "[(7, (\<lambda>_. 0)(''rst_l'' := 1, ''ifu_axi_arvalid'' := 1)), (8, (\<lambda>_. 0)(''rst_l'' := 1))] :: (int \<times> pins) list"
  let ?q = "(\<lambda>_. 0)(''ifu_axi_arready'' := 1) :: pins"
  obtain qs where r: "rd_run (\<lambda>_ v. v) ?es (Waiting 0) ?q = Inr qs"
    by (simp add: rd_edge_def rd_wait_def rd_top_def)
  have "length qs = 3 \<and> (\<forall>i<2. (qs ! Suc i) ''ifu_axi_rvalid'' = of_bool (handshake (qs ! i) (snd (?es ! i))) \<and>
      (handshake (qs ! i) (snd (?es ! i)) \<longrightarrow> (qs ! Suc i) ''ifu_axi_rdata'' = fst (?es ! i)))"
    using read_responder [of "\<lambda>_ v. v" ?es ?q] unfolding r by (simp add: rd_wires_def)
  moreover have "qs ! 0 = ?q" using r by (auto simp: bind_py_eq_Inr)
  ultimately have "length qs = 3" "(qs ! 1) ''ifu_axi_rvalid'' = 1" "(qs ! 1) ''ifu_axi_rdata'' = 7" "(qs ! 2) ''ifu_axi_rvalid'' = 0"
    using spec [of "\<lambda>i. i < 2 \<longrightarrow> (qs ! Suc i) ''ifu_axi_rvalid'' = of_bool (handshake (qs ! i) (snd (?es ! i)))" 1]
    by (auto simp: handshake_def numeral_2_eq_2)
  then show ?thesis unfolding Let_def r by simp
qed

text \<open>
  Remark: which bits \<open>get_bitflip_mask\<close> flips. With \<open>do_double_bit\<close> 0, where the tests want a single-bit error, the mask has two bits: one of the bits 1 to
  37 and bit 40; with \<open>do_double_bit\<close> 1 it has only the first.
\<close>

theorem bitflip_mask_bits:
  assumes "0 \<le> r"
  shows "{n. bit (get_bitflip_mask r 0) n} = {nat (r mod 37) + 1, 40} \<and> {n. bit (get_bitflip_mask r 1) n} = {nat (r mod 37) + 1} \<and>
    nat (r mod 37) + 1 \<in> {1..37}"
proof -
  have two: "push_bit k (2 :: int) = 2 ^ (k + 1)" for k by (simp add: push_bit_eq_mult)
  have b: "bit (2 ^ k :: int) n \<longleftrightarrow> n = k" for k n by (auto simp: bit_2_iff bit_exp_iff)
  have m: "(2 ^ 40 :: int) AND (2 ^ 40 - 1) = 0" "(2 ^ 40 :: int) AND (2 ^ 40 - 0) = 2 ^ 40" by simp_all
  have "nat (r mod 37) < 37" by (simp add: nat_less_iff)
  then show ?thesis unfolding get_bitflip_mask_def two m by (auto simp: bit_or_iff b simp del: power_Suc power_numeral)
qed

theorem bitflip_mask_bits_witness:
  "{n. bit (get_bitflip_mask 40 0) n} = {nat (40 mod 37) + 1, 40} \<and> {n. bit (get_bitflip_mask 40 1) n} = {nat (40 mod 37) + 1} \<and>
    nat (40 mod 37) + 1 \<in> {1..37 :: nat}"
  by (rule bitflip_mask_bits) simp

section \<open>The interrupt agent\<close>

fun irq_run :: "pins list \<Rightarrow> irq_agent \<Rightarrow> irq_agent \<times> action list list" where
  "irq_run [] s = (s, [])"
| "irq_run (p # ps) s = (let (s1, as, src) = irq_edge p s; (s2, ass) = irq_run ps s1 in (s2, as # ass))"

definition irq_start :: "irq_item list \<Rightarrow> irq_agent" where
  "irq_start its = irq_driver \<lparr>iq_todo = its, iq_slot = None, iq_busy = False, iq_traces = [], iq_results = []\<rparr>"

text \<open>The state after edges at which the trace pin was \<open>ts\<close>.\<close>

definition irq_state :: "irq_item list \<Rightarrow> int list \<Rightarrow> irq_agent" where
  "irq_state its ts =
     (let n = length ts in
      \<lparr>iq_todo = drop (n + 1) its, iq_slot = (if n < length its then Some (its ! n) else None), iq_busy = (n < length its),
       iq_traces = drop (length its) ts, iq_results = take (length its) ts\<rparr>)"

lemma irq_start_state: "irq_start its = irq_state its []"
  by (cases its) (simp_all add: irq_start_def irq_state_def irq_driver.simps)

lemma irq_edge_state:
  "irq_edge p (irq_state its ts) = (irq_state its (ts @ [p ''trace_rv_i_interrupt_ip'']),
     irq_drive_edge (if length ts < length its then Some (its ! length ts) else None), irq_source p)"
proof (cases "length ts < length its")
  case True
  show ?thesis
  proof (cases "length ts + 1 < length its")
    case True
    then have d: "drop (Suc (length ts)) its = its ! Suc (length ts) # drop (Suc (Suc (length ts))) its" by (simp add: Cons_nth_drop_Suc)
    show ?thesis using True by (simp add: irq_edge_def irq_state_def Let_def irq_driver.simps d)
  next
    case False
    with \<open>length ts < length its\<close> have "length its = length ts + 1" by simp
    then show ?thesis by (simp add: irq_edge_def irq_state_def Let_def irq_driver.simps)
  qed
qed (simp add: irq_edge_def irq_state_def Let_def irq_driver.simps)

lemma irq_run_state:
  "irq_run ps (irq_state its ts) = (irq_state its (ts @ map (\<lambda>p. p ''trace_rv_i_interrupt_ip'') ps),
     map (\<lambda>n. irq_drive_edge (if n < length its then Some (its ! n) else None)) [length ts..<length ts + length ps])"
  by (induction ps arbitrary: ts) (simp_all add: irq_edge_state upt_conv_Cons del: upt_Suc)

text \<open>
  Remark: the interrupt agent. The items are driven one at each falling edge, in order, and the result written for an item is the value of the
  trace pin at the very edge at which the item is driven, before the core can see it; one result for each item, and the trace values of
  later edges stay in the queue.
\<close>

theorem irq_results:
  "irq_run ps (irq_start its) =
    (irq_state its (map (\<lambda>p. p ''trace_rv_i_interrupt_ip'') ps),
     map (\<lambda>n. irq_drive_edge (if n < length its then Some (its ! n) else None)) [0..<length ps]) \<and>
   iq_results (fst (irq_run ps (irq_start its))) = map (\<lambda>p. p ''trace_rv_i_interrupt_ip'') (take (length its) ps)"
  unfolding irq_start_state by (simp add: irq_run_state) (simp add: irq_state_def take_map Let_def)

end
