(* ===== verification/Py_Regex.thy ===== *)
theory Py_Regex
  imports Code_Fixup
begin

text \<open>
  Searching in texts. First \<open>in\<close> and \<open>replace\<close> of Python's texts, then the part of Python's regular expressions that the tools use: sequences of single characters of a class, of greedy repetitions of a
  class, of groups that do not nest, and of the assertions \<open>\b\<close>, \<open>(?<!...)\<close> and \<open>^\<close>. \<open>rx_match\<close> is the backtracking matcher and
  \<open>findall\<close> the search for all matches that do not overlap. Characters are those of ASCII.
\<close>

section \<open>Definitions\<close>

subsection \<open>Searching and replacing\<close>

text \<open>\<open>pat in s\<close>, and \<open>s.replace(old, new)\<close> for an \<open>old\<close> that is not empty; \<open>py_replace_1\<close> replaces the first occurrence only.\<close>

fun contains :: "string \<Rightarrow> string \<Rightarrow> bool" where
  "contains pat [] \<longleftrightarrow> pat = []"
| "contains pat (c # s) \<longleftrightarrow> prefix pat (c # s) \<or> contains pat s"

function py_replace :: "string \<Rightarrow> string \<Rightarrow> string \<Rightarrow> string" where
  "py_replace old new [] = []"
| "py_replace old new (c # s) =
     (if prefix old (c # s) then new @ py_replace old new (drop (length old - 1) s) else c # py_replace old new s)"
  by pat_completeness auto

termination
  by (relation "measure (\<lambda>(old, new, s). length s)") auto

fun py_replace_1 :: "string \<Rightarrow> string \<Rightarrow> string \<Rightarrow> string" where
  "py_replace_1 old new [] = []"
| "py_replace_1 old new (c # s) = (if prefix old (c # s) then new @ drop (length old - 1) s else c # py_replace_1 old new s)"

text \<open>\<open>sep.join(xs)\<close>.\<close>

fun join :: "string \<Rightarrow> string list \<Rightarrow> string" where
  "join sep [] = []"
| "join sep [x] = x"
| "join sep (x # y # xs) = x @ sep @ join sep (y # xs)"

subsection \<open>Regular expressions\<close>

datatype atom = One "char \<Rightarrow> bool" | Many "char \<Rightarrow> bool" | Open | Close | Bound | NotBehind string | LineStart

text \<open>\<open>\w\<close>, and the test of \<open>\b\<close> between the text before, in reverse, and the text behind.\<close>

definition alnum :: "char \<Rightarrow> bool" where
  "alnum c \<longleftrightarrow> (let n = of_char c :: nat in 48 \<le> n \<and> n \<le> 57 \<or> 65 \<le> n \<and> n \<le> 90 \<or> 97 \<le> n \<and> n \<le> 122)"

definition word_char :: "char \<Rightarrow> bool" where
  "word_char c \<longleftrightarrow> alnum c \<or> c = CHR ''_''"

definition at_bound :: "string \<Rightarrow> string \<Rightarrow> bool" where
  "at_bound b s \<longleftrightarrow> (b \<noteq> [] \<and> word_char (hd b)) \<noteq> (s \<noteq> [] \<and> word_char (hd s))"

text \<open>
  The matcher has the text before the place it stands at in reverse, the text behind it, the place where a group was opened, and the groups closed
  so far.
\<close>

function rx_match :: "atom list \<Rightarrow> string \<Rightarrow> string \<Rightarrow> nat \<Rightarrow> string list \<Rightarrow> (string \<times> string \<times> string list) option" where
  "rx_match [] b s p gs = Some (b, s, gs)"
| "rx_match (One P # as) b s p gs = (case s of [] \<Rightarrow> None | c # s' \<Rightarrow> if P c then rx_match as (c # b) s' p gs else None)"
| "rx_match (Many P # as) b s p gs = (case s of
     [] \<Rightarrow> rx_match as b s p gs
   | c # s' \<Rightarrow> if P c then (case rx_match (Many P # as) (c # b) s' p gs of None \<Rightarrow> rx_match as b s p gs | Some r \<Rightarrow> Some r)
       else rx_match as b s p gs)"
| "rx_match (Open # as) b s p gs = rx_match as b s (length b) gs"
| "rx_match (Close # as) b s p gs = rx_match as b s p (gs @ [rev (take (length b - p) b)])"
| "rx_match (Bound # as) b s p gs = (if at_bound b s then rx_match as b s p gs else None)"
| "rx_match (NotBehind t # as) b s p gs = (if prefix (rev t) b then None else rx_match as b s p gs)"
| "rx_match (LineStart # as) b s p gs = (if b = [] then rx_match as b s p gs else None)"
  by pat_completeness auto

termination
  by (relation "measures [\<lambda>(as, b, s, p, gs). length as, \<lambda>(as, b, s, p, gs). length s]") auto

declare rx_match.simps(2,3) [simp del]

lemma rx_match_One [simp]:
  "rx_match (One P # as) b [] p gs = None"
  "rx_match (One P # as) b (c # s) p gs = (if P c then rx_match as (c # b) s p gs else None)"
  by (simp_all add: rx_match.simps(2))

lemma rx_match_Many_simps [simp]:
  "rx_match (Many P # as) b [] p gs = rx_match as b [] p gs"
  "\<not> P c \<Longrightarrow> rx_match (Many P # as) b (c # s) p gs = rx_match as b (c # s) p gs"
  by (simp_all add: rx_match.simps(3))

lemma rx_match_Many_Cons:
  "P c \<Longrightarrow> rx_match (Many P # as) b (c # s) p gs =
     (case rx_match (Many P # as) (c # b) s p gs of None \<Rightarrow> rx_match as b (c # s) p gs | Some r \<Rightarrow> Some r)"
  by (subst rx_match.simps(3)) simp

text \<open>No expression here matches the empty text; after such a match the search would go on at the next character.\<close>

function findall_from :: "atom list \<Rightarrow> string \<Rightarrow> string \<Rightarrow> string list list" where
  "findall_from r b s = (case rx_match r b s 0 [] of
     Some (b', s', gs) \<Rightarrow> if length s' < length s then gs # findall_from r b' s'
       else gs # (case s of [] \<Rightarrow> [] | c # t \<Rightarrow> findall_from r (c # b) t)
   | None \<Rightarrow> (case s of [] \<Rightarrow> [] | c # t \<Rightarrow> findall_from r (c # b) t))"
  by pat_completeness auto

termination
  by (relation "measure (\<lambda>(r, b, s). length s)") auto

declare findall_from.simps [simp del]

definition findall :: "atom list \<Rightarrow> string \<Rightarrow> string list list" where
  "findall r line = findall_from r [] line"

text \<open>The expression that is a literal text.\<close>

definition lit :: "string \<Rightarrow> atom list" where
  "lit t = map (\<lambda>c. One (\<lambda>d. d = c)) t"

section \<open>Joining and splitting\<close>

lemma split_on_append: "c \<notin> set x \<Longrightarrow> split_on c (x @ c # s) = x # split_on c s"
  by (induction x) auto

lemma join_snoc: "xs \<noteq> [] \<Longrightarrow> join s (xs @ [x]) = join s xs @ s @ x"
  by (induction s xs rule: join.induct) auto

lemma join_append: "xs \<noteq> [] \<Longrightarrow> ys \<noteq> [] \<Longrightarrow> join s (xs @ ys) = join s xs @ s @ join s ys"
  by (induction s xs rule: join.induct) (auto simp: neq_Nil_conv)

section \<open>Matching\<close>

text \<open>A match takes a part of the text behind, in which every single character of the expression has been found.\<close>

definition took :: "atom list \<Rightarrow> string \<Rightarrow> string \<Rightarrow> string \<Rightarrow> string \<Rightarrow> bool" where
  "took r b s b' s' \<longleftrightarrow> (\<exists>u. s = u @ s' \<and> b' = rev u @ b \<and> (\<forall>P. One P \<in> set r \<longrightarrow> (\<exists>c\<in>set u. P c)))"

lemma took_skip: "took as b s b' s' \<Longrightarrow> \<forall>P. a \<noteq> One P \<Longrightarrow> took (a # as) b s b' s'"
  by (auto simp: took_def)

lemmas took_Many = took_skip [where a = "Many P" for P, simplified]

lemma took_Cons: "took r (c # b) s b' s' \<Longrightarrow> set r' \<subseteq> insert (One P) (set r) \<Longrightarrow> P c \<Longrightarrow> took r' b (c # s) b' s'"
  unfolding took_def by (elim exE) (rule_tac x = "c # u" in exI, auto)

lemma rx_match_took: "rx_match r b s p gs = Some (b', s', gs') \<Longrightarrow> took r b s b' s'"
proof (induction r arbitrary: b s p gs)
  case Nil
  then show ?case by (simp add: took_def)
next
  case (Cons a r)
  show ?case
  proof (cases a)
    case (One P)
    with Cons.prems obtain c t where c: "s = c # t" "P c" "rx_match r (c # b) t p gs = Some (b', s', gs')" by (cases s) (auto split: if_splits)
    show ?thesis unfolding c(1) by (rule took_Cons [OF Cons.IH [OF c(3)], where P = P]) (auto simp: One c(2))
  next
    case (Many P)
    from Cons.prems show ?thesis unfolding Many
    proof (induction s arbitrary: b)
      case Nil
      then show ?case using Cons.IH by (auto intro: took_Many)
    next
      case (Cons c t)
      show ?case
      proof (cases "P c \<and> rx_match (Many P # r) (c # b) t p gs \<noteq> None")
        case True
        with Cons.prems have "rx_match (Many P # r) (c # b) t p gs = Some (b', s', gs')" by (auto simp: rx_match_Many_Cons)
        from took_Cons [OF Cons.IH [OF this], where r' = "Many P # r" and P = P] True show ?thesis by auto
      next
        case False
        with Cons.prems have "rx_match r b (c # t) p gs = Some (b', s', gs')" by (cases "P c") (auto simp: rx_match_Many_Cons split: option.splits)
        then show ?thesis by (intro took_Many \<open>\<And>b s p gs. rx_match r b s p gs = Some (b', s', gs') \<Longrightarrow> took r b s b' s'\<close>)
      qed
    qed
  qed (use Cons in \<open>auto split: if_splits intro: took_skip\<close>)
qed

lemma rx_match_missing: "One P \<in> set r \<Longrightarrow> \<forall>c\<in>set s. \<not> P c \<Longrightarrow> rx_match r b s p gs = None"
  using rx_match_took [of r b s p gs] by (cases "rx_match r b s p gs") (fastforce simp: took_def)+

lemma findall_missing: "One P \<in> set r \<Longrightarrow> \<forall>c\<in>set s. \<not> P c \<Longrightarrow> findall_from r b s = []"
  by (induction s arbitrary: b) (simp_all add: findall_from.simps rx_match_missing)

lemma findall_skip: "rx_match r b (c # s) 0 [] = None \<Longrightarrow> findall_from r b (c # s) = findall_from r (c # b) s"
  by (simp add: findall_from.simps)

lemma findall_match: "rx_match r b (u @ s) 0 [] = Some (b', s, gs) \<Longrightarrow> u \<noteq> [] \<Longrightarrow> findall_from r b (u @ s) = gs # findall_from r b' s"
  by (subst findall_from.simps) simp

text \<open>A repetition takes all it can, when what follows then matches.\<close>

lemma rx_match_Many:
  "\<forall>c\<in>set u. P c \<Longrightarrow> rx_match as (rev u @ b) s p gs = Some r \<Longrightarrow> s = [] \<or> \<not> P (hd s) \<Longrightarrow> rx_match (Many P # as) b (u @ s) p gs = Some r"
proof (induction u arbitrary: b)
  case Nil
  then show ?case by (cases s) auto
qed (simp add: rx_match_Many_Cons)

lemma rx_match_lit: "rx_match (lit t @ as) b (t @ s) p gs = rx_match as (rev t @ b) s p gs"
  by (induction t arbitrary: b) (simp_all add: lit_def)

end
