(* ===== verification/Soc_Map.thy ===== *)
theory Soc_Map
  imports Py_Regex
begin

text \<open>
  The memory map of the system on chip in the Phase 1 workbook, and the two scripts that move its peripherals up by 64 KB
  (\<open>Reliable_Data_Transport_System/docs/phase1\<close>): \<open>update_addresses.py\<close> replaces one address after the other, \<open>update_addresses_v2.py\<close> all of
  them in one pass with a regular expression. The map itself is that of \<open>generate_phase1_excel.py\<close>.

  A sheet is the list of its rows, a row the list of its cells, a cell its text or nothing; the sheets hold texts only. A text is the list of the bytes
  of its UTF-8 encoding, in which searching and replacing whole texts is the same as in the characters.
\<close>

section \<open>Definitions\<close>

subsection \<open>Texts\<close>

definition nl :: string where "nl = [CHR 0x0A]"
definition ndash :: string where "ndash = [CHR 0xE2, CHR 0x80, CHR 0x93]"

subsection \<open>The workbook\<close>

type_synonym row = "string option list"
type_synonym workbook = "(string \<times> row list) list"

definition truthy :: "string option \<Rightarrow> bool" where
  "truthy v \<longleftrightarrow> v \<noteq> None \<and> v \<noteq> Some []"

text \<open>\<open>str(cell.value) if cell.value else ""\<close>.\<close>

definition text_of :: "string option \<Rightarrow> string" where
  "text_of v = (case v of None \<Rightarrow> [] | Some s \<Rightarrow> s)"

definition cell_at :: "row \<Rightarrow> nat \<Rightarrow> string option py" where
  "cell_at r i = (if i < length r then Inr (r ! i) else Inl IndexError)"

text \<open>
  The address map: the title, the headings, an empty row, and then the rows of the map with its dividing rows. The nine columns are name, base, end, size, usage,
  expansion, width, adapter and notes.
\<close>

definition sheet_address_map :: "row list" where
  "sheet_address_map =
     [[Some (''SoC Honours Project '' @ ndash @ '' Full Memory Map (Phase 1 Draft)''), None, None, None, None, None, None, None, None],
      [Some ''IP / Region'', Some ''Base Address'', Some ''End Address'', Some ''Allocated Size'', Some ''Current Register Usage'', Some ''Expansion Space'', Some ''Data Width'', Some ''Required Adapter / Wrapper'', Some ''Notes''],
      [None, None, None, None, None, None, None, None, None],
      [Some ([CHR 0xE2, CHR 0x94, CHR 0x80] @ [CHR 0xE2, CHR 0x94, CHR 0x80] @ '' VeeR EL2 Internal Memory Regions '' @ [CHR 0xE2, CHR 0x94, CHR 0x80] @ [CHR 0xE2, CHR 0x94, CHR 0x80]), None, None, None, None, None, None, None, None],
      [Some (''VeeR DCCM'' @ nl @ ''(Data-Closely-Coupled Memory)''), Some ''0xF004_0000'', Some ''0xF004_FFFF'', Some ''64 KB'', Some (''Internal VeeR DCCM'' @ nl @ ''(not accessible via LSU AXI)''), Some ''0 (fixed by VeeR config)'', Some ''64-bit internal'', Some (''None '' @ ndash @ '' internal to VeeR core''), Some ''Region 0xF, offset 0x40000. Configured in veer.config. NOT memory-mapped through the SoC AXI interconnect.''],
      [Some (''VeeR ICCM'' @ nl @ ''(Instruction-Closely-Coupled Memory)''), Some ''0xEE00_0000'', Some ''0xEE00_FFFF'', Some ''64 KB'', Some (''Internal VeeR ICCM'' @ nl @ ''(not accessible via IFU AXI)''), Some ''0 (fixed by VeeR config)'', Some ''64-bit internal'', Some (''None '' @ ndash @ '' internal to VeeR core''), Some ''Region 0xE, top-aligned. Configured in veer.config. NOT memory-mapped through the SoC AXI interconnect.''],
      [Some (''VeeR PIC'' @ nl @ ''(Programmable Interrupt Controller)''), Some ''0xF00C_0000'', Some ''0xF00C_7FFF'', Some ''32 KB'', Some (''VeeR internal PIC registers'' @ nl @ ''(memory-mapped inside VeeR)''), Some ''0 (fixed by VeeR config)'', Some ''32-bit (VeeR internal)'', Some (''None '' @ ndash @ '' internal to VeeR core''), Some ''Region 0xF, offset 0xC0000. CPU accesses via load/store to this range. Must NOT be allocated to any SoC peripheral.''],
      [Some ([CHR 0xE2, CHR 0x94, CHR 0x80] @ [CHR 0xE2, CHR 0x94, CHR 0x80] @ '' SoC Peripheral Region '' @ [CHR 0xE2, CHR 0x94, CHR 0x80] @ [CHR 0xE2, CHR 0x94, CHR 0x80]), None, None, None, None, None, None, None, None],
      [Some ''Instruction Memory'', Some ''0x0000_0000'', Some ''0x0000_FFFF'', Some ''64 KB'', Some ''TO BE DETERMINED FROM IP RTL'', Some ''Expansion to 64 KB total'', Some ''32-bit'', Some ''None (if 32-bit AXI memory)'', Some ''Boot / program memory. reset_vec = 0x8000_0000 (overridable). IFU AXI fetches from here. RTL not yet provided.''],
      [Some ''Data Memory'', Some ''0x0001_0000'', Some ''0x0001_FFFF'', Some ''64 KB'', Some ''TO BE DETERMINED FROM IP RTL'', Some ''Expansion to 64 KB total'', Some ''32-bit'', Some (''AXI64'' @ [CHR 0xE2, CHR 0x86, CHR 0x92] @ ''AXI32 adapter on LSU path''), Some ''General SRAM data storage. RTL not yet provided.''],
      [Some ''UART'', Some ''0x0002_0000'', Some ''0x0002_0FFF'', Some ''4 KB'', Some (''6 regs: RBR/THR@+0x00, IER@+0x04,'' @ nl @ ''BAUD_DIV@+0x08, LCR@+0x0C, LSR@+0x14'' @ nl @ ''(28 bytes used)''), Some (''4 KB '' @ [CHR 0xE2, CHR 0x88, CHR 0x92] @ '' 28 B = ~4068 B free''), Some ''32-bit'', Some (''AXI64'' @ [CHR 0xE2, CHR 0x86, CHR 0x92] @ ''AXI32 adapter (LSU path)'' @ nl @ ''+ AXI4'' @ [CHR 0xE2, CHR 0x86, CHR 0x92] @ ''AXI4Lite bridge'' @ nl @ ''(already exists in repo)''), Some ''Existing adapter: axi4_to_axi4lite_uart_adapter.v. UART has 5-bit internal address bus.''],
      [Some ''Timer'', Some ''0x0004_0000'', Some ''0x0004_0FFF'', Some ''4 KB'', Some ''TO BE DETERMINED FROM IP RTL'', Some ''~4 KB free'', Some ''NOT DETERMINED'', Some (''TBD '' @ ndash @ '' depends on IP interface''), Some ''No RTL found. Reserved slot. Note: moved from 0x0002_1000 to give full 4 KB alignment.''],
      [Some ''GPIO'', Some ''0x0005_0000'', Some ''0x0005_0FFF'', Some ''4 KB'', Some ''TO BE DETERMINED FROM IP RTL'', Some ''~4 KB free'', Some ''NOT DETERMINED'', Some (''TBD '' @ ndash @ '' depends on IP interface''), Some ''No RTL found. Reserved slot.''],
      [Some ''Packet FIFO'', Some ''0x0006_0000'', Some ''0x0006_0FFF'', Some ''4 KB'', Some ''TO BE DETERMINED FROM IP RTL'', Some ''~4 KB free'', Some ''NOT DETERMINED'', Some (''TBD '' @ ndash @ '' depends on IP interface''), Some ''No RTL found. Reserved slot.''],
      [Some ''Packet Counter'', Some ''0x0007_0000'', Some ''0x0007_0FFF'', Some ''4 KB'', Some ''TO BE DETERMINED FROM IP RTL'', Some ''~4 KB free'', Some ''NOT DETERMINED'', Some (''TBD '' @ ndash @ '' depends on IP interface''), Some ''No RTL found. Reserved slot.''],
      [Some ''Enhanced Timer'', Some ''0x0008_0000'', Some ''0x0008_0FFF'', Some ''4 KB'', Some ''TO BE DETERMINED FROM IP RTL'', Some ''~4 KB free'', Some ''NOT DETERMINED'', Some (''TBD '' @ ndash @ '' depends on IP interface''), Some ''No RTL found. Reserved slot.''],
      [Some ''CRC'', Some ''0x0009_0000'', Some ''0x0009_0FFF'', Some ''4 KB'', Some ''TO BE DETERMINED FROM IP RTL'', Some ''~4 KB free'', Some ''NOT DETERMINED'', Some (''TBD '' @ ndash @ '' depends on IP interface''), Some ''No RTL found. Reserved slot.''],
      [Some ''DMA'', Some ''0x000A_0000'', Some ''0x000A_FFFF'', Some ''64 KB'', Some ''TO BE DETERMINED FROM IP RTL'', Some ''64 KB total'', Some ''NOT DETERMINED'', Some (''TBD '' @ ndash @ '' DMA may need 64-bit path''), Some (''No RTL found. Larger region allocated '' @ ndash @ '' DMA typically has more registers (src/dst/len/control/status per channel).'')],
      [Some ''Interrupt Controller'', Some ''0x000B_0000'', Some ''0x000B_0FFF'', Some ''4 KB'', Some ''TO BE DETERMINED FROM IP RTL'', Some ''~4 KB free'', Some ''NOT DETERMINED'', Some (''TBD '' @ ndash @ '' depends on IP interface''), Some ''No RTL found. Reserved slot. Note: VeeR has internal PIC; this slot is for an external interrupt controller IP if provided by a team member.''],
      [Some ''RLE'', Some ''0x000C_0000'', Some ''0x000C_0FFF'', Some ''4 KB'', Some ''TO BE DETERMINED FROM IP RTL'', Some ''~4 KB free'', Some ''NOT DETERMINED'', Some (''TBD '' @ ndash @ '' depends on IP interface''), Some ''No RTL found. Reserved slot.''],
      [Some ''SPI'', Some ''0x000D_0000'', Some ''0x000D_0FFF'', Some ''4 KB'', Some (''12 regs: highest offset 0x78 (RFOR)'' @ nl @ ''(124 bytes used)''), Some (''4 KB '' @ [CHR 0xE2, CHR 0x88, CHR 0x92] @ '' 124 B = ~3972 B free''), Some ''32-bit'', Some (''AXI64'' @ [CHR 0xE2, CHR 0x86, CHR 0x92] @ ''AXI32 adapter (LSU path)'' @ nl @ ''+ AXI4'' @ [CHR 0xE2, CHR 0x86, CHR 0x92] @ ''AXI4Lite bridge (to be created)''), Some ''SPI has 7-bit internal address bus (128-byte space). 4 KB region provides ample expansion.''],
      [Some ''I2C'', Some ''0x000E_0000'', Some ''0x000E_0FFF'', Some ''4 KB'', Some (''8 regs '' @ [CHR 0xC3, CHR 0x97] @ '' 8-bit: PRER_LO@+0, PRER_HI@+1,'' @ nl @ ''CTR@+2, RXR/TXR@+3, SR/CR@+4,'' @ nl @ ''(debug@+5,+6), SLADR@+7''), Some (''4 KB '' @ [CHR 0xE2, CHR 0x88, CHR 0x92] @ '' 8 B = ~4088 B free''), Some ''8-bit (Wishbone)'', Some (''AXI64'' @ [CHR 0xE2, CHR 0x86, CHR 0x92] @ ''AXI32 adapter (LSU path)'' @ nl @ ''+ AXI4-Lite'' @ [CHR 0xE2, CHR 0x86, CHR 0x92] @ ''Wishbone bridge (to be created)''), Some ''I2C is Wishbone. Requires a bridge wrapper. 8-bit data width mismatch with 32-bit AXI must be handled in the bridge wrapper.''],
      [Some ''AES'', Some ''0x000F_0000'', Some ''0x000F_0FFF'', Some ''4 KB'', Some (''11 regs: CTRL@+0x00, STAT@+0x04,'' @ nl @ ''KEY0'' @ ndash @ ''3@+0x10'' @ ndash @ ''0x1C, TXT_IN0'' @ ndash @ ''3@+0x20'' @ ndash @ ''0x2C,'' @ nl @ ''TXT_OUT0'' @ ndash @ ''3@+0x30'' @ ndash @ ''0x3C'' @ nl @ ''(64 bytes used)''), Some (''4 KB '' @ [CHR 0xE2, CHR 0x88, CHR 0x92] @ '' 64 B = ~4032 B free''), Some ''32-bit'', Some (''AXI64'' @ [CHR 0xE2, CHR 0x86, CHR 0x92] @ ''AXI32 adapter (LSU path)'' @ nl @ ''(AES uses AXI4 full '' @ ndash @ '' no Lite bridge needed)''), Some ''AES has AXI4 full slave interface. reset is ACTIVE-LOW on aes_cipher_top.''],
      [Some ''PWM'', Some ''0x0010_0000'', Some ''0x0010_0FFF'', Some ''4 KB'', Some (''4 regs '' @ [CHR 0xC3, CHR 0x97] @ '' 32-bit:'' @ nl @ ''slv_reg0@+0x00, slv_reg1@+0x04,'' @ nl @ ''slv_reg2@+0x08, slv_reg3@+0x0C''), Some (''4 KB '' @ [CHR 0xE2, CHR 0x88, CHR 0x92] @ '' 16 B = ~4080 B free''), Some ''32-bit'', Some (''AXI64'' @ [CHR 0xE2, CHR 0x86, CHR 0x92] @ ''AXI32 adapter (LSU path)'' @ nl @ ''+ AXI4'' @ [CHR 0xE2, CHR 0x86, CHR 0x92] @ ''AXI4Lite bridge (no ID in PWM)''), Some ''PWM has 4-bit internal address bus (pure AXI4-Lite, no ID).''],
      [Some ([CHR 0xE2, CHR 0x94, CHR 0x80] @ [CHR 0xE2, CHR 0x94, CHR 0x80] @ '' Reserved / Future Expansion '' @ [CHR 0xE2, CHR 0x94, CHR 0x80] @ [CHR 0xE2, CHR 0x94, CHR 0x80]), None, None, None, None, None, None, None, None],
      [Some (''Future IP Expansion Bank A'' @ nl @ ''(Team member IPs not yet provided)''), Some ''0x0011_0000'', Some ''0x001F_FFFF'', Some ''~1 MB'', Some ''RESERVED'', Some ''~1 MB'', Some ''TBD'', Some ''TBD'', Some (''Reserved for additional IPs from all 5 team members. Each team member can be allocated 64'' @ ndash @ ''256 KB sub-regions here.'')],
      [Some (''RESERVED '' @ ndash @ '' must not use'' @ nl @ ''(VeeR PIC region)''), Some ''0xF00C_0000'', Some ''0xF00C_7FFF'', Some ''32 KB'', Some ''VeeR internal PIC only'', Some ''0'', Some ''32-bit VeeR internal'', Some ''None'', Some ''DO NOT allocate to any SoC peripheral. VeeR accesses this region internally for interrupt management.''],
      [Some (''RESERVED '' @ ndash @ '' must not use'' @ nl @ ''(VeeR DCCM region)''), Some ''0xF004_0000'', Some ''0xF004_FFFF'', Some ''64 KB'', Some ''VeeR internal DCCM only'', Some ''0'', Some ''64-bit internal'', Some ''None'', Some ''DO NOT allocate to any SoC peripheral.''],
      [Some (''RESERVED '' @ ndash @ '' must not use'' @ nl @ ''(VeeR ICCM region)''), Some ''0xEE00_0000'', Some ''0xEE00_FFFF'', Some ''64 KB'', Some ''VeeR internal ICCM only'', Some ''0'', Some ''64-bit internal'', Some ''None'', Some ''DO NOT allocate to any SoC peripheral.'']]"

text \<open>The register map, likewise: block, register, offset, absolute address, width, access and description.\<close>

definition sheet_register_map :: "row list" where
  "sheet_register_map =
     [[Some (''SoC Honours Project '' @ ndash @ '' Register Map (IPs with confirmed RTL)''), None, None, None, None, None, None],
      [Some ''IP'', Some ''Register Name'', Some ''Offset (hex)'', Some ''Absolute Address (hex)'', Some ''Width (bits)'', Some ''Access'', Some ''Description''],
      [None, None, None, None, None, None, None],
      [Some (''UART'' @ nl @ ''(base 0x0002_0000)''), Some ''RBR (Rx Buffer Reg)'', Some ''0x00'', Some ''0x0002_0000'', Some ''32'', Some ''R'', Some ''Receive data register. Read to get received byte.''],
      [Some [], Some ''THR (Tx Holding Reg)'', Some ''0x00'', Some ''0x0002_0000'', Some ''32'', Some ''W'', Some ''Transmit data register. Write to send byte. Same offset as RBR.''],
      [Some [], Some ''IER (Interrupt Enable Reg)'', Some ''0x04'', Some ''0x0002_0004'', Some ''32'', Some ''R/W'', Some ''Interrupt enable control.''],
      [Some [], Some ''BAUD_DIVISOR'', Some ''0x08'', Some ''0x0002_0008'', Some ''32'', Some ''R/W'', Some ''Baud rate divisor. Active when DLAB=1 in LCR. Default: clk/115200.''],
      [Some [], Some ''LCR (Line Control Reg)'', Some ''0x0C'', Some ''0x0002_000C'', Some ''32'', Some ''R/W'', Some ''[7]=DLAB, [4]=parity_mode, [3]=parity_en, [2]=stop_bits, [1:0]=word_len''],
      [Some [], Some ''LSR (Line Status Reg)'', Some ''0x14'', Some ''0x0002_0014'', Some ''32'', Some ''R'', Some ''[6]=TEMT (TX empty), [5]=THRE (TX FIFO empty), [0]=data_ready''],
      [Some (''SPI'' @ nl @ ''(base 0x000D_0000)''), Some ''GIER (Global IRQ Enable)'', Some ''0x1C'', Some ''0x000D_001C'', Some ''32'', Some ''R/W'', Some ''Global interrupt enable register.''],
      [Some [], Some ''ISR (Interrupt Status)'', Some ''0x20'', Some ''0x000D_0020'', Some ''32'', Some ''R/W'', Some ''Interrupt status register. Write 1 to clear.''],
      [Some [], Some ''IER (Interrupt Enable)'', Some ''0x28'', Some ''0x000D_0028'', Some ''32'', Some ''R/W'', Some ''Interrupt enable register.''],
      [Some [], Some ''RCLK (custom Ratio Clk)'', Some ''0x30'', Some ''0x000D_0030'', Some ''32'', Some ''R/W'', Some ''Custom SPI clock ratio register. Reset value = 4.''],
      [Some [], Some ''SRR (Soft Reset)'', Some ''0x40'', Some ''0x000D_0040'', Some ''32'', Some ''W'', Some ''Software reset. Write 0x0000_000A to reset.''],
      [Some [], Some ''CR (Control Reg)'', Some ''0x60'', Some ''0x000D_0060'', Some ''32'', Some ''R/W'', Some ''[9]=LSB_first, [6]=RX_FIFO_rst, [5]=TX_FIFO_rst, [4]=CPHA, [3]=CPOL, [2]=MASTER, [1]=SPI_EN''],
      [Some [], Some ''SR (Status Reg)'', Some ''0x64'', Some ''0x000D_0064'', Some ''32'', Some ''R'', Some ''[5]=SMOD_SEL, [4]=MODF, [3]=TX_FULL, [2]=TX_EMPTY, [1]=RX_FULL, [0]=RX_EMPTY''],
      [Some [], Some ''DTR (Data TX Register)'', Some ''0x68'', Some ''0x000D_0068'', Some ''32'', Some ''W'', Some ''Write byte to TX FIFO.''],
      [Some [], Some ''DRR (Data RX Register)'', Some ''0x6C'', Some ''0x000D_006C'', Some ''32'', Some ''R'', Some ''Read byte from RX FIFO.''],
      [Some [], Some ''SSR (Slave Select)'', Some ''0x70'', Some ''0x000D_0070'', Some ''32'', Some ''R/W'', Some ''Chip select (active low bits). Reset = 0xFFFF_FFFF.''],
      [Some [], Some ''TFOR (TX FIFO Occupancy)'', Some ''0x74'', Some ''0x000D_0074'', Some ''32'', Some ''R'', Some ''TX FIFO occupancy register.''],
      [Some [], Some ''RFOR (RX FIFO Occupancy)'', Some ''0x78'', Some ''0x000D_0078'', Some ''32'', Some ''R'', Some ''RX FIFO occupancy register.''],
      [Some (''I2C / Wishbone'' @ nl @ ''(base 0x000E_0000)''), Some ''PRER_LO (Prescale Low)'', Some ''0x00'', Some ''0x000E_0000'', Some ''8'', Some ''R/W'', Some ''Clock prescale register [7:0]. Reset = 0xFF.''],
      [Some [], Some ''PRER_HI (Prescale High)'', Some ''0x01'', Some ''0x000E_0001'', Some ''8'', Some ''R/W'', Some ''Clock prescale register [15:8]. Reset = 0xFF.''],
      [Some [], Some ''CTR (Control Reg)'', Some ''0x02'', Some ''0x000E_0002'', Some ''8'', Some ''R/W'', Some ''[7]=EN (core enable), [6]=IEN (interrupt enable).''],
      [Some [], Some ''TXR/RXR (Data)'', Some ''0x03'', Some ''0x000E_0003'', Some ''8'', Some ''W/R'', Some ''Write=TX byte. Read=RX byte.''],
      [Some [], Some ''CR/SR (Cmd/Status)'', Some ''0x04'', Some ''0x000E_0004'', Some ''8'', Some ''W/R'', Some ''Write=Command: [7]=STA,[6]=STO,[5]=RD,[4]=WR,[3]=ACK,[0]=IACK. Read=Status: [7]=RxACK,[6]=BUSY,[5]=AL,[1]=TIP,[0]=IF.''],
      [Some [], Some ''SLADR (Slave Addr)'', Some ''0x07'', Some ''0x000E_0007'', Some ''8'', Some ''R/W'', Some ''7-bit target slave address [6:0]. Default = 0x7E.''],
      [Some (''AES'' @ nl @ ''(base 0x000F_0000)''), Some ''CONTROL'', Some ''0x0000'', Some ''0x000F_0000'', Some ''32'', Some ''R/W'', Some (''[0]=START (write 1'' @ [CHR 0xE2, CHR 0x86, CHR 0x92] @ ''1-cycle aes_ld), [1]=CLEAR_DONE, [2]=SOFT_RESET.'')],
      [Some [], Some ''STATUS'', Some ''0x0004'', Some ''0x000F_0004'', Some ''32'', Some ''R'', Some ''[0]=DONE (latched), [1]=BUSY, [2]=KEY_VALID, [3]=INPUT_VALID.''],
      [Some [], Some ''KEY0'', Some ''0x0010'', Some ''0x000F_0010'', Some ''32'', Some ''R/W'', Some ''AES key [127:96].''],
      [Some [], Some ''KEY1'', Some ''0x0014'', Some ''0x000F_0014'', Some ''32'', Some ''R/W'', Some ''AES key [95:64].''],
      [Some [], Some ''KEY2'', Some ''0x0018'', Some ''0x000F_0018'', Some ''32'', Some ''R/W'', Some ''AES key [63:32].''],
      [Some [], Some ''KEY3'', Some ''0x001C'', Some ''0x000F_001C'', Some ''32'', Some ''R/W'', Some ''AES key [31:0].''],
      [Some [], Some ''TEXT_IN0'', Some ''0x0020'', Some ''0x000F_0020'', Some ''32'', Some ''R/W'', Some ''Plaintext input [127:96].''],
      [Some [], Some ''TEXT_IN1'', Some ''0x0024'', Some ''0x000F_0024'', Some ''32'', Some ''R/W'', Some ''Plaintext input [95:64].''],
      [Some [], Some ''TEXT_IN2'', Some ''0x0028'', Some ''0x000F_0028'', Some ''32'', Some ''R/W'', Some ''Plaintext input [63:32].''],
      [Some [], Some ''TEXT_IN3'', Some ''0x002C'', Some ''0x000F_002C'', Some ''32'', Some ''R/W'', Some ''Plaintext input [31:0].''],
      [Some [], Some ''TEXT_OUT0'', Some ''0x0030'', Some ''0x000F_0030'', Some ''32'', Some ''R'', Some ''Ciphertext output [127:96].''],
      [Some [], Some ''TEXT_OUT1'', Some ''0x0034'', Some ''0x000F_0034'', Some ''32'', Some ''R'', Some ''Ciphertext output [95:64].''],
      [Some [], Some ''TEXT_OUT2'', Some ''0x0038'', Some ''0x000F_0038'', Some ''32'', Some ''R'', Some ''Ciphertext output [63:32].''],
      [Some [], Some ''TEXT_OUT3'', Some ''0x003C'', Some ''0x000F_003C'', Some ''32'', Some ''R'', Some ''Ciphertext output [31:0].''],
      [Some (''PWM'' @ nl @ ''(base 0x0010_0000)''), Some ''slv_reg0'', Some ''0x00'', Some ''0x0010_0000'', Some ''32'', Some ''R/W'', Some ''PWM register 0. Exact function NOT DETERMINED from available RTL.''],
      [Some [], Some ''slv_reg1'', Some ''0x04'', Some ''0x0010_0004'', Some ''32'', Some ''R/W'', Some ''PWM register 1. Exact function NOT DETERMINED from available RTL.''],
      [Some [], Some ''slv_reg2'', Some ''0x08'', Some ''0x0010_0008'', Some ''32'', Some ''R/W'', Some ''PWM register 2. Exact function NOT DETERMINED from available RTL.''],
      [Some [], Some ''slv_reg3'', Some ''0x0C'', Some ''0x0010_000C'', Some ''32'', Some ''R/W'', Some ''PWM register 3. Exact function NOT DETERMINED from available RTL.'']]"

subsection \<open>One replacement after the other\<close>

definition ADDR_MAP :: "(string \<times> string) list" where
  "ADDR_MAP =
     [(''0x0001_FFFF'', ''0x0002_FFFF''), (''0x0001_FFFF'', ''0x0002_FFFF''), (''0x0002_0FFF'', ''0x0003_0FFF''), (''0x0002_0000'', ''0x0003_0000''),
      (''0x0004_0FFF'', ''0x0005_0FFF''), (''0x0004_0000'', ''0x0005_0000''), (''0x0005_0FFF'', ''0x0006_0FFF''), (''0x0005_0000'', ''0x0006_0000''),
      (''0x0006_0FFF'', ''0x0007_0FFF''), (''0x0006_0000'', ''0x0007_0000''), (''0x0007_0FFF'', ''0x0008_0FFF''), (''0x0007_0000'', ''0x0008_0000''),
      (''0x0008_0FFF'', ''0x0009_0FFF''), (''0x0008_0000'', ''0x0009_0000''), (''0x0009_0FFF'', ''0x000A_0FFF''), (''0x0009_0000'', ''0x000A_0000''),
      (''0x000A_FFFF'', ''0x000B_FFFF''), (''0x000A_FFFF'', ''0x000B_FFFF''), (''0x000A_0000'', ''0x000B_0000''), (''0x000B_0FFF'', ''0x000C_0FFF''),
      (''0x000B_0000'', ''0x000C_0000''), (''0x000C_0FFF'', ''0x000D_0FFF''), (''0x000C_0000'', ''0x000D_0000''), (''0x000D_0FFF'', ''0x000E_0FFF''),
      (''0x000D_001C'', ''0x000E_001C''), (''0x000D_0020'', ''0x000E_0020''), (''0x000D_0028'', ''0x000E_0028''), (''0x000D_0030'', ''0x000E_0030''),
      (''0x000D_0040'', ''0x000E_0040''), (''0x000D_0060'', ''0x000E_0060''), (''0x000D_0064'', ''0x000E_0064''), (''0x000D_0068'', ''0x000E_0068''),
      (''0x000D_006C'', ''0x000E_006C''), (''0x000D_0070'', ''0x000E_0070''), (''0x000D_0074'', ''0x000E_0074''), (''0x000D_0078'', ''0x000E_0078''),
      (''0x000D_0000'', ''0x000E_0000''), (''0x000E_0FFF'', ''0x000F_0FFF''), (''0x000E_0007'', ''0x000F_0007''), (''0x000E_0004'', ''0x000F_0004''),
      (''0x000E_0003'', ''0x000F_0003''), (''0x000E_0002'', ''0x000F_0002''), (''0x000E_0001'', ''0x000F_0001''), (''0x000E_0000'', ''0x000F_0000''),
      (''0x000F_0FFF'', ''0x0010_0FFF''), (''0x000F_003C'', ''0x0010_003C''), (''0x000F_0038'', ''0x0010_0038''), (''0x000F_0034'', ''0x0010_0034''),
      (''0x000F_0030'', ''0x0010_0030''), (''0x000F_002C'', ''0x0010_002C''), (''0x000F_0028'', ''0x0010_0028''), (''0x000F_0024'', ''0x0010_0024''),
      (''0x000F_0020'', ''0x0010_0020''), (''0x000F_001C'', ''0x0010_001C''), (''0x000F_0018'', ''0x0010_0018''), (''0x000F_0014'', ''0x0010_0014''),
      (''0x000F_0010'', ''0x0010_0010''), (''0x000F_0004'', ''0x0010_0004''), (''0x000F_0000'', ''0x0010_0000''), (''0x0010_0FFF'', ''0x0011_0FFF''),
      (''0x0010_000C'', ''0x0011_000C''), (''0x0010_0008'', ''0x0011_0008''), (''0x0010_0004'', ''0x0011_0004''), (''0x0010_0000'', ''0x0011_0000''),
      (''0x0011_0000'', ''0x0012_0000''), (''Expansion to 64 KB total'', ''Expansion to 128 KB total''),
      (''Placeholder @ 0x0001_0000 in existing interconnect.'', ''Placeholder @ 0x0001_0000 in existing interconnect.''),
      (''Gap: 0x0000_0000'' @ ndash @ ''0x0001_FFFF interior'' @ nl @ ''(between Instr Mem and Data Mem)'', ''Gap: 0x0000_0000'' @ ndash @ ''0x0002_FFFF interior'' @ nl @ ''(between Instr Mem and Data Mem)''),
      (''Occupied by Instruction Memory (0x0000_0000) and Data Memory (0x0001_0000). No u'', ''Occupied by Instruction Memory (0x0000_0000) and Data Memory (0x0001_0000'' @ ndash @ ''0x0002_FFFF). No u''),
      (''Gap: above Data Memory to UART'', ''Gap: above extended Data Memory to UART''),
      (''Slot reserved at 0x0004_0000.'' @ nl @ ''Pending from team.'', ''Slot reserved at 0x0005_0000.'' @ nl @ ''Pending from team.''),
      (''Slot reserved at 0x0006_0000.'' @ nl @ ''Pending from team.'', ''Slot reserved at 0x0007_0000.'' @ nl @ ''Pending from team.''),
      (''No RTL found. Slot reserved at 0x0004_0000 in full SoC map.'', ''No RTL found. Slot reserved at 0x0005_0000 in full SoC map.''),
      (''No RTL found. Slot reserved at 0x0005_0000 in full SoC map.'', ''No RTL found. Slot reserved at 0x0006_0000 in full SoC map.''),
      (''No RTL found. Slot reserved at 0x0006_0000 in full SoC map.'', ''No RTL found. Slot reserved at 0x0007_0000 in full SoC map.''),
      (''No RTL found. Slot reserved at 0x0007_0000 in full SoC map.'', ''No RTL found. Slot reserved at 0x0008_0000 in full SoC map.''),
      (''No RTL found. Slot reserved at 0x0008_0000.'', ''No RTL found. Slot reserved at 0x0009_0000.''),
      (''No RTL found. Slot reserved at 0x0009_0000.'', ''No RTL found. Slot reserved at 0x000A_0000.''),
      (''No RTL found. Slot reserved at 0x000A_0000.'', ''No RTL found. Slot reserved at 0x000B_0000.''),
      (''No RTL found. Slot reserved at 0x000B_0000.'', ''No RTL found. Slot reserved at 0x000C_0000.''),
      (''No RTL found. Slot reserved at 0x000C_0000.'', ''No RTL found. Slot reserved at 0x000D_0000.''),
      (''[0x0000] [0x0001][0x0002][0x000D][0x000E][0x000F][0x0010][0x000A+]'', ''[0x0000] [0x0001][0x0003][0x000E][0x000F][0x0010][0x0011][0x000B+]'')]"

definition apply_replacements :: "(string \<times> string) list \<Rightarrow> string \<Rightarrow> string" where
  "apply_replacements reps s = fold (\<lambda>(old, new) s. if contains old s then py_replace old new s else s) reps s"

subsection \<open>All replacements in one pass\<close>

definition ADDR_TABLE :: "(string \<times> string) list" where
  "ADDR_TABLE =
     [(''0x0001_FFFF'', ''0x0002_FFFF''), (''0x0002_0000'', ''0x0003_0000''), (''0x0002_0004'', ''0x0003_0004''), (''0x0002_0008'', ''0x0003_0008''),
      (''0x0002_000C'', ''0x0003_000C''), (''0x0002_0014'', ''0x0003_0014''), (''0x0002_0FFF'', ''0x0003_0FFF''), (''0x0004_0000'', ''0x0005_0000''),
      (''0x0004_0FFF'', ''0x0005_0FFF''), (''0x0005_0000'', ''0x0006_0000''), (''0x0005_0FFF'', ''0x0006_0FFF''), (''0x0006_0000'', ''0x0007_0000''),
      (''0x0006_0FFF'', ''0x0007_0FFF''), (''0x0007_0000'', ''0x0008_0000''), (''0x0007_0FFF'', ''0x0008_0FFF''), (''0x0008_0000'', ''0x0009_0000''),
      (''0x0008_0FFF'', ''0x0009_0FFF''), (''0x0009_0000'', ''0x000A_0000''), (''0x0009_0FFF'', ''0x000A_0FFF''), (''0x000A_0000'', ''0x000B_0000''),
      (''0x000A_FFFF'', ''0x000B_FFFF''), (''0x000B_0000'', ''0x000C_0000''), (''0x000B_0FFF'', ''0x000C_0FFF''), (''0x000C_0000'', ''0x000D_0000''),
      (''0x000C_0FFF'', ''0x000D_0FFF''), (''0x000D_0000'', ''0x000E_0000''), (''0x000D_001C'', ''0x000E_001C''), (''0x000D_0020'', ''0x000E_0020''),
      (''0x000D_0028'', ''0x000E_0028''), (''0x000D_0030'', ''0x000E_0030''), (''0x000D_0040'', ''0x000E_0040''), (''0x000D_0060'', ''0x000E_0060''),
      (''0x000D_0064'', ''0x000E_0064''), (''0x000D_0068'', ''0x000E_0068''), (''0x000D_006C'', ''0x000E_006C''), (''0x000D_0070'', ''0x000E_0070''),
      (''0x000D_0074'', ''0x000E_0074''), (''0x000D_0078'', ''0x000E_0078''), (''0x000D_0FFF'', ''0x000E_0FFF''), (''0x000E_0000'', ''0x000F_0000''),
      (''0x000E_0001'', ''0x000F_0001''), (''0x000E_0002'', ''0x000F_0002''), (''0x000E_0003'', ''0x000F_0003''), (''0x000E_0004'', ''0x000F_0004''),
      (''0x000E_0007'', ''0x000F_0007''), (''0x000E_0FFF'', ''0x000F_0FFF''), (''0x000F_0000'', ''0x0010_0000''), (''0x000F_0004'', ''0x0010_0004''),
      (''0x000F_0010'', ''0x0010_0010''), (''0x000F_0014'', ''0x0010_0014''), (''0x000F_0018'', ''0x0010_0018''), (''0x000F_001C'', ''0x0010_001C''),
      (''0x000F_0020'', ''0x0010_0020''), (''0x000F_0024'', ''0x0010_0024''), (''0x000F_0028'', ''0x0010_0028''), (''0x000F_002C'', ''0x0010_002C''),
      (''0x000F_0030'', ''0x0010_0030''), (''0x000F_0034'', ''0x0010_0034''), (''0x000F_0038'', ''0x0010_0038''), (''0x000F_003C'', ''0x0010_003C''),
      (''0x000F_0FFF'', ''0x0010_0FFF''), (''0x0010_0000'', ''0x0011_0000''), (''0x0010_0004'', ''0x0011_0004''), (''0x0010_0008'', ''0x0011_0008''),
      (''0x0010_000C'', ''0x0011_000C''), (''0x0010_0FFF'', ''0x0011_0FFF''), (''0x0011_0000'', ''0x0012_0000'')]"

text \<open>
  \<open>pattern.sub\<close>: at each position the first key of the alternation that matches, and on behind the match.
\<close>

function sub_table :: "(string \<times> string) list \<Rightarrow> string \<Rightarrow> string" where
  "sub_table tab [] = []"
| "sub_table tab (c # s) = (case find (\<lambda>(k, v). prefix k (c # s)) tab of
     Some (k, v) \<Rightarrow> v @ sub_table tab (drop (length k - 1) s)
   | None \<Rightarrow> c # sub_table tab s)"
  by pat_completeness auto

termination
  by (relation "measure (\<lambda>(tab, s). length s)") auto

definition replace_addrs :: "string \<Rightarrow> string" where
  "replace_addrs = sub_table ADDR_TABLE"

subsection \<open>The scripts\<close>

text \<open>The pass over all cells, with the number of cells it changed.\<close>

definition substitute :: "(string \<Rightarrow> string) \<Rightarrow> workbook \<Rightarrow> workbook \<times> nat" where
  "substitute f wb =
     (map (\<lambda>(name, rows). (name, map (map (map_option f)) rows)) wb,
      length (filter (\<lambda>v. v \<noteq> None \<and> map_option f v \<noteq> v) (concat (concat (map snd wb)))))"

definition sheet_at :: "workbook \<Rightarrow> string \<Rightarrow> row list py" where
  "sheet_at wb name = (case map_of wb name of None \<Rightarrow> Inl KeyError | Some rows \<Rightarrow> Inr rows)"

definition put_sheet :: "string \<Rightarrow> row list \<Rightarrow> workbook \<Rightarrow> workbook" where
  "put_sheet name rows wb = map (\<lambda>(n, r). if n = name then (n, rows) else (n, r)) wb"

text \<open>The first row about the data memory, in the address map and in the inventory.\<close>

definition patch_map_row :: "row \<Rightarrow> (row \<times> nat) py" where
  "patch_map_row r = bind_py (cell_at r 3) (\<lambda>sz. bind_py (cell_at r 5) (\<lambda>ex.
     let (r1, n1) = (if truthy sz \<and> contains ''64 KB'' (text_of sz) then (r[3 := Some ''128 KB''], 1) else (r, 0));
         new = py_replace ''Expansion to 64 KB total'' ''Expansion to 128 KB total'' (text_of ex);
         (r2, n2) = (if truthy ex \<and> new \<noteq> text_of ex then (r1[5 := Some new], n1 + 1) else (r1, n1))
     in Inr (r2, n2)))"

fun patch_data_memory :: "(row \<Rightarrow> (row \<times> nat) py) \<Rightarrow> row list \<Rightarrow> (row list \<times> nat) py" where
  "patch_data_memory f [] = Inr ([], 0)"
| "patch_data_memory f (r # rs) = bind_py (cell_at r 0) (\<lambda>v.
     if truthy v \<and> contains ''Data Memory'' (text_of v) then bind_py (f r) (\<lambda>(r', n). Inr (r' # rs, n))
     else bind_py (patch_data_memory f rs) (\<lambda>(rs', n). Inr (r # rs', n)))"

definition patch_inventory_row :: "row \<Rightarrow> (row \<times> nat) py" where
  "patch_inventory_row r = bind_py (cell_at r 7) (\<lambda>nc.
     let new = py_replace ''Placeholder @ 0x0001_0000 in existing interconnect.''
           (''Placeholder @ 0x0001_0000'' @ ndash @ ''0x0002_FFFF (128 KB) in existing interconnect.'') (text_of nc)
     in if truthy nc \<and> new \<noteq> text_of nc then Inr (r[7 := Some new], 1) else Inr (r, 0))"

text \<open>\<open>GAP\<close> rows and notes of the reserved space, in the second script.\<close>

definition patch_reserved_row :: "row \<Rightarrow> (row \<times> nat) py" where
  "patch_reserved_row r = bind_py (cell_at r 0) (\<lambda>v0. bind_py (cell_at r 4) (\<lambda>v4.
     let region = text_of v0; notes = text_of v4;
         (r1, n1) = (if contains ''above Data Memory to UART'' region then
            (r[4 := Some (''UART occupies 0x0003_0000'' @ ndash @ ''0x0003_0FFF. No gap between Data Memory end (0x0002_FFFF) and UART start (0x0003_0000).'')], 1) else (r, 0 :: nat));
         (r2, n2) = (if contains ''GAP: 0x0003_0000'' region \<or> contains ''UNALLOCATED'' notes then
            (r1[0 := Some (''GAP: 0x0003_1000 '' @ ndash @ '' 0x0003_FFFF'' @ nl @ ''(above UART, below Timer)''), 1 := Some ''0x0003_1000'', 2 := Some ''0x0003_FFFF'',
              3 := Some ''~60 KB'', 4 := Some (''PARTIALLY UNALLOCATED. UART occupies 0x0003_0000'' @ ndash @ ''0x0003_0FFF (4 KB). Remaining 0x0003_1000'' @ ndash @ ''0x0003_FFFF (~60 KB) is expansion space for UART or additional small peripheral.'')], n1 + 1) else (r1, n1));
         (r3, n3) = (if contains ''0x0001_FFFF'' region then (r2[0 := Some (py_replace ''0x0001_FFFF'' ''0x0002_FFFF'' region)], n2 + 1) else (r2, n2));
         (r4, n4) = (if contains ''Data Memory (0x0001_0000). No u'' notes \<or> contains ''Data Memory (0x0001_0000)'' notes then
            (r3[4 := Some (py_replace ''Data Memory (0x0001_0000)'' (''Data Memory (0x0001_0000'' @ ndash @ ''0x0002_FFFF)'')
               (py_replace ''Data Memory (0x0001_0000). No u'' (''Data Memory (0x0001_0000'' @ ndash @ ''0x0002_FFFF). No u'') notes))], n3 + 1) else (r3, n3))
     in Inr (r4, n4)))"

fun patch_rows :: "(row \<Rightarrow> (row \<times> nat) py) \<Rightarrow> row list \<Rightarrow> (row list \<times> nat) py" where
  "patch_rows f [] = Inr ([], 0)"
| "patch_rows f (r # rs) = bind_py (f r) (\<lambda>(r', n). bind_py (patch_rows f rs) (\<lambda>(rs', m). Inr (r' # rs', n + m)))"

definition patch_decode_row :: "row \<Rightarrow> (row \<times> nat) py" where
  "patch_decode_row r = bind_py (cell_at r 0) (\<lambda>v.
     if v \<noteq> None \<and> contains ''M01'' (text_of v) \<and> contains ''Data Memory'' (text_of v) \<and> contains ''64 KB'' (text_of v)
     then Inr (r[0 := Some (py_replace_1 ''64 KB'' ''128 KB'' (text_of v))], 1) else Inr (r, 0))"

definition patch_art_row :: "row \<Rightarrow> (row \<times> nat) py" where
  "patch_art_row r = bind_py (cell_at r 0) (\<lambda>v.
     let old_art = ''[0x0000] [0x0001][0x0002][0x000D][0x000E][0x000F][0x0010][0x000A+]'';
         new_art = ''[0x0000] [0x0001][0x0003][0x000E][0x000F][0x0010][0x0011][0x000B+]''
     in if v \<noteq> None \<and> contains old_art (text_of v) then Inr (r[0 := Some (py_replace old_art new_art (text_of v))], 1) else Inr (r, 0))"

definition patch_sheet ::
  "string \<Rightarrow> (row list \<Rightarrow> (row list \<times> nat) py) \<Rightarrow> workbook \<times> nat \<Rightarrow> (workbook \<times> nat) py" where
  "patch_sheet name f s = (case s of (wb, cnt) \<Rightarrow>
     bind_py (sheet_at wb name) (\<lambda>rows. bind_py (f rows) (\<lambda>(rows', n). Inr (put_sheet name rows' wb, cnt + n))))"

definition update_v2 :: "workbook \<Rightarrow> (workbook \<times> nat) py" where
  "update_v2 wb =
     bind_py (patch_sheet ''SoC_Address_Map'' (patch_data_memory patch_map_row) (substitute replace_addrs wb)) (\<lambda>s1.
     bind_py (patch_sheet ''Reserved_Address_Space'' (patch_rows patch_reserved_row) s1) (\<lambda>s2.
     bind_py (patch_sheet ''IP_Inventory'' (patch_data_memory patch_inventory_row) s2) (\<lambda>s3.
     bind_py (patch_sheet ''Integration_Architecture'' (patch_rows patch_decode_row) s3) (\<lambda>s4.
       patch_sheet ''Integration_Architecture'' (patch_rows patch_art_row) s4))))"

text \<open>The first script: the first \<open>GAP\<close> row, and the first row about the space above the data memory.\<close>

definition patch_gap_row :: "row \<Rightarrow> (row \<times> nat) py" where
  "patch_gap_row r = (if length r < 5 then Inl IndexError
     else Inr (r[0 := Some (''GAP: 0x0003_1000 '' @ ndash @ '' 0x0003_FFFF'' @ nl @ ''(above UART to next IP)''), 1 := Some ''0x0003_1000'', 2 := Some ''0x0003_FFFF'',
       3 := Some ''~60 KB'', 4 := Some (''PARTIALLY UNALLOCATED. UART occupies 0x0003_0000'' @ ndash @ ''0x0003_0FFF (4 KB). Remaining 0x0003_1000'' @ ndash @ ''0x0003_FFFF (~60 KB) is expansion space for UART or an additional small peripheral if needed.'')], 1))"

definition patch_above_row :: "row \<Rightarrow> (row \<times> nat) py" where
  "patch_above_row r = Inr (r[4 := Some (''UART occupies 0x0003_0000'' @ ndash @ ''0x0003_0FFF. No gap between Data Memory end (0x0002_FFFF) and UART start (0x0003_0000).'')], 1)"

fun patch_first :: "(string \<Rightarrow> bool) \<Rightarrow> nat \<Rightarrow> (row \<Rightarrow> (row \<times> nat) py) \<Rightarrow> row list \<Rightarrow> (row list \<times> nat) py" where
  "patch_first P k f [] = Inr ([], 0)"
| "patch_first P k f (r # rs) = bind_py (cell_at r 0) (\<lambda>v. bind_py (cell_at r k) (\<lambda>_.
     if P (text_of v) then bind_py (f r) (\<lambda>(r', n). Inr (r' # rs, n))
     else bind_py (patch_first P k f rs) (\<lambda>(rs', n). Inr (r # rs', n))))"

definition patch_workbook :: "workbook \<Rightarrow> (workbook \<times> nat) py" where
  "patch_workbook wb =
     bind_py (patch_sheet ''SoC_Address_Map'' (patch_data_memory patch_map_row) (substitute (apply_replacements ADDR_MAP) wb)) (\<lambda>s1.
     bind_py (patch_sheet ''Reserved_Address_Space''
       (patch_first (\<lambda>v. contains ''GAP: 0x0003_0000'' v \<or> contains ''GAP: 0x0004_0000'' v) 0 patch_gap_row) s1) (\<lambda>s2.
     bind_py (patch_sheet ''Reserved_Address_Space''
       (patch_first (contains ''above extended Data Memory to UART'') 4 patch_above_row) s2) (\<lambda>s3.
       patch_sheet ''Integration_Architecture'' (patch_rows patch_decode_row) s3)))"

section \<open>One pass replaces every address once\<close>

text \<open>
  The shape of the keys: eleven characters, \<open>0x\<close> and no other \<open>x\<close>, and a hexadecimal digit before the last.
\<close>

definition hex_digits_list :: string where
  "hex_digits_list = ''0123456789ABCDEF''"

definition key_ok :: "string \<Rightarrow> bool" where
  "key_ok k \<longleftrightarrow> length k = 11 \<and> take 2 k = ''0x'' \<and> CHR ''x'' \<notin> set (drop 2 k) \<and> k ! 9 \<in> set hex_digits_list"

definition table_ok :: "(string \<times> string) list \<Rightarrow> bool" where
  "table_ok tab \<longleftrightarrow> list_all key_ok (map fst tab) \<and> distinct (map fst tab)"

lemma ADDR_TABLE_ok: "table_ok ADDR_TABLE"
proof -
  have "list_all key_ok (map fst ADDR_TABLE)" by code_simp
  moreover have "distinct (map fst ADDR_TABLE)" by code_simp
  ultimately show ?thesis by (simp add: table_ok_def)
qed

lemma key_ok_x:
  assumes "key_ok k" "2 \<le> i" "i < 11"
  shows "k ! i \<noteq> CHR ''x''"
proof -
  have "drop 2 k ! (i - 2) \<in> set (drop 2 k)" using assms by (intro nth_mem) (simp add: key_ok_def)
  moreover have "drop 2 k ! (i - 2) = k ! (2 + (i - 2))" using assms by (intro nth_drop) (simp add: key_ok_def)
  moreover have "2 + (i - 2) = i" using assms(2) by simp
  ultimately show ?thesis using assms(1) by (metis key_ok_def)
qed

lemma no_straddle:
  assumes "key_ok k" "key_ok k'" "p \<noteq> []" "length p < 11" "last p \<notin> set hex_digits_list"
  shows "\<not> prefix k' (p @ k @ s)"
proof
  assume "prefix k' (p @ k @ s)"
  then obtain t where t: "p @ k @ s = k' @ t" by (auto simp: prefix_def)
  have len: "length k' = 11" "length k = 11" using assms(1,2) by (simp_all add: key_ok_def)
  have nth: "(p @ k @ s) ! i = k' ! i" if "i < 11" for i using that len(1) by (simp add: t nth_append)
  show False
  proof (cases "length p = 10")
    case True
    then have "p ! 9 = last p" using assms(3) by (simp add: last_conv_nth)
    moreover have "(p @ k @ s) ! 9 = p ! 9" using True by (simp add: nth_append)
    ultimately show False using nth [of 9] assms(2,5) by (simp add: key_ok_def)
  next
    case False
    let ?i = "length p + 1"
    have "take 2 k ! 1 = k ! 1" by (rule nth_take) simp
    moreover have "take 2 k ! 1 = CHR ''x''" using assms(1) by (simp add: key_ok_def)
    ultimately have "k ! 1 = CHR ''x''" by (rule trans [OF sym])
    then have "(p @ k @ s) ! ?i = CHR ''x''" using len(2) by (simp add: nth_append)
    moreover have "2 \<le> ?i" "?i < 11" using False assms(3,4) by (cases p; simp)+
    ultimately show False using nth [of ?i] key_ok_x [OF assms(2), of ?i] by simp
  qed
qed

lemma key_prefix_append:
  assumes "key_ok k" "key_ok k'" "p \<noteq> []" "last p \<notin> set hex_digits_list"
  shows "prefix k' (p @ k @ s) \<longleftrightarrow> prefix k' p"
proof
  assume "prefix k' (p @ k @ s)"
  moreover from no_straddle [OF assms(1-3) _ assms(4)] this have "11 \<le> length p" by (meson not_le)
  ultimately show "prefix k' p" using assms(2) by (metis key_ok_def prefix_length_prefix prefix_append prefixI)
qed (simp add: prefix_append)

lemma find_key:
  assumes "table_ok tab" "(k, v) \<in> set tab"
  shows "find (\<lambda>(k', v'). prefix k' (k @ s)) tab = Some (k, v)"
proof -
  have len: "length k' = 11" if "(k', v') \<in> set tab" for k' v'
    using assms(1) that by (auto simp: table_ok_def list_all_iff key_ok_def)
  have eq: "k' = k \<and> v' = v" if "(k', v') \<in> set tab" "prefix k' (k @ s)" for k' v'
  proof -
    have "prefix k' k" using that len [OF that(1)] len [OF assms(2)] by (metis order_refl prefixI prefix_length_prefix)
    then have "k' = k" using len [OF that(1)] len [OF assms(2)] by (metis append_eq_conv_conj prefix_def take_all order_refl)
    then show ?thesis using assms that(1) by (metis eq_key_imp_eq_value table_ok_def)
  qed
  have "find (\<lambda>(k', v'). prefix k' (k @ s)) tab \<noteq> None" using assms(2) by (auto simp: find_None_iff)
  then obtain k' v' where f: "find (\<lambda>(k', v'). prefix k' (k @ s)) tab = Some (k', v')" by auto
  then have "(k', v') \<in> set tab" "prefix k' (k @ s)" by (auto simp: find_Some_iff dest: nth_mem)
  with eq f show ?thesis by auto
qed

lemma sub_table_append:
  assumes tab: "table_ok tab" and kv: "(k, v) \<in> set tab"
  shows "p = [] \<or> last p \<notin> set hex_digits_list \<Longrightarrow> sub_table tab (p @ k @ s) = sub_table tab p @ v @ sub_table tab s"
proof (induction p rule: length_induct)
  case (1 p)
  have ok: "key_ok k'" if "(k', v') \<in> set tab" for k' v' using tab that by (auto simp: table_ok_def list_all_iff)
  show ?case
  proof (cases p)
    case Nil
    obtain c k1 where k: "k = c # k1" "length k1 = 10" using ok [OF kv] by (cases k) (auto simp: key_ok_def)
    then show ?thesis using find_key [OF tab kv, of s] by (simp add: Nil)
  next
    case (Cons c p1)
    then have last: "last p \<notin> set hex_digits_list" using "1.prems" by simp
    have f: "find (\<lambda>(k', v'). prefix k' (p @ k @ s)) tab = find (\<lambda>(k', v'). prefix k' p) tab"
    proof (rule find_cong)
      fix x assume x: "x \<in> set tab"
      obtain k' v' where "x = (k', v')" by fastforce
      with x ok have "x = (k', v')" "key_ok k'" by blast+
      then show "(case x of (k', v') \<Rightarrow> prefix k' (p @ k @ s)) = (case x of (k', v') \<Rightarrow> prefix k' p)"
        using key_prefix_append [OF ok [OF kv] _ _ last] Cons by simp
    qed simp
    show ?thesis
    proof (cases "find (\<lambda>(k', v'). prefix k' p) tab")
      case None
      have "sub_table tab (p1 @ k @ s) = sub_table tab p1 @ v @ sub_table tab s"
        using Cons last by (intro "1.IH" [rule_format]) auto
      with None f show ?thesis by (simp add: Cons)
    next
      case (Some kv')
      obtain k' v' where kv': "kv' = (k', v')" by (cases kv')
      from Some have m: "(k', v') \<in> set tab" "prefix k' p" by (auto simp: find_Some_iff kv' dest: nth_mem)
      then obtain p2 where p2: "p = k' @ p2" by (auto simp: prefix_def)
      have len: "length k' = 11" using ok [OF m(1)] by (simp add: key_ok_def)
      then have d: "drop (length k' - 1) p1 = p2" "drop (length k' - 1) (p1 @ k @ s) = p2 @ k @ s"
        using p2 Cons by (cases k'; simp)+
      have "sub_table tab (p2 @ k @ s) = sub_table tab p2 @ v @ sub_table tab s"
        using p2 last len by (intro "1.IH" [rule_format]) auto
      with Some f d kv' show ?thesis by (simp add: Cons)
    qed
  qed
qed

lemma sub_table_none:
  "(\<And>k v t. (k, v) \<in> set tab \<Longrightarrow> suffix t s \<Longrightarrow> t \<noteq> [] \<Longrightarrow> \<not> prefix k t) \<Longrightarrow> sub_table tab s = s"
proof (induction s)
  case (Cons c s)
  have "find (\<lambda>(k, v). prefix k (c # s)) tab = None"
    using Cons.prems by (auto simp: find_None_iff)
  moreover have "sub_table tab s = s" using Cons.prems by (intro Cons.IH) (meson suffix_ConsI)
  ultimately show ?case by simp
qed simp

lemma replace_addrs_short:
  assumes "length s \<le> 11"
  shows "replace_addrs s = (case map_of ADDR_TABLE s of Some v \<Rightarrow> v | None \<Rightarrow> s)"
proof (cases "map_of ADDR_TABLE s")
  case None
  have "\<not> prefix k t" if "(k, v) \<in> set ADDR_TABLE" "suffix t s" for k v t
  proof
    assume "prefix k t"
    moreover have k: "length k = 11" using ADDR_TABLE_ok that(1) by (auto simp: table_ok_def list_all_iff key_ok_def)
    moreover have "length t \<le> length s" using that(2) by (rule suffix_length_le)
    ultimately have "k = t" "t = s" using assms that(2)
      by (metis le_antisym prefix_length_le order_trans prefix_def append_eq_conv_conj take_all order_refl,
          metis le_antisym prefix_length_le order_trans suffix_length_le suffix_def append_eq_append_conv append_Nil)
    with None that(1) show False by (auto simp: map_of_eq_None_iff image_iff)
  qed
  then show ?thesis using None unfolding replace_addrs_def by (simp add: sub_table_none)
next
  case (Some v)
  then have "(s, v) \<in> set ADDR_TABLE" by (rule map_of_SomeD)
  from sub_table_append [OF ADDR_TABLE_ok this, of "[]" "[]"] Some show ?thesis by (simp add: replace_addrs_def)
qed

lemma replace_addrs_none: "CHR ''x'' \<notin> set s \<or> CHR ''0'' \<notin> set s \<Longrightarrow> replace_addrs s = s"
proof -
  assume s: "CHR ''x'' \<notin> set s \<or> CHR ''0'' \<notin> set s"
  have "\<not> prefix k t" if "(k, v) \<in> set ADDR_TABLE" "suffix t s" for k v t
  proof
    assume "prefix k t"
    then have "set k \<subseteq> set s" using set_mono_prefix set_mono_suffix that(2) by blast
    moreover have "take 2 k = ''0x''" using ADDR_TABLE_ok that(1) by (auto simp: table_ok_def list_all_iff key_ok_def)
    then have "CHR ''x'' \<in> set k" "CHR ''0'' \<in> set k" by (metis in_set_takeD list.set_intros)+
    ultimately show False using s by blast
  qed
  then show ?thesis unfolding replace_addrs_def by (simp add: sub_table_none)
qed

text \<open>The number an address stands for.\<close>

definition hex_digit_val :: "char \<Rightarrow> int" where
  "hex_digit_val c = (let n = of_char c :: nat in if n < 58 then int n - 48 else int n - 55)"

definition addr_val :: "string \<Rightarrow> int" where
  "addr_val s = foldl (\<lambda>v c. 16 * v + hex_digit_val c) 0 (filter (\<lambda>c. c \<noteq> CHR ''_'') (drop 2 s))"

lemma ADDR_TABLE_moves: "list_all (\<lambda>(k, v). addr_val v = addr_val k + 0x10000) ADDR_TABLE"
  by code_simp

text \<open>
  Remark: in one pass every address of the table is moved exactly once. Wherever it stands in a text (not behind a hexadecimal digit), it is replaced by
  the address 64 KB above it, which is not replaced again although it may be in the table itself, and the text before and after it is
  treated as if it stood alone.
\<close>

theorem replace_addrs_once:
  assumes "(k, v) \<in> set ADDR_TABLE" "p = [] \<or> last p \<notin> set hex_digits_list"
  shows "replace_addrs (p @ k @ s) = replace_addrs p @ v @ replace_addrs s \<and> addr_val v = addr_val k + 0x10000"
  using sub_table_append [OF ADDR_TABLE_ok assms] ADDR_TABLE_moves assms(1) by (auto simp: replace_addrs_def list_all_iff)

theorem replace_addrs_once_witness:
  "replace_addrs (''Slot at '' @ ''0x0004_0000'' @ ''.'') = ''Slot at 0x0005_0000.'' \<and> addr_val ''0x0005_0000'' = addr_val ''0x0004_0000'' + 0x10000"
proof -
  have k: "(''0x0004_0000'', ''0x0005_0000'') \<in> set ADDR_TABLE" by (simp add: ADDR_TABLE_def)
  have "replace_addrs ''Slot at '' = ''Slot at ''" "replace_addrs ''.'' = ''.''" by (simp_all add: replace_addrs_none)
  with replace_addrs_once [OF k, of "''Slot at ''" "''.''"] show ?thesis by (simp add: hex_digits_list_def)
qed

text \<open>On a text of eleven characters a replacement by that length acts on the whole text or not at all.\<close>

definition replaces_11 :: "string \<times> string \<Rightarrow> bool" where
  "replaces_11 x \<longleftrightarrow> 11 < length (fst x) \<or> length (fst x) = 11 \<and> length (snd x) = 11"

lemma contains_length: "contains pat s \<Longrightarrow> length pat \<le> length s"
  by (induction s) (auto dest: prefix_length_le)

lemma contains_same_length: "length pat = length s \<Longrightarrow> contains pat s \<longleftrightarrow> pat = s"
proof (cases s)
  case (Cons c s')
  assume l: "length pat = length s"
  have "\<not> contains pat s'" using contains_length [of pat s'] l Cons by auto
  moreover have "prefix pat s \<longleftrightarrow> pat = s" using l by (auto simp: prefix_def)
  ultimately show ?thesis using Cons by simp
qed simp

lemma py_replace_self: "s \<noteq> [] \<Longrightarrow> py_replace s new s = new"
  by (cases s) simp_all

definition replace_1 :: "string \<times> string \<Rightarrow> string \<Rightarrow> string" where
  "replace_1 x s = (if fst x = s then snd x else s)"

lemma apply_replacements_11:
  "list_all replaces_11 reps \<Longrightarrow> length s = 11 \<Longrightarrow>
   apply_replacements reps s = fold replace_1 reps s"
proof (induction reps arbitrary: s)
  case (Cons x reps)
  obtain old new where x: "x = (old, new)" by fastforce
  have c: "contains old s \<longleftrightarrow> old = s"
    using Cons.prems contains_length [of old s] contains_same_length [of old s] by (auto simp: x replaces_11_def)
  have "s \<noteq> []" using Cons.prems(2) by auto
  then have "(if contains old s then py_replace old new s else s) = (if old = s then new else s)"
    unfolding c by (auto simp: py_replace_self)
  moreover have "length (if old = s then new else s) = 11" using Cons.prems by (auto simp: x replaces_11_def)
  ultimately show ?case using Cons by (simp add: apply_replacements_def x replace_1_def)
qed (simp add: apply_replacements_def)

lemma ADDR_MAP_11: "list_all replaces_11 ADDR_MAP"
  by (simp add: ADDR_MAP_def replaces_11_def nl_def ndash_def)

text \<open>On base addresses, which end in four zeros, only the replacements of base addresses matter.\<close>

definition is_base :: "string \<Rightarrow> bool" where
  "is_base s \<longleftrightarrow> drop 7 s = ''0000''"

lemma fold_bases:
  "list_all (\<lambda>x. is_base (fst x) \<longrightarrow> is_base (snd x)) reps \<Longrightarrow> is_base s \<Longrightarrow>
   fold replace_1 reps s = fold replace_1 (filter (is_base \<circ> fst) reps) s"
  by (induction reps arbitrary: s) (auto simp: replace_1_def)

definition base_moves :: "(string \<times> string) list" where
  "base_moves =
     [(''0x0002_0000'', ''0x0003_0000''), (''0x0004_0000'', ''0x0005_0000''), (''0x0005_0000'', ''0x0006_0000''), (''0x0006_0000'', ''0x0007_0000''),
      (''0x0007_0000'', ''0x0008_0000''), (''0x0008_0000'', ''0x0009_0000''), (''0x0009_0000'', ''0x000A_0000''), (''0x000A_0000'', ''0x000B_0000''),
      (''0x000B_0000'', ''0x000C_0000''), (''0x000C_0000'', ''0x000D_0000''), (''0x000D_0000'', ''0x000E_0000''), (''0x000E_0000'', ''0x000F_0000''),
      (''0x000F_0000'', ''0x0010_0000''), (''0x0010_0000'', ''0x0011_0000''), (''0x0011_0000'', ''0x0012_0000'')]"

lemma ADDR_MAP_bases: "filter (is_base \<circ> fst) ADDR_MAP = base_moves"
  by (simp add: ADDR_MAP_def base_moves_def is_base_def nl_def ndash_def)

lemma base_moves_bases: "list_all (is_base \<circ> snd) base_moves"
  by (simp add: base_moves_def is_base_def)

lemma ADDR_MAP_keeps_bases: "list_all (\<lambda>x. is_base (fst x) \<longrightarrow> is_base (snd x)) ADDR_MAP"
proof -
  have "\<forall>x\<in>set (filter (is_base \<circ> fst) ADDR_MAP). is_base (snd x)"
    unfolding ADDR_MAP_bases using base_moves_bases by (simp add: list_all_iff)
  then show ?thesis by (auto simp: list_all_iff)
qed

lemma fold_chain: "successively (\<lambda>x y. snd x = fst y) (x # xs) \<Longrightarrow> fold replace_1 (x # xs) (fst x) = snd (last (x # xs))"
  by (induction xs arbitrary: x) (simp_all add: replace_1_def)

lemma fold_untouched: "s \<notin> fst ` set xs \<Longrightarrow> fold replace_1 xs s = s"
  by (induction xs) (auto simp: replace_1_def)

lemma base_moves_facts:
  "successively (\<lambda>x y. snd x = fst y) (tl base_moves)" "distinct (map fst base_moves)" "snd (last base_moves) = ''0x0012_0000''"
  by (simp_all add: base_moves_def)

lemma base_moves_chain:
  assumes "x \<in> set (tl base_moves)"
  shows "fold replace_1 base_moves (fst x) = ''0x0012_0000''"
proof -
  obtain pre post where p: "tl base_moves = pre @ x # post" using assms by (meson split_list)
  define b where "b = hd base_moves"
  have "base_moves \<noteq> []" by (simp add: base_moves_def)
  then have bm: "base_moves = (b # pre) @ x # post" using p by (metis append_Cons b_def list.collapse)
  have "fold replace_1 (b # pre) (fst x) = fst x"
    using base_moves_facts(2) unfolding bm by (intro fold_untouched) auto
  moreover have "successively (\<lambda>x y. snd x = fst y) (x # post)" using base_moves_facts(1) unfolding p successively_append_iff by blast
  moreover have "snd (last (x # post)) = ''0x0012_0000''" using base_moves_facts(3) unfolding bm by simp
  ultimately show ?thesis using fold_chain [of x post] unfolding bm fold_append comp_def by simp
qed

lemma base_moves_11: "list_all (\<lambda>x. length (fst x) = 11 \<and> is_base (fst x)) base_moves"
  by (simp add: base_moves_def is_base_def)

text \<open>
  Remark: one replacement after the other moves an address again and again. The first script takes the base addresses of the thirteen blocks
  from the timer to the PWM, and of the free space behind them, to one and the same address.
\<close>

theorem replacements_chain:
  "list_all (\<lambda>x. apply_replacements ADDR_MAP (fst x) = ''0x0012_0000'') (tl base_moves)"
  unfolding list_all_iff
proof
  fix x assume x: "x \<in> set (tl base_moves)"
  then have "x \<in> set base_moves" by (simp add: base_moves_def)
  then have ok: "length (fst x) = 11" "is_base (fst x)" using base_moves_11 by (auto simp: list_all_iff)
  have "apply_replacements ADDR_MAP (fst x) = fold replace_1 base_moves (fst x)"
    unfolding apply_replacements_11 [OF ADDR_MAP_11 ok(1)] fold_bases [OF ADDR_MAP_keeps_bases ok(2)] ADDR_MAP_bases ..
  also have "\<dots> = ''0x0012_0000''" by (rule base_moves_chain [OF x])
  finally show "apply_replacements ADDR_MAP (fst x) = ''0x0012_0000''" .
qed

section \<open>The memory map after the update\<close>

lemma map_of_put_sheet: "map_of (put_sheet name rows wb) k = (if k = name then map_option (\<lambda>_. rows) (map_of wb k) else map_of wb k)"
  by (induction wb) (auto simp: put_sheet_def)

lemma map_of_substitute: "map_of (fst (substitute f wb)) k = map_option (map (map (map_option f))) (map_of wb k)"
  by (induction wb) (auto simp: substitute_def)

lemma patch_sheet_Inr:
  assumes "patch_sheet name f (wb, c) = Inr (wb1, c1)"
  shows "k \<noteq> name \<Longrightarrow> map_of wb1 k = map_of wb k"
    "\<exists>rows rows' m. map_of wb name = Some rows \<and> f rows = Inr (rows', m) \<and> map_of wb1 name = Some rows'"
  using assms by (auto simp: patch_sheet_def sheet_at_def bind_py_eq_Inr map_of_put_sheet split: option.splits)

lemma update_v2_steps:
  assumes "update_v2 wb = Inr (wb', n)"
  obtains wb1 c1 where "patch_sheet ''SoC_Address_Map'' (patch_data_memory patch_map_row) (substitute replace_addrs wb) = Inr (wb1, c1)"
    "\<And>k. k \<noteq> ''Reserved_Address_Space'' \<Longrightarrow> k \<noteq> ''IP_Inventory'' \<Longrightarrow> k \<noteq> ''Integration_Architecture'' \<Longrightarrow> map_of wb' k = map_of wb1 k"
proof -
  from assms obtain wb1 c1 wb2 c2 wb3 c3 wb4 c4 where
    p: "patch_sheet ''SoC_Address_Map'' (patch_data_memory patch_map_row) (substitute replace_addrs wb) = Inr (wb1, c1)"
    "patch_sheet ''Reserved_Address_Space'' (patch_rows patch_reserved_row) (wb1, c1) = Inr (wb2, c2)"
    "patch_sheet ''IP_Inventory'' (patch_data_memory patch_inventory_row) (wb2, c2) = Inr (wb3, c3)"
    "patch_sheet ''Integration_Architecture'' (patch_rows patch_decode_row) (wb3, c3) = Inr (wb4, c4)"
    "patch_sheet ''Integration_Architecture'' (patch_rows patch_art_row) (wb4, c4) = Inr (wb', n)"
    unfolding update_v2_def bind_py_eq_Inr by fastforce
  have "map_of wb' k = map_of wb1 k" if "k \<noteq> ''Reserved_Address_Space''" "k \<noteq> ''IP_Inventory''" "k \<noteq> ''Integration_Architecture''" for k
    using that patch_sheet_Inr(1) [OF p(2)] patch_sheet_Inr(1) [OF p(3)] patch_sheet_Inr(1) [OF p(4)] patch_sheet_Inr(1) [OF p(5)] by simp
  with p(1) show thesis by (rule that)
qed

lemma update_v2_map:
  assumes "update_v2 wb = Inr (wb', n)" "map_of wb ''SoC_Address_Map'' = Some rows"
  shows "\<exists>rows' m. patch_data_memory patch_map_row (map (map (map_option replace_addrs)) rows) = Inr (rows', m) \<and>
    map_of wb' ''SoC_Address_Map'' = Some rows'"
proof -
  obtain wb0 c0 where s0: "substitute replace_addrs wb = (wb0, c0)" by fastforce
  obtain wb1 c1 where p: "patch_sheet ''SoC_Address_Map'' (patch_data_memory patch_map_row) (wb0, c0) = Inr (wb1, c1)"
    "map_of wb' ''SoC_Address_Map'' = map_of wb1 ''SoC_Address_Map''"
    by (rule update_v2_steps [OF assms(1), unfolded s0]) auto
  have "map_of wb0 ''SoC_Address_Map'' = Some (map (map (map_option replace_addrs)) rows)"
    using map_of_substitute [of replace_addrs wb] assms(2) s0 by simp
  then show ?thesis using patch_sheet_Inr(2) [OF p(1)] p(2) by auto
qed

lemma update_v2_other:
  assumes "update_v2 wb = Inr (wb', n)" "k \<notin> {''SoC_Address_Map'', ''Reserved_Address_Space'', ''IP_Inventory'', ''Integration_Architecture''}"
  shows "map_of wb' k = map_option (map (map (map_option replace_addrs))) (map_of wb k)"
proof -
  obtain wb1 c1 where p: "patch_sheet ''SoC_Address_Map'' (patch_data_memory patch_map_row) (substitute replace_addrs wb) = Inr (wb1, c1)" "map_of wb' k = map_of wb1 k"
    by (rule update_v2_steps [OF assms(1)]) (use assms(2) in auto)
  then show ?thesis using patch_sheet_Inr(1) [of _ _ "fst (substitute replace_addrs wb)" "snd (substitute replace_addrs wb)"] assms(2) map_of_substitute by auto
qed

text \<open>The rows with an address in one column, and the numbers in this and in another column.\<close>

definition has_addr :: "nat \<Rightarrow> row \<Rightarrow> bool" where
  "has_addr i r \<longleftrightarrow> take 2 (text_of (r ! i)) = ''0x''"

definition addr_columns :: "nat \<Rightarrow> nat \<Rightarrow> row list \<Rightarrow> (int \<times> int) list" where
  "addr_columns i j rows = map (\<lambda>r. (addr_val (text_of (r ! i)), addr_val (text_of (r ! j)))) (filter (has_addr i) rows)"

text \<open>The regions, with their first and last address, and the registers, with their address and offset.\<close>

definition soc_ranges :: "row list \<Rightarrow> (int \<times> int) list" where
  "soc_ranges = addr_columns 1 2"

definition soc_registers :: "row list \<Rightarrow> (int \<times> int) list" where
  "soc_registers = addr_columns 3 2"

lemma patch_map_ranges:
  "patch_data_memory patch_map_row rows = Inr (rows', m) \<Longrightarrow> soc_ranges rows' = soc_ranges rows"
proof (induction rows arbitrary: rows' m)
  case (Cons r rows)
  from Cons.prems obtain v where v: "cell_at r 0 = Inr v" by (auto simp: bind_py_eq_Inr)
  show ?case
  proof (cases "truthy v \<and> contains ''Data Memory'' (text_of v)")
    case True
    with Cons.prems v obtain r' k where r': "patch_map_row r = Inr (r', k)" "rows' = r' # rows" by (auto simp: bind_py_eq_Inr)
    then have "r' ! 1 = r ! 1" "r' ! 2 = r ! 2" by (auto simp: patch_map_row_def bind_py_eq_Inr Let_def split: if_splits)
    with r'(2) show ?thesis by (simp add: soc_ranges_def addr_columns_def has_addr_def)
  next
    case False
    with Cons.prems v obtain rs k where rs: "patch_data_memory patch_map_row rows = Inr (rs, k)" "rows' = r # rs"
      by (auto simp: bind_py_eq_Inr)
    from Cons.IH [OF rs(1)] rs(2) show ?thesis by (simp add: soc_ranges_def addr_columns_def)
  qed
qed (simp add: soc_ranges_def addr_columns_def)

text \<open>The addresses of the map after the pass.\<close>

definition relocated :: "string \<Rightarrow> string" where
  "relocated s = (case map_of ADDR_TABLE s of Some v \<Rightarrow> v | None \<Rightarrow> s)"

definition new_ranges :: "(int \<times> int) list" where
  "new_ranges =
     [(0xF0040000, 0xF004FFFF), (0xEE000000, 0xEE00FFFF), (0xF00C0000, 0xF00C7FFF), (0x0, 0xFFFF), (0x10000, 0x2FFFF), (0x30000, 0x30FFF), (0x50000, 0x50FFF),
      (0x60000, 0x60FFF), (0x70000, 0x70FFF), (0x80000, 0x80FFF), (0x90000, 0x90FFF), (0xA0000, 0xA0FFF), (0xB0000, 0xBFFFF), (0xC0000, 0xC0FFF), (0xD0000, 0xD0FFF),
      (0xE0000, 0xE0FFF), (0xF0000, 0xF0FFF), (0x100000, 0x100FFF), (0x110000, 0x110FFF), (0x120000, 0x1FFFFF), (0xF00C0000, 0xF00C7FFF), (0xF0040000, 0xF004FFFF),
      (0xEE000000, 0xEE00FFFF)]"

definition moved_columns :: "nat \<Rightarrow> nat \<Rightarrow> row list \<Rightarrow> (int \<times> int) list" where
  "moved_columns i j rows =
     map (\<lambda>r. (addr_val (relocated (text_of (r ! i))), addr_val (relocated (text_of (r ! j))))) (filter (has_addr i) rows)"

lemma moved_ranges: "moved_columns 1 2 sheet_address_map = new_ranges"
  by code_simp

text \<open>In such rows both cells are short texts, which the pass moves as a whole or not at all; in the other rows it leaves the cell alone.\<close>

definition row_ok :: "nat \<Rightarrow> nat \<Rightarrow> nat \<Rightarrow> row \<Rightarrow> bool" where
  "row_ok n i j r \<longleftrightarrow> length r = n \<and>
     (if has_addr i r then length (text_of (r ! i)) \<le> 11 \<and> length (text_of (r ! j)) \<le> 11 \<and> take 2 (relocated (text_of (r ! i))) = ''0x''
      else CHR ''x'' \<notin> set (text_of (r ! i)) \<or> CHR ''0'' \<notin> set (text_of (r ! i)))"

lemma address_rows_ok: "list_all (row_ok 9 1 2) sheet_address_map"
  by code_simp

lemma register_rows_ok: "list_all (row_ok 7 3 2) sheet_register_map"
  by code_simp

lemma text_of_replaced: "text_of (map_option replace_addrs v) = replace_addrs (text_of v)"
  by (cases v) (simp_all add: text_of_def replace_addrs_none)

lemma replace_addrs_relocated: "length s \<le> 11 \<Longrightarrow> replace_addrs s = relocated s"
  by (simp add: replace_addrs_short relocated_def)

lemma replaced_columns:
  "i < n \<Longrightarrow> j < n \<Longrightarrow> list_all (row_ok n i j) rows \<Longrightarrow> addr_columns i j (map (map (map_option replace_addrs)) rows) = moved_columns i j rows"
proof (induction rows)
  case (Cons r rows)
  have len: "length r = n" using Cons.prems by (simp add: row_ok_def)
  show ?case
  proof (cases "has_addr i r")
    case True
    with Cons.prems have "replace_addrs (text_of (r ! i)) = relocated (text_of (r ! i))"
      "replace_addrs (text_of (r ! j)) = relocated (text_of (r ! j))" "take 2 (relocated (text_of (r ! i))) = ''0x''"
      by (simp_all add: row_ok_def replace_addrs_relocated)
    with True Cons len show ?thesis by (simp add: addr_columns_def moved_columns_def has_addr_def text_of_replaced)
  next
    case False
    with Cons.prems have "replace_addrs (text_of (r ! i)) = text_of (r ! i)" by (auto simp: row_ok_def intro: replace_addrs_none)
    with False Cons len show ?thesis by (simp add: addr_columns_def moved_columns_def has_addr_def text_of_replaced)
  qed
qed (simp add: addr_columns_def moved_columns_def)

lemma new_ranges_disjoint: "sorted_wrt (\<lambda>(lo, hi) (lo', hi'). hi < lo' \<or> hi' < lo) (take 20 new_ranges)"
  by (simp add: new_ranges_def)

text \<open>Every register of the map lies at its offset in one of the regions.\<close>

definition registers_inside :: "(int \<times> int) list \<Rightarrow> (int \<times> int) list \<Rightarrow> bool" where
  "registers_inside ranges regs \<longleftrightarrow> list_all (\<lambda>(adr, off). list_ex (\<lambda>(lo, hi). adr = lo + off \<and> adr \<le> hi) ranges) regs"

definition new_registers :: "(int \<times> int) list" where
  "new_registers =
     [(0x30000, 0x0), (0x30000, 0x0), (0x30004, 0x4), (0x30008, 0x8), (0x3000C, 0xC), (0x30014, 0x14), (0xE001C, 0x1C), (0xE0020, 0x20), (0xE0028, 0x28),
      (0xE0030, 0x30), (0xE0040, 0x40), (0xE0060, 0x60), (0xE0064, 0x64), (0xE0068, 0x68), (0xE006C, 0x6C), (0xE0070, 0x70), (0xE0074, 0x74),
      (0xE0078, 0x78), (0xF0000, 0x0), (0xF0001, 0x1), (0xF0002, 0x2), (0xF0003, 0x3), (0xF0004, 0x4), (0xF0007, 0x7), (0x100000, 0x0), (0x100004, 0x4),
      (0x100010, 0x10), (0x100014, 0x14), (0x100018, 0x18), (0x10001C, 0x1C), (0x100020, 0x20), (0x100024, 0x24), (0x100028, 0x28), (0x10002C, 0x2C),
      (0x100030, 0x30), (0x100034, 0x34), (0x100038, 0x38), (0x10003C, 0x3C), (0x110000, 0x0), (0x110004, 0x4), (0x110008, 0x8), (0x11000C, 0xC)]"

lemma moved_registers: "moved_columns 3 2 sheet_register_map = new_registers"
  by code_simp

lemma new_registers_inside: "length new_registers = 42" "registers_inside new_ranges new_registers"
  by code_simp+

text \<open>On rows of nine cells the patch of the data memory raises nothing.\<close>

lemma patch_map_row_Inr: "length r = 9 \<Longrightarrow> \<exists>r' n. patch_map_row r = Inr (r', n)"
  by (auto simp: patch_map_row_def cell_at_def Let_def)

lemma patch_map_returns: "list_all (\<lambda>r. length r = 9) rows \<Longrightarrow> \<exists>rows' n. patch_data_memory patch_map_row rows = Inr (rows', n)"
proof (induction rows)
  case (Cons r rows)
  from Cons obtain rows' n where "patch_data_memory patch_map_row rows = Inr (rows', n)" by auto
  moreover obtain r' k where "patch_map_row r = Inr (r', k)" using patch_map_row_Inr Cons.prems by fastforce
  ultimately show ?case using Cons.prems by (simp add: cell_at_def)
qed simp

lemma update_v2_returns:
  assumes "list_all (\<lambda>r. length r = 9) rows"
  shows "\<exists>wb' n. update_v2 [(''SoC_Address_Map'', rows), (''Register_Map'', regs), (''Reserved_Address_Space'', []), (''IP_Inventory'', []), (''Integration_Architecture'', [])] = Inr (wb', n)"
proof -
  have "list_all (\<lambda>r. length r = 9) (map (map (map_option replace_addrs)) rows)" using assms by (simp add: list_all_iff)
  then obtain rows' m where "patch_data_memory patch_map_row (map (map (map_option replace_addrs)) rows) = Inr (rows', m)"
    using patch_map_returns by blast
  then show ?thesis by (simp add: update_v2_def patch_sheet_def sheet_at_def substitute_def put_sheet_def)
qed



end
