(* ===== verification/Soc_Report.thy ===== *)
theory Soc_Report
  imports Soc_Map
begin

text \<open>
  How \<open>generate_phase1_excel.py\<close> writes the sheets of the Phase 1 workbook: the helpers, and the loop of each sheet over its rows, with the colours it gives to the cells.
  The rows are arguments, except those of the reserved address space; the rows of the address and the register map are in \<open>Soc_Map\<close>. A sheet is the list of the
  operations on it, in their order: cells with their look, merged cells, heights of rows and widths of columns.
\<close>

section \<open>Definitions\<close>

subsection \<open>Operations on a sheet\<close>

record look =
  lk_bold :: bool
  lk_size :: nat
  lk_colour :: "string option"
  lk_fill :: "string option"
  lk_centred :: bool
  lk_bordered :: bool
  lk_font :: "string option"

datatype op = Cell nat nat "string option" look | Merge nat nat nat nat | Height nat nat | Width nat nat

definition HDR_DARK :: string where "HDR_DARK = ''1F3864''"
definition HDR_MID :: string where "HDR_MID = ''2E74B5''"
definition HDR_LIGHT :: string where "HDR_LIGHT = ''BDD7EE''"
definition ROW_ALT :: string where "ROW_ALT = ''EBF3FB''"
definition ROW_WHITE :: string where "ROW_WHITE = ''FFFFFF''"
definition WARN_AMBER :: string where "WARN_AMBER = ''FFE699''"
definition OK_GREEN :: string where "OK_GREEN = ''E2EFDA''"

definition set_col_widths :: "nat list \<Rightarrow> op list" where
  "set_col_widths widths = map (\<lambda>(col, w). Width col w) (List.enumerate 1 widths)"

definition write_title :: "string \<Rightarrow> nat \<Rightarrow> nat \<Rightarrow> op list" where
  "write_title title ncols r =
     [Height r 28, Cell r 1 (Some title) \<lparr>lk_bold = True, lk_size = 14, lk_colour = Some ''FFFFFF'', lk_fill = Some HDR_DARK, lk_centred = True, lk_bordered = False, lk_font = None\<rparr>,
      Merge r 1 r ncols]"

definition write_col_headers :: "string list \<Rightarrow> nat \<Rightarrow> string \<Rightarrow> op list" where
  "write_col_headers headers r fill_color = Height r 20 #
     map (\<lambda>(col, h). Cell r col (Some h) \<lparr>lk_bold = True, lk_size = 10, lk_colour = None, lk_fill = Some fill_color, lk_centred = True, lk_bordered = True, lk_font = None\<rparr>)
       (List.enumerate 1 headers)"

text \<open>\<open>fills[col-1] if (fills and fills[col-1]) else bg\<close>.\<close>

definition cell_fill :: "string option list option \<Rightarrow> nat \<Rightarrow> string \<Rightarrow> string py" where
  "cell_fill fills col bg = (case fills of None \<Rightarrow> Inr bg
     | Some fs \<Rightarrow> if List.null fs then Inr bg else if col \<le> length fs then Inr (case fs ! (col - 1) of None \<Rightarrow> bg | Some f \<Rightarrow> if List.null f then bg else f) else Inl IndexError)"

definition write_row :: "nat \<Rightarrow> row \<Rightarrow> bool \<Rightarrow> string option list option \<Rightarrow> op list py" where
  "write_row r values alt fills = map_py (\<lambda>(col, v). bind_py (cell_fill fills col (if alt then ROW_ALT else ROW_WHITE)) (\<lambda>f.
     Inr (Cell r col v \<lparr>lk_bold = False, lk_size = 10, lk_colour = None, lk_fill = Some f, lk_centred = False, lk_bordered = True, lk_font = None\<rparr>)))
       (List.enumerate 1 values)"

definition section_look :: "string \<Rightarrow> look" where
  "section_look color = \<lparr>lk_bold = True, lk_size = 10, lk_colour = Some ''FFFFFF'', lk_fill = Some color, lk_centred = False, lk_bordered = False, lk_font = None\<rparr>"

definition write_section_header :: "nat \<Rightarrow> string \<Rightarrow> nat \<Rightarrow> string \<Rightarrow> op list" where
  "write_section_header r text ncols color = [Height r 16, Cell r 1 (Some text) (section_look color), Merge r 1 r ncols]"

text \<open>The divider that the address map and the interface summary write themselves.\<close>

definition divider :: "nat \<Rightarrow> string option \<Rightarrow> nat \<Rightarrow> op list" where
  "divider r t ncols = [Height r 14, Cell r 1 t (section_look HDR_MID), Merge r 1 r ncols]"

definition sheet_head :: "string \<Rightarrow> string list \<Rightarrow> nat list \<Rightarrow> op list" where
  "sheet_head title headers widths = write_title title (length headers) 1 @ write_col_headers headers 2 HDR_LIGHT @ set_col_widths widths"

text \<open>A loop over rows, with its state and the number of the row.\<close>

fun rows_loop :: "('s \<Rightarrow> nat \<Rightarrow> row \<Rightarrow> ('s \<times> op list) py) \<Rightarrow> 's \<Rightarrow> nat \<Rightarrow> row list \<Rightarrow> op list py" where
  "rows_loop f s r [] = Inr []"
| "rows_loop f s r (row # rows) = bind_py (f s r row) (\<lambda>(s', ops). bind_py (rows_loop f s' (Suc r) rows) (\<lambda>rest. Inr (ops @ rest)))"

text \<open>\<open>str(v)\<close>.\<close>

definition str_of :: "string option \<Rightarrow> string" where
  "str_of v = (case v of None \<Rightarrow> ''None'' | Some s \<Rightarrow> s)"

subsection \<open>The sheets\<close>

definition ip_inventory_head :: "op list" where
  "ip_inventory_head = sheet_head (''SoC Honours Project '' @ ndash @ '' IP Inventory (Phase 1)'')
     [''IP Name'', ''Source / Location'', ''Data Width'', ''Bus Interface'', ''Addr Width (bits)'', ''Registers Available (from RTL)'', ''Interrupt Output'', ''Notes'']
     [22, 38, 14, 22, 18, 42, 16, 44]"

definition address_map_head :: "op list" where
  "address_map_head = sheet_head (''SoC Honours Project '' @ ndash @ '' Full Memory Map (Phase 1 Draft)'')
     [''IP / Region'', ''Base Address'', ''End Address'', ''Allocated Size'', ''Current Register Usage'', ''Expansion Space'', ''Data Width'', ''Required Adapter / Wrapper'', ''Notes'']
     [24, 15, 15, 14, 30, 16, 13, 34, 42]"

definition register_map_head :: "op list" where
  "register_map_head = sheet_head (''SoC Honours Project '' @ ndash @ '' Register Map (IPs with confirmed RTL)'')
     [''IP'', ''Register Name'', ''Offset (hex)'', ''Absolute Address (hex)'', ''Width (bits)'', ''Access'', ''Description'']
     [18, 20, 14, 20, 12, 10, 54]"

definition reserved_head :: "op list" where
  "reserved_head = sheet_head (''SoC Honours Project '' @ ndash @ '' Reserved / Unused Address Space'')
     [''Region'', ''Base Address'', ''End Address'', ''Size'', ''Reason / Notes'']
     [36, 15, 15, 12, 60]"

definition duplicates_head :: "op list" where
  "duplicates_head = sheet_head (''SoC Honours Project '' @ ndash @ '' Duplicate IP Analysis'')
     [''IP Name'', ''Instance A (Path)'', ''Instance B (Path)'', ''Instance C (Path)'', ''Comparison Result'', ''Integration Decision'', ''Action Required'']
     [14, 36, 36, 36, 22, 28, 44]"

definition adapters_head :: "op list" where
  "adapters_head = sheet_head (''SoC Honours Project '' @ ndash @ '' Required Adapters and Wrappers'')
     [''Adapter / Wrapper Name'', ''Required For'', ''CPU-Side Interface'', ''IP-Side Interface'', ''Key Conversion Tasks'', ''Status'', ''Source File (if existing)'', ''Priority'']
     [30, 22, 22, 22, 44, 16, 38, 12]"

definition veer_head :: "op list" where
  "veer_head = sheet_head ''VeeR EL2 CPU Interface Summary (from el2_veer_wrapper.sv)''
     [''Interface / Signal Group'', ''Direction (CPU)'', ''Width'', ''Protocol'', ''Notes'']
     [34, 18, 18, 18, 56]"

definition confirmed_step :: "nat \<Rightarrow> nat \<Rightarrow> row \<Rightarrow> (nat \<times> op list) py" where
  "confirmed_step i r row = bind_py (write_row r row (i mod 2 = 1) None) (\<lambda>ops. Inr (Suc i, ops @ [Height r 72]))"

definition missing_step :: "nat \<Rightarrow> nat \<Rightarrow> row \<Rightarrow> (nat \<times> op list) py" where
  "missing_step i r row = bind_py (write_row r row (i mod 2 = 1) (Some (map (\<lambda>v. if v = Some ''NOT DETERMINED'' then Some WARN_AMBER else None) row)))
     (\<lambda>ops. Inr (Suc i, ops @ [Height r 48]))"

definition write_ip_inventory :: "row list \<Rightarrow> row list \<Rightarrow> op list py" where
  "write_ip_inventory confirmed missing = (let r = 4 + length confirmed in
     bind_py (rows_loop confirmed_step 0 4 confirmed) (\<lambda>a. bind_py (rows_loop missing_step 0 (Suc r) missing) (\<lambda>b.
     Inr (ip_inventory_head @ write_section_header 3 ''IPs WITH CONFIRMED RTL IN REPOSITORY'' 8 HDR_MID @ a @
       write_section_header r ''IPs REFERENCED IN PROJECT BUT NO RTL FOUND IN REPOSITORY'' 8 ''C00000'' @ b))))"

definition address_fill :: "string option \<Rightarrow> string option" where
  "address_fill v =
     (if truthy v \<and> (contains ''TO BE DETERMINED'' (str_of v) \<or> contains ''NOT DETERMINED'' (str_of v) \<or> contains ''TBD'' (str_of v) \<or> str_of v = ''RESERVED'') then Some WARN_AMBER
      else if truthy v \<and> contains (''RESERVED '' @ ndash @ '' must not use'') (str_of v) then Some ''FFD7D7''
      else None)"

definition address_step :: "nat \<Rightarrow> nat \<Rightarrow> row \<Rightarrow> (nat \<times> op list) py" where
  "address_step i r row = bind_py (cell_at row 1) (\<lambda>v. if v = None then bind_py (cell_at row 0) (\<lambda>t. Inr (Suc i, divider r t 9))
     else bind_py (write_row r row (i mod 2 = 0) (Some (map address_fill row))) (\<lambda>ops. Inr (Suc i, ops @ [Height r 60])))"

definition write_address_map :: "row list \<Rightarrow> op list py" where
  "write_address_map rows = bind_py (rows_loop address_step 0 4 rows) (\<lambda>ops. Inr (address_map_head @ ops))"

definition ip_colors :: "(string \<times> string) list" where
  "ip_colors = [(''UART'', ''DDEEFF''), (''SPI'', ''E2EFDA''), (''I2C'', ''FFF2CC''), (''AES'', ''FCE4D6''), (''PWM'', ''EAD1DC'')]"

text \<open>The state is the colour of the current block. (The flag \<open>alt\<close> of the loop is computed and not used.)\<close>

definition register_step :: "string \<Rightarrow> nat \<Rightarrow> row \<Rightarrow> (string \<times> op list) py" where
  "register_step color r row = bind_py (cell_at row 0) (\<lambda>label.
     let color' = (if truthy label then (case find (\<lambda>(k, c). contains k (text_of label)) ip_colors of Some (k, c) \<Rightarrow> c | None \<Rightarrow> color) else color);
         flagged = (\<lambda>ci. contains ''NOT DETERMINED'' (str_of (row ! ci)))
     in if list_ex flagged [7..<length row] then Inl IndexError
        else bind_py (write_row r row False (Some (map (\<lambda>ci. Some (if ci < length row \<and> flagged ci then WARN_AMBER else color')) [0..<7]))) (\<lambda>ops. Inr (color', ops @ [Height r 30])))"

definition write_register_map :: "row list \<Rightarrow> op list py" where
  "write_register_map regs = bind_py (rows_loop register_step ROW_WHITE 4 regs) (\<lambda>ops. Inr (register_map_head @ ops))"

definition reserved_rows :: "row list" where
  "reserved_rows =
     [[Some (''Gap: 0x0000_0000'' @ ndash @ ''0x0001_FFFF interior'' @ nl @ ''(between Instr Mem and Data Mem)''), Some ''0x0000_0000'', Some ''0x0001_FFFF'', Some ''128 KB'', Some ''Occupied by Instruction Memory (0x0000_0000) and Data Memory (0x0001_0000). No unused gap here.''],
      [Some ''Gap: above Data Memory to UART'', Some ''0x0002_0000'', Some ''0x0002_0FFF'', Some ''4 KB'', Some ''UART occupies this range. No gap.''],
      [Some (''GAP: 0x0003_0000 '' @ ndash @ '' 0x0003_FFFF''), Some ''0x0003_0000'', Some ''0x0003_FFFF'', Some ''64 KB'', Some ''UNALLOCATED. Available for future IP. Previously the existing interconnect packed peripherals tightly at 0x0002_x000; the new map gives each IP a clean 64 KB-boundary base, leaving this gap free.''],
      [Some ''Timer slot (IP pending)'', Some ''0x0004_0000'', Some ''0x0004_0FFF'', Some ''4 KB'', Some (''Reserved for Timer IP. RTL not yet available. Remaining 0x0004_1000'' @ ndash @ ''0x0004_FFFF (60 KB) is expansion space.'')],
      [Some ''GPIO slot (IP pending)'', Some ''0x0005_0000'', Some ''0x0005_0FFF'', Some ''4 KB'', Some ''Reserved for GPIO IP. RTL not yet available.''],
      [Some ''Packet FIFO slot (IP pending)'', Some ''0x0006_0000'', Some ''0x0006_0FFF'', Some ''4 KB'', Some ''Reserved for Packet FIFO IP. RTL not yet available.''],
      [Some ''Packet Counter slot (IP pending)'', Some ''0x0007_0000'', Some ''0x0007_0FFF'', Some ''4 KB'', Some ''Reserved for Packet Counter IP. RTL not yet available.''],
      [Some ''Enhanced Timer slot (IP pending)'', Some ''0x0008_0000'', Some ''0x0008_0FFF'', Some ''4 KB'', Some ''Reserved for Enhanced Timer IP. RTL not yet available.''],
      [Some ''CRC slot (IP pending)'', Some ''0x0009_0000'', Some ''0x0009_0FFF'', Some ''4 KB'', Some ''Reserved for CRC IP. RTL not yet available.''],
      [Some ''DMA slot (IP pending)'', Some ''0x000A_0000'', Some ''0x000A_FFFF'', Some ''64 KB'', Some ''Reserved for DMA IP. Given 64 KB because DMA controllers typically need registers for multiple channels (src addr, dst addr, length, control, status per channel).''],
      [Some ''Interrupt Controller slot (IP pending)'', Some ''0x000B_0000'', Some ''0x000B_0FFF'', Some ''4 KB'', Some ''Reserved for external Interrupt Controller IP. Note: VeeR has its own internal PIC. This slot is for any additional team-member interrupt controller.''],
      [Some ''RLE slot (IP pending)'', Some ''0x000C_0000'', Some ''0x000C_0FFF'', Some ''4 KB'', Some ''Reserved for RLE (Run-Length Encoding) IP. RTL not yet available.''],
      [Some ''Expansion gap above known IPs'', Some ''0x0011_0000'', Some ''0x001F_FFFF'', Some ''~956 KB'', Some ''RESERVED for future IP expansion. All 5 team members can be allocated sub-regions here as their IPs are integrated. Clean 64 KB sub-regions recommended per IP.''],
      [Some (''MUST NOT USE '' @ ndash @ '' VeeR ICCM''), Some ''0xEE00_0000'', Some ''0xEE00_FFFF'', Some ''64 KB'', Some ''VeeR internal Instruction CCM. Hardcoded in veer.config (region 0xE, top-aligned). Must not be allocated to any peripheral.''],
      [Some (''MUST NOT USE '' @ ndash @ '' VeeR DCCM''), Some ''0xF004_0000'', Some ''0xF004_FFFF'', Some ''64 KB'', Some ''VeeR internal Data CCM. Hardcoded in veer.config (region 0xF, offset 0x40000). Must not be allocated to any peripheral.''],
      [Some (''MUST NOT USE '' @ ndash @ '' VeeR PIC''), Some ''0xF00C_0000'', Some ''0xF00C_7FFF'', Some ''32 KB'', Some ''VeeR internal PIC registers. Hardcoded in veer.config (region 0xF, offset 0xC0000). CPU accesses this range via load/store for interrupt management. Must not be allocated to any peripheral.''],
      [Some ''All other addresses'', Some ''0x0000_0000'', Some ''0xFFFF_FFFF'', Some ''~4 GB minus above'', Some (''Addresses not listed in the SoC address map are unallocated. The AXI interconnect will return DECERR for unmapped accesses. Avoid regions 0xD0000000'' @ ndash @ ''0xFFFFFFFF as they overlap with standard RISC-V machine-mode CSR / platform regions.'')]]"

definition reserved_step :: "nat \<Rightarrow> nat \<Rightarrow> row \<Rightarrow> (nat \<times> op list) py" where
  "reserved_step i r row = bind_py (cell_at row 0) (\<lambda>name.
     bind_py (write_row r row (i mod 2 = 0) (Some (map (\<lambda>v.
       if contains ''MUST NOT USE'' (str_of v) \<or> contains ''MUST NOT USE'' (str_of name) then Some ''FFD7D7''
       else if contains ''UNALLOCATED'' (str_of v) \<or> contains ''Reserved'' (str_of v) \<or> contains ''pending'' (str_of v) then Some WARN_AMBER
       else None) row))) (\<lambda>ops. Inr (Suc i, ops @ [Height r 42])))"

definition write_reserved :: "row list \<Rightarrow> op list py" where
  "write_reserved rows = bind_py (rows_loop reserved_step 0 3 rows) (\<lambda>ops. Inr (reserved_head @ ops))"

definition duplicates_step :: "nat \<Rightarrow> nat \<Rightarrow> row \<Rightarrow> (nat \<times> op list) py" where
  "duplicates_step i r row = bind_py (write_row r row (i mod 2 = 0) (Some (map (\<lambda>v.
       if contains ''NOT FOUND'' (str_of v) \<or> contains ''NO RTL'' (str_of v) then Some WARN_AMBER
       else if contains ''IDENTICAL'' (str_of v) then Some OK_GREEN
       else if contains ''SAME CODEBASE'' (str_of v) then Some ''D9EAD3''
       else None) row))) (\<lambda>ops. Inr (Suc i, ops @ [Height r 72]))"

definition write_duplicates :: "row list \<Rightarrow> op list py" where
  "write_duplicates rows = bind_py (rows_loop duplicates_step 0 3 rows) (\<lambda>ops. Inr (duplicates_head @ ops))"

definition adapters_step :: "nat \<Rightarrow> nat \<Rightarrow> row \<Rightarrow> (nat \<times> op list) py" where
  "adapters_step i r row = bind_py (write_row r row (i mod 2 = 0) (Some (map (\<lambda>v.
       if contains ''TO BE CREATED'' (str_of v) then Some WARN_AMBER
       else if contains ''EXISTS IN REPO'' (str_of v) \<or> contains ''DONE'' (str_of v) then Some OK_GREEN
       else if contains ''NO EXTRA ADAPTER NEEDED'' (str_of v) then Some OK_GREEN
       else None) row))) (\<lambda>ops. Inr (Suc i, ops @ [Height r 96]))"

definition write_adapters :: "row list \<Rightarrow> op list py" where
  "write_adapters rows = bind_py (rows_loop adapters_step 0 3 rows) (\<lambda>ops. Inr (adapters_head @ ops))"

text \<open>Two box drawing characters mark the dividers.\<close>

definition bars :: string where
  "bars = [CHR 0xE2, CHR 0x94, CHR 0x80, CHR 0xE2, CHR 0x94, CHR 0x80]"

definition veer_step :: "unit \<Rightarrow> nat \<Rightarrow> row \<Rightarrow> (unit \<times> op list) py" where
  "veer_step s r row = bind_py (cell_at row 1) (\<lambda>v1. bind_py (cell_at row 2) (\<lambda>v2. bind_py (cell_at row 0) (\<lambda>v0.
     if v1 = Some [] \<and> v2 = Some [] \<and> contains bars (str_of v0) then Inr ((), divider r v0 5)
     else bind_py (cell_at row 4) (\<lambda>v4.
       let wide = contains ''64-BIT'' (str_of v4) \<or> contains ''64-BIT'' (str_of v2)
       in bind_py (write_row r row False (Some (if wide then [None, None, Some ''FFE699'', None, Some ''FFE699''] else [None, None, None, None, None])))
            (\<lambda>ops. Inr ((), ops @ [Height r 28]))))))"

definition write_veer :: "row list \<Rightarrow> op list py" where
  "write_veer rows = bind_py (rows_loop veer_step () 4 rows) (\<lambda>ops. Inr (veer_head @ ops))"

definition line_look :: "string \<Rightarrow> look" where
  "line_look line =
     (if contains ''CONFIRMED FROM'' line \<or> contains ''KEY FACTS'' line \<or> contains ''UNRESOLVED'' line \<or> contains ''INTERCONNECT DECODE'' line
      then \<lparr>lk_bold = True, lk_size = 11, lk_colour = None, lk_fill = Some HDR_LIGHT, lk_centred = False, lk_bordered = False, lk_font = None\<rparr>
      else \<lparr>lk_bold = False, lk_size = 10, lk_colour = None, lk_fill = None, lk_centred = False, lk_bordered = False,
        lk_font = Some (if contains [CHR 0xE2, CHR 0x94, CHR 0x82] line \<or> contains [CHR 0xE2, CHR 0x94, CHR 0x8C] line \<or> contains [CHR 0xE2, CHR 0x95, CHR 0x90] line \<or>
          contains ''M0'' line \<or> contains bars line then ''Courier New'' else ''Calibri'')\<rparr>)"

definition write_architecture :: "string list \<Rightarrow> op list" where
  "write_architecture lines = Width 1 120 # write_title (''SoC Honours Project '' @ ndash @ '' High-Level Integration Architecture (Phase 1)'') 1 1 @
     concat (map (\<lambda>(r, line). [Height r (if contains [CHR 0xE2, CHR 0x95, CHR 0x90] line then 6 else 16), Cell r 1 (Some line) (line_look line)]) (List.enumerate 2 lines))"

text \<open>The rows that the functions write, and the workbook of \<open>main\<close>.\<close>

record report_rows =
  rr_confirmed :: "row list"
  rr_missing :: "row list"
  rr_map :: "row list"
  rr_regs :: "row list"
  rr_duplicates :: "row list"
  rr_adapters :: "row list"
  rr_veer :: "row list"
  rr_lines :: "string list"

definition report :: "report_rows \<Rightarrow> (string \<times> op list) list py" where
  "report d =
     bind_py (write_ip_inventory (rr_confirmed d) (rr_missing d)) (\<lambda>inventory.
     bind_py (write_address_map (rr_map d)) (\<lambda>address.
     bind_py (write_register_map (rr_regs d)) (\<lambda>registers.
     bind_py (write_reserved reserved_rows) (\<lambda>reserved.
     bind_py (write_duplicates (rr_duplicates d)) (\<lambda>duplicates.
     bind_py (write_adapters (rr_adapters d)) (\<lambda>adapters.
     bind_py (write_veer (rr_veer d)) (\<lambda>veer.
     Inr [(''IP_Inventory'', inventory), (''SoC_Address_Map'', address), (''Register_Map'', registers), (''Reserved_Address_Space'', reserved),
       (''Duplicate_IP_Analysis'', duplicates), (''Adapters_Wrappers'', adapters), (''VeeR_EL2_Interface'', veer),
       (''Integration_Architecture'', write_architecture (rr_lines d))])))))))"

section \<open>Rows\<close>

text \<open>The cells that are written, with their values, and the merged areas.\<close>

definition cells :: "op list \<Rightarrow> ((nat \<times> nat) \<times> string option) list" where
  "cells ops = concat (map (\<lambda>x. case x of Cell r c v k \<Rightarrow> [((r, c), v)] | _ \<Rightarrow> []) ops)"

definition merges :: "op list \<Rightarrow> (nat \<times> nat \<times> nat \<times> nat) list" where
  "merges ops = concat (map (\<lambda>x. case x of Merge r c r' c' \<Rightarrow> [(r, c, r', c')] | _ \<Rightarrow> []) ops)"

definition in_area :: "nat \<times> nat \<times> nat \<times> nat \<Rightarrow> nat \<times> nat \<Rightarrow> bool" where
  "in_area m x = (case m of (r, c, r', c') \<Rightarrow> r \<le> fst x \<and> fst x \<le> r' \<and> c \<le> snd x \<and> snd x \<le> c')"

text \<open>No cell is written twice, and of a merged area only the first cell.\<close>

definition tidy :: "op list \<Rightarrow> bool" where
  "tidy ops \<longleftrightarrow> distinct (map fst (cells ops)) \<and> (\<forall>m\<in>set (merges ops). \<forall>x\<in>fst ` set (cells ops). in_area m x \<longrightarrow> x = (fst m, fst (snd m)))"

text \<open>All cells and merged areas lie in the rows from \<open>lo\<close> to before \<open>hi\<close>.\<close>

definition within :: "nat \<Rightarrow> nat \<Rightarrow> op list \<Rightarrow> bool" where
  "within lo hi ops \<longleftrightarrow> (\<forall>x\<in>fst ` set (cells ops). lo \<le> fst x \<and> fst x < hi) \<and> (\<forall>(r, c, r', c')\<in>set (merges ops). lo \<le> r \<and> r' < hi)"

lemma cells_simps [simp]:
  "cells [] = []" "cells (Cell r c v k # ops) = ((r, c), v) # cells ops" "cells (Merge r c r' c' # ops) = cells ops"
  "cells (Height r h # ops) = cells ops" "cells (Width r h # ops) = cells ops" "cells (xs @ ys) = cells xs @ cells ys"
  by (simp_all add: cells_def)

lemma merges_simps [simp]:
  "merges [] = []" "merges (Cell r c v k # ops) = merges ops" "merges (Merge r c r' c' # ops) = (r, c, r', c') # merges ops"
  "merges (Height r h # ops) = merges ops" "merges (Width r h # ops) = merges ops" "merges (xs @ ys) = merges xs @ merges ys"
  by (simp_all add: merges_def)

lemma within_Nil [simp]: "within lo hi []"
  by (simp add: within_def)

lemma tidy_Nil [simp]: "tidy []"
  by (simp add: tidy_def)

lemma within_mono: "within lo hi ops \<Longrightarrow> lo' \<le> lo \<Longrightarrow> hi \<le> hi' \<Longrightarrow> within lo' hi' ops"
  unfolding within_def by fastforce

lemma within_append: "within lo mid xs \<Longrightarrow> within mid hi ys \<Longrightarrow> lo \<le> mid \<Longrightarrow> mid \<le> hi \<Longrightarrow> within lo hi (xs @ ys)"
  unfolding within_def by fastforce

lemma tidy_append:
  assumes "tidy xs" "tidy ys" "within lo mid xs" "within mid hi ys"
  shows "tidy (xs @ ys)"
proof -
  have disj: "fst ` set (cells xs) \<inter> fst ` set (cells ys) = {}" using assms(3,4) unfolding within_def by fastforce
  have xy: "\<not> in_area m x" if "m \<in> set (merges xs)" "x \<in> fst ` set (cells ys)" for m x
    using that assms(3,4) unfolding within_def in_area_def by fastforce
  have yx: "\<not> in_area m x" if "m \<in> set (merges ys)" "x \<in> fst ` set (cells xs)" for m x
    using that assms(3,4) unfolding within_def in_area_def by fastforce
  show ?thesis unfolding tidy_def
  proof (intro conjI ballI impI)
    show "distinct (map fst (cells (xs @ ys)))" using assms(1,2) disj by (simp add: tidy_def)
  next
    fix m x assume m: "m \<in> set (merges (xs @ ys))" and x: "x \<in> fst ` set (cells (xs @ ys))" and a: "in_area m x"
    from m have m': "m \<in> set (merges xs) \<or> m \<in> set (merges ys)" by simp
    from x have x': "x \<in> fst ` set (cells xs) \<or> x \<in> fst ` set (cells ys)" by (simp add: image_Un)
    from m' x' a xy yx have "m \<in> set (merges xs) \<and> x \<in> fst ` set (cells xs) \<or> m \<in> set (merges ys) \<and> x \<in> fst ` set (cells ys)" by blast
    with assms(1,2) a show "x = (fst m, fst (snd m))" unfolding tidy_def by blast
  qed
qed

text \<open>A block of operations on the row \<open>r\<close> alone.\<close>

definition row_block :: "nat \<Rightarrow> op list \<Rightarrow> bool" where
  "row_block r ops \<longleftrightarrow> tidy ops \<and> within r (Suc r) ops"

lemma cells_enumerate: "cells (map (\<lambda>(c, v). Cell r c (f v) (g c v)) (List.enumerate n vs)) = map (\<lambda>(c, v). ((r, c), f v)) (List.enumerate n vs)"
  by (induction vs arbitrary: n) simp_all

lemma merges_enumerate: "merges (map (\<lambda>(c, v). Cell r c (f v) (g c v)) (List.enumerate n vs)) = []"
  by (induction vs arbitrary: n) simp_all

lemma write_row_cells:
  assumes "write_row r vs alt fills = Inr ops"
  shows "cells ops = map (\<lambda>(c, v). ((r, c), v)) (List.enumerate 1 vs)" "merges ops = []"
proof -
  have "cells ops = map (\<lambda>(c, v). ((r, c), v)) (List.enumerate n vs) \<and> merges ops = []"
    if "map_py (\<lambda>(col, v). bind_py (cell_fill fills col b) (\<lambda>f. Inr (Cell r col v (k f)))) (List.enumerate n vs) = Inr ops" for n b k ops
    using that by (induction vs arbitrary: n ops) (auto simp: bind_py_eq_Inr)
  from this [OF assms [unfolded write_row_def]] show "cells ops = map (\<lambda>(c, v). ((r, c), v)) (List.enumerate 1 vs)" "merges ops = []" by simp_all
qed

lemma distinct_cells: "distinct (map fst (map (\<lambda>(c, v). ((r::nat, c), f v)) (List.enumerate n vs)))"
  by (induction vs arbitrary: n) (auto simp: in_set_enumerate_eq)

lemma write_row_block: "write_row r vs alt fills = Inr ops \<Longrightarrow> row_block r (ops @ [Height r h])"
  using distinct_cells [of r "\<lambda>v. v" 1 vs] write_row_cells [of r vs alt fills ops] unfolding row_block_def tidy_def within_def by auto

lemma divider_block: "row_block r (divider r t n)" "row_block r (write_section_header r s n color)"
  by (auto simp: row_block_def tidy_def within_def divider_def write_section_header_def)

lemma rows_loop_tidy:
  assumes "\<And>s r row s' ops. f s r row = Inr (s', ops) \<Longrightarrow> row_block r ops"
  shows "rows_loop f s r rows = Inr ops \<Longrightarrow> tidy ops \<and> within r (r + length rows) ops"
proof (induction rows arbitrary: s r ops)
  case (Cons row rows)
  from Cons.prems obtain s' xs ys where f: "f s r row = Inr (s', xs)" and l: "rows_loop f s' (Suc r) rows = Inr ys" and ops: "ops = xs @ ys"
    by (auto simp: bind_py_eq_Inr)
  from assms [OF f] Cons.IH [OF l] have "tidy xs" "within r (Suc r) xs" "tidy ys" "within (Suc r) (Suc r + length rows) ys" by (auto simp: row_block_def)
  then show ?case unfolding ops by (auto intro: tidy_append within_append)
qed simp

lemma cells_widths: "cells (set_col_widths widths) = []" "merges (set_col_widths widths) = []"
  unfolding set_col_widths_def cells_def merges_def by (auto split: prod.splits)

lemma sheet_head_tidy: "tidy (sheet_head title headers widths) \<and> within 1 3 (sheet_head title headers widths)"
proof -
  have "row_block 1 (write_title title (length headers) 1)" by (auto simp: row_block_def tidy_def within_def write_title_def)
  moreover have "row_block 2 (write_col_headers headers 2 HDR_LIGHT @ set_col_widths widths)"
    using cells_widths distinct_cells [of 2 Some 1 headers] unfolding row_block_def tidy_def within_def write_col_headers_def
    by (auto simp: cells_enumerate merges_enumerate)
  ultimately show ?thesis unfolding sheet_head_def row_block_def
    by (auto intro: tidy_append [where mid = 2] within_append [where mid = 2] simp: numeral_3_eq_3 numeral_2_eq_2)
qed

lemmas step_defs = confirmed_step_def missing_step_def address_step_def register_step_def reserved_step_def duplicates_step_def adapters_step_def veer_step_def

lemma step_blocks:
  "confirmed_step s r row = Inr (s', ops) \<Longrightarrow> row_block r ops" "missing_step s r row = Inr (s', ops) \<Longrightarrow> row_block r ops"
  "address_step s r row = Inr (s', ops) \<Longrightarrow> row_block r ops" "register_step t r row = Inr (t', ops) \<Longrightarrow> row_block r ops"
  "reserved_step s r row = Inr (s', ops) \<Longrightarrow> row_block r ops" "duplicates_step s r row = Inr (s', ops) \<Longrightarrow> row_block r ops"
  "adapters_step s r row = Inr (s', ops) \<Longrightarrow> row_block r ops" "veer_step u r row = Inr (u', ops) \<Longrightarrow> row_block r ops"
  unfolding step_defs Let_def by (auto simp: bind_py_eq_Inr divider_block split: if_splits dest: write_row_block)

lemma sheet_tidy:
  assumes "rows_loop f s r rows = Inr ops" "\<And>s r row s' ops. f s r row = Inr (s', ops) \<Longrightarrow> row_block r ops" "3 \<le> r"
  shows "tidy (sheet_head title headers widths @ ops)"
proof -
  from rows_loop_tidy [of f, OF assms(2,1)] have "tidy ops" "within r (r + length rows) ops" by auto
  moreover from this assms(3) have "within 3 (r + length rows) ops" by (auto intro: within_mono)
  ultimately show ?thesis using sheet_head_tidy tidy_append by blast
qed

lemma inventory_tidy:
  assumes "write_ip_inventory confirmed missing = Inr ops"
  shows "tidy ops"
proof -
  let ?r = "4 + length confirmed"
  from assms obtain a b where a: "rows_loop confirmed_step 0 4 confirmed = Inr a" and b: "rows_loop missing_step 0 (Suc ?r) missing = Inr b"
    and ops: "ops = ip_inventory_head @ write_section_header 3 ''IPs WITH CONFIRMED RTL IN REPOSITORY'' 8 HDR_MID @ a @
       write_section_header ?r ''IPs REFERENCED IN PROJECT BUT NO RTL FOUND IN REPOSITORY'' 8 ''C00000'' @ b" (is "_ = _ @ ?h @ _ @ ?g @ _")
    by (auto simp: write_ip_inventory_def bind_py_eq_Inr)
  from rows_loop_tidy [OF step_blocks(2) b] have tb: "tidy b" "within (Suc ?r) (Suc ?r + length missing) b" by auto
  from rows_loop_tidy [OF step_blocks(1) a] have ta: "tidy a" "within 4 ?r a" by auto
  have tg: "tidy ?g" "within ?r (Suc ?r) ?g" using divider_block(2) [of ?r] by (auto simp: row_block_def)
  have th: "tidy ?h" "within 3 4 ?h" using divider_block(2) [of 3] by (auto simp: row_block_def)
  have gb: "tidy (?g @ b)" "within ?r (Suc ?r + length missing) (?g @ b)" using tg tb by (auto intro: tidy_append within_append)
  have agb: "tidy (a @ ?g @ b)" "within 4 (Suc ?r + length missing) (a @ ?g @ b)" using ta gb by (auto intro: tidy_append within_append)
  have "tidy (?h @ a @ ?g @ b)" "within 3 (Suc ?r + length missing) (?h @ a @ ?g @ b)" using th agb by (auto intro: tidy_append within_append)
  then show ?thesis unfolding ops ip_inventory_head_def using sheet_head_tidy tidy_append by blast
qed

lemma row_block_append: "row_block r xs \<Longrightarrow> tidy ys \<and> within (Suc r) (Suc r + n) ys \<Longrightarrow> tidy (xs @ ys) \<and> within r (Suc r + n) (xs @ ys)"
  unfolding row_block_def by (auto intro: tidy_append within_append)

lemma blocks_tidy:
  assumes "\<And>r x. row_block r (f (r, x))"
  shows "tidy (concat (map f (List.enumerate n xs))) \<and> within n (n + length xs) (concat (map f (List.enumerate n xs)))"
proof (induction xs arbitrary: n)
  case (Cons x xs)
  from row_block_append [OF assms Cons.IH] show ?case by simp
qed simp

lemma architecture_tidy: "tidy (write_architecture lines)"
proof -
  have "row_block r [Height r h, Cell r 1 v k]" for r h v k by (simp add: row_block_def tidy_def within_def)
  then have "row_block r ((\<lambda>(r, line). [Height r (if contains [CHR 0xE2, CHR 0x95, CHR 0x90] line then 6 else 16), Cell r 1 (Some line) (line_look line)]) (r, line))" for r line
    by simp
  note rest = blocks_tidy [where f = "\<lambda>(r, line). [Height r (if contains [CHR 0xE2, CHR 0x95, CHR 0x90] line then 6 else 16), Cell r 1 (Some line) (line_look line)]", OF this, of 2 lines]
  have "tidy (Width 1 120 # write_title t 1 1)" "within 1 2 (Width 1 120 # write_title t 1 1)" for t
    by (auto simp: tidy_def within_def write_title_def)
  with rest show ?thesis unfolding write_architecture_def append_Cons [symmetric] using tidy_append by blast
qed

lemma sheets_tidy:
  "write_address_map rows = Inr ops \<Longrightarrow> tidy ops" "write_register_map rows = Inr ops \<Longrightarrow> tidy ops" "write_reserved rows = Inr ops \<Longrightarrow> tidy ops"
  "write_duplicates rows = Inr ops \<Longrightarrow> tidy ops" "write_adapters rows = Inr ops \<Longrightarrow> tidy ops" "write_veer rows = Inr ops \<Longrightarrow> tidy ops"
  unfolding write_address_map_def write_register_map_def write_reserved_def write_duplicates_def write_adapters_def write_veer_def
    address_map_head_def register_map_head_def reserved_head_def duplicates_head_def adapters_head_def veer_head_def
  by (auto simp: bind_py_eq_Inr intro: sheet_tidy step_blocks)

section \<open>Reading the rows back\<close>

text \<open>The rows below the head, as a reader of the sheet finds them.\<close>

definition cell_value :: "op list \<Rightarrow> nat \<Rightarrow> nat \<Rightarrow> string option" where
  "cell_value ops r c = (case map_of (rev (cells ops)) (r, c) of Some v \<Rightarrow> v | None \<Rightarrow> None)"

definition read_row :: "op list \<Rightarrow> nat \<Rightarrow> nat \<Rightarrow> row" where
  "read_row ops ncols r = map (cell_value ops r) [1..<Suc ncols]"


lemma cell_value_tidy: "tidy ops \<Longrightarrow> ((r, c), v) \<in> set (cells ops) \<Longrightarrow> cell_value ops r c = v"
  unfolding cell_value_def tidy_def by (subst map_of_is_SomeI [of _ _ v]) (auto simp: rev_map [symmetric])

lemma cell_value_none: "(r, c) \<notin> fst ` set (cells ops) \<Longrightarrow> cell_value ops r c = None"
  unfolding cell_value_def by (simp add: map_of_eq_None_iff [THEN iffD2] split: option.splits)

lemma cell_value_append: "cell_value (xs @ ys) r c = (if (r, c) \<in> fst ` set (cells ys) then cell_value ys r c else cell_value xs r c)"
proof (cases "(r, c) \<in> fst ` set (cells ys)")
  case True
  then obtain v where "map_of (rev (cells ys)) (r, c) = Some v" by (metis map_of_eq_None_iff not_None_eq set_rev)
  with True show ?thesis by (simp add: cell_value_def map_add_def)
next
  case False
  then have "map_of (rev (cells ys)) (r, c) = None" by (simp add: map_of_eq_None_iff)
  with False show ?thesis by (simp add: cell_value_def map_add_def)
qed

lemma read_row_append:
  "within mid hi ys \<Longrightarrow> r < mid \<Longrightarrow> read_row (xs @ ys) n r = read_row xs n r"
  "within lo mid xs \<Longrightarrow> mid \<le> r \<Longrightarrow> read_row (xs @ ys) n r = read_row ys n r"
proof -
  assume "within mid hi ys" "r < mid"
  then have "(r, c) \<notin> fst ` set (cells ys)" for c unfolding within_def by fastforce
  then show "read_row (xs @ ys) n r = read_row xs n r" by (simp add: read_row_def cell_value_append)
next
  assume "within lo mid xs" "mid \<le> r"
  then have "(r, c) \<notin> fst ` set (cells xs)" for c unfolding within_def by fastforce
  then show "read_row (xs @ ys) n r = read_row ys n r" by (simp add: read_row_def cell_value_append cell_value_none)
qed

lemma write_row_reads:
  assumes "write_row r vs alt fills = Inr ops" "length vs = n"
  shows "read_row (ops @ [Height r h]) n r = vs"
proof (rule nth_equalityI)
  fix i assume "i < length (read_row (ops @ [Height r h]) n r)"
  then have i: "i < n" by (simp add: read_row_def del: upt_Suc)
  then have "(1 + i, vs ! i) \<in> set (List.enumerate 1 vs)" using assms(2) by (simp add: in_set_enumerate_eq)
  then have "((r, 1 + i), vs ! i) \<in> set (cells (ops @ [Height r h]))" using write_row_cells(1) [OF assms(1)] by force
  with write_row_block [OF assms(1)] have "cell_value (ops @ [Height r h]) r (1 + i) = vs ! i" unfolding row_block_def by (blast intro: cell_value_tidy)
  with i show "read_row (ops @ [Height r h]) n r ! i = vs ! i" by (simp add: read_row_def del: upt_Suc)
qed (simp add: read_row_def assms(2) del: upt_Suc)

lemma divider_reads:
  assumes "row = t # replicate (n - 1) None" "0 < n"
  shows "read_row (divider r t k) n r = row"
proof (rule nth_equalityI)
  fix i assume "i < length (read_row (divider r t k) n r)"
  then have "i < n" by (simp add: read_row_def del: upt_Suc)
  then show "read_row (divider r t k) n r ! i = row ! i"
    using assms(1) by (cases i) (simp_all add: read_row_def cell_value_def divider_def del: upt_Suc)
qed (use assms in \<open>simp add: read_row_def del: upt_Suc\<close>)

text \<open>The rows of a sheet whose loop writes a block per row that reads back as the row.\<close>

lemma rows_loop_reads:
  assumes "\<And>s r row s' ops. row \<in> R \<Longrightarrow> f s r row = Inr (s', ops) \<Longrightarrow> read_row ops n r = row"
    and "\<And>s r row s' ops. f s r row = Inr (s', ops) \<Longrightarrow> row_block r ops"
  shows "rows_loop f s r rows = Inr ops \<Longrightarrow> set rows \<subseteq> R \<Longrightarrow> map (read_row ops n) [r..<r + length rows] = rows"
proof (induction rows arbitrary: s r ops)
  case (Cons row rows)
  from Cons.prems(1) obtain s' xs ys where f: "f s r row = Inr (s', xs)" and l: "rows_loop f s' (Suc r) rows = Inr ys" and ops: "ops = xs @ ys"
    by (auto simp: bind_py_eq_Inr)
  from assms(2) [OF f] have x: "within r (Suc r) xs" by (simp add: row_block_def)
  have y: "within (Suc r) (Suc r + length rows) ys" using rows_loop_tidy [of f s' "Suc r" rows ys] assms(2) l by blast
  have hd: "read_row ops n r = row" using assms(1) [OF _ f] Cons.prems(2) read_row_append(1) [OF y] by (simp add: ops)
  have "map (read_row ops n) [Suc r..<Suc r + length rows] = map (read_row ys n) [Suc r..<Suc r + length rows]"
    unfolding ops by (rule map_cong [OF refl], rule read_row_append(2) [OF x]) (simp del: upt_Suc)
  also have "\<dots> = rows" using Cons.IH [OF l] Cons.prems(2) by simp
  finally show ?case using hd upt_conv_Cons [of r "r + length (row # rows)"] by (simp del: upt_Suc)
qed simp

lemma rows_loop_returns:
  assumes "\<And>s r row. row \<in> R \<Longrightarrow> \<exists>s' ops. f s r row = Inr (s', ops)"
  shows "set rows \<subseteq> R \<Longrightarrow> \<exists>ops. rows_loop f s r rows = Inr ops"
proof (induction rows arbitrary: s r)
  case (Cons row rows)
  then obtain s' xs where "f s r row = Inr (s', xs)" using assms [of row] by fastforce
  moreover from Cons obtain ys where "rows_loop f s' (Suc r) rows = Inr ys" by fastforce
  ultimately show ?case by simp
qed simp

lemma write_row_returns:
  assumes "length row \<le> length fs"
  shows "\<exists>ops. write_row r row alt (Some fs) = Inr ops"
proof -
  have *: "\<exists>ops. map_py (\<lambda>(col, v). bind_py (cell_fill (Some fs) col b) (\<lambda>f. Inr (g col v f))) (List.enumerate (Suc k) vs) = Inr ops" if "k + length vs \<le> length fs" for g k b vs
    using that
  proof (induction vs arbitrary: k)
    case (Cons v vs)
    then have "\<exists>f. cell_fill (Some fs) (Suc k) b = Inr f" by (simp add: cell_fill_def)
    moreover from Cons have "\<exists>ops. map_py (\<lambda>(col, v). bind_py (cell_fill (Some fs) col b) (\<lambda>f. Inr (g col v f))) (List.enumerate (Suc (Suc k)) vs) = Inr ops" by simp
    ultimately show ?case by auto
  qed simp
  show ?thesis unfolding write_row_def One_nat_def by (rule *) (simp add: assms)
qed

text \<open>The rows of the address map have nine columns and those of the register map seven; of a divider all but the first cell are empty.\<close>

definition map_row :: "row \<Rightarrow> bool" where
  "map_row row \<longleftrightarrow> length row = 9 \<and> (row ! 1 = None \<longrightarrow> row = row ! 0 # replicate 8 None)"

lemma address_step_reads: "map_row row \<Longrightarrow> address_step s r row = Inr (s', ops) \<Longrightarrow> read_row ops 9 r = row"
  unfolding address_step_def map_row_def by (auto simp: bind_py_eq_Inr cell_at_def write_row_reads intro!: divider_reads split: if_splits)

lemma address_step_returns:
  assumes "map_row row"
  shows "\<exists>s' ops. address_step s r row = Inr (s', ops)"
proof -
  obtain ops where "write_row r row (s mod 2 = 0) (Some (map address_fill row)) = Inr ops" using write_row_returns [of row "map address_fill row"] by auto
  with assms show ?thesis unfolding address_step_def map_row_def by (simp add: cell_at_def)
qed

lemma register_step_reads: "length row = 7 \<Longrightarrow> register_step s r row = Inr (s', ops) \<Longrightarrow> read_row ops 7 r = row"
  unfolding register_step_def Let_def by (auto simp: bind_py_eq_Inr write_row_reads split: if_splits)

lemma register_step_returns:
  assumes "length row = 7"
  shows "\<exists>s' ops. register_step s r row = Inr (s', ops)"
proof -
  have "\<exists>ops. write_row r row False (Some (map g [0..<7])) = Inr ops" for g using write_row_returns [of row "map g [0..<7]"] assms by auto
  then show ?thesis using assms unfolding register_step_def Let_def by (auto simp: cell_at_def bind_py_eq_Inr)
qed

lemma head_rows:
  assumes "within 3 hi ops" "0 < length headers"
  shows "read_row (sheet_head title headers widths @ ops) (length headers) 1 = Some title # replicate (length headers - 1) None"
    "read_row (sheet_head title headers widths @ ops) (length headers) 2 = map Some headers"
    "read_row (sheet_head title headers widths @ ops) (length headers) 3 = read_row ops (length headers) 3"
proof -
  let ?n = "length headers" and ?h = "sheet_head title headers widths"
  have h: "read_row (?h @ ops) ?n 1 = read_row ?h ?n 1" "read_row (?h @ ops) ?n 2 = read_row ?h ?n 2" "read_row (?h @ ops) ?n 3 = read_row ops ?n 3"
    using read_row_append(1) [OF assms(1)] read_row_append(2) [of 1 3 ?h] sheet_head_tidy by auto
  have in_head: "set (cells ?h) = {((1, 1), Some title)} \<union> set (map (\<lambda>(c, v). ((2, c), Some v)) (List.enumerate 1 headers))"
    by (simp add: sheet_head_def write_title_def write_col_headers_def cells_enumerate cells_widths)
  have "cell_value ?h 1 (Suc i) = (if i = 0 then Some title else None)" for i
  proof (cases i)
    case 0
    then show ?thesis using cell_value_tidy [of ?h 1 1 "Some title"] sheet_head_tidy by (simp add: in_head)
  next
    case (Suc j)
    then have "(1, Suc i) \<notin> fst ` set (cells ?h)" by (auto simp: in_head)
    with Suc show ?thesis by (simp add: cell_value_none)
  qed
  then have "read_row ?h ?n 1 = map (\<lambda>i. if i = 0 then Some title else None) [0..<?n]"
    by (auto simp: read_row_def map_Suc_upt [symmetric] simp del: upt_Suc)
  also have "\<dots> = Some title # replicate (?n - 1) None" using assms(2) by (auto intro!: nth_equalityI simp: nth_Cons split: nat.splits simp del: upt_Suc)
  finally show "read_row (?h @ ops) ?n 1 = Some title # replicate (?n - 1) None" unfolding h(1) .
  have "cell_value ?h 2 (Suc i) = Some (headers ! i)" if "i < ?n" for i
    using cell_value_tidy [of ?h 2 "Suc i" "Some (headers ! i)"] sheet_head_tidy that by (force simp: in_head in_set_enumerate_eq)
  then have "read_row ?h ?n 2 = map Some headers"
    by (auto simp: read_row_def simp del: upt_Suc intro!: nth_equalityI)
  then show "read_row (?h @ ops) ?n 2 = map Some headers" "read_row (?h @ ops) ?n 3 = read_row ops ?n 3" by (simp_all add: h)
qed

lemma sheet_reads:
  assumes "rows_loop f s 4 rows = Inr ops" "set rows \<subseteq> R" "n = length headers" "0 < n"
    and "\<And>s r row s' ops. row \<in> R \<Longrightarrow> f s r row = Inr (s', ops) \<Longrightarrow> read_row ops n r = row"
    and "\<And>s r row s' ops. f s r row = Inr (s', ops) \<Longrightarrow> row_block r ops"
  shows "map (read_row (sheet_head title headers widths @ ops) n) [1..<4 + length rows] = [Some title # replicate (n - 1) None, map Some headers, replicate n None] @ rows"
proof -
  let ?all = "sheet_head title headers widths @ ops"
  have w: "within 4 (4 + length rows) ops" using rows_loop_tidy [of f s 4 rows ops] assms(1,6) by blast
  then have w3: "within 3 (4 + length rows) ops" by (rule within_mono) auto
  have "(3, c) \<notin> fst ` set (cells ops)" for c using w unfolding within_def by fastforce
  then have "read_row ops n 3 = replicate n None" by (auto simp: read_row_def cell_value_none intro!: nth_equalityI simp del: upt_Suc)
  note top = head_rows [OF w3, of headers title widths, folded assms(3), OF assms(4), unfolded this]
  have "map (read_row ?all n) [4..<4 + length rows] = map (read_row ops n) [4..<4 + length rows]"
    using read_row_append(2) [of 1 3] sheet_head_tidy by (intro map_cong) auto
  also have "\<dots> = rows" using rows_loop_reads [of R f n s 4 rows ops] assms(1,2,5,6) by blast
  finally have "map (read_row ?all n) [4..<4 + length rows] = rows" .
  moreover have "[1..<4 + length rows] = [1, 2, 3] @ [4..<4 + length rows]" by (simp add: upt_conv_Cons numeral_eq_Suc del: upt_Suc)
  ultimately show ?thesis using top by simp
qed

lemma address_head_rows: "take 3 sheet_address_map =
   [Some (''SoC Honours Project '' @ ndash @ '' Full Memory Map (Phase 1 Draft)'') # replicate (9 - 1) None,
    map Some [''IP / Region'', ''Base Address'', ''End Address'', ''Allocated Size'', ''Current Register Usage'', ''Expansion Space'', ''Data Width'', ''Required Adapter / Wrapper'', ''Notes''], replicate 9 None]"
  by (simp add: sheet_address_map_def numeral_eq_Suc)

lemma register_head_rows: "take 3 sheet_register_map =
   [Some (''SoC Honours Project '' @ ndash @ '' Register Map (IPs with confirmed RTL)'') # replicate (7 - 1) None,
    map Some [''IP'', ''Register Name'', ''Offset (hex)'', ''Absolute Address (hex)'', ''Width (bits)'', ''Access'', ''Description''], replicate 7 None]"
  by (simp add: sheet_register_map_def numeral_eq_Suc)

lemma written_address_map:
  assumes "list_all map_row rows"
  shows "\<exists>ops. write_address_map rows = Inr ops \<and> map (read_row ops 9) [1..<4 + length rows] = take 3 sheet_address_map @ rows"
proof -
  have R: "set rows \<subseteq> Collect map_row" using assms by (auto simp: list_all_iff)
  have "\<exists>ops. rows_loop address_step 0 4 rows = Inr ops" by (rule rows_loop_returns [OF _ R]) (simp add: address_step_returns)
  then obtain ops where ops: "rows_loop address_step 0 4 rows = Inr ops" ..
  have "map (read_row (address_map_head @ ops) 9) [1..<4 + length rows] = take 3 sheet_address_map @ rows"
    unfolding address_map_head_def address_head_rows by (rule sheet_reads [OF ops R _ _ _ step_blocks(3)]) (simp_all add: address_step_reads)
  with ops show ?thesis by (auto simp: write_address_map_def)
qed

lemma written_register_map:
  assumes "list_all (\<lambda>row. length row = 7) rows"
  shows "\<exists>ops. write_register_map rows = Inr ops \<and> map (read_row ops 7) [1..<4 + length rows] = take 3 sheet_register_map @ rows"
proof -
  have R: "set rows \<subseteq> {row. length row = 7}" using assms by (auto simp: list_all_iff)
  have "\<exists>ops. rows_loop register_step ROW_WHITE 4 rows = Inr ops" by (rule rows_loop_returns [OF _ R]) (simp add: register_step_returns)
  then obtain ops where ops: "rows_loop register_step ROW_WHITE 4 rows = Inr ops" ..
  have "map (read_row (register_map_head @ ops) 7) [1..<4 + length rows] = take 3 sheet_register_map @ rows"
    unfolding register_map_head_def register_head_rows by (rule sheet_reads [OF ops R _ _ _ step_blocks(4)]) (simp_all add: register_step_reads)
  with ops show ?thesis by (auto simp: write_register_map_def)
qed

lemma map_rows: "list_all map_row (drop 3 sheet_address_map)" "3 \<le> length sheet_address_map"
  by code_simp+

lemma register_rows: "list_all (\<lambda>row. length row = 7) (drop 3 sheet_register_map)" "3 \<le> length sheet_register_map"
  by code_simp+


text \<open>
  Remark: whatever rows the functions are given, when the workbook is written then on each of its eight sheets no cell is written twice, and of a merged area only the
  first cell is written (merging drops the others).
\<close>

theorem report_tidy:
  assumes "report d = Inr book"
  shows "length book = 8 \<and> list_all (\<lambda>(name, ops). tidy ops) book"
  using assms inventory_tidy sheets_tidy architecture_tidy unfolding report_def by (auto simp: bind_py_eq_Inr)

definition sample_rows :: report_rows where
  "sample_rows = \<lparr>rr_confirmed = [[Some ''UART'']], rr_missing = [[Some ''CRC'', Some ''NOT DETERMINED'']], rr_map = [], rr_regs = [],
     rr_duplicates = [[Some ''IDENTICAL'']], rr_adapters = [], rr_veer = [[Some bars, Some [], Some []]], rr_lines = [''KEY FACTS'', ''M0'']\<rparr>"

lemma sample_report: "case report sample_rows of Inl e \<Rightarrow> False | Inr book \<Rightarrow> True"
  by code_simp

theorem report_tidy_witness:
  "case report sample_rows of Inl e \<Rightarrow> False | Inr book \<Rightarrow> length book = 8 \<and> list_all (\<lambda>(name, ops). tidy ops) book"
  using sample_report report_tidy [of sample_rows] by (cases "report sample_rows") simp_all

text \<open>The ranges of the rows whose first cell contains a text.\<close>

definition ranges_of :: "string \<Rightarrow> row list \<Rightarrow> (int \<times> int) list" where
  "ranges_of t rows = map (\<lambda>row. (addr_val (text_of (row ! 1)), addr_val (text_of (row ! 2)))) (filter (\<lambda>row. contains t (text_of (row ! 0))) rows)"

lemma reserved_ranges:
  "ranges_of ''slot'' reserved_rows = [(0x40000, 0x40FFF), (0x50000, 0x50FFF), (0x60000, 0x60FFF), (0x70000, 0x70FFF), (0x80000, 0x80FFF), (0x90000, 0x90FFF),
     (0xA0000, 0xAFFFF), (0xB0000, 0xB0FFF), (0xC0000, 0xC0FFF)]"
  "ranges_of ''MUST NOT USE'' reserved_rows = [(0xEE000000, 0xEE00FFFF), (0xF0040000, 0xF004FFFF), (0xF00C0000, 0xF00C7FFF)]"
  "ranges_of ''GAP: '' reserved_rows = [(0x30000, 0x3FFFF)]"
  "ranges_of ''Expansion gap'' reserved_rows = [(0x110000, 0x1FFFFF)]"
  by code_simp+

lemma address_map_ranges: "soc_ranges sheet_address_map =
  [(0xF0040000, 0xF004FFFF), (0xEE000000, 0xEE00FFFF), (0xF00C0000, 0xF00C7FFF), (0, 0xFFFF), (0x10000, 0x1FFFF), (0x20000, 0x20FFF), (0x40000, 0x40FFF), (0x50000, 0x50FFF),
   (0x60000, 0x60FFF), (0x70000, 0x70FFF), (0x80000, 0x80FFF), (0x90000, 0x90FFF), (0xA0000, 0xAFFFF), (0xB0000, 0xB0FFF), (0xC0000, 0xC0FFF), (0xD0000, 0xD0FFF),
   (0xE0000, 0xE0FFF), (0xF0000, 0xF0FFF), (0x100000, 0x100FFF), (0x110000, 0x1FFFFF), (0xF00C0000, 0xF00C7FFF), (0xF0040000, 0xF004FFFF), (0xEE000000, 0xEE00FFFF)]"
  by code_simp

text \<open>
  Remark: the sheet of the reserved space agrees with the address map. Every slot kept for a block that is pending, every region that must not be used and the expansion space
  is a region of the address map, and the region that the sheet calls unallocated meets no region of the map. (The expansion space has 960 KB; the two sheets
  say \<open>~956 KB\<close> and \<open>~1 MB\<close>.)
\<close>

theorem reserved_agrees:
  "set (ranges_of ''slot'' reserved_rows) \<union> set (ranges_of ''MUST NOT USE'' reserved_rows) \<union> set (ranges_of ''Expansion gap'' reserved_rows) \<subseteq> set (soc_ranges sheet_address_map) \<and>
   list_all (\<lambda>(lo, hi). list_all (\<lambda>(lo', hi'). hi < lo' \<or> hi' < lo) (soc_ranges sheet_address_map)) (ranges_of ''GAP: '' reserved_rows) \<and>
   map (\<lambda>(lo, hi). (hi - lo + 1) div 1024) (ranges_of ''Expansion gap'' reserved_rows) = [960]"
  unfolding reserved_ranges address_map_ranges by simp

end
