(* ===== verification/Core_Setting.thy ===== *)
theory Core_Setting
  imports Py_Regex Ifu_Compress Bin2hex "HOL-Library.AList" "HOL-Library.List_Lexorder" "HOL-Library.Char_ord"
begin

text \<open>
  \<open>tools/riscv-dv/riscv_core_setting.py\<close>: writes the settings of the core for the instruction generator, from the enumerations of
  \<open>riscv_instr_pkg.sv\<close> and from the instruction, register and trap tables of the core. Files are lists of lines, dictionaries association lists in the order of
  insertion. Python does not fix the order in which a set is run through: \<open>ordr\<close> and \<open>ordn\<close> give it for sets of texts and of numbers. The
  comparison of the files' hashes only logs a warning.
\<close>

section \<open>Definitions\<close>

subsection \<open>Parsing\<close>

definition slice :: "nat \<Rightarrow> nat \<Rightarrow> 'a list \<Rightarrow> 'a list" where
  "slice lo hi content = take (hi - lo) (drop lo content)"

text \<open>\<open>int(s, 16)\<close>, which accepts the prefix \<open>0x\<close>.\<close>

definition py_int_hex :: "string \<Rightarrow> int py" where
  "py_int_hex s = (if take 2 s \<in> {''0x'', ''0X''} then py_int16 (drop 2 s) else py_int16 s)"

definition between :: "char \<Rightarrow> char \<Rightarrow> char \<Rightarrow> bool" where
  "between a b c \<longleftrightarrow> (of_char a :: nat) \<le> of_char c \<and> (of_char c :: nat) \<le> of_char b"

abbreviation Spaces :: atom where "Spaces \<equiv> Many py_white"

definition RE_HEX :: "string \<Rightarrow> atom list" where
  "RE_HEX width = [Open, One (Not \<circ> py_white), Many (Not \<circ> py_white), Close, Spaces, One (\<lambda>c. c = CHR ''=''), Spaces] @ lit (width @ [CHR 0x27] @ ''h'') @
     [Open, One alnum, Many alnum, Close]"

definition insn_char :: "char \<Rightarrow> bool" where
  "insn_char c \<longleftrightarrow> between CHR ''A'' CHR ''Z'' c \<or> between CHR ''0'' CHR ''9'' c \<or> c = CHR ''_''"

definition RE_INSN :: "atom list" where
  "RE_INSN = [LineStart, Spaces, NotBehind ''//'', Open, Bound, One insn_char, Many insn_char, Bound, Close]"

definition RE_CATEGORY :: "atom list" where
  "RE_CATEGORY = lit ''//'' @ [Spaces, Open, Bound] @ lit ''RV'' @ [One (\<lambda>c. c \<in> set ''36''), One (\<lambda>c. c \<in> set ''24''),
     One (\<lambda>c. between CHR ''A'' CHR ''Z'' c \<or> between CHR ''0'' CHR ''9'' c), Many (\<lambda>c. between CHR ''A'' CHR ''Z'' c \<or> between CHR ''0'' CHR ''9'' c), Bound, Close]"

definition decode_char :: "char \<Rightarrow> bool" where
  "decode_char c \<longleftrightarrow> between CHR ''a'' CHR ''z'' c \<or> between CHR ''0'' CHR ''9'' c \<or> c \<in> set ''_.''"

abbreviation no_newline :: "char \<Rightarrow> bool" where "no_newline c \<equiv> c \<noteq> CHR 0x0A"

definition RE_DECODE :: "atom list" where
  "RE_DECODE = [LineStart, Spaces, NotBehind ''#'', Bound, Open, One decode_char, Many decode_char, Close, Many (between CHR ''0'' CHR ''9''), Bound, Spaces] @
     lit ''='' @ [Spaces] @ lit ''['' @ [Many no_newline] @ lit '']''"

definition csr_char :: "char \<Rightarrow> bool" where
  "csr_char c \<longleftrightarrow> between CHR ''0'' CHR ''9'' c \<or> between CHR ''a'' CHR ''z'' c \<or> c = CHR ''_''"

definition RE_CSR :: "atom list" where
  "RE_CSR = [Open, One csr_char, Many csr_char, Close, Spaces] @ lit ''='' @ [Spaces] @ lit ''['' @
     [Open, One (\<lambda>c. c \<in> set ''01.''), Many (\<lambda>c. c \<in> set ''01.''), Close] @ lit '']''"

definition RE_CAUSE :: "atom list" where
  "RE_CAUSE = lit ''{5{'' @ [Many no_newline] @ lit ''}}'' @ [Spaces] @ lit ''&'' @ [Spaces] @ lit (''5'' @ [CHR 0x27] @ ''h'') @ [Open, One alnum, Many alnum, Close]"

text \<open>One line of the enumerations of numbers, of instructions and of the tables of the core.\<close>

definition enum_line :: "atom list \<Rightarrow> string \<Rightarrow> (int \<times> string) list \<Rightarrow> (int \<times> string) list py" where
  "enum_line regexp line result = (case findall regexp line of
     [] \<Rightarrow> Inr result
   | [g] \<Rightarrow> bind_py (py_int_hex (g ! 1)) (\<lambda>val. Inr (AList.update val (g ! 0) result))
   | _ \<Rightarrow> Inl Exception)"

definition parse_enum_with_one_hex :: "string list \<Rightarrow> atom list \<Rightarrow> nat \<Rightarrow> nat \<Rightarrow> (int \<times> string) list py" where
  "parse_enum_with_one_hex content regexp lo hi = fold_py (enum_line regexp) (slice lo hi content) []"

definition insn_line :: "string \<Rightarrow> (string \<times> string) list \<times> string \<Rightarrow> ((string \<times> string) list \<times> string) py" where
  "insn_line line s = (case s of (insn_to_cat, category) \<Rightarrow>
     let reg_insn = findall RE_INSN line; reg_insn_comment = findall RE_CATEGORY line
     in if reg_insn = [] \<and> reg_insn_comment = [] then Inr s
        else if reg_insn \<noteq> [] \<and> reg_insn_comment \<noteq> [] \<or> length reg_insn > 1 \<or> length reg_insn_comment > 1 then Inl Exception
        else let category' = (if length reg_insn_comment = 1 then reg_insn_comment ! 0 ! 0 else category)
             in if length reg_insn = 1 then
                  (if category' = [] then Inl Exception else Inr (AList.update (reg_insn ! 0 ! 0) category' insn_to_cat, category'))
                else Inr (insn_to_cat, category'))"

definition parse_enum_with_insn :: "string list \<Rightarrow> nat \<Rightarrow> nat \<Rightarrow> (string \<times> string) list py" where
  "parse_enum_with_insn content lo hi = bind_py (fold_py insn_line (slice lo hi content) ([], [])) (\<lambda>s. Inr (fst s))"

definition parse_riscv_instr_pkg ::
  "string list \<Rightarrow> ((int \<times> string) list \<times> (int \<times> string) list \<times> (int \<times> string) list \<times> (string \<times> string) list) py" where
  "parse_riscv_instr_pkg content =
     bind_py (parse_enum_with_one_hex content (RE_HEX []) 749 1101) (\<lambda>csrs.
     bind_py (parse_enum_with_one_hex content (RE_HEX ''4'') 1146 1156) (\<lambda>intr.
     bind_py (parse_enum_with_one_hex content (RE_HEX ''4'') 1158 1173) (\<lambda>excp.
     bind_py (parse_enum_with_insn content 115 649) (\<lambda>insn. Inr (csrs, intr, excp, insn)))))"

definition parse_veer_decode :: "string list \<Rightarrow> string set py" where
  "parse_veer_decode content = fold_py (\<lambda>line veer_insn. case findall RE_DECODE line of
     [] \<Rightarrow> Inr veer_insn | [g] \<Rightarrow> Inr (insert (g ! 0) veer_insn) | _ \<Rightarrow> Inl Exception) (slice 4 290 content) {}"

definition csr_line :: "string \<Rightarrow> (string \<times> string) list \<Rightarrow> (string \<times> string) list py" where
  "csr_line line veer_csrs = (case findall RE_CSR line of
     [] \<Rightarrow> Inr veer_csrs | [g] \<Rightarrow> Inr (AList.update (g ! 0) (g ! 1) veer_csrs) | _ \<Rightarrow> Inl Exception)"

definition parse_veer_csrdecode :: "string list \<Rightarrow> (string \<times> string) list py" where
  "parse_veer_csrdecode content = fold_py csr_line (slice 4 82 content) []"

definition parse_veer_irqs_and_excp :: "string list \<Rightarrow> nat \<Rightarrow> nat \<Rightarrow> int set py" where
  "parse_veer_irqs_and_excp content lo hi = fold_py (\<lambda>line result. case findall RE_CAUSE line of
     [] \<Rightarrow> Inr result | [g] \<Rightarrow> bind_py (py_int_hex (g ! 0)) (\<lambda>v. Inr (insert v result)) | _ \<Rightarrow> Inl Exception) (slice lo hi content) {}"

definition parse_veer_dec_tlu_ctl :: "string list \<Rightarrow> (int set \<times> int set) py" where
  "parse_veer_dec_tlu_ctl content =
     bind_py (parse_veer_irqs_and_excp content 983 988) (\<lambda>irqs. bind_py (parse_veer_irqs_and_excp content 989 996) (\<lambda>excp. Inr (irqs, excp)))"

subsection \<open>Preparing the data\<close>

definition inv_dict :: "('k \<times> 'v) list \<Rightarrow> ('v \<times> 'k list) list" where
  "inv_dict data = fold (\<lambda>(k, v) result. AList.update v ((case map_of result v of None \<Rightarrow> [] | Some ks \<Rightarrow> ks) @ [k]) result) data []"

text \<open>The texts have no line break, at which \<open>$\<close> would match as well.\<close>

definition remove_suffix_number :: "string \<Rightarrow> string" where
  "remove_suffix_number s = rev (dropWhile (between CHR ''0'' CHR ''9'') (rev s))"

definition count_nonempty :: "('k \<times> 'v set) list \<Rightarrow> nat" where
  "count_nonempty d = length (filter (\<lambda>(k, v). v \<noteq> {}) d)"

definition upper_char :: "char \<Rightarrow> char" where
  "upper_char c = (if between CHR ''a'' CHR ''z'' c then char_of (of_char c - 32 :: nat) else c)"

definition upper :: "string \<Rightarrow> string" where
  "upper = map upper_char"

definition adj_insn :: "string \<Rightarrow> string" where
  "adj_insn insn =
     (let s0 = (if insn = ''rev'' then ''REV8'' else insn);
          s1 = fold (\<lambda>x s. if contains x s then remove_suffix_number s else s)
                 [''pack'', ''grevi'', ''gorci'', ''csrw'', ''csrrwi'', ''csrrs'', ''csrrc'', ''csrrci'', ''csrrw''] s0;
          s2 = fold (\<lambda>(val, new_val) s. py_replace val new_val s) [(''.'', ''_''), (''_rw'', []), (''_ro'', [])] s1
      in upper s2)"

text \<open>\<open>int(s, 2)\<close>.\<close>

definition py_int2 :: "string \<Rightarrow> int py" where
  "py_int2 s = (if s = [] \<or> \<not> set s \<subseteq> set ''01'' then Inl ValueError else Inr (foldl (\<lambda>n c. 2 * n + (if c = CHR ''1'' then 1 else 0)) 0 s))"

definition adj_csrs :: "(string \<times> string) list \<Rightarrow> (int \<times> string) list py" where
  "adj_csrs veer_csrs = fold_py (\<lambda>(k, v) d. bind_py (py_int2 (py_replace ''.'' ''0'' v)) (\<lambda>n. Inr (AList.update n k d))) veer_csrs []"

definition adj_insn_to_cat :: "(string \<times> string) list \<Rightarrow> (string \<times> string) list" where
  "adj_insn_to_cat rdv = AList.update ''MRET'' ''RV32I'' (AList.update ''WFI'' ''RV32I'' rdv)"

text \<open>\<open>{k: d[k] for k in ks if k in d}\<close>.\<close>

definition pick :: "('k \<times> 'v) list \<Rightarrow> 'k list \<Rightarrow> ('k \<times> 'v) list" where
  "pick d ks = List.map_filter (\<lambda>k. map_option (Pair k) (map_of d k)) ks"

record core_settings =
  cs_unsupp :: "(string \<times> string set) list"
  cs_isas :: "string set"
  cs_csrs :: "(int \<times> string) list"
  cs_custom :: "(int \<times> string) list"
  cs_ints :: "(int \<times> string) list"
  cs_other_ints :: "int set"
  cs_excs :: "(int \<times> string) list"
  cs_other_excs :: "int set"

definition unsupported :: "(string \<times> string list) list \<Rightarrow> (string \<times> string list) list \<Rightarrow> (string \<times> string set) list" where
  "unsupported cat_to_insn found_cat_to_insn =
     List.map_filter (\<lambda>(cat, insns). map_option (\<lambda>fs. (cat, set insns - set fs)) (map_of found_cat_to_insn cat)) cat_to_insn"

definition settings ::
  "(string set \<Rightarrow> string list) \<Rightarrow> (int set \<Rightarrow> int list) \<Rightarrow> (int \<times> string) list \<times> (int \<times> string) list \<times> (int \<times> string) list \<times> (string \<times> string) list \<Rightarrow>
   string set \<Rightarrow> (int \<times> string) list \<Rightarrow> int set \<times> int set \<Rightarrow> core_settings" where
  "settings ordr ordn rdv veer_insn veer_adj_csrs traps = (case rdv of (rdv_csrs, rdv_ints, rdv_excs, rdv_insn_to_cat) \<Rightarrow> case traps of (veer_ints, veer_excs) \<Rightarrow>
     let rdv_adj = adj_insn_to_cat rdv_insn_to_cat;
         veer_adj_insn = adj_insn ` veer_insn;
         veer_found_insn = {insn \<in> veer_adj_insn. map_of rdv_adj insn \<noteq> None};
         found_insn_to_cat = pick rdv_adj (ordr veer_found_insn);
         found_csrs = pick rdv_csrs (map fst veer_adj_csrs);
         not_found_csrs = ordn (set (map fst veer_adj_csrs) - set (map fst found_csrs))
     in \<lparr>cs_unsupp = unsupported (inv_dict rdv_adj) (inv_dict found_insn_to_cat),
         cs_isas = set (map snd found_insn_to_cat),
         cs_csrs = found_csrs,
         cs_custom = map (\<lambda>(csr, name). (csr, upper name)) (pick veer_adj_csrs not_found_csrs),
         cs_ints = pick rdv_ints (ordn veer_ints), cs_other_ints = {i \<in> veer_ints. map_of rdv_ints i = None},
         cs_excs = pick rdv_excs (ordn veer_excs), cs_other_excs = {e \<in> veer_excs. map_of rdv_excs e = None}\<rparr>)"

subsection \<open>Printing\<close>

text \<open>\<open>{n:X}\<close> and \<open>hex(n)\<close> of a number that is not negative.\<close>

function hex_text :: "int \<Rightarrow> string" where
  "hex_text n = (if n < 16 then [hex_digit n] else hex_text (n div 16) @ [hex_digit (n mod 16)])"
  by pat_completeness auto

termination
  by (relation "measure nat") auto

declare hex_text.simps [simp del]

definition py_hex :: "int \<Rightarrow> string" where
  "py_hex n = ''0x'' @ lower (hex_text n)"

fun unsupp_lines :: "(string set \<Rightarrow> string list) \<Rightarrow> nat \<Rightarrow> nat \<Rightarrow> (string \<times> string set) list \<Rightarrow> string list" where
  "unsupp_lines ordr n cnt [] = []"
| "unsupp_lines ordr n cnt ((cat, insns) # rest) =
     (if insns \<noteq> {} then (''    '' @ join '', '' (ordr insns) @ (if cnt + 1 \<noteq> n then '','' else []) @ '' // '' @ cat) # unsupp_lines ordr n (cnt + 1) rest
      else unsupp_lines ordr n cnt rest)"

text \<open>The loops over the other lists: a separator behind all elements but the last.\<close>

definition list_lines :: "('a \<Rightarrow> string \<times> string) \<Rightarrow> 'a list \<Rightarrow> string list" where
  "list_lines f xs = map (\<lambda>(i, x). ''    '' @ fst (f x) @ (if i + 1 \<noteq> length xs then '','' else []) @ snd (f x)) (List.enumerate 0 xs)"

definition interrupt_note :: "int \<Rightarrow> string" where
  "interrupt_note intr =
     (if intr \<in> {24..<32} \<union> {48..<64} then ''    //'' @ py_hex intr @ '' custom interrupt used''
      else if intr = 14 \<or> intr \<in> {16..<20} \<union> {32..<48} then ''    //'' @ py_hex intr @ '' reserved interrupt used''
      else ''    //'' @ py_hex intr @ '' not supported'')"

definition exception_note :: "int \<Rightarrow> string" where
  "exception_note exc = ''    //'' @ py_hex exc @ '' not supported''"

definition head_lines :: "string list" where
  "head_lines =
     [''//-----------------------------------------------------------------------------'',
      ''// Processor feature configuration'',
      ''//-----------------------------------------------------------------------------'',
      ''//'',
      ''parameter int XLEN = 32;'',
      ''parameter satp_mode_t SATP_MODE = BARE;'',
      ''privileged_mode_t supported_privileged_mode[] = {MACHINE_MODE, USER_MODE};'',
      [],
      ''// NOTE: To get supported and unsupported instructions compare'',
      ''// riscv-dv/src/riscv_instr_pkg.sv and Cores-VeeR-EL2/design/dec/decode files'',
      [],
      ''// Unsupported instructions'',
      ''riscv_instr_name_t unsupported_instr[] = {'']"

definition isa_head :: "string list" where
  "isa_head = [''};'', [], ''// ISA supported by the processor'', ''riscv_instr_group_t supported_isa[$] = {'']"

definition middle_lines :: "string list" where
  "middle_lines =
     [''};'',
      [],
      ''// Interrupt mode support'',
      ''mtvec_mode_t supported_interrupt_mode[$] = {DIRECT, VECTORED};'',
      [],
      ''// The number of interrupt vectors to be generated, only used if VECTORED interrupt mode is supported'',
      ''int max_interrupt_vector_num = 16;'',
      [],
      ''// Physical memory protection support'',
      ''bit support_pmp = 1;'',
      [],
      ''// Enhanced physical memory protection support'',
      ''// NOTE: Not supported by VeeR, described in:'',
      ''// https://raw.githubusercontent.com/riscv/riscv-tee/main/Smepmp/Smepmp.pdf'',
      ''bit support_epmp = 0;'',
      [],
      ''// Debug mode support'',
      ''bit support_debug_mode = 0;'',
      [],
      ''// Support delegate trap to user mode'',
      ''// When implementing UCAUSE, UTVEC, UTVAL, UEPC, USCRATCH, USTATUS, UIE, UIP'',
      ''bit support_umode_trap = 0;'',
      [],
      ''// Support sfence.vma instruction'',
      ''bit support_sfence = 0;'',
      [],
      ''// Support unaligned load/store'',
      ''bit support_unaligned_load_store = 1'' @ [CHR 0x27] @ ''b1;'',
      [],
      ''// GPR setting'',
      ''parameter int NUM_FLOAT_GPR = 32;'',
      ''parameter int NUM_GPR = 32;'',
      ''parameter int NUM_VEC_GPR = 32;'',
      [],
      ''// ----------------------------------------------------------------------------'',
      ''// Vector extension configuration'',
      ''// ----------------------------------------------------------------------------'',
      ''// Parameter for vector extension'',
      ''parameter int VECTOR_EXTENSION_ENABLE = 0;'',
      [],
      ''parameter int VLEN = 512;'',
      [],
      ''// Maximum size of a single vector element'',
      ''parameter int ELEN = 32;'',
      [],
      ''// Minimum size of a sub-element, which must be at most 8-bits.'',
      ''parameter int SELEN = 8;'',
      [],
      ''// Maximum size of a single vector element (encoded in vsew format)'',
      ''parameter int VELEN = int'' @ [CHR 0x27] @ ''($ln(ELEN)/$ln(2)) - 3;'',
      [],
      ''// Maxium LMUL supported by the core'',
      ''parameter int MAX_LMUL = 8;'',
      ''// ----------------------------------------------------------------------------'',
      ''// Multi-harts configuration'',
      ''// ----------------------------------------------------------------------------'',
      [],
      ''// Number of harts'',
      ''parameter int NUM_HARTS = 1;'',
      [],
      ''// ----------------------------------------------------------------------------'',
      ''// Previleged CSR implementation'',
      ''// ----------------------------------------------------------------------------'',
      [],
      ''// Implemented previlieged CSR list'']"

definition csr_lines :: "core_settings \<Rightarrow> string list" where
  "csr_lines s =
     [[CHR 0x60] @ ''ifdef DSIM'',
      ''privileged_reg_t implemented_csr[] = {'',
      [CHR 0x60] @ ''else'',
      ''const privileged_reg_t implemented_csr[] = {'',
      [CHR 0x60] @ ''endif''] @
     list_lines (\<lambda>(addr, name). (name, [])) (cs_csrs s) @
     [''};'',
      [],
      ''// Implementation-specific custom CSRs'',
      ''// By default all not found registers are put to custom csrs'',
      ''bit [11:0] custom_csr[] = {''] @
     list_lines (\<lambda>(addr, name). (''12'' @ [CHR 0x27] @ ''h'' @ hex_text addr, '' // '' @ name)) (cs_custom s) @ [''};'', []]"

definition interrupt_lines :: "(int set \<Rightarrow> int list) \<Rightarrow> core_settings \<Rightarrow> string list" where
  "interrupt_lines ordn s =
     [[CHR 0x60] @ ''ifdef DSIM'',
      ''interrupt_cause_t implemented_interrupt[] = {'',
      [CHR 0x60] @ ''else'',
      ''const interrupt_cause_t implemented_interrupt[] = {'',
      [CHR 0x60] @ ''endif''] @
     list_lines (\<lambda>(intr, name). (name, [])) (cs_ints s) @ map interrupt_note (ordn (cs_other_ints s)) @ [''};'', []]"

definition exception_lines :: "(int set \<Rightarrow> int list) \<Rightarrow> core_settings \<Rightarrow> string list" where
  "exception_lines ordn s =
     [[CHR 0x60] @ ''ifdef DSIM'',
      ''exception_cause_t implemented_exception[] = {'',
      [CHR 0x60] @ ''else'',
      ''const exception_cause_t implemented_exception[] = {''] @
     list_lines (\<lambda>(exc, name). (name, [])) (cs_excs s) @ map exception_note (ordn (cs_other_excs s)) @
     [''};'',
      [CHR 0x60] @ ''endif'']"

definition setting_lines :: "(string set \<Rightarrow> string list) \<Rightarrow> (int set \<Rightarrow> int list) \<Rightarrow> core_settings \<Rightarrow> string list" where
  "setting_lines ordr ordn s =
     head_lines @ unsupp_lines ordr (count_nonempty (cs_unsupp s)) 0 (cs_unsupp s) @ isa_head @ list_lines (\<lambda>isa. (isa, [])) (ordr (cs_isas s)) @
     middle_lines @ csr_lines s @ [''// ----------------------------------------------------------------------------'',      ''// Supported interrupt/exception setting, used for functional coverage'',      ''// ----------------------------------------------------------------------------'',      []] @ interrupt_lines ordn s @ exception_lines ordn s"

text \<open>The script: a file that does not exist is \<open>None\<close>.\<close>

definition need_file :: "string list option \<Rightarrow> string list py" where
  "need_file f = (case f of None \<Rightarrow> Inl FileNotFoundError | Some content \<Rightarrow> Inr content)"

definition core_setting ::
  "(string set \<Rightarrow> string list) \<Rightarrow> (int set \<Rightarrow> int list) \<Rightarrow> string list option \<Rightarrow> string list option \<Rightarrow> string list option \<Rightarrow> string list option \<Rightarrow> string list py" where
  "core_setting ordr ordn instr_pkg decode csrdecode tlu_ctl =
     bind_py (need_file instr_pkg) (\<lambda>f1. bind_py (need_file decode) (\<lambda>f2. bind_py (need_file csrdecode) (\<lambda>f3. bind_py (need_file tlu_ctl) (\<lambda>f4.
     bind_py (parse_riscv_instr_pkg f1) (\<lambda>rdv. bind_py (parse_veer_decode f2) (\<lambda>veer_insn. bind_py (parse_veer_csrdecode f3) (\<lambda>veer_csrs.
     bind_py (parse_veer_dec_tlu_ctl f4) (\<lambda>traps. bind_py (adj_csrs veer_csrs) (\<lambda>veer_adj_csrs.
       Inr (setting_lines ordr ordn (settings ordr ordn rdv veer_insn veer_adj_csrs traps)))))))))))"

section \<open>The dictionaries\<close>

definition orders :: "('a set \<Rightarrow> 'a list) \<Rightarrow> bool" where
  "orders ord \<longleftrightarrow> (\<forall>A. finite A \<longrightarrow> set (ord A) = A \<and> distinct (ord A))"

lemma ordersD: "orders ord \<Longrightarrow> finite A \<Longrightarrow> set (ord A) = A \<and> distinct (ord A)"
  by (simp add: orders_def)

lemma orders_sorted: "orders sorted_list_of_set"
  by (simp add: orders_def)

lemma pick_Nil [simp]: "pick d [] = []"
  by (simp add: pick_def List.map_filter_def)

lemma pick_Cons: "pick d (k # ks) = (case map_of d k of None \<Rightarrow> pick d ks | Some v \<Rightarrow> (k, v) # pick d ks)"
  by (simp add: pick_def List.map_filter_def split: option.splits)

lemma in_pick: "(k, v) \<in> set (pick d ks) \<longleftrightarrow> k \<in> set ks \<and> map_of d k = Some v"
  by (induction ks) (auto simp: pick_Cons split: option.splits)

lemma pick_keys: "fst ` set (pick d ks) = {k \<in> set ks. map_of d k \<noteq> None}"
  by (induction ks) (auto simp: pick_Cons split: option.splits)

lemma distinct_pick: "distinct ks \<Longrightarrow> distinct (map fst (pick d ks))"
  by (induction ks) (auto simp: pick_Cons pick_keys split: option.splits)

text \<open>\<open>inv_dict\<close> lists under every value its keys, in their order.\<close>

lemma inv_dict_snoc:
  "inv_dict (d @ [(k, v)]) = AList.update v ((case map_of (inv_dict d) v of None \<Rightarrow> [] | Some ks \<Rightarrow> ks) @ [k]) (inv_dict d)"
  by (simp add: inv_dict_def)

lemma inv_dict_lookup:
  "map_of (inv_dict d) v = (let ks = map fst (filter (\<lambda>x. snd x = v) d) in if ks = [] then None else Some ks)"
proof (induction d rule: rev_induct)
  case Nil
  show ?case by (simp add: inv_dict_def)
next
  case (snoc x d)
  then show ?case by (cases x) (auto simp: inv_dict_snoc AList.update_conv' Let_def)
qed

lemma distinct_inv_dict: "distinct (map fst (inv_dict d))"
proof (induction d rule: rev_induct)
  case Nil
  show ?case by (simp add: inv_dict_def)
next
  case (snoc x d)
  then show ?case by (cases x) (simp add: inv_dict_snoc AList.distinct_update)
qed

lemma in_inv_dict: "(v, ks) \<in> set (inv_dict d) \<longleftrightarrow> ks = map fst (filter (\<lambda>x. snd x = v) d) \<and> ks \<noteq> []"
  using map_of_eq_Some_iff [OF distinct_inv_dict, of d v ks] by (auto simp: inv_dict_lookup Let_def split: if_splits)

lemma in_unsupported:
  "(cat, X) \<in> set (unsupported A B) \<longleftrightarrow> (\<exists>insns fs. (cat, insns) \<in> set A \<and> map_of B cat = Some fs \<and> X = set insns - set fs)"
  by (force simp: unsupported_def List.map_filter_def image_iff)

lemma keys_of_value: "distinct (map fst d) \<Longrightarrow> n \<in> set (map fst (filter (\<lambda>x. snd x = v) d)) \<longleftrightarrow> map_of d n = Some v"
  by (auto simp: image_iff map_of_eq_Some_iff)

lemma unsupported_spec:
  fixes d f :: "(string \<times> string) list"
  assumes "distinct (map fst d)" "distinct (map fst f)"
  shows "(\<exists>X. (cat, X) \<in> set (unsupported (inv_dict d) (inv_dict f)) \<and> n \<in> X) \<longleftrightarrow>
    map_of d n = Some cat \<and> cat \<in> snd ` set f \<and> map_of f n \<noteq> Some cat"
proof -
  define K where "K e = map fst (filter (\<lambda>x. snd x = cat) e)" for e :: "(string \<times> string) list"
  have ne: "K f \<noteq> [] \<longleftrightarrow> cat \<in> snd ` set f" by (auto simp: K_def filter_empty_conv)
  have u: "(cat, X) \<in> set (unsupported (inv_dict d) (inv_dict f)) \<longleftrightarrow> K d \<noteq> [] \<and> K f \<noteq> [] \<and> X = set (K d) - set (K f)" for X
    unfolding in_unsupported in_inv_dict inv_dict_lookup Let_def K_def [symmetric] by auto
  have k: "n \<in> set (K d) \<longleftrightarrow> map_of d n = Some cat" "n \<in> set (K f) \<longleftrightarrow> map_of f n = Some cat"
    unfolding K_def by (rule keys_of_value [OF assms(1)], rule keys_of_value [OF assms(2)])
  show ?thesis unfolding u k(1) [symmetric] k(2) [symmetric] ne [symmetric] by auto
qed

text \<open>The dictionaries that the parsers return have every key once.\<close>

lemma fold_py_keeps:
  assumes "fold_py f xs s = Inr t" "I s" "\<And>x s t. f x s = Inr t \<Longrightarrow> I s \<Longrightarrow> I t"
  shows "I t"
  using assms(1,2)
proof (induction xs arbitrary: s)
  case (Cons x xs)
  then obtain u where "f x s = Inr u" "fold_py f xs u = Inr t" by (auto simp: bind_py_eq_Inr)
  with Cons assms(3) show ?case by blast
qed simp

lemma insn_line_distinct: "insn_line line s = Inr t \<Longrightarrow> distinct (map fst (fst s)) \<Longrightarrow> distinct (map fst (fst t))"
  by (auto simp: insn_line_def Let_def AList.distinct_update split: if_splits prod.splits)

lemma parse_enum_with_insn_distinct: "parse_enum_with_insn content lo hi = Inr d \<Longrightarrow> distinct (map fst d)"
  unfolding parse_enum_with_insn_def bind_py_eq_Inr
  by (elim exE conjE) (drule fold_py_keeps [where I = "\<lambda>s. distinct (map fst (fst s))"], auto intro: insn_line_distinct)

lemma adj_csrs_distinct: "adj_csrs veer_csrs = Inr d \<Longrightarrow> distinct (map fst d)"
  unfolding adj_csrs_def
  by (drule fold_py_keeps [where I = "\<lambda>d. distinct (map fst d)"]) (auto simp: bind_py_eq_Inr AList.distinct_update)

lemma parse_veer_decode_finite: "parse_veer_decode content = Inr A \<Longrightarrow> finite A"
  unfolding parse_veer_decode_def
  by (drule fold_py_keeps [where I = finite]) (auto split: list.splits)

section \<open>What the settings hold\<close>

lemma distinct_adj_insn_to_cat: "distinct (map fst d) \<Longrightarrow> distinct (map fst (adj_insn_to_cat d))"
  by (simp add: adj_insn_to_cat_def AList.distinct_update)

lemma parse_riscv_instr_pkg_insn: "parse_riscv_instr_pkg content = Inr (csrs, ints, excs, insns) \<Longrightarrow> distinct (map fst insns)"
  by (auto simp: parse_riscv_instr_pkg_def bind_py_eq_Inr dest: parse_enum_with_insn_distinct)

text \<open>
  Property C22: the settings enable no instruction the core lacks. A group of instructions is supported exactly when the core decodes an instruction of it, and the
  instructions of supported groups that the core does not decode, and no others, are listed as not supported, each under its group.
\<close>

theorem settings_instructions:
  assumes "parse_riscv_instr_pkg f1 = Inr (csrs, ints, excs, insns)" "parse_veer_decode f2 = Inr veer_insn" "orders ordr"
    "s = settings ordr ordn (csrs, ints, excs, insns) veer_insn adj traps"
  shows "(cat \<in> cs_isas s \<longleftrightarrow> (\<exists>m\<in>adj_insn ` veer_insn. map_of (adj_insn_to_cat insns) m = Some cat)) \<and>
    ((\<exists>X. (cat, X) \<in> set (cs_unsupp s) \<and> n \<in> X) \<longleftrightarrow>
      map_of (adj_insn_to_cat insns) n = Some cat \<and> cat \<in> cs_isas s \<and> n \<notin> adj_insn ` veer_insn)"
proof -
  define d where "d = adj_insn_to_cat insns"
  define F where "F = {insn \<in> adj_insn ` veer_insn. map_of d insn \<noteq> None}"
  define f where "f = pick d (ordr F)"
  have d: "distinct (map fst d)" unfolding d_def by (rule distinct_adj_insn_to_cat [OF parse_riscv_instr_pkg_insn [OF assms(1)]])
  have "finite F" unfolding F_def using parse_veer_decode_finite [OF assms(2)] by simp
  then have F: "set (ordr F) = F" "distinct (ordr F)" using ordersD [OF assms(3)] by simp_all
  have f: "(m, v) \<in> set f \<longleftrightarrow> m \<in> adj_insn ` veer_insn \<and> map_of d m = Some v" for m v
    unfolding f_def in_pick F(1) by (auto simp: F_def)
  have df: "distinct (map fst f)" unfolding f_def by (rule distinct_pick [OF F(2)])
  have s: "cs_unsupp s = unsupported (inv_dict d) (inv_dict f)" "cs_isas s = snd ` set f"
    unfolding assms(4) settings_def d_def f_def F_def by (simp_all add: Let_def split: prod.splits)
  have isa: "cat \<in> snd ` set f \<longleftrightarrow> (\<exists>m\<in>adj_insn ` veer_insn. map_of d m = Some cat)" using f by force
  have "map_of f n \<noteq> Some cat \<longleftrightarrow> \<not> (n \<in> adj_insn ` veer_insn \<and> map_of d n = Some cat)" using f map_of_eq_Some_iff [OF df] by simp
  with unsupported_spec [OF d df, of cat n] isa show ?thesis unfolding s d_def [symmetric] by blast
qed

theorem settings_instructions_witness:
  "let s = settings sorted_list_of_set sorted_list_of_set ([], [], [], []) {''wfi''} [] ({}, {})
   in ''RV32I'' \<in> cs_isas s \<and> (\<exists>X. (''RV32I'', X) \<in> set (cs_unsupp s) \<and> ''MRET'' \<in> X) \<and> \<not> (\<exists>X. (''RV32I'', X) \<in> set (cs_unsupp s) \<and> ''WFI'' \<in> X)"
proof -
  have p: "parse_riscv_instr_pkg [] = Inr ([], [], [], [])" by code_simp
  have v: "parse_veer_decode [[], [], [], [], ''wfi = [1]''] = Inr {''wfi''}" by code_simp
  have a: "adj_insn ''wfi'' = ''WFI''" by code_simp
  have m: "map_of (adj_insn_to_cat []) ''WFI'' = Some ''RV32I''" "map_of (adj_insn_to_cat []) ''MRET'' = Some ''RV32I''"
    by (simp_all add: adj_insn_to_cat_def)
  show ?thesis unfolding Let_def
    using settings_instructions [OF p v orders_sorted refl, of "''RV32I''" sorted_list_of_set "[]" "({}, {})" "''MRET''"]
      settings_instructions [OF p v orders_sorted refl, of "''RV32I''" sorted_list_of_set "[]" "({}, {})" "''WFI''"] a m by auto
qed

text \<open>
  Remark: every register of the core is listed once: with its name in the generator's enumeration if its address is there, and with its address and its own name
  as a custom register otherwise. Nothing else is listed.
\<close>

theorem settings_registers:
  assumes "adj_csrs veer_csrs = Inr adj" "orders ordn" "s = settings ordr ordn (csrs, ints, excs, insns) veer_insn adj traps"
  shows "distinct (map fst (cs_csrs s @ cs_custom s)) \<and> fst ` set (cs_csrs s @ cs_custom s) = fst ` set adj \<and>
    ((a, name) \<in> set (cs_csrs s) \<longleftrightarrow> a \<in> fst ` set adj \<and> map_of csrs a = Some name) \<and>
    ((a, name) \<in> set (cs_custom s) \<longleftrightarrow> map_of csrs a = None \<and> (\<exists>n. map_of adj a = Some n \<and> name = upper n))"
proof -
  define f where "f = pick csrs (map fst adj)"
  define R where "R = set (map fst adj) - set (map fst f)"
  define u :: "int \<times> string \<Rightarrow> int \<times> string" where "u = (\<lambda>(csr, name). (csr, upper name))"
  have dist: "distinct (map fst adj)" by (rule adj_csrs_distinct [OF assms(1)])
  have R: "set (ordn R) = R" "distinct (ordn R)" using ordersD [OF assms(2), of R] by (simp_all add: R_def)
  have s: "cs_csrs s = f" "cs_custom s = map u (pick adj (ordn R))"
    unfolding assms(3) settings_def f_def R_def u_def by (simp_all add: Let_def split: prod.splits)
  have Rr: "R = {a \<in> fst ` set adj. map_of csrs a = None}" by (auto simp: R_def f_def pick_keys)
  have fu: "map fst (map u xs) = map fst xs" for xs by (auto simp: u_def)
  have keys: "fst ` set (cs_custom s) = R"
  proof -
    have "fst ` set (cs_custom s) = fst ` set (pick adj (ordn R))" unfolding s(2) set_map image_image u_def by (rule image_cong) auto
    also have "\<dots> = R" unfolding pick_keys R(1) unfolding Rr by (auto simp: map_of_eq_None_iff)
    finally show ?thesis .
  qed
  have "distinct (map fst (cs_custom s))" unfolding s(2) fu by (rule distinct_pick [OF R(2)])
  moreover have "distinct (map fst (cs_csrs s))" unfolding s f_def by (rule distinct_pick [OF dist])
  moreover have "fst ` set (cs_csrs s) = {a \<in> fst ` set adj. map_of csrs a \<noteq> None}" unfolding s f_def pick_keys by simp
  moreover have "(a, name) \<in> set (cs_csrs s) \<longleftrightarrow> a \<in> fst ` set adj \<and> map_of csrs a = Some name" unfolding s f_def in_pick by simp
  moreover have "(a, name) \<in> set (cs_custom s) \<longleftrightarrow> map_of csrs a = None \<and> (\<exists>n. map_of adj a = Some n \<and> name = upper n)"
  proof -
    have "(a, name) \<in> set (cs_custom s) \<longleftrightarrow> (\<exists>n. (a, n) \<in> set (pick adj (ordn R)) \<and> name = upper n)" unfolding s u_def by force
    also have "\<dots> \<longleftrightarrow> map_of csrs a = None \<and> (\<exists>n. map_of adj a = Some n \<and> name = upper n)"
    proof -
      have "map_of adj a = Some n \<Longrightarrow> a \<in> fst ` set adj" for n by (metis map_of_eq_None_iff option.distinct(1))
      then show ?thesis unfolding in_pick R(1) unfolding Rr by blast
    qed
    finally show ?thesis .
  qed
  moreover have "{a \<in> fst ` set adj. map_of csrs a \<noteq> None} \<inter> R = {}" "{a \<in> fst ` set adj. map_of csrs a \<noteq> None} \<union> R = fst ` set adj"
    unfolding Rr by auto
  ultimately show ?thesis using keys by (simp add: image_Un)
qed

theorem settings_registers_witness:
  "let s = settings sorted_list_of_set sorted_list_of_set ([(0x301, ''MISA'')], [], [], []) {} [(0x301, ''csr_misa''), (0x7C0, ''csr_mrac'')] ({}, {})
   in (0x301, ''MISA'') \<in> set (cs_csrs s) \<and> (0x7C0, ''CSR_MRAC'') \<in> set (cs_custom s) \<and> distinct (map fst (cs_csrs s @ cs_custom s))"
proof -
  have a: "adj_csrs [(''csr_misa'', ''001100000001''), (''csr_mrac'', ''011111000000'')] = Inr [(0x301, ''csr_misa''), (0x7C0, ''csr_mrac'')]" by code_simp
  have u: "upper ''csr_mrac'' = ''CSR_MRAC''" by code_simp
  show ?thesis unfolding Let_def
    using settings_registers [OF a orders_sorted refl, where ordr = sorted_list_of_set and csrs = "[(0x301, ''MISA'')]" and ints = "[]" and excs = "[]" and insns = "[]" and
         veer_insn = "{}" and traps = "({}, {})" and a = "0x301" and name = "''MISA''"]
      settings_registers [OF a orders_sorted refl, where ordr = sorted_list_of_set and csrs = "[(0x301, ''MISA'')]" and ints = "[]" and excs = "[]" and insns = "[]" and
         veer_insn = "{}" and traps = "({}, {})" and a = "0x7C0" and name = "''CSR_MRAC''"] u by auto
qed

section \<open>What the printed lists hold\<close>

text \<open>Reading a list back: comments and blanks are dropped, and the text is split at its commas.\<close>

definition code_text :: "string \<Rightarrow> string" where
  "code_text line = filter (\<lambda>c. c \<noteq> CHR '' '') (takeWhile (\<lambda>c. c \<noteq> CHR ''/'') line)"

definition read_list :: "string list \<Rightarrow> string list" where
  "read_list lines = (let t = concat (map code_text lines) in if t = [] then [] else split_on CHR '','' t)"

definition clean :: "string \<Rightarrow> bool" where
  "clean s \<longleftrightarrow> s \<noteq> [] \<and> set s \<inter> {CHR '' '', CHR ''/'', CHR '',''} = {}"

lemma split_on_join: "list_all clean xs \<Longrightarrow> xs \<noteq> [] \<Longrightarrow> split_on CHR '','' (join '','' xs) = xs"
  by (induction "'',''" xs rule: join.induct) (auto simp: clean_def split_on_no_sep split_on_append)

lemma read_join: "concat (map code_text lines) = join '','' xs \<Longrightarrow> list_all clean xs \<Longrightarrow> read_list lines = xs"
  by (cases xs) (auto simp: read_list_def Let_def split_on_join clean_def elim: join.elims)

lemma code_text_blanks [simp]: "code_text (''    '' @ s) = code_text s"
  by (simp add: code_text_def)

lemma code_text_clean: "CHR ''/'' \<notin> set x \<Longrightarrow> code_text (x @ s) = filter (\<lambda>c. c \<noteq> CHR '' '') x @ code_text s"
  by (induction x) (auto simp: code_text_def)

lemma filter_clean: "clean x \<Longrightarrow> filter (\<lambda>c. c \<noteq> CHR '' '') x = x"
  by (auto simp: clean_def filter_id_conv)

lemma code_text_slash [simp]: "code_text (CHR ''/'' # s) = []" "code_text (CHR '' '' # s) = code_text s" "code_text (CHR '','' # s) = CHR '','' # code_text s" "code_text [] = []"
  by (simp_all add: code_text_def)

lemma code_text_name: "clean x \<Longrightarrow> code_text (x @ s) = x @ code_text s"
  by (subst code_text_clean) (auto simp: filter_clean, simp add: clean_def)

lemma code_text_join: "list_all clean xs \<Longrightarrow> code_text (join '', '' xs @ s) = join '','' xs @ code_text s"
  by (induction "'', ''" xs rule: join.induct) (auto simp: code_text_name)

lemma enumerated_lines:
  "i + length xs = n \<Longrightarrow> \<forall>x\<in>set xs. clean (fst (f x)) \<and> code_text (snd (f x)) = [] \<Longrightarrow>
   concat (map (\<lambda>(i, x). code_text (''    '' @ fst (f x) @ (if i + 1 \<noteq> n then '','' else []) @ snd (f x))) (List.enumerate i xs)) = join '','' (map (fst \<circ> f) xs)"
proof (induction xs arbitrary: i)
  case (Cons x xs)
  then have IH: "concat (map (\<lambda>(i, x). code_text (''    '' @ fst (f x) @ (if i + 1 \<noteq> n then '','' else []) @ snd (f x))) (List.enumerate (Suc i) xs))
    = join '','' (map (fst \<circ> f) xs)" by (intro Cons.IH) auto
  then show ?case using Cons.prems by (cases xs) (simp_all add: code_text_name comp_def)
qed simp

lemma list_lines_text:
  "\<forall>x\<in>set xs. clean (fst (f x)) \<and> code_text (snd (f x)) = [] \<Longrightarrow> concat (map code_text (list_lines f xs)) = join '','' (map (fst \<circ> f) xs)"
  using enumerated_lines [of 0 xs "length xs" f] by (simp add: list_lines_def comp_def case_prod_unfold)

lemma unsupp_lines_text:
  "n = cnt + count_nonempty u \<Longrightarrow> \<forall>(cat, X)\<in>set u. list_all clean (ordr X) \<and> (X \<noteq> {} \<longrightarrow> ordr X \<noteq> []) \<Longrightarrow>
   concat (map code_text (unsupp_lines ordr n cnt u)) = join '','' (concat (map (ordr \<circ> snd) (filter (\<lambda>(cat, X). X \<noteq> {}) u)))"
proof (induction u arbitrary: cnt)
  case (Cons a u)
  obtain cat X where a: "a = (cat, X)" by fastforce
  show ?case
  proof (cases "X = {}")
    case True
    with Cons show ?thesis by (simp add: a count_nonempty_def)
  next
    case False
    then have IH: "concat (map code_text (unsupp_lines ordr n (cnt + 1) u)) = join '','' (concat (map (ordr \<circ> snd) (filter (\<lambda>(cat, X). X \<noteq> {}) u)))"
      using Cons.prems by (intro Cons.IH) (auto simp: a count_nonempty_def)
    have c: "list_all clean (ordr X)" "ordr X \<noteq> []" using Cons.prems(2) False by (auto simp: a)
    have t: "code_text (''    '' @ join '', '' (ordr X) @ t) = join '','' (ordr X) @ code_text t" for t
      using c(1) by (subst code_text_blanks, subst code_text_join) auto
    show ?thesis
    proof (cases "filter (\<lambda>(cat, X). X \<noteq> {}) u = []")
      case True
      then have "cnt + 1 = n" using Cons.prems(1) False by (simp add: a count_nonempty_def)
      with True False IH t show ?thesis by (simp add: a)
    next
      case ne: False
      then have n: "cnt + 1 \<noteq> n" using Cons.prems(1) False by (simp add: a count_nonempty_def)
      obtain cat' X' us where us: "filter (\<lambda>(cat, X). X \<noteq> {}) u = (cat', X') # us" using ne by (cases "filter (\<lambda>(cat, X). X \<noteq> {}) u") auto
      then have "(cat', X') \<in> set (filter (\<lambda>(cat, X). X \<noteq> {}) u)" by simp
      then have "ordr X' \<noteq> []" using Cons.prems(2) by (auto simp: a)
      then have "concat (map (ordr \<circ> snd) (filter (\<lambda>(cat, X). X \<noteq> {}) u)) \<noteq> []" using us by simp
      from join_append [OF c(2) this] n False IH t show ?thesis by (simp add: a comp_def)
    qed
  qed
qed simp

lemma clean_hex_text: "0 \<le> n \<Longrightarrow> clean (hex_text n)"
proof (induction n rule: hex_text.induct)
  case (1 n)
  have d: "clean [hex_digit k]" if "0 \<le> k" "k < 16" for k
  proof -
    have "k = 0 \<or> k = 1 \<or> k = 2 \<or> k = 3 \<or> k = 4 \<or> k = 5 \<or> k = 6 \<or> k = 7 \<or> k = 8 \<or> k = 9 \<or> k = 10 \<or> k = 11 \<or> k = 12 \<or> k = 13 \<or> k = 14 \<or> k = 15"
      using that by presburger
    then show ?thesis by (elim disjE) (simp_all add: clean_def hex_digit_def char_of_def)
  qed
  show ?case
  proof (cases "n < 16")
    case True
    with 1 d show ?thesis by (simp add: hex_text.simps [of n])
  next
    case False
    with 1 have "clean (hex_text (n div 16))" by (simp add: pos_imp_zdiv_nonneg_iff)
    with d [of "n mod 16"] False show ?thesis by (subst hex_text.simps) (auto simp: clean_def)
  qed
qed

text \<open>
  Remark: the printed lists hold what the settings hold. If the names are identifiers, each of the five lists, read without its comments and split at its commas, has
  exactly the elements of the settings, with no empty element at its end or where a group has no instruction to print.
\<close>

theorem printed_lists:
  assumes "orders ordr"
    "\<forall>(cat, X)\<in>set (cs_unsupp s). finite X \<and> (\<forall>x\<in>X. clean x)" "finite (cs_isas s)" "\<forall>x\<in>cs_isas s. clean x"
    "\<forall>(a, x)\<in>set (cs_csrs s @ cs_ints s @ cs_excs s). clean x" "\<forall>(a, x)\<in>set (cs_custom s). 0 \<le> a"
  shows "read_list (unsupp_lines ordr (count_nonempty (cs_unsupp s)) 0 (cs_unsupp s)) = concat (map (ordr \<circ> snd) (filter (\<lambda>(cat, X). X \<noteq> {}) (cs_unsupp s))) \<and>
    read_list (list_lines (\<lambda>isa. (isa, [])) (ordr (cs_isas s))) = ordr (cs_isas s) \<and>
    read_list (list_lines (\<lambda>(addr, name). (name, [])) (cs_csrs s)) = map snd (cs_csrs s) \<and>
    read_list (list_lines (\<lambda>(addr, name). (''12'' @ [CHR 0x27] @ ''h'' @ hex_text addr, '' // '' @ name)) (cs_custom s)) =
      map (\<lambda>(addr, name). ''12'' @ [CHR 0x27] @ ''h'' @ hex_text addr) (cs_custom s) \<and>
    read_list (list_lines (\<lambda>(intr, name). (name, [])) (cs_ints s) @ map interrupt_note others) = map snd (cs_ints s)"
proof (intro conjI)
  let ?u = "concat (map (ordr \<circ> snd) (filter (\<lambda>(cat, X). X \<noteq> {}) (cs_unsupp s)))"
  have u: "set (ordr X) = X" if "(cat, X) \<in> set (cs_unsupp s)" for cat X using assms(2) that ordersD [OF assms(1)] by auto
  then have "\<forall>(cat, X)\<in>set (cs_unsupp s). list_all clean (ordr X) \<and> (X \<noteq> {} \<longrightarrow> ordr X \<noteq> [])" using assms(2) by (fastforce simp: list_all_iff)
  moreover from this have "list_all clean ?u" by (auto simp: list_all_iff)
  ultimately show "read_list (unsupp_lines ordr (count_nonempty (cs_unsupp s)) 0 (cs_unsupp s)) = ?u"
    by (intro read_join unsupp_lines_text) simp_all
  show "read_list (list_lines (\<lambda>isa. (isa, [])) (ordr (cs_isas s))) = ordr (cs_isas s)"
    using assms(3,4) ordersD [OF assms(1)] by (intro read_join) (simp_all add: list_lines_text list_all_iff comp_def)
  show "read_list (list_lines (\<lambda>(addr, name). (name, [])) (cs_csrs s)) = map snd (cs_csrs s)"
    using assms(5) by (intro read_join, subst list_lines_text) (auto simp: list_all_iff comp_def case_prod_unfold)
  show "read_list (list_lines (\<lambda>(addr, name). (''12'' @ [CHR 0x27] @ ''h'' @ hex_text addr, '' // '' @ name)) (cs_custom s)) =
      map (\<lambda>(addr, name). ''12'' @ [CHR 0x27] @ ''h'' @ hex_text addr) (cs_custom s)"
  proof (rule read_join)
    have c: "clean (''12'' @ [CHR 0x27] @ ''h'' @ hex_text (fst x))" if "x \<in> set (cs_custom s)" for x
      using assms(6) that clean_hex_text [of "fst x"] by (auto simp: clean_def)
    then show "list_all clean (map (\<lambda>(addr, name). ''12'' @ [CHR 0x27] @ ''h'' @ hex_text addr) (cs_custom s))"
      by (simp add: list_all_iff case_prod_unfold)
    show "concat (map code_text (list_lines (\<lambda>(addr, name). (''12'' @ [CHR 0x27] @ ''h'' @ hex_text addr, '' // '' @ name)) (cs_custom s))) =
      join '','' (map (\<lambda>(addr, name). ''12'' @ [CHR 0x27] @ ''h'' @ hex_text addr) (cs_custom s))"
      by (subst list_lines_text) (use c in \<open>simp_all add: comp_def case_prod_unfold\<close>)
  qed
  have "code_text (interrupt_note i) = []" for i by (simp add: interrupt_note_def)
  then show "read_list (list_lines (\<lambda>(intr, name). (name, [])) (cs_ints s) @ map interrupt_note others) = map snd (cs_ints s)"
    using assms(5) by (intro read_join, unfold map_append concat_append, subst list_lines_text) (auto simp: list_all_iff comp_def case_prod_unfold)
qed

theorem printed_lists_witness:
  "read_list (unsupp_lines sorted_list_of_set 1 0 [(''RV32I'', {''MRET''}), (''RV32C'', {})]) = [''MRET''] \<and>
   read_list (list_lines (\<lambda>(addr, name). (name, [])) [(0x301 :: int, ''MISA''), (0x300, ''MSTATUS'')]) = [''MISA'', ''MSTATUS'']"
  using printed_lists [where ordr = sorted_list_of_set and others = "[]" and
    s = "\<lparr>cs_unsupp = [(''RV32I'', {''MRET''}), (''RV32C'', {})], cs_isas = {''RV32I''}, cs_csrs = [(0x301, ''MISA''), (0x300, ''MSTATUS'')], cs_custom = [],
      cs_ints = [], cs_other_ints = {}, cs_excs = [], cs_other_excs = {}\<rparr>"]
  by (simp add: orders_sorted clean_def count_nonempty_def)

section \<open>The conditional lines\<close>

text \<open>The preprocessor on lines whose conditionals do not nest and test \<open>DSIM\<close> only.\<close>

fun preprocess :: "bool \<Rightarrow> bool \<Rightarrow> string list \<Rightarrow> string list" where
  "preprocess dsim on [] = []"
| "preprocess dsim on (l # ls) =
     (if l = [CHR 0x60] @ ''ifdef DSIM'' then preprocess dsim dsim ls
      else if l = [CHR 0x60] @ ''else'' then preprocess dsim (\<not> dsim) ls
      else if l = [CHR 0x60] @ ''endif'' then preprocess dsim True ls
      else if on then l # preprocess dsim on ls else preprocess dsim on ls)"

lemma preprocess_plain: "\<forall>l\<in>set ls. l = [] \<or> hd l \<noteq> CHR 0x60 \<Longrightarrow> preprocess dsim on (ls @ rest) = (if on then ls else []) @ preprocess dsim on rest"
  by (induction ls) auto

lemma plain_lines:
  "\<forall>l\<in>set (list_lines f xs). l = [] \<or> hd l \<noteq> CHR 0x60" "\<forall>l\<in>set (map interrupt_note ys). l = [] \<or> hd l \<noteq> CHR 0x60"
  "\<forall>l\<in>set (map exception_note zs). l = [] \<or> hd l \<noteq> CHR 0x60"
  by (auto simp: list_lines_def interrupt_note_def exception_note_def)

text \<open>
  Remark: with \<open>DSIM\<close> defined the list of exceptions is lost. The conditional of this list ends behind the list and not, as that of the interrupts, behind its
  first line: the preprocessor leaves an opening line with neither elements nor an end.
\<close>

theorem exceptions_lost:
  "preprocess True True (exception_lines ordn s) = [''exception_cause_t implemented_exception[] = {''] \<and>
   preprocess False True (exception_lines ordn s) = [''const exception_cause_t implemented_exception[] = {''] @ list_lines (\<lambda>(exc, name). (name, [])) (cs_excs s) @
     map exception_note (ordn (cs_other_excs s)) @ [''};''] \<and>
   preprocess True True (interrupt_lines ordn s) = [''interrupt_cause_t implemented_interrupt[] = {''] @ list_lines (\<lambda>(intr, name). (name, [])) (cs_ints s) @
     map interrupt_note (ordn (cs_other_ints s)) @ [''};'', []]"
  by (simp add: exception_lines_def interrupt_lines_def preprocess_plain [OF plain_lines(1)] preprocess_plain [OF plain_lines(2)]
    preprocess_plain [OF plain_lines(3)] del: set_map)

section \<open>Reading enumerations\<close>

lemma rx_match_group:
  assumes "x \<noteq> []" "\<forall>c\<in>set x. P c" "s = [] \<or> \<not> P (hd s)" "rx_match as (rev x @ b) s (length b) (gs @ [x]) = Some r"
  shows "rx_match (Open # One P # Many P # Close # as) b (x @ s) p gs = Some r"
proof -
  obtain c y where x: "x = c # y" using assms(1) by (cases x) auto
  have "rx_match (Many P # Close # as) (c # b) (y @ s) (length b) gs = Some r"
    by (rule rx_match_Many) (use assms in \<open>auto simp: x\<close>)
  then show ?thesis using assms(2) by (simp add: x)
qed

text \<open>A line of the enumeration: an entry with its name and number, or a line without an equals sign.\<close>

datatype enum_src = Entry string string string string string string | Plain string

fun src_line :: "string \<Rightarrow> enum_src \<Rightarrow> string" where
  "src_line width (Entry w0 name w1 w2 digits rest) = w0 @ name @ w1 @ ''='' @ w2 @ (width @ [CHR 0x27] @ ''h'') @ digits @ rest"
| "src_line width (Plain line) = line"

fun src_ok :: "enum_src \<Rightarrow> bool" where
  "src_ok (Entry w0 name w1 w2 digits rest) \<longleftrightarrow> list_all py_white (w0 @ w1 @ w2) \<and> w1 \<noteq> [] \<and> name \<noteq> [] \<and> list_all (Not \<circ> py_white) name \<and>
     digits \<noteq> [] \<and> list_all (\<lambda>c. hex_char c \<noteq> None) digits \<and> list_all alnum digits \<and> (rest = [] \<or> \<not> alnum (hd rest)) \<and> CHR ''='' \<notin> set rest"
| "src_ok (Plain line) \<longleftrightarrow> CHR ''='' \<notin> set line"

definition hex_number :: "string \<Rightarrow> int" where
  "hex_number s = foldl (\<lambda>v c. 16 * v + the (hex_char c)) 0 s"

fun src_pairs :: "enum_src \<Rightarrow> (int \<times> string) list" where
  "src_pairs (Entry w0 name w1 w2 digits rest) = [(hex_number digits, name)]"
| "src_pairs (Plain line) = []"

lemma RE_HEX_equals: "One (\<lambda>c. c = CHR ''='') \<in> set (RE_HEX width)"
  by (simp add: RE_HEX_def)

lemma RE_HEX_match:
  assumes "src_ok (Entry [] name w1 w2 digits rest)" "width = [] \<or> \<not> py_white (hd width)"
  shows "rx_match (RE_HEX width) b (name @ w1 @ ''='' @ w2 @ (width @ [CHR 0x27] @ ''h'') @ digits @ rest) p [] =
    Some (rev (name @ w1 @ ''='' @ w2 @ (width @ [CHR 0x27] @ ''h'') @ digits) @ b, rest, [name, digits])"
proof -
  let ?t = "width @ [CHR 0x27] @ ''h''"
  have ok: "\<forall>c\<in>set w1. py_white c" "\<forall>c\<in>set w2. py_white c" "w1 \<noteq> []" "name \<noteq> []" "\<forall>c\<in>set name. (Not \<circ> py_white) c" "digits \<noteq> []"
    "\<forall>c\<in>set digits. alnum c" "rest = [] \<or> \<not> alnum (hd rest)" using assms(1) by (auto simp: list_all_iff)
  have eq: "\<not> py_white CHR ''=''" "\<not> py_white CHR 0x27" by (simp_all add: py_white_def is_space_def)
  define b1 where "b1 = rev name @ b"
  define b2 where "b2 = CHR ''='' # rev w1 @ b1"
  define b3 where "b3 = rev ?t @ rev w2 @ b2"
  have 3: "rx_match [Open, One alnum, Many alnum, Close] b3 (digits @ rest) q [name] = Some (rev digits @ b3, rest, [name, digits])" for q
    using ok by (intro rx_match_group) auto
  have 2: "rx_match (Many py_white # lit ?t @ [Open, One alnum, Many alnum, Close]) b2 (w2 @ ?t @ digits @ rest) q [name] = Some (rev digits @ b3, rest, [name, digits])" for q
  proof (rule rx_match_Many [OF ok(2)])
    show "rx_match (lit ?t @ [Open, One alnum, Many alnum, Close]) (rev w2 @ b2) (?t @ digits @ rest) q [name] = Some (rev digits @ b3, rest, [name, digits])"
      unfolding rx_match_lit b3_def [symmetric] by (rule 3)
    show "?t @ digits @ rest = [] \<or> \<not> py_white (hd (?t @ digits @ rest))" using eq(2) assms(2) by (cases width) auto
  qed
  have 1: "rx_match (Many py_white # One (\<lambda>c. c = CHR ''='') # Many py_white # lit ?t @ [Open, One alnum, Many alnum, Close]) b1 (w1 @ ''='' @ w2 @ ?t @ digits @ rest) q [name] =
      Some (rev digits @ b3, rest, [name, digits])" for q
    using ok(1) eq(1) 2 by (intro rx_match_Many) (simp_all add: b2_def)
  have "rx_match (RE_HEX width) b (name @ w1 @ ''='' @ w2 @ ?t @ digits @ rest) p [] = Some (rev digits @ b3, rest, [name, digits])"
    unfolding RE_HEX_def append_Cons append_Nil
    using ok 1 by (intro rx_match_group) (auto simp: b1_def hd_append neq_Nil_conv)
  then show ?thesis by (simp add: b3_def b2_def b1_def)
qed

lemma findall_white: "list_all py_white w \<Longrightarrow> findall_from (RE_HEX width) b (w @ s) = findall_from (RE_HEX width) (rev w @ b) s"
proof (induction w arbitrary: b)
  case (Cons c w)
  then have "rx_match (RE_HEX width) b (c # w @ s) 0 [] = None" by (simp add: RE_HEX_def)
  with Cons show ?case by (simp add: findall_skip)
qed simp

lemma findall_entry:
  assumes "src_ok (Entry w0 name w1 w2 digits rest)" "width = [] \<or> \<not> py_white (hd width)"
  shows "findall (RE_HEX width) (src_line width (Entry w0 name w1 w2 digits rest)) = [[name, digits]]"
proof -
  let ?u = "name @ w1 @ ''='' @ w2 @ (width @ [CHR 0x27] @ ''h'') @ digits"
  have "src_ok (Entry [] name w1 w2 digits rest)" "list_all py_white w0" "CHR ''='' \<notin> set rest" using assms(1) by auto
  note RE_HEX_match [OF this(1) assms(2), of "rev w0" 0] this(2,3)
  moreover have "findall_from (RE_HEX width) b rest = []" for b
    using \<open>CHR ''='' \<notin> set rest\<close> by (intro findall_missing [OF RE_HEX_equals]) auto
  ultimately have "findall_from (RE_HEX width) (rev w0) (?u @ rest) = [[name, digits]]"
    using findall_match [of "RE_HEX width" "rev w0" ?u rest] by simp
  then show ?thesis using findall_white [OF \<open>list_all py_white w0\<close>, of width "[]"] by (simp add: findall_def)
qed

lemma py_int_hex_digits: "digits \<noteq> [] \<Longrightarrow> list_all (\<lambda>c. hex_char c \<noteq> None) digits \<Longrightarrow> py_int_hex digits = Inr (hex_number digits)"
proof -
  assume d: "digits \<noteq> []" "list_all (\<lambda>c. hex_char c \<noteq> None) digits"
  have "hex_char CHR ''x'' = None" "hex_char CHR ''X'' = None" by simp_all
  then have "CHR ''x'' \<notin> set digits" "CHR ''X'' \<notin> set digits" using d(2) by (auto simp: list_all_iff simp del: hex_char.simps)
  then have "CHR ''x'' \<notin> set (take 2 digits)" "CHR ''X'' \<notin> set (take 2 digits)" by (auto dest: in_set_takeD)
  then have "take 2 digits \<notin> {''0x'', ''0X''}" by auto
  moreover have "None \<notin> set (map hex_char digits)" using d(2) by (auto simp: list_all_iff simp del: hex_char.simps)
  ultimately show ?thesis using d(1) by (simp add: py_int_hex_def py_int16_def hex_number_def del: hex_char.simps)
qed

lemma update_new: "k \<notin> fst ` set d \<Longrightarrow> AList.update k v d = d @ [(k, v)]"
  by (induction d) auto

lemma enum_line_src:
  assumes "src_ok e" "width = [] \<or> \<not> py_white (hd width)" "fst ` set (src_pairs e) \<inter> fst ` set d = {}"
  shows "enum_line (RE_HEX width) (src_line width e) d = Inr (d @ src_pairs e)"
proof (cases e)
  case (Entry w0 name w1 w2 digits rest)
  with assms have "findall (RE_HEX width) (src_line width e) = [[name, digits]]" "py_int_hex digits = Inr (hex_number digits)" "hex_number digits \<notin> fst ` set d"
    using findall_entry [of w0 name w1 w2 digits rest width] py_int_hex_digits [of digits] by simp_all
  then show ?thesis by (simp add: enum_line_def update_new Entry)
next
  case (Plain line)
  with assms(1) have "findall (RE_HEX width) (src_line width e) = []"
    unfolding findall_def by (intro findall_missing [OF RE_HEX_equals]) auto
  then show ?thesis by (simp add: enum_line_def Plain)
qed



end
