(* ===== verification/Nox_Sessions.thy ===== *)
theory Nox_Sessions
  imports Py_Prelude
begin

text \<open>
  \<open>verification/block/noxfile.py\<close>: the sessions that run the tests of the blocks, one after the other, and keep their logs, results and coverage data. The
  files are a map from paths to contents; \<open>make\<close>, which simulates the tests of a session, is a parameter: it gets its arguments, the path of
  the log and the files, and returns the files it leaves, or fails.
\<close>

section \<open>Definitions\<close>

subsection \<open>The results of a simulation\<close>

text \<open>An element of an XML document: its tag, attributes and children. \<open>iter_tag\<close> is \<open>iter\<close>: the element and all below it, in the order of the document.\<close>

datatype xml = Elem (xtag: string) (xattrib: "(string \<times> string) list") (xsub: "xml list")

fun iter_tag :: "string \<Rightarrow> xml \<Rightarrow> xml list" where
  "iter_tag t (Elem g as xs) = (if g = t then [Elem g as xs] else []) @ concat (map (iter_tag t) xs)"

definition xget :: "string \<Rightarrow> xml \<Rightarrow> string option" where
  "xget k e = map_of (xattrib e) k"

text \<open>
  Suites of the same name and package are joined. The element that is extended belongs to the document too; the loop over the document has passed it
  then, as no suite is inside another one in the files of cocotb.
\<close>

definition same_suite :: "xml \<Rightarrow> xml \<Rightarrow> bool" where
  "same_suite e ts \<longleftrightarrow> xget ''name'' e = xget ''name'' ts \<and> xget ''package'' e = xget ''package'' ts"

fun add_suite :: "xml \<Rightarrow> xml list \<Rightarrow> xml list" where
  "add_suite ts [] = [ts]"
| "add_suite ts (e # es) = (if same_suite e ts then Elem (xtag e) (xattrib e) (xsub e @ xsub ts) # es else e # add_suite ts es)"

definition isSimFailure :: "xml \<Rightarrow> bool \<Rightarrow> int" where
  "isSimFailure tree suppress_rc =
     (let result = fold add_suite (iter_tag ''testsuite'' tree) [];
          failures = [failure. testsuite \<leftarrow> concat (map (iter_tag ''testsuite'') result), testcase \<leftarrow> iter_tag ''testcase'' testsuite,
                        failure \<leftarrow> iter_tag ''failure'' testcase];
          rc = (if failures \<noteq> [] then 1 else 0)
      in if suppress_rc then 0 else rc)"

subsection \<open>A session\<close>

datatype content = Data string | Results xml

type_synonym files = "string \<Rightarrow> content option"

definition path_join :: "string \<Rightarrow> string \<Rightarrow> string" where
  "path_join a b = a @ ''/'' @ b"

definition blockPath :: string where "blockPath = ''.''"

definition coverageTypes :: "string list" where "coverageTypes = [''all'']"

text \<open>\<open>os.rename\<close>.\<close>

definition rename_file :: "string \<Rightarrow> string \<Rightarrow> files \<Rightarrow> files py" where
  "rename_file a b fs = (case fs a of None \<Rightarrow> Inl FileNotFoundError | Some c \<Rightarrow> Inr (if a = b then fs else fs(a := None, b \<mapsto> c)))"

definition make_args :: "string \<Rightarrow> string \<Rightarrow> string \<Rightarrow> string list" where
  "make_args testPath testName cov =
     [''make'', ''-C'', testPath, ''all'', ''COVERAGE_TYPE='' @ cov, ''MODULE='' @ testName, ''COCOTB_RESULTS_FILE='' @ testName @ ''.xml'']"

text \<open>The files a session leaves, and how it ends; renaming the coverage data comes first, then the log.\<close>

definition verify_block ::
  "(string list \<Rightarrow> string \<Rightarrow> files \<Rightarrow> files option) \<Rightarrow> string \<Rightarrow> string \<Rightarrow> string \<Rightarrow> files \<Rightarrow> files \<times> unit py" where
  "verify_block make blockName testName cov fs =
     (let testPath = path_join blockPath blockName;
          xmlPath = path_join testPath (testName @ ''.xml'');
          logPath = path_join testPath (testName @ ''.log'');
          check = (\<lambda>fs'. (fs', case fs' xmlPath of
             None \<Rightarrow> Inl FileNotFoundError
           | Some (Data _) \<Rightarrow> Inl ParseError
           | Some (Results tree) \<Rightarrow> if isSimFailure tree False \<noteq> 0 then Inl Exception else Inr ()))
      in case make (make_args testPath testName cov) logPath (fs(logPath \<mapsto> Data [])) of
           None \<Rightarrow> (fs(logPath \<mapsto> Data []), Inl Exception)
         | Some fs1 \<Rightarrow>
             if cov = [] then check fs1
             else case rename_file (path_join testPath ''coverage.dat'') (path_join testPath (''coverage_'' @ testName @ ''_'' @ cov @ ''.dat'')) fs1 of
               Inl e \<Rightarrow> (fs1, Inl e)
             | Inr fs2 \<Rightarrow> (case rename_file logPath (path_join testPath (testName @ ''_'' @ cov @ ''.log'')) fs2 of
                 Inl e \<Rightarrow> (fs2, Inl e)
               | Inr fs3 \<Rightarrow> check fs3))"

subsection \<open>The sessions of the file\<close>

definition pic_verify :: "string list \<times> string list" where
  "pic_verify = ([''pic''], [''test_reset'', ''test_clken'', ''test_config'', ''test_pending'', ''test_prioritization'', ''test_servicing''])"

definition pic_gw_verify :: "string list \<times> string list" where
  "pic_gw_verify = ([''pic_gw''], [''test_gateway''])"

definition dec_tl_verify :: "string list \<times> string list" where
  "dec_tl_verify = ([''dec_tl''], [''test_dec_tl''])"

definition dec_ib_verify :: "string list \<times> string list" where
  "dec_ib_verify = ([''dec_ib''], [''test_dec_ib''])"

definition dma_verify :: "string list \<times> string list" where
  "dma_verify = ([''dma''], [''test_reset'', ''test_read'', ''test_write'', ''test_address'', ''test_ecc'', ''test_debug_read'', ''test_debug_write'', ''test_debug_address''])"

definition ifu_compress_verify :: "string list \<times> string list" where
  "ifu_compress_verify = ([''ifu_compress''], [''test_compress''])"

definition ifu_mem_ctl_verify :: "string list \<times> string list" where
  "ifu_mem_ctl_verify = ([''ifu_mem_ctl''], [''test_miss'', ''test_err'', ''test_err_stop''])"

definition exu_alu_verify :: "string list \<times> string list" where
  "exu_alu_verify = ([''exu_alu''], [''test_arith'', ''test_logic'', ''test_zbb'', ''test_zbs'', ''test_zbp'', ''test_zba''])"

definition exu_mul_verify :: "string list \<times> string list" where
  "exu_mul_verify = ([''exu_mul''], [''test_mul''])"

definition exu_div_verify :: "string list \<times> string list" where
  "exu_div_verify = ([''exu_div''], [''test_div''])"

definition iccm_verify :: "string list \<times> string list" where
  "iccm_verify = ([''iccm''], [''test_readwrite''])"

definition dccm_verify :: "string list \<times> string list" where
  "dccm_verify = ([''dccm''], [''test_readwrite''])"

definition dcls_verify :: "string list \<times> string list" where
  "dcls_verify = ([''dcls''], [''test_lockstep''])"

definition lib_axi4_to_ahb_verify :: "string list \<times> string list" where
  "lib_axi4_to_ahb_verify = ([''lib_axi4_to_ahb''], [''test_axi'', ''test_axi_read_channel'', ''test_axi_write_channel''])"

definition lib_ahb_to_axi4_verify :: "string list \<times> string list" where
  "lib_ahb_to_axi4_verify = ([''lib_ahb_to_axi4''], [''test_write'', ''test_read''])"

definition pmp_verify :: "string list \<times> string list" where
  "pmp_verify = ([''pmp''], [''test_xwr_access'', ''test_address_matching'', ''test_multiple_configs''])"

definition pmp_random_verify :: "string list \<times> string list" where
  "pmp_random_verify = ([''pmp_random''], [''test_pmp_random''])"

definition dec_verify :: "string list \<times> string list" where
  "dec_verify = ([''dec''], [''test_dec''])"

definition dec_tlu_ctl_verify :: "string list \<times> string list" where
  "dec_tlu_ctl_verify = ([''dec_tlu_ctl''], [''test_dec_tl''])"

definition dmi_verify :: "string list \<times> string list" where
  "dmi_verify = ([''dmi''], [''test_jtag_ir'', ''test_dmi_read_write'', ''test_dmi_tap_fsm''])"

definition lsu_tl_verify :: "string list \<times> string list" where
  "lsu_tl_verify = ([''lsu_tl''], [''test_lsu_tl''])"

definition dec_pmp_ctl_verify :: "string list \<times> string list" where
  "dec_pmp_ctl_verify = ([''dec_pmp_ctl''], [''test_dec_pmp_ctl''])"

text \<open>The sessions, one for each block, test and kind of coverage, and their run; a session that fails does not stop the others.\<close>

definition nox_sessions :: "(string \<times> string \<times> string) list" where
  "nox_sessions = [(b, t, c). (bs, ts) \<leftarrow> [pic_verify, pic_gw_verify, dec_tl_verify, dec_ib_verify, dma_verify, ifu_compress_verify, ifu_mem_ctl_verify,
       exu_alu_verify, exu_mul_verify, exu_div_verify, iccm_verify, dccm_verify, dcls_verify, lib_axi4_to_ahb_verify,
       lib_ahb_to_axi4_verify, pmp_verify, pmp_random_verify, dec_verify, dec_tlu_ctl_verify, dmi_verify, lsu_tl_verify,
       dec_pmp_ctl_verify],
     b \<leftarrow> bs, t \<leftarrow> ts, c \<leftarrow> coverageTypes]"

definition nox_run :: "(string list \<Rightarrow> string \<Rightarrow> files \<Rightarrow> files option) \<Rightarrow> (string \<times> string \<times> string) list \<Rightarrow> files \<Rightarrow> files" where
  "nox_run make = fold (\<lambda>(b, t, c) fs. fst (verify_block make b t c fs))"

section \<open>The verdict\<close>

definition failing :: "xml \<Rightarrow> bool" where
  "failing ts \<longleftrightarrow> (\<exists>tc\<in>set (iter_tag ''testcase'' ts). iter_tag ''failure'' tc \<noteq> [])"

text \<open>The elements below an element are in the list of every element above it.\<close>

lemma iter_tag_trans: "e \<in> set (iter_tag t x) \<Longrightarrow> d \<in> set (iter_tag u e) \<Longrightarrow> d \<in> set (iter_tag u x)"
  by (induction t x rule: iter_tag.induct) (auto split: if_splits)

lemma iter_tag_self: "xtag x = t \<Longrightarrow> x \<in> set (iter_tag t x)"
  by (cases x) simp

lemma iter_tag_tag: "e \<in> set (iter_tag t x) \<Longrightarrow> xtag e = t"
  by (induction t x rule: iter_tag.induct) (auto split: if_splits)

lemma iter_tag_suite: "xtag x \<noteq> u \<Longrightarrow> iter_tag u x = concat (map (iter_tag u) (xsub x))"
  by (cases x) simp

text \<open>Joining suites neither loses nor makes a failing one.\<close>

lemma failing_joined:
  "xtag e = ''testsuite'' \<Longrightarrow> xtag ts = ''testsuite'' \<Longrightarrow> failing (Elem ''testsuite'' (xattrib e) (xsub e @ xsub ts)) \<longleftrightarrow> failing e \<or> failing ts"
  by (cases e; cases ts) (auto simp: failing_def)

lemma add_suite_failing:
  "\<forall>e\<in>set (ts # es). xtag e = ''testsuite'' \<Longrightarrow> (\<exists>e\<in>set (add_suite ts es). failing e) \<longleftrightarrow> failing ts \<or> (\<exists>e\<in>set es. failing e)"
  by (induction es) (auto simp: failing_joined)

lemma add_suite_tags: "\<forall>e\<in>set (ts # es). xtag e = ''testsuite'' \<Longrightarrow> \<forall>e\<in>set (add_suite ts es). xtag e = ''testsuite''"
  by (induction es) auto

lemma fold_add_suite:
  "\<forall>e\<in>set (tss @ es). xtag e = ''testsuite'' \<Longrightarrow>
   (\<exists>e\<in>set (fold add_suite tss es). failing e) \<longleftrightarrow> (\<exists>e\<in>set (tss @ es). failing e)"
proof (induction tss arbitrary: es)
  case (Cons ts tss)
  then have "\<forall>e\<in>set (add_suite ts es). xtag e = ''testsuite''" by (intro add_suite_tags) simp
  with Cons have "(\<exists>e\<in>set (fold add_suite tss (add_suite ts es)). failing e) \<longleftrightarrow> (\<exists>e\<in>set (tss @ add_suite ts es). failing e)"
    by (intro Cons.IH) auto
  then show ?case using add_suite_failing [of ts es] Cons.prems by auto
qed simp

lemma fold_add_suite_tags: "\<forall>e\<in>set (tss @ es). xtag e = ''testsuite'' \<Longrightarrow> \<forall>e\<in>set (fold add_suite tss es). xtag e = ''testsuite''"
proof (induction tss arbitrary: es)
  case (Cons ts tss)
  then have "\<forall>e\<in>set (add_suite ts es). xtag e = ''testsuite''" by (intro add_suite_tags) simp
  with Cons.IH [of "add_suite ts es"] Cons.prems show ?case by auto
qed simp

lemma failing_below: "e \<in> set (iter_tag t x) \<Longrightarrow> failing e \<Longrightarrow> failing x"
  unfolding failing_def using iter_tag_trans by blast

text \<open>
  Property C30: the verdict on a simulation. \<open>isSimFailure\<close> returns 1 exactly when some test case of some suite of the document has a failure, however the suites are
  named and joined; a document without test cases counts as a success.
\<close>

theorem sim_failure_iff:
  "isSimFailure tree False = (if \<exists>ts\<in>set (iter_tag ''testsuite'' tree). failing ts then 1 else 0)"
proof -
  let ?r = "fold add_suite (iter_tag ''testsuite'' tree) []"
  have tags: "\<forall>e\<in>set (iter_tag ''testsuite'' tree @ []). xtag e = ''testsuite''" using iter_tag_tag by auto
  have "(\<exists>e\<in>set (concat (map (iter_tag ''testsuite'') ?r)). failing e) \<longleftrightarrow> (\<exists>e\<in>set ?r. failing e)" (is "?L \<longleftrightarrow> ?R")
  proof
    assume ?L
    then show ?R using failing_below by (auto simp del: iter_tag.simps)
  next
    assume ?R
    then obtain e where e: "e \<in> set ?r" "failing e" by blast
    then have "e \<in> set (iter_tag ''testsuite'' e)" using fold_add_suite_tags [OF tags] iter_tag_self by blast
    with e show ?L by auto
  qed
  also have "\<dots> \<longleftrightarrow> (\<exists>ts\<in>set (iter_tag ''testsuite'' tree). failing ts)" using fold_add_suite [OF tags] by simp
  finally show ?thesis by (auto simp: isSimFailure_def Let_def failing_def simp del: iter_tag.simps)
qed

text \<open>
  Remark: when a session succeeds. It does exactly when \<open>make\<close> does, there are coverage data, the log and a document with results afterwards, and no test case has a
  failure; the log and the coverage data are then under the names of the session.
\<close>

theorem verify_block_verdict:
  fixes b t c :: string
  defines "dir \<equiv> path_join blockPath b"
  assumes "c \<noteq> []" "make (make_args dir t c) (path_join dir (t @ ''.log'')) (fs(path_join dir (t @ ''.log'') \<mapsto> Data [])) = Some fs1"
    "fs1 (path_join dir ''coverage.dat'') = Some dat" "fs1 (path_join dir (t @ ''.log'')) = Some log" "fs1 (path_join dir (t @ ''.xml'')) = Some (Results tree)"
    "take 5 t = ''test_''"
  shows "snd (verify_block make b t c fs) = (if \<exists>ts\<in>set (iter_tag ''testsuite'' tree). failing ts then Inl Exception else Inr ()) \<and>
    fst (verify_block make b t c fs) (path_join dir (t @ ''_'' @ c @ ''.log'')) = Some log \<and>
    fst (verify_block make b t c fs) (path_join dir (''coverage_'' @ t @ ''_'' @ c @ ''.dat'')) = Some dat"
proof -
  have t: "t @ u \<noteq> ''coverage.dat''" "t @ u \<noteq> ''coverage_'' @ w" for u w using assms(7) by (cases t; auto)+
  have last: "t @ ''.log'' \<noteq> t @ ''.xml''" "t @ ''_'' @ c @ ''.log'' \<noteq> t @ ''.xml''" "t @ ''_'' @ c @ ''.log'' \<noteq> t @ ''.log''"
    by (auto dest: arg_cong [of _ _ last] arg_cong [of _ _ length])
  have j: "path_join dir x = path_join dir y \<longleftrightarrow> x = y" for x y by (simp add: path_join_def)
  show ?thesis
    using assms(2-6) last t unfolding dir_def [symmetric] verify_block_def Let_def sim_failure_iff rename_file_def
    by (simp add: j not_sym [OF t(1)] not_sym [OF t(2)])
qed

theorem verify_block_verdict_witness:
  "snd (verify_block (\<lambda>args log fs. Some (fs(''./pic/coverage.dat'' \<mapsto> Data ''c'', ''./pic/test_reset.xml'' \<mapsto>
      Results (Elem ''testsuites'' [] [Elem ''testsuite'' [(''name'', ''all'')] [Elem ''testcase'' [] [Elem ''failure'' [] []]]])))) ''pic'' ''test_reset'' ''all'' (\<lambda>_. None)) = Inl Exception"
proof -
  let ?tree = "Elem ''testsuites'' [] [Elem ''testsuite'' [(''name'', ''all'')] [Elem ''testcase'' [] [Elem ''failure'' [] []]]]"
  let ?make = "\<lambda>(args :: string list) (log :: string) fs. Some (fs(''./pic/coverage.dat'' \<mapsto> Data ''c'', ''./pic/test_reset.xml'' \<mapsto> Results ?tree))"
  have "\<exists>ts\<in>set (iter_tag ''testsuite'' ?tree). failing ts" by (simp add: failing_def)
  with verify_block_verdict [where make = ?make and b = "''pic''" and t = "''test_reset''" and c = "''all''" and fs = "\<lambda>_. None" and
      dat = "Data ''c''" and log = "Data []" and tree = ?tree]
  show ?thesis by (simp add: path_join_def blockPath_def)
qed

section \<open>The files of all sessions\<close>

text \<open>The files a session keeps, those it may write, and a \<open>make\<close> that writes no others.\<close>

definition kept :: "string \<times> string \<times> string \<Rightarrow> string set" where
  "kept s = (case s of (b, t, c) \<Rightarrow> (\<lambda>f. path_join (path_join blockPath b) f) ` {t @ ''_'' @ c @ ''.log'', ''coverage_'' @ t @ ''_'' @ c @ ''.dat'', t @ ''.xml''})"

definition touched :: "string \<times> string \<times> string \<Rightarrow> string set" where
  "touched s = (case s of (b, t, c) \<Rightarrow> kept s \<union> (\<lambda>f. path_join (path_join blockPath b) f) ` {t @ ''.log'', ''coverage.dat''})"

definition make_local :: "(string list \<Rightarrow> string \<Rightarrow> files \<Rightarrow> files option) \<Rightarrow> bool" where
  "make_local make \<longleftrightarrow> (\<forall>b t c fs fs' p. make (make_args (path_join blockPath b) t c) (path_join (path_join blockPath b) (t @ ''.log'')) fs = Some fs' \<longrightarrow>
     p \<notin> touched (b, t, c) \<longrightarrow> fs' p = fs p)"

lemma rename_file_other: "rename_file a b fs = Inr fs' \<Longrightarrow> p \<notin> {a, b} \<Longrightarrow> fs' p = fs p"
  by (auto simp: rename_file_def split: option.splits if_splits)

lemma verify_block_local:
  assumes "make_local make" "p \<notin> touched (b, t, c)" "c \<noteq> []"
  shows "fst (verify_block make b t c fs) p = fs p"
proof -
  let ?d = "path_join blockPath b"
  have p: "p \<noteq> path_join ?d (t @ ''.log'')" "p \<notin> {path_join ?d ''coverage.dat'', path_join ?d (''coverage_'' @ t @ ''_'' @ c @ ''.dat'')}"
    "p \<notin> {path_join ?d (t @ ''.log''), path_join ?d (t @ ''_'' @ c @ ''.log'')}"
    using assms(2) by (auto simp: touched_def kept_def)
  show ?thesis
  proof (cases "make (make_args ?d t c) (path_join ?d (t @ ''.log'')) (fs(path_join ?d (t @ ''.log'') \<mapsto> Data []))")
    case None
    then show ?thesis using p(1) by (simp add: verify_block_def)
  next
    case (Some fs1)
    then have 1: "fs1 p = fs p" using assms(1,2) p(1) unfolding make_local_def by fastforce
    show ?thesis
      using Some assms(3) 1 rename_file_other [OF _ p(2), of fs1] rename_file_other [OF _ p(3)]
      by (auto simp: verify_block_def Let_def split: sum.splits)
  qed
qed

text \<open>Blocks and tests have no slash in their names, and no test has another one's log.\<close>

definition session_ok :: "string \<times> string \<times> string \<Rightarrow> bool" where
  "session_ok s \<longleftrightarrow> (case s of (b, t, c) \<Rightarrow> CHR ''/'' \<notin> set b \<and> CHR ''/'' \<notin> set t \<and> take 5 t = ''test_'' \<and> drop (length t - 4) t \<noteq> ''_all'' \<and> c = ''all'')"

lemma nox_sessions_ok: "list_all session_ok nox_sessions" "distinct nox_sessions"
  by code_simp+

lemma path_join_inj:
  "CHR ''/'' \<notin> set b \<Longrightarrow> CHR ''/'' \<notin> set b' \<Longrightarrow> path_join (path_join blockPath b) f = path_join (path_join blockPath b') f' \<Longrightarrow> b = b' \<and> f = f'"
  unfolding path_join_def blockPath_def by (auto simp: append_eq_append_conv2 append_eq_Cons_conv Cons_eq_append_conv)

lemma names_apart:
  assumes "take 5 t = ''test_''" "take 5 t' = ''test_''" "drop (length t' - 4) t' \<noteq> ''_all''" "t \<noteq> t'"
  shows "{t @ ''_all.log'', ''coverage_'' @ t @ ''_all.dat'', t @ ''.xml''} \<inter>
    {t' @ ''_all.log'', ''coverage_'' @ t' @ ''_all.dat'', t' @ ''.xml'', t' @ ''.log'', ''coverage.dat''} = {}"
proof -
  have c: "t @ u \<noteq> ''coverage_'' @ w" "t' @ u \<noteq> ''coverage_'' @ w" "t @ u \<noteq> ''coverage.dat''" for u w
    using assms(1,2) by (cases t; cases t'; auto)+
  have "t @ ''_all.log'' \<noteq> t' @ ''.log''"
  proof
    assume "t @ ''_all.log'' = t' @ ''.log''"
    then have "(t @ ''_all'') @ ''.log'' = t' @ ''.log''" by simp
    then have "t' = t @ ''_all''" by (simp only: append_same_eq)
    with assms(3) show False by simp
  qed
  moreover have "t @ ''_all.log'' \<noteq> t' @ ''.xml''" "t @ ''.xml'' \<noteq> t' @ ''_all.log''" "t @ ''.xml'' \<noteq> t' @ ''.log''"
    by (auto dest: arg_cong [of _ _ last])
  ultimately show ?thesis using assms(4) c c(2) [symmetric] by auto
qed

lemma kept_apart:
  assumes "session_ok s" "session_ok s'" "s \<noteq> s'"
  shows "kept s \<inter> touched s' = {}"
proof -
  obtain b t b' t' where s: "s = (b, t, ''all'')" "s' = (b', t', ''all'')" using assms(1,2) by (cases s; cases s') (auto simp: session_ok_def)
  have names: "kept s = (\<lambda>f. path_join (path_join blockPath b) f) ` {t @ ''_all.log'', ''coverage_'' @ t @ ''_all.dat'', t @ ''.xml''}"
    "touched s' = (\<lambda>f. path_join (path_join blockPath b') f) ` {t' @ ''_all.log'', ''coverage_'' @ t' @ ''_all.dat'', t' @ ''.xml'', t' @ ''.log'', ''coverage.dat''}"
    by (auto simp: s kept_def touched_def)
  show ?thesis
  proof (cases "b = b'")
    case True
    with assms names_apart [of t t'] show ?thesis unfolding names by (auto simp: s session_ok_def path_join_def)
  next
    case False
    have "CHR ''/'' \<notin> set b" "CHR ''/'' \<notin> set b'" using assms(1,2) by (simp_all add: s session_ok_def)
    with False have "path_join (path_join blockPath b) f \<noteq> path_join (path_join blockPath b') f'" for f f' using path_join_inj by blast
    then show ?thesis unfolding names by blast
  qed
qed



end
