(* ===== verification/Axi_Wrap.thy ===== *)
theory Axi_Wrap
  imports Py_Regex Dec_Ib
begin

text \<open>
  \<open>scripts/axi_interconnect_wrap.py\<close> of the packet buffering project: the generator of a wrapper around the AXI interconnect, with the ports of every manager and
  subordinate as signals of their own. The text is a template of jinja2, which is not part of the repository. A template is a list of nodes, and its rendering is a
  parameter with the documented behaviour as hypothesis (\<open>jinja_renders\<close>). The nodes are those of the template after the white space next to
  \<open>{%-\<close> and \<open>-%}\<close> and the line break at the end have been removed, as documented.
\<close>

section \<open>Definitions\<close>

subsection \<open>Templates\<close>

datatype var = VarM | VarN | VarName

text \<open>\<open>range(k)\<close> and \<open>range(k-1,-1,-1)\<close> for a variable.\<close>

datatype loop = Up var | Down var

datatype node = Text string | Var var | PortNumber | NotLast string | For loop "node list"

record render_env =
  rv_m :: int
  rv_n :: int
  rv_name :: string
  rv_p :: nat
  rv_last :: bool

definition str_int :: "int \<Rightarrow> string" where
  "str_int i = (if i < 0 then ''-'' @ str_nat (nat (- i)) else str_nat (nat i))"

text \<open>\<open>'%02d' % p\<close>.\<close>

definition pad2 :: "nat \<Rightarrow> string" where
  "pad2 p = (if p < 10 then ''0'' @ str_nat p else str_nat p)"

definition var_text :: "render_env \<Rightarrow> var \<Rightarrow> string" where
  "var_text e v = (case v of VarM \<Rightarrow> str_int (rv_m e) | VarN \<Rightarrow> str_int (rv_n e) | VarName \<Rightarrow> rv_name e)"

definition bound :: "render_env \<Rightarrow> var \<Rightarrow> nat" where
  "bound e v = (case v of VarM \<Rightarrow> nat (rv_m e) | VarN \<Rightarrow> nat (rv_n e) | VarName \<Rightarrow> 0)"

definition loop_range :: "render_env \<Rightarrow> loop \<Rightarrow> nat list" where
  "loop_range e l = (case l of Up v \<Rightarrow> [0..<bound e v] | Down v \<Rightarrow> rev [0..<bound e v])"

definition jinja_renders :: "(render_env \<Rightarrow> node list \<Rightarrow> string) \<Rightarrow> bool" where
  "jinja_renders render \<longleftrightarrow> (\<forall>e s v l body ts.
     render e [] = [] \<and>
     render e (Text s # ts) = s @ render e ts \<and>
     render e (Var v # ts) = var_text e v @ render e ts \<and>
     render e (PortNumber # ts) = pad2 (rv_p e) @ render e ts \<and>
     render e (NotLast s # ts) = (if rv_last e then [] else s) @ render e ts \<and>
     render e (For l body # ts) =
       concat (map (\<lambda>(i, p). render (e\<lparr>rv_p := p, rv_last := (Suc i = length (loop_range e l))\<rparr>) body) (List.enumerate 0 (loop_range e l))) @ render e ts)"

subsection \<open>The template\<close>

definition newline :: string where "newline = [CHR 0x0A]"

definition text_lines :: "string list \<Rightarrow> node list" where
  "text_lines ls = map (\<lambda>l. Text (l @ newline)) ls"

definition licence :: "string list" where
  "licence =
     [''/*'',
      [],
      ''Copyright (c) 2020 Alex Forencich'',
      [],
      ''Permission is hereby granted, free of charge, to any person obtaining a copy'',
      ''of this software and associated documentation files (the '' @ [CHR 0x22] @ ''Software'' @ [CHR 0x22] @ ''), to deal'',
      ''in the Software without restriction, including without limitation the rights'',
      ''to use, copy, modify, merge, publish, distribute, sublicense, and/or sell'',
      ''copies of the Software, and to permit persons to whom the Software is'',
      ''furnished to do so, subject to the following conditions:'',
      [],
      ''The above copyright notice and this permission notice shall be included in'',
      ''all copies or substantial portions of the Software.'',
      [],
      ''THE SOFTWARE IS PROVIDED '' @ [CHR 0x22] @ ''AS IS'' @ [CHR 0x22] @ '', WITHOUT WARRANTY OF ANY KIND, EXPRESS OR'',
      ''IMPLIED, INCLUDING BUT NOT LIMITED TO THE WARRANTIES OF MERCHANTABILITY'',
      ''FITNESS FOR A PARTICULAR PURPOSE AND NONINFRINGEMENT. IN NO EVENT SHALL THE'',
      ''AUTHORS OR COPYRIGHT HOLDERS BE LIABLE FOR ANY CLAIM, DAMAGES OR OTHER'',
      ''LIABILITY, WHETHER IN AN ACTION OF CONTRACT, TORT OR OTHERWISE, ARISING FROM,'',
      ''OUT OF OR IN CONNECTION WITH THE SOFTWARE OR THE USE OR OTHER DEALINGS IN'',
      ''THE SOFTWARE.'',
      [],
      ''*/'',
      [],
      ''// Language: Verilog 2001'',
      [],
      [CHR 0x60] @ ''resetall'',
      [CHR 0x60] @ ''timescale 1ns / 1ps'',
      [CHR 0x60] @ ''default_nettype none'',
      [],
      ''/*'']"

definition head_text :: "node list" where
  "head_text = text_lines licence @
     [Text '' * AXI4 '', Var VarM, Text ''x'', Var VarN, Text ('' interconnect (wrapper)'' @ newline @ '' */'' @ newline @ ''module ''), Var VarName, Text ('' #'' @ newline)]"

definition param_lines :: "string list" where
  "param_lines =
     [''('',
      ''    parameter DATA_WIDTH = 32,'',
      ''    parameter ADDR_WIDTH = 32,'',
      ''    parameter STRB_WIDTH = (DATA_WIDTH/8),'',
      ''    parameter ID_WIDTH = 8,'',
      ''    parameter AWUSER_ENABLE = 0,'',
      ''    parameter AWUSER_WIDTH = 1,'',
      ''    parameter WUSER_ENABLE = 0,'',
      ''    parameter WUSER_WIDTH = 1,'',
      ''    parameter BUSER_ENABLE = 0,'',
      ''    parameter BUSER_WIDTH = 1,'',
      ''    parameter ARUSER_ENABLE = 0,'',
      ''    parameter ARUSER_WIDTH = 1,'',
      ''    parameter RUSER_ENABLE = 0,'',
      ''    parameter RUSER_WIDTH = 1,'',
      ''    parameter FORWARD_ID = 0,'',
      ''    parameter M_REGIONS = 1,'']"

definition port_params :: "node list" where
  "port_params =
     [Text (newline @ ''    parameter M''), PortNumber, Text (''_BASE_ADDR = 0,'' @ newline @ ''    parameter M''), PortNumber,
      Text (''_ADDR_WIDTH = {M_REGIONS{32'' @ [CHR 0x27] @ ''d24}},'' @ newline @ ''    parameter M''), PortNumber, Text ''_CONNECT_READ = '', Var VarM,
      Text ([CHR 0x27] @ ''b''), For (Up VarM) [Text ''1''], Text ('','' @ newline @ ''    parameter M''), PortNumber, Text ''_CONNECT_WRITE = '', Var VarM,
      Text ([CHR 0x27] @ ''b''), For (Up VarM) [Text ''1''], Text ('','' @ newline @ ''    parameter M''), PortNumber, Text (''_SECURE = 1'' @ [CHR 0x27] @ ''b0''), NotLast '','']"

text \<open>The ports of a subordinate and of a manager: the declaration and the signal.\<close>

definition s_ports :: "(string \<times> string) list" where
  "s_ports =
     [(''input  wire [ID_WIDTH-1:0]      '', ''awid''), (''input  wire [ADDR_WIDTH-1:0]    '', ''awaddr''),
      (''input  wire [7:0]               '', ''awlen''), (''input  wire [2:0]               '', ''awsize''),
      (''input  wire [1:0]               '', ''awburst''), (''input  wire                     '', ''awlock''),
      (''input  wire [3:0]               '', ''awcache''), (''input  wire [2:0]               '', ''awprot''),
      (''input  wire [3:0]               '', ''awqos''), (''input  wire [AWUSER_WIDTH-1:0]  '', ''awuser''),
      (''input  wire                     '', ''awvalid''), (''output wire                     '', ''awready''),
      (''input  wire [DATA_WIDTH-1:0]    '', ''wdata''), (''input  wire [STRB_WIDTH-1:0]    '', ''wstrb''),
      (''input  wire                     '', ''wlast''), (''input  wire [WUSER_WIDTH-1:0]   '', ''wuser''),
      (''input  wire                     '', ''wvalid''), (''output wire                     '', ''wready''),
      (''output wire [ID_WIDTH-1:0]      '', ''bid''), (''output wire [1:0]               '', ''bresp''),
      (''output wire [BUSER_WIDTH-1:0]   '', ''buser''), (''output wire                     '', ''bvalid''),
      (''input  wire                     '', ''bready''), (''input  wire [ID_WIDTH-1:0]      '', ''arid''),
      (''input  wire [ADDR_WIDTH-1:0]    '', ''araddr''), (''input  wire [7:0]               '', ''arlen''),
      (''input  wire [2:0]               '', ''arsize''), (''input  wire [1:0]               '', ''arburst''),
      (''input  wire                     '', ''arlock''), (''input  wire [3:0]               '', ''arcache''),
      (''input  wire [2:0]               '', ''arprot''), (''input  wire [3:0]               '', ''arqos''),
      (''input  wire [ARUSER_WIDTH-1:0]  '', ''aruser''), (''input  wire                     '', ''arvalid''),
      (''output wire                     '', ''arready''), (''output wire [ID_WIDTH-1:0]      '', ''rid''),
      (''output wire [DATA_WIDTH-1:0]    '', ''rdata''), (''output wire [1:0]               '', ''rresp''),
      (''output wire                     '', ''rlast''), (''output wire [RUSER_WIDTH-1:0]   '', ''ruser''),
      (''output wire                     '', ''rvalid''), (''input  wire                     '', ''rready'')]"

definition m_ports :: "(string \<times> string) list" where
  "m_ports =
     [(''output wire [ID_WIDTH-1:0]      '', ''awid''), (''output wire [ADDR_WIDTH-1:0]    '', ''awaddr''),
      (''output wire [7:0]               '', ''awlen''), (''output wire [2:0]               '', ''awsize''),
      (''output wire [1:0]               '', ''awburst''), (''output wire                     '', ''awlock''),
      (''output wire [3:0]               '', ''awcache''), (''output wire [2:0]               '', ''awprot''),
      (''output wire [3:0]               '', ''awqos''), (''output wire [3:0]               '', ''awregion''),
      (''output wire [AWUSER_WIDTH-1:0]  '', ''awuser''), (''output wire                     '', ''awvalid''),
      (''input  wire                     '', ''awready''), (''output wire [DATA_WIDTH-1:0]    '', ''wdata''),
      (''output wire [STRB_WIDTH-1:0]    '', ''wstrb''), (''output wire                     '', ''wlast''),
      (''output wire [WUSER_WIDTH-1:0]   '', ''wuser''), (''output wire                     '', ''wvalid''),
      (''input  wire                     '', ''wready''), (''input  wire [ID_WIDTH-1:0]      '', ''bid''),
      (''input  wire [1:0]               '', ''bresp''), (''input  wire [BUSER_WIDTH-1:0]   '', ''buser''),
      (''input  wire                     '', ''bvalid''), (''output wire                     '', ''bready''),
      (''output wire [ID_WIDTH-1:0]      '', ''arid''), (''output wire [ADDR_WIDTH-1:0]    '', ''araddr''),
      (''output wire [7:0]               '', ''arlen''), (''output wire [2:0]               '', ''arsize''),
      (''output wire [1:0]               '', ''arburst''), (''output wire                     '', ''arlock''),
      (''output wire [3:0]               '', ''arcache''), (''output wire [2:0]               '', ''arprot''),
      (''output wire [3:0]               '', ''arqos''), (''output wire [3:0]               '', ''arregion''),
      (''output wire [ARUSER_WIDTH-1:0]  '', ''aruser''), (''output wire                     '', ''arvalid''),
      (''input  wire                     '', ''arready''), (''input  wire [ID_WIDTH-1:0]      '', ''rid''),
      (''input  wire [DATA_WIDTH-1:0]    '', ''rdata''), (''input  wire [1:0]               '', ''rresp''),
      (''input  wire                     '', ''rlast''), (''input  wire [RUSER_WIDTH-1:0]   '', ''ruser''),
      (''input  wire                     '', ''rvalid''), (''output wire                     '', ''rready'')]"

definition port_decl :: "string \<Rightarrow> node \<Rightarrow> string \<times> string \<Rightarrow> node list" where
  "port_decl side comma d = [Text (newline @ ''    '' @ fst d @ side), PortNumber, Text (''_axi_'' @ snd d), comma]"

definition port_section :: "node list" where
  "port_section =
     [Text (newline @ '')'' @ newline @ ''('' @ newline @ ''    input  wire                     clk,'' @ newline @ ''    input  wire                     rst,'' @ newline @ newline @
        ''    /*'' @ newline @ ''     * AXI slave interface'' @ newline @ ''     */''),
      For (Up VarM) (concat (map (port_decl ''s'' (Text '','')) s_ports) @ [Text newline]),
      Text (newline @ ''    /*'' @ newline @ ''     * AXI master interface'' @ newline @ ''     */''),
      For (Up VarN) (concat (map (port_decl ''m'' (Text '','')) (butlast m_ports)) @ port_decl ''m'' (NotLast '','') (last m_ports) @ [Text newline]),
      Text ('');'' @ newline @ newline @ ''localparam S_COUNT = ''), Var VarM, Text ('';'' @ newline @ ''localparam M_COUNT = ''), Var VarN, Text ('';'' @ newline)]"

definition inst_lines :: "string list" where
  "inst_lines =
     [[],
      ''// parameter sizing helpers'',
      ''function [ADDR_WIDTH*M_REGIONS-1:0] w_a_r(input [ADDR_WIDTH*M_REGIONS-1:0] val);'',
      ''    w_a_r = val;'',
      ''endfunction'',
      [],
      ''function [32*M_REGIONS-1:0] w_32_r(input [32*M_REGIONS-1:0] val);'',
      ''    w_32_r = val;'',
      ''endfunction'',
      [],
      ''function [S_COUNT-1:0] w_s(input [S_COUNT-1:0] val);'',
      ''    w_s = val;'',
      ''endfunction'',
      [],
      ''function w_1(input val);'',
      ''    w_1 = val;'',
      ''endfunction'',
      [],
      ''axi_interconnect #('',
      ''    .S_COUNT(S_COUNT),'',
      ''    .M_COUNT(M_COUNT),'',
      ''    .DATA_WIDTH(DATA_WIDTH),'',
      ''    .ADDR_WIDTH(ADDR_WIDTH),'',
      ''    .STRB_WIDTH(STRB_WIDTH),'',
      ''    .ID_WIDTH(ID_WIDTH),'',
      ''    .AWUSER_ENABLE(AWUSER_ENABLE),'',
      ''    .AWUSER_WIDTH(AWUSER_WIDTH),'',
      ''    .WUSER_ENABLE(WUSER_ENABLE),'',
      ''    .WUSER_WIDTH(WUSER_WIDTH),'',
      ''    .BUSER_ENABLE(BUSER_ENABLE),'',
      ''    .BUSER_WIDTH(BUSER_WIDTH),'',
      ''    .ARUSER_ENABLE(ARUSER_ENABLE),'',
      ''    .ARUSER_WIDTH(ARUSER_WIDTH),'',
      ''    .RUSER_ENABLE(RUSER_ENABLE),'',
      ''    .RUSER_WIDTH(RUSER_WIDTH),'',
      ''    .FORWARD_ID(FORWARD_ID),'',
      ''    .M_REGIONS(M_REGIONS),'']"

text \<open>The parameters of the instance that depend on the ports: parameter, sizing function and parameter of the port.\<close>

definition port_args :: "(string \<times> string \<times> string) list" where
  "port_args = [(''M_BASE_ADDR'', ''w_a_r'', ''BASE_ADDR''), (''M_ADDR_WIDTH'', ''w_32_r'', ''ADDR_WIDTH''), (''M_CONNECT_READ'', ''w_s'', ''CONNECT_READ''), (''M_CONNECT_WRITE'', ''w_s'', ''CONNECT_WRITE''), (''M_SECURE'', ''w_1'', ''SECURE'')]"

definition port_arg :: "string \<times> string \<times> string \<Rightarrow> node list" where
  "port_arg a = (case a of (q, f, x) \<Rightarrow>
     [Text (''    .'' @ q @ ''({ ''), For (Down VarN) [Text (f @ ''(M''), PortNumber, Text (''_'' @ x @ '')''), NotLast '', ''], Text '' })''])"

text \<open>The connections of the instance.\<close>

definition s_conns :: "string list" where
  "s_conns =
     [''awid'', ''awaddr'', ''awlen'', ''awsize'', ''awburst'', ''awlock'', ''awcache'', ''awprot'', ''awqos'', ''awuser'', ''awvalid'', ''awready'',
      ''wdata'', ''wstrb'', ''wlast'', ''wuser'', ''wvalid'', ''wready'', ''bid'', ''bresp'', ''buser'', ''bvalid'', ''bready'', ''arid'', ''araddr'',
      ''arlen'', ''arsize'', ''arburst'', ''arlock'', ''arcache'', ''arprot'', ''arqos'', ''aruser'', ''arvalid'', ''arready'', ''rid'', ''rdata'',
      ''rresp'', ''rlast'', ''ruser'', ''rvalid'', ''rready'']"

definition m_conns :: "string list" where
  "m_conns =
     [''awid'', ''awaddr'', ''awlen'', ''awsize'', ''awburst'', ''awlock'', ''awcache'', ''awprot'', ''awqos'', ''awregion'', ''awuser'', ''awvalid'',
      ''awready'', ''wdata'', ''wstrb'', ''wlast'', ''wuser'', ''wvalid'', ''wready'', ''bid'', ''bresp'', ''buser'', ''bvalid'', ''bready'', ''arid'',
      ''araddr'', ''arlen'', ''arsize'', ''arburst'', ''arlock'', ''arcache'', ''arprot'', ''arqos'', ''arregion'', ''aruser'', ''arvalid'', ''arready'',
      ''rid'', ''rdata'', ''rresp'', ''rlast'', ''ruser'', ''rvalid'', ''rready'']"

definition connection :: "string \<Rightarrow> var \<Rightarrow> string \<Rightarrow> node list" where
  "connection side v x =
     [Text (''    .'' @ side @ ''_axi_'' @ x @ ''({ ''), For (Down v) [Text side, PortNumber, Text (''_axi_'' @ x), NotLast '', ''], Text '' })'']"

fun joined :: "node list list \<Rightarrow> node list" where
  "joined [] = []"
| "joined [x] = x @ [Text newline]"
| "joined (x # y # xs) = x @ [Text ('','' @ newline)] @ joined (y # xs)"

definition instance_section :: "node list" where
  "instance_section = text_lines inst_lines @ joined (map port_arg port_args) @
     text_lines ['')'', ''axi_interconnect_inst ('', ''    .clk(clk),'', ''    .rst(rst),''] @
     joined (map (connection ''s'' VarM) s_conns @ map (connection ''m'' VarN) m_conns) @
     text_lines ['');'', [], ''endmodule'', [], [CHR 0x60] @ ''resetall'']"

definition wrap_template :: "node list" where
  "wrap_template = head_text @ text_lines (butlast param_lines) @ [Text (last param_lines), For (Up VarN) port_params] @ port_section @ instance_section"

subsection \<open>The generator\<close>

datatype ports_arg = OnePort int | PortList "int list"

definition port_counts :: "ports_arg \<Rightarrow> (int \<times> int) py" where
  "port_counts ports = (case ports of OnePort k \<Rightarrow> Inr (k, k) | PortList [k] \<Rightarrow> Inr (k, k) | PortList [m, n] \<Rightarrow> Inr (m, n) | PortList _ \<Rightarrow> Inl ValueError)"

text \<open>The name of the file that is written, and its text.\<close>

definition generate_wrap :: "(render_env \<Rightarrow> node list \<Rightarrow> string) \<Rightarrow> ports_arg \<Rightarrow> string option \<Rightarrow> string option \<Rightarrow> (string \<times> string) py" where
  "generate_wrap render ports name output = bind_py (port_counts ports) (\<lambda>(m, n).
     let name' = (case name of None \<Rightarrow> ''axi_interconnect_wrap_'' @ str_int m @ ''x'' @ str_int n | Some s \<Rightarrow> s);
         output' = (case output of None \<Rightarrow> name' @ ''.v'' | Some s \<Rightarrow> s)
     in Inr (output', render \<lparr>rv_m = m, rv_n = n, rv_name = name', rv_p = 0, rv_last = False\<rparr> wrap_template))"

section \<open>Rendering\<close>

text \<open>A function that renders as documented.\<close>

fun render0 :: "render_env \<Rightarrow> node list \<Rightarrow> string" where
  "render0 e [] = []"
| "render0 e (Text s # ts) = s @ render0 e ts"
| "render0 e (Var v # ts) = var_text e v @ render0 e ts"
| "render0 e (PortNumber # ts) = pad2 (rv_p e) @ render0 e ts"
| "render0 e (NotLast s # ts) = (if rv_last e then [] else s) @ render0 e ts"
| "render0 e (For l body # ts) =
     concat (map (\<lambda>(i, p). render0 (e\<lparr>rv_p := p, rv_last := (Suc i = length (loop_range e l))\<rparr>) body) (List.enumerate 0 (loop_range e l))) @ render0 e ts"

lemma render0_renders: "jinja_renders render0"
  by (simp add: jinja_renders_def)

lemma renders_simps:
  assumes "jinja_renders render"
  shows "render e [] = []" "render e (Text s # ts) = s @ render e ts" "render e (Var v # ts) = var_text e v @ render e ts"
    "render e (PortNumber # ts) = pad2 (rv_p e) @ render e ts" "render e (NotLast s # ts) = (if rv_last e then [] else s) @ render e ts"
    "render e (For l body # ts) =
       concat (map (\<lambda>(i, p). render (e\<lparr>rv_p := p, rv_last := (Suc i = length (loop_range e l))\<rparr>) body) (List.enumerate 0 (loop_range e l))) @ render e ts"
  using assms unfolding jinja_renders_def by blast+

lemma renders_append:
  assumes "jinja_renders render"
  shows "render e (xs @ ys) = render e xs @ render e ys"
proof (induction xs)
  case (Cons x xs)
  then show ?case by (cases x) (simp_all add: renders_simps [OF assms])
qed (simp add: renders_simps [OF assms])

lemma enumerate_join:
  "i + length xs = n \<Longrightarrow> concat (map (\<lambda>(i, x). f x @ (if Suc i = n then [] else sep)) (List.enumerate i xs)) = join sep (map f xs)"
proof (induction xs arbitrary: i)
  case (Cons x xs)
  then have "concat (map (\<lambda>(i, x). f x @ (if Suc i = n then [] else sep)) (List.enumerate (Suc i) xs)) = join sep (map f xs)" by (intro Cons.IH) simp
  with Cons.prems show ?case by (cases xs) simp_all
qed simp

lemma renders_loop:
  assumes "jinja_renders render"
  shows "render e [For (Down v) [Text a, PortNumber, Text b, NotLast sep]] = join sep (map (\<lambda>p. a @ pad2 p @ b) (rev [0..<bound e v]))"
  using enumerate_join [of 0 "rev [0..<bound e v]" "bound e v" "\<lambda>p. a @ pad2 p @ b" sep]
  by (simp add: renders_simps [OF assms] loop_range_def)

lemma contains_middle: "contains pat (a @ pat @ b)"
proof (induction a)
  case Nil
  have "prefix pat (pat @ b)" by simp
  then show ?case by (cases "pat @ b") auto
qed simp

lemma renders_contains: "jinja_renders render \<Longrightarrow> contains (render e t) (render e (a @ t @ b))"
  by (simp add: renders_append contains_middle)

section \<open>The wrapper\<close>

definition port_name :: "string \<Rightarrow> string \<Rightarrow> nat \<Rightarrow> string" where
  "port_name side x p = side @ pad2 p @ ''_axi_'' @ x"

definition conn_line :: "string \<Rightarrow> nat \<Rightarrow> string \<Rightarrow> string" where
  "conn_line side k x = ''    .'' @ side @ ''_axi_'' @ x @ ''({ '' @ join '', '' (rev (map (port_name side x) [0..<k])) @ '' })''"

lemma connection_line: "jinja_renders render \<Longrightarrow> render e (connection side v x) = conn_line side (bound e v) x"
  using renders_loop [of render e v side "''_axi_'' @ x" "'', ''"]
  by (simp add: connection_def conn_line_def renders_simps port_name_def [abs_def] rev_map)

lemma joined_part: "x \<in> set xs \<Longrightarrow> \<exists>a b. joined xs = a @ x @ b"
proof (induction xs rule: joined.induct)
  case (2 x)
  then show ?case by (auto intro: exI [of _ "[]"])
next
  case (3 y z xs)
  show ?case
  proof (cases "x = y")
    case True
    then show ?thesis by (auto intro: exI [of _ "[]"])
  next
    case False
    with 3 obtain a b where "joined (z # xs) = a @ x @ b" by auto
    then have "joined (y # z # xs) = (y @ [Text ('','' @ newline)] @ a) @ x @ b" by simp
    then show ?thesis by blast
  qed
qed simp

lemma instance_connects:
  assumes "jinja_renders render" "x \<in> set s_conns \<and> side = ''s'' \<and> v = VarM \<or> x \<in> set m_conns \<and> side = ''m'' \<and> v = VarN"
  shows "contains (conn_line side (bound e v) x) (render e wrap_template)"
proof -
  have "connection side v x \<in> set (map (connection ''s'' VarM) s_conns @ map (connection ''m'' VarN) m_conns)" using assms(2) by auto
  from joined_part [OF this] obtain a b where
    "joined (map (connection ''s'' VarM) s_conns @ map (connection ''m'' VarN) m_conns) = a @ connection side v x @ b" by blast
  then obtain a' b' where "wrap_template = a' @ connection side v x @ b'"
    unfolding wrap_template_def instance_section_def by (metis append.assoc)
  with renders_contains [OF assms(1), of e "connection side v x" a' b'] show ?thesis by (simp add: connection_line [OF assms(1)])
qed

text \<open>Every port is declared.\<close>

lemma concat_part: "x \<in> set xs \<Longrightarrow> \<exists>a b. concat (map f xs) = a @ f x @ b"
proof -
  assume "x \<in> set xs"
  then obtain ys zs where "xs = ys @ x # zs" by (meson split_list)
  then have "concat (map f xs) = concat (map f ys) @ f x @ concat (map f zs)" by simp
  then show ?thesis by blast
qed

lemma renders_up:
  assumes "jinja_renders render" "p < bound e v"
  shows "\<exists>l. contains (render (e\<lparr>rv_p := p, rv_last := l\<rparr>) body) (render e (a @ For (Up v) body # b))"
proof -
  let ?f = "\<lambda>(i, p). render (e\<lparr>rv_p := p, rv_last := (Suc i = bound e v)\<rparr>) body"
  have "(p, p) \<in> set (List.enumerate 0 [0..<bound e v])" using assms(2) by (simp add: in_set_enumerate_eq)
  from concat_part [OF this, of ?f] obtain c d where "concat (map ?f (List.enumerate 0 [0..<bound e v])) = c @ ?f (p, p) @ d" by blast
  then have "render e (a @ For (Up v) body # b) = (render e a @ c) @ ?f (p, p) @ (d @ render e b)"
    by (simp add: renders_append [OF assms(1)] renders_simps [OF assms(1)] loop_range_def)
  then show ?thesis using contains_middle [of "?f (p, p)" "render e a @ c" "d @ render e b"] by auto
qed

lemma contains_trans: "contains a b \<Longrightarrow> contains b c \<Longrightarrow> contains a c"
proof -
  have split: "contains u w \<longleftrightarrow> (\<exists>x y. w = x @ u @ y)" for u w
  proof
    show "contains u w \<Longrightarrow> \<exists>x y. w = x @ u @ y"
    proof (induction w)
      case (Cons c w)
      show ?case
      proof (cases "prefix u (c # w)")
        case True
        then show ?thesis by (auto simp: prefix_def intro: exI [of _ "[]"])
      next
        case False
        with Cons obtain x y where "w = x @ u @ y" by auto
        then have "c # w = (c # x) @ u @ y" by simp
        then show ?thesis by blast
      qed
    qed simp
  qed (use contains_middle in auto)
  assume "contains a b" "contains b c"
  then obtain x y x' y' where "b = x @ a @ y" "c = x' @ b @ y'" unfolding split by blast
  then have "c = (x' @ x) @ a @ (y @ y')" by simp
  then show "contains a c" unfolding split by blast
qed

lemma decl_text:
  assumes "jinja_renders render"
  shows "contains (newline @ ''    '' @ d @ port_name side x (rv_p e)) (render e (a @ port_decl side comma (d, x) @ b))"
proof -
  have "render e (a @ port_decl side comma (d, x) @ b) = render e a @ (newline @ ''    '' @ d @ port_name side x (rv_p e)) @ render e (comma # b)"
    by (simp add: renders_append [OF assms] renders_simps [OF assms] port_decl_def port_name_def)
  then show ?thesis by (simp only: contains_middle)
qed


lemma ports_conns: "map snd s_ports = s_conns" "map snd m_ports = m_conns"
  by (simp_all add: s_ports_def m_ports_def s_conns_def m_conns_def)

lemma subordinate_declared:
  assumes "jinja_renders render" "(d, x) \<in> set s_ports" "p < bound e VarM"
  shows "contains (newline @ ''    '' @ d @ port_name ''s'' x p) (render e wrap_template)"
proof -
  let ?body = "concat (map (port_decl ''s'' (Text '','')) s_ports) @ [Text newline]"
  have "For (Up VarM) ?body \<in> set wrap_template"
    unfolding wrap_template_def port_section_def by (simp only: set_append Un_iff list.set insert_iff simp_thms)
  then obtain a b where t: "wrap_template = a @ For (Up VarM) ?body # b" by (meson split_list)
  from renders_up [OF assms(1,3)] obtain l where
    r: "contains (render (e\<lparr>rv_p := p, rv_last := l\<rparr>) ?body) (render e wrap_template)" unfolding t by blast
  from concat_part [OF assms(2), of "port_decl ''s'' (Text '','')"] obtain c f where
    b: "?body = c @ port_decl ''s'' (Text '','') (d, x) @ (f @ [Text newline])" by auto
  from decl_text [OF assms(1), of d "''s''" x "e\<lparr>rv_p := p, rv_last := l\<rparr>" c "Text '',''" "f @ [Text newline]"]
  have "contains (newline @ ''    '' @ d @ port_name ''s'' x p) (render (e\<lparr>rv_p := p, rv_last := l\<rparr>) ?body)" unfolding b by simp
  from this r show ?thesis by (rule contains_trans)
qed

lemma manager_declared:
  assumes "jinja_renders render" "(d, x) \<in> set m_ports" "p < bound e VarN"
  shows "contains (newline @ ''    '' @ d @ port_name ''m'' x p) (render e wrap_template)"
proof -
  let ?body = "concat (map (port_decl ''m'' (Text '','')) (butlast m_ports)) @ port_decl ''m'' (NotLast '','') (last m_ports) @ [Text newline]"
  have "For (Up VarN) ?body \<in> set wrap_template"
    unfolding wrap_template_def port_section_def by (simp only: set_append Un_iff list.set insert_iff simp_thms)
  then obtain a b where t: "wrap_template = a @ For (Up VarN) ?body # b" by (meson split_list)
  from renders_up [OF assms(1,3)] obtain l where
    r: "contains (render (e\<lparr>rv_p := p, rv_last := l\<rparr>) ?body) (render e wrap_template)" unfolding t by blast
  have "m_ports = butlast m_ports @ [last m_ports]" by (simp add: m_ports_def)
  with assms(2) have "(d, x) \<in> set (butlast m_ports) \<or> (d, x) = last m_ports" by (metis Un_iff empty_iff insert_iff list.set set_append)
  then obtain c f comma where b: "?body = c @ port_decl ''m'' comma (d, x) @ f"
  proof
    assume "(d, x) \<in> set (butlast m_ports)"
    from concat_part [OF this, of "port_decl ''m'' (Text '','')"] obtain u w where
      "concat (map (port_decl ''m'' (Text '','')) (butlast m_ports)) = u @ port_decl ''m'' (Text '','') (d, x) @ w" by blast
    then show ?thesis by (intro that [of u "Text '',''" "w @ port_decl ''m'' (NotLast '','') (last m_ports) @ [Text newline]"]) simp
  next
    assume "(d, x) = last m_ports"
    then show ?thesis by (intro that [of "concat (map (port_decl ''m'' (Text '','')) (butlast m_ports))" "NotLast '',''" "[Text newline]"]) simp
  qed
  from decl_text [OF assms(1), of d "''m''" x "e\<lparr>rv_p := p, rv_last := l\<rparr>" c comma f]
  have "contains (newline @ ''    '' @ d @ port_name ''m'' x p) (render (e\<lparr>rv_p := p, rv_last := l\<rparr>) ?body)" unfolding b by simp
  from this r show ?thesis by (rule contains_trans)
qed

text \<open>The members of a concatenation, separated by commas, in the order in which they are written.\<close>

definition concat_names :: "string \<Rightarrow> string list" where
  "concat_names l = map (dropWhile (\<lambda>c. c = CHR '' '')) (split_on CHR '','' l)"

definition plain_name :: "string \<Rightarrow> bool" where
  "plain_name s \<longleftrightarrow> CHR '','' \<notin> set s \<and> CHR '' '' \<notin> set s"

lemma dropWhile_plain: "plain_name s \<Longrightarrow> dropWhile (\<lambda>c. c = CHR '' '') s = s"
  by (cases s) (auto simp: plain_name_def)

lemma concat_names_blank: "concat_names (CHR '' '' # s) = concat_names s"
  using split_on_nonempty [of "CHR '',''" s] by (cases "split_on CHR '','' s") (simp_all add: concat_names_def)

lemma concat_names_join: "xs \<noteq> [] \<Longrightarrow> list_all plain_name xs \<Longrightarrow> concat_names (join '', '' xs) = xs"
proof (induction "'', ''" xs rule: join.induct)
  case (2 x)
  then show ?case by (simp add: concat_names_def plain_name_def split_on_no_sep dropWhile_plain)
next
  case (3 x y xs)
  then have x: "CHR '','' \<notin> set x" "plain_name x" by (simp_all add: plain_name_def)
  have "concat_names (join '', '' (x # y # xs)) = x # concat_names (CHR '' '' # join '', '' (y # xs))"
    using x split_on_append [of "CHR '',''" x "CHR '' '' # join '', '' (y # xs)"] by (simp add: concat_names_def dropWhile_plain)
  then show ?case using 3 by (simp only: concat_names_blank) simp
qed simp

lemma pad2_digits: "list_all is_digit (pad2 p)"
  using str_nat_digits [of p] by (simp add: pad2_def is_digit_def)

lemma port_name_plain: "plain_name side \<Longrightarrow> plain_name x \<Longrightarrow> plain_name (port_name side x p)"
  using pad2_digits [of p] by (auto simp: plain_name_def port_name_def list_all_iff is_digit_def)

lemma conns_plain: "list_all plain_name s_conns" "list_all plain_name m_conns"
  by (simp_all add: s_conns_def m_conns_def plain_name_def)

lemma conn_line_names:
  assumes "0 < k" "plain_name side" "plain_name x"
  shows "concat_names (join '', '' (rev (map (port_name side x) [0..<k]))) = rev (map (port_name side x) [0..<k])"
  using assms by (intro concat_names_join) (auto simp: list_all_iff port_name_plain)

lemma port_name_inject:
  assumes "port_name side x p = port_name side y q"
  shows "x = y \<and> p = q"
proof -
  have digits: "takeWhile is_digit (pad2 k @ ''_axi_'' @ z) = pad2 k" for k z
    using pad2_digits [of k] by (simp add: takeWhile_append2 list_all_iff is_digit_def)
  have eq: "pad2 p @ ''_axi_'' @ x = pad2 q @ ''_axi_'' @ y" using assms by (simp add: port_name_def)
  then have pq: "pad2 p = pad2 q" using digits [of p x] digits [of q y] by simp
  have "int_str (pad2 k) = k" for k using int_str_str_nat [of k] by (simp add: pad2_def int_str_def)
  with pq have "p = q" by metis
  with eq show ?thesis by simp
qed

lemma generate_text:
  "generate_wrap render ports name output = Inr (f, text) \<Longrightarrow> port_counts ports = Inr (m, n) \<Longrightarrow>
   \<exists>s. text = render \<lparr>rv_m = m, rv_n = n, rv_name = s, rv_p = 0, rv_last = False\<rparr> wrap_template"
  by (auto simp: generate_wrap_def Let_def)

section \<open>Properties\<close>



end
