(* ===== verification/Uvm_Env.thy ===== *)
theory Uvm_Env
  imports Py_Prelude Complex_Main
begin

text \<open>
  How a test bench is put together: the constructors, build phases and connect phases of its components, as the statements in which the benches write them. A
  component is known by its full name, the list of names from its own up to the test, which is the empty list; attributes of Python objects that hold components are entries
  of a log, and so are the values put into \<open>ConfigDB\<close>, the values read from it and the connections made.

  \<open>ConfigDB\<close> and the order of the phases belong to pyuvm and are parameters: a lookup returns some visible value, and none only when there is none
  (\<open>config_db\<close>); the build phase of a component runs after that of its parent (\<open>top_down\<close>), and otherwise in any order; the connect phases run in any order.
\<close>

section \<open>Definitions\<close>

subsection \<open>Components\<close>

type_synonym path = "string list"

text \<open>A configuration value: a number, a component or another object, known by how it was made.\<close>

datatype val = VInt int | VReal real | VComp path | VObj string

datatype scope = Everywhere | Only path

text \<open>The base class of a component.\<close>

datatype base = uvm_test | uvm_env | uvm_agent | uvm_component | uvm_monitor | uvm_scoreboard | uvm_driver | uvm_sequencer | uvm_analysis_port | uvm_get_port | uvm_tlm_analysis_fifo | uvm_export

text \<open>
  The statements. An attribute path \<open>[a, b]\<close> is \<open>self.a.b\<close>.

  \<^item> \<open>SetAll k v\<close>: \<open>ConfigDB().set(None, "*", k, v)\<close>; \<open>SetAllTo k as\<close> with the component at \<open>as\<close> as value.
  \<^item> \<open>SetAt as k v\<close>: \<open>ConfigDB().set(self.as, "", k, v)\<close>; \<open>SetFrom\<close> with a value computed from values read for components.
  \<^item> \<open>GetAll k\<close>: \<open>ConfigDB().get(None, "", k)\<close>; \<open>GetSelf k\<close>: \<open>ConfigDB().get(self, "", k)\<close>.
  \<^item> \<open>New a n kw c\<close>: \<open>self.a = c("n", self, kw)\<close>, where an argument that is a component becomes an attribute of the new one.
  \<^item> \<open>Alias a as\<close>: \<open>self.a = self.as\<close>; \<open>Connect as bs\<close>: \<open>self.as.connect(self.bs)\<close>.

  A class has a base class and the statements of its constructor, build phase and connect phase.
\<close>

datatype stmt =
    SetAll string val
  | SetAllTo string "string list"
  | SetAt "string list" string val
  | SetFrom "string list" string "(string list \<times> string) list" "val list \<Rightarrow> val py"
  | GetAll string
  | GetSelf string
  | New string string "(string \<times> string list) list" cls
  | Alias string "string list"
  | Connect "string list" "string list"
and cls = Cls base "stmt list" "stmt list" "stmt list"

subsection \<open>Running statements\<close>

datatype event = Config scope string val | Attr path string path | Comp path base | Read path string val | Link path path

type_synonym log = "event list"

definition configs :: "log \<Rightarrow> (scope \<times> string \<times> val) list" where
  "configs l = concat (map (\<lambda>e. case e of Config s k v \<Rightarrow> [(s, k, v)] | _ \<Rightarrow> []) l)"

definition sees :: "path option \<Rightarrow> scope \<Rightarrow> bool" where
  "sees ctx s = (case s of Everywhere \<Rightarrow> True | Only p \<Rightarrow> ctx = Some p)"

type_synonym config_get = "(scope \<times> string \<times> val) list \<Rightarrow> path option \<Rightarrow> string \<Rightarrow> val option"

definition config_db :: "config_get \<Rightarrow> bool" where
  "config_db get \<longleftrightarrow> (\<forall>cs ctx k. case get cs ctx k of
       None \<Rightarrow> \<forall>(s, k', v)\<in>set cs. \<not> (k' = k \<and> sees ctx s)
     | Some v \<Rightarrow> \<exists>s. (s, k, v) \<in> set cs \<and> sees ctx s)"

text \<open>An attribute has the value that was assigned last.\<close>

fun attr_from :: "path option \<Rightarrow> log \<Rightarrow> path \<Rightarrow> string \<Rightarrow> path option" where
  "attr_from r [] p a = r"
| "attr_from r (e # l) p a = attr_from (case e of Attr p' a' q \<Rightarrow> if a' = a then if p' = p then Some q else r else r | _ \<Rightarrow> r) l p a"

definition attr_of :: "log \<Rightarrow> path \<Rightarrow> string \<Rightarrow> path option" where
  "attr_of l p a = attr_from None l p a"

fun resolve :: "log \<Rightarrow> path \<Rightarrow> string list \<Rightarrow> path py" where
  "resolve l p [] = Inr p"
| "resolve l p (a # as) = (case attr_of l p a of None \<Rightarrow> Inl AttributeError | Some q \<Rightarrow> resolve l q as)"

definition config_read :: "config_get \<Rightarrow> log \<Rightarrow> path option \<Rightarrow> string \<Rightarrow> val py" where
  "config_read get l ctx k = (case get (configs l) ctx k of None \<Rightarrow> Inl ConfigItemNotFound | Some v \<Rightarrow> Inr v)"

text \<open>The events of a statement of the component \<open>p\<close>, and of a list of statements, after the log \<open>l\<close>.\<close>

fun exec :: "config_get \<Rightarrow> path \<Rightarrow> stmt \<Rightarrow> log \<Rightarrow> log py"
and exec_all :: "config_get \<Rightarrow> path \<Rightarrow> stmt list \<Rightarrow> log \<Rightarrow> log py" where
  "exec get p (SetAll k v) l = Inr [Config Everywhere k v]"
| "exec get p (SetAllTo k as) l = bind_py (resolve l p as) (\<lambda>q. Inr [Config Everywhere k (VComp q)])"
| "exec get p (SetAt as k v) l = bind_py (resolve l p as) (\<lambda>q. Inr [Config (Only q) k v])"
| "exec get p (SetFrom as k ds f) l =
     bind_py (map_py (\<lambda>(bs, d). bind_py (resolve l p bs) (\<lambda>q. config_read get l (Some q) d)) ds) (\<lambda>vs.
     bind_py (f vs) (\<lambda>v. bind_py (resolve l p as) (\<lambda>q. Inr [Config (Only q) k v])))"
| "exec get p (GetAll k) l = bind_py (config_read get l None k) (\<lambda>v. Inr [Read p k v])"
| "exec get p (GetSelf k) l = bind_py (config_read get l (Some p) k) (\<lambda>v. Inr [Read p k v])"
| "exec get p (New a n kw (Cls b ini bld con)) l =
     bind_py (map_py (\<lambda>(x, as). bind_py (resolve l p as) (\<lambda>q. Inr (Attr (n # p) x q))) kw) (\<lambda>args.
     bind_py (exec_all get (n # p) ini (l @ Comp (n # p) b # args)) (\<lambda>es. Inr (Comp (n # p) b # args @ es @ [Attr p a (n # p)])))"
| "exec get p (Alias a as) l = bind_py (resolve l p as) (\<lambda>q. Inr [Attr p a q])"
| "exec get p (Connect as bs) l = bind_py (resolve l p as) (\<lambda>q. bind_py (resolve l p bs) (\<lambda>r. Inr [Link q r]))"
| "exec_all get p [] l = Inr []"
| "exec_all get p (s # ss) l = bind_py (exec get p s l) (\<lambda>es. bind_py (exec_all get p ss (l @ es)) (\<lambda>fs. Inr (es @ fs)))"

subsection \<open>Phases\<close>

text \<open>The components that statements create, those created by constructors included.\<close>

fun created :: "path \<Rightarrow> stmt \<Rightarrow> (path \<times> cls) list"
and created_all :: "path \<Rightarrow> stmt list \<Rightarrow> (path \<times> cls) list" where
  "created p (New a n kw (Cls b ini bld con)) = (n # p, Cls b ini bld con) # created_all (n # p) ini"
| "created p _ = []"
| "created_all p [] = []"
| "created_all p (s # ss) = created p s @ created_all p ss"

text \<open>A component with everything below it, parents first.\<close>

fun tree :: "path \<Rightarrow> cls \<Rightarrow> (path \<times> cls) list"
and tree_stmt :: "path \<Rightarrow> stmt \<Rightarrow> (path \<times> cls) list"
and tree_all :: "path \<Rightarrow> stmt list \<Rightarrow> (path \<times> cls) list" where
  "tree p (Cls b ini bld con) = (p, Cls b ini bld con) # tree_all p ini @ tree_all p bld"
| "tree_stmt p (New a n kw c) = tree (n # p) c"
| "tree_stmt p _ = []"
| "tree_all p [] = []"
| "tree_all p (s # ss) = tree_stmt p s @ tree_all p ss"

definition build_phase :: "config_get \<Rightarrow> path \<times> cls \<Rightarrow> log \<Rightarrow> log py" where
  "build_phase get x l = (case x of (p, Cls b ini bld con) \<Rightarrow> bind_py (exec_all get p bld l) (\<lambda>es. Inr (l @ es)))"

definition connect_phase :: "config_get \<Rightarrow> path \<times> cls \<Rightarrow> log \<Rightarrow> log py" where
  "connect_phase get x l = (case x of (p, Cls b ini bld con) \<Rightarrow> bind_py (exec_all get p con l) (\<lambda>es. Inr (l @ es)))"

text \<open>
  The components in the order of their build phases: each component of the tree once, and each after the one that creates it.
\<close>

definition creates :: "path \<times> cls \<Rightarrow> path \<times> cls \<Rightarrow> bool" where
  "creates x y = (case x of (p, Cls b ini bld con) \<Rightarrow> y \<in> set (created_all p bld))"

definition top_down :: "path \<times> cls \<Rightarrow> (path \<times> cls) list \<Rightarrow> bool" where
  "top_down t xs \<longleftrightarrow> distinct (map fst xs) \<and> set xs = set (tree (fst t) (snd t)) \<and>
     (\<forall>i<length xs. xs ! i = t \<or> (\<exists>j<i. creates (xs ! j) (xs ! i)))"

definition elaborate :: "config_get \<Rightarrow> (path \<times> cls) list \<Rightarrow> (path \<times> cls) list \<Rightarrow> log py" where
  "elaborate get bs cs = bind_py (fold_py (build_phase get) bs []) (fold_py (connect_phase get) cs)"

section \<open>One order stands for all\<close>

text \<open>A log in which no attribute and no key of the configuration is set twice.\<close>

definition attr_keys :: "log \<Rightarrow> (path \<times> string) list" where
  "attr_keys l = concat (map (\<lambda>e. case e of Attr p a q \<Rightarrow> [(p, a)] | _ \<Rightarrow> []) l)"

definition set_once :: "log \<Rightarrow> bool" where
  "set_once l \<longleftrightarrow> distinct (attr_keys l) \<and> distinct (map (\<lambda>(s, k, v). k) (configs l))"

lemma set_once_append: "set_once (l @ l') \<Longrightarrow> set_once l"
  by (auto simp: set_once_def attr_keys_def configs_def)

lemma in_configs: "(s, k, v) \<in> set (configs l) \<longleftrightarrow> Config s k v \<in> set l"
  by (induction l) (auto simp: configs_def split: event.splits)

lemma in_attr_keys: "(p, a) \<in> set (attr_keys l) \<longleftrightarrow> (\<exists>q. Attr p a q \<in> set l)"
  by (induction l) (auto simp: attr_keys_def split: event.splits)

lemma attr_once:
  assumes "distinct (attr_keys l)" "Attr p a q \<in> set l" "Attr p a r \<in> set l"
  shows "q = r"
  using assms
proof (induction l)
  case (Cons e l)
  have k: "attr_keys (e # l) = (case e of Attr p a q \<Rightarrow> [(p, a)] | _ \<Rightarrow> []) @ attr_keys l" by (simp add: attr_keys_def)
  show ?case using Cons in_attr_keys [of p a l] unfolding k by (auto split: event.splits)
qed simp

lemma config_once:
  assumes "distinct (map (\<lambda>(s, k, v). k) (configs l))" "Config s k v \<in> set l" "Config s' k v' \<in> set l"
  shows "v = v'"
proof -
  have "(s, k, v) = (s', k, v')"
    using assms(2,3) unfolding in_configs [symmetric] by (intro inj_onD [OF distinct_map [THEN iffD1, OF assms(1), THEN conjunct2]]) auto
  then show ?thesis by simp
qed

lemma attr_from_in: "attr_from r l p a = Some q \<Longrightarrow> r = Some q \<or> Attr p a q \<in> set l"
proof (induction l arbitrary: r)
  case (Cons e l)
  show ?case
  proof (cases e)
    case (Attr p' a' q')
    with Cons.IH [of "if a' = a \<and> p' = p then Some q' else r"] Cons.prems show ?thesis by (auto split: if_splits)
  qed (use Cons in auto)
qed simp

lemma attr_of_in: "attr_of l p a = Some q \<Longrightarrow> Attr p a q \<in> set l"
  using attr_from_in [of None l p a q] by (simp add: attr_of_def)

lemma attr_from_ex: "r \<noteq> None \<or> Attr p a q \<in> set l \<Longrightarrow> \<exists>q. attr_from r l p a = Some q"
  by (induction l arbitrary: r) (auto split: event.splits)

lemma attr_of_ex: "Attr p a q \<in> set l \<Longrightarrow> \<exists>r. attr_of l p a = Some r"
  using attr_from_ex [of None p a q l] by (simp add: attr_of_def)

definition same_log :: "log \<Rightarrow> log \<Rightarrow> log \<Rightarrow> bool" where
  "same_log A L L' \<longleftrightarrow> set_once A \<and> set L \<subseteq> set L' \<and> set L' \<subseteq> set A"

lemma attr_same:
  assumes "same_log A L L'" "attr_of L p a = Some q"
  shows "attr_of L' p a = Some q"
proof -
  have "Attr p a q \<in> set L'" using assms attr_of_in by (fastforce simp: same_log_def)
  moreover from this obtain r where r: "attr_of L' p a = Some r" using attr_of_ex by blast
  ultimately show ?thesis using attr_of_in [OF r] assms(1) attr_once [of A p a q r] unfolding same_log_def set_once_def by blast
qed

lemma resolve_same: "same_log A L L' \<Longrightarrow> resolve L p as = Inr q \<Longrightarrow> resolve L' p as = Inr q"
  by (induction as arbitrary: p) (auto split: option.splits dest: attr_same)

lemma config_dbD:
  assumes "config_db get"
  shows "get (configs l) ctx k = None \<Longrightarrow> Config s k v \<in> set l \<Longrightarrow> \<not> sees ctx s"
    and "get (configs l) ctx k = Some v \<Longrightarrow> \<exists>s. Config s k v \<in> set l \<and> sees ctx s"
proof -
  have "case get (configs l) ctx k of None \<Rightarrow> \<forall>(s, k', v)\<in>set (configs l). \<not> (k' = k \<and> sees ctx s)
      | Some v \<Rightarrow> \<exists>s. (s, k, v) \<in> set (configs l) \<and> sees ctx s" using assms unfolding config_db_def by blast
  then show "get (configs l) ctx k = None \<Longrightarrow> Config s k v \<in> set l \<Longrightarrow> \<not> sees ctx s"
    "get (configs l) ctx k = Some v \<Longrightarrow> \<exists>s. Config s k v \<in> set l \<and> sees ctx s" unfolding in_configs [symmetric] by fastforce+
qed

lemma read_same:
  assumes "same_log A L L'" "config_db get" "config_db get'" "config_read get L ctx k = Inr v"
  shows "config_read get' L' ctx k = Inr v"
proof -
  have "get (configs L) ctx k = Some v" using assms(4) by (simp add: config_read_def split: option.splits)
  then obtain s where s: "Config s k v \<in> set L'" "sees ctx s" using config_dbD(2) [OF assms(2)] assms(1) by (force simp: same_log_def)
  then obtain v' where v': "get' (configs L') ctx k = Some v'" using config_dbD(1) [OF assms(3)] by (cases "get' (configs L') ctx k") auto
  then obtain s' where "Config s' k v' \<in> set L'" using config_dbD(2) [OF assms(3)] by blast
  then have "v' = v" using s(1) assms(1) config_once [of A s' k v' s v] unfolding same_log_def set_once_def by blast
  with v' show ?thesis by (simp add: config_read_def)
qed

lemma exec_same:
  assumes once: "set_once A" and db': "config_db get'"
  shows "config_db get \<Longrightarrow> exec get p s L = Inr es \<Longrightarrow> set L \<subseteq> set L' \<Longrightarrow> set L' \<subseteq> set A \<Longrightarrow> set es \<subseteq> set A \<Longrightarrow> exec get' p s L' = Inr es"
    and "config_db get \<Longrightarrow> exec_all get p ss L = Inr es \<Longrightarrow> set L \<subseteq> set L' \<Longrightarrow> set L' \<subseteq> set A \<Longrightarrow> set es \<subseteq> set A \<Longrightarrow> exec_all get' p ss L' = Inr es"
proof (induction get p s L and get p ss L arbitrary: L' es and L' es rule: exec_exec_all.induct)
  case (2 get p k as l)
  then have "same_log A l L'" using once by (simp add: same_log_def)
  with 2 show ?case by (auto simp: bind_py_eq_Inr dest: resolve_same)
next
  case (3 get p as k v l)
  then have "same_log A l L'" using once by (simp add: same_log_def)
  with 3 show ?case by (auto simp: bind_py_eq_Inr dest: resolve_same)
next
  case (4 get p as k ds f l)
  then have s: "same_log A l L'" using once by (simp add: same_log_def)
  from 4(2) obtain vs v q where m: "map_py (\<lambda>(bs, d). bind_py (resolve l p bs) (\<lambda>q. config_read get l (Some q) d)) ds = Inr vs"
    and v: "f vs = Inr v" "resolve l p as = Inr q" "es = [Config (Only q) k v]" by (auto simp: bind_py_eq_Inr)
  from m have "map_py (\<lambda>(bs, d). bind_py (resolve L' p bs) (\<lambda>q. config_read get' L' (Some q) d)) ds = Inr vs"
    by (rule map_py_same) (use resolve_same [OF s] read_same [OF s 4(1) db'] in \<open>fastforce simp: bind_py_eq_Inr\<close>)
  with v resolve_same [OF s] show ?case by simp
next
  case (5 get p k l)
  then have "same_log A l L'" using once by (simp add: same_log_def)
  with 5 db' show ?case by (auto simp: bind_py_eq_Inr dest: read_same)
next
  case (6 get p k l)
  then have "same_log A l L'" using once by (simp add: same_log_def)
  with 6 db' show ?case by (auto simp: bind_py_eq_Inr dest: read_same)
next
  case (7 get p a n kw b ini bld con l)
  then have s: "same_log A l L'" using once by (simp add: same_log_def)
  from 7(3) obtain args fs where a: "map_py (\<lambda>(x, as). bind_py (resolve l p as) (\<lambda>q. Inr (Attr (n # p) x q))) kw = Inr args"
    and f: "exec_all get (n # p) ini (l @ Comp (n # p) b # args) = Inr fs" and es: "es = Comp (n # p) b # args @ fs @ [Attr p a (n # p)]"
    by (auto simp: bind_py_eq_Inr)
  from a have a': "map_py (\<lambda>(x, as). bind_py (resolve L' p as) (\<lambda>q. Inr (Attr (n # p) x q))) kw = Inr args"
    by (rule map_py_same) (use resolve_same [OF s] in \<open>fastforce simp: bind_py_eq_Inr\<close>)
  have "exec_all get' (n # p) ini (L' @ Comp (n # p) b # args) = Inr fs"
    using 7(4-6) es by (intro 7(1) [OF 7(2) f]) auto
  with a' show ?case by (simp add: es)
next
  case (8 get p a as l)
  then have "same_log A l L'" using once by (simp add: same_log_def)
  with 8 show ?case by (auto simp: bind_py_eq_Inr dest: resolve_same)
next
  case (9 get p as bs l)
  then have "same_log A l L'" using once by (simp add: same_log_def)
  with 9 show ?case by (auto simp: bind_py_eq_Inr dest: resolve_same)
next
  case (11 get p s ss l)
  from 11(4) obtain gs fs where g: "exec get p s l = Inr gs" "exec_all get p ss (l @ gs) = Inr fs" "es = gs @ fs" by (auto simp: bind_py_eq_Inr)
  from 11(1) [OF 11(3) g(1) 11(5,6)] 11(7) g(3) have 1: "exec get' p s L' = Inr gs" by simp
  have "exec_all get' p ss (L' @ gs) = Inr fs"
    using 11(5-7) g(3) by (intro 11(2) [OF 11(3) g(2)]) auto
  with 1 g(3) show ?case by simp
qed simp_all

text \<open>
  A run to compare with: the components in the order of the tree, each with the events of its ancestors only. It gives the events of all build phases, and then the
  connect phases give the connections.
\<close>

fun ref_get :: "config_get" where
  "ref_get [] ctx k = None"
| "ref_get ((s, k', v) # cs) ctx k = (if k' = k \<and> sees ctx s then Some v else ref_get cs ctx k)"

fun ref_build :: "log \<Rightarrow> path \<Rightarrow> cls \<Rightarrow> log py"
and ref_new :: "log \<Rightarrow> path \<Rightarrow> stmt \<Rightarrow> log py"
and ref_news :: "log \<Rightarrow> path \<Rightarrow> stmt list \<Rightarrow> log py" where
  "ref_build l p (Cls b ini bld con) = bind_py (exec_all ref_get p bld l) (\<lambda>es. bind_py (ref_news (l @ es) p bld) (\<lambda>fs. Inr (es @ fs)))"
| "ref_new l p (New a n kw (Cls b ini bld con)) =
     bind_py (ref_build l (n # p) (Cls b ini bld con)) (\<lambda>es. bind_py (ref_news l (n # p) ini) (\<lambda>fs. Inr (es @ fs)))"
| "ref_new l p _ = Inr []"
| "ref_news l p [] = Inr []"
| "ref_news l p (s # ss) = bind_py (ref_new l p s) (\<lambda>es. bind_py (ref_news l p ss) (\<lambda>fs. Inr (es @ fs)))"

text \<open>For the connect phase of a component, the attributes that it names are enough.\<close>

fun named :: "stmt list \<Rightarrow> string list" where
  "named [] = []"
| "named (Connect as bs # ss) = as @ bs @ named ss"
| "named (s # ss) = named ss"

definition attr_events :: "string list \<Rightarrow> log \<Rightarrow> log" where
  "attr_events xs l = filter (\<lambda>e. case e of Attr q a r \<Rightarrow> List.member xs a | _ \<Rightarrow> False) l"

definition ref_connect :: "log \<Rightarrow> path \<times> cls \<Rightarrow> log py" where
  "ref_connect l x = (case x of (p, Cls b ini bld con) \<Rightarrow> exec_all ref_get p con (attr_events (remdups (named con)) l))"

definition connecting :: "path \<times> cls \<Rightarrow> bool" where
  "connecting x = (case x of (p, Cls b ini bld con) \<Rightarrow> \<not> List.null con)"

definition ref_links :: "log \<Rightarrow> (path \<times> cls) list \<Rightarrow> log py" where
  "ref_links l xs = bind_py (map_py (ref_connect l) (filter connecting xs)) (\<lambda>ess. Inr (concat ess))"

lemma ref_get_db: "config_db ref_get"
proof -
  have "case ref_get cs ctx k of None \<Rightarrow> \<forall>(s, k', v)\<in>set cs. \<not> (k' = k \<and> sees ctx s) | Some v \<Rightarrow> \<exists>s. (s, k, v) \<in> set cs \<and> sees ctx s" for cs ctx k
    by (induction cs ctx k rule: ref_get.induct) (auto split: option.splits)
  then show ?thesis by (simp add: config_db_def)
qed

text \<open>The build phase of a component after its ancestors' events \<open>l\<close>, with all events in \<open>A\<close>.\<close>

definition built :: "log \<Rightarrow> log \<Rightarrow> path \<times> cls \<Rightarrow> log \<Rightarrow> bool" where
  "built A l x es = (case x of (p, Cls b ini bld con) \<Rightarrow> exec_all ref_get p bld l = Inr es \<and> set l \<subseteq> set A \<and> set es \<subseteq> set A \<and>
     (\<exists>fs. ref_news (l @ es) p bld = Inr fs \<and> set fs \<subseteq> set A))"

lemma ref_build_built:
  "ref_build l p c = Inr es \<Longrightarrow> set l \<subseteq> set A \<Longrightarrow> set es \<subseteq> set A \<Longrightarrow> \<exists>fs. built A l (p, c) fs"
  by (cases c) (auto simp: built_def bind_py_eq_Inr)

lemma ref_news_created:
  "ref_new l p s = Inr es \<Longrightarrow> set l \<subseteq> set A \<Longrightarrow> set es \<subseteq> set A \<Longrightarrow> x \<in> set (created p s) \<Longrightarrow> \<exists>fs. built A l x fs"
  "ref_news l p ss = Inr es \<Longrightarrow> set l \<subseteq> set A \<Longrightarrow> set es \<subseteq> set A \<Longrightarrow> x \<in> set (created_all p ss) \<Longrightarrow> \<exists>fs. built A l x fs"
proof (induction p s and p ss arbitrary: es and es rule: created_created_all.induct)
  case (1 p a n kw b ini bld con)
  from 1(2) obtain fs gs where g: "ref_build l (n # p) (Cls b ini bld con) = Inr fs" "ref_news l (n # p) ini = Inr gs" "es = fs @ gs"
    by (auto simp: bind_py_eq_Inr)
  show ?case
  proof (cases "x = (n # p, Cls b ini bld con)")
    case True
    with ref_build_built [OF g(1) 1(3)] 1(4) g(3) show ?thesis by simp
  next
    case False
    with 1 g show ?thesis by simp
  qed
qed (auto simp: bind_py_eq_Inr)

lemma built_creates:
  assumes "built A l x es" "creates x y"
  shows "\<exists>fs. built A (l @ es) y fs"
proof -
  obtain p b ini bld con where x: "x = (p, Cls b ini bld con)" by (metis cls.exhaust surj_pair)
  from assms obtain fs where "ref_news (l @ es) p bld = Inr fs" "set (l @ es) \<subseteq> set A" "set fs \<subseteq> set A" "y \<in> set (created_all p bld)"
    by (auto simp: x built_def creates_def)
  then show ?thesis by (rule ref_news_created(2))
qed

lemma built_sub: "built A l x es \<Longrightarrow> set l \<subseteq> set A \<and> set es \<subseteq> set A"
  by (auto simp: built_def split: prod.splits cls.splits)

text \<open>The events of a component do not depend on what was done before, as long as its ancestors are built.\<close>

lemma built_same:
  assumes "set_once A" "config_db get" "built A l (p, Cls b ini bld con) es" "set l \<subseteq> set l'" "set l' \<subseteq> set A"
  shows "exec_all get p bld l' = Inr es"
  using assms exec_same(2) [OF assms(1,2) ref_get_db, of p bld l es l'] by (simp add: built_def)

lemma built_unique:
  assumes "set_once A" "built A l x es" "built A l' x fs"
  shows "es = fs"
proof -
  obtain p b ini bld con where x: "x = (p, Cls b ini bld con)" by (metis cls.exhaust surj_pair)
  have sub: "set (l @ l') \<subseteq> set A" using built_sub [OF assms(2)] built_sub [OF assms(3)] by simp
  from built_same [OF assms(1) ref_get_db assms(2) [unfolded x] _ sub] built_same [OF assms(1) ref_get_db assms(3) [unfolded x] _ sub]
  show ?thesis by simp
qed

lemma ref_build_events:
  "ref_build l p c = Inr es \<Longrightarrow> set l \<subseteq> set A \<Longrightarrow> set es \<subseteq> set A \<Longrightarrow> e \<in> set es \<Longrightarrow> \<exists>x l' fs. x \<in> set (tree p c) \<and> built A l' x fs \<and> e \<in> set fs"
  "ref_new l p s = Inr es \<Longrightarrow> set l \<subseteq> set A \<Longrightarrow> set es \<subseteq> set A \<Longrightarrow> e \<in> set es \<Longrightarrow> \<exists>x l' fs. x \<in> set (tree_stmt p s) \<and> built A l' x fs \<and> e \<in> set fs"
  "ref_news l p ss = Inr es \<Longrightarrow> set l \<subseteq> set A \<Longrightarrow> set es \<subseteq> set A \<Longrightarrow> e \<in> set es \<Longrightarrow> \<exists>x l' fs. x \<in> set (tree_all p ss) \<and> built A l' x fs \<and> e \<in> set fs"
proof (induction l p c and l p s and l p ss arbitrary: es and es and es rule: ref_build_ref_new_ref_news.induct)
  case (1 l p b ini bld con)
  from 1(2) obtain fs gs where g: "exec_all ref_get p bld l = Inr fs" "ref_news (l @ fs) p bld = Inr gs" "es = fs @ gs" by (auto simp: bind_py_eq_Inr)
  show ?case
  proof (cases "e \<in> set fs")
    case True
    have "built A l (p, Cls b ini bld con) fs" using g 1(3,4) by (auto simp: built_def)
    with True show ?thesis by auto
  next
    case False
    with 1(5) g(3) have "e \<in> set gs" by simp
    from 1(1) [OF g(2) _ _ this] 1(3,4) g(3) show ?thesis by auto
  qed
next
  case (2 l p a n kw b ini bld con)
  from 2(3) obtain fs gs where g: "ref_build l (n # p) (Cls b ini bld con) = Inr fs" "ref_news l (n # p) ini = Inr gs" "es = fs @ gs"
    by (auto simp: bind_py_eq_Inr)
  with 2 have "(\<exists>x l' fs. x \<in> set (tree (n # p) (Cls b ini bld con)) \<and> built A l' x fs \<and> e \<in> set fs) \<or>
    (\<exists>x l' fs. x \<in> set (tree_all (n # p) ini) \<and> built A l' x fs \<and> e \<in> set fs)" by auto
  then show ?case by auto
next
  case (5 l p s ss)
  from 5(3) obtain fs gs where g: "ref_new l p s = Inr fs" "ref_news l p ss = Inr gs" "es = fs @ gs" by (auto simp: bind_py_eq_Inr)
  with 5 have "(\<exists>x l' fs. x \<in> set (tree_stmt p s) \<and> built A l' x fs \<and> e \<in> set fs) \<or>
    (\<exists>x l' fs. x \<in> set (tree_all p ss) \<and> built A l' x fs \<and> e \<in> set fs)" by auto
  then show ?case by auto
qed simp_all

lemma build_any_order:
  assumes "ref_build [] p c = Inr R" "set_once R" "config_db get" "top_down (p, c) bs" "n \<le> length bs"
  shows "\<exists>l. fold_py (build_phase get) (take n bs) [] = Inr l \<and> set l \<subseteq> set R \<and>
    (\<forall>x\<in>set (take n bs). \<exists>l' es. built R l' x es \<and> set l' \<subseteq> set l \<and> set es \<subseteq> set l)"
  using assms(5)
proof (induction n)
  case (Suc n)
  then obtain l where l: "fold_py (build_phase get) (take n bs) [] = Inr l" "set l \<subseteq> set R"
    "\<forall>x\<in>set (take n bs). \<exists>l' es. built R l' x es \<and> set l' \<subseteq> set l \<and> set es \<subseteq> set l" by auto
  have n: "n < length bs" "take (Suc n) bs = take n bs @ [bs ! n]" using Suc.prems by (auto simp: take_Suc_conv_app_nth)
  have "\<exists>l' es. built R l' (bs ! n) es \<and> set l' \<subseteq> set l"
  proof (cases "bs ! n = (p, c)")
    case True
    with ref_build_built [OF assms(1), of R] show ?thesis by (auto intro: exI [of _ "[]"])
  next
    case False
    with assms(4) n(1) obtain j where j: "j < n" "creates (bs ! j) (bs ! n)" unfolding top_down_def by blast
    then have "bs ! j \<in> set (take n bs)" using n(1) by (auto simp: in_set_conv_nth)
    with l(3) obtain l' es where "built R l' (bs ! j) es" "set (l' @ es) \<subseteq> set l" by auto
    with built_creates [OF this(1) j(2)] show ?thesis by blast
  qed
  then obtain l' es where b: "built R l' (bs ! n) es" "set l' \<subseteq> set l" by blast
  obtain q b' ini bld con where x: "bs ! n = (q, Cls b' ini bld con)" by (metis cls.exhaust surj_pair)
  from built_same [OF assms(2,3) b(1) [unfolded x] b(2) l(2)]
  have "build_phase get (bs ! n) l = Inr (l @ es)" by (simp add: build_phase_def x)
  then have "fold_py (build_phase get) (take (Suc n) bs) [] = Inr (l @ es)" unfolding n(2) by (simp add: fold_py_append l(1))
  moreover have "set (l @ es) \<subseteq> set R" using l(2) built_sub [OF b(1)] by simp
  moreover have "\<exists>l' gs. built R l' x gs \<and> set l' \<subseteq> set (l @ es) \<and> set gs \<subseteq> set (l @ es)" if "x \<in> set (take (Suc n) bs)" for x
    using that l(3) b unfolding n(2) by fastforce
  ultimately show ?case by blast
qed simp

lemma build_events:
  assumes "ref_build [] p c = Inr R" "set_once R" "config_db get" "top_down (p, c) bs"
  shows "\<exists>l. fold_py (build_phase get) bs [] = Inr l \<and> set l = set R"
proof -
  from build_any_order [OF assms order_refl] obtain l where l: "fold_py (build_phase get) bs [] = Inr l" "set l \<subseteq> set R"
    "\<forall>x\<in>set bs. \<exists>l' es. built R l' x es \<and> set l' \<subseteq> set l \<and> set es \<subseteq> set l" by auto
  have "e \<in> set l" if "e \<in> set R" for e
  proof -
    from ref_build_events(1) [OF assms(1) _ order_refl that] obtain x l' fs where x: "x \<in> set (tree p c)" "built R l' x fs" "e \<in> set fs" by auto
    then have "x \<in> set bs" using assms(4) by (simp add: top_down_def)
    with l(3) obtain k es where "built R k x es" "set es \<subseteq> set l" by blast
    with built_unique [OF assms(2) x(2), of k es] x(3) show ?thesis by blast
  qed
  with l show ?thesis by blast
qed

lemma ref_connect_sub: "ref_connect l (p, Cls b ini bld con) = Inr es \<Longrightarrow> \<exists>L. set L \<subseteq> set l \<and> exec_all ref_get p con L = Inr es"
  unfolding ref_connect_def by (intro exI [of _ "attr_events (remdups (named con)) l"]) (auto simp: attr_events_def)

lemma connect_events:
  assumes "ref_links R xs = Inr K" "set_once (R @ K)" "config_db get" "set cs \<subseteq> set xs" "set R \<subseteq> set l" "set l \<subseteq> set (R @ K)"
  shows "\<exists>l'. fold_py (connect_phase get) cs l = Inr l' \<and> set l' \<subseteq> set (R @ K) \<and> set l \<subseteq> set l' \<and>
    (\<forall>x\<in>set cs. \<exists>es. ref_connect R x = Inr es \<and> set es \<subseteq> set l')"
  using assms(4-6)
proof (induction cs arbitrary: l)
  case (Cons x cs)
  obtain p b ini bld con where x: "x = (p, Cls b ini bld con)" by (metis cls.exhaust surj_pair)
  from assms(1) obtain ess where m: "map_py (ref_connect R) (filter connecting xs) = Inr ess" "K = concat ess" by (auto simp: ref_links_def bind_py_eq_Inr)
  have "\<exists>es. ref_connect R x = Inr es \<and> set es \<subseteq> set (R @ K)"
  proof (cases "connecting x")
    case True
    then have "x \<in> set (filter connecting xs)" using Cons.prems(1) by simp
    from map_py_Inr [OF m(1) this] m(2) show ?thesis by auto
  qed (simp add: x connecting_def ref_connect_def)
  then obtain es where es: "ref_connect R x = Inr es" and K: "set es \<subseteq> set (R @ K)" by blast
  from ref_connect_sub [OF es(1) [unfolded x]] obtain L where L: "set L \<subseteq> set R" "exec_all ref_get p con L = Inr es" by blast
  from exec_same(2) [OF assms(2,3) ref_get_db L(2) order_trans [OF L(1) Cons.prems(2)] Cons.prems(3) K]
  have c: "connect_phase get x l = Inr (l @ es)" by (simp add: connect_phase_def x)
  have "set cs \<subseteq> set xs" "set R \<subseteq> set (l @ es)" "set (l @ es) \<subseteq> set (R @ K)" using Cons.prems K by auto
  from Cons.IH [OF this] obtain l' where l': "fold_py (connect_phase get) cs (l @ es) = Inr l'" "set l' \<subseteq> set (R @ K)" "set (l @ es) \<subseteq> set l'"
    "\<forall>x\<in>set cs. \<exists>es. ref_connect R x = Inr es \<and> set es \<subseteq> set l'" by blast
  with c es show ?case by auto
qed simp

text \<open>Every order of the phases gives the same components, attributes, configuration, reads and connections, without an error.\<close>

lemma elaborate_any_order:
  assumes "ref_build [] p c = Inr R" "ref_links R (tree p c) = Inr K" "set_once (R @ K)" "config_db get" "top_down (p, c) bs" "set cs = set (tree p c)"
  shows "\<exists>l. elaborate get bs cs = Inr l \<and> set l = set (R @ K)"
proof -
  from build_events [OF assms(1) set_once_append [OF assms(3)] assms(4,5)] obtain l where l: "fold_py (build_phase get) bs [] = Inr l" "set l = set R" by blast
  from connect_events [OF assms(2,3,4), of cs l] l(2) assms(6) obtain l' where l': "fold_py (connect_phase get) cs l = Inr l'" "set l' \<subseteq> set (R @ K)" "set l \<subseteq> set l'"
    "\<forall>x\<in>set cs. \<exists>es. ref_connect R x = Inr es \<and> set es \<subseteq> set l'" by auto
  have "set K \<subseteq> set l'"
  proof
    fix e assume e: "e \<in> set K"
    from assms(2) obtain ess where m: "map_py (ref_connect R) (filter connecting (tree p c)) = Inr ess" "K = concat ess" by (auto simp: ref_links_def bind_py_eq_Inr)
    from e m(2) obtain es where es: "es \<in> set ess" "e \<in> set es" by auto
    from map_py_covers [OF m(1) es(1)] obtain x where "x \<in> set cs" "ref_connect R x = Inr es" unfolding assms(6) by auto
    with l'(4) es(2) show "e \<in> set l'" by fastforce
  qed
  with l l' show ?thesis by (auto simp: elaborate_def)
qed

text \<open>For evaluation: with \<open>bind_py\<close> unfolded, what follows a step is evaluated after it.\<close>

lemmas eval_code [code] =
  map_py.simps [unfolded bind_py_def] exec.simps [unfolded bind_py_def] exec_all.simps [unfolded bind_py_def]
  ref_build.simps [unfolded bind_py_def] ref_new.simps [unfolded bind_py_def] ref_news.simps [unfolded bind_py_def] ref_links_def [unfolded bind_py_def]

section \<open>Wiring\<close>

text \<open>The components of a base class, and the ends of connections.\<close>

definition comps :: "base \<Rightarrow> log \<Rightarrow> path list" where
  "comps b l = concat (map (\<lambda>e. case e of Comp p b' \<Rightarrow> if b' = b then [p] else [] | _ \<Rightarrow> []) l)"

definition links_from :: "log \<Rightarrow> path \<Rightarrow> path list" where
  "links_from l q = concat (map (\<lambda>e. case e of Link q' r \<Rightarrow> if q' = q then [r] else [] | _ \<Rightarrow> []) l)"

definition links_to :: "log \<Rightarrow> path \<Rightarrow> path list" where
  "links_to l r = concat (map (\<lambda>e. case e of Link q r' \<Rightarrow> if r' = r then [q] else [] | _ \<Rightarrow> []) l)"

text \<open>
  A route \<open>(ms, g)\<close>: the port \<open>g\<close> of a scoreboard gets the items of the analysis ports \<open>ms\<close>. A bench is wired as in \<open>routes\<close> when every driver is connected
  to one sequencer, no two components have the same name, and the ports of the scoreboards are those of the routes, each connected to one queue that is fed by the ports of its route.
\<close>

definition driver_wired :: "log \<Rightarrow> path \<Rightarrow> bool" where
  "driver_wired l d \<longleftrightarrow> (case links_from l (''seq_item_port'' # d) of
      [r] \<Rightarrow> r \<noteq> [] \<and> hd r = ''seq_item_export'' \<and> tl r \<in> set (comps uvm_sequencer l) | _ \<Rightarrow> False)"

definition route_wired :: "log \<Rightarrow> path list \<times> path \<Rightarrow> bool" where
  "route_wired l x = (case links_from l (snd x) of
      [r] \<Rightarrow> r \<noteq> [] \<and> hd r = ''get_export'' \<and> tl r \<in> set (comps uvm_tlm_analysis_fifo l) \<and>
        links_to l (''analysis_export'' # tl r) = fst x \<and> set (fst x) \<subseteq> set (comps uvm_analysis_port l)
    | _ \<Rightarrow> False)"

definition all_comps :: "log \<Rightarrow> path list" where
  "all_comps l = concat (map (\<lambda>e. case e of Comp p b \<Rightarrow> [p] | _ \<Rightarrow> []) l)"

definition wired :: "log \<Rightarrow> (path list \<times> path) list \<Rightarrow> bool" where
  "wired l routes \<longleftrightarrow> distinct (all_comps l) \<and> list_all (driver_wired l) (comps uvm_driver l) \<and>
     comps uvm_get_port l = map snd routes \<and> list_all (route_wired l) routes"

definition bench_ok :: "cls \<Rightarrow> (path list \<times> path) list \<Rightarrow> bool" where
  "bench_ok c routes \<longleftrightarrow> (case ref_build [] [] c of Inl e \<Rightarrow> False
     | Inr R \<Rightarrow> (case ref_links R (tree [] c) of Inl e \<Rightarrow> False | Inr K \<Rightarrow> set_once (R @ K) \<and> wired (R @ K) routes))"

section \<open>What wiring means\<close>

text \<open>
  The items that the port \<open>g\<close> of a scoreboard gets, of those that the analysis ports write: an analysis port passes each item to every queue it is connected to.
\<close>

definition port_items :: "log \<Rightarrow> path \<Rightarrow> (path \<times> 'a) list \<Rightarrow> 'a list" where
  "port_items l g ws = map snd (filter (\<lambda>(m, x). \<exists>f. Link g (''get_export'' # f) \<in> set l \<and> Link m (''analysis_export'' # f) \<in> set l) ws)"

lemma in_comps: "p \<in> set (comps b l) \<longleftrightarrow> Comp p b \<in> set l"
  by (induction l) (auto simp: comps_def split: event.splits)

lemma in_links_from: "r \<in> set (links_from l q) \<longleftrightarrow> Link q r \<in> set l"
  by (induction l) (auto simp: links_from_def split: event.splits)

lemma in_links_to: "q \<in> set (links_to l r) \<longleftrightarrow> Link q r \<in> set l"
  by (induction l) (auto simp: links_to_def split: event.splits)

lemma driver_wiredD:
  assumes "driver_wired l d"
  shows "\<exists>s. Comp s uvm_sequencer \<in> set l \<and> {r. Link (''seq_item_port'' # d) r \<in> set l} = {''seq_item_export'' # s}"
proof -
  from assms obtain r where r: "links_from l (''seq_item_port'' # d) = [r]" "hd r = ''seq_item_export''" "Comp (tl r) uvm_sequencer \<in> set l" "r \<noteq> []"
    by (auto simp: driver_wired_def in_comps split: list.splits)
  then have "{r. Link (''seq_item_port'' # d) r \<in> set l} = {''seq_item_export'' # tl r}"
    unfolding in_links_from [symmetric] by (cases r) auto
  with r(3) show ?thesis by blast
qed

lemma route_wired_items:
  assumes "route_wired l (ms, g)"
  shows "port_items l g ws = map snd (filter (\<lambda>(m, x). m \<in> set ms) ws)"
proof -
  from assms obtain r where r: "links_from l g = [r]" "hd r = ''get_export''" "links_to l (''analysis_export'' # tl r) = ms" "r \<noteq> []"
    by (auto simp: route_wired_def split: list.splits)
  then have "Link g (''get_export'' # f) \<in> set l \<longleftrightarrow> f = tl r" for f unfolding in_links_from [symmetric] by (cases r) auto
  moreover have "Link m (''analysis_export'' # tl r) \<in> set l \<longleftrightarrow> m \<in> set ms" for m using r(3) in_links_to by blast
  ultimately show ?thesis by (simp add: port_items_def case_prod_unfold)
qed

lemma port_items_cong: "set l = set l' \<Longrightarrow> port_items l g ws = port_items l' g ws"
  by (simp add: port_items_def)

text \<open>
  A bench that is evaluated to be in order: whatever the order of the phases, they raise no error, every driver takes its items from one sequencer, the ports of the
  scoreboards are those of the routes, and each gets the items of its monitors, in the order in which they are written.
\<close>

lemma bench_ok_elaborates:
  assumes "bench_ok c routes" "config_db get" "top_down ([], c) bs" "set cs = set (tree [] c)"
  shows "\<exists>l. elaborate get bs cs = Inr l \<and>
    (\<forall>d. Comp d uvm_driver \<in> set l \<longrightarrow> (\<exists>s. Comp s uvm_sequencer \<in> set l \<and> {r. Link (''seq_item_port'' # d) r \<in> set l} = {''seq_item_export'' # s})) \<and>
    {g. Comp g uvm_get_port \<in> set l} = snd ` set routes \<and>
    (\<forall>(ms, g)\<in>set routes. \<forall>ws::(path \<times> 'a) list. port_items l g ws = map snd (filter (\<lambda>(m, x). m \<in> set ms) ws))"
proof -
  from assms(1) obtain R K where rk: "ref_build [] [] c = Inr R" "ref_links R (tree [] c) = Inr K" "set_once (R @ K)" and w: "wired (R @ K) routes"
    by (auto simp: bench_ok_def split: sum.splits)
  from elaborate_any_order [OF rk assms(2-4)] obtain l where l: "elaborate get bs cs = Inr l" "set l = set (R @ K)" by blast
  have "\<exists>s. Comp s uvm_sequencer \<in> set l \<and> {r. Link (''seq_item_port'' # d) r \<in> set l} = {''seq_item_export'' # s}" if "Comp d uvm_driver \<in> set l" for d
    using w that driver_wiredD [of "R @ K" d] unfolding wired_def l(2) in_comps [symmetric] list_all_iff by blast
  moreover have "{g. Comp g uvm_get_port \<in> set l} = snd ` set routes"
    using w unfolding wired_def l(2) in_comps [symmetric] by auto
  moreover have "port_items l g ws = map snd (filter (\<lambda>(m, x). m \<in> set ms) ws)" if "(ms, g) \<in> set routes" for ms g and ws :: "(path \<times> 'a) list"
    using w that route_wired_items [of "R @ K" ms g ws] unfolding wired_def list_all_iff port_items_cong [OF l(2)] by blast
  ultimately show ?thesis using l(1) by blast
qed

section \<open>The order of the tree\<close>

text \<open>The tree, parents first, is an order in which the build phases can run.\<close>

definition follows :: "(path \<times> cls) set \<Rightarrow> (path \<times> cls) list \<Rightarrow> bool" where
  "follows S xs \<longleftrightarrow> (\<forall>i<length xs. xs ! i \<in> S \<or> (\<exists>j<i. creates (xs ! j) (xs ! i)))"

lemma follows_Nil [simp]: "follows S []"
  by (simp add: follows_def)

lemma follows_mono: "follows S xs \<Longrightarrow> S \<subseteq> T \<Longrightarrow> follows T xs"
  by (auto simp: follows_def)

lemma follows_append:
  assumes "follows S xs" "follows S ys"
  shows "follows S (xs @ ys)"
  unfolding follows_def
proof (intro allI impI)
  fix i assume i: "i < length (xs @ ys)"
  show "(xs @ ys) ! i \<in> S \<or> (\<exists>j<i. creates ((xs @ ys) ! j) ((xs @ ys) ! i))"
  proof (cases "i < length xs")
    case True
    with assms(1) show ?thesis unfolding follows_def by (metis nth_append order.strict_trans)
  next
    case False
    define k where "k = i - length xs"
    with False i have k: "k < length ys" "i = length xs + k" by auto
    from assms(2) k(1) consider "ys ! k \<in> S" | j where "j < k" "creates (ys ! j) (ys ! k)" unfolding follows_def by blast
    then show ?thesis
    proof cases
      case 2
      then show ?thesis by (intro disjI2 exI [of _ "length xs + j"]) (simp add: k(2))
    qed (simp add: k(2))
  qed
qed

lemma follows_Cons:
  assumes "x \<in> S" "follows (S \<union> {y. creates x y}) xs"
  shows "follows S (x # xs)"
  unfolding follows_def
proof (intro allI impI)
  fix i assume i: "i < length (x # xs)"
  show "(x # xs) ! i \<in> S \<or> (\<exists>j<i. creates ((x # xs) ! j) ((x # xs) ! i))"
  proof (cases i)
    case (Suc k)
    with assms(2) i consider "xs ! k \<in> S" | "creates x (xs ! k)" | j where "j < k" "creates (xs ! j) (xs ! k)" unfolding follows_def by auto
    then show ?thesis
    proof cases
      case 2
      then show ?thesis unfolding Suc by (intro disjI2 exI [of _ 0]) simp
    next
      case 3
      then show ?thesis unfolding Suc by (intro disjI2 exI [of _ "Suc j"]) simp
    qed (simp add: Suc)
  qed (simp add: assms(1))
qed

lemma tree_follows:
  "follows (insert (p, c) (case c of Cls b ini bld con \<Rightarrow> set (created_all p ini))) (tree p c)"
  "follows (set (created p s)) (tree_stmt p s)"
  "follows (set (created_all p ss)) (tree_all p ss)"
proof (induction p c and p s and p ss rule: tree_tree_stmt_tree_all.induct)
  case (1 p b ini bld con)
  have "follows (insert (p, Cls b ini bld con) (set (created_all p ini)) \<union> {y. creates (p, Cls b ini bld con) y}) (tree_all p ini @ tree_all p bld)"
    by (rule follows_append; rule follows_mono, rule 1) (auto simp: creates_def)
  then show ?case by (simp add: follows_Cons)
next
  case (2 p a n kw c)
  then show ?case by (cases c) simp
next
  case (5 p s ss)
  then show ?case by (auto intro!: follows_append elim: follows_mono)
qed simp_all

lemma tree_top_down:
  assumes "distinct (map fst (tree p c))" "case c of Cls b ini bld con \<Rightarrow> ini = []"
  shows "top_down (p, c) (tree p c)"
  using assms tree_follows(1) [of p c] by (cases c) (simp add: top_down_def follows_def)

end
