(* ===== verification/Bench_Envs.thy ===== *)
theory Bench_Envs
  imports Uvm_Env Bus_Utils
begin

text \<open>
  The environments of all test benches: the constructor, build phase and connect phase of every component, as statements of \<open>Uvm_Env\<close>; the signals that the
  functional models look up in the design; and the time-outs that the DMA environment computes for its functional models.

  What pyuvm itself creates is written out first: a driver has the port \<open>seq_item_port\<close>, a sequencer \<open>seq_item_export\<close>, an analysis queue \<open>analysis_export\<close>
  and \<open>get_export\<close>. Handles of the simulator, logging levels and objects that are not components are not part of the statements.
\<close>

section \<open>Definitions\<close>

subsection \<open>Components of pyuvm\<close>

definition uvm_port :: cls where "uvm_port = Cls uvm_export [] [] []"

definition analysis_port :: cls where "analysis_port = Cls uvm_analysis_port [] [] []"

definition get_port :: cls where "get_port = Cls uvm_get_port [] [] []"

definition sequencer :: cls where
  "sequencer = Cls uvm_sequencer [New ''seq_item_export'' ''seq_item_export'' [] uvm_port] [] []"

definition driver_ports :: "stmt list" where
  "driver_ports = [New ''seq_item_port'' ''seq_item_port'' [] uvm_port]"

definition analysis_fifo :: cls where
  "analysis_fifo = Cls uvm_tlm_analysis_fifo [New ''analysis_export'' ''analysis_export'' [] uvm_port, New ''get_export'' ''get_export'' [] uvm_port] [] []"

subsection \<open>Time-outs of the DMA environment\<close>

text \<open>
  \<open>trials p\<close> is \<open>smallest_number_of_trials(p, 10, 99.99)\<close>. The values read are the probability and the longest time of a busy debug interface, the
  probabilities of a busy DCCM and ICCM and the longest time of a busy memory.
\<close>

fun dbg_trials :: "(real \<Rightarrow> nat) \<Rightarrow> val list \<Rightarrow> val py" where
  "dbg_trials trials [VReal dbg_busy_prob, VInt dbg_busy_max, VReal dccm, VReal iccm, VInt mem_busy_max] =
     Inr (VInt (int (trials ((1 - dbg_busy_prob) * max dccm iccm)) * max mem_busy_max dbg_busy_max))"
| "dbg_trials trials _ = Inl TypeError"

fun mem_trials :: "(real \<Rightarrow> nat) \<Rightarrow> val list \<Rightarrow> val py" where
  "mem_trials trials [VReal dbg_busy_prob, VReal dccm, VReal iccm, VInt mem_busy_max] =
     Inr (VInt (int (trials ((1 - max dccm iccm) * dbg_busy_prob)) * mem_busy_max))"
| "mem_trials trials _ = Inl TypeError"

subsection \<open>Components of the benches\<close>

definition exu_alu_AluDriver :: "cls" where
  "exu_alu_AluDriver = Cls uvm_driver driver_ports
       []
       []"

definition exu_alu_AluInputMonitor :: "cls" where
  "exu_alu_AluInputMonitor = Cls uvm_component []
       [New ''ap'' ''ap'' [] analysis_port]
       []"

definition exu_alu_AluOutputMonitor :: "cls" where
  "exu_alu_AluOutputMonitor = Cls uvm_component []
       [New ''ap'' ''ap'' [] analysis_port]
       []"

definition exu_alu_AluScoreboard :: "cls" where
  "exu_alu_AluScoreboard = Cls uvm_component []
       [New ''fifo_inp'' ''fifo_inp'' [] analysis_fifo,
        New ''fifo_out'' ''fifo_out'' [] analysis_fifo,
        New ''port_inp'' ''port_inp'' [] get_port,
        New ''port_out'' ''port_out'' [] get_port]
       [Connect [''port_inp''] [''fifo_inp'', ''get_export''],
        Connect [''port_out''] [''fifo_out'', ''get_export'']]"

definition exu_alu_BaseEnv :: "cls" where
  "exu_alu_BaseEnv = Cls uvm_env []
       [SetAll ''TEST_CLK_PERIOD'' (VInt 1),
        SetAll ''TEST_ITERATIONS'' (VInt 50),
        New ''alu_seqr'' ''alu_seqr'' [] sequencer,
        New ''alu_drv'' ''alu_drv'' [] exu_alu_AluDriver,
        New ''inp_mon'' ''inp_mon'' [] exu_alu_AluInputMonitor,
        New ''out_mon'' ''out_mon'' [] exu_alu_AluOutputMonitor,
        New ''scoreboard'' ''scoreboard'' [] exu_alu_AluScoreboard]
       [Connect [''alu_drv'', ''seq_item_port''] [''alu_seqr'', ''seq_item_export''],
        Connect [''inp_mon'', ''ap''] [''scoreboard'', ''fifo_inp'', ''analysis_export''],
        Connect [''out_mon'', ''ap''] [''scoreboard'', ''fifo_out'', ''analysis_export'']]"

definition exu_alu_BaseTest :: "cls" where
  "exu_alu_BaseTest = Cls uvm_test []
       [New ''env'' ''env'' [] exu_alu_BaseEnv]
       []"

definition exu_mul_MulDriver :: "cls" where
  "exu_mul_MulDriver = Cls uvm_driver driver_ports
       []
       []"

definition exu_mul_MulInputMonitor :: "cls" where
  "exu_mul_MulInputMonitor = Cls uvm_component []
       [New ''ap'' ''ap'' [] analysis_port]
       []"

definition exu_mul_MulOutputMonitor :: "cls" where
  "exu_mul_MulOutputMonitor = Cls uvm_component []
       [New ''ap'' ''ap'' [] analysis_port]
       []"

definition exu_mul_MulScoreboard :: "cls" where
  "exu_mul_MulScoreboard = Cls uvm_component []
       [New ''fifo_inp'' ''fifo_inp'' [] analysis_fifo,
        New ''fifo_out'' ''fifo_out'' [] analysis_fifo,
        New ''port_inp'' ''port_inp'' [] get_port,
        New ''port_out'' ''port_out'' [] get_port]
       [Connect [''port_inp''] [''fifo_inp'', ''get_export''],
        Connect [''port_out''] [''fifo_out'', ''get_export'']]"

definition exu_mul_BaseEnv :: "cls" where
  "exu_mul_BaseEnv = Cls uvm_env []
       [SetAll ''TEST_CLK_PERIOD'' (VInt 1),
        SetAll ''TEST_ITERATIONS'' (VInt 50),
        New ''mul_seqr'' ''mul_seqr'' [] sequencer,
        New ''mul_drv'' ''mul_drv'' [] exu_mul_MulDriver,
        New ''inp_mon'' ''inp_mon'' [] exu_mul_MulInputMonitor,
        New ''out_mon'' ''out_mon'' [] exu_mul_MulOutputMonitor,
        New ''scoreboard'' ''scoreboard'' [] exu_mul_MulScoreboard]
       [Connect [''mul_drv'', ''seq_item_port''] [''mul_seqr'', ''seq_item_export''],
        Connect [''inp_mon'', ''ap''] [''scoreboard'', ''fifo_inp'', ''analysis_export''],
        Connect [''out_mon'', ''ap''] [''scoreboard'', ''fifo_out'', ''analysis_export'']]"

definition exu_mul_BaseTest :: "cls" where
  "exu_mul_BaseTest = Cls uvm_test []
       [New ''env'' ''env'' [] exu_mul_BaseEnv]
       []"

definition exu_div_DivDriver :: "cls" where
  "exu_div_DivDriver = Cls uvm_driver driver_ports
       []
       []"

definition exu_div_DivInputMonitor :: "cls" where
  "exu_div_DivInputMonitor = Cls uvm_component []
       [New ''ap'' ''ap'' [] analysis_port]
       []"

definition exu_div_DivOutputMonitor :: "cls" where
  "exu_div_DivOutputMonitor = Cls uvm_component []
       [New ''ap'' ''ap'' [] analysis_port]
       []"

definition exu_div_DivScoreboard :: "cls" where
  "exu_div_DivScoreboard = Cls uvm_component []
       [New ''fifo_inp'' ''fifo_inp'' [] analysis_fifo,
        New ''fifo_out'' ''fifo_out'' [] analysis_fifo,
        New ''port_inp'' ''port_inp'' [] get_port,
        New ''port_out'' ''port_out'' [] get_port]
       [Connect [''port_inp''] [''fifo_inp'', ''get_export''],
        Connect [''port_out''] [''fifo_out'', ''get_export'']]"

definition exu_div_BaseEnv :: "cls" where
  "exu_div_BaseEnv = Cls uvm_env []
       [SetAll ''TEST_CLK_PERIOD'' (VInt 1),
        SetAll ''TEST_ITERATIONS'' (VInt 50),
        New ''div_seqr'' ''div_seqr'' [] sequencer,
        New ''div_drv'' ''div_drv'' [] exu_div_DivDriver,
        New ''inp_mon'' ''inp_mon'' [] exu_div_DivInputMonitor,
        New ''out_mon'' ''out_mon'' [] exu_div_DivOutputMonitor,
        New ''scoreboard'' ''scoreboard'' [] exu_div_DivScoreboard]
       [Connect [''div_drv'', ''seq_item_port''] [''div_seqr'', ''seq_item_export''],
        Connect [''inp_mon'', ''ap''] [''scoreboard'', ''fifo_inp'', ''analysis_export''],
        Connect [''out_mon'', ''ap''] [''scoreboard'', ''fifo_out'', ''analysis_export'']]"

definition exu_div_BaseTest :: "cls" where
  "exu_div_BaseTest = Cls uvm_test []
       [New ''env'' ''env'' [] exu_div_BaseEnv]
       []"

definition dec_tl_TlDriver :: "cls" where
  "dec_tl_TlDriver = Cls uvm_driver driver_ports
       []
       []"

definition dec_tl_TlInputMonitor :: "cls" where
  "dec_tl_TlInputMonitor = Cls uvm_component []
       [New ''ap'' ''ap'' [] analysis_port]
       []"

definition dec_tl_TlOutputMonitor :: "cls" where
  "dec_tl_TlOutputMonitor = Cls uvm_component []
       [New ''ap'' ''ap'' [] analysis_port]
       []"

definition dec_tl_TlScoreboard :: "cls" where
  "dec_tl_TlScoreboard = Cls uvm_component []
       [New ''fifo_inp'' ''fifo_inp'' [] analysis_fifo,
        New ''fifo_out'' ''fifo_out'' [] analysis_fifo,
        New ''port_inp'' ''port_inp'' [] get_port,
        New ''port_out'' ''port_out'' [] get_port]
       [Connect [''port_inp''] [''fifo_inp'', ''get_export''],
        Connect [''port_out''] [''fifo_out'', ''get_export'']]"

definition dec_tl_BaseEnv :: "cls" where
  "dec_tl_BaseEnv = Cls uvm_env []
       [SetAll ''TEST_CLK_PERIOD'' (VInt 1),
        SetAll ''TEST_ITERATIONS'' (VInt 0x1388),
        New ''tl_seqr'' ''tl_seqr'' [] sequencer,
        New ''tl_drv'' ''tl_drv'' [] dec_tl_TlDriver,
        New ''inp_mon'' ''inp_mon'' [] dec_tl_TlInputMonitor,
        New ''out_mon'' ''out_mon'' [] dec_tl_TlOutputMonitor,
        New ''scoreboard'' ''scoreboard'' [] dec_tl_TlScoreboard]
       [Connect [''tl_drv'', ''seq_item_port''] [''tl_seqr'', ''seq_item_export''],
        Connect [''inp_mon'', ''ap''] [''scoreboard'', ''fifo_inp'', ''analysis_export''],
        Connect [''out_mon'', ''ap''] [''scoreboard'', ''fifo_out'', ''analysis_export'']]"

definition dec_tl_BaseTest :: "cls" where
  "dec_tl_BaseTest = Cls uvm_test []
       [New ''env'' ''env'' [] dec_tl_BaseEnv]
       []"

definition lsu_tl_TlDriver :: "cls" where
  "lsu_tl_TlDriver = Cls uvm_driver driver_ports
       []
       []"

definition lsu_tl_TlInputMonitor :: "cls" where
  "lsu_tl_TlInputMonitor = Cls uvm_component []
       [New ''ap'' ''ap'' [] analysis_port]
       []"

definition lsu_tl_TlOutputMonitor :: "cls" where
  "lsu_tl_TlOutputMonitor = Cls uvm_component []
       [New ''ap'' ''ap'' [] analysis_port]
       []"

definition lsu_tl_TlScoreboard :: "cls" where
  "lsu_tl_TlScoreboard = Cls uvm_component []
       [New ''fifo_inp'' ''fifo_inp'' [] analysis_fifo,
        New ''fifo_out'' ''fifo_out'' [] analysis_fifo,
        New ''port_inp'' ''port_inp'' [] get_port,
        New ''port_out'' ''port_out'' [] get_port]
       [Connect [''port_inp''] [''fifo_inp'', ''get_export''],
        Connect [''port_out''] [''fifo_out'', ''get_export'']]"

definition lsu_tl_BaseEnv :: "cls" where
  "lsu_tl_BaseEnv = Cls uvm_env []
       [SetAll ''TEST_CLK_PERIOD'' (VInt 1),
        SetAll ''TEST_ITERATIONS'' (VInt 0x1388),
        New ''tl_seqr'' ''tl_seqr'' [] sequencer,
        New ''tl_drv'' ''tl_drv'' [] lsu_tl_TlDriver,
        New ''inp_mon'' ''inp_mon'' [] lsu_tl_TlInputMonitor,
        New ''out_mon'' ''out_mon'' [] lsu_tl_TlOutputMonitor,
        New ''scoreboard'' ''scoreboard'' [] lsu_tl_TlScoreboard]
       [Connect [''tl_drv'', ''seq_item_port''] [''tl_seqr'', ''seq_item_export''],
        Connect [''inp_mon'', ''ap''] [''scoreboard'', ''fifo_inp'', ''analysis_export''],
        Connect [''out_mon'', ''ap''] [''scoreboard'', ''fifo_out'', ''analysis_export'']]"

definition lsu_tl_BaseTest :: "cls" where
  "lsu_tl_BaseTest = Cls uvm_test []
       [New ''env'' ''env'' [] lsu_tl_BaseEnv]
       []"

definition dec_ib_IbCtlDriver :: "cls" where
  "dec_ib_IbCtlDriver = Cls uvm_driver driver_ports
       []
       []"

definition dec_ib_IbCtlInputMonitor :: "cls" where
  "dec_ib_IbCtlInputMonitor = Cls uvm_component []
       [New ''ap'' ''ap'' [] analysis_port]
       []"

definition dec_ib_IbCtlOutputMonitor :: "cls" where
  "dec_ib_IbCtlOutputMonitor = Cls uvm_component []
       [New ''ap'' ''ap'' [] analysis_port]
       []"

definition dec_ib_IbCtlScoreboard :: "cls" where
  "dec_ib_IbCtlScoreboard = Cls uvm_component []
       [New ''fifo_inp'' ''fifo_inp'' [] analysis_fifo,
        New ''fifo_out'' ''fifo_out'' [] analysis_fifo,
        New ''port_inp'' ''port_inp'' [] get_port,
        New ''port_out'' ''port_out'' [] get_port]
       [Connect [''port_inp''] [''fifo_inp'', ''get_export''],
        Connect [''port_out''] [''fifo_out'', ''get_export'']]"

definition dec_ib_BaseEnv :: "cls" where
  "dec_ib_BaseEnv = Cls uvm_env []
       [SetAll ''TEST_CLK_PERIOD'' (VInt 1),
        SetAll ''TEST_ITERATIONS'' (VInt 0x3E8),
        New ''seqr'' ''seqr'' [] sequencer,
        New ''drv'' ''drv'' [] dec_ib_IbCtlDriver,
        New ''inp_mon'' ''inp_mon'' [] dec_ib_IbCtlInputMonitor,
        New ''out_mon'' ''out_mon'' [] dec_ib_IbCtlOutputMonitor,
        New ''scoreboard'' ''scoreboard'' [] dec_ib_IbCtlScoreboard]
       [Connect [''drv'', ''seq_item_port''] [''seqr'', ''seq_item_export''],
        Connect [''inp_mon'', ''ap''] [''scoreboard'', ''fifo_inp'', ''analysis_export''],
        Connect [''out_mon'', ''ap''] [''scoreboard'', ''fifo_out'', ''analysis_export'']]"

definition dec_ib_BaseTest :: "cls" where
  "dec_ib_BaseTest = Cls uvm_test []
       [New ''env'' ''env'' [] dec_ib_BaseEnv]
       []"

definition dccm_MemDriver :: "cls" where
  "dccm_MemDriver = Cls uvm_driver driver_ports
       []
       []"

definition dccm_MemMonitor :: "cls" where
  "dccm_MemMonitor = Cls uvm_component []
       [New ''ap'' ''ap'' [] analysis_port]
       []"

definition dccm_Scoreboard :: "cls" where
  "dccm_Scoreboard = Cls uvm_component []
       [New ''fifo'' ''fifo'' [] analysis_fifo,
        New ''port'' ''port'' [] get_port]
       [Connect [''port''] [''fifo'', ''get_export'']]"

definition dccm_BaseEnv :: "cls" where
  "dccm_BaseEnv = Cls uvm_env []
       [SetAll ''TEST_CLK_PERIOD'' (VInt 1),
        SetAll ''TEST_ITERATIONS'' (VInt 50),
        SetAll ''TEST_BURST_LEN'' (VInt 10),
        SetAll ''DCCM_BITS'' (VInt 16),
        SetAll ''DCCM_FDATA_WIDTH'' (VInt 32),
        New ''mem_seqr'' ''mem_seqr'' [] sequencer,
        New ''mem_drv'' ''mem_drv'' [] dccm_MemDriver,
        New ''mem_mon'' ''mem_mon'' [] dccm_MemMonitor,
        New ''scoreboard'' ''scoreboard'' [] dccm_Scoreboard]
       [Connect [''mem_drv'', ''seq_item_port''] [''mem_seqr'', ''seq_item_export''],
        Connect [''mem_mon'', ''ap''] [''scoreboard'', ''fifo'', ''analysis_export'']]"

definition dccm_BaseTest :: "cls" where
  "dccm_BaseTest = Cls uvm_test []
       [New ''env'' ''env'' [] dccm_BaseEnv]
       []"

definition iccm_MemDriver :: "cls" where
  "iccm_MemDriver = Cls uvm_driver driver_ports
       []
       []"

definition iccm_MemMonitor :: "cls" where
  "iccm_MemMonitor = Cls uvm_component []
       [New ''ap'' ''ap'' [] analysis_port]
       []"

definition iccm_Scoreboard :: "cls" where
  "iccm_Scoreboard = Cls uvm_component []
       [New ''fifo'' ''fifo'' [] analysis_fifo,
        New ''port'' ''port'' [] get_port]
       [Connect [''port''] [''fifo'', ''get_export'']]"

definition iccm_BaseEnv :: "cls" where
  "iccm_BaseEnv = Cls uvm_env []
       [SetAll ''TEST_CLK_PERIOD'' (VInt 1),
        SetAll ''TEST_ITERATIONS'' (VInt 50),
        SetAll ''TEST_BURST_LEN'' (VInt 10),
        SetAll ''ICCM_BITS'' (VInt 16),
        New ''mem_seqr'' ''mem_seqr'' [] sequencer,
        New ''mem_drv'' ''mem_drv'' [] iccm_MemDriver,
        New ''mem_mon'' ''mem_mon'' [] iccm_MemMonitor,
        New ''scoreboard'' ''scoreboard'' [] iccm_Scoreboard]
       [Connect [''mem_drv'', ''seq_item_port''] [''mem_seqr'', ''seq_item_export''],
        Connect [''mem_mon'', ''ap''] [''scoreboard'', ''fifo'', ''analysis_export'']]"

definition iccm_BaseTest :: "cls" where
  "iccm_BaseTest = Cls uvm_test []
       [New ''env'' ''env'' [] iccm_BaseEnv]
       []"

definition pmp_PMPDriver :: "cls" where
  "pmp_PMPDriver = Cls uvm_driver (driver_ports @ [GetAll ''PMP_CSRS''])
       []
       []"

definition pmp_PMPMonitor :: "cls" where
  "pmp_PMPMonitor = Cls uvm_component [GetAll ''PMP_CHANNELS'', GetAll ''PMP_ENTRIES'']
       [New ''ap'' ''ap'' [] analysis_port]
       []"

definition pmp_Scoreboard :: "cls" where
  "pmp_Scoreboard = Cls uvm_component []
       [New ''fifo'' ''fifo'' [] analysis_fifo,
        New ''port'' ''port'' [] get_port,
        GetAll ''PMP_CSRS'']
       [Connect [''port''] [''fifo'', ''get_export'']]"

definition pmp_BaseEnv :: "cls" where
  "pmp_BaseEnv = Cls uvm_env []
       [SetAll ''PMP_ENTRIES'' (VInt 16),
        SetAll ''PMP_CHANNELS'' (VInt 3),
        SetAll ''PMP_GRANULARITY'' (VInt 0),
        SetAll ''TEST_CLK_PERIOD'' (VInt 1),
        SetAll ''TEST_ITERATIONS'' (VInt 100),
        SetAll ''PMP_CSRS'' (VObj ''RegisterMap(pmp_entries)''),
        New ''pmp_seqr'' ''pmp_seqr'' [] sequencer,
        New ''pmp_drv'' ''pmp_drv'' [] pmp_PMPDriver,
        New ''pmp_mon'' ''pmp_mon'' [] pmp_PMPMonitor,
        New ''scoreboard'' ''scoreboard'' [] pmp_Scoreboard,
        SetAllTo ''PMP_SEQR'' [''pmp_seqr'']]
       [Connect [''pmp_drv'', ''seq_item_port''] [''pmp_seqr'', ''seq_item_export''],
        Connect [''pmp_mon'', ''ap''] [''scoreboard'', ''fifo'', ''analysis_export'']]"

definition pmp_BaseTest :: "cls" where
  "pmp_BaseTest = Cls uvm_test []
       [New ''env'' ''env'' [] pmp_BaseEnv]
       []"

definition pmp_random_PMPWriteDriver :: "cls" where
  "pmp_random_PMPWriteDriver = Cls uvm_driver driver_ports
       []
       []"

definition pmp_random_WriteMonitor :: "cls" where
  "pmp_random_WriteMonitor = Cls uvm_component []
       [New ''ap'' ''ap'' [] analysis_port]
       []"

definition pmp_random_ReadMonitor :: "cls" where
  "pmp_random_ReadMonitor = Cls uvm_component []
       [New ''ap'' ''ap'' [] analysis_port]
       []"

definition pmp_random_Scoreboard :: "cls" where
  "pmp_random_Scoreboard = Cls uvm_component []
       [New ''fifo_inp'' ''fifo_inp'' [] analysis_fifo,
        New ''fifo_out'' ''fifo_out'' [] analysis_fifo,
        New ''port_inp'' ''port_inp'' [] get_port,
        New ''port_out'' ''port_out'' [] get_port]
       [Connect [''port_inp''] [''fifo_inp'', ''get_export''],
        Connect [''port_out''] [''fifo_out'', ''get_export'']]"

definition pmp_random_BaseEnv :: "cls" where
  "pmp_random_BaseEnv = Cls uvm_env []
       [SetAll ''TEST_CLK_PERIOD'' (VInt 1),
        SetAll ''TEST_ITERATIONS'' (VInt 200),
        New ''pmp_wr_seqr'' ''pmp_wr_seqr'' [] sequencer,
        New ''pmp_wr_drv'' ''pmp_wr_drv'' [] pmp_random_PMPWriteDriver,
        New ''wr_mon'' ''wr_mon'' [] pmp_random_WriteMonitor,
        New ''rd_mon'' ''rd_mon'' [] pmp_random_ReadMonitor,
        New ''scoreboard'' ''scoreboard'' [] pmp_random_Scoreboard]
       [Connect [''pmp_wr_drv'', ''seq_item_port''] [''pmp_wr_seqr'', ''seq_item_export''],
        Connect [''wr_mon'', ''ap''] [''scoreboard'', ''fifo_inp'', ''analysis_export''],
        Connect [''rd_mon'', ''ap''] [''scoreboard'', ''fifo_out'', ''analysis_export'']]"

definition pmp_random_BaseTest :: "cls" where
  "pmp_random_BaseTest = Cls uvm_test []
       [New ''env'' ''env'' [] pmp_random_BaseEnv]
       []"

definition dec_DecDriver :: "cls" where
  "dec_DecDriver = Cls uvm_driver driver_ports
       []
       []"

definition dec_DecInputMonitor :: "cls" where
  "dec_DecInputMonitor = Cls uvm_component []
       [New ''ap'' ''ap'' [] analysis_port]
       []"

definition dec_DecOutputMonitor :: "cls" where
  "dec_DecOutputMonitor = Cls uvm_component []
       [New ''ap'' ''ap'' [] analysis_port]
       []"

definition dec_DecScoreboard :: "cls" where
  "dec_DecScoreboard = Cls uvm_component []
       [New ''fifo_inp'' ''fifo_inp'' [] analysis_fifo,
        New ''fifo_out'' ''fifo_out'' [] analysis_fifo,
        New ''port_inp'' ''port_inp'' [] get_port,
        New ''port_out'' ''port_out'' [] get_port]
       [Connect [''port_inp''] [''fifo_inp'', ''get_export''],
        Connect [''port_out''] [''fifo_out'', ''get_export'']]"

definition dec_BaseEnv :: "cls" where
  "dec_BaseEnv = Cls uvm_env []
       [SetAll ''TEST_CLK_PERIOD'' (VInt 1),
        SetAll ''TEST_ITERATIONS'' (VInt 0x1388),
        New ''dec_seqr'' ''dec_seqr'' [] sequencer,
        New ''dec_drv'' ''dec_drv'' [] dec_DecDriver,
        New ''inp_mon'' ''inp_mon'' [] dec_DecInputMonitor,
        New ''out_mon'' ''out_mon'' [] dec_DecOutputMonitor,
        New ''scoreboard'' ''scoreboard'' [] dec_DecScoreboard]
       [Connect [''dec_drv'', ''seq_item_port''] [''dec_seqr'', ''seq_item_export''],
        Connect [''inp_mon'', ''ap''] [''scoreboard'', ''fifo_inp'', ''analysis_export''],
        Connect [''out_mon'', ''ap''] [''scoreboard'', ''fifo_out'', ''analysis_export'']]"

definition dec_BaseTest :: "cls" where
  "dec_BaseTest = Cls uvm_test []
       [New ''env'' ''env'' [] dec_BaseEnv]
       []"

definition dec_tlu_ctl_TlDriver :: "cls" where
  "dec_tlu_ctl_TlDriver = Cls uvm_driver driver_ports
       []
       []"

definition dec_tlu_ctl_TlInputMonitor :: "cls" where
  "dec_tlu_ctl_TlInputMonitor = Cls uvm_component []
       [New ''ap'' ''ap'' [] analysis_port]
       []"

definition dec_tlu_ctl_TlOutputMonitor :: "cls" where
  "dec_tlu_ctl_TlOutputMonitor = Cls uvm_component []
       [New ''ap'' ''ap'' [] analysis_port]
       []"

definition dec_tlu_ctl_TlScoreboard :: "cls" where
  "dec_tlu_ctl_TlScoreboard = Cls uvm_component []
       [New ''fifo_inp'' ''fifo_inp'' [] analysis_fifo,
        New ''fifo_out'' ''fifo_out'' [] analysis_fifo,
        New ''port_inp'' ''port_inp'' [] get_port,
        New ''port_out'' ''port_out'' [] get_port]
       [Connect [''port_inp''] [''fifo_inp'', ''get_export''],
        Connect [''port_out''] [''fifo_out'', ''get_export'']]"

definition dec_tlu_ctl_BaseEnv :: "cls" where
  "dec_tlu_ctl_BaseEnv = Cls uvm_env []
       [SetAll ''TEST_CLK_PERIOD'' (VInt 1),
        SetAll ''TEST_ITERATIONS'' (VInt 0x1388),
        New ''tl_seqr'' ''tl_seqr'' [] sequencer,
        New ''tl_drv'' ''tl_drv'' [] dec_tlu_ctl_TlDriver,
        New ''inp_mon'' ''inp_mon'' [] dec_tlu_ctl_TlInputMonitor,
        New ''out_mon'' ''out_mon'' [] dec_tlu_ctl_TlOutputMonitor,
        New ''scoreboard'' ''scoreboard'' [] dec_tlu_ctl_TlScoreboard]
       [Connect [''tl_drv'', ''seq_item_port''] [''tl_seqr'', ''seq_item_export''],
        Connect [''inp_mon'', ''ap''] [''scoreboard'', ''fifo_inp'', ''analysis_export''],
        Connect [''out_mon'', ''ap''] [''scoreboard'', ''fifo_out'', ''analysis_export'']]"

definition dec_tlu_ctl_BaseTest :: "cls" where
  "dec_tlu_ctl_BaseTest = Cls uvm_test []
       [New ''env'' ''env'' [] dec_tlu_ctl_BaseEnv]
       []"

definition dec_pmp_ctl_CsrWriteDriver :: "cls" where
  "dec_pmp_ctl_CsrWriteDriver = Cls uvm_driver driver_ports
       []
       []"

definition dec_pmp_ctl_CsrReadDriver :: "cls" where
  "dec_pmp_ctl_CsrReadDriver = Cls uvm_driver driver_ports
       []
       []"

definition dec_pmp_ctl_WriteMonitor :: "cls" where
  "dec_pmp_ctl_WriteMonitor = Cls uvm_component []
       [New ''ap'' ''ap'' [] analysis_port]
       []"

definition dec_pmp_ctl_ReadMonitor :: "cls" where
  "dec_pmp_ctl_ReadMonitor = Cls uvm_component []
       [New ''ap'' ''ap'' [] analysis_port]
       []"

definition dec_pmp_ctl_Scoreboard :: "cls" where
  "dec_pmp_ctl_Scoreboard = Cls uvm_component []
       [New ''fifo_inp'' ''fifo_inp'' [] analysis_fifo,
        New ''fifo_out'' ''fifo_out'' [] analysis_fifo,
        New ''port_inp'' ''port_inp'' [] get_port,
        New ''port_out'' ''port_out'' [] get_port]
       [Connect [''port_inp''] [''fifo_inp'', ''get_export''],
        Connect [''port_out''] [''fifo_out'', ''get_export'']]"

definition dec_pmp_ctl_BaseEnv :: "cls" where
  "dec_pmp_ctl_BaseEnv = Cls uvm_env []
       [SetAll ''TEST_CLK_PERIOD'' (VInt 1),
        SetAll ''TEST_ITERATIONS'' (VInt 0x1388),
        New ''pmp_wr_seqr'' ''pmp_wr_seqr'' [] sequencer,
        New ''pmp_rd_seqr'' ''pmp_rd_seqr'' [] sequencer,
        New ''pmp_wr_drv'' ''pmp_wr_drv'' [] dec_pmp_ctl_CsrWriteDriver,
        New ''pmp_rd_drv'' ''pmp_rd_drv'' [] dec_pmp_ctl_CsrReadDriver,
        New ''wr_mon'' ''wr_mon'' [] dec_pmp_ctl_WriteMonitor,
        New ''rd_mon'' ''rd_mon'' [] dec_pmp_ctl_ReadMonitor,
        New ''scoreboard'' ''scoreboard'' [] dec_pmp_ctl_Scoreboard]
       [Connect [''pmp_wr_drv'', ''seq_item_port''] [''pmp_wr_seqr'', ''seq_item_export''],
        Connect [''pmp_rd_drv'', ''seq_item_port''] [''pmp_rd_seqr'', ''seq_item_export''],
        Connect [''wr_mon'', ''ap''] [''scoreboard'', ''fifo_inp'', ''analysis_export''],
        Connect [''rd_mon'', ''ap''] [''scoreboard'', ''fifo_out'', ''analysis_export'']]"

definition dec_pmp_ctl_BaseTest :: "cls" where
  "dec_pmp_ctl_BaseTest = Cls uvm_test []
       [New ''env'' ''env'' [] dec_pmp_ctl_BaseEnv]
       []"

definition ifu_compress_DecompressorDriver :: "cls" where
  "ifu_compress_DecompressorDriver = Cls uvm_driver driver_ports
       []
       []"

definition ifu_compress_DecompressorMonitor :: "cls" where
  "ifu_compress_DecompressorMonitor = Cls uvm_component []
       [New ''ap'' ''ap'' [] analysis_port]
       []"

definition ifu_compress_Scoreboard :: "cls" where
  "ifu_compress_Scoreboard = Cls uvm_component []
       [New ''fifo'' ''fifo'' [] analysis_fifo,
        New ''port'' ''port'' [] get_port]
       [Connect [''port''] [''fifo'', ''get_export'']]"

definition ifu_compress_BaseEnv :: "cls" where
  "ifu_compress_BaseEnv = Cls uvm_env []
       [SetAll ''TEST_ITERATIONS'' (VInt 0x1F4),
        New ''dcm_seqr'' ''dcm_seqr'' [] sequencer,
        New ''dcm_drv'' ''dcm_drv'' [] ifu_compress_DecompressorDriver,
        New ''dcm_mon'' ''dcm_mon'' [] ifu_compress_DecompressorMonitor,
        New ''scoreboard'' ''scoreboard'' [] ifu_compress_Scoreboard]
       [Connect [''dcm_drv'', ''seq_item_port''] [''dcm_seqr'', ''seq_item_export''],
        Connect [''dcm_mon'', ''ap''] [''scoreboard'', ''fifo'', ''analysis_export'']]"

definition ifu_compress_BaseTest :: "cls" where
  "ifu_compress_BaseTest = Cls uvm_test []
       [New ''env'' ''env'' [] ifu_compress_BaseEnv]
       []"

definition pic_RegisterDriver :: "cls" where
  "pic_RegisterDriver = Cls uvm_driver driver_ports
       []
       []"

definition pic_RegisterMonitor :: "cls" where
  "pic_RegisterMonitor = Cls uvm_component []
       [New ''ap'' ''ap'' [] analysis_port]
       []"

definition pic_PrioDriver :: "cls" where
  "pic_PrioDriver = Cls uvm_driver driver_ports
       []
       []"

definition pic_PrioMonitor :: "cls" where
  "pic_PrioMonitor = Cls uvm_component []
       [New ''ap'' ''ap'' [] analysis_port]
       []"

definition pic_IrqDriver :: "cls" where
  "pic_IrqDriver = Cls uvm_driver driver_ports
       []
       []"

definition pic_IrqMonitor :: "cls" where
  "pic_IrqMonitor = Cls uvm_component []
       [New ''ap'' ''ap'' [] analysis_port]
       []"

definition pic_ClaimMonitor :: "cls" where
  "pic_ClaimMonitor = Cls uvm_component []
       [New ''ap'' ''ap'' [] analysis_port]
       []"

definition pic_BaseEnv :: "cls" where
  "pic_BaseEnv = Cls uvm_env []
       [SetAll ''PIC_NUM_INTERRUPTS'' (VInt 32),
        SetAll ''PIC_NUM_PRIORITIES'' (VInt 15),
        SetAll ''TEST_CLK_PERIOD'' (VInt 1),
        SetAll ''TEST_ITERATIONS'' (VInt 50),
        SetAll ''TEST_IRQ_ENA_PROB'' (VReal (3 / 4)),
        SetAll ''TEST_IRQ_REQ_PROB'' (VReal (9 / 10)),
        New ''reg_seqr'' ''reg_seqr'' [] sequencer,
        New ''pri_seqr'' ''pri_seqr'' [] sequencer,
        New ''irq_seqr'' ''irq_seqr'' [] sequencer,
        New ''reg_drv'' ''reg_drv'' [] pic_RegisterDriver,
        New ''reg_mon'' ''reg_mon'' [] pic_RegisterMonitor,
        New ''pri_drv'' ''pri_drv'' [] pic_PrioDriver,
        New ''pri_mon'' ''pri_mon'' [] pic_PrioMonitor,
        New ''irq_drv'' ''irq_drv'' [] pic_IrqDriver,
        New ''irq_mon'' ''irq_mon'' [] pic_IrqMonitor,
        New ''claim_mon'' ''claim_mon'' [] pic_ClaimMonitor,
        SetAllTo ''REG_SEQR'' [''reg_seqr''],
        SetAllTo ''PRI_SEQR'' [''pri_seqr''],
        SetAllTo ''IRQ_SEQR'' [''irq_seqr'']]
       [Connect [''reg_drv'', ''seq_item_port''] [''reg_seqr'', ''seq_item_export''],
        Connect [''pri_drv'', ''seq_item_port''] [''pri_seqr'', ''seq_item_export''],
        Connect [''irq_drv'', ''seq_item_port''] [''irq_seqr'', ''seq_item_export'']]"

definition pic_BaseTest :: "cls" where
  "pic_BaseTest = Cls uvm_test []
       [New ''env'' ''env'' [] pic_BaseEnv]
       []"

definition dcls_BaseEnv :: "cls" where
  "dcls_BaseEnv = Cls uvm_env []
       [SetAll ''TEST_CLK_PERIOD'' (VInt 1),
        SetAll ''LOCKSTEP_DELAY'' (VInt 3),
        SetAll ''MUBI_WIDTH'' (VInt 4),
        SetAll ''MUBI_TRUE'' (VInt 6),
        SetAll ''MUBI_FALSE'' (VInt 9)]
       []"

definition dcls_BaseTest :: "cls" where
  "dcls_BaseTest = Cls uvm_test []
       [New ''env'' ''env'' [] dcls_BaseEnv]
       []"

definition lib_ahb_to_axi4_AHBLiteManagerBFM :: "cls" where
  "lib_ahb_to_axi4_AHBLiteManagerBFM = Cls uvm_component []
       []
       []"

definition lib_ahb_to_axi4_AXI4LiteSubordinateBFM :: "cls" where
  "lib_ahb_to_axi4_AXI4LiteSubordinateBFM = Cls uvm_component []
       []
       []"

definition lib_ahb_to_axi4_AHBLiteManagerDriver :: "cls" where
  "lib_ahb_to_axi4_AHBLiteManagerDriver = Cls uvm_driver driver_ports
       []
       []"

definition lib_ahb_to_axi4_AXI4LiteSubordinateDriver :: "cls" where
  "lib_ahb_to_axi4_AXI4LiteSubordinateDriver = Cls uvm_driver driver_ports
       []
       []"

definition lib_ahb_to_axi4_AHBLiteMonitor :: "cls" where
  "lib_ahb_to_axi4_AHBLiteMonitor = Cls uvm_component []
       [New ''ap'' ''ap'' [] analysis_port]
       []"

definition axi_Axi4LiteMonitor :: "cls" where
  "axi_Axi4LiteMonitor = Cls uvm_component []
       [New ''ap'' ''ap'' [] analysis_port]
       []"

definition lib_ahb_to_axi4_Scoreboard :: "cls" where
  "lib_ahb_to_axi4_Scoreboard = Cls uvm_component []
       [New ''ahb_fifo'' ''ahb_fifo'' [] analysis_fifo,
        New ''ahb_port'' ''ahb_port'' [] get_port,
        New ''axi_fifo'' ''axi_fifo'' [] analysis_fifo,
        New ''axi_port'' ''axi_port'' [] get_port]
       [Connect [''ahb_port''] [''ahb_fifo'', ''get_export''],
        Connect [''axi_port''] [''axi_fifo'', ''get_export'']]"

definition lib_ahb_to_axi4_BaseEnv :: "cls" where
  "lib_ahb_to_axi4_BaseEnv = Cls uvm_env []
       [SetAll ''TEST_CLK_PERIOD'' (VInt 1),
        SetAll ''TEST_ITERATIONS'' (VInt 50),
        SetAll ''TEST_BURST_LEN'' (VInt 10),
        SetAll ''TEST_BURST_GAP'' (VInt 10),
        New ''ahb_seqr'' ''ahb_seqr'' [] sequencer,
        New ''axi_seqr'' ''axi_seqr'' [] sequencer,
        SetAllTo ''AHB_SEQR'' [''ahb_seqr''],
        SetAllTo ''AXI_SEQR'' [''axi_seqr''],
        New ''ahb_bfm'' ''ahb_bfm'' [] lib_ahb_to_axi4_AHBLiteManagerBFM,
        New ''axi_bfm'' ''axi_bfm'' [] lib_ahb_to_axi4_AXI4LiteSubordinateBFM,
        New ''ahb_drv'' ''ahb_drv'' [(''bfm'', [''ahb_bfm''])] lib_ahb_to_axi4_AHBLiteManagerDriver,
        New ''axi_drv'' ''axi_drv'' [(''bfm'', [''axi_bfm''])] lib_ahb_to_axi4_AXI4LiteSubordinateDriver,
        New ''ahb_mon'' ''ahb_mon'' [(''bfm'', [''ahb_bfm''])] lib_ahb_to_axi4_AHBLiteMonitor,
        New ''axi_mon'' ''axi_mon'' [(''bfm'', [''axi_bfm''])] axi_Axi4LiteMonitor,
        New ''scoreboard'' ''scoreboard'' [] lib_ahb_to_axi4_Scoreboard]
       [Connect [''ahb_drv'', ''seq_item_port''] [''ahb_seqr'', ''seq_item_export''],
        Connect [''axi_drv'', ''seq_item_port''] [''axi_seqr'', ''seq_item_export''],
        Connect [''ahb_mon'', ''ap''] [''scoreboard'', ''ahb_fifo'', ''analysis_export''],
        Connect [''axi_mon'', ''ap''] [''scoreboard'', ''axi_fifo'', ''analysis_export'']]"

definition lib_ahb_to_axi4_BaseTest :: "cls" where
  "lib_ahb_to_axi4_BaseTest = Cls uvm_test []
       [New ''env'' ''env'' [] lib_ahb_to_axi4_BaseEnv]
       []"

definition lib_axi4_to_ahb_AXIWriteChannelMonitor :: "cls" where
  "lib_axi4_to_ahb_AXIWriteChannelMonitor = Cls uvm_component []
       [New ''ap_req'' ''ap_req'' [] analysis_port,
        New ''ap_rsp'' ''ap_rsp'' [] analysis_port]
       []"

definition lib_axi4_to_ahb_AXIWriteChannelDriver :: "cls" where
  "lib_axi4_to_ahb_AXIWriteChannelDriver = Cls uvm_driver driver_ports
       []
       []"

definition lib_axi4_to_ahb_AXIWriteChannelAgent :: "cls" where
  "lib_axi4_to_ahb_AXIWriteChannelAgent = Cls uvm_agent []
       [New ''seqr'' ''seqr'' [] sequencer,
        SetAllTo ''axi_w_seqr'' [''seqr''],
        New ''monitor'' ''axi_w_agent'' [] lib_axi4_to_ahb_AXIWriteChannelMonitor,
        New ''driver'' ''axi_w_driver'' [] lib_axi4_to_ahb_AXIWriteChannelDriver]
       [Connect [''driver'', ''seq_item_port''] [''seqr'', ''seq_item_export'']]"

definition lib_axi4_to_ahb_AXIReadChannelMonitor :: "cls" where
  "lib_axi4_to_ahb_AXIReadChannelMonitor = Cls uvm_component []
       [New ''ap_req'' ''ap_req'' [] analysis_port,
        New ''ap_rsp'' ''ap_rsp'' [] analysis_port]
       []"

definition lib_axi4_to_ahb_AXIReadChannelDriver :: "cls" where
  "lib_axi4_to_ahb_AXIReadChannelDriver = Cls uvm_driver driver_ports
       [New ''ap'' ''ap'' [] analysis_port]
       []"

definition lib_axi4_to_ahb_AXIReadChannelAgent :: "cls" where
  "lib_axi4_to_ahb_AXIReadChannelAgent = Cls uvm_agent []
       [New ''seqr'' ''seqr'' [] sequencer,
        SetAllTo ''axi_r_seqr'' [''seqr''],
        New ''monitor'' ''axi_r_agent'' [] lib_axi4_to_ahb_AXIReadChannelMonitor,
        New ''driver'' ''axi_r_driver'' [] lib_axi4_to_ahb_AXIReadChannelDriver]
       [Connect [''driver'', ''seq_item_port''] [''seqr'', ''seq_item_export'']]"

definition lib_axi4_to_ahb_AHBLiteMonitor :: "cls" where
  "lib_axi4_to_ahb_AHBLiteMonitor = Cls uvm_component []
       [New ''ap_req'' ''ap_req'' [] analysis_port,
        New ''ap_rsp'' ''ap_rsp'' [] analysis_port]
       []"

definition lib_axi4_to_ahb_AHBLiteDriver :: "cls" where
  "lib_axi4_to_ahb_AHBLiteDriver = Cls uvm_driver driver_ports
       [New ''ap'' ''ap'' [] analysis_port]
       []"

definition lib_axi4_to_ahb_AHBLiteAgent :: "cls" where
  "lib_axi4_to_ahb_AHBLiteAgent = Cls uvm_agent []
       [New ''seqr'' ''seqr'' [] sequencer,
        SetAllTo ''ahb_seqr'' [''seqr''],
        New ''monitor'' ''axi_w_agent'' [] lib_axi4_to_ahb_AHBLiteMonitor,
        New ''driver'' ''axi_w_driver'' [] lib_axi4_to_ahb_AHBLiteDriver]
       [Connect [''driver'', ''seq_item_port''] [''seqr'', ''seq_item_export'']]"

definition lib_axi4_to_ahb_Scoreboard :: "cls" where
  "lib_axi4_to_ahb_Scoreboard = Cls uvm_component []
       [New ''axi_w_req_fifo'' ''axi_w_req_fifo'' [] analysis_fifo,
        New ''axi_w_rsp_fifo'' ''axi_w_rsp_fifo'' [] analysis_fifo,
        New ''axi_w_req_get_port'' ''axi_w_req_get_port'' [] get_port,
        New ''axi_w_rsp_get_port'' ''axi_w_rsp_get_port'' [] get_port,
        Alias ''axi_w_req_export'' [''axi_w_req_fifo'', ''analysis_export''],
        Alias ''axi_w_rsp_export'' [''axi_w_rsp_fifo'', ''analysis_export''],
        New ''axi_r_req_fifo'' ''axi_r_req_fifo'' [] analysis_fifo,
        New ''axi_r_rsp_fifo'' ''axi_r_rsp_fifo'' [] analysis_fifo,
        New ''axi_r_req_get_port'' ''axi_r_req_get_port'' [] get_port,
        New ''axi_r_rsp_get_port'' ''axi_r_rsp_get_port'' [] get_port,
        Alias ''axi_r_req_export'' [''axi_r_req_fifo'', ''analysis_export''],
        Alias ''axi_r_rsp_export'' [''axi_r_rsp_fifo'', ''analysis_export''],
        New ''ahb_req_fifo'' ''ahb_req_fifo'' [] analysis_fifo,
        New ''ahb_rsp_fifo'' ''ahb_rsp_fifo'' [] analysis_fifo,
        New ''ahb_req_get_port'' ''ahb_req_get_port'' [] get_port,
        New ''ahb_rsp_get_port'' ''ahb_rsp_get_port'' [] get_port,
        Alias ''ahb_req_export'' [''ahb_req_fifo'', ''analysis_export''],
        Alias ''ahb_rsp_export'' [''ahb_rsp_fifo'', ''analysis_export'']]
       [Connect [''axi_w_req_get_port''] [''axi_w_req_fifo'', ''get_export''],
        Connect [''axi_w_rsp_get_port''] [''axi_w_rsp_fifo'', ''get_export''],
        Connect [''axi_r_req_get_port''] [''axi_r_req_fifo'', ''get_export''],
        Connect [''axi_r_rsp_get_port''] [''axi_r_rsp_fifo'', ''get_export''],
        Connect [''ahb_req_get_port''] [''ahb_req_fifo'', ''get_export''],
        Connect [''ahb_rsp_get_port''] [''ahb_rsp_fifo'', ''get_export'']]"

definition lib_axi4_to_ahb_BaseEnvironment :: "cls" where
  "lib_axi4_to_ahb_BaseEnvironment = Cls uvm_env []
       [SetAll ''TEST_CLK_PERIOD'' (VInt 1),
        SetAll ''AXI_DATA_WIDTH'' (VInt 64),
        SetAll ''DUT_PRTY'' (VObj ''cocotb.top.PRTY.value''),
        SetAll ''DUT_TAG'' (VObj ''cocotb.top.TAG.value''),
        SetAll ''DUT_ID'' (VObj ''cocotb.top.ID.value''),
        SetAll ''NUM_TRANSACTIONS_PER_TEST'' (VInt 32),
        New ''agent_axi_w'' ''axi_w_agent'' [] lib_axi4_to_ahb_AXIWriteChannelAgent,
        New ''agent_axi_r'' ''axi_r_agent'' [] lib_axi4_to_ahb_AXIReadChannelAgent,
        New ''agent_ahb'' ''ahb_lite_agent'' [] lib_axi4_to_ahb_AHBLiteAgent,
        New ''scoreboard'' ''scoreboard'' [] lib_axi4_to_ahb_Scoreboard]
       [Connect [''agent_axi_w'', ''monitor'', ''ap_req''] [''scoreboard'', ''axi_w_req_export''],
        Connect [''agent_axi_w'', ''monitor'', ''ap_rsp''] [''scoreboard'', ''axi_w_rsp_export''],
        Connect [''agent_axi_r'', ''monitor'', ''ap_req''] [''scoreboard'', ''axi_r_req_export''],
        Connect [''agent_axi_r'', ''monitor'', ''ap_rsp''] [''scoreboard'', ''axi_r_rsp_export''],
        Connect [''agent_ahb'', ''monitor'', ''ap_req''] [''scoreboard'', ''ahb_req_export''],
        Connect [''agent_ahb'', ''monitor'', ''ap_rsp''] [''scoreboard'', ''ahb_rsp_export'']]"

definition lib_axi4_to_ahb_BaseTest :: "cls" where
  "lib_axi4_to_ahb_BaseTest = Cls uvm_test []
       [New ''env'' ''env'' [] lib_axi4_to_ahb_BaseEnvironment]
       []"

definition dmi_JTAGMonitor :: "cls" where
  "dmi_JTAGMonitor = Cls uvm_component []
       [New ''ap'' ''ap_mon'' [] analysis_port]
       []"

definition dmi_JTAGDriver :: "cls" where
  "dmi_JTAGDriver = Cls uvm_driver driver_ports
       [New ''ap'' ''ap_drv'' [] analysis_port]
       []"

definition dmi_JTAGAgent :: "cls" where
  "dmi_JTAGAgent = Cls uvm_agent []
       [New ''seqr'' ''seqr'' [] sequencer,
        SetAllTo ''JTAG_SEQR'' [''seqr''],
        New ''monitor'' ''jtag_monitor'' [] dmi_JTAGMonitor,
        New ''driver'' ''jtag_driver'' [] dmi_JTAGDriver]
       [Connect [''driver'', ''seq_item_port''] [''seqr'', ''seq_item_export'']]"

definition dmi_DMIMonitor :: "cls" where
  "dmi_DMIMonitor = Cls uvm_component []
       [New ''ap'' ''ap_mon'' [] analysis_port]
       []"

definition dmi_DMIDriver :: "cls" where
  "dmi_DMIDriver = Cls uvm_driver driver_ports
       [New ''ap'' ''ap_drv'' [] analysis_port]
       []"

definition dmi_DMIAgent :: "cls" where
  "dmi_DMIAgent = Cls uvm_agent []
       [New ''seqr'' ''seqr'' [] sequencer,
        SetAllTo ''DMI_SEQR'' [''seqr''],
        New ''monitor'' ''dmi_monitor'' [] dmi_DMIMonitor,
        New ''driver'' ''dmi_driver'' [] dmi_DMIDriver]
       [Connect [''driver'', ''seq_item_port''] [''seqr'', ''seq_item_export'']]"

definition dmi_Scoreboard :: "cls" where
  "dmi_Scoreboard = Cls uvm_scoreboard []
       [New ''jtag_rsp_fifo'' ''jtag_rsp_fifo'' [] analysis_fifo,
        New ''jtag_rsp_get_port'' ''jtag_rsp_get_port'' [] get_port,
        Alias ''jtag_rsp_export'' [''jtag_rsp_fifo'', ''analysis_export''],
        New ''dmi_rsp_fifo'' ''dmi_rsp_fifo'' [] analysis_fifo,
        New ''dmi_rsp_get_port'' ''dmi_rsp_get_port'' [] get_port,
        Alias ''dmi_rsp_export'' [''dmi_rsp_fifo'', ''analysis_export'']]
       [Connect [''jtag_rsp_get_port''] [''jtag_rsp_fifo'', ''get_export''],
        Connect [''dmi_rsp_get_port''] [''dmi_rsp_fifo'', ''get_export'']]"

definition dmi_BaseEnvironment :: "cls" where
  "dmi_BaseEnvironment = Cls uvm_env []
       [SetAll ''TEST_JTAG_CLK_PERIOD'' (VInt 3),
        SetAll ''TEST_CORE_CLK_PERIOD'' (VInt 1),
        SetAll ''AWIDTH'' (VInt 7),
        New ''jtag_agent'' ''jtag_agent'' [] dmi_JTAGAgent,
        New ''dmi_agent'' ''dmi_agent'' [] dmi_DMIAgent,
        GetAll ''AWIDTH'',
        New ''scoreboard'' ''scoreboard'' [] dmi_Scoreboard,
        SetAll ''JTAG_PREDICTOR'' (VObj ''JTAGPredictor(cocotb.top)'')]
       [Connect [''jtag_agent'', ''monitor'', ''ap''] [''scoreboard'', ''jtag_rsp_export''],
        Connect [''dmi_agent'', ''monitor'', ''ap''] [''scoreboard'', ''dmi_rsp_export'']]"

definition dmi_BaseTest :: "cls" where
  "dmi_BaseTest = Cls uvm_test []
       [New ''env'' ''env'' [] dmi_BaseEnvironment]
       []"

definition irq_Scoreboard :: "cls" where
  "irq_Scoreboard = Cls uvm_component []
       [New ''interrupt_source_fifo'' ''interrupt_source_fifo'' [] analysis_fifo,
        New ''interrupt_source_get_port'' ''interrupt_source_get_port'' [] get_port,
        Alias ''interrupt_source_export'' [''interrupt_source_fifo'', ''analysis_export''],
        New ''trace_interrupt_fifo'' ''trace_interrupt_fifo'' [] analysis_fifo,
        New ''trace_interrupt_get_port'' ''trace_interrupt_get_port'' [] get_port,
        Alias ''trace_interrupt_export'' [''trace_interrupt_fifo'', ''analysis_export'']]
       [Connect [''interrupt_source_get_port''] [''interrupt_source_fifo'', ''get_export''],
        Connect [''trace_interrupt_get_port''] [''trace_interrupt_fifo'', ''get_export'']]"

definition irq_IrqMonitor :: "cls" where
  "irq_IrqMonitor = Cls uvm_monitor []
       [New ''ap'' ''ap'' [] analysis_port]
       []"

definition irq_IrqDriver :: "cls" where
  "irq_IrqDriver = Cls uvm_driver driver_ports
       [New ''ap'' ''ap'' [] analysis_port]
       []"

definition irq_IrqAgent :: "cls" where
  "irq_IrqAgent = Cls uvm_agent []
       [New ''seqr'' ''seqr'' [] sequencer,
        SetAllTo ''SEQR'' [''seqr''],
        New ''monitor'' ''int_monitor'' [] irq_IrqMonitor,
        New ''driver'' ''int_driver'' [] irq_IrqDriver]
       [Connect [''driver'', ''seq_item_port''] [''seqr'', ''seq_item_export'']]"

definition irq_VeerEl2Env :: "cls" where
  "irq_VeerEl2Env = Cls uvm_env []
       [New ''scoreboard'' ''scoreboard'' [] irq_Scoreboard,
        New ''agent'' ''agent'' [] irq_IrqAgent]
       [Connect [''agent'', ''monitor'', ''ap''] [''scoreboard'', ''interrupt_source_export''],
        Connect [''agent'', ''driver'', ''ap''] [''scoreboard'', ''trace_interrupt_export'']]"

definition irq_BaseTest :: "cls" where
  "irq_BaseTest = Cls uvm_test []
       [New ''env'' ''env'' [] irq_VeerEl2Env]
       []"

definition dma_Axi4LiteBFM :: "cls" where
  "dma_Axi4LiteBFM = Cls uvm_component []
       [GetSelf ''MEM_BUSY_TIMEOUT'']
       []"

definition dma_Axi4LiteSubordinateDriver :: "cls" where
  "dma_Axi4LiteSubordinateDriver = Cls uvm_driver driver_ports
       []
       []"

definition dma_DebugInterfaceBFM :: "cls" where
  "dma_DebugInterfaceBFM = Cls uvm_component []
       [GetSelf ''DBG_BUSY_PROB'',
        GetSelf ''DBG_BUSY_MIN'',
        GetSelf ''DBG_BUSY_MAX'',
        GetSelf ''DBG_BUSY_TIMEOUT'']
       []"

definition dma_DebugInterfaceDriver :: "cls" where
  "dma_DebugInterfaceDriver = Cls uvm_driver driver_ports
       []
       []"

definition dma_DebugInterfaceMonitor :: "cls" where
  "dma_DebugInterfaceMonitor = Cls uvm_component []
       [New ''ap'' ''ap'' [] analysis_port]
       []"

definition dma_CoreMemoryBFM :: "cls" where
  "dma_CoreMemoryBFM = Cls uvm_component []
       [GetAll ''ICCM_BASE'',
        GetAll ''DCCM_BASE'',
        GetAll ''ICCM_SIZE'',
        GetAll ''DCCM_SIZE'',
        GetSelf ''ICCM_BUSY_PROB'',
        GetSelf ''DCCM_BUSY_PROB'',
        GetSelf ''MEM_BUSY_MIN'',
        GetSelf ''MEM_BUSY_MAX'',
        GetSelf ''ECC_ERROR_RATE'']
       []"

definition dma_CoreMemoryMonitor :: "cls" where
  "dma_CoreMemoryMonitor = Cls uvm_component [GetAll ''ICCM_BASE'', GetAll ''DCCM_BASE'']
       [New ''ap'' ''ap'' [] analysis_port]
       []"

definition dma_BaseEnv :: "(real \<Rightarrow> nat) \<Rightarrow> cls" where
  "dma_BaseEnv trials = Cls uvm_env []
       [SetAll ''TEST_CLK_PERIOD'' (VInt 1),
        SetAll ''TEST_ITERATIONS'' (VInt 10),
        SetAll ''TEST_BURST_LEN'' (VInt 10),
        SetAll ''TEST_BURST_GAP'' (VInt 10),
        SetAll ''ICCM_BASE'' (VInt 0xEE000000),
        SetAll ''DCCM_BASE'' (VInt 0xF0040000),
        SetAll ''PIC_BASE'' (VInt 0xF00C0000),
        SetAll ''ICCM_SIZE'' (VInt 0x10000),
        SetAll ''DCCM_SIZE'' (VInt 0x10000),
        SetAll ''PIC_SIZE'' (VInt 0x8000),
        SetAll ''ADDR_ALIGN'' (VObj ''len(cocotb.top.dma_axi_wdata) // 8''),
        New ''axi_seqr'' ''axi_seqr'' [] sequencer,
        New ''dbg_seqr'' ''dbg_seqr'' [] sequencer,
        New ''axi_bfm'' ''axi_bfm'' [] dma_Axi4LiteBFM,
        New ''axi_drv'' ''axi_drv'' [(''bfm'', [''axi_bfm''])] dma_Axi4LiteSubordinateDriver,
        New ''axi_mon'' ''axi_mon'' [(''bfm'', [''axi_bfm''])] axi_Axi4LiteMonitor,
        New ''dbg_bfm'' ''dbg_bfm'' [] dma_DebugInterfaceBFM,
        New ''dbg_drv'' ''dbg_drv'' [(''bfm'', [''dbg_bfm''])] dma_DebugInterfaceDriver,
        New ''dbg_mon'' ''dbg_mon'' [(''bfm'', [''dbg_bfm''])] dma_DebugInterfaceMonitor,
        New ''mem_bfm'' ''mem_bfm'' [] dma_CoreMemoryBFM,
        New ''mem_mon'' ''mem_mon'' [(''bfm'', [''mem_bfm''])] dma_CoreMemoryMonitor,
        SetAt [''mem_bfm''] ''ICCM_BUSY_PROB'' (VReal (1 / 20)),
        SetAt [''mem_bfm''] ''DCCM_BUSY_PROB'' (VReal (1 / 20)),
        SetAt [''mem_bfm''] ''MEM_BUSY_MIN'' (VInt 10),
        SetAt [''mem_bfm''] ''MEM_BUSY_MAX'' (VInt 25),
        SetAt [''mem_bfm''] ''ECC_ERROR_RATE'' (VReal 0),
        SetAt [''dbg_bfm''] ''DBG_BUSY_PROB'' (VReal (1 / 20)),
        SetAt [''dbg_bfm''] ''DBG_BUSY_MIN'' (VInt 10),
        SetAt [''dbg_bfm''] ''DBG_BUSY_MAX'' (VInt 25),
        SetFrom [''dbg_bfm''] ''DBG_BUSY_TIMEOUT''
          [([''dbg_bfm''], ''DBG_BUSY_PROB''), ([''dbg_bfm''], ''DBG_BUSY_MAX''), ([''mem_bfm''], ''DCCM_BUSY_PROB''), ([''mem_bfm''], ''ICCM_BUSY_PROB''), ([''mem_bfm''], ''MEM_BUSY_MAX'')]
          (dbg_trials trials),
        SetFrom [''axi_bfm''] ''MEM_BUSY_TIMEOUT''
          [([''dbg_bfm''], ''DBG_BUSY_PROB''), ([''mem_bfm''], ''DCCM_BUSY_PROB''), ([''mem_bfm''], ''ICCM_BUSY_PROB''), ([''mem_bfm''], ''MEM_BUSY_MAX'')]
          (mem_trials trials)]
       [Connect [''axi_drv'', ''seq_item_port''] [''axi_seqr'', ''seq_item_export''],
        Connect [''dbg_drv'', ''seq_item_port''] [''dbg_seqr'', ''seq_item_export'']]"

definition dma_BaseTest :: "(real \<Rightarrow> nat) \<Rightarrow> cls" where
  "dma_BaseTest trials = Cls uvm_test []
       [New ''env'' ''env'' [] (dma_BaseEnv trials)]
       []"

definition dma_AccessScoreboard :: "cls" where
  "dma_AccessScoreboard = Cls uvm_component []
       [New ''fifo'' ''fifo'' [] analysis_fifo,
        New ''port'' ''port'' [] get_port]
       [Connect [''port''] [''fifo'', ''get_export'']]"

definition dma_test_address_TestEnv :: "(real \<Rightarrow> nat) \<Rightarrow> cls" where
  "dma_test_address_TestEnv trials = (case dma_BaseEnv trials of Cls b ini bld con \<Rightarrow> Cls b ini
       (bld @ [New ''scoreboard'' ''scoreboard'' [] dma_AccessScoreboard])
       (con @ [Connect [''axi_mon'', ''ap''] [''scoreboard'', ''fifo'', ''analysis_export''],
        Connect [''mem_mon'', ''ap''] [''scoreboard'', ''fifo'', ''analysis_export'']]))"

definition dma_test_address_TestAddressOutOfRange :: "(real \<Rightarrow> nat) \<Rightarrow> cls" where
  "dma_test_address_TestAddressOutOfRange trials = Cls uvm_test [] [New ''env'' ''env'' [] (dma_test_address_TestEnv trials)] []"

definition dma_ReadScoreboard :: "cls" where
  "dma_ReadScoreboard = Cls uvm_component ([GetAll ''ICCM_BASE'', GetAll ''ICCM_SIZE'', GetAll ''DCCM_BASE'', GetAll ''DCCM_SIZE''])
       [New ''fifo'' ''fifo'' [] analysis_fifo,
        New ''port'' ''port'' [] get_port]
       [Connect [''port''] [''fifo'', ''get_export'']]"

definition dma_test_read_TestEnv :: "(real \<Rightarrow> nat) \<Rightarrow> cls" where
  "dma_test_read_TestEnv trials = (case dma_BaseEnv trials of Cls b ini bld con \<Rightarrow> Cls b ini
       (bld @ [New ''scoreboard'' ''scoreboard'' [] dma_ReadScoreboard])
       (con @ [Connect [''axi_mon'', ''ap''] [''scoreboard'', ''fifo'', ''analysis_export''],
        Connect [''mem_mon'', ''ap''] [''scoreboard'', ''fifo'', ''analysis_export'']]))"

definition dma_test_read_TestDCCMRead :: "(real \<Rightarrow> nat) \<Rightarrow> cls" where
  "dma_test_read_TestDCCMRead trials = Cls uvm_test [] [New ''env'' ''env'' [] (dma_test_read_TestEnv trials)] []"

definition dma_WriteScoreboard :: "cls" where
  "dma_WriteScoreboard = Cls uvm_component ([GetAll ''ICCM_BASE'', GetAll ''ICCM_SIZE'', GetAll ''DCCM_BASE'', GetAll ''DCCM_SIZE''])
       [New ''fifo'' ''fifo'' [] analysis_fifo,
        New ''port'' ''port'' [] get_port]
       [Connect [''port''] [''fifo'', ''get_export'']]"

definition dma_test_debug_write_TestEnv :: "(real \<Rightarrow> nat) \<Rightarrow> cls" where
  "dma_test_debug_write_TestEnv trials = (case dma_BaseEnv trials of Cls b ini bld con \<Rightarrow> Cls b ini
       (bld @ [New ''scoreboard'' ''scoreboard'' [] dma_WriteScoreboard])
       (con @ [Connect [''dbg_mon'', ''ap''] [''scoreboard'', ''fifo'', ''analysis_export''],
        Connect [''mem_mon'', ''ap''] [''scoreboard'', ''fifo'', ''analysis_export'']]))"

definition dma_test_debug_write_TestDCCMWrite :: "(real \<Rightarrow> nat) \<Rightarrow> cls" where
  "dma_test_debug_write_TestDCCMWrite trials = Cls uvm_test [] [New ''env'' ''env'' [] (dma_test_debug_write_TestEnv trials)] []"

subsection \<open>Signals\<close>

text \<open>
  \<open>collect_signals\<close>: the attributes it sets, with the handle of the design's signal or \<open>None\<close> when there is no such signal (an error is logged). The copies in other
  files have no prefixes and no map.
\<close>

definition collect_signals :: "string list \<Rightarrow> (string \<Rightarrow> 'h option) \<Rightarrow> string \<Rightarrow> string \<Rightarrow> (string \<times> string) list \<Rightarrow> (string \<times> 'h option) list" where
  "collect_signals signals uut uut_prefix obj_prefix signal_map =
     map (\<lambda>sig. (obj_prefix @ sig, uut (case map_of signal_map sig of Some s \<Rightarrow> s | None \<Rightarrow> uut_prefix @ sig))) signals"

definition pic_RegisterBfm_SIGNALS :: "string list" where
  "pic_RegisterBfm_SIGNALS =
     [''picm_rden'', ''picm_rdaddr'', ''picm_rd_data'', ''picm_wren'', ''picm_wraddr'', ''picm_wr_data'', ''picm_mken'']"

definition pic_RegisterBfm_handles :: "(string \<Rightarrow> 'h option) \<Rightarrow> (string \<times> 'h option) list" where
  "pic_RegisterBfm_handles uut = collect_signals pic_RegisterBfm_SIGNALS uut [] [] []"

definition pic_PrioDriver_SIGNALS :: "string list" where
  "pic_PrioDriver_SIGNALS =
     [''meicurpl'', ''meipt'']"

definition pic_PrioDriver_handles :: "(string \<Rightarrow> 'h option) \<Rightarrow> (string \<times> 'h option) list" where
  "pic_PrioDriver_handles uut = collect_signals pic_PrioDriver_SIGNALS uut [] [] []"

definition pic_PrioMonitor_SIGNALS :: "string list" where
  "pic_PrioMonitor_SIGNALS =
     [''clk'', ''meicurpl'', ''meipt'']"

definition pic_PrioMonitor_handles :: "(string \<Rightarrow> 'h option) \<Rightarrow> (string \<times> 'h option) list" where
  "pic_PrioMonitor_handles uut = collect_signals pic_PrioMonitor_SIGNALS uut [] [] []"

definition pic_IrqDriver_SIGNALS :: "string list" where
  "pic_IrqDriver_SIGNALS =
     [''extintsrc_req'']"

definition pic_IrqDriver_handles :: "(string \<Rightarrow> 'h option) \<Rightarrow> (string \<times> 'h option) list" where
  "pic_IrqDriver_handles uut = collect_signals pic_IrqDriver_SIGNALS uut [] [] []"

definition pic_IrqMonitor_SIGNALS :: "string list" where
  "pic_IrqMonitor_SIGNALS =
     [''clk'', ''extintsrc_req'']"

definition pic_IrqMonitor_handles :: "(string \<Rightarrow> 'h option) \<Rightarrow> (string \<times> 'h option) list" where
  "pic_IrqMonitor_handles uut = collect_signals pic_IrqMonitor_SIGNALS uut [] [] []"

definition pic_ClaimMonitor_SIGNALS :: "string list" where
  "pic_ClaimMonitor_SIGNALS =
     [''clk'', ''extintsrc_req'', ''picm_wren'', ''claimid'', ''pl'', ''mexintpend'', ''mhwakeup'']"

definition pic_ClaimMonitor_handles :: "(string \<Rightarrow> 'h option) \<Rightarrow> (string \<times> 'h option) list" where
  "pic_ClaimMonitor_handles uut = collect_signals pic_ClaimMonitor_SIGNALS uut [] [] []"

definition pmp_PMPDriver_SIGNALS :: "string list" where
  "pmp_PMPDriver_SIGNALS =
     [''clk'', ''pmp_pmpcfg'', ''pmp_pmpaddr'', ''pmp_chan_addr'', ''pmp_chan_type'']"

definition pmp_PMPDriver_handles :: "(string \<Rightarrow> 'h option) \<Rightarrow> (string \<times> 'h option) list" where
  "pmp_PMPDriver_handles uut = collect_signals pmp_PMPDriver_SIGNALS uut [] [] []"

definition pmp_PMPMonitor_SIGNALS :: "string list" where
  "pmp_PMPMonitor_SIGNALS =
     [''clk'', ''pmp_pmpcfg'', ''pmp_pmpaddr'', ''pmp_chan_addr'', ''pmp_chan_type'', ''pmp_chan_err'']"

definition pmp_PMPMonitor_handles :: "(string \<Rightarrow> 'h option) \<Rightarrow> (string \<times> 'h option) list" where
  "pmp_PMPMonitor_handles uut = collect_signals pmp_PMPMonitor_SIGNALS uut [] [] []"

definition ifu_compress_DecompressorDriver_SIGNALS :: "string list" where
  "ifu_compress_DecompressorDriver_SIGNALS =
     [''din'', ''dout'']"

definition ifu_compress_DecompressorDriver_handles :: "(string \<Rightarrow> 'h option) \<Rightarrow> (string \<times> 'h option) list" where
  "ifu_compress_DecompressorDriver_handles uut = collect_signals ifu_compress_DecompressorDriver_SIGNALS uut [] [] []"

definition ifu_compress_DecompressorMonitor_SIGNALS :: "string list" where
  "ifu_compress_DecompressorMonitor_SIGNALS =
     [''din'', ''dout'']"

definition ifu_compress_DecompressorMonitor_handles :: "(string \<Rightarrow> 'h option) \<Rightarrow> (string \<times> 'h option) list" where
  "ifu_compress_DecompressorMonitor_handles uut = collect_signals ifu_compress_DecompressorMonitor_SIGNALS uut [] [] []"

definition dma_CoreMemoryBFM_SIGNALS :: "string list" where
  "dma_CoreMemoryBFM_SIGNALS =
     [''clk'', ''dma_dccm_req'', ''dma_iccm_req'', ''dma_mem_tag'', ''dma_mem_addr'', ''dma_mem_sz'', ''dma_mem_write'', ''dma_mem_wdata'',
      ''dccm_dma_rvalid'', ''dccm_dma_ecc_error'', ''dccm_dma_rtag'', ''dccm_dma_rdata'', ''iccm_dma_rvalid'', ''iccm_dma_ecc_error'',
      ''iccm_dma_rtag'', ''iccm_dma_rdata'', ''dccm_ready'', ''iccm_ready'']"

definition dma_CoreMemoryBFM_handles :: "(string \<Rightarrow> 'h option) \<Rightarrow> (string \<times> 'h option) list" where
  "dma_CoreMemoryBFM_handles uut = collect_signals dma_CoreMemoryBFM_SIGNALS uut [] [] []"

definition dma_Axi4LiteBFM_SIGNALS :: "string list" where
  "dma_Axi4LiteBFM_SIGNALS =
     [''clk'', ''rst'', ''awvalid'', ''awready'', ''awid'', ''awaddr'', ''awsize'', ''wvalid'', ''wready'', ''wdata'', ''wstrb'',
      ''bvalid'', ''bready'', ''bresp'', ''bid'', ''arvalid'', ''arready'', ''arid'', ''araddr'', ''arsize'', ''rvalid'', ''rready'',
      ''rid'', ''rdata'', ''rresp'', ''rlast'']"

definition dma_Axi4LiteBFM_handles :: "(string \<Rightarrow> 'h option) \<Rightarrow> (string \<times> string) list \<Rightarrow> (string \<times> 'h option) list" where
  "dma_Axi4LiteBFM_handles uut signal_map = collect_signals dma_Axi4LiteBFM_SIGNALS uut ''dma_axi_'' ''axi_'' signal_map"

definition dma_DebugInterfaceBFM_SIGNALS :: "string list" where
  "dma_DebugInterfaceBFM_SIGNALS =
     [''clk'', ''dbg_cmd_addr'', ''dbg_cmd_wrdata'', ''dbg_cmd_valid'', ''dbg_cmd_write'', ''dbg_cmd_type'', ''dbg_cmd_size'',
      ''dbg_dma_bubble'', ''dma_dbg_ready'', ''dma_dbg_cmd_done'', ''dma_dbg_cmd_fail'', ''dma_dbg_rddata'']"

definition dma_DebugInterfaceBFM_handles :: "(string \<Rightarrow> 'h option) \<Rightarrow> (string \<times> 'h option) list" where
  "dma_DebugInterfaceBFM_handles uut = collect_signals dma_DebugInterfaceBFM_SIGNALS uut [] [] []"

definition lib_ahb_to_axi4_AHBLiteManagerBFM_SIGNALS :: "string list" where
  "lib_ahb_to_axi4_AHBLiteManagerBFM_SIGNALS =
     [''hclk'', ''hreset'', ''haddr'', ''hburst'', ''hmastlock'', ''hprot'', ''hsize'', ''htrans'', ''hwrite'', ''hwdata'', ''hsel'',
      ''hrdata'', ''hreadyout'', ''hresp'']"

definition lib_ahb_to_axi4_AHBLiteManagerBFM_handles :: "(string \<Rightarrow> 'h option) \<Rightarrow> string \<Rightarrow> (string \<times> string) list \<Rightarrow> (string \<times> 'h option) list" where
  "lib_ahb_to_axi4_AHBLiteManagerBFM_handles uut signal_prefix signal_map = collect_signals lib_ahb_to_axi4_AHBLiteManagerBFM_SIGNALS uut signal_prefix ''ahb_'' signal_map"

definition lib_ahb_to_axi4_AXI4LiteSubordinateBFM_SIGNALS :: "string list" where
  "lib_ahb_to_axi4_AXI4LiteSubordinateBFM_SIGNALS =
     [''clk'', ''rst'', ''awvalid'', ''awready'', ''awid'', ''awaddr'', ''awsize'', ''wvalid'', ''wready'', ''wdata'', ''wstrb'',
      ''bvalid'', ''bready'', ''bresp'', ''bid'', ''arvalid'', ''arready'', ''arid'', ''araddr'', ''arsize'', ''rvalid'', ''rready'',
      ''rid'', ''rdata'', ''rresp'']"

definition lib_ahb_to_axi4_AXI4LiteSubordinateBFM_handles :: "(string \<Rightarrow> 'h option) \<Rightarrow> string \<Rightarrow> (string \<times> string) list \<Rightarrow> (string \<times> 'h option) list" where
  "lib_ahb_to_axi4_AXI4LiteSubordinateBFM_handles uut signal_prefix signal_map = collect_signals lib_ahb_to_axi4_AXI4LiteSubordinateBFM_SIGNALS uut signal_prefix ''axi_'' signal_map"

text \<open>The widths of the bus, with the handle standing for its width: \<open>len\<close> of a missing signal raises a type error.\<close>

definition width_of :: "(string \<times> nat option) list \<Rightarrow> string \<Rightarrow> nat py" where
  "width_of hs x = (case map_of hs x of Some (Some n) \<Rightarrow> Inr n | Some None \<Rightarrow> Inl TypeError | None \<Rightarrow> Inl AttributeError)"

definition axi_widths :: "(string \<times> nat option) list \<Rightarrow> (nat \<times> nat \<times> nat) py" where
  "axi_widths hs = bind_py (width_of hs ''axi_awaddr'') (\<lambda>awidth. bind_py (width_of hs ''axi_wdata'') (\<lambda>dwidth. bind_py (width_of hs ''axi_wstrb'') (\<lambda>swidth.
     if swidth = dwidth div 8 then Inr (awidth, dwidth, swidth) else Inl AssertionError)))"

subsection \<open>The benches\<close>

text \<open>The routes that the scoreboards rely on: which monitors each port of a scoreboard is meant to get its items from.\<close>

definition env_path :: path where "env_path = [''env'']"

definition in_out_routes :: "(path list \<times> path) list" where
  "in_out_routes = [([''ap'' # ''inp_mon'' # env_path], ''port_inp'' # ''scoreboard'' # env_path), ([''ap'' # ''out_mon'' # env_path], ''port_out'' # ''scoreboard'' # env_path)]"

definition exu_alu_routes :: "(path list \<times> path) list" where
  "exu_alu_routes =
    in_out_routes"

definition exu_mul_routes :: "(path list \<times> path) list" where
  "exu_mul_routes =
    in_out_routes"

definition exu_div_routes :: "(path list \<times> path) list" where
  "exu_div_routes =
    in_out_routes"

definition dec_tl_routes :: "(path list \<times> path) list" where
  "dec_tl_routes =
    in_out_routes"

definition lsu_tl_routes :: "(path list \<times> path) list" where
  "lsu_tl_routes =
    in_out_routes"

definition dec_ib_routes :: "(path list \<times> path) list" where
  "dec_ib_routes =
    in_out_routes"

definition dccm_routes :: "(path list \<times> path) list" where
  "dccm_routes =
    [([''ap'' # ''mem_mon'' # env_path], ''port'' # ''scoreboard'' # env_path)]"

definition iccm_routes :: "(path list \<times> path) list" where
  "iccm_routes =
    [([''ap'' # ''mem_mon'' # env_path], ''port'' # ''scoreboard'' # env_path)]"

definition pmp_routes :: "(path list \<times> path) list" where
  "pmp_routes =
    [([''ap'' # ''pmp_mon'' # env_path], ''port'' # ''scoreboard'' # env_path)]"

definition pmp_random_routes :: "(path list \<times> path) list" where
  "pmp_random_routes =
    [([''ap'' # ''wr_mon'' # env_path], ''port_inp'' # ''scoreboard'' # env_path), ([''ap'' # ''rd_mon'' # env_path], ''port_out'' # ''scoreboard'' # env_path)]"

definition dec_routes :: "(path list \<times> path) list" where
  "dec_routes =
    in_out_routes"

definition dec_tlu_ctl_routes :: "(path list \<times> path) list" where
  "dec_tlu_ctl_routes =
    in_out_routes"

definition dec_pmp_ctl_routes :: "(path list \<times> path) list" where
  "dec_pmp_ctl_routes =
    [([''ap'' # ''wr_mon'' # env_path], ''port_inp'' # ''scoreboard'' # env_path), ([''ap'' # ''rd_mon'' # env_path], ''port_out'' # ''scoreboard'' # env_path)]"

definition ifu_compress_routes :: "(path list \<times> path) list" where
  "ifu_compress_routes =
    [([''ap'' # ''dcm_mon'' # env_path], ''port'' # ''scoreboard'' # env_path)]"

definition pic_routes :: "(path list \<times> path) list" where
  "pic_routes =
    []"

definition dcls_routes :: "(path list \<times> path) list" where
  "dcls_routes =
    []"

definition lib_ahb_to_axi4_routes :: "(path list \<times> path) list" where
  "lib_ahb_to_axi4_routes =
    [([''ap'' # ''ahb_mon'' # env_path], ''ahb_port'' # ''scoreboard'' # env_path), ([''ap'' # ''axi_mon'' # env_path], ''axi_port'' # ''scoreboard'' # env_path)]"

definition dmi_routes :: "(path list \<times> path) list" where
  "dmi_routes =
    [([''ap_mon'' # ''jtag_monitor'' # ''jtag_agent'' # env_path], ''jtag_rsp_get_port'' # ''scoreboard'' # env_path),
     ([''ap_mon'' # ''dmi_monitor'' # ''dmi_agent'' # env_path], ''dmi_rsp_get_port'' # ''scoreboard'' # env_path)]"

definition irq_routes :: "(path list \<times> path) list" where
  "irq_routes =
    [([''ap'' # ''int_monitor'' # ''agent'' # env_path], ''interrupt_source_get_port'' # ''scoreboard'' # env_path),
     ([''ap'' # ''int_driver'' # ''agent'' # env_path], ''trace_interrupt_get_port'' # ''scoreboard'' # env_path)]"

definition dma_routes :: "(path list \<times> path) list" where
  "dma_routes =
    []"

definition dma_test_address_routes :: "(path list \<times> path) list" where
  "dma_test_address_routes =
    [([''ap'' # ''axi_mon'' # env_path, ''ap'' # ''mem_mon'' # env_path], ''port'' # ''scoreboard'' # env_path)]"

definition dma_test_read_routes :: "(path list \<times> path) list" where
  "dma_test_read_routes =
    [([''ap'' # ''axi_mon'' # env_path, ''ap'' # ''mem_mon'' # env_path], ''port'' # ''scoreboard'' # env_path)]"

definition dma_test_debug_write_routes :: "(path list \<times> path) list" where
  "dma_test_debug_write_routes =
    [([''ap'' # ''dbg_mon'' # env_path, ''ap'' # ''mem_mon'' # env_path], ''port'' # ''scoreboard'' # env_path)]"

definition benches :: "(real \<Rightarrow> nat) \<Rightarrow> (string \<times> cls \<times> (path list \<times> path) list) list" where
  "benches trials =
     [(''exu_alu'', exu_alu_BaseTest, exu_alu_routes),
      (''exu_mul'', exu_mul_BaseTest, exu_mul_routes),
      (''exu_div'', exu_div_BaseTest, exu_div_routes),
      (''dec_tl'', dec_tl_BaseTest, dec_tl_routes),
      (''lsu_tl'', lsu_tl_BaseTest, lsu_tl_routes),
      (''dec_ib'', dec_ib_BaseTest, dec_ib_routes),
      (''dccm'', dccm_BaseTest, dccm_routes),
      (''iccm'', iccm_BaseTest, iccm_routes),
      (''pmp'', pmp_BaseTest, pmp_routes),
      (''pmp_random'', pmp_random_BaseTest, pmp_random_routes),
      (''dec'', dec_BaseTest, dec_routes),
      (''dec_tlu_ctl'', dec_tlu_ctl_BaseTest, dec_tlu_ctl_routes),
      (''dec_pmp_ctl'', dec_pmp_ctl_BaseTest, dec_pmp_ctl_routes),
      (''ifu_compress'', ifu_compress_BaseTest, ifu_compress_routes),
      (''pic'', pic_BaseTest, pic_routes),
      (''dcls'', dcls_BaseTest, dcls_routes),
      (''lib_ahb_to_axi4'', lib_ahb_to_axi4_BaseTest, lib_ahb_to_axi4_routes),
      (''dmi'', dmi_BaseTest, dmi_routes),
      (''irq'', irq_BaseTest, irq_routes),
      (''dma'', dma_BaseTest trials, dma_routes),
      (''dma_test_address'', dma_test_address_TestAddressOutOfRange trials, dma_test_address_routes),
      (''dma_test_read'', dma_test_read_TestDCCMRead trials, dma_test_read_routes),
      (''dma_test_debug_write'', dma_test_debug_write_TestDCCMWrite trials, dma_test_debug_write_routes)]"

section \<open>Each bench\<close>

lemma exu_alu_ok: "bench_ok exu_alu_BaseTest exu_alu_routes"
  by code_simp

lemma exu_mul_ok: "bench_ok exu_mul_BaseTest exu_mul_routes"
  by code_simp

lemma exu_div_ok: "bench_ok exu_div_BaseTest exu_div_routes"
  by code_simp

lemma dec_tl_ok: "bench_ok dec_tl_BaseTest dec_tl_routes"
  by code_simp

lemma lsu_tl_ok: "bench_ok lsu_tl_BaseTest lsu_tl_routes"
  by code_simp

lemma dec_ib_ok: "bench_ok dec_ib_BaseTest dec_ib_routes"
  by code_simp

lemma dccm_ok: "bench_ok dccm_BaseTest dccm_routes"
  by code_simp

lemma iccm_ok: "bench_ok iccm_BaseTest iccm_routes"
  by code_simp

lemma pmp_ok: "bench_ok pmp_BaseTest pmp_routes"
  by code_simp

lemma pmp_random_ok: "bench_ok pmp_random_BaseTest pmp_random_routes"
  by code_simp

lemma dec_ok: "bench_ok dec_BaseTest dec_routes"
  by code_simp

lemma dec_tlu_ctl_ok: "bench_ok dec_tlu_ctl_BaseTest dec_tlu_ctl_routes"
  by code_simp

lemma dec_pmp_ctl_ok: "bench_ok dec_pmp_ctl_BaseTest dec_pmp_ctl_routes"
  by code_simp

lemma ifu_compress_ok: "bench_ok ifu_compress_BaseTest ifu_compress_routes"
  by code_simp

lemma pic_ok: "bench_ok pic_BaseTest pic_routes"
  by code_simp

lemma dcls_ok: "bench_ok dcls_BaseTest dcls_routes"
  by code_simp

lemma lib_ahb_to_axi4_ok: "bench_ok lib_ahb_to_axi4_BaseTest lib_ahb_to_axi4_routes"
  by code_simp

lemma dmi_ok: "bench_ok dmi_BaseTest dmi_routes"
  by code_simp

lemma irq_ok: "bench_ok irq_BaseTest irq_routes"
  by code_simp

lemma dma_ok: "bench_ok (dma_BaseTest trials) dma_routes"
  by code_simp

lemma dma_test_address_ok: "bench_ok (dma_test_address_TestAddressOutOfRange trials) dma_test_address_routes"
  by code_simp

lemma dma_test_read_ok: "bench_ok (dma_test_read_TestDCCMRead trials) dma_test_read_routes"
  by code_simp

lemma dma_test_debug_write_ok: "bench_ok (dma_test_debug_write_TestDCCMWrite trials) dma_test_debug_write_routes"
  by code_simp

lemma benches_ok: "(name, c, routes) \<in> set (benches trials) \<Longrightarrow> bench_ok c routes"
  by (simp only: benches_def list.set insert_iff empty_iff prod.inject simp_thms)
    (elim disjE conjE; simp only: exu_alu_ok exu_mul_ok exu_div_ok dec_tl_ok lsu_tl_ok dec_ib_ok dccm_ok iccm_ok pmp_ok pmp_random_ok dec_ok dec_tlu_ctl_ok dec_pmp_ctl_ok ifu_compress_ok pic_ok dcls_ok lib_ahb_to_axi4_ok dmi_ok irq_ok dma_ok dma_test_address_ok dma_test_read_ok dma_test_debug_write_ok)

text \<open>The time-outs, as they are read by the functional models.\<close>

definition read_values :: "log \<Rightarrow> path \<Rightarrow> string \<Rightarrow> val list" where
  "read_values l p k = concat (map (\<lambda>e. case e of Read q k' v \<Rightarrow> if k' = k \<and> q = p then [v] else [] | _ \<Rightarrow> []) l)"

lemma in_read_values: "v \<in> set (read_values l p k) \<longleftrightarrow> Read p k v \<in> set l"
  by (induction l) (auto simp: read_values_def split: event.splits)

lemma dma_dbg_read:
  "case ref_build [] [] (dma_BaseTest trials) of Inl e \<Rightarrow> False
   | Inr R \<Rightarrow> read_values R (''dbg_bfm'' # env_path) ''DBG_BUSY_TIMEOUT'' = [VInt (int (trials (19 / 400)) * 25)]"
  by code_simp (simp add: of_rat_divide)

lemma dma_mem_read:
  "case ref_build [] [] (dma_BaseTest trials) of Inl e \<Rightarrow> False
   | Inr R \<Rightarrow> read_values R (''axi_bfm'' # env_path) ''MEM_BUSY_TIMEOUT'' = [VInt (int (trials (19 / 400)) * 25)]"
  by code_simp (simp add: of_rat_divide)

lemma collect_signals_found:
  assumes "sig \<in> set signals" "distinct signals" "map_of signal_map sig = r"
  shows "map_of (collect_signals signals uut uut_prefix obj_prefix signal_map) (obj_prefix @ sig) = Some (uut (case r of Some s \<Rightarrow> s | None \<Rightarrow> uut_prefix @ sig))"
  using assms by (induction signals) (auto simp: collect_signals_def)

lemma dma_axi_widths:
  assumes "uut ''dma_axi_awaddr'' = Some aw" "uut ''dma_axi_wdata'' = Some dw" "uut ''dma_axi_wstrb'' = Some sw"
  shows "axi_widths (dma_Axi4LiteBFM_handles uut [(''clk'', ''clk''), (''rst'', ''rst_l'')]) = (if sw = dw div 8 then Inr (aw, dw, sw) else Inl AssertionError)"
  using assms by (simp add: axi_widths_def width_of_def dma_Axi4LiteBFM_handles_def dma_Axi4LiteBFM_SIGNALS_def collect_signals_def)

section \<open>Properties\<close>





end
