(* ===== verification/Spec2Isabelle.thy ===== *)
theory Spec2Isabelle
  imports Exu_Alu Exu_Mul Exu_Div Trigger_Logic Ccm Dma_Bench Pic Csrs Jtag_Tap Bin2hex Dec_Ib Trace_Log Pmp_Random
    Dec_Bench Tlu_Bench Dec_Pmp_Ctl Axi_To_Ahb Jtag_Regs Dmi_Bench Code_Fixup Ifu_Compress Core_Benches Soc_Report Core_Setting
    Nox_Sessions Axi_Wrap Bench_Envs
begin

text \<open>
  \<^bold>\<open>A verification of the Python test environment of the VeeR EL2 core.\<close>

  The repository's own Python program is the block-level test environment of a RISC-V core
  (\<open>RISC-V-Veer-EL2/verification/block\<close>) and a few tools around it. Each block has a bench built the
  same way: a sequence makes random items; a driver turns an item into assignments to the pins of
  the device and waits for clock edges; monitors sample the pins and report what they saw; a
  scoreboard replays the reports against a reference model and decides whether the test passed.
  A core is released on the word of these benches, so what has to be right is that a bench passes
  exactly when the device did what it should: that drivers and monitors agree on what was driven,
  that the reference models are the specification, and that no scoreboard passes by accident.

  \<^bold>\<open>How the program is modelled.\<close>

  \<^item> Python: integers are unbounded \<open>int\<close>; dictionaries are maps, or association lists where the
    code iterates over them; exceptions are values of \<open>py_error\<close>, and every raise, failed assertion
    and early return is a branch (\<open>Py_Prelude\<close>). Log messages are left out, except where building
    the message raises.
  \<^item> Coroutines: a driver is the list of its actions (\<open>Await\<close> a trigger, \<open>Drive\<close> a pin); a monitor is
    a function of the pins sampled at the clock edges. Random draws are arguments.
  \<^item> Third-party code is a parameter with its documented behaviour as a named hypothesis: the
    pyuvm port (\<open>fifo_port\<close>, \<open>fifo_can_get\<close>: items come out once each, in order), the pins of the
    device (\<open>rd s v\<close>: what pin \<open>s\<close> reads after \<open>v\<close> was assigned; \<open>holds_width\<close>: pins keep what fits them),
    the device itself, with signals that may not be resolved (\<open>sig_value\<close>) where the code tests for
    it, the external assembler (\<open>assembles\<close>, the \<open>listing\<close> of \<open>Ifu_Compress\<close>), the trace entry of
    riscv-dv (\<open>new\<close>), register values of cocotb (\<open>bv_reads\<close>, \<open>bv_stores\<close>) and its logic arrays
    (\<open>logic_ops\<close> with \<open>logic_laws\<close>), the random draws (\<open>fair_draws\<close> where a loop waits for one), the order in
    which a set is run through (\<open>orders\<close>), scipy's binomial distribution, the configuration database
    and the phases of pyuvm (\<open>config_db\<close>, \<open>top_down\<close>), the rendering of jinja2 (\<open>jinja_renders\<close>) and the
    program \<open>make\<close> (\<open>make_local\<close>). Every hypothesis has a concrete instance in the witness of the
    theorem that uses it.
  \<^item> Loops without a bound of their own (\<open>pair_loop\<close>, \<open>drain_loop\<close>, \<open>bridge_loop\<close>, \<open>bisect_grow\<close>,
    \<open>axi_beats\<close>, \<open>read_beats\<close>, \<open>invalid_addr\<close>, \<open>fresh_item\<close>) are partial functions into \<open>option\<close>; the
    theorems state when they return. No fuel is used anywhere; the waits of the drivers have the
    bounds of the source (100 cycles for the divider, 200 edges for the AHB and AXI models and the
    read responder, 31 and 21 edges for the two channels of the AXI to AHB bridge, the configured
    time-outs for the other buses).
  \<^item> Concurrent coroutines of one bench meet at clock edges and queues. Where their order within an
    edge is not fixed, the step is a relation over all interleavings (\<open>w_edge\<close> of \<open>Axi_To_Ahb\<close>).
  \<^item> Texts are lists of ASCII characters; those of \<open>Soc_Map\<close> and \<open>Soc_Report\<close>, which have others, are
    lists of the bytes of their UTF-8 encoding.

  \<^bold>\<open>The theories, and the code they model.\<close>

  \<^item> \<open>Py_Prelude\<close>: exceptions, coroutines, bit lemmas. \<open>Bin_Str\<close>: binary numerals as strings.
  \<^item> \<open>Uvm_Port\<close>: the two loops of all scoreboards over their ports. The locale \<open>pair_scoreboard\<close> is the
    contract of a scoreboard that compares pairs of items; it is interpreted for the ALU, the
    multiplier, the divider, both trigger benches, the instruction buffer, the random protection
    bench and the bench of the protection registers.
  \<^item> \<open>Pulse_Unit\<close>: the locale \<open>pulse_unit\<close>, the contract between a driver that raises \<open>valid\<close> for one
    cycle and its monitors; interpreted for the ALU and the multiplier.
  \<^item> \<open>Signal_Script\<close>: monitors that follow a script of waits and samples, and the locale \<open>script_unit\<close>, their
    contract with a driver; interpreted for the input and output monitors of the decoder and the
    trap unit.
  \<^item> \<open>Exu_Alu\<close> (\<open>exu_alu/testbench.py\<close>), \<open>Exu_Mul\<close> (\<open>exu_mul\<close>), \<open>Exu_Div\<close> (\<open>exu_div\<close>): the whole
    benches. The reference models are shown to be the RISC-V operations on 32-bit words, and
    driver, monitors and scoreboard together to pass exactly the right devices.
  \<^item> \<open>Trigger_Logic\<close> (\<open>dec_tl\<close>, \<open>lsu_tl\<close>): random triggers, drivers, monitors, scoreboards; the
    predictor's string comparison is the masked match of the specification.
  \<^item> \<open>Ccm\<close> (\<open>dccm\<close>, \<open>iccm\<close>): the memory benches; a run passes exactly when every read returns the last
    write.
  \<^item> \<open>Bus_Utils\<close> (\<open>common/utils.py\<close>): byte lanes and the search for time-outs. \<open>Axi_Bus\<close>
    (\<open>common/axi.py\<close> and \<open>Axi4LiteBFM\<close> of \<open>dma/testbench.py\<close>): the AXI monitor and the bus functional
    model, and that the monitor sees what the model drives.
  \<^item> \<open>Dma_Scoreboard\<close> (\<open>dma/scoreboards.py\<close>): the locale \<open>parity_scoreboard\<close>, interpreted for the read
    and the write scoreboard, and the access scoreboard. \<open>Dma_Bench\<close> (\<open>dma/testbench.py\<close>,
    \<open>dma/sequences.py\<close>): memory model and monitor, debug interface and monitor, sequences.
  \<^item> \<open>Pic\<close> (\<open>pic/testbench.py\<close>): register map, drivers, monitors (locale \<open>change_monitor\<close>), the
    predictor of the claimed interrupt.
  \<^item> \<open>Csrs\<close> (\<open>common/csrs.py\<close>): what is read back from each control register.
  \<^item> \<open>Csr_Bench\<close>, \<open>Dec_Bench\<close> (\<open>dec/testbench.py\<close>), \<open>Tlu_Bench\<close> (\<open>dec_tlu_ctl/testbench.py\<close>): what the two
    benches share (register lists, trigger packets), their random items, drivers, monitors and
    scoreboards. \<open>Dec_Pmp_Ctl\<close> (\<open>dec_pmp_ctl\<close>): the bench of the protection registers with its tests.
  \<^item> \<open>Ahb_Bus\<close> (\<open>lib_ahb_to_axi4/testbench.py\<close>): AHB manager, AHB monitor, AXI subordinate, scoreboard.
    \<open>Axi_To_Ahb\<close> (\<open>lib_axi4_to_ahb\<close>): the sequences and their coordinator, drivers and functional models of
    the AXI channels and of the AHB side, monitors, scoreboard.
  \<^item> \<open>Jtag_Tap\<close> (\<open>dmi/jtag_predictor.py\<close>, \<open>dmi/test_dmi_tap_fsm.py\<close>): the TAP state machine as a step
    relation, and the table and path of its test. \<open>Jtag_Regs\<close> (\<open>dmi/jtag_predictor.py\<close>, \<open>jtag_seq.py\<close>,
    \<open>dmi_seq.py\<close>): instruction, shift and data registers on bit arrays, refined to numbers, and the
    JTAG sequences. \<open>Dmi_Bench\<close> (\<open>dmi/dmi_bfm.py\<close>, \<open>jtag_bfm.py\<close>, \<open>testbench.py\<close>): memories, drivers,
    monitors, scoreboard, and the whole test.
  \<^item> \<open>Dec_Ib\<close> (\<open>dec_ib/testbench.py\<close>): debug commands as instructions.
  \<^item> \<open>Bin2hex\<close> (\<open>Honours-Project-Packet-Buffering/sw/bin2hex.py\<close>): firmware images as hex text.
  \<^item> \<open>Pmp\<close> (\<open>pmp/testbench.py\<close>, \<open>pmp/common.py\<close>): register map, decoding of protection entries, driver,
    monitor, scoreboard, boundary accesses. \<open>Pmp_Random\<close> (\<open>pmp_random/testbench.py\<close>): the random bench,
    with the locale \<open>pair_scoreboard\<close> interpreted again.
  \<^item> \<open>Trace_Log\<close> (\<open>tools/riscv-dv/veer_log_to_trace_csv.py\<close>): the queue that joins instructions of the
    execution log with their delayed register writes. \<open>Code_Fixup\<close> (\<open>code_fixup.py\<close>): the insertion of
    \<open>nop\<close> instructions. \<open>Py_Regex\<close>: search and replacement in texts, and a backtracking matcher for
    regular expressions. \<open>Core_Setting\<close> (\<open>riscv_core_setting.py\<close>): parsers, classification and text of the core
    settings for the instruction generator.
  \<^item> \<open>Ifu_Compress\<close> (\<open>ifu_compress/testbench.py\<close>): random instruction pairs, driver, monitor and scoreboard of
    the decompressor bench. \<open>Core_Benches\<close> (\<open>ifu_mem_ctl/common.py\<close>, \<open>dcls/testbench.py\<close>,
    \<open>top/test_pyuvm/test_irq\<close>): the fetch controller's read responder and accesses, the lockstep bench, the
    interrupt bench.
  \<^item> \<open>Soc_Map\<close> (\<open>Reliable_Data_Transport_System/docs/phase1\<close>): the sheets of the memory map and of the
    registers, and the two scripts that move the peripherals. \<open>Soc_Report\<close> (\<open>generate_phase1_excel.py\<close>): how
    the sheets are written, cell by cell; no cell is written twice, and the two maps read back as the
    sheets that the scripts start from.
  \<^item> \<open>Uvm_Env\<close>: classes of components as lists of statements of their build and connect phases, the
    execution of the phases in any order, and a reference order with the same events. \<open>Bench_Envs\<close> (all
    \<open>testbench.py\<close> files, the agents, \<open>common/axi.py\<close>, \<open>dma/scoreboards.py\<close>): the components of all benches
    with their configuration, the signal lists of the functional models, and that every bench comes
    up and its scoreboard gets the items of its monitors. The environment of the AXI to AHB bridge is
    defined, but not among \<open>benches\<close>: the kernel takes minutes to evaluate it.
  \<^item> \<open>Nox_Sessions\<close> (\<open>noxfile.py\<close>): the test sessions, the files they leave and their verdict.
  \<^item> \<open>Axi_Wrap\<close> (\<open>Honours-Project-Packet-Buffering/scripts/axi_interconnect_wrap.py\<close>): the template of the
    interconnect wrapper, and that the generated module connects every port.

  \<^bold>\<open>What the properties show.\<close> The reference models refine the instruction set (ALU, multiplier,
  triggers, interrupt priorities, CSR fields, the JTAG registers). Scoreboards pass exactly under the
  stated condition, and what they do otherwise, exceptions included. Drivers and monitors together
  lose nothing and invent nothing, for every timing of the device. Loops return. Encodings are read
  back. The generated settings, the interconnect wrapper and the rewritten assembly
  and memory map hold what they should. The benches can be put together in every order of their phases,
  and no test session overwrites the results of another.
  Some properties and remarks state where the code falls short of its intention: resets without
  effect, protection ranges decoded wrongly, scoreboards that forget a mismatch or cannot fail,
  checks that raise instead of reporting, requests withdrawn without a handshake, lists lost to the
  preprocessor. Remarks are theorems of the same standing as the numbered properties.

  \<^bold>\<open>What is not modelled.\<close> Clock generation and logging have no state of their own. Of
  \<open>generate_phase1_excel.py\<close> the rows of the descriptive sheets are arguments of the model. The lint sessions of
  \<open>noxfile.py\<close>, the riscof plug-ins, the index generator, the templates of the UVM bench generator and the
  scripts of the continuous integration run other programs or fill in templates: they move data between
  files and other programs.
\<close>

end
